(* ===== verification/Prelude.thy ===== *)
theory Prelude
  imports Main "HOL-Library.Word"
begin

unbundle bit_operations_syntax

text \<open>
  What every component of the development shares: the types that name bytes, counters and
  clocks of the C code, abnormal termination as a value, lists of bits with their numeric value
  (the view in which the PDU encoder and decoder are specified), the splice that models
  \<open>memcpy\<close> into a buffer, and the collections of facts the component proofs are run with.
\<close>

section \<open>Collections\<close>

named_theorems res_simps \<open>abnormal termination\<close>
named_theorems bits_simps \<open>bit lists\<close>
named_theorems rlc_defs \<open>definitions of the RLC operations\<close>
named_theorems pdcp_defs \<open>definitions of the PDCP operations\<close>

section \<open>Types of the C code\<close>

type_synonym byte = "8 word"
type_synonym u32 = "32 word"
type_synonym u64 = "64 word"

section \<open>Abnormal termination\<close>

text \<open>
  \<open>exit(1)\<close>, a failed \<open>AssertFatal\<close> or \<open>DevAssert\<close>, a read through a null pointer and an
  access outside a buffer end the process (or are undefined behaviour, which the model treats in
  the same way). They are the \<open>Inl\<close> values of the type \<open>'a res\<close> below.
\<close>

datatype fault = ExitFatal | AssertFailed | NullDeref | OutOfBounds | NoReturn

type_synonym 'a res = "fault + 'a"

text \<open>How a computation ended, when it did not return.\<close>

definition fault_of :: "'a res \<Rightarrow> fault option" where
  "fault_of m = (case m of Inl f \<Rightarrow> Some f | Inr x \<Rightarrow> None)"

lemma fault_of_simps [simp]: "fault_of (Inl f) = Some f" "fault_of (Inr x) = None"
  by (simp_all add: fault_of_def)

text \<open>It returned, with a value that has the property.\<close>

definition res_holds :: "('a \<Rightarrow> bool) \<Rightarrow> 'a res \<Rightarrow> bool" where
  "res_holds P r = (case r of Inr x \<Rightarrow> P x | Inl f \<Rightarrow> False)"

definition res_bind :: "'a res \<Rightarrow> ('a \<Rightarrow> 'b res) \<Rightarrow> 'b res" where
  "res_bind m k = (case m of Inl f \<Rightarrow> Inl f | Inr x \<Rightarrow> k x)"

text \<open>Concrete runs are evaluated with the binds as case distinctions.\<close>

declare res_bind_def [code_unfold]

lemma res_bind_Inl [simp, res_simps]: "res_bind (Inl f) k = Inl f"
  by (simp add: res_bind_def)

lemma res_bind_Inr [simp, res_simps]: "res_bind (Inr x) k = k x"
  by (simp add: res_bind_def)

lemma res_bind_assoc: "res_bind (res_bind m f) g = res_bind m (\<lambda>x. res_bind (f x) g)"
  by (simp add: res_bind_def split: sum.split)

lemma res_bind_eq_Inr [res_simps]:
  "res_bind m k = Inr y \<longleftrightarrow> (\<exists>x. m = Inr x \<and> k x = Inr y)"
  by (cases m) auto

lemma res_bind_eq_Inl [res_simps]:
  "res_bind m k = Inl f \<longleftrightarrow> m = Inl f \<or> (\<exists>x. m = Inr x \<and> k x = Inl f)"
  by (cases m) auto

lemma res_bind_cong [fundef_cong]:
  "m = m' \<Longrightarrow> (\<And>x. m' = Inr x \<Longrightarrow> k x = k' x) \<Longrightarrow> res_bind m k = res_bind m' k'"
  by (cases m') auto

section \<open>Bit lists\<close>

text \<open>Most significant bit first, as the PDU headers are laid out.\<close>

definition bits_of_val :: "nat \<Rightarrow> int \<Rightarrow> bool list" where
  "bits_of_val n v = map (\<lambda>i. bit v (n - 1 - i)) [0..<n]"

definition val_of_bits :: "bool list \<Rightarrow> int" where
  "val_of_bits bs = foldl (\<lambda>a b. 2 * a + of_bool b) 0 bs"

definition byte_bits :: "byte \<Rightarrow> bool list" where
  "byte_bits b = map (\<lambda>i. bit b (7 - i)) [0..<8]"

definition bytes_bits :: "byte list \<Rightarrow> bool list" where
  "bytes_bits bs = concat (map byte_bits bs)"

lemma length_bits_of_val [simp]: "length (bits_of_val n v) = n"
  by (simp add: bits_of_val_def)

lemma length_byte_bits [simp]: "length (byte_bits b) = 8"
  by (simp add: byte_bits_def)

lemma length_bytes_bits [simp]: "length (bytes_bits bs) = 8 * length bs"
  by (induction bs) (auto simp: bytes_bits_def)

lemma bytes_bits_Nil [simp]: "bytes_bits [] = []"
  by (simp add: bytes_bits_def)

lemma bytes_bits_Cons [simp]: "bytes_bits (b # bs) = byte_bits b @ bytes_bits bs"
  by (simp add: bytes_bits_def)

lemma bytes_bits_append [simp]: "bytes_bits (xs @ ys) = bytes_bits xs @ bytes_bits ys"
  by (simp add: bytes_bits_def)

lemma bits_of_val_0 [simp]: "bits_of_val 0 v = []"
  by (simp add: bits_of_val_def)

lemma bits_of_val_Suc: "bits_of_val (Suc n) v = bit v n # bits_of_val n v"
proof -
  have "[0..<Suc n] = 0 # map Suc [0..<n]"
    by (simp add: map_Suc_upt upt_conv_Cons del: upt_Suc)
  then show ?thesis
    by (simp add: bits_of_val_def comp_def del: upt_Suc)
qed

lemma bits_of_val_Suc_snoc: "bits_of_val (Suc n) v = bits_of_val n (v div 2) @ [odd v]"
  by (auto simp: bits_of_val_def bit_Suc [symmetric] bit_0 Suc_diff_Suc
      intro!: map_cong)

lemma val_of_bits_Nil [simp]: "val_of_bits [] = 0"
  by (simp add: val_of_bits_def)

lemma val_of_bits_snoc [simp]: "val_of_bits (bs @ [b]) = 2 * val_of_bits bs + of_bool b"
  by (simp add: val_of_bits_def)

lemma val_of_bits_nonneg [simp]: "0 \<le> val_of_bits bs"
  by (induction bs rule: rev_induct) auto

lemma val_of_bits_less: "val_of_bits bs < 2 ^ length bs"
  by (induction bs rule: rev_induct) auto

lemma val_of_bits_of_val [simp]: "val_of_bits (bits_of_val n v) = take_bit n v"
proof (induction n arbitrary: v)
  case 0
  then show ?case by simp
next
  case (Suc n)
  then show ?case
    by (simp add: bits_of_val_Suc_snoc take_bit_Suc del: take_bit_of_1)
       (simp add: mod2_eq_if)
qed

lemma byte_bits_nth [simp]: "i < 8 \<Longrightarrow> byte_bits b ! i = bit b (7 - i)"
  by (simp add: byte_bits_def)

lemma bytes_bits_nth:
  "i < 8 * length bs \<Longrightarrow> bytes_bits bs ! i = bit (bs ! (i div 8)) (7 - i mod 8)"
proof (induction bs arbitrary: i)
  case Nil
  then show ?case by simp
next
  case (Cons b bs)
  show ?case
  proof (cases "i < 8")
    case True
    then show ?thesis by (simp add: nth_append)
  next
    case False
    then obtain j where j: "i = j + 8" by (metis add.commute le_Suc_ex not_less)
    with Cons.prems have "j < 8 * length bs" by simp
    moreover have "i div 8 = Suc (j div 8)" "i mod 8 = j mod 8" using j by simp_all
    ultimately show ?thesis using Cons.IH [of j] j by (simp add: nth_append)
  qed
qed

lemma bytes_bits_take: "take (8 * n) (bytes_bits bs) = bytes_bits (take n bs)"
proof (induction n arbitrary: bs)
  case (Suc n)
  then show ?case by (cases bs) auto
qed simp

lemma bytes_bits_drop: "drop (8 * n) (bytes_bits bs) = bytes_bits (drop n bs)"
proof (induction n arbitrary: bs)
  case (Suc n)
  then show ?case by (cases bs) auto
qed simp

lemma byte_bits_inject: "byte_bits a = byte_bits b \<Longrightarrow> a = b"
proof (rule bit_word_eqI)
  fix n assume eq: "byte_bits a = byte_bits b" and "n < LENGTH(8)"
  then have "byte_bits a ! (7 - n) = byte_bits b ! (7 - n)" "7 - n < 8" by simp_all
  with \<open>n < LENGTH(8)\<close> show "bit a n = bit b n"
    by (simp add: byte_bits_def)
qed

lemma bytes_bits_inject: "bytes_bits xs = bytes_bits ys \<Longrightarrow> xs = ys"
proof (induction xs arbitrary: ys)
  case Nil
  then show ?case by (cases ys) (auto dest: arg_cong [where f = length])
next
  case (Cons x xs)
  then have "length (bytes_bits (x # xs)) = length (bytes_bits ys)" by simp
  then obtain y zs where ys: "ys = y # zs" by (cases ys) auto
  from Cons.prems have "byte_bits x = byte_bits y" "bytes_bits xs = bytes_bits zs"
    unfolding ys by (simp_all add: append_eq_append_conv)
  with Cons.IH ys show ?case by (auto dest: byte_bits_inject)
qed

section \<open>Lists\<close>

lemma sum_list_lengths:
  "(\<And>x. x \<in> set l \<Longrightarrow> f x = int (length (g x))) \<Longrightarrow>
   sum_list (map f l) = int (length (concat (map g l)))"
  by (induction l) auto

section \<open>Copying into a buffer\<close>

text \<open>\<open>memcpy(buf + off, src, n)\<close>: an access outside the buffer is a fault.\<close>

definition splice :: "'a list \<Rightarrow> nat \<Rightarrow> 'a list \<Rightarrow> 'a list res" where
  "splice buf off src =
     (if off + length src \<le> length buf
      then Inr (take off buf @ src @ drop (off + length src) buf)
      else Inl OutOfBounds)"

lemma splice_Inr: "splice buf off src = Inr buf' \<Longrightarrow> length buf' = length buf"
  by (auto simp: splice_def split: if_splits)

text \<open>
  \<open>memcpy(dst, src + off, n)\<close> from a source of known size: reading past the end is a fault.
\<close>

definition slice :: "'a list \<Rightarrow> int \<Rightarrow> int \<Rightarrow> 'a list res" where
  "slice src off n =
     (if 0 \<le> off \<and> 0 \<le> n \<and> off + n \<le> int (length src)
      then Inr (take (nat n) (drop (nat off) src)) else Inl OutOfBounds)"

lemma splice_0 [simp]:
  "length src \<le> length buf \<Longrightarrow> splice buf 0 src = Inr (src @ drop (length src) buf)"
  by (simp add: splice_def)

lemma slice_all [simp]: "n = int (length src) \<Longrightarrow> slice src 0 n = Inr src"
  by (simp add: slice_def)

end
