(* ===== verification/RlcPdu.thy ===== *)
theory RlcPdu
  imports Prelude "HOL-Library.Multiset"
begin

unbundle bit_operations_syntax

text \<open>
  \<open>openair2/LAYER2/nr_rlc/nr_rlc_pdu.c\<close>: received PDUs and the ordered reception list, the bit
  decoder and the bit encoder of RLC headers.

  A pair \<open>char *buffer, int size\<close> is a list of bytes of length \<open>size\<close>. A linked list of PDUs is a
  HOL list, the null pointer the empty list. \<open>pdu_data = None\<close> is the null \<open>data\<close> pointer that the
  receiver leaves in a PDU whose SDU has been delivered.
\<close>

section \<open>RX PDU management\<close>

record nr_rlc_pdu =
  pdu_sn :: int
  pdu_data :: "byte list option"
  pdu_size :: int
  pdu_so :: int
  pdu_is_first :: bool
  pdu_is_last :: bool

definition nr_rlc_new_pdu :: "int \<Rightarrow> int \<Rightarrow> bool \<Rightarrow> bool \<Rightarrow> byte list \<Rightarrow> nr_rlc_pdu" where
  "nr_rlc_new_pdu sn so is_first is_last data =
     \<lparr>pdu_sn = sn, pdu_data = Some data, pdu_size = int (length data), pdu_so = so,
      pdu_is_first = is_first, pdu_is_last = is_last\<rparr>"

fun nr_rlc_pdu_list_add ::
  "(int \<Rightarrow> int \<Rightarrow> int) \<Rightarrow> nr_rlc_pdu list \<Rightarrow> nr_rlc_pdu \<Rightarrow> nr_rlc_pdu list" where
  "nr_rlc_pdu_list_add sn_compare [] pdu = [pdu]"
| "nr_rlc_pdu_list_add sn_compare (cur # rest) pdu =
     (if sn_compare (pdu_sn cur) (pdu_sn pdu) > 0 \<or>
         (pdu_sn cur = pdu_sn pdu \<and> pdu_so cur > pdu_so pdu)
      then pdu # cur # rest
      else cur # nr_rlc_pdu_list_add sn_compare rest pdu)"

section \<open>PDU decoder\<close>

record nr_rlc_pdu_decoder =
  dec_error :: bool
  dec_byte :: nat
  dec_bit :: nat
  dec_buffer :: "byte list"
  dec_size :: nat

definition nr_rlc_pdu_decoder_init :: "byte list \<Rightarrow> nr_rlc_pdu_decoder" where
  "nr_rlc_pdu_decoder_init buffer =
     \<lparr>dec_error = False, dec_byte = 0, dec_bit = 0, dec_buffer = buffer,
      dec_size = length buffer\<rparr>"

definition get_bit :: "nr_rlc_pdu_decoder \<Rightarrow> int \<times> nr_rlc_pdu_decoder" where
  "get_bit d =
     (if dec_byte d \<ge> dec_size d then (0, d\<lparr>dec_error := True\<rparr>)
      else let ret = of_bool (bit (dec_buffer d ! dec_byte d) (7 - dec_bit d))
           in if Suc (dec_bit d) = 8
              then (ret, d\<lparr>dec_bit := 0, dec_byte := Suc (dec_byte d)\<rparr>)
              else (ret, d\<lparr>dec_bit := Suc (dec_bit d)\<rparr>))"

fun get_bits_loop :: "nat \<Rightarrow> int \<Rightarrow> nr_rlc_pdu_decoder \<Rightarrow> int \<times> nr_rlc_pdu_decoder" where
  "get_bits_loop 0 ret d = (ret, d)"
| "get_bits_loop (Suc n) ret d =
     (let (b, d') = get_bit d
      in if dec_error d' then (-1, d') else get_bits_loop n (push_bit 1 ret OR b) d')"

definition nr_rlc_pdu_decoder_get_bits ::
  "nr_rlc_pdu_decoder \<Rightarrow> int \<Rightarrow> (int \<times> nr_rlc_pdu_decoder) res" where
  "nr_rlc_pdu_decoder_get_bits d nbits =
     (if nbits > 31 then Inl ExitFatal else Inr (get_bits_loop (nat nbits) 0 d))"

text \<open>
  \<open>x = nr_rlc_pdu_decoder_get_bits(&decoder, n); R(decoder);\<close> as the entities use it: the macro
  \<open>R\<close> jumps to the label \<open>err\<close> when the decoder is in error.
\<close>

definition R_bits ::
  "'a res \<Rightarrow> nr_rlc_pdu_decoder \<Rightarrow> int \<Rightarrow> (int \<Rightarrow> nr_rlc_pdu_decoder \<Rightarrow> 'a res) \<Rightarrow> 'a res" where
  "R_bits err d n k =
     res_bind (nr_rlc_pdu_decoder_get_bits d n)
       (\<lambda>(v, d'). if dec_error d' then err else k v d')"

declare R_bits_def [code_unfold]

section \<open>PDU encoder\<close>

record nr_rlc_pdu_encoder =
  enc_byte :: nat
  enc_bit :: nat
  enc_buffer :: "byte list"
  enc_size :: nat

definition nr_rlc_pdu_encoder_init :: "byte list \<Rightarrow> nr_rlc_pdu_encoder" where
  "nr_rlc_pdu_encoder_init buffer =
     \<lparr>enc_byte = 0, enc_bit = 0, enc_buffer = buffer, enc_size = length buffer\<rparr>"

definition put_bit :: "nr_rlc_pdu_encoder \<Rightarrow> bool \<Rightarrow> nr_rlc_pdu_encoder res" where
  "put_bit e b =
     (if enc_byte e = enc_size e then Inl ExitFatal
      else let x = push_bit 1 (enc_buffer e ! enc_byte e);
               x' = (if b then x OR 1 else x);
               e' = e\<lparr>enc_buffer := (enc_buffer e)[enc_byte e := x']\<rparr>
           in Inr (if Suc (enc_bit e) = 8
                   then e'\<lparr>enc_bit := 0, enc_byte := Suc (enc_byte e)\<rparr>
                   else e'\<lparr>enc_bit := Suc (enc_bit e)\<rparr>))"

fun put_bits_loop :: "nat \<Rightarrow> int \<Rightarrow> int \<Rightarrow> nr_rlc_pdu_encoder \<Rightarrow> nr_rlc_pdu_encoder res" where
  "put_bits_loop 0 value x e = Inr e"
| "put_bits_loop (Suc n) value x e =
     res_bind (put_bit e (value AND x \<noteq> 0)) (put_bits_loop n value (drop_bit 1 x))"

definition nr_rlc_pdu_encoder_put_bits ::
  "nr_rlc_pdu_encoder \<Rightarrow> int \<Rightarrow> int \<Rightarrow> nr_rlc_pdu_encoder res" where
  "nr_rlc_pdu_encoder_put_bits e value nbits =
     (if nbits > 31 then Inl ExitFatal
      else put_bits_loop (nat nbits) value (push_bit (nat (nbits - 1)) 1) e)"

section \<open>What the decoder computes\<close>

text \<open>
  A decoder stands somewhere in the bit string of its buffer; \<open>dec_rest\<close> is what is left of it.
  Reading \<open>n\<close> bits returns the number the next \<open>n\<close> bits spell, or sets the error flag.
\<close>

definition dec_ok :: "nr_rlc_pdu_decoder \<Rightarrow> bool" where
  "dec_ok d \<longleftrightarrow> \<not> dec_error d \<and> dec_bit d < 8 \<and> dec_size d = length (dec_buffer d) \<and>
     8 * dec_byte d + dec_bit d \<le> 8 * dec_size d"

definition dec_rest :: "nr_rlc_pdu_decoder \<Rightarrow> bool list" where
  "dec_rest d = drop (8 * dec_byte d + dec_bit d) (bytes_bits (dec_buffer d))"

lemma dec_ok_init [simp]: "dec_ok (nr_rlc_pdu_decoder_init buf)"
  by (simp add: dec_ok_def nr_rlc_pdu_decoder_init_def)

lemma dec_rest_init [simp]: "dec_rest (nr_rlc_pdu_decoder_init buf) = bytes_bits buf"
  by (simp add: dec_rest_def nr_rlc_pdu_decoder_init_def)

lemma dec_buffer_init [simp]: "dec_buffer (nr_rlc_pdu_decoder_init buf) = buf"
  by (simp add: nr_rlc_pdu_decoder_init_def)

lemma length_dec_rest:
  "length (dec_rest d) = 8 * length (dec_buffer d) - (8 * dec_byte d + dec_bit d)"
  by (simp add: dec_rest_def)

lemma get_bit_Cons:
  assumes "dec_ok d" and "dec_rest d = b # bs"
  obtains d' where "get_bit d = (of_bool b, d')" "dec_ok d'" "dec_rest d' = bs"
    "dec_buffer d' = dec_buffer d"
    "8 * dec_byte d' + dec_bit d' = Suc (8 * dec_byte d + dec_bit d)"
proof -
  let ?i = "8 * dec_byte d + dec_bit d"
  from assms have lt: "?i < 8 * length (dec_buffer d)"
    by (metis dec_rest_def drop_all leI length_bytes_bits list.distinct(1))
  with assms have byte: "\<not> dec_size d \<le> dec_byte d" by (auto simp: dec_ok_def)
  have "b = bytes_bits (dec_buffer d) ! ?i"
    using assms(2) lt by (simp add: dec_rest_def Cons_nth_drop_Suc [symmetric])
  then have b: "b = bit (dec_buffer d ! dec_byte d) (7 - dec_bit d)"
    using lt assms(1) by (simp add: bytes_bits_nth dec_ok_def)
  have bs: "bs = drop (Suc ?i) (bytes_bits (dec_buffer d))"
    using assms(2) lt by (simp add: dec_rest_def Cons_nth_drop_Suc [symmetric])
  define d' where "d' = snd (get_bit d)"
  have eq: "get_bit d = (of_bool b, d')"
    using byte b by (simp add: get_bit_def d'_def Let_def)
  have pos: "8 * dec_byte d' + dec_bit d' = Suc ?i"
    and ok: "dec_bit d' < 8 \<and> \<not> dec_error d'"
    and same: "dec_buffer d' = dec_buffer d \<and> dec_size d' = dec_size d"
    using byte assms(1) by (auto simp: d'_def get_bit_def Let_def dec_ok_def)
  show thesis
  proof (rule that [OF eq])
    show "dec_ok d'" using pos ok same lt assms(1) by (simp add: dec_ok_def)
    show "dec_rest d' = bs" using bs pos same by (simp add: dec_rest_def)
  qed (use same pos in auto)
qed

lemma get_bit_Nil:
  "dec_ok d \<Longrightarrow> dec_rest d = [] \<Longrightarrow> get_bit d = (0, d\<lparr>dec_error := True\<rparr>)"
  by (simp add: get_bit_def dec_rest_def dec_ok_def)

lemma push_or_bit: "push_bit 1 (a::int) OR of_bool b = 2 * a + of_bool b"
proof -
  have "2 * a AND of_bool b = 0"
    by (rule bit_eqI) (auto simp: bit_simps bit_double_iff)
  then show ?thesis by (simp add: disjunctive_add_eq_or mult.commute)
qed

lemma get_bits_loop_ok:
  assumes "dec_ok d" and "dec_rest d = bs @ rest"
  shows "\<exists>d'. get_bits_loop (length bs) (val_of_bits acc) d = (val_of_bits (acc @ bs), d') \<and>
    dec_ok d' \<and> dec_rest d' = rest \<and> dec_buffer d' = dec_buffer d \<and>
    8 * dec_byte d' + dec_bit d' = 8 * dec_byte d + dec_bit d + length bs"
  using assms
proof (induction bs arbitrary: d acc)
  case Nil
  then show ?case by auto
next
  case (Cons b bs)
  from Cons.prems(2) have "dec_rest d = b # (bs @ rest)" by simp
  with Cons.prems(1) obtain d1 where d1: "get_bit d = (of_bool b, d1)" "dec_ok d1"
      "dec_rest d1 = bs @ rest" "dec_buffer d1 = dec_buffer d"
      "8 * dec_byte d1 + dec_bit d1 = Suc (8 * dec_byte d + dec_bit d)"
    by (rule get_bit_Cons)
  have acc: "push_bit 1 (val_of_bits acc) OR of_bool b = val_of_bits (acc @ [b])"
    by (simp only: push_or_bit val_of_bits_snoc)
  have "\<not> dec_error d1" using d1(2) by (simp add: dec_ok_def)
  then have "get_bits_loop (length (b # bs)) (val_of_bits acc) d =
      get_bits_loop (length bs) (val_of_bits (acc @ [b])) d1"
    using d1(1) acc by (simp del: push_bit_Suc push_bit_of_1)
  with Cons.IH [of d1 "acc @ [b]"] d1 show ?case by auto
qed

lemma get_bits_loop_short:
  "dec_ok d \<Longrightarrow> length (dec_rest d) < n \<Longrightarrow>
   \<exists>d'. get_bits_loop n acc d = (-1, d') \<and> dec_error d'"
proof (induction n arbitrary: d acc)
  case 0
  then show ?case by simp
next
  case (Suc n)
  show ?case
  proof (cases "dec_rest d")
    case Nil
    with Suc.prems(1) show ?thesis by (simp add: get_bit_Nil)
  next
    case (Cons b bs)
    with Suc.prems(1) obtain d1 where d1: "get_bit d = (of_bool b, d1)" "dec_ok d1"
        "dec_rest d1 = bs" by (rule get_bit_Cons)
    from Suc.prems(2) Cons d1(3) have "length (dec_rest d1) < n" by simp
    with Suc.IH [OF d1(2)] d1 show ?thesis by (auto simp: dec_ok_def)
  qed
qed

lemma get_bits_ok:
  assumes "dec_ok d" and "dec_rest d = bs @ rest" and "n = int (length bs)" and "n \<le> 31"
  shows "\<exists>d'. nr_rlc_pdu_decoder_get_bits d n = Inr (val_of_bits bs, d') \<and>
    dec_ok d' \<and> dec_rest d' = rest \<and> dec_buffer d' = dec_buffer d \<and>
    8 * dec_byte d' + dec_bit d' = 8 * dec_byte d + dec_bit d + length bs"
  using get_bits_loop_ok [OF assms(1,2), of "[]"] assms(3,4)
  by (simp add: nr_rlc_pdu_decoder_get_bits_def)

lemma get_bits_short:
  assumes "dec_ok d" and "int (length (dec_rest d)) < n" and "n \<le> 31"
  shows "\<exists>d'. nr_rlc_pdu_decoder_get_bits d n = Inr (-1, d') \<and> dec_error d'"
proof -
  from assms have "length (dec_rest d) < nat n" by linarith
  from get_bits_loop_short [OF assms(1) this] assms(3) show ?thesis
    by (simp add: nr_rlc_pdu_decoder_get_bits_def)
qed

text \<open>The two outcomes of a checked read, as the entities' parsers meet them.\<close>

lemma R_bits_ok:
  assumes "dec_ok d" and "dec_rest d = bs @ rest" and "n = int (length bs)" and "n \<le> 31"
  obtains d' where "R_bits err d n k = k (val_of_bits bs) d'" "dec_ok d'" "dec_rest d' = rest"
    "dec_buffer d' = dec_buffer d"
    "8 * dec_byte d' + dec_bit d' = 8 * dec_byte d + dec_bit d + length bs"
  using get_bits_ok [OF assms] that by (auto simp: R_bits_def dec_ok_def)

lemma R_bits_short:
  "dec_ok d \<Longrightarrow> int (length (dec_rest d)) < n \<Longrightarrow> n \<le> 31 \<Longrightarrow> R_bits err d n k = err"
  using get_bits_short [of d n] by (auto simp: R_bits_def)

lemma R_bits_cases:
  assumes "dec_ok d" and "0 \<le> n" and "n \<le> 31"
  obtains (short) "int (length (dec_rest d)) < n" "R_bits err d n k = err"
  | (ok) bs rest d' where "dec_rest d = bs @ rest" "n = int (length bs)"
      "R_bits err d n k = k (val_of_bits bs) d'" "dec_ok d'" "dec_rest d' = rest"
      "dec_buffer d' = dec_buffer d"
proof (cases "int (length (dec_rest d)) < n")
  case True
  with R_bits_short assms short show ?thesis by blast
next
  case False
  define bs rest where "bs = take (nat n) (dec_rest d)" and "rest = drop (nat n) (dec_rest d)"
  have "dec_rest d = bs @ rest" "n = int (length bs)"
    using False assms(2) by (auto simp: bs_def rest_def)
  with R_bits_ok [OF assms(1) this assms(3)] ok show ?thesis by metis
qed

text \<open>A property of both outcomes of a checked read holds of the read.\<close>

lemma R_bits_rule:
  assumes "dec_ok d" and "0 \<le> n" and "n \<le> 31" and "P err"
    and "\<And>v d'. dec_ok d' \<Longrightarrow> dec_buffer d' = dec_buffer d \<Longrightarrow>
      length (dec_rest d) = nat n + length (dec_rest d') \<Longrightarrow> 0 \<le> v \<Longrightarrow> v < 2 ^ nat n \<Longrightarrow> P (k v d')"
  shows "P (R_bits err d n k)"
  using assms(1-3)
proof (cases rule: R_bits_cases [where err = err and k = k])
  case short
  with assms(4) show ?thesis by simp
next
  case (ok bs rest d')
  with assms(5) val_of_bits_less [of bs] show ?thesis by simp
qed

lemma R_bits_bind: "res_bind (R_bits err d n k) f = R_bits (res_bind err f) d n (\<lambda>v d'. res_bind (k v d') f)"
  by (simp add: R_bits_def res_bind_def split: sum.split prod.split)

lemma bits_of_val_1: "bits_of_val (Suc 0) v = [odd v]"
  by (simp add: bits_of_val_def bit_0)

lemma val_of_two_bits: "val_of_bits [a, b] = 2 * of_bool a + of_bool b"
  by (simp add: val_of_bits_def)

lemma R_bits_step:
  assumes "dec_ok d" and "dec_rest d = bs @ rest" and "n = int (length bs)" and "n \<le> 31"
  shows "\<exists>d'. dec_ok d' \<and> dec_rest d' = rest \<and> 8 * dec_byte d' + dec_bit d' = 8 * dec_byte d + dec_bit d + length bs \<and>
    (\<forall>err k. R_bits err d n k = (k (val_of_bits bs) d' :: 'a res))"
proof -
  obtain d' where "nr_rlc_pdu_decoder_get_bits d n = Inr (val_of_bits bs, d')" "dec_ok d'" "dec_rest d' = rest"
    "8 * dec_byte d' + dec_bit d' = 8 * dec_byte d + dec_bit d + length bs" using get_bits_ok [OF assms] by blast
  moreover have "\<not> dec_error d'" using calculation(2) by (simp add: dec_ok_def)
  ultimately show ?thesis by (intro exI [of _ d']) (simp add: R_bits_def)
qed

section \<open>What the encoder computes\<close>

text \<open>
  \<open>enc_bits\<close> is the bit string written so far: the complete bytes, then the low bits of the byte
  in progress. \<open>put_bits\<close> appends to it, or ends the process when the buffer is full.
\<close>

definition enc_pos :: "nr_rlc_pdu_encoder \<Rightarrow> nat" where
  "enc_pos e = 8 * enc_byte e + enc_bit e"

definition enc_ok :: "nr_rlc_pdu_encoder \<Rightarrow> bool" where
  "enc_ok e \<longleftrightarrow> enc_bit e < 8 \<and> enc_size e = length (enc_buffer e) \<and>
     enc_pos e \<le> 8 * enc_size e"

definition enc_bits :: "nr_rlc_pdu_encoder \<Rightarrow> bool list" where
  "enc_bits e = bytes_bits (take (enc_byte e) (enc_buffer e)) @
     (if enc_bit e = 0 then [] else drop (8 - enc_bit e) (byte_bits (enc_buffer e ! enc_byte e)))"

lemma enc_ok_init [simp]: "enc_ok (nr_rlc_pdu_encoder_init buf)"
  by (simp add: enc_ok_def enc_pos_def nr_rlc_pdu_encoder_init_def)

lemma enc_bits_init [simp]: "enc_bits (nr_rlc_pdu_encoder_init buf) = []"
  by (simp add: enc_bits_def nr_rlc_pdu_encoder_init_def)

lemma enc_pos_init [simp]: "enc_pos (nr_rlc_pdu_encoder_init buf) = 0"
  by (simp add: enc_pos_def nr_rlc_pdu_encoder_init_def)

lemma enc_buffer_init [simp]: "enc_buffer (nr_rlc_pdu_encoder_init buf) = buf"
  by (simp add: nr_rlc_pdu_encoder_init_def)

lemma enc_size_init [simp]: "enc_size (nr_rlc_pdu_encoder_init buf) = length buf"
  by (simp add: nr_rlc_pdu_encoder_init_def)

lemma bit_double_byte:
  fixes x :: byte
  shows "bit (x * 2) n \<longleftrightarrow> 0 < n \<and> n < 8 \<and> bit x (n - 1)"
proof -
  have "x * 2 = push_bit 1 x" by simp
  then show ?thesis
    by (simp only: bit_push_bit_iff) (auto simp: Suc_le_eq dest: bit_imp_le_length)
qed

lemma byte_bits_shift:
  assumes "k < 8"
  shows "drop (8 - Suc k) (byte_bits (if b then push_bit 1 x OR 1 else push_bit 1 x)) =
    drop (8 - k) (byte_bits x) @ [b]" (is "?l = ?r")
proof (rule nth_equalityI)
  show "length ?l = length ?r" using assms by simp
next
  fix i assume "i < length ?l"
  then have i: "i \<le> k" using assms by simp
  have ix: "7 - (7 - k + i) = k - i" using i assms by simp
  have "?l ! i = bit (if b then push_bit 1 x OR 1 else push_bit 1 x) (k - i)"
    using i assms ix by simp
  also have "\<dots> = (if i = k then b else bit x (k - i - 1))"
    using i assms by (auto simp: bit_simps bit_double_byte)
  also have "\<dots> = ?r ! i"
  proof (cases "i = k")
    case False
    then have "8 - k + i < 8" "7 - (8 - k + i) = k - i - 1" using i assms by auto
    with False i assms show ?thesis by (simp add: nth_append)
  qed (use assms in \<open>simp add: nth_append\<close>)
  finally show "?l ! i = ?r ! i" .
qed

lemma put_bit_ok:
  assumes "enc_ok e" and "enc_pos e < 8 * enc_size e"
  shows "\<exists>e'. put_bit e b = Inr e' \<and> enc_ok e' \<and> enc_bits e' = enc_bits e @ [b] \<and>
    enc_pos e' = Suc (enc_pos e) \<and> enc_size e' = enc_size e \<and>
    length (enc_buffer e') = length (enc_buffer e)"
proof -
  let ?x = "if b then push_bit 1 (enc_buffer e ! enc_byte e) OR 1
            else push_bit 1 (enc_buffer e ! enc_byte e)"
  have byte: "enc_byte e < length (enc_buffer e)" and bit: "enc_bit e < 8"
    using assms by (auto simp: enc_ok_def enc_pos_def)
  define e' where "e' = projr (put_bit e b)"
  have eq: "put_bit e b = Inr e'"
    using byte assms(1) by (simp add: put_bit_def e'_def Let_def enc_ok_def)
  have len: "length (enc_buffer e') = length (enc_buffer e)" "enc_size e' = enc_size e"
    and pos: "enc_pos e' = Suc (enc_pos e)" and ok: "enc_bit e' < 8"
    using eq bit by (auto simp: put_bit_def Let_def enc_pos_def split: if_splits)
  note shift = byte_bits_shift [OF bit, of b "enc_buffer e ! enc_byte e"]
  have "enc_bits e' = enc_bits e @ [b]"
  proof (cases "Suc (enc_bit e) = 8")
    case True
    then have "enc_buffer e' = (enc_buffer e)[enc_byte e := ?x]" "enc_byte e' = Suc (enc_byte e)"
        "enc_bit e' = 0" "enc_bit e = 7"
      using eq byte assms(1) by (auto simp: put_bit_def Let_def enc_ok_def)
    with byte shift show ?thesis
      by (simp add: enc_bits_def take_Suc_conv_app_nth)
  next
    case False
    then have "enc_buffer e' = (enc_buffer e)[enc_byte e := ?x]" "enc_byte e' = enc_byte e"
        "enc_bit e' = Suc (enc_bit e)"
      using eq byte assms(1) by (auto simp: put_bit_def Let_def enc_ok_def)
    with byte shift show ?thesis by (simp add: enc_bits_def)
  qed
  with eq len pos ok assms show ?thesis by (simp add: enc_ok_def)
qed

lemma put_bits_loop_ok:
  "enc_ok e \<Longrightarrow> enc_pos e + n \<le> 8 * enc_size e \<Longrightarrow> (0 < n \<longrightarrow> x = push_bit (n - 1) 1) \<Longrightarrow>
   \<exists>e'. put_bits_loop n v x e = Inr e' \<and> enc_ok e' \<and> enc_bits e' = enc_bits e @ bits_of_val n v \<and>
     enc_pos e' = enc_pos e + n \<and> enc_size e' = enc_size e \<and>
     length (enc_buffer e') = length (enc_buffer e)"
proof (induction n arbitrary: e x)
  case 0
  then show ?case by auto
next
  case (Suc n)
  have b: "(v AND x \<noteq> 0) = bit v n"
    using Suc.prems(3) by (simp add: bit_iff_and_push_bit_not_eq_0)
  obtain e1 where e1: "put_bit e (bit v n) = Inr e1" "enc_ok e1"
      "enc_bits e1 = enc_bits e @ [bit v n]" "enc_pos e1 = Suc (enc_pos e)"
      "enc_size e1 = enc_size e" "length (enc_buffer e1) = length (enc_buffer e)"
    using put_bit_ok [OF Suc.prems(1), of "bit v n"] Suc.prems(2) by auto
  have "0 < n \<longrightarrow> drop_bit 1 x = push_bit (n - 1) 1"
  proof
    assume "0 < n"
    then obtain m where "n = Suc m" by (cases n) auto
    with Suc.prems(3) show "drop_bit 1 x = push_bit (n - 1) 1"
      by (simp add: push_bit_Suc drop_bit_Suc mult.commute)
  qed
  with Suc.IH [OF e1(2), of "drop_bit 1 x"] e1 Suc.prems(2) show ?case
    by (auto simp: b bits_of_val_Suc)
qed

lemma put_bits_ok:
  assumes "enc_ok e" and "enc_pos e + nat n \<le> 8 * enc_size e" and "n \<le> 31"
  obtains e' where "nr_rlc_pdu_encoder_put_bits e v n = Inr e'" "enc_ok e'"
    "enc_bits e' = enc_bits e @ bits_of_val (nat n) v" "enc_pos e' = enc_pos e + nat n"
    "enc_size e' = enc_size e" "length (enc_buffer e') = length (enc_buffer e)"
proof -
  have "0 < nat n \<longrightarrow> push_bit (nat (n - 1)) 1 = push_bit (nat n - 1) (1::int)"
    by (simp add: nat_diff_distrib)
  from put_bits_loop_ok [OF assms(1,2) this, of v] assms(3) that show thesis
    by (auto simp: nr_rlc_pdu_encoder_put_bits_def)
qed

lemma put_bit_full: "enc_byte e = enc_size e \<Longrightarrow> put_bit e b = Inl ExitFatal"
  by (simp add: put_bit_def)

section \<open>Fields written are the fields read\<close>

text \<open>A header is a sequence of fields, each a value and a width in bits.\<close>

fun put_fields :: "(int \<times> int) list \<Rightarrow> nr_rlc_pdu_encoder \<Rightarrow> nr_rlc_pdu_encoder res" where
  "put_fields [] e = Inr e"
| "put_fields ((v, n) # fs) e =
     res_bind (nr_rlc_pdu_encoder_put_bits e v n) (put_fields fs)"

fun get_fields :: "int list \<Rightarrow> nr_rlc_pdu_decoder \<Rightarrow> (int list \<times> nr_rlc_pdu_decoder) res" where
  "get_fields [] d = Inr ([], d)"
| "get_fields (n # ns) d =
     res_bind (nr_rlc_pdu_decoder_get_bits d n) (\<lambda>(v, d').
     res_bind (get_fields ns d') (\<lambda>(vs, d''). Inr (v # vs, d'')))"

definition fields_ok :: "(int \<times> int) list \<Rightarrow> bool" where
  "fields_ok fs \<longleftrightarrow> (\<forall>(v, n) \<in> set fs. 0 \<le> n \<and> n \<le> 31)"

definition fields_bits :: "(int \<times> int) list \<Rightarrow> bool list" where
  "fields_bits fs = concat (map (\<lambda>(v, n). bits_of_val (nat n) v) fs)"

lemma fields_bits_simps [simp]:
  "fields_bits [] = []"
  "fields_bits ((v, n) # fs) = bits_of_val (nat n) v @ fields_bits fs"
  by (simp_all add: fields_bits_def)

lemma fields_bits_append [simp]: "fields_bits (xs @ ys) = fields_bits xs @ fields_bits ys"
  by (simp add: fields_bits_def)

lemma fields_ok_simps [simp]:
  "fields_ok []"
  "fields_ok ((v, n) # fs) \<longleftrightarrow> 0 \<le> n \<and> n \<le> 31 \<and> fields_ok fs"
  by (auto simp: fields_ok_def)

lemma put_fields_ok:
  assumes "enc_ok e" and "fields_ok fs" and "enc_pos e + length (fields_bits fs) \<le> 8 * enc_size e"
  shows "\<exists>e'. put_fields fs e = Inr e' \<and> enc_ok e' \<and> enc_bits e' = enc_bits e @ fields_bits fs \<and>
    enc_pos e' = enc_pos e + length (fields_bits fs) \<and> enc_size e' = enc_size e \<and>
    length (enc_buffer e') = length (enc_buffer e)"
  using assms
proof (induction fs arbitrary: e)
  case Nil
  then show ?case by simp
next
  case (Cons f fs)
  obtain v n where f: "f = (v, n)" by (cases f)
  from Cons.prems f have n: "n \<le> 31" and pos: "enc_pos e + nat n \<le> 8 * enc_size e" by simp_all
  from put_bits_ok [OF Cons.prems(1) pos n, of v] obtain e1 where e1:
    "nr_rlc_pdu_encoder_put_bits e v n = Inr e1" "enc_ok e1"
    "enc_bits e1 = enc_bits e @ bits_of_val (nat n) v" "enc_pos e1 = enc_pos e + nat n"
    "enc_size e1 = enc_size e" "length (enc_buffer e1) = length (enc_buffer e)" by blast
  with Cons.IH [of e1] Cons.prems f show ?case by auto
qed

lemma get_fields_ok:
  assumes "dec_ok d" and "fields_ok fs" and "dec_rest d = fields_bits fs @ rest"
  shows "\<exists>d'. get_fields (map snd fs) d = Inr (map (\<lambda>(v, n). take_bit (nat n) v) fs, d') \<and>
    dec_ok d' \<and> dec_rest d' = rest \<and> dec_buffer d' = dec_buffer d"
  using assms
proof (induction fs arbitrary: d)
  case Nil
  then show ?case by simp
next
  case (Cons f fs)
  obtain v n where f: "f = (v, n)" by (cases f)
  from Cons.prems f have n: "0 \<le> n" "n \<le> 31"
    and r: "dec_rest d = bits_of_val (nat n) v @ (fields_bits fs @ rest)" by simp_all
  from n have "n = int (length (bits_of_val (nat n) v))" by simp
  from get_bits_ok [OF Cons.prems(1) r this n(2)] Cons.IH Cons.prems f show ?case by fastforce
qed

text \<open>An encoder that stopped on a byte boundary has written the bits of its complete bytes.\<close>

lemma enc_bits_aligned:
  "enc_bit e = 0 \<Longrightarrow> enc_bits e = bytes_bits (take (enc_byte e) (enc_buffer e))"
  by (simp add: enc_bits_def)

lemma enc_aligned:
  assumes "enc_ok e" and "enc_pos e = 8 * k"
  shows "enc_bit e = 0" "enc_byte e = k"
proof -
  have "enc_bit e = enc_pos e mod 8" "enc_byte e = enc_pos e div 8"
    using assms(1) by (auto simp: enc_ok_def enc_pos_def)
  with assms(2) show "enc_bit e = 0" "enc_byte e = k" by simp_all
qed

text \<open>A header that fills whole bytes.\<close>

lemma put_header_ok:
  assumes "fields_ok fs" and "length (fields_bits fs) = 8 * k" and "k \<le> length buf"
  obtains n where "put_fields fs (nr_rlc_pdu_encoder_init buf) = Inr n" "enc_byte n = k" "enc_bit n = 0"
    "bytes_bits (take k (enc_buffer n)) = fields_bits fs" "length (enc_buffer n) = length buf"
proof -
  obtain n where n: "put_fields fs (nr_rlc_pdu_encoder_init buf) = Inr n" "enc_ok n"
    "enc_bits n = fields_bits fs" "enc_pos n = 8 * k" "length (enc_buffer n) = length buf"
    using put_fields_ok [of "nr_rlc_pdu_encoder_init buf" fs] assms by auto
  note al = enc_aligned [OF n(2,4)]
  show thesis
    by (rule that) (use n al enc_bits_aligned [OF al(1)] in auto)
qed

text \<open>
  Header fields written with \<open>nr_rlc_pdu_encoder_put_bits\<close> into a buffer with enough room are
  the fields \<open>nr_rlc_pdu_decoder_get_bits\<close> reads back (each value modulo two to its width),
  whatever the buffer held before, when the header ends on a byte boundary as every RLC header does.
\<close>

theorem rlc_codec_roundtrip:
  assumes "fields_ok fs" and "length (fields_bits fs) = 8 * k" and "k \<le> length buf"
  shows "\<exists>e d. put_fields fs (nr_rlc_pdu_encoder_init buf) = Inr e \<and>
    enc_byte e = k \<and> enc_bit e = 0 \<and>
    get_fields (map snd fs) (nr_rlc_pdu_decoder_init (take k (enc_buffer e) @ payload)) =
      Inr (map (\<lambda>(v, n). take_bit (nat n) v) fs, d) \<and>
    \<not> dec_error d \<and> dec_byte d = k \<and> dec_bit d = 0"
proof -
  obtain e where e: "put_fields fs (nr_rlc_pdu_encoder_init buf) = Inr e" "enc_ok e"
      "enc_bits e = fields_bits fs" "enc_pos e = 8 * k"
      "length (enc_buffer e) = length buf"
    using put_fields_ok [of "nr_rlc_pdu_encoder_init buf" fs] assms
    by (auto simp: nr_rlc_pdu_encoder_init_def enc_ok_def enc_pos_def enc_bits_def)
  note al = enc_aligned [OF e(2,4)]
  let ?d = "nr_rlc_pdu_decoder_init (take k (enc_buffer e) @ payload)"
  have "dec_rest ?d = fields_bits fs @ bytes_bits payload"
    using e(3) al by (simp add: enc_bits_aligned)
  from get_fields_ok [OF dec_ok_init assms(1) this] obtain d where d:
    "get_fields (map snd fs) ?d = Inr (map (\<lambda>(v, n). take_bit (nat n) v) fs, d)"
    "dec_ok d" "dec_rest d = bytes_bits payload" "dec_buffer d = take k (enc_buffer e) @ payload"
    by auto
  have "length (dec_rest d) = 8 * length payload" using d(3) by simp
  then have "8 * dec_byte d + dec_bit d = 8 * k \<and> dec_bit d < 8"
    using d(2,4) e(5) assms(3) by (auto simp: length_dec_rest dec_ok_def)
  then have "dec_byte d = k \<and> dec_bit d = 0" by presburger
  with e(1) al d(1,2) show ?thesis by (auto simp: dec_ok_def)
qed

theorem rlc_codec_roundtrip_witness:
  "\<exists>e d. put_fields [(1, 1), (0, 1), (2, 2), (1234, 12)] (nr_rlc_pdu_encoder_init [255, 7, 9]) = Inr e \<and>
    enc_byte e = 2 \<and> enc_bit e = 0 \<and>
    get_fields [1, 1, 2, 12] (nr_rlc_pdu_decoder_init (take 2 (enc_buffer e) @ [170])) =
      Inr ([1, 0, 2, 1234], d) \<and>
    \<not> dec_error d \<and> dec_byte d = 2 \<and> dec_bit d = 0"
  using rlc_codec_roundtrip [of "[(1, 1), (0, 1), (2, 2), (1234, 12)]" 2 "[255, 7, 9]" "[170]"]
  by simp

text \<open>
  Reading past the end of the buffer never yields a value: the decoder reports the error
  (value \<open>-1\<close> and the error flag), and the checked read of the entities takes its error branch.
\<close>

theorem rlc_decoder_overrun:
  assumes "dec_ok d" and "int (length (dec_rest d)) < n" and "n \<le> 31"
  shows "(\<exists>d'. nr_rlc_pdu_decoder_get_bits d n = Inr (-1, d') \<and> dec_error d') \<and>
    R_bits err d n k = (err :: unit res)"
  using get_bits_short [OF assms] R_bits_short [OF assms] by auto

theorem rlc_decoder_overrun_witness:
  "(\<exists>d'. nr_rlc_pdu_decoder_get_bits (nr_rlc_pdu_decoder_init [1, 2]) 18 = Inr (-1, d') \<and> dec_error d') \<and>
    R_bits (Inl ExitFatal) (nr_rlc_pdu_decoder_init [1, 2]) 18 (\<lambda>v d. Inr ()) = Inl ExitFatal"
  using rlc_decoder_overrun [of "nr_rlc_pdu_decoder_init [1, 2]" 18 "Inl ExitFatal" "\<lambda>v d. Inr ()"]
  by simp

section \<open>The ordered reception list\<close>

text \<open>
  The reception lists are kept in the order of a comparison of sequence numbers that is relative to
  the receive window: a difference of keys, injective on the valid sequence numbers. This is all
  that \<open>nr_rlc_pdu_list_add\<close> and the walks over the list need of it.
\<close>

definition pdu_before :: "(int \<Rightarrow> int) \<Rightarrow> nr_rlc_pdu \<Rightarrow> nr_rlc_pdu \<Rightarrow> bool" where
  "pdu_before key p q \<longleftrightarrow> key (pdu_sn p) < key (pdu_sn q) \<or>
     (pdu_sn p = pdu_sn q \<and> pdu_so p \<le> pdu_so q)"

lemma mset_pdu_list_add [simp]:
  "mset (nr_rlc_pdu_list_add cmp l p) = add_mset p (mset l)"
  by (induction l) auto

lemma set_pdu_list_add [simp]: "set (nr_rlc_pdu_list_add cmp l p) = insert p (set l)"
  by (induction l) auto

lemma sum_pdu_list_add:
  fixes f :: "nr_rlc_pdu \<Rightarrow> int"
  shows "sum_list (map f (nr_rlc_pdu_list_add cmp l p)) = f p + sum_list (map f l)"
  by (induction l) auto

locale sn_order =
  fixes cmp :: "int \<Rightarrow> int \<Rightarrow> int"
    and key :: "int \<Rightarrow> int"
    and valid :: "int \<Rightarrow> bool"
  assumes cmp_key: "cmp a b = key a - key b"
    and key_inj: "valid a \<Longrightarrow> valid b \<Longrightarrow> key a = key b \<Longrightarrow> a = b"
begin

lemma before_trans: "pdu_before key p q \<Longrightarrow> pdu_before key q r \<Longrightarrow> pdu_before key p r"
  by (auto simp: pdu_before_def)

lemma before_total:
  "valid (pdu_sn p) \<Longrightarrow> valid (pdu_sn q) \<Longrightarrow> \<not> pdu_before key p q \<Longrightarrow> pdu_before key q p"
  using key_inj [of "pdu_sn p" "pdu_sn q"] by (auto simp: pdu_before_def not_less le_less)

lemma list_add_sorted:
  assumes "sorted_wrt (pdu_before key) l" and "\<forall>p \<in> set l. valid (pdu_sn p)" and "valid (pdu_sn q)"
  shows "sorted_wrt (pdu_before key) (nr_rlc_pdu_list_add cmp l q)"
  using assms
proof (induction l)
  case Nil
  then show ?case by simp
next
  case (Cons c l)
  show ?case
  proof (cases "cmp (pdu_sn c) (pdu_sn q) > 0 \<or> (pdu_sn c = pdu_sn q \<and> pdu_so c > pdu_so q)")
    case True
    then have "pdu_before key q c" by (auto simp: cmp_key pdu_before_def)
    with True Cons.prems show ?thesis by (auto intro: before_trans)
  next
    case False
    then have "pdu_before key c q"
      using Cons.prems key_inj [of "pdu_sn c" "pdu_sn q"]
      by (auto simp: cmp_key pdu_before_def)
    with False Cons show ?thesis by auto
  qed
qed

text \<open>
  In a sorted list the segments of one sequence number are neighbours: walking to the first of them
  and on while the number stays the same meets all of them.
\<close>

lemma same_sn_block:
  assumes "sorted_wrt (pdu_before key) l" and "\<forall>p \<in> set l. valid (pdu_sn p)"
  shows "takeWhile (\<lambda>p. pdu_sn p = s) (dropWhile (\<lambda>p. pdu_sn p \<noteq> s) l) = filter (\<lambda>p. pdu_sn p = s) l"
  using assms
proof (induction l)
  case Nil
  then show ?case by simp
next
  case (Cons c l)
  show ?case
  proof (cases "pdu_sn c = s")
    case False
    with Cons show ?thesis by simp
  next
    case True
    have "takeWhile (\<lambda>p. pdu_sn p = s) l = filter (\<lambda>p. pdu_sn p = s) l"
      using Cons.prems True
    proof (induction l)
      case (Cons x l)
      show ?case
      proof (cases "pdu_sn x = s")
        case True
        with Cons show ?thesis by simp
      next
        case False
        then have "key s < key (pdu_sn x)" using Cons.prems by (auto simp: pdu_before_def)
        moreover have "key (pdu_sn x) \<le> key (pdu_sn y)" if "y \<in> set l" for y
          using that Cons.prems by (auto simp: pdu_before_def)
        ultimately have "\<forall>y \<in> set l. pdu_sn y \<noteq> s" by force
        with False show ?thesis by (simp add: filter_empty_conv)
      qed
    qed simp
    with True show ?thesis by simp
  qed
qed

end

end
