(* ===== verification/RlcSdu.thy ===== *)
theory RlcSdu
  imports RlcPdu
begin

text \<open>
  \<open>openair2/LAYER2/nr_rlc/nr_rlc_sdu.c\<close>: SDUs waiting for transmission and their segments.

  Several segments share one \<open>nr_rlc_sdu_t\<close>, which counts how often it was segmented
  (\<open>ref_count\<close>) and how many segments were released (\<open>free_count\<close>); it is released with the last
  one. The sharing matters, so SDUs live in a heap, a map from addresses to SDUs, and a segment
  holds an address. A segment sits in one list at a time and is a value. An end pointer
  (\<open>tx_end\<close>, \<open>wait_end\<close>) is the segment it points to, \<open>None\<close> the null pointer.
\<close>

section \<open>SDUs, segments and the heap\<close>

record nr_rlc_sdu =
  sdu_sn :: int
  sdu_upper_layer_id :: int
  sdu_data :: "byte list"
  sdu_size :: int
  sdu_retx_count :: int
  sdu_ref_count :: int
  sdu_free_count :: int
  sdu_time_of_arrival :: u64

type_synonym addr = nat

record nr_rlc_sdu_segment =
  seg_sdu :: addr
  seg_size :: int
  seg_so :: int
  seg_is_first :: bool
  seg_is_last :: bool

type_synonym segment = nr_rlc_sdu_segment

text \<open>\<open>heap_next\<close> is the address the next allocation returns.\<close>

record sdu_heap =
  heap_map :: "addr \<Rightarrow> nr_rlc_sdu option"
  heap_next :: addr

definition heap_empty :: sdu_heap where
  "heap_empty = \<lparr>heap_map = Map.empty, heap_next = 0\<rparr>"

text \<open>
  \<open>segment->sdu\<close>. A freed or never allocated address reads as \<open>null_sdu\<close>; the invariants of the
  entities show that no segment of theirs ever holds such an address.
\<close>

definition null_sdu :: nr_rlc_sdu where
  "null_sdu = \<lparr>sdu_sn = -1, sdu_upper_layer_id = 0, sdu_data = [], sdu_size = 0, sdu_retx_count = -1,
     sdu_ref_count = 0, sdu_free_count = 0, sdu_time_of_arrival = 0\<rparr>"

definition sdu_of :: "sdu_heap \<Rightarrow> segment \<Rightarrow> nr_rlc_sdu" where
  "sdu_of h s = (case heap_map h (seg_sdu s) of Some u \<Rightarrow> u | None \<Rightarrow> null_sdu)"

abbreviation seg_sn :: "sdu_heap \<Rightarrow> segment \<Rightarrow> int" where
  "seg_sn h s \<equiv> sdu_sn (sdu_of h s)"

definition heap_upd :: "addr \<Rightarrow> (nr_rlc_sdu \<Rightarrow> nr_rlc_sdu) \<Rightarrow> sdu_heap \<Rightarrow> sdu_heap" where
  "heap_upd a f h = h\<lparr>heap_map := (heap_map h)(a := map_option f (heap_map h a))\<rparr>"

section \<open>Operations\<close>

definition nr_rlc_new_sdu :: "byte list \<Rightarrow> int \<Rightarrow> sdu_heap \<Rightarrow> segment \<times> sdu_heap" where
  "nr_rlc_new_sdu buffer upper_layer_id h =
     (let a = heap_next h;
          sdu = \<lparr>sdu_sn = -1, sdu_upper_layer_id = upper_layer_id, sdu_data = buffer,
                 sdu_size = int (length buffer), sdu_retx_count = -1, sdu_ref_count = 1,
                 sdu_free_count = 0, sdu_time_of_arrival = 0\<rparr>
      in (\<lparr>seg_sdu = a, seg_size = int (length buffer), seg_so = 0,
           seg_is_first = True, seg_is_last = True\<rparr>,
          h\<lparr>heap_map := (heap_map h)(a \<mapsto> sdu), heap_next := Suc a\<rparr>))"

definition nr_rlc_free_sdu_segment :: "segment \<Rightarrow> sdu_heap \<Rightarrow> bool \<times> sdu_heap" where
  "nr_rlc_free_sdu_segment s h =
     (let h1 = heap_upd (seg_sdu s) (sdu_free_count_update (\<lambda>n. n + 1)) h
      in if sdu_free_count (sdu_of h1 s) = sdu_ref_count (sdu_of h1 s)
         then (True, h1\<lparr>heap_map := (heap_map h1)(seg_sdu s := None)\<rparr>)
         else (False, h1))"

text \<open>
  \<open>(*end)->next = sdu\<close>: the list continues with \<open>sdu\<close> after the segment \<open>end\<close> points to; whatever
  followed that segment is cut off. With a null end pointer this is a null dereference.
\<close>

fun link_after :: "segment list \<Rightarrow> segment \<Rightarrow> segment \<Rightarrow> segment list" where
  "link_after [] e s = []"
| "link_after (x # xs) e s = (if x = e then [x, s] else x # link_after xs e s)"

definition nr_rlc_sdu_segment_list_append ::
  "segment list \<Rightarrow> segment option \<Rightarrow> segment \<Rightarrow> (segment list \<times> segment option) res" where
  "nr_rlc_sdu_segment_list_append lst end_ptr s =
     (if lst = [] then Inr ([s], Some s)
      else case end_ptr of None \<Rightarrow> Inl NullDeref
           | Some e \<Rightarrow> Inr (link_after lst e s, Some s))"

fun nr_rlc_free_sdu_segment_list :: "segment list \<Rightarrow> sdu_heap \<Rightarrow> sdu_heap" where
  "nr_rlc_free_sdu_segment_list [] h = h"
| "nr_rlc_free_sdu_segment_list (s # l) h =
     nr_rlc_free_sdu_segment_list l (snd (nr_rlc_free_sdu_segment s h))"

section \<open>The end pointer\<close>

definition end_of :: "'a list \<Rightarrow> 'a option" where
  "end_of l = (if l = [] then None else Some (last l))"

lemma end_of_simps [simp]:
  "end_of [] = None"
  "end_of (l @ [x]) = Some x"
  "end_of l = None \<longleftrightarrow> l = []"
  by (auto simp: end_of_def)

lemma end_of_Cons: "end_of (x # l) = (if l = [] then Some x else end_of l)"
  by (simp add: end_of_def)

lemma link_after_last:
  "distinct l \<Longrightarrow> l \<noteq> [] \<Longrightarrow> link_after l (last l) s = l @ [s]"
  by (induction l) auto

text \<open>With a correct end pointer the operation appends and keeps the pointer correct.\<close>

lemma segment_list_append_ok:
  assumes "distinct l"
  shows "nr_rlc_sdu_segment_list_append l (end_of l) s = Inr (l @ [s], end_of (l @ [s]))"
  using link_after_last [OF assms, of s]
  by (auto simp: nr_rlc_sdu_segment_list_append_def end_of_def)

section \<open>Heap lemmas\<close>

lemma heap_upd_map [simp]:
  "heap_map (heap_upd a f h) = (heap_map h)(a := map_option f (heap_map h a))"
  "heap_next (heap_upd a f h) = heap_next h"
  by (simp_all add: heap_upd_def)

lemma sdu_of_heap_upd:
  "sdu_of (heap_upd a f h) s =
     (if seg_sdu s = a \<and> heap_map h a \<noteq> None then f (sdu_of h s) else sdu_of h s)"
  by (auto simp: sdu_of_def split: option.splits)

lemma sdu_of_other [simp]:
  "seg_sdu s \<noteq> a \<Longrightarrow> sdu_of (heap_upd a f h) s = sdu_of h s"
  by (simp add: sdu_of_heap_upd)

lemma sdu_of_cong: "seg_sdu s = seg_sdu t \<Longrightarrow> sdu_of h s = sdu_of h t"
  by (simp add: sdu_of_def)

section \<open>Reference counting\<close>

text \<open>
  \<open>M\<close> is the multiset of all segments an entity holds, in whatever lists. Every segment's SDU is
  allocated, and \<open>ref_count - free_count\<close> of an SDU is the number of its segments, at least one:
  an SDU is released exactly when its last segment is.
\<close>

definition nsegs :: "addr \<Rightarrow> segment multiset \<Rightarrow> nat" where
  "nsegs a M = size (filter_mset (\<lambda>s. seg_sdu s = a) M)"

definition heap_inv :: "sdu_heap \<Rightarrow> segment multiset \<Rightarrow> bool" where
  "heap_inv h M \<longleftrightarrow> (\<forall>s \<in># M. heap_map h (seg_sdu s) \<noteq> None) \<and>
     (\<forall>a u. heap_map h a = Some u \<longrightarrow> a < heap_next h \<and> 0 < nsegs a M \<and>
        sdu_ref_count u - sdu_free_count u = int (nsegs a M))"

text \<open>The bytes of the SDUs that are allocated: what \<open>tx_size\<close> of an AM entity counts.\<close>

definition heap_bytes :: "sdu_heap \<Rightarrow> int" where
  "heap_bytes h = (\<Sum>a \<in> dom (heap_map h). sdu_size (the (heap_map h a)))"

lemma nsegs_simps [simp]:
  "nsegs a {#} = 0"
  "nsegs a (add_mset s M) = (if seg_sdu s = a then Suc (nsegs a M) else nsegs a M)"
  "nsegs a (M + N) = nsegs a M + nsegs a N"
  by (auto simp: nsegs_def)

lemma nsegs_pos: "s \<in># M \<Longrightarrow> 0 < nsegs (seg_sdu s) M"
  by (auto simp: nsegs_def nonempty_has_size [symmetric] filter_mset_eq_mempty_iff)

lemma nsegs_0: "nsegs a M = 0 \<Longrightarrow> s \<in># M \<Longrightarrow> seg_sdu s \<noteq> a"
  using nsegs_pos by fastforce

lemma heap_inv_empty [simp]: "heap_inv heap_empty {#}"
  by (simp add: heap_inv_def heap_empty_def)

lemma heap_bytes_empty [simp]: "heap_bytes heap_empty = 0"
  by (simp add: heap_bytes_def heap_empty_def)

lemma heap_inv_live: "heap_inv h M \<Longrightarrow> s \<in># M \<Longrightarrow> heap_map h (seg_sdu s) = Some (sdu_of h s)"
  by (auto simp: heap_inv_def sdu_of_def)

lemma heap_invD:
  assumes "heap_inv h M" and "heap_map h a = Some u"
  shows "a < heap_next h" "0 < nsegs a M" "sdu_ref_count u - sdu_free_count u = int (nsegs a M)"
  using assms by (auto simp: heap_inv_def)

lemma heap_inv_dom: "heap_inv h M \<Longrightarrow> finite (dom (heap_map h))"
  by (rule finite_subset [of _ "{..<heap_next h}"]) (auto simp: heap_inv_def)

lemma heap_inv_fresh: "heap_inv h M \<Longrightarrow> heap_map h (heap_next h) = None"
  by (cases "heap_map h (heap_next h)") (auto simp: heap_inv_def)

lemma heap_inv_no_segs: "heap_inv h {#} \<Longrightarrow> heap_map h = Map.empty"
  by (rule ext) (auto simp: heap_inv_def intro: ccontr)

lemma new_sdu_inv:
  assumes "heap_inv h M" and "nr_rlc_new_sdu buf i h = (s, h')"
  shows "heap_inv h' (add_mset s M)" "heap_bytes h' = heap_bytes h + int (length buf)"
    "\<forall>t \<in># M. sdu_of h' t = sdu_of h t \<and> seg_sdu t \<noteq> seg_sdu s"
    "sdu_of h' s = \<lparr>sdu_sn = -1, sdu_upper_layer_id = i, sdu_data = buf,
       sdu_size = int (length buf), sdu_retx_count = -1, sdu_ref_count = 1,
       sdu_free_count = 0, sdu_time_of_arrival = 0\<rparr>"
    "s = \<lparr>seg_sdu = heap_next h, seg_size = int (length buf), seg_so = 0,
       seg_is_first = True, seg_is_last = True\<rparr>"
proof -
  note fresh = heap_inv_fresh [OF assms(1)]
  have neq: "\<forall>t \<in># M. seg_sdu t \<noteq> heap_next h"
    using assms(1) fresh by (auto simp: heap_inv_def)
  then have n0: "nsegs (heap_next h) M = 0"
    by (simp add: nsegs_def filter_mset_eq_mempty_iff)
  show s: "s = \<lparr>seg_sdu = heap_next h, seg_size = int (length buf), seg_so = 0,
       seg_is_first = True, seg_is_last = True\<rparr>"
    using assms(2) by (simp add: nr_rlc_new_sdu_def Let_def)
  show "heap_inv h' (add_mset s M)"
    using assms n0 by (auto simp: heap_inv_def nr_rlc_new_sdu_def Let_def less_Suc_eq)
  have "heap_bytes h' = int (length buf) + (\<Sum>a \<in> dom (heap_map h). sdu_size (the (heap_map h' a)))"
    using assms(2) heap_inv_dom [OF assms(1)] fresh
    by (subst heap_bytes_def) (auto simp: nr_rlc_new_sdu_def Let_def domIff)
  also have "(\<Sum>a \<in> dom (heap_map h). sdu_size (the (heap_map h' a))) = heap_bytes h"
    unfolding heap_bytes_def using assms(2) fresh
    by (intro sum.cong) (auto simp: nr_rlc_new_sdu_def Let_def)
  finally show "heap_bytes h' = heap_bytes h + int (length buf)" by simp
  show "\<forall>t \<in># M. sdu_of h' t = sdu_of h t \<and> seg_sdu t \<noteq> seg_sdu s"
    using assms(2) neq s by (auto simp: nr_rlc_new_sdu_def Let_def sdu_of_def)
  show "sdu_of h' s = \<lparr>sdu_sn = -1, sdu_upper_layer_id = i, sdu_data = buf,
       sdu_size = int (length buf), sdu_retx_count = -1, sdu_ref_count = 1,
       sdu_free_count = 0, sdu_time_of_arrival = 0\<rparr>"
    using assms(2) by (auto simp: nr_rlc_new_sdu_def Let_def sdu_of_def)
qed

text \<open>What a change of the reference counters leaves alone.\<close>

definition same_sdu :: "nr_rlc_sdu \<Rightarrow> nr_rlc_sdu \<Rightarrow> bool" where
  "same_sdu u v \<longleftrightarrow> sdu_sn u = sdu_sn v \<and> sdu_upper_layer_id u = sdu_upper_layer_id v \<and>
     sdu_data u = sdu_data v \<and> sdu_size u = sdu_size v"

lemma same_sdu_refl [simp]: "same_sdu u u"
  by (simp add: same_sdu_def)

lemma same_sdu_trans: "same_sdu u v \<Longrightarrow> same_sdu v w \<Longrightarrow> same_sdu u w"
  by (simp add: same_sdu_def)

lemma heap_bytes_cong:
  assumes "dom (heap_map h') = dom (heap_map h)"
    and "\<And>a u v. heap_map h a = Some u \<Longrightarrow> heap_map h' a = Some v \<Longrightarrow> sdu_size v = sdu_size u"
  shows "heap_bytes h' = heap_bytes h"
  unfolding heap_bytes_def
proof (rule sum.cong [OF assms(1)])
  fix a assume a: "a \<in> dom (heap_map h)"
  then obtain u v where "heap_map h a = Some u" "heap_map h' a = Some v" using assms(1) by blast
  with assms(2) show "sdu_size (the (heap_map h' a)) = sdu_size (the (heap_map h a))" by simp
qed

lemma heap_upd_inv:
  assumes "heap_inv h M"
    and "\<And>u. sdu_ref_count (f u) = sdu_ref_count u \<and> sdu_free_count (f u) = sdu_free_count u"
  shows "heap_inv (heap_upd a f h) M"
  using assms by (auto simp: heap_inv_def)

lemma heap_upd_bytes:
  assumes "\<And>u. sdu_size (f u) = sdu_size u"
  shows "heap_bytes (heap_upd a f h) = heap_bytes h"
  using assms by (intro heap_bytes_cong) (auto split: if_splits)

lemma reseg_inv:
  assumes "heap_inv h (add_mset s M)" and "seg_sdu s1 = seg_sdu s" and "seg_sdu s2 = seg_sdu s"
  shows "heap_inv (heap_upd (seg_sdu s) (sdu_ref_count_update (\<lambda>n. n + 1)) h) (add_mset s1 (add_mset s2 M))"
    (is "heap_inv ?h ?M")
proof -
  have "a < heap_next ?h \<and> 0 < nsegs a ?M \<and> sdu_ref_count u - sdu_free_count u = int (nsegs a ?M)"
    if u: "heap_map ?h a = Some u" for a u
  proof (cases "a = seg_sdu s")
    case True
    with u obtain v where "heap_map h a = Some v" "u = sdu_ref_count_update (\<lambda>n. n + 1) v" by auto
    with heap_invD [OF assms(1), of a v] True assms(2,3) show ?thesis by simp
  next
    case False
    with u heap_invD [OF assms(1), of a u] assms(2,3) show ?thesis by auto
  qed
  moreover have "\<forall>t \<in># ?M. heap_map ?h (seg_sdu t) \<noteq> None"
    using assms by (auto simp: heap_inv_def)
  ultimately show ?thesis unfolding heap_inv_def by blast
qed

lemma free_segment_inv:
  assumes inv: "heap_inv h (add_mset s M)" and fr: "nr_rlc_free_sdu_segment s h = (b, h')"
  shows "heap_inv h' M" "b \<longleftrightarrow> nsegs (seg_sdu s) M = 0"
    "\<forall>t \<in># M. same_sdu (sdu_of h' t) (sdu_of h t)"
    "heap_bytes h' = heap_bytes h - (if b then sdu_size (sdu_of h s) else 0)"
proof -
  let ?a = "seg_sdu s" and ?h1 = "heap_upd (seg_sdu s) (sdu_free_count_update (\<lambda>n. n + 1)) h"
  let ?u = "sdu_of h s"
  have u: "heap_map h ?a = Some ?u" using heap_inv_live [OF inv] by simp
  then have u1: "sdu_of ?h1 s = sdu_free_count_update (\<lambda>n. n + 1) ?u"
    by (simp add: sdu_of_heap_upd)
  have cnt: "sdu_ref_count ?u - sdu_free_count ?u = int (Suc (nsegs ?a M))"
    using inv u by (auto simp: heap_inv_def)
  have b: "b \<longleftrightarrow> nsegs ?a M = 0"
    using fr cnt u1 by (auto simp: nr_rlc_free_sdu_segment_def Let_def split: if_splits)
  have h': "h' = (if b then ?h1\<lparr>heap_map := (heap_map ?h1)(?a := None)\<rparr> else ?h1)"
    using fr by (auto simp: nr_rlc_free_sdu_segment_def Let_def split: if_splits)
  have map: "heap_map h' = (heap_map h)(?a := if b then None else Some (sdu_free_count_update (\<lambda>n. n + 1) ?u))"
    and nxt: "heap_next h' = heap_next h"
    using h' u by auto
  show "b \<longleftrightarrow> nsegs ?a M = 0" by (rule b)
  have other: "seg_sdu t \<noteq> ?a" if "t \<in># M" "b" for t
    using that b nsegs_0 by blast
  show "heap_inv h' M"
    unfolding heap_inv_def
  proof (intro conjI ballI allI impI)
    fix t assume t: "t \<in># M"
    then have "heap_map h (seg_sdu t) \<noteq> None" using inv by (auto simp: heap_inv_def)
    with other [OF t] show "heap_map h' (seg_sdu t) \<noteq> None" by (auto simp: map)
  next
    fix a v assume v: "heap_map h' a = Some v"
    have old: "a < heap_next h \<and> 0 < nsegs a M \<and> sdu_ref_count v - sdu_free_count v = int (nsegs a M)"
    proof (cases "a = ?a")
      case True
      with v b cnt heap_invD(1) [OF inv u] show ?thesis by (auto simp: map split: if_splits)
    next
      case False
      with v heap_invD [OF inv, of a v] show ?thesis by (auto simp: map)
    qed
    then show "a < heap_next h'" "0 < nsegs a M" "sdu_ref_count v - sdu_free_count v = int (nsegs a M)"
      by (simp_all add: nxt)
  qed
  show "\<forall>t \<in># M. same_sdu (sdu_of h' t) (sdu_of h t)"
    using other u by (auto simp: same_sdu_def sdu_of_def map split: option.splits)
  show "heap_bytes h' = heap_bytes h - (if b then sdu_size ?u else 0)"
  proof (cases b)
    case True
    have dom: "dom (heap_map h) = insert ?a (dom (heap_map h'))" "?a \<notin> dom (heap_map h')"
      using u True by (auto simp: map)
    have "finite (dom (heap_map h'))" using heap_inv_dom [OF inv] dom(1) by simp
    then have "heap_bytes h = sdu_size ?u + (\<Sum>a \<in> dom (heap_map h'). sdu_size (the (heap_map h a)))"
      using dom u by (simp add: heap_bytes_def)
    also have "(\<Sum>a \<in> dom (heap_map h'). sdu_size (the (heap_map h a))) = heap_bytes h'"
      unfolding heap_bytes_def using True by (intro sum.cong) (auto simp: map)
    finally show ?thesis using True by simp
  next
    case False
    then show ?thesis using u by (auto intro!: heap_bytes_cong simp: map split: if_splits)
  qed
qed

text \<open>Releasing a whole list: what is left is accounted for by the other segments.\<close>

lemma free_segment_list_inv:
  "heap_inv h (mset l + M) \<Longrightarrow> heap_inv (nr_rlc_free_sdu_segment_list l h) M \<and>
   (\<forall>t \<in># M. same_sdu (sdu_of (nr_rlc_free_sdu_segment_list l h) t) (sdu_of h t))"
proof (induction l arbitrary: h)
  case Nil
  then show ?case by simp
next
  case (Cons s l)
  obtain b h1 where fr: "nr_rlc_free_sdu_segment s h = (b, h1)" by fastforce
  from Cons.prems have "heap_inv h (add_mset s (mset l + M))" by simp
  from free_segment_inv [OF this fr] Cons.IH [of h1] fr show ?case
    by (auto intro: same_sdu_trans)
qed

text \<open>
  C9: reference counting of segmented SDUs is exact: with every segment accounted for, releasing one
  segment keeps the accounting, leaves the other segments' SDUs as they are, and releases the SDU
  itself (and its bytes) exactly when it was the last segment.
\<close>

theorem sdu_reference_counting:
  assumes "heap_inv h (add_mset s M)"
  shows "case nr_rlc_free_sdu_segment s h of (released, h') \<Rightarrow>
    heap_inv h' M \<and>
    (released \<longleftrightarrow> (\<forall>t \<in># M. seg_sdu t \<noteq> seg_sdu s)) \<and>
    (\<forall>t \<in># M. same_sdu (sdu_of h' t) (sdu_of h t) \<and> heap_map h' (seg_sdu t) \<noteq> None) \<and>
    heap_bytes h' = heap_bytes h - (if released then sdu_size (sdu_of h s) else 0)"
proof -
  obtain b h' where fr: "nr_rlc_free_sdu_segment s h = (b, h')" by fastforce
  note f = free_segment_inv [OF assms fr]
  have "nsegs (seg_sdu s) M = 0 \<longleftrightarrow> (\<forall>t \<in># M. seg_sdu t \<noteq> seg_sdu s)"
    by (auto simp: nsegs_def filter_mset_eq_mempty_iff)
  moreover have "\<forall>t \<in># M. heap_map h' (seg_sdu t) \<noteq> None"
    using f(1) by (auto simp: heap_inv_def)
  ultimately show ?thesis using f fr by auto
qed

theorem sdu_reference_counting_witness:
  "case nr_rlc_new_sdu [1, 2] 7 heap_empty of (s, h) \<Rightarrow>
   case nr_rlc_free_sdu_segment s h of (released, h') \<Rightarrow>
    heap_inv h' {#} \<and> released \<and> heap_bytes h' = heap_bytes h - 2"
proof -
  obtain s h where new: "nr_rlc_new_sdu [1, 2] 7 heap_empty = (s, h)" by fastforce
  from new_sdu_inv [OF heap_inv_empty new] have inv: "heap_inv h (add_mset s {#})"
    and "sdu_size (sdu_of h s) = 2" by simp_all
  with sdu_reference_counting [OF inv] show ?thesis by (auto simp: new)
qed

section \<open>Allocation with a time of arrival\<close>

text \<open>\<open>recv_sdu\<close> of the entities allocates an SDU and, when the average is on, dates it.\<close>

definition new_sdu_dated :: "bool \<Rightarrow> u64 \<Rightarrow> byte list \<Rightarrow> int \<Rightarrow> sdu_heap \<Rightarrow> segment \<times> sdu_heap" where
  "new_sdu_dated on now buf i h =
     (let (s, h1) = nr_rlc_new_sdu buf i h
      in (s, if on then heap_upd (seg_sdu s) (sdu_time_of_arrival_update (\<lambda>_. now)) h1 else h1))"

lemma new_sdu_dated_inv:
  assumes "heap_inv h M" and "new_sdu_dated on now buf i h = (s, h')"
  shows "heap_inv h' (add_mset s M)" "heap_bytes h' = heap_bytes h + int (length buf)"
    "\<forall>t \<in># M. sdu_of h' t = sdu_of h t \<and> seg_sdu t \<noteq> seg_sdu s"
    "same_sdu (sdu_of h' s) (null_sdu\<lparr>sdu_upper_layer_id := i, sdu_data := buf, sdu_size := int (length buf)\<rparr>)"
    "s = \<lparr>seg_sdu = heap_next h, seg_size = int (length buf), seg_so = 0,
       seg_is_first = True, seg_is_last = True\<rparr>"
proof -
  obtain h1 where new: "nr_rlc_new_sdu buf i h = (s, h1)"
    and h': "h' = (if on then heap_upd (seg_sdu s) (sdu_time_of_arrival_update (\<lambda>_. now)) h1 else h1)"
    using assms(2) by (auto simp: new_sdu_dated_def split: prod.splits)
  note n = new_sdu_inv [OF assms(1) new]
  show "heap_inv h' (add_mset s M)" using n(1) by (auto simp: h' intro: heap_upd_inv)
  show "heap_bytes h' = heap_bytes h + int (length buf)" using n(2) by (simp add: h' heap_upd_bytes)
  show "\<forall>t \<in># M. sdu_of h' t = sdu_of h t \<and> seg_sdu t \<noteq> seg_sdu s" using n(3) by (auto simp: h')
  show "same_sdu (sdu_of h' s) (null_sdu\<lparr>sdu_upper_layer_id := i, sdu_data := buf, sdu_size := int (length buf)\<rparr>)"
    using n(4) by (auto simp: h' same_sdu_def null_sdu_def sdu_of_heap_upd)
  show "s = \<lparr>seg_sdu = heap_next h, seg_size = int (length buf), seg_so = 0,
       seg_is_first = True, seg_is_last = True\<rparr>" by (rule n(5))
qed

lemma new_sdu_dated_eq:
  "(case nr_rlc_new_sdu buf i h of (s, h1) \<Rightarrow>
      f s (if on then heap_upd (seg_sdu s) (sdu_time_of_arrival_update (\<lambda>_. now)) h1 else h1)) =
   (case new_sdu_dated on now buf i h of (s, h') \<Rightarrow> f s h')"
  by (simp add: new_sdu_dated_def split: prod.splits)

end
