(* ===== verification/TimeStat.thy ===== *)
theory TimeStat
  imports Prelude
begin

text \<open>
  \<open>common/utils/time_stat.c\<close>: the average of the values seen in a sliding window of time, kept in
  a ring that doubles when it is full. The RLC entities use it for the time an SDU waits.
  The reading of the clock, \<open>time_average_now\<close>, is an argument of the operations that call it.
\<close>

record time_value =
  tv_time :: u64
  tv_value :: u64

record time_ring =
  r_head :: nat
  r_tail :: nat
  r_buffer :: "time_value list"
  r_maxsize :: nat
  r_size :: nat

record time_average =
  ta_duration :: int
  ta_r :: time_ring
  ta_accumulated_value :: u64

definition tv_zero :: time_value where
  "tv_zero = \<lparr>tv_time = 0, tv_value = 0\<rparr>"

text \<open>The test \<open>initial_size & (initial_size - 1)\<close> accepts the powers of two (and zero).\<close>

definition time_average_new :: "int \<Rightarrow> int \<Rightarrow> time_average res" where
  "time_average_new duration initial_size =
     (if and initial_size (initial_size - 1) \<noteq> 0 then Inl ExitFatal
      else Inr \<lparr>ta_duration = duration,
        ta_r = \<lparr>r_head = nat (initial_size - 1), r_tail = 0,
                r_buffer = replicate (nat initial_size) tv_zero,
                r_maxsize = nat initial_size, r_size = 0\<rparr>,
        ta_accumulated_value = 0\<rparr>)"

definition time_average_reset :: "time_average \<Rightarrow> time_average" where
  "time_average_reset t =
     t\<lparr>ta_r := (ta_r t)\<lparr>r_head := r_maxsize (ta_r t) - 1, r_tail := 0, r_size := 0\<rparr>,
       ta_accumulated_value := 0\<rparr>"

definition ring_tail :: "time_average \<Rightarrow> time_value" where
  "ring_tail t = r_buffer (ta_r t) ! r_tail (ta_r t)"

definition drop_tail :: "time_average \<Rightarrow> time_average" where
  "drop_tail t =
     t\<lparr>ta_accumulated_value := ta_accumulated_value t - tv_value (ring_tail t),
       ta_r := (ta_r t)\<lparr>r_size := r_size (ta_r t) - 1,
         r_tail := Suc (r_tail (ta_r t)) mod r_maxsize (ta_r t)\<rparr>\<rparr>"

function remove_old :: "time_average \<Rightarrow> u64 \<Rightarrow> time_average" where
  "remove_old t now =
     (if r_size (ta_r t) \<noteq> 0 \<and> tv_time (ring_tail t) < now - word_of_int (ta_duration t)
      then remove_old (drop_tail t) now else t)"
  by pat_completeness auto
termination
  by (relation "measure (\<lambda>(t, now). r_size (ta_r t))") (auto simp: drop_tail_def)

declare remove_old.simps [simp del]

text \<open>
  The growth step: the buffer is reallocated at twice the size and, when the contents wrap around
  the end, the part at its beginning is copied behind the old end.
\<close>

definition ring_grow :: "time_ring \<Rightarrow> time_ring" where
  "ring_grow r =
     (let buf = r_buffer r @ replicate (r_maxsize r) tv_zero
      in if r_head r < r_tail r
         then r\<lparr>r_maxsize := 2 * r_maxsize r,
                r_buffer := take (r_size r) buf @ take (Suc (r_head r)) buf @
                  drop (r_size r + Suc (r_head r)) buf,
                r_head := r_head r + r_size r\<rparr>
         else r\<lparr>r_maxsize := 2 * r_maxsize r, r_buffer := buf\<rparr>)"

definition time_average_add :: "time_average \<Rightarrow> u64 \<Rightarrow> u64 \<Rightarrow> time_average" where
  "time_average_add t0 time val =
     (let t = remove_old t0 time;
          r = (if r_size (ta_r t) = r_maxsize (ta_r t) then ring_grow (ta_r t) else ta_r t);
          head = Suc (r_head r) mod r_maxsize r;
          r' = r\<lparr>r_head := head,
                 r_buffer := (r_buffer r)[head := \<lparr>tv_time = time, tv_value = val\<rparr>],
                 r_size := Suc (r_size r)\<rparr>
      in t\<lparr>ta_r := r', ta_accumulated_value := ta_accumulated_value t + val\<rparr>)"

text \<open>
  The average: the pair of the accumulated value and the number of values, whose quotient (a
  \<open>double\<close>) the code returns; \<open>None\<close> stands for the 0 it returns for an empty ring.
\<close>

definition time_average_get_average :: "time_average \<Rightarrow> u64 \<Rightarrow> (u64 \<times> nat) option \<times> time_average" where
  "time_average_get_average t0 time =
     (let t = remove_old t0 time
      in (if r_size (ta_r t) = 0 then None else Some (ta_accumulated_value t, r_size (ta_r t)), t))"

text \<open>The clock in microseconds, rounded, from the \<open>timespec\<close> the system returns.\<close>

definition time_average_now :: "u64 \<Rightarrow> nat \<Rightarrow> u64" where
  "time_average_now tv_sec tv_nsec =
     (let ret = tv_sec * 1000000 + of_nat (tv_nsec div 1000)
      in if tv_nsec mod 1000 \<ge> 500 then ret + 1 else ret)"

section \<open>The ring as a queue\<close>

text \<open>The values from the oldest to the newest.\<close>

definition ring_list :: "time_ring \<Rightarrow> time_value list" where
  "ring_list r = map (\<lambda>i. r_buffer r ! ((r_tail r + i) mod r_maxsize r)) [0..<r_size r]"

definition ring_ok :: "time_ring \<Rightarrow> bool" where
  "ring_ok r \<longleftrightarrow> 0 < r_maxsize r \<and> length (r_buffer r) = r_maxsize r \<and> r_tail r < r_maxsize r \<and>
     r_size r \<le> r_maxsize r \<and> r_head r < r_maxsize r \<and>
     Suc (r_head r) mod r_maxsize r = (r_tail r + r_size r) mod r_maxsize r"

definition ta_ok :: "time_average \<Rightarrow> bool" where
  "ta_ok t \<longleftrightarrow> ring_ok (ta_r t) \<and>
     ta_accumulated_value t = sum_list (map tv_value (ring_list (ta_r t)))"

lemma length_ring_list [simp]: "length (ring_list r) = r_size r"
  by (simp add: ring_list_def)

lemma ring_list_Cons:
  assumes "ring_ok r" and "r_size r = Suc n"
  shows "ring_list r = r_buffer r ! r_tail r #
    ring_list (r\<lparr>r_size := n, r_tail := Suc (r_tail r) mod r_maxsize r\<rparr>)"
proof -
  have "[0..<Suc n] = 0 # map Suc [0..<n]"
    by (simp add: map_Suc_upt upt_conv_Cons del: upt_Suc)
  then show ?thesis
    using assms by (simp add: ring_list_def ring_ok_def mod_add_left_eq comp_def del: upt_Suc)
qed

lemma drop_tail_ok:
  assumes "ta_ok t" and "r_size (ta_r t) \<noteq> 0"
  shows "ta_ok (drop_tail t)" and "ring_list (ta_r t) = ring_tail t # ring_list (ta_r (drop_tail t))"
proof -
  from assms(2) obtain n where n: "r_size (ta_r t) = Suc n" by (cases "r_size (ta_r t)") auto
  from assms(1) have ok: "ring_ok (ta_r t)" by (simp add: ta_ok_def)
  from ring_list_Cons [OF ok n] show l: "ring_list (ta_r t) = ring_tail t # ring_list (ta_r (drop_tail t))"
    by (simp add: drop_tail_def ring_tail_def n)
  have "ring_ok (ta_r (drop_tail t))"
    using ok n by (simp add: ring_ok_def drop_tail_def mod_add_left_eq)
  with assms(1) l show "ta_ok (drop_tail t)"
    by (simp add: ta_ok_def) (simp add: drop_tail_def)
qed

text \<open>\<open>remove_old\<close> drops the values from the old end as long as they are outside the window.\<close>

lemma remove_old_ok:
  assumes "ta_ok t"
  shows "ta_ok (remove_old t now) \<and> ta_duration (remove_old t now) = ta_duration t \<and>
    ring_list (ta_r (remove_old t now)) =
      dropWhile (\<lambda>v. tv_time v < now - word_of_int (ta_duration t)) (ring_list (ta_r t))"
  using assms
proof (induction t now rule: remove_old.induct)
  case (1 t now)
  show ?case
  proof (cases "r_size (ta_r t) \<noteq> 0 \<and> tv_time (ring_tail t) < now - word_of_int (ta_duration t)")
    case True
    note drop = drop_tail_ok [OF "1.prems" conjunct1 [OF True]]
    have "ta_duration (drop_tail t) = ta_duration t" by (simp add: drop_tail_def)
    with "1.IH" [OF True drop(1)] drop(2) True show ?thesis
      by (simp add: remove_old.simps [of t])
  next
    case False
    then have "remove_old t now = t" by (subst remove_old.simps) (simp only: if_False if_not_P)
    moreover have "ring_list (ta_r t) = [] \<or>
        (\<exists>vs. ring_list (ta_r t) = ring_tail t # vs \<and> \<not> tv_time (ring_tail t) < now - word_of_int (ta_duration t))"
      using False drop_tail_ok(2) [OF "1.prems"]
      by (cases "r_size (ta_r t) = 0") (auto simp flip: length_0_conv)
    ultimately show ?thesis using "1.prems" by auto
  qed
qed

lemma ring_full_wrap:
  assumes "ring_ok r" and "r_size r = r_maxsize r"
  shows "(r_head r < r_tail r \<and> r_tail r = Suc (r_head r)) \<or>
    (\<not> r_head r < r_tail r \<and> r_tail r = 0 \<and> Suc (r_head r) = r_maxsize r)"
proof (cases "Suc (r_head r) = r_maxsize r")
  case True
  with assms show ?thesis by (auto simp: ring_ok_def)
next
  case False
  with assms have "Suc (r_head r) < r_maxsize r" by (simp add: ring_ok_def)
  with assms show ?thesis by (auto simp: ring_ok_def)
qed

lemma ring_grow_ok:
  assumes "ring_ok r" and full: "r_size r = r_maxsize r"
  shows "ring_ok (ring_grow r)" "ring_list (ring_grow r) = ring_list r"
    "r_size (ring_grow r) < r_maxsize (ring_grow r)"
proof -
  let ?M = "r_maxsize r"
  have len: "length (r_buffer r) = ?M" "0 < ?M" "r_tail r < ?M" using assms(1) by (auto simp: ring_ok_def)
  have "ring_ok (ring_grow r) \<and> ring_list (ring_grow r) = ring_list r \<and> r_size (ring_grow r) < r_maxsize (ring_grow r)"
    using ring_full_wrap [OF assms]
  proof
    assume w: "r_head r < r_tail r \<and> r_tail r = Suc (r_head r)"
    let ?buf = "r_buffer r @ take (r_tail r) (r_buffer r) @ replicate (?M - r_tail r) tv_zero"
    have g: "ring_grow r = r\<lparr>r_maxsize := 2 * ?M, r_buffer := ?buf, r_head := r_head r + ?M\<rparr>"
      using w full len by (simp add: ring_grow_def Let_def)
    have nth: "?buf ! ((r_tail r + i) mod (2 * ?M)) = r_buffer r ! ((r_tail r + i) mod ?M)"
      if "i < ?M" for i
    proof (cases "r_tail r + i < ?M")
      case True
      then show ?thesis using len by (simp add: nth_append)
    next
      case False
      then have "r_tail r + i - ?M < r_tail r" "(r_tail r + i) mod (2 * ?M) = r_tail r + i"
          "(r_tail r + i) mod ?M = r_tail r + i - ?M"
        using that len by (simp_all add: mod_if)
      with False len show ?thesis by (simp add: nth_append)
    qed
    have "ring_list (ring_grow r) = ring_list r" using full nth by (simp add: g ring_list_def)
    moreover have "ring_ok (ring_grow r)" using w full len assms(1) by (simp add: g ring_ok_def)
    ultimately show ?thesis using full len by (simp add: g)
  next
    assume w: "\<not> r_head r < r_tail r \<and> r_tail r = 0 \<and> Suc (r_head r) = ?M"
    let ?buf = "r_buffer r @ replicate ?M tv_zero"
    have g: "ring_grow r = r\<lparr>r_maxsize := 2 * ?M, r_buffer := ?buf\<rparr>"
      using w by (simp add: ring_grow_def Let_def)
    have "ring_list (ring_grow r) = ring_list r"
      using w full len by (simp add: g ring_list_def nth_append)
    moreover have "ring_ok (ring_grow r)" using w full len assms(1) by (simp add: g ring_ok_def)
    ultimately show ?thesis using full len by (simp add: g)
  qed
  then show "ring_ok (ring_grow r)" "ring_list (ring_grow r) = ring_list r"
    "r_size (ring_grow r) < r_maxsize (ring_grow r)" by simp_all
qed

definition ring_push :: "time_ring \<Rightarrow> time_value \<Rightarrow> time_ring" where
  "ring_push r v =
     (let head = Suc (r_head r) mod r_maxsize r
      in r\<lparr>r_head := head, r_buffer := (r_buffer r)[head := v], r_size := Suc (r_size r)\<rparr>)"

lemma ring_push_ok:
  assumes ok: "ring_ok r" and room: "r_size r < r_maxsize r"
  shows "ring_ok (ring_push r v)" "ring_list (ring_push r v) = ring_list r @ [v]"
proof -
  let ?M = "r_maxsize r" and ?h = "(r_tail r + r_size r) mod r_maxsize r"
  have h: "Suc (r_head r) mod ?M = ?h" and len: "length (r_buffer r) = ?M" "0 < ?M" "r_tail r < ?M"
    using ok by (auto simp: ring_ok_def)
  have neq: "(r_tail r + i) mod ?M \<noteq> ?h" if "i < r_size r" for i
  proof
    assume "(r_tail r + i) mod ?M = ?h"
    then have "(r_tail r + r_size r - (r_tail r + i)) mod ?M = 0"
      using that by (metis add_le_cancel_left less_imp_le_nat mod_eq_dvd_iff_nat mod_eq_0_iff_dvd)
    then have "(r_size r - i) mod ?M = 0" by simp
    with that room show False by simp
  qed
  have upd: "(r_buffer r)[?h := v] ! ((r_tail r + i) mod ?M) = r_buffer r ! ((r_tail r + i) mod ?M)"
    if "i < r_size r" for i
    using neq [OF that] by (metis nth_list_update_neq)
  show "ring_list (ring_push r v) = ring_list r @ [v]"
    using upd len by (simp add: ring_list_def ring_push_def Let_def h)
  show "ring_ok (ring_push r v)"
    using ok room len by (simp add: ring_ok_def ring_push_def Let_def h mod_Suc_eq)
qed

lemma time_average_add_push:
  "time_average_add t time val =
     (let t' = remove_old t time;
          r = (if r_size (ta_r t') = r_maxsize (ta_r t') then ring_grow (ta_r t') else ta_r t')
      in t'\<lparr>ta_r := ring_push r \<lparr>tv_time = time, tv_value = val\<rparr>,
            ta_accumulated_value := ta_accumulated_value t' + val\<rparr>)"
  by (simp add: time_average_add_def ring_push_def Let_def)

section \<open>The interface the entities rely on\<close>

text \<open>
  A windowed average, abstractly: a list of timed values, from which old ones leave at the front
  and to which new ones are added at the back, and an accumulated value that is their sum
  (modulo \<open>2 ^ 64\<close>).
\<close>

locale windowed_average =
  fixes add :: "'t \<Rightarrow> u64 \<Rightarrow> u64 \<Rightarrow> 't"
    and avg :: "'t \<Rightarrow> u64 \<Rightarrow> (u64 \<times> nat) option \<times> 't"
    and vals :: "'t \<Rightarrow> time_value list"
    and old :: "'t \<Rightarrow> u64 \<Rightarrow> time_value \<Rightarrow> bool"
    and invar :: "'t \<Rightarrow> bool"
  assumes invar_add: "invar t \<Longrightarrow> invar (add t time v)"
    and invar_avg: "invar t \<Longrightarrow> invar (snd (avg t time))"
    and vals_add: "invar t \<Longrightarrow>
      vals (add t time v) = dropWhile (old t time) (vals t) @ [\<lparr>tv_time = time, tv_value = v\<rparr>]"
    and old_add: "invar t \<Longrightarrow> old (add t time v) = old t"
    and avg_vals: "invar t \<Longrightarrow> fst (avg t time) =
      (let vs = dropWhile (old t time) (vals t)
       in if vs = [] then None else Some (sum_list (map tv_value vs), length vs))"
begin

fun add_all :: "'t \<Rightarrow> (u64 \<times> u64) list \<Rightarrow> 't" where
  "add_all t [] = t"
| "add_all t ((time, v) # tvs) = add_all (add t time v) tvs"

lemma add_all_invar: "invar t \<Longrightarrow> invar (add_all t tvs)"
  by (induction t tvs rule: add_all.induct) (auto simp: invar_add)

lemma add_all_suffix:
  "invar t \<Longrightarrow> \<exists>n. vals (add_all t tvs) =
     drop n (vals t @ map (\<lambda>(time, v). \<lparr>tv_time = time, tv_value = v\<rparr>) tvs)"
proof (induction t tvs rule: add_all.induct)
  case (1 t)
  then show ?case by (auto intro: exI [of _ 0])
next
  case (2 t time v tvs)
  let ?tv = "\<lparr>tv_time = time, tv_value = v\<rparr>"
  obtain m where m: "vals (add_all (add t time v) tvs) =
      drop m (vals (add t time v) @ map (\<lambda>(time, v). \<lparr>tv_time = time, tv_value = v\<rparr>) tvs)"
    using 2 invar_add by blast
  obtain k where k: "dropWhile (old t time) (vals t) = drop k (vals t)" "k \<le> length (vals t)"
    by (metis dropWhile_eq_drop length_takeWhile_le)
  show ?case
    using m k by (auto simp: vals_add [OF "2.prems"] intro!: exI [of _ "m + k"] simp flip: drop_drop)
qed

end

interpretation ta: windowed_average time_average_add time_average_get_average
  "\<lambda>t. ring_list (ta_r t)" "\<lambda>t now v. tv_time v < now - word_of_int (ta_duration t)" ta_ok
proof unfold_locales
  fix t time v assume ok: "ta_ok t"
  let ?t = "remove_old t time"
  let ?r = "if r_size (ta_r ?t) = r_maxsize (ta_r ?t) then ring_grow (ta_r ?t) else ta_r ?t"
  from remove_old_ok [OF ok] have rok: "ring_ok (ta_r ?t)"
    and acc: "ta_accumulated_value ?t = sum_list (map tv_value (ring_list (ta_r ?t)))"
    and lst: "ring_list (ta_r ?t) = dropWhile (\<lambda>v. tv_time v < time - word_of_int (ta_duration t)) (ring_list (ta_r t))"
    and dur: "ta_duration ?t = ta_duration t"
    by (simp_all add: ta_ok_def)
  have r: "ring_ok ?r" "r_size ?r < r_maxsize ?r" "ring_list ?r = ring_list (ta_r ?t)"
    using rok ring_grow_ok [OF rok] by (auto simp: ring_ok_def)
  note push = ring_push_ok [OF r(1,2)]
  show "ta_ok (time_average_add t time v)"
    using push r(3) acc by (simp add: ta_ok_def time_average_add_push Let_def)
  show "ring_list (ta_r (time_average_add t time v)) =
      dropWhile (\<lambda>v. tv_time v < time - word_of_int (ta_duration t)) (ring_list (ta_r t)) @ [\<lparr>tv_time = time, tv_value = v\<rparr>]"
    using push r(3) lst by (simp add: time_average_add_push Let_def)
  show "(\<lambda>now v'. tv_time v' < now - word_of_int (ta_duration (time_average_add t time v))) =
      (\<lambda>now v'. tv_time v' < now - word_of_int (ta_duration t))"
    using dur by (simp add: time_average_add_push Let_def)
next
  fix t time assume ok: "ta_ok t"
  note rem = remove_old_ok [OF ok, of time]
  have empty: "r_size (ta_r (remove_old t time)) = 0 \<longleftrightarrow> ring_list (ta_r (remove_old t time)) = []"
    by (metis length_0_conv length_ring_list)
  show "ta_ok (snd (time_average_get_average t time))"
    using rem by (simp add: time_average_get_average_def Let_def)
  show "fst (time_average_get_average t time) =
      (let vs = dropWhile (\<lambda>v. tv_time v < time - word_of_int (ta_duration t)) (ring_list (ta_r t))
       in if vs = [] then None else Some (sum_list (map tv_value vs), length vs))"
    using rem length_ring_list [of "ta_r (remove_old t time)"]
    by (simp add: time_average_get_average_def Let_def ta_ok_def empty del: length_ring_list)
qed

lemma ta_ok_new:
  assumes "time_average_new d n = Inr t" and "0 < n"
  shows "ta_ok t" "ring_list (ta_r t) = []" "ta_duration t = d"
  using assms by (auto simp: time_average_new_def ta_ok_def ring_ok_def ring_list_def nat_diff_distrib Suc_nat_eq_nat_zadd1
      split: if_splits)

text \<open>
  Whatever the capacity of the ring and however often it grew, \<open>time_average_add\<close> behaves as a
  queue: old values leave, the new value is last, and the accumulated value stays the sum of the
  values in the window, so that \<open>time_average_get_average\<close> returns the average of exactly the values
  in the window.
\<close>

theorem time_average_window:
  assumes "ta_ok t"
  shows "let t' = time_average_add t now v;
             vs = dropWhile (\<lambda>x. tv_time x < now - word_of_int (ta_duration t)) (ring_list (ta_r t)) @
                  [\<lparr>tv_time = now, tv_value = v\<rparr>]
         in ta_ok t' \<and> ring_list (ta_r t') = vs \<and> ta_accumulated_value t' = sum_list (map tv_value vs)"
  using ta.vals_add [OF assms] ta.invar_add [OF assms, of now v]
  by (auto simp: Let_def ta_ok_def)

theorem time_average_window_witness:
  "let t = projr (time_average_new 100 2);
       t' = time_average_add t 7 5;
       vs = dropWhile (\<lambda>x. tv_time x < 7 - word_of_int (ta_duration t)) (ring_list (ta_r t)) @
            [\<lparr>tv_time = 7, tv_value = 5\<rparr>]
   in ta_ok t' \<and> ring_list (ta_r t') = vs \<and> ta_accumulated_value t' = sum_list (map tv_value vs)"
proof -
  have "time_average_new 100 2 = Inr (projr (time_average_new 100 2))"
    by (simp add: time_average_new_def)
  then have "ta_ok (projr (time_average_new 100 2))" by (rule ta_ok_new) simp
  from time_average_window [OF this, of 7 5] show ?thesis by (simp only: Let_def)
qed

end
