(* ===== verification/RlcCommon.thy ===== *)
theory RlcCommon
  imports RlcSdu TimeStat
begin

text \<open>
  \<open>openair2/LAYER2/nr_rlc/nr_rlc_entity.h\<close>: what the acknowledged, unacknowledged and transparent
  entities have in common. The function pointers of \<open>nr_rlc_entity_t\<close> are the operations of the
  three entity theories. The callbacks (\<open>deliver_sdu\<close>, \<open>sdu_successful_delivery\<close>,
  \<open>max_retx_reached\<close>) belong to the user of the module; calling one is recorded as an event, in the
  order of the calls.
\<close>

definition NR_SDU_MAX :: int where
  "NR_SDU_MAX = 16000"

datatype nr_rlc_mode = NR_RLC_AM | NR_RLC_UM | NR_RLC_TM

text \<open>The counters of \<open>nr_rlc_statistics_t\<close> that the entities update; they wrap.\<close>

record nr_rlc_statistics =
  st_mode :: nr_rlc_mode
  txpdu_pkts :: u32
  txpdu_bytes :: u32
  txpdu_retx_pkts :: u32
  txpdu_retx_bytes :: u32
  txpdu_segmented :: u32
  txpdu_status_pkts :: u32
  txpdu_status_bytes :: u32
  rxpdu_pkts :: u32
  rxpdu_bytes :: u32
  rxpdu_dup_pkts :: u32
  rxpdu_dup_bytes :: u32
  rxpdu_dd_pkts :: u32
  rxpdu_dd_bytes :: u32
  rxpdu_ow_pkts :: u32
  rxpdu_ow_bytes :: u32
  txsdu_pkts :: u32
  txsdu_bytes :: u64
  rxsdu_pkts :: u32
  rxsdu_bytes :: u64
  rxsdu_dd_pkts :: u32
  rxsdu_dd_bytes :: u32

definition stats_zero :: "nr_rlc_mode \<Rightarrow> nr_rlc_statistics" where
  "stats_zero m = \<lparr>st_mode = m, txpdu_pkts = 0, txpdu_bytes = 0, txpdu_retx_pkts = 0,
     txpdu_retx_bytes = 0, txpdu_segmented = 0, txpdu_status_pkts = 0, txpdu_status_bytes = 0,
     rxpdu_pkts = 0, rxpdu_bytes = 0, rxpdu_dup_pkts = 0, rxpdu_dup_bytes = 0, rxpdu_dd_pkts = 0,
     rxpdu_dd_bytes = 0, rxpdu_ow_pkts = 0, rxpdu_ow_bytes = 0, txsdu_pkts = 0, txsdu_bytes = 0,
     rxsdu_pkts = 0, rxsdu_bytes = 0, rxsdu_dd_pkts = 0, rxsdu_dd_bytes = 0\<rparr>"

record nr_rlc_entity_buffer_status =
  status_size :: int
  tx_size :: int
  retx_size :: int

datatype rlc_event =
    DeliverSdu "byte list"
  | SduSuccessfulDelivery int
  | MaxRetxReached

record nr_rlc_entity =
  bstatus :: nr_rlc_entity_buffer_status
  stats :: nr_rlc_statistics
  txsdu_avg_time_to_tx :: time_average
  avg_time_is_on :: bool
  events :: "rlc_event list"

text \<open>
  \<open>calloc\<close> clears the entity, then \<open>new_nr_rlc_entity_*\<close> sets the mode and allocates the average
  over the last 100 milliseconds.
\<close>

definition common_new :: "nr_rlc_mode \<Rightarrow> nr_rlc_entity res" where
  "common_new m = res_bind (time_average_new (100 * 1000) 1024) (\<lambda>ta.
     Inr \<lparr>bstatus = \<lparr>status_size = 0, tx_size = 0, retx_size = 0\<rparr>, stats = stats_zero m,
       txsdu_avg_time_to_tx = ta, avg_time_is_on = False, events = []\<rparr>)"

text \<open>Bytes added to a counter: C converts the \<open>int\<close> to the type of the counter.\<close>

definition count_pkts_bytes ::
  "((u32 \<Rightarrow> u32) \<Rightarrow> nr_rlc_statistics \<Rightarrow> nr_rlc_statistics) \<Rightarrow>
   ((u32 \<Rightarrow> u32) \<Rightarrow> nr_rlc_statistics \<Rightarrow> nr_rlc_statistics) \<Rightarrow> int \<Rightarrow> nr_rlc_entity \<Rightarrow> nr_rlc_entity" where
  "count_pkts_bytes pkts bytes n =
     stats_update (\<lambda>s. bytes (\<lambda>x. x + word_of_int n) (pkts (\<lambda>x. x + 1) s))"

definition emit :: "rlc_event \<Rightarrow> nr_rlc_entity \<Rightarrow> nr_rlc_entity" where
  "emit ev = events_update (\<lambda>evs. evs @ [ev])"

text \<open>
  The time an SDU waited until it is given to MAC, when the average is switched on.
\<close>

definition count_waiting_time :: "u64 \<Rightarrow> nr_rlc_sdu \<Rightarrow> nr_rlc_entity \<Rightarrow> nr_rlc_entity" where
  "count_waiting_time time_now sdu c =
     (if avg_time_is_on c
      then txsdu_avg_time_to_tx_update
             (\<lambda>ta. time_average_add ta time_now (time_now - sdu_time_of_arrival sdu)) c
      else c)"

lemma common_frame [simp]:
  "bstatus (count_pkts_bytes p b n c) = bstatus c"
  "events (count_pkts_bytes p b n c) = events c"
  "avg_time_is_on (count_pkts_bytes p b n c) = avg_time_is_on c"
  "bstatus (emit ev c) = bstatus c"
  "events (emit ev c) = events c @ [ev]"
  "stats (emit ev c) = stats c"
  "avg_time_is_on (emit ev c) = avg_time_is_on c"
  "bstatus (count_waiting_time t u c) = bstatus c"
  "events (count_waiting_time t u c) = events c"
  "stats (count_waiting_time t u c) = stats c"
  "avg_time_is_on (count_waiting_time t u c) = avg_time_is_on c"
  by (simp_all add: count_pkts_bytes_def emit_def count_waiting_time_def)

lemma common_new_Inr: "\<exists>c. common_new m = Inr c \<and> events c = [] \<and> stats c = stats_zero m \<and>
    \<not> avg_time_is_on c \<and> tx_size (bstatus c) = 0 \<and> retx_size (bstatus c) = 0 \<and> ta_ok (txsdu_avg_time_to_tx c)"
proof -
  have "time_average_new (100 * 1000) 1024 = Inr (projr (time_average_new (100 * 1000) 1024))"
    by (simp add: time_average_new_def)
  with ta_ok_new(1) [OF this] show ?thesis by (auto simp: common_new_def time_average_new_def)
qed

section \<open>Entities as machines\<close>

text \<open>
  What the user of an entity can do with it (the function pointers of \<open>nr_rlc_entity_t\<close> that change
  it), each at some reading of the microsecond clock. \<open>GeneratePdu\<close> carries the buffer of the caller.
\<close>

datatype rlc_op =
    RecvSdu "byte list" int
  | RecvPdu "byte list"
  | GeneratePdu "byte list"
  | SetTime u64
  | DiscardSdu int
  | Reestablishment

primrec rlc_run ::
  "(u64 \<Rightarrow> rlc_op \<Rightarrow> 'e \<Rightarrow> 'e res) \<Rightarrow> (u64 \<times> rlc_op) list \<Rightarrow> 'e \<Rightarrow> 'e res" where
  "rlc_run step [] e = Inr e"
| "rlc_run step (x # xs) e = res_bind (step (fst x) (snd x) e) (rlc_run step xs)"

text \<open>Every operation of a run is admissible in the state it meets.\<close>

primrec rlc_adm_run ::
  "(u64 \<Rightarrow> rlc_op \<Rightarrow> 'e \<Rightarrow> 'e res) \<Rightarrow> (rlc_op \<Rightarrow> 'e \<Rightarrow> bool) \<Rightarrow> (u64 \<times> rlc_op) list \<Rightarrow> 'e \<Rightarrow> bool" where
  "rlc_adm_run step adm [] e \<longleftrightarrow> True"
| "rlc_adm_run step adm (x # xs) e \<longleftrightarrow> adm (snd x) e \<and>
     (case step (fst x) (snd x) e of Inl f \<Rightarrow> True | Inr e' \<Rightarrow> rlc_adm_run step adm xs e')"

lemma rlc_adm_runI: "(\<And>x e. x \<in> set xs \<Longrightarrow> adm (snd x) e) \<Longrightarrow> rlc_adm_run step adm xs e"
  by (induction xs arbitrary: e) (auto split: sum.split)

text \<open>
  The contract of an entity: no admissible operation ends the process, and each keeps the invariant.
  Whole runs then behave, from any state with the invariant.
\<close>

locale rlc_machine =
  fixes step :: "u64 \<Rightarrow> rlc_op \<Rightarrow> 'e \<Rightarrow> 'e res"
    and inv :: "'e \<Rightarrow> bool"
    and adm :: "rlc_op \<Rightarrow> 'e \<Rightarrow> bool"
  assumes step_inv: "inv e \<Longrightarrow> adm op e \<Longrightarrow> \<exists>e'. step t op e = Inr e' \<and> inv e'"
begin

lemma run_inv:
  "inv e \<Longrightarrow> rlc_adm_run step adm xs e \<Longrightarrow> \<exists>e'. rlc_run step xs e = Inr e' \<and> inv e'"
proof (induction xs arbitrary: e)
  case Nil
  then show ?case by simp
next
  case (Cons x xs)
  then obtain e1 where "step (fst x) (snd x) e = Inr e1" "inv e1" using step_inv by fastforce
  with Cons show ?case by simp
qed

end

end
