(* ===== verification/RlcTm.thy ===== *)
theory RlcTm
  imports RlcCommon
begin

text \<open>
  \<open>openair2/LAYER2/nr_rlc/nr_rlc_entity_tm.c\<close>: the transparent mode entity, a bounded queue of SDUs
  that go out as PDUs unchanged, and PDUs that are delivered unchanged.
\<close>

record nr_rlc_entity_tm =
  tm_common :: nr_rlc_entity
  tm_t_current :: u64
  tm_t_log_buffer_full :: u64
  tm_sdu_rejected :: int
  tm_tx_list :: "segment list"
  tm_tx_end :: "segment option"
  tm_tx_size :: int
  tm_tx_maxsize :: int
  tm_heap :: sdu_heap

definition new_nr_rlc_entity_tm :: "int \<Rightarrow> nr_rlc_entity_tm res" where
  "new_nr_rlc_entity_tm maxsize =
     res_bind (common_new NR_RLC_TM) (\<lambda>c.
     Inr \<lparr>tm_common = c, tm_t_current = 0, tm_t_log_buffer_full = 0, tm_sdu_rejected = 0,
       tm_tx_list = [], tm_tx_end = None, tm_tx_size = 0, tm_tx_maxsize = maxsize,
       tm_heap = heap_empty\<rparr>)"

section \<open>Operations\<close>

definition nr_rlc_entity_tm_recv_pdu :: "byte list \<Rightarrow> nr_rlc_entity_tm \<Rightarrow> nr_rlc_entity_tm" where
  "nr_rlc_entity_tm_recv_pdu buffer e =
     e\<lparr>tm_common :=
        stats_update (\<lambda>s. s\<lparr>txsdu_pkts := txsdu_pkts s + 1,
                           txsdu_bytes := txsdu_bytes s + of_nat (length buffer)\<rparr>)
          (emit (DeliverSdu buffer)
            (count_pkts_bytes rxpdu_pkts_update rxpdu_bytes_update (int (length buffer))
              (tm_common e)))\<rparr>"

text \<open>The number of bytes put into the buffer, the buffer, and the entity.\<close>

definition tm_generate_tx_pdu ::
  "u64 \<Rightarrow> byte list \<Rightarrow> nr_rlc_entity_tm \<Rightarrow> (int \<times> byte list \<times> nr_rlc_entity_tm) res" where
  "tm_generate_tx_pdu time_now buffer e =
     (case tm_tx_list e of
        [] \<Rightarrow> Inr (0, buffer, e)
      | sdu # rest \<Rightarrow>
          if seg_size sdu > int (length buffer) then Inr (0, buffer, e)
          else
            res_bind (slice (sdu_data (sdu_of (tm_heap e) sdu)) 0 (seg_size sdu)) (\<lambda>data.
            res_bind (splice buffer 0 data) (\<lambda>buffer'.
            let c1 = count_pkts_bytes txpdu_pkts_update txpdu_bytes_update (int (length buffer)) (tm_common e);
                c2 = count_waiting_time time_now (sdu_of (tm_heap e) sdu) c1;
                c3 = bstatus_update (tx_size_update (\<lambda>n. n - seg_size sdu)) c2
            in Inr (seg_size sdu, buffer',
                 e\<lparr>tm_tx_list := rest,
                   tm_tx_end := (if rest = [] then None else tm_tx_end e),
                   tm_tx_size := tm_tx_size e - seg_size sdu,
                   tm_common := c3,
                   tm_heap := snd (nr_rlc_free_sdu_segment sdu (tm_heap e))\<rparr>))))"

definition nr_rlc_entity_tm_buffer_status ::
  "nr_rlc_entity_tm \<Rightarrow> nr_rlc_entity_buffer_status" where
  "nr_rlc_entity_tm_buffer_status e =
     \<lparr>status_size = 0, tx_size = tx_size (bstatus (tm_common e)), retx_size = 0\<rparr>"

definition nr_rlc_entity_tm_generate_pdu ::
  "u64 \<Rightarrow> byte list \<Rightarrow> nr_rlc_entity_tm \<Rightarrow> (int \<times> byte list \<times> nr_rlc_entity_tm) res" where
  "nr_rlc_entity_tm_generate_pdu time_now buffer e = tm_generate_tx_pdu time_now buffer e"

definition nr_rlc_entity_tm_recv_sdu ::
  "u64 \<Rightarrow> byte list \<Rightarrow> int \<Rightarrow> nr_rlc_entity_tm \<Rightarrow> nr_rlc_entity_tm res" where
  "nr_rlc_entity_tm_recv_sdu time_now buffer sdu_id e =
     (let size = int (length buffer);
          e1 = e\<lparr>tm_common := stats_update (\<lambda>s. s\<lparr>rxsdu_pkts := rxsdu_pkts s + 1,
                    rxsdu_bytes := rxsdu_bytes s + word_of_int size\<rparr>) (tm_common e)\<rparr>
      in if size > NR_SDU_MAX then Inl ExitFatal
         else
           let e2 = (if tm_sdu_rejected e1 \<noteq> 0 \<and> tm_t_current e1 > tm_t_log_buffer_full e1 + 1000
                     then e1\<lparr>tm_sdu_rejected := 0, tm_t_log_buffer_full := tm_t_current e1\<rparr>
                     else e1)
           in if tm_tx_size e2 + size > tm_tx_maxsize e2
              then Inr (e2\<lparr>tm_sdu_rejected := tm_sdu_rejected e2 + 1,
                     tm_common := count_pkts_bytes rxsdu_dd_pkts_update rxsdu_dd_bytes_update size
                       (tm_common e2)\<rparr>)
              else
                let (sdu, h) = nr_rlc_new_sdu buffer sdu_id (tm_heap e2);
                    h' = (if avg_time_is_on (tm_common e2)
                          then heap_upd (seg_sdu sdu) (sdu_time_of_arrival_update (\<lambda>_. time_now)) h
                          else h)
                in res_bind (nr_rlc_sdu_segment_list_append (tm_tx_list e2) (tm_tx_end e2) sdu)
                     (\<lambda>(l, en). Inr (e2\<lparr>tm_tx_size := tm_tx_size e2 + size, tm_heap := h',
                        tm_tx_list := l, tm_tx_end := en,
                        tm_common := bstatus_update (tx_size_update (\<lambda>n. n + seg_size sdu))
                          (tm_common e2)\<rparr>)))"

definition nr_rlc_entity_tm_set_time :: "u64 \<Rightarrow> nr_rlc_entity_tm \<Rightarrow> nr_rlc_entity_tm" where
  "nr_rlc_entity_tm_set_time now e = e\<lparr>tm_t_current := now\<rparr>"

definition nr_rlc_entity_tm_discard_sdu :: "int \<Rightarrow> nr_rlc_entity_tm \<Rightarrow> nr_rlc_entity_tm" where
  "nr_rlc_entity_tm_discard_sdu sdu_id e = e"

definition tm_clear_entity :: "nr_rlc_entity_tm \<Rightarrow> nr_rlc_entity_tm" where
  "tm_clear_entity e =
     e\<lparr>tm_t_current := 0, tm_t_log_buffer_full := 0, tm_sdu_rejected := 0,
       tm_heap := nr_rlc_free_sdu_segment_list (tm_tx_list e) (tm_heap e),
       tm_tx_list := [], tm_tx_end := None, tm_tx_size := 0,
       tm_common := bstatus_update (tx_size_update (\<lambda>_. 0)) (tm_common e)\<rparr>"

definition nr_rlc_entity_tm_reestablishment :: "nr_rlc_entity_tm \<Rightarrow> nr_rlc_entity_tm" where
  "nr_rlc_entity_tm_reestablishment e = tm_clear_entity e"

text \<open>\<open>delete\<close> clears the entity and frees it; what is left is the heap of SDUs.\<close>

definition nr_rlc_entity_tm_delete :: "nr_rlc_entity_tm \<Rightarrow> sdu_heap" where
  "nr_rlc_entity_tm_delete e = tm_heap (tm_clear_entity e)"

definition nr_rlc_entity_tm_available_tx_space :: "nr_rlc_entity_tm \<Rightarrow> int" where
  "nr_rlc_entity_tm_available_tx_space e = tm_tx_maxsize e - tm_tx_size e"

fun tm_step :: "u64 \<Rightarrow> rlc_op \<Rightarrow> nr_rlc_entity_tm \<Rightarrow> nr_rlc_entity_tm res" where
  "tm_step t (RecvSdu b i) e = nr_rlc_entity_tm_recv_sdu t b i e"
| "tm_step t (RecvPdu b) e = Inr (nr_rlc_entity_tm_recv_pdu b e)"
| "tm_step t (GeneratePdu b) e =
     res_bind (nr_rlc_entity_tm_generate_pdu t b e) (\<lambda>(n, b', e'). Inr e')"
| "tm_step t (SetTime now) e = Inr (nr_rlc_entity_tm_set_time now e)"
| "tm_step t (DiscardSdu i) e = Inr (nr_rlc_entity_tm_discard_sdu i e)"
| "tm_step t Reestablishment e = Inr (nr_rlc_entity_tm_reestablishment e)"

section \<open>Invariant\<close>

text \<open>
  The queue: the end pointer is right, the reference counts are right, \<open>tx_size\<close> and the buffer
  status count the bytes of the queued SDUs, within the configured limit, and every segment is a
  whole SDU.
\<close>

definition tm_inv :: "nr_rlc_entity_tm \<Rightarrow> bool" where
  "tm_inv e \<longleftrightarrow>
     heap_inv (tm_heap e) (mset (tm_tx_list e)) \<and>
     distinct (map seg_sdu (tm_tx_list e)) \<and>
     tm_tx_end e = end_of (tm_tx_list e) \<and>
     (\<forall>s \<in> set (tm_tx_list e). seg_so s = 0 \<and>
        seg_size s = int (length (sdu_data (sdu_of (tm_heap e) s)))) \<and>
     tm_tx_size e = sum_list (map seg_size (tm_tx_list e)) \<and>
     tx_size (bstatus (tm_common e)) = tm_tx_size e \<and>
     tm_tx_size e \<le> tm_tx_maxsize e"

text \<open>The SDUs waiting, oldest first.\<close>

definition tm_queue :: "nr_rlc_entity_tm \<Rightarrow> byte list list" where
  "tm_queue e = map (\<lambda>s. sdu_data (sdu_of (tm_heap e) s)) (tm_tx_list e)"

lemma tm_inv_new: "0 \<le> m \<Longrightarrow> new_nr_rlc_entity_tm m = Inr e \<Longrightarrow> tm_inv e \<and> tm_queue e = []"
  using common_new_Inr [of NR_RLC_TM]
  by (auto simp: new_nr_rlc_entity_tm_def tm_inv_def tm_queue_def res_simps)

lemma tm_new_Inr: "\<exists>e. new_nr_rlc_entity_tm m = Inr e"
  using common_new_Inr [of NR_RLC_TM] by (auto simp: new_nr_rlc_entity_tm_def)

lemma tm_inv_size: "tm_inv e \<Longrightarrow> tm_tx_size e = int (length (concat (tm_queue e)))"
  unfolding tm_inv_def tm_queue_def
  by (simp add: sum_list_lengths [where g = "\<lambda>s. sdu_data (sdu_of (tm_heap e) s)"])

section \<open>Every operation keeps the invariant\<close>

text \<open>The bookkeeping of rejected SDUs does not touch the queue.\<close>

definition tm_prologue :: "int \<Rightarrow> nr_rlc_entity_tm \<Rightarrow> nr_rlc_entity_tm" where
  "tm_prologue sz e =
     (let e1 = e\<lparr>tm_common := stats_update (\<lambda>s. s\<lparr>rxsdu_pkts := rxsdu_pkts s + 1,
                    rxsdu_bytes := rxsdu_bytes s + word_of_int sz\<rparr>) (tm_common e)\<rparr>
      in if tm_sdu_rejected e1 \<noteq> 0 \<and> tm_t_current e1 > tm_t_log_buffer_full e1 + 1000
         then e1\<lparr>tm_sdu_rejected := 0, tm_t_log_buffer_full := tm_t_current e1\<rparr> else e1)"

lemma tm_prologue_frame [simp]:
  "tm_tx_list (tm_prologue n e) = tm_tx_list e" "tm_tx_end (tm_prologue n e) = tm_tx_end e"
  "tm_tx_size (tm_prologue n e) = tm_tx_size e" "tm_tx_maxsize (tm_prologue n e) = tm_tx_maxsize e"
  "tm_heap (tm_prologue n e) = tm_heap e"
  "bstatus (tm_common (tm_prologue n e)) = bstatus (tm_common e)"
  "events (tm_common (tm_prologue n e)) = events (tm_common e)"
  by (simp_all add: tm_prologue_def Let_def)

lemma tm_recv_sdu_eq:
  "nr_rlc_entity_tm_recv_sdu t b i e =
     (let size = int (length b); e2 = tm_prologue size e
      in if size > NR_SDU_MAX then Inl ExitFatal
         else if tm_tx_size e2 + size > tm_tx_maxsize e2
         then Inr (e2\<lparr>tm_sdu_rejected := tm_sdu_rejected e2 + 1,
                tm_common := count_pkts_bytes rxsdu_dd_pkts_update rxsdu_dd_bytes_update size (tm_common e2)\<rparr>)
         else case new_sdu_dated (avg_time_is_on (tm_common e2)) t b i (tm_heap e2) of (sdu, h') \<Rightarrow>
           res_bind (nr_rlc_sdu_segment_list_append (tm_tx_list e2) (tm_tx_end e2) sdu)
             (\<lambda>(l, en). Inr (e2\<lparr>tm_tx_size := tm_tx_size e2 + size, tm_heap := h',
                tm_tx_list := l, tm_tx_end := en,
                tm_common := bstatus_update (tx_size_update (\<lambda>n. n + seg_size sdu)) (tm_common e2)\<rparr>)))"
  unfolding nr_rlc_entity_tm_recv_sdu_def Let_def tm_prologue_def new_sdu_dated_eq [symmetric]
  by simp

lemma tm_recv_sdu_inv:
  assumes inv: "tm_inv e" and size: "int (length b) \<le> NR_SDU_MAX"
  shows "\<exists>e'. nr_rlc_entity_tm_recv_sdu t b i e = Inr e' \<and> tm_inv e' \<and>
    tm_queue e' = (if tm_tx_size e + int (length b) \<le> tm_tx_maxsize e then tm_queue e @ [b] else tm_queue e)"
proof (cases "tm_tx_size e + int (length b) \<le> tm_tx_maxsize e")
  case False
  then show ?thesis using inv size
    by (simp add: tm_recv_sdu_eq Let_def) (simp add: tm_inv_def tm_queue_def)
next
  case True
  define e2 where "e2 = tm_prologue (int (length b)) e"
  obtain s h where new: "new_sdu_dated (avg_time_is_on (tm_common e2)) t b i (tm_heap e) = (s, h)"
    by fastforce
  have hinv: "heap_inv (tm_heap e) (mset (tm_tx_list e))" using inv by (simp add: tm_inv_def)
  note n = new_sdu_dated_inv [OF hinv new]
  have dist: "distinct (tm_tx_list e)" using inv by (auto simp: tm_inv_def distinct_map)
  note app = segment_list_append_ok [OF dist, of s]
  have "nr_rlc_entity_tm_recv_sdu t b i e =
      Inr (e2\<lparr>tm_tx_size := tm_tx_size e + int (length b), tm_heap := h,
         tm_tx_list := tm_tx_list e @ [s], tm_tx_end := end_of (tm_tx_list e @ [s]),
         tm_common := bstatus_update (tx_size_update (\<lambda>n. n + seg_size s)) (tm_common e2)\<rparr>)" (is "_ = Inr ?e'")
    using inv size True new app
    by (simp add: tm_recv_sdu_eq Let_def e2_def [symmetric] tm_inv_def)
       (simp add: e2_def)
  moreover have "tm_inv ?e'"
    using inv n True by (auto simp: tm_inv_def e2_def same_sdu_def null_sdu_def)
  moreover have "tm_queue ?e' = tm_queue e @ [b]"
    using n by (auto simp: tm_queue_def same_sdu_def null_sdu_def)
  ultimately show ?thesis using True by simp
qed

lemma tm_generate_pdu_inv:
  assumes inv: "tm_inv e"
  shows "\<exists>n b' e'. nr_rlc_entity_tm_generate_pdu t b e = Inr (n, b', e') \<and> tm_inv e' \<and>
    length b' = length b \<and> tm_tx_maxsize e' = tm_tx_maxsize e \<and>
    (case tm_queue e of [] \<Rightarrow> n = 0 \<and> tm_queue e' = []
     | d # q \<Rightarrow> if length d \<le> length b
               then n = int (length d) \<and> take (nat n) b' = d \<and> tm_queue e' = q
               else n = 0 \<and> tm_queue e' = tm_queue e)"
proof (cases "tm_tx_list e")
  case Nil
  then show ?thesis using inv
    by (simp add: nr_rlc_entity_tm_generate_pdu_def tm_generate_tx_pdu_def tm_queue_def)
next
  case (Cons s l)
  let ?d = "sdu_data (sdu_of (tm_heap e) s)"
  have sz: "seg_size s = int (length ?d)" and hinv: "heap_inv (tm_heap e) (add_mset s (mset l))"
    using inv Cons by (auto simp: tm_inv_def)
  obtain fr h where free: "nr_rlc_free_sdu_segment s (tm_heap e) = (fr, h)" by fastforce
  note f = free_segment_inv [OF hinv free]
  show ?thesis
  proof (cases "length ?d \<le> length b")
    case False
    then show ?thesis using inv Cons sz
      by (simp add: nr_rlc_entity_tm_generate_pdu_def tm_generate_tx_pdu_def tm_queue_def)
  next
    case True
    define e' where "e' = e\<lparr>tm_tx_list := l, tm_tx_end := (if l = [] then None else tm_tx_end e),
       tm_tx_size := tm_tx_size e - seg_size s,
       tm_common := bstatus_update (tx_size_update (\<lambda>n. n - seg_size s))
         (count_waiting_time t (sdu_of (tm_heap e) s)
           (count_pkts_bytes txpdu_pkts_update txpdu_bytes_update (int (length b)) (tm_common e))),
       tm_heap := h\<rparr>"
    have gen: "nr_rlc_entity_tm_generate_pdu t b e = Inr (seg_size s, ?d @ drop (length ?d) b, e')"
      using Cons sz True free
      by (simp add: nr_rlc_entity_tm_generate_pdu_def tm_generate_tx_pdu_def e'_def Let_def)
    moreover have "tm_inv e'"
      using inv Cons f by (auto simp: tm_inv_def e'_def end_of_Cons same_sdu_def)
    moreover have "tm_queue e' = map (\<lambda>s. sdu_data (sdu_of (tm_heap e) s)) l"
      using f(3) by (auto simp: tm_queue_def e'_def same_sdu_def)
    moreover have "tm_tx_maxsize e' = tm_tx_maxsize e" by (simp add: e'_def)
    ultimately show ?thesis using Cons sz True by (simp add: tm_queue_def)
  qed
qed

lemma tm_clear_inv:
  assumes "tm_inv e" and "0 \<le> tm_tx_maxsize e"
  shows "tm_inv (tm_clear_entity e) \<and> heap_map (tm_heap (tm_clear_entity e)) = Map.empty"
proof -
  have "heap_inv (nr_rlc_free_sdu_segment_list (tm_tx_list e) (tm_heap e)) {#}"
    using free_segment_list_inv [of "tm_heap e" "tm_tx_list e" "{#}"] assms by (simp add: tm_inv_def)
  with heap_inv_no_segs [OF this] assms(2) show ?thesis
    by (simp add: tm_inv_def tm_clear_entity_def)
qed

lemma tm_inv_maxsize: "tm_inv e \<Longrightarrow> 0 \<le> tm_tx_maxsize e"
proof -
  assume inv: "tm_inv e"
  then have "tm_tx_size e \<le> tm_tx_maxsize e" by (simp add: tm_inv_def)
  with tm_inv_size [OF inv] show ?thesis by linarith
qed

text \<open>The contract of the entity, and what it gives for whole runs.\<close>

definition tm_adm :: "rlc_op \<Rightarrow> nr_rlc_entity_tm \<Rightarrow> bool" where
  "tm_adm op e \<longleftrightarrow> (case op of RecvSdu b i \<Rightarrow> int (length b) \<le> NR_SDU_MAX | _ \<Rightarrow> True)"

interpretation tm: rlc_machine tm_step tm_inv tm_adm
proof
  fix t op e assume inv: "tm_inv e" and adm: "tm_adm op e"
  show "\<exists>e'. tm_step t op e = Inr e' \<and> tm_inv e'"
  proof (cases op)
    case (RecvSdu b i)
    then show ?thesis using tm_recv_sdu_inv [OF inv] adm by (fastforce simp: tm_adm_def)
  next
    case (RecvPdu b)
    then show ?thesis using inv
      by (simp add: nr_rlc_entity_tm_recv_pdu_def tm_inv_def)
  next
    case (GeneratePdu b)
    then show ?thesis using tm_generate_pdu_inv [OF inv, of t b] by auto
  next
    case (SetTime now)
    then show ?thesis using inv by (simp add: nr_rlc_entity_tm_set_time_def tm_inv_def)
  next
    case (DiscardSdu i)
    then show ?thesis using inv by (simp add: nr_rlc_entity_tm_discard_sdu_def)
  next
    case Reestablishment
    then show ?thesis using tm_clear_inv [OF inv tm_inv_maxsize [OF inv]]
      by (simp add: nr_rlc_entity_tm_reestablishment_def)
  qed
qed

section \<open>Properties\<close>

text \<open>
  C10: a transparent entity never ends the process and never loses count, whatever the user does with
  it: from a new entity, any sequence of operations whose SDUs are not larger than \<open>NR_SDU_MAX\<close>
  completes, and afterwards the reference counts are exact, the end pointer of the transmission list
  is right, and \<open>tx_size\<close> is the number of bytes queued, at most \<open>tx_maxsize\<close>.
\<close>

theorem tm_runs_safe:
  assumes "0 \<le> m" and "new_nr_rlc_entity_tm m = Inr e"
    and "\<forall>(t, op) \<in> set ops. case op of RecvSdu b i \<Rightarrow> int (length b) \<le> NR_SDU_MAX | _ \<Rightarrow> True"
  shows "\<exists>e'. rlc_run tm_step ops e = Inr e' \<and> tm_inv e'"
proof (rule tm.run_inv)
  show "tm_inv e" using tm_inv_new [OF assms(1,2)] by simp
  show "rlc_adm_run tm_step tm_adm ops e"
    using assms(3) by (intro rlc_adm_runI) (auto simp: tm_adm_def)
qed

theorem tm_runs_safe_witness:
  "\<exists>e'. rlc_run tm_step [(0, RecvSdu [1, 2, 3] 0), (5, GeneratePdu [0, 0]), (7, GeneratePdu [0, 0, 0, 0])]
     (projr (new_nr_rlc_entity_tm 10)) = Inr e' \<and> tm_inv e'"
proof -
  obtain e where e: "new_nr_rlc_entity_tm 10 = Inr e" using tm_new_Inr by blast
  then show ?thesis
    using tm_runs_safe [of 10 e "[(0, RecvSdu [1, 2, 3] 0), (5, GeneratePdu [0, 0]), (7, GeneratePdu [0, 0, 0, 0])]"]
    by (simp add: NR_SDU_MAX_def)
qed

text \<open>
  C11: transparent mode is a bounded first-in first-out queue of unmodified SDUs: an SDU is queued at
  the end if it fits in the buffer and dropped otherwise, and \<open>generate_pdu\<close> hands out the oldest
  SDU, byte for byte, when the caller's buffer has room for all of it, and nothing otherwise.
\<close>

theorem tm_fifo:
  assumes "tm_inv e" and "int (length d) \<le> NR_SDU_MAX"
  shows "(\<exists>e1. nr_rlc_entity_tm_recv_sdu t d i e = Inr e1 \<and> tm_inv e1 \<and>
      tm_queue e1 = (if int (length (concat (tm_queue e))) + int (length d) \<le> tm_tx_maxsize e
                     then tm_queue e @ [d] else tm_queue e)) \<and>
    (\<exists>n b' e'. nr_rlc_entity_tm_generate_pdu t b e = Inr (n, b', e') \<and> tm_inv e' \<and>
      (case tm_queue e of [] \<Rightarrow> n = 0 \<and> tm_queue e' = []
       | d # q \<Rightarrow> if length d \<le> length b
                 then n = int (length d) \<and> take (nat n) b' = d \<and> tm_queue e' = q
                 else n = 0 \<and> tm_queue e' = tm_queue e))"
  using tm_recv_sdu_inv [OF assms, of t i] tm_generate_pdu_inv [OF assms(1), of t b]
  unfolding tm_inv_size [OF assms(1)] by blast

theorem tm_fifo_witness:
  "\<exists>e1. nr_rlc_entity_tm_recv_sdu 0 [7, 8] 1 (projr (new_nr_rlc_entity_tm 10)) = Inr e1 \<and> tm_inv e1 \<and>
     tm_queue e1 = [[7, 8]]"
proof -
  obtain e where e: "new_nr_rlc_entity_tm 10 = Inr e" using tm_new_Inr by blast
  with tm_inv_new [of 10 e] have i: "tm_inv e" and q: "tm_queue e = []" and m: "tm_tx_maxsize e = 10"
    by (auto simp: new_nr_rlc_entity_tm_def res_simps)
  have "int (length [7, 8 :: byte]) \<le> NR_SDU_MAX" by (simp add: NR_SDU_MAX_def)
  from tm_fifo [OF i this, of 0 1] e q m show ?thesis by simp
qed

end
