(* ===== verification/RlcReassembly.thy ===== *)
theory RlcReassembly
  imports RlcCommon
begin

text \<open>
  The reception list of the AM and of the UM entity (\<open>nr_rlc_entity_am.c\<close>, \<open>nr_rlc_entity_um.c\<close>): when
  an SDU is complete, delivered, or has holes, and its reassembly. Both files have their own copy of
  this code, the same up to what they do to a PDU they have processed.
\<close>

section \<open>The walks over the segments of one SDU\<close>

text \<open>\<open>seek_sn\<close> is the first loop of the functions below.\<close>

definition seek_sn :: "nr_rlc_pdu list \<Rightarrow> int \<Rightarrow> nr_rlc_pdu list" where
  "seek_sn l sn = dropWhile (\<lambda>p. pdu_sn p \<noteq> sn) l"

fun sdu_full_loop :: "nr_rlc_pdu list \<Rightarrow> int \<Rightarrow> int \<Rightarrow> bool" where
  "sdu_full_loop [] sn last_byte = False"
| "sdu_full_loop (l # ls) sn last_byte =
     (if pdu_sn l \<noteq> sn then False
      else if pdu_so l > last_byte + 1 then False
      else if pdu_is_last l then True
      else let new_last_byte = pdu_so l + pdu_size l - 1
           in sdu_full_loop ls sn (if new_last_byte > last_byte then new_last_byte else last_byte))"

fun sdu_missing_loop :: "nr_rlc_pdu list \<Rightarrow> int \<Rightarrow> int \<Rightarrow> bool" where
  "sdu_missing_loop [] sn last_byte = False"
| "sdu_missing_loop (l # ls) sn last_byte =
     (if pdu_sn l \<noteq> sn then False
      else if pdu_so l > last_byte + 1 then True
      else let new_last_byte = pdu_so l + pdu_size l - 1
           in sdu_missing_loop ls sn (if new_last_byte > last_byte then new_last_byte else last_byte))"

definition rx_sdu_full :: "nr_rlc_pdu list \<Rightarrow> int \<Rightarrow> bool" where
  "rx_sdu_full rx_list sn =
     (let l = seek_sn rx_list sn
      in if l \<noteq> [] \<and> pdu_data (hd l) = None then False else sdu_full_loop l sn (-1))"

definition rx_sdu_delivered :: "nr_rlc_pdu list \<Rightarrow> int \<Rightarrow> bool" where
  "rx_sdu_delivered rx_list sn =
     (let l = seek_sn rx_list sn in l \<noteq> [] \<and> pdu_data (hd l) = None)"

definition rx_sdu_has_missing_bytes :: "nr_rlc_pdu list \<Rightarrow> int \<Rightarrow> bool" where
  "rx_sdu_has_missing_bytes rx_list sn =
     (let l = seek_sn rx_list sn
      in if l \<noteq> [] \<and> pdu_data (hd l) = None then False else sdu_missing_loop l sn (-1))"

section \<open>Reassembly\<close>

text \<open>
  The reassembly loop, over the list from the first segment of \<open>sn\<close> on. It carries \<open>so\<close> (the bytes
  assembled so far are \<open>sdu\<close>, of that length) and \<open>bad_sdu\<close>, clears \<open>data\<close> of every segment and
  returns the bytes freed. A null \<open>data\<close> cannot be copied from. \<open>clear\<close> is what else the entity
  does to a processed PDU (the UM entity sets its size to 0).
\<close>

fun reassemble_loop ::
  "(nr_rlc_pdu \<Rightarrow> nr_rlc_pdu) \<Rightarrow> nr_rlc_pdu list \<Rightarrow> int \<Rightarrow> byte list \<Rightarrow> bool \<Rightarrow>
   (nr_rlc_pdu list \<times> byte list \<times> bool \<times> int) res" where
  "reassemble_loop clear [] sn sdu bad_sdu = Inr ([], sdu, bad_sdu, 0)"
| "reassemble_loop clear (pdu # ps) sn sdu bad_sdu =
     (if pdu_sn pdu \<noteq> sn then Inr (pdu # ps, sdu, bad_sdu, 0)
      else
        let so = int (length sdu);
            len = pdu_size pdu - (so - pdu_so pdu);
            bad_sdu' = (if so + len > NR_SDU_MAX \<and> \<not> bad_sdu then True else bad_sdu)
        in res_bind (if \<not> bad_sdu' \<and> len > 0
                     then case pdu_data pdu of None \<Rightarrow> Inl NullDeref
                          | Some d \<Rightarrow> res_bind (slice d (so - pdu_so pdu) len) (\<lambda>bs. Inr (sdu @ bs))
                     else Inr sdu) (\<lambda>sdu'.
           res_bind (reassemble_loop clear ps sn sdu' bad_sdu') (\<lambda>(ps', sdu'', bad, freed).
           Inr (clear (pdu\<lparr>pdu_data := None\<rparr>) # ps', sdu'', bad, pdu_size pdu + freed))))"

text \<open>
  \<open>while (sdu_delivered(entity, sn)) sn = (sn + 1) % sn_modulus\<close>. The loop would not end if every
  sequence number were delivered; with more steps than sequence numbers the model has the result,
  and \<open>NoReturn\<close> stands for a loop that does not end.
\<close>

fun skip_delivered_loop :: "nat \<Rightarrow> nr_rlc_pdu list \<Rightarrow> int \<Rightarrow> int \<Rightarrow> int res" where
  "skip_delivered_loop 0 rx_list modulus sn = Inl NoReturn"
| "skip_delivered_loop (Suc n) rx_list modulus sn =
     (if rx_sdu_delivered rx_list sn
      then skip_delivered_loop n rx_list modulus ((sn + 1) mod modulus) else Inr sn)"

definition skip_delivered :: "nr_rlc_pdu list \<Rightarrow> int \<Rightarrow> int \<Rightarrow> int res" where
  "skip_delivered rx_list modulus sn = skip_delivered_loop (Suc (nat modulus)) rx_list modulus sn"

section \<open>Segments without gaps\<close>

definition pdu_end :: "nr_rlc_pdu \<Rightarrow> int" where
  "pdu_end p = pdu_so p + pdu_size p"

definition block :: "nr_rlc_pdu list \<Rightarrow> int \<Rightarrow> nr_rlc_pdu list" where
  "block l sn = filter (\<lambda>p. pdu_sn p = sn) l"

lemma set_block [simp]: "p \<in> set (block l sn) \<longleftrightarrow> p \<in> set l \<and> pdu_sn p = sn"
  by (auto simp: block_def)

lemma block_simps [simp]: "block [] sn = []"
  "block (p # l) sn = (if pdu_sn p = sn then p # block l sn else block l sn)"
  "block (l @ l') sn = block l sn @ block l' sn"
  by (simp_all add: block_def)

fun gapfree :: "nr_rlc_pdu list \<Rightarrow> int \<Rightarrow> bool" where
  "gapfree [] k \<longleftrightarrow> True"
| "gapfree (p # ps) k \<longleftrightarrow> pdu_so p \<le> k \<and> gapfree ps (max k (pdu_end p))"

fun covered_to :: "nr_rlc_pdu list \<Rightarrow> int \<Rightarrow> int" where
  "covered_to [] k = k"
| "covered_to (p # ps) k = covered_to ps (max k (pdu_end p))"

text \<open>No segment reaches beyond one that is marked as the last of its SDU.\<close>

definition last_is_last :: "nr_rlc_pdu list \<Rightarrow> bool" where
  "last_is_last B \<longleftrightarrow> (\<forall>p \<in> set B. \<forall>q \<in> set B. pdu_is_last q \<longrightarrow> pdu_end p \<le> pdu_end q)"

lemma gapfree_below: "\<forall>p \<in> set B. pdu_so p \<le> k \<Longrightarrow> gapfree B k"
  by (induction B arbitrary: k) (auto simp: le_max_iff_disj)

lemma full_gapfree:
  assumes "sdu_full_loop B sn (k - 1)" and "last_is_last B" and "\<forall>p \<in> set B. 0 < pdu_size p"
  shows "gapfree B k"
  using assms
proof (induction B arbitrary: k)
  case Nil
  then show ?case by simp
next
  case (Cons p B)
  then have so: "pdu_so p \<le> k" by (auto split: if_splits)
  have l: "last_is_last B" using Cons.prems by (auto simp: last_is_last_def)
  show ?case
  proof (cases "pdu_is_last p")
    case True
    then have "\<forall>q \<in> set B. pdu_end q \<le> pdu_end p" using Cons.prems(2) by (auto simp: last_is_last_def)
    then have "\<forall>q \<in> set B. pdu_so q \<le> max k (pdu_end p)"
      using Cons.prems(3) by (force simp: pdu_end_def)
    with so show ?thesis by (simp add: gapfree_below)
  next
    case False
    then have "sdu_full_loop B sn (max k (pdu_end p) - 1)"
      using Cons.prems so
      by (auto simp: Let_def pdu_end_def max_def split: if_splits)
    with Cons.IH [OF _ l] Cons.prems so show ?thesis by simp
  qed
qed

lemma covered_to_ge: "k \<le> covered_to B k"
proof (induction B arbitrary: k)
  case (Cons p B)
  from Cons [of "max k (pdu_end p)"] show ?case by simp
qed simp

lemma covered_to_end: "p \<in> set B \<Longrightarrow> pdu_end p \<le> covered_to B k"
proof (induction B arbitrary: k)
  case (Cons q B)
  with covered_to_ge [of "max k (pdu_end q)" B] show ?case by auto
qed simp

lemma covered_to_le: "k \<le> n \<Longrightarrow> \<forall>p \<in> set B. pdu_end p \<le> n \<Longrightarrow> covered_to B k \<le> n"
  by (induction B arbitrary: k) auto

text \<open>A walk that ends at a segment marked last has met one.\<close>

lemma full_has_last: "sdu_full_loop B sn k \<Longrightarrow> \<exists>p \<in> set B. pdu_is_last p"
  by (induction B arbitrary: k) (auto simp: Let_def split: if_splits)

section \<open>Reassembly\<close>

text \<open>What a received segment is: a slice of the SDU \<open>D\<close> of its sender.\<close>

definition seg_data_ok :: "nr_rlc_pdu \<Rightarrow> bool" where
  "seg_data_ok p \<longleftrightarrow> 0 \<le> pdu_so p \<and> 0 < pdu_size p \<and>
     (case pdu_data p of None \<Rightarrow> False | Some d \<Rightarrow> int (length d) = pdu_size p)"

fun assemble :: "nr_rlc_pdu list \<Rightarrow> byte list \<Rightarrow> byte list" where
  "assemble [] sdu = sdu"
| "assemble (p # ps) sdu =
     assemble ps (sdu @ drop (nat (int (length sdu) - pdu_so p)) (the (pdu_data p)))"

lemma assemble_step_length:
  assumes "seg_data_ok p" and "pdu_so p \<le> int (length sdu)"
  shows "int (length (sdu @ drop (nat (int (length sdu) - pdu_so p)) (the (pdu_data p)))) =
    max (int (length sdu)) (pdu_end p)"
  using assms by (auto simp: seg_data_ok_def pdu_end_def split: option.splits)

text \<open>
  Without gaps, the loop does not fault, releases every segment, and its buffer holds the pieces put
  together, unless they exceed \<open>NR_SDU_MAX\<close>.
\<close>

lemma reassemble_gapfree:
  assumes "\<forall>p \<in> set B. pdu_sn p = sn \<and> seg_data_ok p"
    and "bad \<or> gapfree B (int (length sdu)) \<and> int (length sdu) \<le> NR_SDU_MAX"
    and "rest = [] \<or> pdu_sn (hd rest) \<noteq> sn"
  shows "\<exists>sdu' bad'. reassemble_loop clear (B @ rest) sn sdu bad =
    Inr (map (\<lambda>p. clear (p\<lparr>pdu_data := None\<rparr>)) B @ rest, sdu', bad', sum_list (map pdu_size B)) \<and>
    (bad' \<longleftrightarrow> bad \<or> covered_to B (int (length sdu)) > NR_SDU_MAX) \<and> (\<not> bad' \<longrightarrow> sdu' = assemble B sdu)"
  using assms
proof (induction B arbitrary: sdu bad)
  case Nil
  then show ?case by (cases rest) auto
next
  case (Cons p B)
  define so where "so = int (length sdu)"
  define len where "len = pdu_size p - (so - pdu_so p)"
  define bad1 where "bad1 = (if so + len > NR_SDU_MAX \<and> \<not> bad then True else bad)"
  define bs where "bs = drop (nat (so - pdu_so p)) (the (pdu_data p))"
  from Cons.prems(1) obtain d where p: "pdu_sn p = sn" "seg_data_ok p" "pdu_data p = Some d"
    "int (length d) = pdu_size p" by (auto simp: seg_data_ok_def split: option.splits)
  have bad1: "bad1 \<longleftrightarrow> bad \<or> max so (pdu_end p) > NR_SDU_MAX"
    using Cons.prems(2) by (auto simp: bad1_def len_def so_def pdu_end_def)
  have loop: "reassemble_loop clear ((p # B) @ rest) sn sdu bad =
    res_bind (if \<not> bad1 \<and> len > 0 then res_bind (slice d (so - pdu_so p) len) (\<lambda>bs. Inr (sdu @ bs)) else Inr sdu)
      (\<lambda>sdu'. res_bind (reassemble_loop clear (B @ rest) sn sdu' bad1) (\<lambda>(ps', sdu'', bad, freed).
        Inr (clear (p\<lparr>pdu_data := None\<rparr>) # ps', sdu'', bad, pdu_size p + freed)))"
    using p unfolding bad1_def len_def so_def by (simp add: Let_def)
  have "slice d (so - pdu_so p) len = Inr bs" if "\<not> bad1" "len > 0"
    using that Cons.prems p bad1 by (auto simp: slice_def len_def bs_def so_def)
  moreover have "bs = []" if "\<not> len > 0" using that p by (simp add: bs_def len_def)
  ultimately have step: "reassemble_loop clear ((p # B) @ rest) sn sdu bad =
    res_bind (reassemble_loop clear (B @ rest) sn (if bad1 then sdu else sdu @ bs) bad1) (\<lambda>(ps', sdu'', bad, freed).
      Inr (clear (p\<lparr>pdu_data := None\<rparr>) # ps', sdu'', bad, pdu_size p + freed))"
    unfolding loop by (cases bad1; cases "len > 0") simp_all
  show ?case
  proof (cases bad1)
    case True
    with Cons.IH [of True sdu] Cons.prems(1,3) obtain sdu' where
      "reassemble_loop clear (B @ rest) sn sdu True =
        Inr (map (\<lambda>p. clear (p\<lparr>pdu_data := None\<rparr>)) B @ rest, sdu', True, sum_list (map pdu_size B))"
      by auto
    then have "reassemble_loop clear ((p # B) @ rest) sn sdu bad =
      Inr (map (\<lambda>p. clear (p\<lparr>pdu_data := None\<rparr>)) (p # B) @ rest, sdu', True, sum_list (map pdu_size (p # B)))"
      unfolding step using True by simp
    moreover have "bad \<or> covered_to (p # B) so > NR_SDU_MAX"
      using True bad1 covered_to_ge [of "max so (pdu_end p)" B] by auto
    ultimately show ?thesis
      by (intro exI [of _ sdu'] exI [of _ True]) (simp del: reassemble_loop.simps add: so_def)
  next
    case False
    then have so: "pdu_so p \<le> so" "gapfree B (max so (pdu_end p))" "max so (pdu_end p) \<le> NR_SDU_MAX" "\<not> bad"
      using Cons.prems(2) bad1 by (auto simp: so_def)
    then have "int (length (sdu @ bs)) = max so (pdu_end p)"
      using assemble_step_length [OF p(2), of sdu] by (simp add: bs_def so_def)
    with Cons.IH [of False "sdu @ bs"] Cons.prems(1,3) so obtain sdu' bad' where
      r: "reassemble_loop clear (B @ rest) sn (sdu @ bs) False =
        Inr (map (\<lambda>p. clear (p\<lparr>pdu_data := None\<rparr>)) B @ rest, sdu', bad', sum_list (map pdu_size B))"
      and b: "bad' \<longleftrightarrow> covered_to B (max so (pdu_end p)) > NR_SDU_MAX" "\<not> bad' \<longrightarrow> sdu' = assemble B (sdu @ bs)"
      by auto
    have "reassemble_loop clear ((p # B) @ rest) sn sdu bad =
      Inr (map (\<lambda>p. clear (p\<lparr>pdu_data := None\<rparr>)) (p # B) @ rest, sdu', bad', sum_list (map pdu_size (p # B)))"
      unfolding step using False r by simp
    with b so show ?thesis by (simp add: so_def bs_def)
  qed
qed

section \<open>Segments of one SDU\<close>

text \<open>A genuine segment of the SDU \<open>D\<close>: its data is the slice its header announces.\<close>

definition seg_of :: "byte list \<Rightarrow> nr_rlc_pdu \<Rightarrow> bool" where
  "seg_of D p \<longleftrightarrow> seg_data_ok p \<and> pdu_end p \<le> int (length D) \<and>
     pdu_data p = Some (take (nat (pdu_size p)) (drop (nat (pdu_so p)) D)) \<and>
     (pdu_is_last p \<longleftrightarrow> pdu_end p = int (length D))"

lemma seg_of_last_is_last: "\<forall>p \<in> set B. seg_of D p \<Longrightarrow> last_is_last B"
  by (auto simp: seg_of_def last_is_last_def)

lemma assemble_segs:
  assumes "\<forall>p \<in> set B. seg_of D p" and "gapfree B (int k)" and "k \<le> length D"
  shows "assemble B (take k D) = take (nat (covered_to B (int k))) D"
  using assms
proof (induction B arbitrary: k)
  case Nil
  then show ?case by simp
next
  case (Cons p B)
  then have p: "seg_data_ok p" "pdu_end p \<le> int (length D)" "pdu_so p \<le> int k" "0 \<le> pdu_so p" "0 < pdu_size p"
    "pdu_data p = Some (take (nat (pdu_size p)) (drop (nat (pdu_so p)) D))"
    by (auto simp: seg_of_def seg_data_ok_def)
  define m where "m = max k (nat (pdu_end p))"
  have im: "int m = max (int k) (pdu_end p)" using p by (simp add: m_def pdu_end_def)
  have "take k D @ drop (nat (int (length (take k D)) - pdu_so p)) (the (pdu_data p)) = take m D"
  proof -
    have l: "int (length (take k D)) = int k" using Cons.prems(3) by simp
    have "drop (nat (int k - pdu_so p)) (take (nat (pdu_size p)) (drop (nat (pdu_so p)) D)) =
      take (nat (pdu_end p) - k) (drop k D)"
    proof -
      have "nat (int k - pdu_so p) + nat (pdu_so p) = k"
        "nat (pdu_size p) - nat (int k - pdu_so p) = nat (pdu_end p) - k"
        using p by (simp_all add: pdu_end_def nat_diff_distrib' nat_add_distrib)
      then show ?thesis by (simp add: drop_take)
    qed
    moreover have "take k D @ take (nat (pdu_end p) - k) (drop k D) = take m D"
      by (simp add: m_def max_def take_add [symmetric])
    ultimately show ?thesis using l p(6) by simp
  qed
  moreover have "assemble B (take m D) = take (nat (covered_to B (int m))) D"
    using Cons p im by (intro Cons.IH) (auto simp: m_def)
  ultimately show ?case by (simp add: im)
qed

text \<open>All of \<open>D\<close> is there exactly when the walk says so.\<close>

lemma full_loop_covers:
  assumes "\<forall>p \<in> set B. seg_of D p" and "sdu_full_loop B sn (-1)"
  shows "covered_to B 0 = int (length D)"
proof -
  obtain p where "p \<in> set B" "pdu_is_last p" using full_has_last assms(2) by blast
  then have "int (length D) \<le> covered_to B 0"
    using assms(1) covered_to_end [of p B 0] by (auto simp: seg_of_def)
  then show ?thesis
    using covered_to_le [of 0 "int (length D)" B] assms by (auto simp: seg_of_def)
qed

lemma gapfree_covers: "gapfree B k \<Longrightarrow> k \<le> i \<Longrightarrow> i < covered_to B k \<Longrightarrow> \<exists>p \<in> set B. pdu_so p \<le> i \<and> i < pdu_end p"
proof (induction B arbitrary: k)
  case (Cons p B)
  then show ?case by (cases "i < pdu_end p") auto
qed simp

lemma full_loop_complete:
  assumes "\<forall>p \<in> set B. seg_of D p \<and> pdu_sn p = sn" and "sorted_wrt (\<lambda>p q. pdu_so p \<le> pdu_so q) B"
    and "\<forall>i. k \<le> i \<and> i < int (length D) \<longrightarrow> (\<exists>p \<in> set B. pdu_so p \<le> i \<and> i < pdu_end p)"
    and "0 \<le> k" "k < int (length D)"
  shows "sdu_full_loop B sn (k - 1)"
  using assms
proof (induction B arbitrary: k)
  case Nil
  then show ?case by auto
next
  case (Cons p B)
  have p: "pdu_sn p = sn" "seg_of D p" using Cons.prems(1) by auto
  have so: "pdu_so p \<le> k" using Cons.prems(2,3,5) by fastforce
  show ?case
  proof (cases "pdu_is_last p")
    case True
    with p so show ?thesis by simp
  next
    case False
    define m where "m = max k (pdu_end p)"
    have "m < int (length D)" using p False Cons.prems(5) by (auto simp: m_def seg_of_def)
    moreover have "\<exists>q \<in> set B. pdu_so q \<le> i \<and> i < pdu_end q" if "m \<le> i" "i < int (length D)" for i
      using Cons.prems(3) that by (auto simp: m_def)
    ultimately have "sdu_full_loop B sn (m - 1)"
      using Cons.prems by (intro Cons.IH) (auto simp: m_def)
    then show ?thesis using p so False by (auto simp: Let_def pdu_end_def m_def max_def split: if_splits)
  qed
qed

section \<open>The reception list\<close>

text \<open>
  The list is sorted; a PDU with data has as many bytes as it says; and when a PDU of a sequence number
  was processed, the first PDU of that number was, and it starts the SDU (so that nothing that arrives
  later can be put before it).
\<close>

definition rx_pdu_ok :: "int \<Rightarrow> nr_rlc_pdu \<Rightarrow> bool" where
  "rx_pdu_ok M p \<longleftrightarrow> 0 \<le> pdu_sn p \<and> pdu_sn p < M \<and> 0 \<le> pdu_so p \<and> 0 \<le> pdu_size p \<and>
     (pdu_data p \<noteq> None \<longrightarrow> seg_data_ok p)"

definition rx_delivered_first :: "nr_rlc_pdu list \<Rightarrow> bool" where
  "rx_delivered_first l \<longleftrightarrow> (\<forall>p \<in> set l. pdu_data p = None \<longrightarrow>
     pdu_data (hd (block l (pdu_sn p))) = None \<and> pdu_so (hd (block l (pdu_sn p))) = 0)"

definition rx_inv :: "(int \<Rightarrow> int) \<Rightarrow> int \<Rightarrow> nr_rlc_pdu list \<Rightarrow> bool" where
  "rx_inv key M l \<longleftrightarrow> sorted_wrt (pdu_before key) l \<and> (\<forall>p \<in> set l. rx_pdu_ok M p) \<and> rx_delivered_first l"

text \<open>The bytes held: what \<open>rx_size\<close> counts.\<close>

definition rx_bytes :: "nr_rlc_pdu list \<Rightarrow> int" where
  "rx_bytes l = sum_list (map (\<lambda>p. if pdu_data p = None then 0 else pdu_size p) l)"

lemma rx_bytes_add: "rx_bytes (nr_rlc_pdu_list_add cmp l p) =
    (if pdu_data p = None then 0 else pdu_size p) + rx_bytes l"
  unfolding rx_bytes_def by (rule sum_pdu_list_add)

lemma rx_inv_Nil [simp]: "rx_inv key M []"
  by (simp add: rx_inv_def rx_delivered_first_def)

text \<open>The PDUs of \<open>sn\<close> after their reassembly.\<close>

definition mark_delivered ::
  "(nr_rlc_pdu \<Rightarrow> nr_rlc_pdu) \<Rightarrow> int \<Rightarrow> nr_rlc_pdu list \<Rightarrow> nr_rlc_pdu list" where
  "mark_delivered clear sn l = map (\<lambda>p. if pdu_sn p = sn then clear (p\<lparr>pdu_data := None\<rparr>) else p) l"

definition clear_ok :: "(nr_rlc_pdu \<Rightarrow> nr_rlc_pdu) \<Rightarrow> bool" where
  "clear_ok clear \<longleftrightarrow> (\<forall>p. pdu_sn (clear p) = pdu_sn p \<and> pdu_so (clear p) = pdu_so p \<and>
     pdu_data (clear p) = pdu_data p \<and> (0 \<le> pdu_size p \<longrightarrow> 0 \<le> pdu_size (clear p)))"

lemma clear_ok_simps [simp]: "clear_ok id" "clear_ok (pdu_size_update (\<lambda>_. 0))"
  by (simp_all add: clear_ok_def)

lemma block_mark:
  assumes "clear_ok clear"
  shows "block (mark_delivered clear sn l) s =
    (if s = sn then map (\<lambda>p. clear (p\<lparr>pdu_data := None\<rparr>)) (block l sn) else block l s)"
  using assms by (induction l) (auto simp: mark_delivered_def clear_ok_def)

lemma mark_delivered_inv:
  assumes inv: "rx_inv key M l" and c: "clear_ok clear" and hd: "block l sn \<noteq> []" "pdu_so (hd (block l sn)) = 0"
  shows "rx_inv key M (mark_delivered clear sn l)"
proof -
  let ?f = "\<lambda>p. if pdu_sn p = sn then clear (p\<lparr>pdu_data := None\<rparr>) else p"
  have key: "pdu_before key (?f p) (?f q) \<longleftrightarrow> pdu_before key p q" for p q
    using c by (simp add: pdu_before_def clear_ok_def)
  have "sorted_wrt (pdu_before key) (map ?f l)"
    using inv unfolding sorted_wrt_map key rx_inv_def by simp
  moreover have "\<forall>p \<in> set (map ?f l). rx_pdu_ok M p"
    using inv c by (auto simp: rx_inv_def rx_pdu_ok_def clear_ok_def)
  moreover have "pdu_data (hd (block (mark_delivered clear sn l) (pdu_sn p))) = None \<and>
      pdu_so (hd (block (mark_delivered clear sn l) (pdu_sn p))) = 0"
    if p: "p \<in> set (map ?f l)" "pdu_data p = None" for p
  proof (cases "pdu_sn p = sn")
    case True
    with hd c show ?thesis by (simp add: block_mark hd_map clear_ok_def)
  next
    case False
    then have "p \<in> set l" using p c by (auto simp: clear_ok_def split: if_splits)
    with inv False p(2) c show ?thesis by (simp add: block_mark rx_inv_def rx_delivered_first_def)
  qed
  ultimately show ?thesis
    unfolding rx_inv_def rx_delivered_first_def by (simp add: mark_delivered_def)
qed

lemma mark_delivered_bytes:
  assumes "clear_ok clear" and "\<forall>p \<in> set (block l sn). pdu_data p \<noteq> None"
  shows "rx_bytes (mark_delivered clear sn l) = rx_bytes l - sum_list (map pdu_size (block l sn))"
  using assms by (induction l) (auto simp: rx_bytes_def mark_delivered_def clear_ok_def)

section \<open>Parts of the list, other orders\<close>

text \<open>No segment reaches beyond one that is marked as the last of its SDU.\<close>

definition rx_ends_ok :: "nr_rlc_pdu list \<Rightarrow> bool" where
  "rx_ends_ok l \<longleftrightarrow> (\<forall>p \<in> set l. \<forall>q \<in> set l. pdu_sn p = pdu_sn q \<and> pdu_data p \<noteq> None \<and> pdu_data q \<noteq> None \<and>
     pdu_is_last q \<longrightarrow> pdu_end p \<le> pdu_end q)"

lemma rx_ends_ok_last_is_last:
  "rx_ends_ok l \<Longrightarrow> \<forall>p \<in> set (block l s). seg_data_ok p \<Longrightarrow> last_is_last (block l s)"
  unfolding rx_ends_ok_def last_is_last_def set_block
  by (intro ballI impI) (auto simp: seg_data_ok_def split: option.splits)

lemma rx_ends_ok_subset:
  "rx_ends_ok l \<Longrightarrow> set l' \<subseteq> set l \<Longrightarrow> rx_ends_ok l'"
  unfolding rx_ends_ok_def by blast

lemma rx_ends_ok_mark: "rx_ends_ok l \<Longrightarrow> clear_ok c \<Longrightarrow> rx_ends_ok (mark_delivered c s l)"
  unfolding rx_ends_ok_def mark_delivered_def clear_ok_def by (auto split: if_splits)

lemma rx_bytes_append: "rx_bytes (l @ l') = rx_bytes l + rx_bytes l'"
  by (simp add: rx_bytes_def)

lemma rx_bytes_nonneg: "\<forall>p \<in> set l. rx_pdu_ok M p \<Longrightarrow> 0 \<le> rx_bytes l"
  unfolding rx_bytes_def by (rule sum_list_nonneg) (auto simp: rx_pdu_ok_def)

text \<open>A change of the base of the order that keeps the order of the numbers in the list.\<close>

lemma rx_inv_rebase:
  assumes "rx_inv key M l"
    and "\<And>p q. p \<in> set l \<Longrightarrow> q \<in> set l \<Longrightarrow> key (pdu_sn p) < key (pdu_sn q) \<Longrightarrow> key' (pdu_sn p) < key' (pdu_sn q)"
  shows "rx_inv key' M l"
proof -
  have "sorted_wrt (pdu_before key') l"
    by (rule sorted_wrt_mono_rel [of l "pdu_before key"]) (use assms in \<open>auto simp: rx_inv_def pdu_before_def\<close>)
  with assms(1) show ?thesis by (simp add: rx_inv_def)
qed

lemma rx_inv_drop:
  assumes "rx_inv key M (l @ l')" and "\<forall>p \<in> set l. \<forall>q \<in> set l'. pdu_sn p \<noteq> pdu_sn q"
  shows "rx_inv key M l'"
proof -
  have b: "block (l @ l') (pdu_sn q) = block l' (pdu_sn q)" if "q \<in> set l'" for q
    using that assms(2) by (auto simp: block_def filter_empty_conv)
  have "rx_delivered_first l'"
    unfolding rx_delivered_first_def
  proof (intro ballI impI)
    fix q assume q: "q \<in> set l'" "pdu_data q = None"
    then have "q \<in> set (l @ l')" by simp
    with assms(1) q(2) have "pdu_data (hd (block (l @ l') (pdu_sn q))) = None \<and> pdu_so (hd (block (l @ l') (pdu_sn q))) = 0"
      unfolding rx_inv_def rx_delivered_first_def by blast
    then show "pdu_data (hd (block l' (pdu_sn q))) = None \<and> pdu_so (hd (block l' (pdu_sn q))) = 0"
      by (simp only: b [OF q(1)])
  qed
  with assms(1) show ?thesis by (simp add: rx_inv_def sorted_wrt_append)
qed

lemma sdu_full_loop_append: "sdu_full_loop B sn k \<Longrightarrow> sdu_full_loop (B @ rest) sn k"
  by (induction B arbitrary: k) (auto simp: Let_def split: if_splits)

context sn_order
begin

lemma seek_block:
  assumes "sorted_wrt (pdu_before key) l" and "\<forall>p \<in> set l. valid (pdu_sn p)"
  shows "\<exists>rest. seek_sn l s = block l s @ rest \<and> (rest = [] \<or> pdu_sn (hd rest) \<noteq> s) \<and>
    (\<forall>p \<in> set rest. pdu_sn p \<noteq> s) \<and> l = takeWhile (\<lambda>p. pdu_sn p \<noteq> s) l @ block l s @ rest"
proof (intro exI conjI)
  let ?rest = "dropWhile (\<lambda>p. pdu_sn p = s) (seek_sn l s)"
  show seek: "seek_sn l s = block l s @ ?rest"
    unfolding block_def same_sn_block [OF assms, symmetric] by (simp add: seek_sn_def)
  show "?rest = [] \<or> pdu_sn (hd ?rest) \<noteq> s"
    using hd_dropWhile [of "\<lambda>p. pdu_sn p = s" "seek_sn l s"] by blast
  show l: "l = takeWhile (\<lambda>p. pdu_sn p \<noteq> s) l @ block l s @ ?rest"
    unfolding seek [symmetric] by (simp add: seek_sn_def)
  have "block (takeWhile (\<lambda>p. pdu_sn p \<noteq> s) l @ block l s @ ?rest) s = block l s"
    using l by (rule arg_cong [where f = "\<lambda>l. block l s", OF sym])
  moreover have "block (takeWhile (\<lambda>p. pdu_sn p \<noteq> s) l) s = []" "block (block l s) s = block l s"
    by (auto simp: block_def filter_empty_conv dest: set_takeWhileD)
  ultimately have "block ?rest s = []" unfolding block_simps(3) by (metis append_Nil append_self_conv)
  then show "\<forall>p \<in> set ?rest. pdu_sn p \<noteq> s" by (simp only: block_def filter_empty_conv)
qed

lemma block_sorted:
  "sorted_wrt (pdu_before key) l \<Longrightarrow> sorted_wrt (\<lambda>p q. pdu_so p \<le> pdu_so q) (block l s)"
  by (induction l) (force simp: pdu_before_def)+

lemma hd_block_add:
  assumes "sorted_wrt (pdu_before key) l" and "block l (pdu_sn x) \<noteq> []"
    and "pdu_so (hd (block l (pdu_sn x))) \<le> pdu_so x"
  shows "hd (block (nr_rlc_pdu_list_add cmp l x) (pdu_sn x)) = hd (block l (pdu_sn x))"
  using assms
proof (induction l)
  case (Cons c l)
  then show ?case
  proof (cases "pdu_sn c = pdu_sn x")
    case True
    with Cons.prems show ?thesis by (simp add: cmp_key)
  next
    case False
    with Cons.prems obtain q where q: "q \<in> set l" "pdu_sn q = pdu_sn x"
      by (auto simp: block_def filter_empty_conv)
    with Cons.prems False have "key (pdu_sn c) < key (pdu_sn x)" by (auto simp: pdu_before_def)
    with Cons False show ?thesis by (simp add: cmp_key)
  qed
qed simp

lemma block_add_other:
  "s \<noteq> pdu_sn x \<Longrightarrow> block (nr_rlc_pdu_list_add cmp l x) s = block l s"
  by (induction l) auto

lemma rx_add_inv:
  assumes inv: "rx_inv key M l" and x: "rx_pdu_ok M x" "pdu_data x \<noteq> None"
    and v: "\<And>p. rx_pdu_ok M p \<Longrightarrow> valid (pdu_sn p)"
  shows "rx_inv key M (nr_rlc_pdu_list_add cmp l x)"
proof -
  have ok: "sorted_wrt (pdu_before key) l" "\<forall>p \<in> set l. rx_pdu_ok M p" using inv by (simp_all add: rx_inv_def)
  then have "sorted_wrt (pdu_before key) (nr_rlc_pdu_list_add cmp l x)"
    using v x by (intro list_add_sorted) auto
  moreover have "pdu_data (hd (block (nr_rlc_pdu_list_add cmp l x) (pdu_sn p))) = None \<and>
      pdu_so (hd (block (nr_rlc_pdu_list_add cmp l x) (pdu_sn p))) = 0"
    if "p \<in> set l" "pdu_data p = None" for p
  proof (cases "pdu_sn p = pdu_sn x")
    case True
    then have "block l (pdu_sn x) \<noteq> []" using that by (auto simp: block_def filter_empty_conv)
    moreover have "pdu_data (hd (block l (pdu_sn x))) = None" "pdu_so (hd (block l (pdu_sn x))) = 0"
      using inv that True by (auto simp: rx_inv_def rx_delivered_first_def)
    ultimately show ?thesis using hd_block_add [OF ok(1)] x True by (simp add: rx_pdu_ok_def)
  next
    case False
    with inv that show ?thesis by (simp add: block_add_other rx_inv_def rx_delivered_first_def)
  qed
  ultimately show ?thesis using ok x by (auto simp: rx_inv_def rx_delivered_first_def)
qed

text \<open>Reassembly of a complete SDU, as both entities call it.\<close>

lemma rx_full_block:
  assumes inv: "rx_inv key M l" and v: "\<And>p. rx_pdu_ok M p \<Longrightarrow> valid (pdu_sn p)" and full: "rx_sdu_full l s"
  shows "block l s \<noteq> [] \<and> pdu_so (hd (block l s)) = 0 \<and> sdu_full_loop (block l s) s (-1) \<and>
    (\<forall>p \<in> set (block l s). seg_data_ok p)"
proof -
  have sv: "sorted_wrt (pdu_before key) l" "\<forall>p \<in> set l. valid (pdu_sn p)"
    using inv v by (auto simp: rx_inv_def)
  obtain rest where r: "seek_sn l s = block l s @ rest" "rest = [] \<or> pdu_sn (hd rest) \<noteq> s"
    using seek_block [OF sv] by blast
  have drop: "sdu_full_loop (B @ rest) s k \<Longrightarrow> sdu_full_loop B s k" for B k
    using r(2) by (induction B arbitrary: k; cases rest) (auto simp: Let_def split: if_splits)
  have "sdu_full_loop (seek_sn l s) s (-1)" using full by (auto simp: rx_sdu_full_def Let_def split: if_splits)
  then have fl: "sdu_full_loop (block l s) s (-1)" using r drop by simp
  then obtain p B where B: "block l s = p # B" by (cases "block l s") auto
  then have "p \<in> set (block l s)" by simp
  then have pl: "p \<in> set l" "pdu_sn p = s" by simp_all
  have "pdu_data p \<noteq> None" using full r B by (auto simp: rx_sdu_full_def Let_def split: if_splits)
  then have hd: "pdu_data (hd (block l s)) \<noteq> None" using B by simp
  have "rx_delivered_first l" using inv by (simp add: rx_inv_def)
  then have "pdu_data q \<noteq> None" if "q \<in> set (block l s)" for q
    using that hd unfolding rx_delivered_first_def set_block by metis
  then have "\<forall>q \<in> set (block l s). seg_data_ok q" using inv by (simp add: rx_inv_def rx_pdu_ok_def)
  moreover have "pdu_so p \<le> 0" "0 \<le> pdu_so p"
    using fl B pl inv by (auto simp: rx_inv_def rx_pdu_ok_def split: if_splits)
  ultimately show ?thesis using B fl by simp
qed

lemma rx_reassemble:
  assumes inv: "rx_inv key M l" and v: "\<And>p. rx_pdu_ok M p \<Longrightarrow> valid (pdu_sn p)" and full: "rx_sdu_full l s"
    and lst: "last_is_last (block l s)" and c: "clear_ok clear"
  shows "seek_sn l s \<noteq> [] \<and> (\<exists>l' sdu bad. reassemble_loop clear (seek_sn l s) s [] False =
      Inr (l', sdu, bad, sum_list (map pdu_size (block l s))) \<and>
    takeWhile (\<lambda>p. pdu_sn p \<noteq> s) l @ l' = mark_delivered clear s l \<and>
    (bad \<longleftrightarrow> covered_to (block l s) 0 > NR_SDU_MAX) \<and> (\<not> bad \<longrightarrow> sdu = assemble (block l s) []))"
proof -
  have sv: "sorted_wrt (pdu_before key) l" "\<forall>p \<in> set l. valid (pdu_sn p)"
    using inv v by (auto simp: rx_inv_def)
  obtain rest where r: "seek_sn l s = block l s @ rest" "rest = [] \<or> pdu_sn (hd rest) \<noteq> s"
    "\<forall>p \<in> set rest. pdu_sn p \<noteq> s" "l = takeWhile (\<lambda>p. pdu_sn p \<noteq> s) l @ block l s @ rest"
    using seek_block [OF sv] by blast
  note B = rx_full_block [OF inv v full]
  have "gapfree (block l s) 0"
    using full_gapfree [of "block l s" s 0] B lst by (auto simp: seg_data_ok_def)
  then obtain sdu bad where x: "reassemble_loop clear (block l s @ rest) s [] False =
    Inr (map (\<lambda>p. clear (p\<lparr>pdu_data := None\<rparr>)) (block l s) @ rest, sdu, bad, sum_list (map pdu_size (block l s)))"
    "bad \<longleftrightarrow> covered_to (block l s) 0 > NR_SDU_MAX" "\<not> bad \<longrightarrow> sdu = assemble (block l s) []"
    using reassemble_gapfree [of "block l s" s False "[]" rest clear] B r(2) by (auto simp: NR_SDU_MAX_def)
  have "mark_delivered clear s l = mark_delivered clear s (takeWhile (\<lambda>p. pdu_sn p \<noteq> s) l) @
      mark_delivered clear s (block l s) @ mark_delivered clear s rest"
    by (subst r(4)) (simp add: mark_delivered_def)
  moreover have "mark_delivered clear s (takeWhile (\<lambda>p. pdu_sn p \<noteq> s) l) = takeWhile (\<lambda>p. pdu_sn p \<noteq> s) l"
    "mark_delivered clear s rest = rest"
    "mark_delivered clear s (block l s) = map (\<lambda>p. clear (p\<lparr>pdu_data := None\<rparr>)) (block l s)"
    using r(3) by (auto simp: mark_delivered_def intro!: map_idI dest: set_takeWhileD)
  ultimately have "takeWhile (\<lambda>p. pdu_sn p \<noteq> s) l @ map (\<lambda>p. clear (p\<lparr>pdu_data := None\<rparr>)) (block l s) @ rest =
    mark_delivered clear s l" by simp
  with x B show ?thesis unfolding r(1) by blast
qed

text \<open>Completeness and content, when all segments held for \<open>x\<close> are of the SDU \<open>D\<close>.\<close>

lemma rx_full_data:
  assumes inv: "rx_inv key M l" and v: "\<And>p. rx_pdu_ok M p \<Longrightarrow> valid (pdu_sn p)" and full: "rx_sdu_full l x"
    and segs: "\<forall>p \<in> set l. pdu_sn p = x \<longrightarrow> seg_of D p"
  shows "covered_to (block l x) 0 = int (length D) \<and> assemble (block l x) [] = D"
proof -
  note B = rx_full_block [OF inv v full]
  have s: "\<forall>p \<in> set (block l x). seg_of D p" using segs by simp
  have cov: "covered_to (block l x) 0 = int (length D)" using full_loop_covers [OF s] B by blast
  have "gapfree (block l x) 0"
    using full_gapfree [of "block l x" x 0] B seg_of_last_is_last [OF s] by (auto simp: seg_data_ok_def)
  then show ?thesis using assemble_segs [OF s, of 0] cov by simp
qed

lemma rx_delivered_mark:
  assumes inv: "rx_inv key M l" and v: "\<And>p. rx_pdu_ok M p \<Longrightarrow> valid (pdu_sn p)" and c: "clear_ok clear"
    and hd: "block l x \<noteq> []" "pdu_so (hd (block l x)) = 0"
  shows "rx_sdu_delivered (mark_delivered clear x l) x"
proof -
  have "rx_inv key M (mark_delivered clear x l)" by (rule mark_delivered_inv [OF inv c hd])
  then obtain rest where "seek_sn (mark_delivered clear x l) x = block (mark_delivered clear x l) x @ rest"
    using seek_block v unfolding rx_inv_def by blast
  then show ?thesis using hd(1) c by (simp add: rx_sdu_delivered_def Let_def block_mark hd_append hd_map clear_ok_def)
qed

lemma rx_full_iff:
  assumes inv: "rx_inv key M l" and v: "\<And>p. rx_pdu_ok M p \<Longrightarrow> valid (pdu_sn p)"
    and segs: "\<forall>p \<in> set l. pdu_sn p = x \<longrightarrow> seg_of D p" and D: "D \<noteq> []"
  shows "rx_sdu_full l x \<longleftrightarrow>
    (\<forall>i \<in> {0..<int (length D)}. \<exists>p \<in> set l. pdu_sn p = x \<and> pdu_so p \<le> i \<and> i < pdu_so p + pdu_size p)"
    (is "_ \<longleftrightarrow> ?cover")
proof -
  let ?B = "block l x"
  have s: "\<forall>p \<in> set ?B. seg_of D p" using segs by simp
  show ?thesis
  proof
    assume "rx_sdu_full l x"
    then have B: "sdu_full_loop ?B x (-1)" "\<forall>p \<in> set ?B. seg_data_ok p" using rx_full_block [OF inv v] by auto
    have "gapfree ?B 0"
      using full_gapfree [of ?B x 0] B seg_of_last_is_last [OF s] by (auto simp: seg_data_ok_def)
    then show ?cover
      using gapfree_covers [of ?B 0] full_loop_covers [OF s B(1)] by (force simp: pdu_end_def)
  next
    assume c: ?cover
    have srt: "sorted_wrt (pdu_before key) l" "\<forall>p \<in> set l. valid (pdu_sn p)"
      using inv v by (auto simp: rx_inv_def)
    have "\<forall>i. 0 \<le> i \<and> i < int (length D) \<longrightarrow> (\<exists>p \<in> set ?B. pdu_so p \<le> i \<and> i < pdu_end p)"
      using c by (simp add: Bex_def pdu_end_def conj_ac)
    then have full: "sdu_full_loop ?B x (0 - 1)"
      using D s block_sorted [OF srt(1)] by (intro full_loop_complete) auto
    obtain rest where r: "seek_sn l x = ?B @ rest" using seek_block [OF srt] by blast
    have "?B \<noteq> []" using full by auto
    then have "seg_of D (hd ?B)" using s hd_in_set by blast
    then have "pdu_data (hd (?B @ rest)) \<noteq> None" using \<open>?B \<noteq> []\<close> by (simp add: seg_of_def)
    moreover have "sdu_full_loop (?B @ rest) x (-1)" using full sdu_full_loop_append by fastforce
    ultimately show "rx_sdu_full l x" by (simp add: rx_sdu_full_def r Let_def)
  qed
qed

end

section \<open>Skipping delivered SDUs\<close>

lemma rx_delivered_in: "rx_sdu_delivered l sn \<Longrightarrow> \<exists>p \<in> set l. pdu_sn p = sn"
  by (auto simp: rx_sdu_delivered_def seek_sn_def Let_def dropWhile_eq_Nil_conv)

lemma skip_delivered_loop_ok:
  assumes "\<not> rx_sdu_delivered l ((a + int k) mod M)" and "k < n" and "0 \<le> a" "a < M"
  shows "\<exists>j \<le> k. skip_delivered_loop n l M a = Inr ((a + int j) mod M) \<and> \<not> rx_sdu_delivered l ((a + int j) mod M) \<and>
    (\<forall>i < j. rx_sdu_delivered l ((a + int i) mod M))"
  using assms
proof (induction n arbitrary: a k)
  case (Suc n)
  show ?case
  proof (cases "rx_sdu_delivered l a")
    case False
    with Suc.prems show ?thesis by (intro exI [of _ 0]) simp
  next
    case True
    then obtain k' where k: "k = Suc k'" using Suc.prems by (cases k) auto
    have eq: "((a + 1) mod M + int i) mod M = (a + int (Suc i)) mod M" for i
      by (simp add: mod_add_left_eq add.assoc)
    have "0 < M" using Suc.prems by simp
    then obtain j where "j \<le> k'" "skip_delivered_loop n l M ((a + 1) mod M) = Inr (((a + 1) mod M + int j) mod M)"
      "\<not> rx_sdu_delivered l (((a + 1) mod M + int j) mod M)"
      "\<forall>i < j. rx_sdu_delivered l (((a + 1) mod M + int i) mod M)"
      using Suc.IH [of "(a + 1) mod M" k'] Suc.prems k unfolding eq by auto
    then show ?thesis using True k Suc.prems unfolding eq
      by (intro exI [of _ "Suc j"]) (auto simp: less_Suc_eq_0_disj)
  qed
qed simp

text \<open>With a sequence number outside of the list, the loop ends at the first that was not delivered.\<close>

lemma skip_delivered_ok:
  assumes "\<forall>p \<in> set l. pdu_sn p \<noteq> b" and "0 \<le> a" "a < M" and "0 \<le> b" "b < M"
  shows "\<exists>j. skip_delivered l M a = Inr ((a + int j) mod M) \<and> \<not> rx_sdu_delivered l ((a + int j) mod M) \<and>
    (\<forall>i < j. rx_sdu_delivered l ((a + int i) mod M))"
proof -
  define k where "k = nat ((b - a) mod M)"
  have k: "int k = (b - a) mod M" "k < Suc (nat M)" using assms by (auto simp: k_def nat_less_iff less_Suc_eq_le nat_le_iff intro: less_imp_le)
  have "(a + int k) mod M = b" using assms by (simp add: k mod_add_right_eq)
  with assms(1) rx_delivered_in [of l b] have "\<not> rx_sdu_delivered l ((a + int k) mod M)" by auto
  from skip_delivered_loop_ok [OF this k(2) assms(2,3)] show ?thesis
    unfolding skip_delivered_def by blast
qed

end
