(* ===== verification/RlcUm.thy ===== *)
theory RlcUm
  imports RlcReassembly
begin

unbundle bit_operations_syntax

text \<open>
  \<open>openair2/LAYER2/nr_rlc/nr_rlc_entity_um.c\<close>: the unacknowledged mode entity. Whole SDUs travel
  without a sequence number; segments carry one and are reassembled within a window that ends at
  \<open>rx_next_highest\<close>.
\<close>

record nr_rlc_entity_um =
  um_common :: nr_rlc_entity
  um_t_reassembly :: int
  um_sn_field_length :: int
  um_sn_modulus :: int
  um_window_size :: int
  um_rx_next_highest :: int
  um_rx_next_reassembly :: int
  um_rx_timer_trigger :: int
  um_tx_next :: int
  um_t_current :: u64
  um_t_log_buffer_full :: u64
  um_sdu_rejected :: int
  um_t_reassembly_start :: u64
  um_rx_list :: "nr_rlc_pdu list"
  um_rx_size :: int
  um_rx_maxsize :: int
  um_tx_list :: "segment list"
  um_tx_end :: "segment option"
  um_tx_size :: int
  um_tx_maxsize :: int
  um_heap :: sdu_heap

definition new_nr_rlc_entity_um :: "int \<Rightarrow> int \<Rightarrow> int \<Rightarrow> int \<Rightarrow> nr_rlc_entity_um res" where
  "new_nr_rlc_entity_um rx_maxsize tx_maxsize t_reassembly sn_field_length =
     (if \<not> (sn_field_length = 6 \<or> sn_field_length = 12) then Inl AssertFailed
      else res_bind (common_new NR_RLC_UM) (\<lambda>c.
        let sn_modulus = push_bit (nat sn_field_length) 1
        in Inr \<lparr>um_common = c, um_t_reassembly = t_reassembly, um_sn_field_length = sn_field_length,
          um_sn_modulus = sn_modulus, um_window_size = sn_modulus div 2, um_rx_next_highest = 0,
          um_rx_next_reassembly = 0, um_rx_timer_trigger = 0, um_tx_next = 0, um_t_current = 0,
          um_t_log_buffer_full = 0, um_sdu_rejected = 0, um_t_reassembly_start = 0, um_rx_list = [],
          um_rx_size = 0, um_rx_maxsize = rx_maxsize, um_tx_list = [], um_tx_end = None,
          um_tx_size = 0, um_tx_maxsize = tx_maxsize, um_heap = heap_empty\<rparr>))"

definition nr_rlc_entity_um_reconfigure :: "int \<Rightarrow> int option \<Rightarrow> nr_rlc_entity_um \<Rightarrow> nr_rlc_entity_um" where
  "nr_rlc_entity_um_reconfigure t_reassembly sn_field_length e =
     (let e1 = e\<lparr>um_t_reassembly := t_reassembly\<rparr>
      in case sn_field_length of None \<Rightarrow> e1 | Some l \<Rightarrow> e1\<lparr>um_sn_field_length := l\<rparr>)"

definition um_compute_pdu_header_size :: "nr_rlc_entity_um \<Rightarrow> segment \<Rightarrow> int" where
  "um_compute_pdu_header_size e sdu =
     1 + (if \<not> (seg_is_first sdu \<and> seg_is_last sdu) \<and> um_sn_field_length e = 12 then 1 else 0) +
     (if \<not> seg_is_first sdu then 2 else 0)"

section \<open>Reception\<close>

definition um_modulus_rx :: "nr_rlc_entity_um \<Rightarrow> int \<Rightarrow> int" where
  "um_modulus_rx e a =
     (let r = a - (um_rx_next_highest e - um_window_size e)
      in (if r < 0 then r + um_sn_modulus e else r) mod um_sn_modulus e)"

definition um_sn_compare_rx :: "nr_rlc_entity_um \<Rightarrow> int \<Rightarrow> int \<Rightarrow> int" where
  "um_sn_compare_rx e a b = um_modulus_rx e a - um_modulus_rx e b"

definition um_sdu_full :: "nr_rlc_entity_um \<Rightarrow> int \<Rightarrow> bool" where
  "um_sdu_full e sn = rx_sdu_full (um_rx_list e) sn"

definition um_sdu_delivered :: "nr_rlc_entity_um \<Rightarrow> int \<Rightarrow> bool" where
  "um_sdu_delivered e sn = rx_sdu_delivered (um_rx_list e) sn"

definition um_sdu_has_missing_bytes :: "nr_rlc_entity_um \<Rightarrow> int \<Rightarrow> bool" where
  "um_sdu_has_missing_bytes e sn = rx_sdu_has_missing_bytes (um_rx_list e) sn"

text \<open>The SDU goes to the upper layer and is counted.\<close>

definition um_deliver :: "byte list \<Rightarrow> nr_rlc_entity_um \<Rightarrow> nr_rlc_entity_um" where
  "um_deliver sdu e =
     e\<lparr>um_common := stats_update (\<lambda>s. s\<lparr>txsdu_pkts := txsdu_pkts s + 1,
                                        txsdu_bytes := txsdu_bytes s + of_nat (length sdu)\<rparr>)
                      (emit (DeliverSdu sdu) (um_common e))\<rparr>"

definition um_reassemble_and_deliver :: "nr_rlc_entity_um \<Rightarrow> int \<Rightarrow> nr_rlc_entity_um res" where
  "um_reassemble_and_deliver e sn =
     (let front = takeWhile (\<lambda>p. pdu_sn p \<noteq> sn) (um_rx_list e); l = seek_sn (um_rx_list e) sn
      in if l = [] then Inl NullDeref
         else res_bind (reassemble_loop (pdu_size_update (\<lambda>_. 0)) l sn [] False) (\<lambda>(l', sdu, bad_sdu, freed).
           let e1 = e\<lparr>um_rx_list := front @ l', um_rx_size := um_rx_size e - freed\<rparr>
           in Inr (if bad_sdu then e1 else um_deliver sdu e1)))"

text \<open>
  The two loops that discard PDUs from the head of the list, with the counters: \<open>reception_actions\<close>
  discards what left the window, \<open>check_t_reassembly\<close> what was given up.
\<close>

function um_discard_out_of_window :: "nr_rlc_entity_um \<Rightarrow> nr_rlc_entity_um" where
  "um_discard_out_of_window e =
     (case um_rx_list e of
        [] \<Rightarrow> e
      | p # ps \<Rightarrow>
          if um_sn_compare_rx e (pdu_sn p) (um_rx_next_highest e) \<ge> 0
          then um_discard_out_of_window
                 (e\<lparr>um_rx_size := um_rx_size e - pdu_size p, um_rx_list := ps,
                    um_common := count_pkts_bytes rxpdu_ow_pkts_update rxpdu_ow_bytes_update (pdu_size p)
                      (count_pkts_bytes rxpdu_dd_pkts_update rxpdu_dd_bytes_update (pdu_size p) (um_common e))\<rparr>)
          else e)"
  by pat_completeness auto
termination
  by (relation "measure (\<lambda>e. length (um_rx_list e))") auto

declare um_discard_out_of_window.simps [simp del]

function um_discard_old :: "nr_rlc_entity_um \<Rightarrow> nr_rlc_entity_um" where
  "um_discard_old e =
     (case um_rx_list e of
        [] \<Rightarrow> e
      | p # ps \<Rightarrow>
          if um_sn_compare_rx e (pdu_sn p) (um_rx_next_reassembly e) < 0
          then um_discard_old
                 (e\<lparr>um_rx_list := ps,
                    um_common := count_pkts_bytes rxpdu_dd_pkts_update rxpdu_dd_bytes_update (pdu_size p) (um_common e)\<rparr>)
          else e)"
  by pat_completeness auto
termination
  by (relation "measure (\<lambda>e. length (um_rx_list e))") auto

declare um_discard_old.simps [simp del]

text \<open>\<open>reception_actions\<close>: a complete SDU is delivered, or the window may have to move.\<close>

definition um_rx_full :: "int \<Rightarrow> nr_rlc_entity_um \<Rightarrow> nr_rlc_entity_um res" where
  "um_rx_full x e =
     res_bind (um_reassemble_and_deliver e x) (\<lambda>e1.
     if x = um_rx_next_reassembly e1
     then res_bind (skip_delivered (um_rx_list e1) (um_sn_modulus e1) (um_rx_next_reassembly e1)) (\<lambda>sn.
          Inr (e1\<lparr>um_rx_next_reassembly := sn\<rparr>))
     else Inr e1)"

definition um_rx_not_full :: "int \<Rightarrow> nr_rlc_entity_um \<Rightarrow> nr_rlc_entity_um res" where
  "um_rx_not_full x e =
     (if um_sn_compare_rx e x (um_rx_next_highest e) \<ge> 0
      then
        let e1 = um_discard_out_of_window (e\<lparr>um_rx_next_highest := (x + 1) mod um_sn_modulus e\<rparr>)
        in if um_sn_compare_rx e1 (um_rx_next_reassembly e1) (um_rx_next_highest e1) \<ge> 0
           then res_bind (skip_delivered (um_rx_list e1) (um_sn_modulus e1)
                            ((um_rx_next_highest e1 - um_window_size e1 + um_sn_modulus e1) mod um_sn_modulus e1))
                  (\<lambda>sn. Inr (e1\<lparr>um_rx_next_reassembly := sn\<rparr>))
           else Inr e1
      else Inr e)"

definition um_rx_timer_stop :: "nr_rlc_entity_um \<Rightarrow> nr_rlc_entity_um" where
  "um_rx_timer_stop e =
     (if um_t_reassembly_start e \<noteq> 0 \<and>
         (um_sn_compare_rx e (um_rx_timer_trigger e) (um_rx_next_reassembly e) \<le> 0 \<or>
          um_sn_compare_rx e (um_rx_timer_trigger e) (um_rx_next_highest e) > 0 \<or>
          (um_rx_next_highest e = (um_rx_next_reassembly e + 1) mod um_sn_modulus e \<and>
           \<not> um_sdu_has_missing_bytes e (um_rx_next_reassembly e)))
      then e\<lparr>um_t_reassembly_start := 0\<rparr> else e)"

definition um_rx_timer_start :: "nr_rlc_entity_um \<Rightarrow> nr_rlc_entity_um" where
  "um_rx_timer_start e =
     (if um_t_reassembly_start e = 0 \<and>
         (um_sn_compare_rx e (um_rx_next_highest e) ((um_rx_next_reassembly e + 1) mod um_sn_modulus e) > 0 \<or>
          (um_rx_next_highest e = (um_rx_next_reassembly e + 1) mod um_sn_modulus e \<and>
           um_sdu_has_missing_bytes e (um_rx_next_reassembly e)))
      then e\<lparr>um_t_reassembly_start := um_t_current e, um_rx_timer_trigger := um_rx_next_highest e\<rparr> else e)"

definition um_reception_actions :: "nr_rlc_entity_um \<Rightarrow> nr_rlc_pdu \<Rightarrow> nr_rlc_entity_um res" where
  "um_reception_actions e pdu =
     (let x = pdu_sn pdu
      in res_bind (if um_sdu_full e x then um_rx_full x e else um_rx_not_full x e) (\<lambda>e1.
         Inr (um_rx_timer_start (um_rx_timer_stop e1))))"

definition um_discard_pdu :: "int \<Rightarrow> nr_rlc_entity_um \<Rightarrow> nr_rlc_entity_um" where
  "um_discard_pdu sz e =
     e\<lparr>um_common := count_pkts_bytes rxpdu_dd_pkts_update rxpdu_dd_bytes_update sz (um_common e)\<rparr>"

text \<open>What follows the parsing of the header of a segment.\<close>

definition um_rx_data ::
  "byte list \<Rightarrow> int \<Rightarrow> int \<Rightarrow> bool \<Rightarrow> bool \<Rightarrow> nat \<Rightarrow> nr_rlc_entity_um \<Rightarrow> nr_rlc_entity_um res" where
  "um_rx_data buffer sn so is_first is_last hdr e =
     (let sz = int (length buffer); data_size = sz - int hdr
      in if data_size \<le> 0 then Inr (um_discard_pdu sz e)
         else if um_rx_size e + data_size > um_rx_maxsize e then Inr (um_discard_pdu sz e)
         else if um_sn_compare_rx e sn (um_rx_next_reassembly e) < 0 then Inr (um_discard_pdu sz e)
         else
           let pdu = nr_rlc_new_pdu sn so is_first is_last (drop hdr buffer);
               e1 = e\<lparr>um_rx_size := um_rx_size e + data_size,
                      um_rx_list := nr_rlc_pdu_list_add (um_sn_compare_rx e) (um_rx_list e) pdu\<rparr>
           in um_reception_actions e1 pdu)"

definition nr_rlc_entity_um_recv_pdu :: "byte list \<Rightarrow> nr_rlc_entity_um \<Rightarrow> nr_rlc_entity_um res" where
  "nr_rlc_entity_um_recv_pdu buffer e0 =
     (let sz = int (length buffer);
          e = e0\<lparr>um_common := count_pkts_bytes rxpdu_pkts_update rxpdu_bytes_update sz (um_common e0)\<rparr>;
          err = Inr (um_discard_pdu sz e)
      in R_bits err (nr_rlc_pdu_decoder_init buffer) 2 (\<lambda>si d1.
         let is_first = (si AND 2 = 0); is_last = (si AND 1 = 0);
             read_sn = (\<lambda>d2. R_bits err d2 (um_sn_field_length e) (\<lambda>sn d3.
               if \<not> is_first
               then R_bits err d3 16 (\<lambda>so d4.
                      if so = 0 then err else um_rx_data buffer sn so is_first is_last (dec_byte d4) e)
               else um_rx_data buffer sn 0 is_first is_last (dec_byte d3) e))
         in if is_first \<and> is_last
            then if sz < 2 then err else Inr (um_deliver (drop 1 buffer) e)
            else if um_sn_field_length e = 12 then R_bits err d1 2 (\<lambda>r d2. read_sn d2)
            else read_sn d1))"

section \<open>Transmission\<close>

definition um_serialize_sdu ::
  "segment \<Rightarrow> byte list \<Rightarrow> nr_rlc_entity_um \<Rightarrow> (int \<times> byte list) res" where
  "um_serialize_sdu s buffer e =
     res_bind (nr_rlc_pdu_encoder_put_bits (nr_rlc_pdu_encoder_init buffer) (1 - of_bool (seg_is_first s)) 1) (\<lambda>n0.
     res_bind (nr_rlc_pdu_encoder_put_bits n0 (1 - of_bool (seg_is_last s)) 1) (\<lambda>n1.
     res_bind (if seg_is_first s \<and> seg_is_last s then nr_rlc_pdu_encoder_put_bits n1 0 6
               else res_bind (if um_sn_field_length e = 12 then nr_rlc_pdu_encoder_put_bits n1 0 2 else Inr n1) (\<lambda>n2.
                    nr_rlc_pdu_encoder_put_bits n2 (seg_sn (um_heap e) s) (um_sn_field_length e))) (\<lambda>n3.
     res_bind (if \<not> seg_is_first s then nr_rlc_pdu_encoder_put_bits n3 (seg_so s) 16 else Inr n3) (\<lambda>n4.
     res_bind (slice (sdu_data (sdu_of (um_heap e) s)) (seg_so s) (seg_size s)) (\<lambda>data.
     res_bind (splice (enc_buffer n4) (enc_byte n4) data) (\<lambda>buf.
     Inr (int (enc_byte n4) + seg_size s, buf)))))))"

text \<open>\<open>resegment\<close>; without room for a byte of data it returns null, but has counted a reference.\<close>

definition um_resegment ::
  "segment \<Rightarrow> int \<Rightarrow> nr_rlc_entity_um \<Rightarrow> (segment \<times> segment) option \<times> nr_rlc_entity_um" where
  "um_resegment s pdu_sz e =
     (let e1 = e\<lparr>um_heap := heap_upd (seg_sdu s) (sdu_ref_count_update (\<lambda>n. n + 1)) (um_heap e)\<rparr>;
          pdu_header_size = um_compute_pdu_header_size e1 (s\<lparr>seg_is_last := False\<rparr>)
      in if pdu_header_size + 1 > pdu_sz then (None, e1)
         else
           let over_size = pdu_header_size + seg_size s - pdu_sz;
               s1 = s\<lparr>seg_size := seg_size s - over_size, seg_is_last := False\<rparr>;
               s2 = s\<lparr>seg_size := over_size, seg_so := seg_so s1 + seg_size s1, seg_is_first := False\<rparr>
           in (Some (s1, s2),
               e1\<lparr>um_common := stats_update (txpdu_segmented_update (\<lambda>n. n + 1)) (um_common e1)\<rparr>))"

definition um_seg_pdu_size :: "nr_rlc_entity_um \<Rightarrow> segment \<Rightarrow> int" where
  "um_seg_pdu_size e s = um_compute_pdu_header_size e s + seg_size s"

definition um_tx_size_add :: "int \<Rightarrow> nr_rlc_entity_um \<Rightarrow> nr_rlc_entity_um" where
  "um_tx_size_add n e = e\<lparr>um_common := bstatus_update (tx_size_update (\<lambda>m. m + n)) (um_common e)\<rparr>"

text \<open>\<open>segment if necessary\<close>: the segment to send, \<open>None\<close> where the function gives up.\<close>

definition um_tx_segment ::
  "segment \<Rightarrow> int \<Rightarrow> nr_rlc_entity_um \<Rightarrow> segment option \<times> nr_rlc_entity_um" where
  "um_tx_segment s room e =
     (if um_seg_pdu_size e s > room
      then case um_resegment s room e of
             (None, e1) \<Rightarrow> (None, e1)
           | (Some (s1, next_sdu), e1) \<Rightarrow>
               let e2 = e1\<lparr>um_tx_list := next_sdu # um_tx_list e1,
                           um_tx_end := (if um_tx_end e1 = None then Some next_sdu else um_tx_end e1),
                           um_common := stats_update (txpdu_segmented_update (\<lambda>n. n + 1)) (um_common e1)\<rparr>
               in (Some s1, um_tx_size_add (um_seg_pdu_size e2 next_sdu) e2)
      else (Some s, e))"

text \<open>What follows: \<open>tx_next\<close>, the bytes, the counters, and the segment is released.\<close>

definition um_tx_send ::
  "u64 \<Rightarrow> segment \<Rightarrow> byte list \<Rightarrow> nr_rlc_entity_um \<Rightarrow> (int \<times> byte list \<times> nr_rlc_entity_um) res" where
  "um_tx_send time_now s buffer e =
     (let e1 = (if \<not> seg_is_first s \<and> seg_is_last s
                then e\<lparr>um_tx_next := (um_tx_next e + 1) mod um_sn_modulus e\<rparr> else e)
      in res_bind (um_serialize_sdu s buffer e1) (\<lambda>(ret, buffer').
         Inr (ret, buffer',
           e1\<lparr>um_tx_size := um_tx_size e1 - seg_size s,
              um_common := count_waiting_time time_now (sdu_of (um_heap e1) s)
                (count_pkts_bytes txpdu_pkts_update txpdu_bytes_update (int (length buffer)) (um_common e1)),
              um_heap := snd (nr_rlc_free_sdu_segment s (um_heap e1))\<rparr>)))"

definition um_generate_tx_pdu ::
  "u64 \<Rightarrow> byte list \<Rightarrow> nr_rlc_entity_um \<Rightarrow> (int \<times> byte list \<times> nr_rlc_entity_um) res" where
  "um_generate_tx_pdu time_now buffer e =
     (case um_tx_list e of
        [] \<Rightarrow> Inr (0, buffer, e)
      | sdu # rest \<Rightarrow>
          let room = int (length buffer)
          in if um_compute_pdu_header_size e sdu + 1 > room then Inr (0, buffer, e)
             else
               let e1 = e\<lparr>um_tx_list := rest, um_tx_end := (if rest = [] then None else um_tx_end e),
                          um_heap := heap_upd (seg_sdu sdu) (sdu_sn_update (\<lambda>_. um_tx_next e)) (um_heap e)\<rparr>;
                   e2 = um_tx_size_add (- um_seg_pdu_size e1 sdu) e1
               in case um_tx_segment sdu room e2 of
                    (None, e3) \<Rightarrow> Inr (0, buffer, e3)
                  | (Some s, e3) \<Rightarrow> um_tx_send time_now s buffer e3)"

definition nr_rlc_entity_um_buffer_status :: "nr_rlc_entity_um \<Rightarrow> nr_rlc_entity_buffer_status" where
  "nr_rlc_entity_um_buffer_status e =
     \<lparr>status_size = 0, tx_size = tx_size (bstatus (um_common e)), retx_size = 0\<rparr>"

definition nr_rlc_entity_um_generate_pdu ::
  "u64 \<Rightarrow> byte list \<Rightarrow> nr_rlc_entity_um \<Rightarrow> (int \<times> byte list \<times> nr_rlc_entity_um) res" where
  "nr_rlc_entity_um_generate_pdu time_now buffer e = um_generate_tx_pdu time_now buffer e"

definition nr_rlc_entity_um_recv_sdu ::
  "u64 \<Rightarrow> byte list \<Rightarrow> int \<Rightarrow> nr_rlc_entity_um \<Rightarrow> nr_rlc_entity_um res" where
  "nr_rlc_entity_um_recv_sdu time_now buffer sdu_id e =
     (let sz = int (length buffer);
          e1 = e\<lparr>um_common := stats_update (\<lambda>s. s\<lparr>rxsdu_pkts := rxsdu_pkts s + 1,
                    rxsdu_bytes := rxsdu_bytes s + word_of_int sz\<rparr>) (um_common e)\<rparr>
      in if sz > NR_SDU_MAX then Inl ExitFatal
         else
           let e2 = (if um_sdu_rejected e1 \<noteq> 0 \<and> um_t_current e1 > um_t_log_buffer_full e1 + 1000
                     then e1\<lparr>um_sdu_rejected := 0, um_t_log_buffer_full := um_t_current e1\<rparr>
                     else e1)
           in if um_tx_size e2 + sz > um_tx_maxsize e2
              then Inr (e2\<lparr>um_sdu_rejected := um_sdu_rejected e2 + 1,
                     um_common := count_pkts_bytes rxsdu_dd_pkts_update rxsdu_dd_bytes_update sz
                       (um_common e2)\<rparr>)
              else
                let (sdu, h) = nr_rlc_new_sdu buffer sdu_id (um_heap e2);
                    h' = (if avg_time_is_on (um_common e2)
                          then heap_upd (seg_sdu sdu) (sdu_time_of_arrival_update (\<lambda>_. time_now)) h
                          else h)
                in res_bind (nr_rlc_sdu_segment_list_append (um_tx_list e2) (um_tx_end e2) sdu)
                     (\<lambda>(l, en). Inr (um_tx_size_add (um_seg_pdu_size e2 sdu)
                        (e2\<lparr>um_tx_size := um_tx_size e2 + sz, um_heap := h', um_tx_list := l, um_tx_end := en\<rparr>))))"

section \<open>Timer, discard, re-establishment\<close>

definition um_check_t_reassembly :: "nr_rlc_entity_um \<Rightarrow> nr_rlc_entity_um res" where
  "um_check_t_reassembly e =
     (if um_t_reassembly_start e = 0 \<or>
         um_t_current e \<le> um_t_reassembly_start e + word_of_int (um_t_reassembly e)
      then Inr e
      else
        res_bind (skip_delivered (um_rx_list e) (um_sn_modulus e) (um_rx_timer_trigger e)) (\<lambda>sn.
        let e1 = um_discard_old (e\<lparr>um_t_reassembly_start := 0, um_rx_next_reassembly := sn\<rparr>)
        in Inr (if um_sn_compare_rx e1 (um_rx_next_highest e1)
                     ((um_rx_next_reassembly e1 + 1) mod um_sn_modulus e1) > 0 \<or>
                   (um_rx_next_highest e1 = um_rx_next_reassembly e1 + 1 \<and>
                    um_sdu_has_missing_bytes e1 (um_rx_next_reassembly e1))
                then e1\<lparr>um_t_reassembly_start := um_t_current e1,
                        um_rx_timer_trigger := um_rx_next_highest e1\<rparr>
                else e1)))"

definition nr_rlc_entity_um_set_time :: "u64 \<Rightarrow> nr_rlc_entity_um \<Rightarrow> nr_rlc_entity_um res" where
  "nr_rlc_entity_um_set_time now e = um_check_t_reassembly (e\<lparr>um_t_current := now\<rparr>)"

definition nr_rlc_entity_um_discard_sdu :: "int \<Rightarrow> nr_rlc_entity_um \<Rightarrow> nr_rlc_entity_um" where
  "nr_rlc_entity_um_discard_sdu sdu_id e =
     (let other = (\<lambda>s. sdu_upper_layer_id (sdu_of (um_heap e) s) \<noteq> sdu_id);
          front = takeWhile other (um_tx_list e)
      in case dropWhile other (um_tx_list e) of
           [] \<Rightarrow> e
         | cur # after \<Rightarrow>
             if \<not> seg_is_first cur \<or> \<not> seg_is_last cur then e
             else
               let e1 = e\<lparr>um_tx_list := front @ after,
                          um_tx_end := (if um_tx_end e = Some cur then end_of front else um_tx_end e)\<rparr>;
                   e2 = um_tx_size_add (- um_seg_pdu_size e1 cur) e1
               in e2\<lparr>um_heap := snd (nr_rlc_free_sdu_segment cur (um_heap e2))\<rparr>)"

definition um_clear_entity :: "nr_rlc_entity_um \<Rightarrow> nr_rlc_entity_um" where
  "um_clear_entity e =
     e\<lparr>um_rx_next_highest := 0, um_rx_next_reassembly := 0, um_rx_timer_trigger := 0, um_tx_next := 0,
       um_t_current := 0, um_t_log_buffer_full := 0, um_sdu_rejected := 0, um_t_reassembly_start := 0,
       um_rx_list := [], um_rx_size := 0,
       um_heap := nr_rlc_free_sdu_segment_list (um_tx_list e) (um_heap e),
       um_tx_list := [], um_tx_end := None, um_tx_size := 0,
       um_common := bstatus_update (tx_size_update (\<lambda>_. 0)) (um_common e)\<rparr>"

definition nr_rlc_entity_um_reestablishment :: "nr_rlc_entity_um \<Rightarrow> nr_rlc_entity_um" where
  "nr_rlc_entity_um_reestablishment e = um_clear_entity e"

text \<open>\<open>delete\<close> clears the entity and frees it; what is left is the heap of SDUs.\<close>

definition nr_rlc_entity_um_delete :: "nr_rlc_entity_um \<Rightarrow> sdu_heap" where
  "nr_rlc_entity_um_delete e = um_heap (um_clear_entity e)"

definition nr_rlc_entity_um_available_tx_space :: "nr_rlc_entity_um \<Rightarrow> int" where
  "nr_rlc_entity_um_available_tx_space e = um_tx_maxsize e - um_tx_size e"

fun um_step :: "u64 \<Rightarrow> rlc_op \<Rightarrow> nr_rlc_entity_um \<Rightarrow> nr_rlc_entity_um res" where
  "um_step t (RecvSdu b i) e = nr_rlc_entity_um_recv_sdu t b i e"
| "um_step t (RecvPdu b) e = nr_rlc_entity_um_recv_pdu b e"
| "um_step t (GeneratePdu b) e =
     res_bind (nr_rlc_entity_um_generate_pdu t b e) (\<lambda>(n, b', e'). Inr e')"
| "um_step t (SetTime now) e = nr_rlc_entity_um_set_time now e"
| "um_step t (DiscardSdu i) e = Inr (nr_rlc_entity_um_discard_sdu i e)"
| "um_step t Reestablishment e = Inr (nr_rlc_entity_um_reestablishment e)"

end
