(* ===== verification/RlcUmRx.thy ===== *)
theory RlcUmRx
  imports RlcUm
begin

unbundle bit_operations_syntax

text \<open>
  Correctness of the receiving half of the UM entity: the reception list stays sorted within the
  window that ends at \<open>rx_next_highest\<close>, its bytes are accounted for, and complete SDUs are delivered
  as they were sent.
\<close>

section \<open>Configuration and window\<close>

definition um_cfg :: "nr_rlc_entity_um \<Rightarrow> bool" where
  "um_cfg e \<longleftrightarrow> (um_sn_field_length e = 6 \<or> um_sn_field_length e = 12) \<and>
     um_sn_modulus e = 2 ^ nat (um_sn_field_length e) \<and> um_window_size e = um_sn_modulus e div 2"

lemma um_cfgD:
  assumes "um_cfg e"
  shows "0 < um_window_size e" "um_sn_modulus e = 2 * um_window_size e" "0 < um_sn_modulus e"
    "um_sn_field_length e = 6 \<or> um_sn_field_length e = 12" "um_sn_modulus e = 2 ^ nat (um_sn_field_length e)"
  using assms by (auto simp: um_cfg_def)

abbreviation um_valid_sn :: "nr_rlc_entity_um \<Rightarrow> int \<Rightarrow> bool" where
  "um_valid_sn e a \<equiv> 0 \<le> a \<and> a < um_sn_modulus e"

text \<open>The key of the order, with the base as a parameter.\<close>

definition um_key :: "int \<Rightarrow> int \<Rightarrow> int \<Rightarrow> int \<Rightarrow> int" where
  "um_key M w h a = (a - h + w) mod M"

lemma um_modulus_rx_key: "um_modulus_rx e = um_key (um_sn_modulus e) (um_window_size e) (um_rx_next_highest e)"
proof
  fix a
  let ?r = "a - (um_rx_next_highest e - um_window_size e)"
  have "(?r + um_sn_modulus e) mod um_sn_modulus e = ?r mod um_sn_modulus e" by simp
  then have "um_modulus_rx e a = ?r mod um_sn_modulus e" by (simp add: um_modulus_rx_def Let_def)
  also have "?r = a - um_rx_next_highest e + um_window_size e" by simp
  finally show "um_modulus_rx e a = um_key (um_sn_modulus e) (um_window_size e) (um_rx_next_highest e) a"
    unfolding um_key_def .
qed

lemma um_key_inj:
  assumes "um_key M w h a = um_key M w h b" and "0 \<le> a" "a < M" "0 \<le> b" "b < M"
  shows "a = b"
proof -
  have "((a - h + w) - (b - h + w)) mod M = 0"
    using assms(1) unfolding um_key_def by (metis cancel_comm_monoid_add_class.diff_cancel mod_0 mod_diff_cong)
  then have "M dvd a - b" by (simp add: mod_eq_0_iff_dvd)
  with assms(2-) show ?thesis by (metis mod_eq_dvd_iff mod_pos_pos_trivial)
qed

interpretation um_rx: sn_order "um_sn_compare_rx e" "um_modulus_rx e" "um_valid_sn e" for e
  by unfold_locales (auto simp: um_sn_compare_rx_def um_modulus_rx_key dest: um_key_inj)

lemma um_key_bounds: "0 < M \<Longrightarrow> 0 \<le> um_key M w h a \<and> um_key M w h a < M"
  by (simp add: um_key_def)

lemma um_key_self: "0 < w \<Longrightarrow> um_key (2 * w) w h h = w"
  by (simp add: um_key_def)

text \<open>The window moves: the numbers below \<open>d\<close> wrap to its far end.\<close>

lemma um_key_shift:
  assumes "0 < w" and "w \<le> um_key (2 * w) w h x"
  defines "d \<equiv> um_key (2 * w) w h x + 1 - w"
  shows "um_key (2 * w) w ((x + 1) mod (2 * w)) a =
    (if um_key (2 * w) w h a < d then um_key (2 * w) w h a - d + 2 * w else um_key (2 * w) w h a - d)"
proof -
  let ?M = "2 * w"
  have d: "1 \<le> d" "d \<le> w" using assms um_key_bounds [of ?M w h x] by (simp_all add: d_def)
  have "um_key ?M w ((x + 1) mod ?M) a = (a - (x + 1) + w) mod ?M"
    unfolding um_key_def by (rule mod_add_cong [OF mod_diff_cong [OF refl mod_mod_trivial] refl])
  also have "a - (x + 1) + w = (a - h + w) - ((x - h + w) + 1 - w)" by simp
  also have "\<dots> mod ?M = (um_key ?M w h a - d) mod ?M"
    unfolding d_def um_key_def
    by (intro mod_diff_cong mod_add_cong mod_mod_trivial [symmetric] refl)
  also have "\<dots> = (if um_key ?M w h a < d then um_key ?M w h a - d + ?M else um_key ?M w h a - d)"
  proof (cases "um_key ?M w h a < d")
    case True
    have "(um_key ?M w h a - d) mod ?M = (um_key ?M w h a - d + ?M) mod ?M" by simp
    also have "\<dots> = um_key ?M w h a - d + ?M"
      using True d um_key_bounds [of ?M w h a] assms(1) by (intro mod_pos_pos_trivial) auto
    finally show ?thesis using True by simp
  next
    case False
    then show ?thesis using d um_key_bounds [of ?M w h a] assms(1) by (simp add: mod_pos_pos_trivial)
  qed
  finally show ?thesis .
qed

section \<open>Parts of a sorted list\<close>

lemma dropWhile_sorted:
  assumes "sorted_wrt R l" and "\<And>p q. p \<in> set l \<Longrightarrow> q \<in> set l \<Longrightarrow> R p q \<Longrightarrow> P q \<Longrightarrow> P p"
  shows "dropWhile P l = filter (\<lambda>p. \<not> P p) l"
  using assms
proof (induction l)
  case (Cons a l)
  show ?case
  proof (cases "P a")
    case True
    with Cons show ?thesis by auto
  next
    case False
    then have "\<forall>q \<in> set l. \<not> P q" using Cons.prems by auto
    with False show ?thesis by (simp add: filter_id_conv)
  qed
qed simp

lemma rx_inv_filter:
  assumes "rx_inv key M l"
  shows "rx_inv key M (filter (\<lambda>p. Q (pdu_sn p)) l)"
proof -
  have "block (filter (\<lambda>p. Q (pdu_sn p)) l) s = (if Q s then block l s else [])" for s
    by (auto simp: block_def filter_empty_conv intro: filter_cong)
  then have "rx_delivered_first (filter (\<lambda>p. Q (pdu_sn p)) l)"
    using assms by (auto simp: rx_inv_def rx_delivered_first_def)
  with assms show ?thesis by (simp add: rx_inv_def sorted_wrt_filter)
qed

section \<open>The invariant\<close>

text \<open>
  Every PDU held is below \<open>rx_next_highest\<close>, except for the numbers of \<open>X\<close> (the PDU just put in the
  list, until \<open>rx_next_highest\<close> has moved). A PDU that starts an SDU does not end it: such SDUs are
  sent without a sequence number.
\<close>

definition um_rx_pdu_ok :: "nr_rlc_pdu \<Rightarrow> bool" where
  "um_rx_pdu_ok p \<longleftrightarrow> (pdu_is_last p \<longrightarrow> 0 < pdu_so p) \<and> (pdu_data p = None \<longrightarrow> pdu_size p = 0)"

definition um_rx_inv_but :: "int set \<Rightarrow> nr_rlc_entity_um \<Rightarrow> bool" where
  "um_rx_inv_but X e \<longleftrightarrow> um_cfg e \<and> um_valid_sn e (um_rx_next_highest e) \<and>
     um_valid_sn e (um_rx_next_reassembly e) \<and> um_valid_sn e (um_rx_timer_trigger e) \<and>
     rx_inv (um_modulus_rx e) (um_sn_modulus e) (um_rx_list e) \<and>
     (\<forall>p \<in> set (um_rx_list e). pdu_sn p \<in> X \<or> um_modulus_rx e (pdu_sn p) < um_window_size e) \<and>
     (\<forall>p \<in> set (um_rx_list e). um_rx_pdu_ok p) \<and> rx_ends_ok (um_rx_list e) \<and>
     rx_bytes (um_rx_list e) \<le> um_rx_size e \<and> um_rx_size e \<le> um_rx_maxsize e"

abbreviation um_rx_inv :: "nr_rlc_entity_um \<Rightarrow> bool" where
  "um_rx_inv \<equiv> um_rx_inv_but {}"

text \<open>What the receiving half leaves alone.\<close>

definition um_same_tx :: "nr_rlc_entity_um \<Rightarrow> nr_rlc_entity_um \<Rightarrow> bool" where
  "um_same_tx e e' \<longleftrightarrow> um_tx_next e' = um_tx_next e \<and> um_tx_list e' = um_tx_list e \<and> um_tx_end e' = um_tx_end e \<and>
     um_tx_size e' = um_tx_size e \<and> um_tx_maxsize e' = um_tx_maxsize e \<and> um_heap e' = um_heap e \<and>
     bstatus (um_common e') = bstatus (um_common e) \<and> um_sn_field_length e' = um_sn_field_length e \<and>
     um_sn_modulus e' = um_sn_modulus e \<and> um_window_size e' = um_window_size e"

lemma um_same_tx_refl [simp]: "um_same_tx e e"
  by (simp add: um_same_tx_def)

lemma um_same_tx_trans: "um_same_tx e e' \<Longrightarrow> um_same_tx e' e'' \<Longrightarrow> um_same_tx e e''"
  by (simp add: um_same_tx_def)

lemma um_frame [simp]:
  "um_modulus_rx (e\<lparr>um_rx_list := l\<rparr>) = um_modulus_rx e" "um_cfg (e\<lparr>um_rx_list := l\<rparr>) = um_cfg e"
  "um_modulus_rx (e\<lparr>um_rx_size := n\<rparr>) = um_modulus_rx e" "um_cfg (e\<lparr>um_rx_size := n\<rparr>) = um_cfg e"
  "um_modulus_rx (e\<lparr>um_common := c\<rparr>) = um_modulus_rx e" "um_cfg (e\<lparr>um_common := c\<rparr>) = um_cfg e"
  "um_modulus_rx (e\<lparr>um_rx_next_reassembly := r\<rparr>) = um_modulus_rx e" "um_cfg (e\<lparr>um_rx_next_reassembly := r\<rparr>) = um_cfg e"
  "um_modulus_rx (e\<lparr>um_t_reassembly_start := t\<rparr>) = um_modulus_rx e" "um_cfg (e\<lparr>um_t_reassembly_start := t\<rparr>) = um_cfg e"
  "um_modulus_rx (e\<lparr>um_rx_timer_trigger := r\<rparr>) = um_modulus_rx e" "um_cfg (e\<lparr>um_rx_timer_trigger := r\<rparr>) = um_cfg e"
  "um_modulus_rx (e\<lparr>um_t_current := t\<rparr>) = um_modulus_rx e" "um_cfg (e\<lparr>um_t_current := t\<rparr>) = um_cfg e"
  "um_cfg (e\<lparr>um_rx_next_highest := r\<rparr>) = um_cfg e"
  by (simp_all add: um_modulus_rx_def um_cfg_def fun_eq_iff Let_def)

lemma um_compare_rx_eq: "um_sn_compare_rx e a b = um_modulus_rx e a - um_modulus_rx e b"
  by (simp add: um_sn_compare_rx_def)

lemma um_key_highest: "um_cfg e \<Longrightarrow> um_modulus_rx e (um_rx_next_highest e) = um_window_size e"
  using um_cfgD(1,2) [of e] by (simp add: um_modulus_rx_key um_key_self)

lemma um_rx_inv_common [simp]: "um_rx_inv_but X (e\<lparr>um_common := c\<rparr>) = um_rx_inv_but X e"
  by (simp add: um_rx_inv_but_def)

text \<open>\<open>rx_next_highest\<close> is a number that is not in the list.\<close>

lemma um_skip_delivered:
  assumes "um_rx_inv e" and "um_valid_sn e a"
  shows "\<exists>sn. skip_delivered (um_rx_list e) (um_sn_modulus e) a = Inr sn \<and> um_valid_sn e sn \<and>
    \<not> um_sdu_delivered e sn"
proof -
  have c: "um_cfg e" "um_valid_sn e (um_rx_next_highest e)" using assms by (simp_all add: um_rx_inv_but_def)
  have "\<forall>p \<in> set (um_rx_list e). pdu_sn p \<noteq> um_rx_next_highest e"
    using assms(1) um_key_highest [OF c(1)] by (auto simp: um_rx_inv_but_def)
  from skip_delivered_ok [OF this, of a "um_sn_modulus e"] assms(2) c um_cfgD(3)
  show ?thesis by (auto simp: um_sdu_delivered_def)
qed

section \<open>Delivery\<close>

lemma um_reassemble_inv:
  assumes inv: "um_rx_inv e" and full: "um_sdu_full e x"
  shows "\<exists>e'. um_reassemble_and_deliver e x = Inr e' \<and> um_rx_inv e' \<and> um_same_tx e e' \<and>
    um_rx_list e' = mark_delivered (pdu_size_update (\<lambda>_. 0)) x (um_rx_list e) \<and>
    um_rx_next_reassembly e' = um_rx_next_reassembly e \<and> um_rx_next_highest e' = um_rx_next_highest e \<and>
    um_rx_size e' - rx_bytes (um_rx_list e') = um_rx_size e - rx_bytes (um_rx_list e) \<and>
    um_rx_maxsize e' = um_rx_maxsize e \<and>
    events (um_common e') = events (um_common e) @
      (if covered_to (block (um_rx_list e) x) 0 > NR_SDU_MAX then []
       else [DeliverSdu (assemble (block (um_rx_list e) x) [])])"
proof -
  let ?l = "um_rx_list e" and ?c = "pdu_size_update (\<lambda>_. 0)"
  let ?md = "mark_delivered ?c x ?l"
  have rx: "rx_inv (um_modulus_rx e) (um_sn_modulus e) ?l" and ends: "rx_ends_ok ?l"
    using inv by (simp_all add: um_rx_inv_but_def)
  have v: "rx_pdu_ok (um_sn_modulus e) p \<Longrightarrow> um_valid_sn e (pdu_sn p)" for p by (simp add: rx_pdu_ok_def)
  have f: "rx_sdu_full ?l x" using full by (simp add: um_sdu_full_def)
  note B = um_rx.rx_full_block [OF rx v f]
  have lst: "last_is_last (block ?l x)" using rx_ends_ok_last_is_last [OF ends] B by blast
  from um_rx.rx_reassemble [OF rx v f lst clear_ok_simps(2)] obtain l' sdu bad where
    ne: "seek_sn ?l x \<noteq> []" and
    r: "reassemble_loop ?c (seek_sn ?l x) x [] False = Inr (l', sdu, bad, sum_list (map pdu_size (block ?l x)))"
      "takeWhile (\<lambda>p. pdu_sn p \<noteq> x) ?l @ l' = ?md"
      "bad \<longleftrightarrow> covered_to (block ?l x) 0 > NR_SDU_MAX" "\<not> bad \<longrightarrow> sdu = assemble (block ?l x) []" by blast
  define e1 where "e1 = e\<lparr>um_rx_list := ?md, um_rx_size := um_rx_size e - sum_list (map pdu_size (block ?l x))\<rparr>"
  have all: "\<forall>p \<in> set (block ?l x). pdu_data p \<noteq> None"
    using B by (force simp: seg_data_ok_def split: option.splits)
  have "rx_inv (um_modulus_rx e) (um_sn_modulus e) ?md"
    using mark_delivered_inv [OF rx clear_ok_simps(2)] B by blast
  moreover have "\<forall>p \<in> set ?md. um_modulus_rx e (pdu_sn p) < um_window_size e \<and> um_rx_pdu_ok p"
    using inv by (auto simp: mark_delivered_def um_rx_inv_but_def um_rx_pdu_ok_def)
  moreover have "0 \<le> sum_list (map pdu_size (block ?l x))"
    using B by (intro sum_list_nonneg) (force simp: seg_data_ok_def)
  ultimately have i1: "um_rx_inv e1"
    using inv mark_delivered_bytes [OF clear_ok_simps(2) all] rx_ends_ok_mark [OF ends clear_ok_simps(2), of x]
    by (simp add: um_rx_inv_but_def e1_def)
  have "um_reassemble_and_deliver e x = Inr (if bad then e1 else um_deliver sdu e1)"
    using ne r(1,2) by (simp add: um_reassemble_and_deliver_def Let_def e1_def)
  with i1 r(3,4) mark_delivered_bytes [OF clear_ok_simps(2) all] show ?thesis
    by (cases bad) (auto simp: e1_def um_deliver_def um_same_tx_def)
qed

lemma um_rx_full_inv:
  assumes inv: "um_rx_inv e" and full: "um_sdu_full e x"
  shows "\<exists>e'. um_rx_full x e = Inr e' \<and> um_rx_inv e' \<and> um_same_tx e e'"
proof -
  obtain e1 where e1: "um_reassemble_and_deliver e x = Inr e1" "um_rx_inv e1" "um_same_tx e e1"
    using um_reassemble_inv [OF assms] by blast
  obtain sn where sn: "skip_delivered (um_rx_list e1) (um_sn_modulus e1) (um_rx_next_reassembly e1) = Inr sn"
    "um_valid_sn e1 sn" using um_skip_delivered [OF e1(2), of "um_rx_next_reassembly e1"] e1(2) by (auto simp: um_rx_inv_but_def)
  have "um_rx_inv (e1\<lparr>um_rx_next_reassembly := sn\<rparr>)" using e1(2) sn(2) by (simp add: um_rx_inv_but_def)
  with e1 sn show ?thesis by (auto simp: um_rx_full_def um_same_tx_def)
qed

section \<open>The loops that discard\<close>

text \<open>Both loops drop a part of the list and count; only the first gives the bytes back.\<close>

lemma um_discard_out_of_window_eq:
  "\<exists>c. um_discard_out_of_window e =
     e\<lparr>um_rx_list := dropWhile (\<lambda>p. um_sn_compare_rx e (pdu_sn p) (um_rx_next_highest e) \<ge> 0) (um_rx_list e),
       um_rx_size := um_rx_size e - sum_list (map pdu_size
         (takeWhile (\<lambda>p. um_sn_compare_rx e (pdu_sn p) (um_rx_next_highest e) \<ge> 0) (um_rx_list e))),
       um_common := c\<rparr> \<and> bstatus c = bstatus (um_common e) \<and> events c = events (um_common e)"
proof (induction e rule: um_discard_out_of_window.induct)
  case (1 e)
  show ?case
  proof (cases "\<exists>p ps. um_rx_list e = p # ps \<and> um_sn_compare_rx e (pdu_sn p) (um_rx_next_highest e) \<ge> 0")
    case False
    then have "um_discard_out_of_window e = e" by (subst um_discard_out_of_window.simps) (auto split: list.split)
    moreover have "takeWhile (\<lambda>p. um_sn_compare_rx e (pdu_sn p) (um_rx_next_highest e) \<ge> 0) (um_rx_list e) = []"
      "dropWhile (\<lambda>p. um_sn_compare_rx e (pdu_sn p) (um_rx_next_highest e) \<ge> 0) (um_rx_list e) = um_rx_list e"
      using False by (cases "um_rx_list e"; auto)+
    ultimately show ?thesis by (intro exI [of _ "um_common e"]) simp
  next
    case True
    then obtain p ps where l: "um_rx_list e = p # ps" "um_sn_compare_rx e (pdu_sn p) (um_rx_next_highest e) \<ge> 0"
      by blast
    let ?c = "count_pkts_bytes rxpdu_ow_pkts_update rxpdu_ow_bytes_update (pdu_size p)
      (count_pkts_bytes rxpdu_dd_pkts_update rxpdu_dd_bytes_update (pdu_size p) (um_common e))"
    let ?e1 = "e\<lparr>um_rx_size := um_rx_size e - pdu_size p, um_rx_list := ps, um_common := ?c\<rparr>"
    have step: "um_discard_out_of_window e = um_discard_out_of_window ?e1"
      using l by (subst um_discard_out_of_window.simps) simp
    from 1 [OF l] show ?thesis
      unfolding step using l by (auto simp: um_sn_compare_rx_def diff_diff_eq intro!: exI)
  qed
qed

lemma um_discard_old_eq:
  "\<exists>c. um_discard_old e =
     e\<lparr>um_rx_list := dropWhile (\<lambda>p. um_sn_compare_rx e (pdu_sn p) (um_rx_next_reassembly e) < 0) (um_rx_list e),
       um_common := c\<rparr> \<and> bstatus c = bstatus (um_common e) \<and> events c = events (um_common e)"
proof (induction e rule: um_discard_old.induct)
  case (1 e)
  show ?case
  proof (cases "\<exists>p ps. um_rx_list e = p # ps \<and> um_sn_compare_rx e (pdu_sn p) (um_rx_next_reassembly e) < 0")
    case False
    then have "um_discard_old e = e" by (subst um_discard_old.simps) (auto split: list.split)
    moreover have "dropWhile (\<lambda>p. um_sn_compare_rx e (pdu_sn p) (um_rx_next_reassembly e) < 0) (um_rx_list e) = um_rx_list e"
      using False by (cases "um_rx_list e") auto
    ultimately show ?thesis by (intro exI [of _ "um_common e"]) simp
  next
    case True
    then obtain p ps where l: "um_rx_list e = p # ps" "um_sn_compare_rx e (pdu_sn p) (um_rx_next_reassembly e) < 0"
      by blast
    let ?c = "count_pkts_bytes rxpdu_dd_pkts_update rxpdu_dd_bytes_update (pdu_size p) (um_common e)"
    let ?e1 = "e\<lparr>um_rx_list := ps, um_common := ?c\<rparr>"
    have step: "um_discard_old e = um_discard_old ?e1" using l by (subst um_discard_old.simps) simp
    from 1 [OF l] show ?thesis unfolding step using l by (auto simp: um_sn_compare_rx_def)
  qed
qed

lemma um_rx_bytes_sizes:
  "\<forall>p \<in> set l. um_rx_pdu_ok p \<Longrightarrow> rx_bytes l = sum_list (map pdu_size l)"
  by (induction l) (auto simp: rx_bytes_def um_rx_pdu_ok_def)

lemma rx_bytes_dropWhile:
  assumes "\<forall>p \<in> set l. rx_pdu_ok M p"
  shows "rx_bytes (dropWhile P l) = rx_bytes l - rx_bytes (takeWhile P l)" "0 \<le> rx_bytes (takeWhile P l)"
proof -
  show "rx_bytes (dropWhile P l) = rx_bytes l - rx_bytes (takeWhile P l)"
    using rx_bytes_append [of "takeWhile P l" "dropWhile P l"] by simp
  show "0 \<le> rx_bytes (takeWhile P l)"
    using assms by (intro rx_bytes_nonneg [of _ M]) (auto dest: set_takeWhileD)
qed

text \<open>The window moves to end after \<open>x\<close>, a number beyond it.\<close>

lemma um_advance_inv:
  assumes inv: "um_rx_inv_but {x} e" and x: "um_valid_sn e x" and hi: "um_window_size e \<le> um_modulus_rx e x"
  defines "e1 \<equiv> um_discard_out_of_window (e\<lparr>um_rx_next_highest := (x + 1) mod um_sn_modulus e\<rparr>)"
  shows "um_rx_inv e1 \<and> um_same_tx e e1 \<and> um_rx_next_highest e1 = (x + 1) mod um_sn_modulus e \<and>
    um_rx_next_reassembly e1 = um_rx_next_reassembly e \<and>
    um_rx_size e1 - rx_bytes (um_rx_list e1) = um_rx_size e - rx_bytes (um_rx_list e) \<and>
    um_rx_maxsize e1 = um_rx_maxsize e \<and> events (um_common e1) = events (um_common e) \<and>
    um_rx_list e1 = filter (\<lambda>p. um_modulus_rx e (pdu_sn p) > um_modulus_rx e x - um_window_size e) (um_rx_list e)"
proof -
  let ?h = "(x + 1) mod um_sn_modulus e" and ?l = "um_rx_list e" and ?w = "um_window_size e"
  define d where "d = um_modulus_rx e x + 1 - ?w"
  define e0 where "e0 = e\<lparr>um_rx_next_highest := ?h\<rparr>"
  have c: "um_cfg e" and M: "um_sn_modulus e = 2 * ?w" "0 < ?w"
    using inv um_cfgD(1,2) by (auto simp: um_rx_inv_but_def)
  have key0: "um_modulus_rx e0 a = (if um_modulus_rx e a < d then um_modulus_rx e a - d + 2 * ?w else um_modulus_rx e a - d)" for a
    using um_key_shift [OF M(2), of "um_rx_next_highest e" x a] hi M
    by (simp add: um_modulus_rx_key e0_def d_def)
  have lt: "um_modulus_rx e a < 2 * ?w" and ge: "0 \<le> um_modulus_rx e a" for a
    using um_key_bounds M by (simp_all add: um_modulus_rx_key)
  have h0: "um_modulus_rx e0 (um_rx_next_highest e0) = ?w"
    using um_key_highest [of e0] c by (simp add: e0_def)
  have win: "pdu_sn p = x \<or> um_modulus_rx e (pdu_sn p) < ?w" if "p \<in> set ?l" for p
    using inv that by (auto simp: um_rx_inv_but_def)
  have P: "um_sn_compare_rx e0 (pdu_sn p) (um_rx_next_highest e0) \<ge> 0 \<longleftrightarrow> um_modulus_rx e (pdu_sn p) < d"
    if "p \<in> set ?l" for p
    using win [OF that] lt [of x] ge [of "pdu_sn p"] hi key0 [of "pdu_sn p"]
    unfolding um_compare_rx_eq h0 d_def by (auto split: if_splits)
  have rx: "rx_inv (um_modulus_rx e) (um_sn_modulus e) ?l" and ok: "\<forall>p \<in> set ?l. um_rx_pdu_ok p"
    "\<forall>p \<in> set ?l. rx_pdu_ok (um_sn_modulus e) p"
    using inv by (auto simp: um_rx_inv_but_def rx_inv_def)
  let ?P = "\<lambda>p. um_sn_compare_rx e0 (pdu_sn p) (um_rx_next_highest e0) \<ge> 0"
  have "dropWhile ?P ?l = filter (\<lambda>p. \<not> ?P p) ?l"
    by (rule dropWhile_sorted [of "pdu_before (um_modulus_rx e)"])
      (use rx P in \<open>auto simp: rx_inv_def pdu_before_def\<close>)
  also have "\<dots> = filter (\<lambda>p. \<not> um_modulus_rx e (pdu_sn p) < d) ?l" using P by (intro filter_cong) auto
  finally have dw: "dropWhile ?P ?l = filter (\<lambda>p. \<not> um_modulus_rx e (pdu_sn p) < d) ?l" .
  obtain k where k: "e1 = e0\<lparr>um_rx_list := dropWhile ?P ?l,
      um_rx_size := um_rx_size e - sum_list (map pdu_size (takeWhile ?P ?l)), um_common := k\<rparr>"
    "bstatus k = bstatus (um_common e)" "events k = events (um_common e)"
    using um_discard_out_of_window_eq [of e0] by (auto simp: e1_def e0_def)
  have i0: "rx_inv (um_modulus_rx e) (um_sn_modulus e) (dropWhile ?P ?l)"
    unfolding dw by (rule rx_inv_filter [OF rx])
  have i1: "rx_inv (um_modulus_rx e0) (um_sn_modulus e) (dropWhile ?P ?l)"
    by (rule rx_inv_rebase [OF i0]) (auto simp: dw key0)
  have w1: "um_modulus_rx e0 (pdu_sn p) < ?w" if "p \<in> set (dropWhile ?P ?l)" for p
    using win [of p] that lt [of x] hi unfolding dw key0 d_def by (auto split: if_splits)
  have sz: "sum_list (map pdu_size (takeWhile ?P ?l)) = rx_bytes (takeWhile ?P ?l)"
    by (rule um_rx_bytes_sizes [symmetric]) (use ok in \<open>auto dest: set_takeWhileD\<close>)
  have "um_rx_inv e1"
    using inv i1 w1 rx_bytes_dropWhile [OF ok(2), of ?P] M sz rx_ends_ok_subset [of ?l "dropWhile ?P ?l"]
    unfolding k by (auto simp: um_rx_inv_but_def e0_def dest: set_dropWhileD)
  moreover have "um_same_tx e e1" using k by (simp add: um_same_tx_def e0_def)
  moreover have "filter (\<lambda>p. \<not> um_modulus_rx e (pdu_sn p) < d) ?l =
    filter (\<lambda>p. um_modulus_rx e (pdu_sn p) > um_modulus_rx e x - ?w) ?l"
    by (rule filter_cong) (auto simp: d_def)
  moreover have "um_rx_size e1 - rx_bytes (um_rx_list e1) = um_rx_size e - rx_bytes ?l"
    using k(1) rx_bytes_dropWhile(1) [OF ok(2), of ?P] sz by (simp add: e0_def)
  ultimately show ?thesis using k dw by (simp add: e0_def)
qed

lemma um_rx_not_full_inv:
  assumes inv: "um_rx_inv_but {x} e" and x: "um_valid_sn e x"
  shows "\<exists>e'. um_rx_not_full x e = Inr e' \<and> um_rx_inv e' \<and> um_same_tx e e'"
proof (cases "um_window_size e \<le> um_modulus_rx e x")
  case False
  have c: "um_cfg e" using inv by (simp add: um_rx_inv_but_def)
  have "um_rx_inv e" using inv False by (auto simp: um_rx_inv_but_def)
  with False show ?thesis by (simp add: um_rx_not_full_def um_compare_rx_eq um_key_highest [OF c])
next
  case True
  have c: "um_cfg e" using inv by (simp add: um_rx_inv_but_def)
  define e1 where "e1 = um_discard_out_of_window (e\<lparr>um_rx_next_highest := (x + 1) mod um_sn_modulus e\<rparr>)"
  have e1: "um_rx_inv e1" "um_same_tx e e1" using um_advance_inv [OF inv x True] by (simp_all add: e1_def)
  have M: "0 < um_sn_modulus e1" using e1(1) um_cfgD(3) by (simp add: um_rx_inv_but_def)
  let ?a = "(um_rx_next_highest e1 - um_window_size e1 + um_sn_modulus e1) mod um_sn_modulus e1"
  obtain sn where sn: "skip_delivered (um_rx_list e1) (um_sn_modulus e1) ?a = Inr sn" "um_valid_sn e1 sn"
    using um_skip_delivered [OF e1(1), of ?a] M by auto
  have "um_rx_inv (e1\<lparr>um_rx_next_reassembly := sn\<rparr>)" using e1(1) sn(2) by (simp add: um_rx_inv_but_def)
  moreover have "um_same_tx e (e1\<lparr>um_rx_next_reassembly := sn\<rparr>)" using e1(2) by (simp add: um_same_tx_def)
  moreover have "um_sn_compare_rx e x (um_rx_next_highest e) \<ge> 0"
    using True by (simp add: um_compare_rx_eq um_key_highest [OF c])
  ultimately show ?thesis using e1 sn(1) unfolding um_rx_not_full_def e1_def [symmetric] Let_def by auto
qed

section \<open>Reception\<close>

lemma um_rx_timers_inv:
  assumes "um_rx_inv e"
  shows "um_rx_inv (um_rx_timer_start (um_rx_timer_stop e)) \<and> um_same_tx e (um_rx_timer_start (um_rx_timer_stop e))"
proof -
  have "um_rx_inv (um_rx_timer_stop e)" using assms by (simp add: um_rx_timer_stop_def um_rx_inv_but_def)
  then have "um_rx_inv (um_rx_timer_start (um_rx_timer_stop e))"
    by (simp add: um_rx_timer_start_def um_rx_inv_but_def)
  then show ?thesis by (simp add: um_rx_timer_start_def um_rx_timer_stop_def um_same_tx_def)
qed

text \<open>A single PDU is never a whole SDU, so that a complete SDU is within the window.\<close>

lemma um_full_in_window:
  assumes inv: "um_rx_inv_but {x} e" and full: "um_sdu_full e x"
    and new: "\<not> um_modulus_rx e x < um_window_size e \<Longrightarrow> block (um_rx_list e) x = [pdu]"
  shows "um_rx_inv e"
proof -
  have "um_modulus_rx e x < um_window_size e"
  proof (rule ccontr)
    assume "\<not> um_modulus_rx e x < um_window_size e"
    note b = new [OF this]
    have rx: "rx_inv (um_modulus_rx e) (um_sn_modulus e) (um_rx_list e)" using inv by (simp add: um_rx_inv_but_def)
    have v: "rx_pdu_ok (um_sn_modulus e) p \<Longrightarrow> um_valid_sn e (pdu_sn p)" for p by (simp add: rx_pdu_ok_def)
    have "pdu \<in> set (block (um_rx_list e) x)" using b by simp
    then have "um_rx_pdu_ok pdu" using inv by (simp add: um_rx_inv_but_def)
    moreover have "sdu_full_loop [pdu] x (-1)"
      using um_rx.rx_full_block [OF rx v, of x] full b by (simp add: um_sdu_full_def del: sdu_full_loop.simps)
    ultimately show False by (auto simp: um_rx_pdu_ok_def Let_def split: if_splits)
  qed
  with inv show ?thesis by (auto simp: um_rx_inv_but_def)
qed

lemma um_reception_actions_inv:
  assumes inv: "um_rx_inv_but {pdu_sn pdu} e" and x: "um_valid_sn e (pdu_sn pdu)"
    and new: "\<not> um_modulus_rx e (pdu_sn pdu) < um_window_size e \<Longrightarrow> block (um_rx_list e) (pdu_sn pdu) = [pdu]"
  shows "\<exists>e'. um_reception_actions e pdu = Inr e' \<and> um_rx_inv e' \<and> um_same_tx e e'"
proof -
  let ?r = "if um_sdu_full e (pdu_sn pdu) then um_rx_full (pdu_sn pdu) e else um_rx_not_full (pdu_sn pdu) e"
  obtain e1 where "?r = Inr e1" "um_rx_inv e1" "um_same_tx e e1"
    using um_rx_full_inv [of e "pdu_sn pdu"] um_full_in_window [OF inv _ new] um_rx_not_full_inv [OF inv x]
    by (cases "um_sdu_full e (pdu_sn pdu)") auto
  with um_rx_timers_inv [of e1] show ?thesis
    unfolding um_reception_actions_def Let_def by (auto intro: um_same_tx_trans)
qed

text \<open>The list with a new PDU.\<close>

lemma um_rx_add_inv:
  assumes inv: "um_rx_inv e" and pdu: "um_valid_sn e (pdu_sn pdu)" "seg_data_ok pdu" "pdu_is_last pdu \<longrightarrow> 0 < pdu_so pdu"
    and room: "um_rx_size e + pdu_size pdu \<le> um_rx_maxsize e"
    and ends: "\<And>q. q \<in> set (um_rx_list e) \<Longrightarrow> pdu_sn q = pdu_sn pdu \<Longrightarrow> pdu_data q \<noteq> None \<Longrightarrow>
      (pdu_is_last q \<longrightarrow> pdu_end pdu \<le> pdu_end q) \<and> (pdu_is_last pdu \<longrightarrow> pdu_end q \<le> pdu_end pdu)"
  defines "e1 \<equiv> e\<lparr>um_rx_size := um_rx_size e + pdu_size pdu,
    um_rx_list := nr_rlc_pdu_list_add (um_sn_compare_rx e) (um_rx_list e) pdu\<rparr>"
  shows "um_rx_inv_but {pdu_sn pdu} e1"
    "\<not> um_modulus_rx e1 (pdu_sn pdu) < um_window_size e1 \<Longrightarrow> block (um_rx_list e1) (pdu_sn pdu) = [pdu]"
proof -
  define l where "l = nr_rlc_pdu_list_add (um_sn_compare_rx e) (um_rx_list e) pdu"
  have d: "pdu_data pdu \<noteq> None" "0 < pdu_size pdu" "0 \<le> pdu_so pdu"
    using pdu(2) by (auto simp: seg_data_ok_def split: option.splits)
  then have "rx_pdu_ok (um_sn_modulus e) pdu" using pdu by (simp add: rx_pdu_ok_def)
  then have "rx_inv (um_modulus_rx e) (um_sn_modulus e) l"
    unfolding l_def using inv d(1) by (intro um_rx.rx_add_inv) (auto simp: um_rx_inv_but_def rx_pdu_ok_def)
  moreover have "rx_ends_ok l"
    using inv ends by (auto simp: l_def um_rx_inv_but_def rx_ends_ok_def)
  ultimately show "um_rx_inv_but {pdu_sn pdu} e1"
    using inv room d pdu(3) by (auto simp: um_rx_inv_but_def e1_def l_def rx_bytes_add um_rx_pdu_ok_def)
  assume w: "\<not> um_modulus_rx e1 (pdu_sn pdu) < um_window_size e1"
  have "pdu_sn p \<noteq> pdu_sn pdu" if "p \<in> set (um_rx_list e)" for p
    using inv w that by (auto simp: um_rx_inv_but_def e1_def)
  then have "block (um_rx_list e) (pdu_sn pdu) = []" by (auto simp: block_def filter_empty_conv)
  then have "mset (block l (pdu_sn pdu)) = {#pdu#}" by (simp add: l_def block_def mset_filter filter_empty_conv)
  then show "block (um_rx_list e1) (pdu_sn pdu) = [pdu]" by (simp add: e1_def l_def)
qed

text \<open>What becomes of a segment that is accepted.\<close>

lemma um_rx_data_eq:
  assumes "hdr < length b" and "um_rx_size e + int (length b - hdr) \<le> um_rx_maxsize e"
    and "um_sn_compare_rx e sn (um_rx_next_reassembly e) \<ge> 0"
  shows "um_rx_data b sn so is_first is_last hdr e =
    (let pdu = nr_rlc_new_pdu sn so is_first is_last (drop hdr b)
     in um_reception_actions (e\<lparr>um_rx_size := um_rx_size e + pdu_size pdu,
          um_rx_list := nr_rlc_pdu_list_add (um_sn_compare_rx e) (um_rx_list e) pdu\<rparr>) pdu)"
  using assms by (simp add: um_rx_data_def Let_def nr_rlc_new_pdu_def of_nat_diff)

lemma um_rx_data_inv:
  assumes inv: "um_rx_inv e" and sn: "um_valid_sn e sn" and so: "0 \<le> so" and hdr: "hdr \<le> length b"
    and lst: "is_last \<longrightarrow> 0 < so"
    and ends: "\<And>q. q \<in> set (um_rx_list e) \<Longrightarrow> pdu_sn q = sn \<Longrightarrow> pdu_data q \<noteq> None \<Longrightarrow>
      (pdu_is_last q \<longrightarrow> so + int (length b - hdr) \<le> pdu_end q) \<and> (is_last \<longrightarrow> pdu_end q \<le> so + int (length b - hdr))"
  shows "\<exists>e'. um_rx_data b sn so is_first is_last hdr e = Inr e' \<and> um_rx_inv e' \<and> um_same_tx e e'"
proof (cases "hdr < length b \<and> um_rx_size e + int (length b - hdr) \<le> um_rx_maxsize e \<and>
    um_sn_compare_rx e sn (um_rx_next_reassembly e) \<ge> 0")
  case False
  have "um_rx_inv (um_discard_pdu n e)" "um_same_tx e (um_discard_pdu n e)" for n
    using inv by (simp_all add: um_discard_pdu_def um_same_tx_def)
  with False hdr show ?thesis by (auto simp: um_rx_data_def Let_def of_nat_diff)
next
  case True
  define pdu where "pdu = nr_rlc_new_pdu sn so is_first is_last (drop hdr b)"
  define e1 where "e1 = e\<lparr>um_rx_size := um_rx_size e + pdu_size pdu,
    um_rx_list := nr_rlc_pdu_list_add (um_sn_compare_rx e) (um_rx_list e) pdu\<rparr>"
  have pdu: "pdu_sn pdu = sn" "pdu_so pdu = so" "pdu_data pdu = Some (drop hdr b)" "pdu_size pdu = int (length b - hdr)"
    "pdu_is_last pdu = is_last" by (simp_all add: pdu_def nr_rlc_new_pdu_def)
  have "um_rx_inv_but {sn} e1" "\<not> um_modulus_rx e1 sn < um_window_size e1 \<Longrightarrow> block (um_rx_list e1) sn = [pdu]"
    using um_rx_add_inv [OF inv, of pdu] sn so True lst ends
    by (simp_all add: e1_def seg_data_ok_def pdu_end_def pdu del: of_nat_diff)
  with um_reception_actions_inv [of pdu e1] sn pdu(1)
  obtain e2 where e2: "um_reception_actions e1 pdu = Inr e2" "um_rx_inv e2" "um_same_tx e1 e2"
    by (auto simp: e1_def)
  have "um_same_tx e e1" by (simp add: e1_def um_same_tx_def)
  moreover have "um_rx_data b sn so is_first is_last hdr e = Inr e2"
    using um_rx_data_eq [of hdr b e sn so is_first is_last] True e2(1) by (simp add: e1_def pdu_def Let_def del: of_nat_diff)
  ultimately show ?thesis using e2(2,3) um_same_tx_trans by blast
qed

text \<open>What the parser finds: a whole SDU, the header of a segment with its length, or nothing.\<close>

datatype um_header = UmNone | UmWhole | UmSegment int int bool bool nat

definition um_parse :: "nr_rlc_entity_um \<Rightarrow> byte list \<Rightarrow> um_header res" where
  "um_parse e buffer =
     R_bits (Inr UmNone) (nr_rlc_pdu_decoder_init buffer) 2 (\<lambda>si d1.
       let is_first = (si AND 2 = 0); is_last = (si AND 1 = 0);
           read_sn = (\<lambda>d2. R_bits (Inr UmNone) d2 (um_sn_field_length e) (\<lambda>sn d3.
             if \<not> is_first
             then R_bits (Inr UmNone) d3 16 (\<lambda>so d4.
                    if so = 0 then Inr UmNone else Inr (UmSegment sn so is_first is_last (dec_byte d4)))
             else Inr (UmSegment sn 0 is_first is_last (dec_byte d3))))
       in if is_first \<and> is_last
          then if int (length buffer) < 2 then Inr UmNone else Inr UmWhole
          else if um_sn_field_length e = 12 then R_bits (Inr UmNone) d1 2 (\<lambda>r d2. read_sn d2)
          else read_sn d1)"

definition um_count_rx :: "byte list \<Rightarrow> nr_rlc_entity_um \<Rightarrow> nr_rlc_entity_um" where
  "um_count_rx buffer e =
     e\<lparr>um_common := count_pkts_bytes rxpdu_pkts_update rxpdu_bytes_update (int (length buffer)) (um_common e)\<rparr>"

lemma um_recv_parse:
  "nr_rlc_entity_um_recv_pdu b e = res_bind (um_parse e b) (\<lambda>h.
     case h of UmNone \<Rightarrow> Inr (um_discard_pdu (int (length b)) (um_count_rx b e))
     | UmWhole \<Rightarrow> Inr (um_deliver (drop 1 b) (um_count_rx b e))
     | UmSegment sn so is_first is_last hdr \<Rightarrow> um_rx_data b sn so is_first is_last hdr (um_count_rx b e))"
  unfolding nr_rlc_entity_um_recv_pdu_def um_parse_def Let_def um_count_rx_def
  by (simp add: R_bits_bind if_distrib [where f = "\<lambda>m. res_bind m f" for f] cong: if_cong)

lemma um_parse_ok:
  assumes "um_cfg e"
  shows "\<exists>h. um_parse e b = Inr h \<and> (\<forall>sn so is_first is_last hdr. h = UmSegment sn so is_first is_last hdr \<longrightarrow>
      um_valid_sn e sn \<and> 0 \<le> so \<and> hdr \<le> length b \<and> (is_last \<longrightarrow> 0 < so))"
proof -
  have len: "0 \<le> um_sn_field_length e" "um_sn_field_length e \<le> 31" "2 ^ nat (um_sn_field_length e) = um_sn_modulus e"
    using um_cfgD [OF assms] by auto
  define ok where "ok r \<longleftrightarrow> (\<exists>h. r = Inr h \<and> (\<forall>sn so is_first is_last hdr. h = UmSegment sn so is_first is_last hdr \<longrightarrow>
      um_valid_sn e sn \<and> 0 \<le> so \<and> hdr \<le> length b \<and> (is_last \<longrightarrow> 0 < so)))" for r :: "um_header res"
  have none: "ok (Inr UmNone)" "ok (Inr UmWhole)" by (simp_all add: ok_def)
  have some: "ok (Inr (UmSegment sn so f l (dec_byte d')))"
    if "dec_ok d'" "dec_buffer d' = b" "um_valid_sn e sn" "0 \<le> so" "l \<longrightarrow> 0 < so" for sn so f l d'
    using that by (auto simp: ok_def dec_ok_def)
  have "ok (um_parse e b)"
    unfolding um_parse_def Let_def using len none some by (auto intro!: R_bits_rule [where P = ok])
  then show ?thesis unfolding ok_def .
qed

text \<open>
  A segment is consistent with what was received when it does not reach beyond the last segment of its
  SDU, and no segment reaches beyond it if it is the last.
\<close>

definition um_consistent :: "byte list \<Rightarrow> nr_rlc_entity_um \<Rightarrow> bool" where
  "um_consistent b e =
     (case um_parse e b of
        Inr (UmSegment sn so is_first is_last hdr) \<Rightarrow>
          (\<forall>q \<in> set (um_rx_list e). pdu_sn q = sn \<and> pdu_data q \<noteq> None \<longrightarrow>
             (pdu_is_last q \<longrightarrow> so + int (length b - hdr) \<le> pdu_end q) \<and>
             (is_last \<longrightarrow> pdu_end q \<le> so + int (length b - hdr)))
      | _ \<Rightarrow> True)"

lemma um_recv_pdu_inv:
  assumes inv: "um_rx_inv e" and con: "um_consistent b e"
  shows "\<exists>e'. nr_rlc_entity_um_recv_pdu b e = Inr e' \<and> um_rx_inv e' \<and> um_same_tx e e'"
proof -
  let ?e = "um_count_rx b e"
  have i0: "um_rx_inv ?e" "um_same_tx e ?e" "um_rx_list ?e = um_rx_list e" "um_sn_modulus ?e = um_sn_modulus e"
    using inv by (simp_all add: um_count_rx_def um_same_tx_def)
  obtain h where h: "um_parse e b = Inr h"
    and ok: "\<And>sn so f l hdr. h = UmSegment sn so f l hdr \<Longrightarrow>
      um_valid_sn e sn \<and> 0 \<le> so \<and> hdr \<le> length b \<and> (l \<longrightarrow> 0 < so)"
    using um_parse_ok [of e b] inv by (auto simp: um_rx_inv_but_def)
  show ?thesis
  proof (cases h)
    case UmNone
    with h i0 show ?thesis by (auto simp: um_recv_parse um_discard_pdu_def um_same_tx_def)
  next
    case UmWhole
    with h i0 show ?thesis by (auto simp: um_recv_parse um_deliver_def um_same_tx_def)
  next
    case (UmSegment sn so f l hdr)
    with um_rx_data_inv [OF i0(1), of sn so hdr b l f] ok [OF UmSegment] con h i0(2-)
    show ?thesis by (auto simp: um_recv_parse um_consistent_def intro: um_same_tx_trans)
  qed
qed

section \<open>The timer\<close>

lemma um_discard_old_inv:
  assumes inv: "um_rx_inv e"
  shows "um_rx_inv (um_discard_old e) \<and> um_same_tx e (um_discard_old e)"
proof -
  let ?P = "\<lambda>p. um_sn_compare_rx e (pdu_sn p) (um_rx_next_reassembly e) < 0" and ?l = "um_rx_list e"
  obtain c where c: "um_discard_old e = e\<lparr>um_rx_list := dropWhile ?P ?l, um_common := c\<rparr>"
    "bstatus c = bstatus (um_common e)" using um_discard_old_eq [of e] by blast
  have rx: "rx_inv (um_modulus_rx e) (um_sn_modulus e) ?l" using inv by (simp add: um_rx_inv_but_def)
  then have "dropWhile ?P ?l = filter (\<lambda>p. \<not> ?P p) ?l"
    by (intro dropWhile_sorted [of "pdu_before (um_modulus_rx e)"])
      (auto simp: rx_inv_def pdu_before_def um_compare_rx_eq)
  then have "rx_inv (um_modulus_rx e) (um_sn_modulus e) (dropWhile ?P ?l)"
    using rx_inv_filter [OF rx, of "\<lambda>s. \<not> um_sn_compare_rx e s (um_rx_next_reassembly e) < 0"] by simp
  moreover have "rx_bytes (dropWhile ?P ?l) \<le> rx_bytes ?l"
    using rx_bytes_dropWhile [of ?l "um_sn_modulus e" ?P] rx by (simp add: rx_inv_def)
  moreover have "rx_ends_ok (dropWhile ?P ?l)"
    using inv by (auto intro!: rx_ends_ok_subset [of ?l] simp: um_rx_inv_but_def dest: set_dropWhileD)
  ultimately show ?thesis
    using inv c by (auto simp: um_rx_inv_but_def um_same_tx_def dest: set_dropWhileD)
qed

lemma um_set_time_inv:
  assumes "um_rx_inv e"
  shows "\<exists>e'. nr_rlc_entity_um_set_time now e = Inr e' \<and> um_rx_inv e' \<and> um_same_tx e e'"
proof -
  define e0 where "e0 = e\<lparr>um_t_current := now\<rparr>"
  have i0: "um_rx_inv e0" using assms by (simp add: e0_def um_rx_inv_but_def)
  have s0: "um_same_tx e e0" by (simp add: e0_def um_same_tx_def)
  obtain sn where sn: "skip_delivered (um_rx_list e0) (um_sn_modulus e0) (um_rx_timer_trigger e0) = Inr sn"
    "um_valid_sn e0 sn" using um_skip_delivered [OF i0, of "um_rx_timer_trigger e0"] i0 by (auto simp: um_rx_inv_but_def)
  define e1 where "e1 = e0\<lparr>um_t_reassembly_start := 0, um_rx_next_reassembly := sn\<rparr>"
  have "um_rx_inv e1" using i0 sn(2) by (simp add: e1_def um_rx_inv_but_def)
  moreover have s1: "um_same_tx e e1" using s0 by (simp add: e1_def um_same_tx_def)
  ultimately have d: "um_rx_inv (um_discard_old e1)" "um_same_tx e (um_discard_old e1)"
    using um_discard_old_inv um_same_tx_trans by blast+
  then have "um_rx_inv (um_discard_old e1\<lparr>um_t_reassembly_start := t, um_rx_timer_trigger := um_rx_next_highest (um_discard_old e1)\<rparr>)"
    "um_same_tx e (um_discard_old e1\<lparr>um_t_reassembly_start := t, um_rx_timer_trigger := um_rx_next_highest (um_discard_old e1)\<rparr>)"
    for t by (simp_all add: um_rx_inv_but_def um_same_tx_def)
  with i0 s0 sn(1) d show ?thesis
    unfolding nr_rlc_entity_um_set_time_def um_check_t_reassembly_def e0_def [symmetric]
    by (auto simp: Let_def e1_def [symmetric])
qed

end
