(* ===== verification/RlcSegments.thy ===== *)
theory RlcSegments
  imports RlcSdu
begin

text \<open>
  Segments of SDUs waiting for transmission or for an acknowledgement: whatever list they are in, they
  are disjoint slices of SDUs that are alive, marked as first and last where they start and end one.
\<close>

text \<open>How many of the segments hold byte \<open>k\<close> of the SDU at \<open>a\<close>.\<close>

definition cov :: "addr \<Rightarrow> int \<Rightarrow> segment multiset \<Rightarrow> nat" where
  "cov a k M = size (filter_mset (\<lambda>s. seg_sdu s = a \<and> seg_so s \<le> k \<and> k < seg_so s + seg_size s) M)"

lemma cov_simps [simp]:
  "cov a k {#} = 0"
  "cov a k (add_mset s M) =
     (if seg_sdu s = a \<and> seg_so s \<le> k \<and> k < seg_so s + seg_size s then Suc (cov a k M) else cov a k M)"
  "cov a k (M + N) = cov a k M + cov a k N"
  by (auto simp: cov_def)

definition seg_ok :: "sdu_heap \<Rightarrow> segment multiset \<Rightarrow> segment \<Rightarrow> bool" where
  "seg_ok h M s \<longleftrightarrow> 0 \<le> seg_so s \<and> 0 \<le> seg_size s \<and>
     seg_so s + seg_size s \<le> sdu_size (sdu_of h s) \<and>
     sdu_size (sdu_of h s) = int (length (sdu_data (sdu_of h s))) \<and>
     (seg_is_first s \<longleftrightarrow> seg_so s = 0) \<and>
     (seg_is_last s \<longleftrightarrow> seg_so s + seg_size s = sdu_size (sdu_of h s)) \<and>
     (seg_size s = 0 \<longrightarrow> nsegs (seg_sdu s) M = 1)"

definition segs_inv :: "sdu_heap \<Rightarrow> segment multiset \<Rightarrow> bool" where
  "segs_inv h M \<longleftrightarrow> heap_inv h M \<and> (\<forall>s \<in># M. seg_ok h M s) \<and> (\<forall>a k. cov a k M \<le> 1)"

lemma segs_inv_empty [simp]: "segs_inv heap_empty {#}"
  by (simp add: segs_inv_def)

lemma segs_invD:
  assumes "segs_inv h M"
  shows "heap_inv h M" "s \<in># M \<Longrightarrow> seg_ok h M s" "cov a k M \<le> 1"
  using assms by (simp_all add: segs_inv_def)

text \<open>No segment occurs twice, so that end pointers identify list elements.\<close>

lemma segs_inv_no_dup: "\<not> segs_inv h (add_mset s (add_mset s M))"
proof
  assume i: "segs_inv h (add_mset s (add_mset s M))"
  then have ok: "seg_ok h (add_mset s (add_mset s M)) s" by (simp add: segs_inv_def)
  show False
  proof (cases "seg_size s = 0")
    case True
    with ok show ?thesis by (simp add: seg_ok_def)
  next
    case False
    then have "cov (seg_sdu s) (seg_so s) (add_mset s (add_mset s M)) \<ge> 2" using ok by (simp add: seg_ok_def)
    with segs_invD(3) [OF i, of "seg_sdu s" "seg_so s"] show ?thesis by linarith
  qed
qed

lemma segs_inv_distinct: "segs_inv h (mset l + N) \<Longrightarrow> distinct l"
proof (rule ccontr)
  assume i: "segs_inv h (mset l + N)" and "\<not> distinct l"
  then obtain s xs ys zs where "l = xs @ [s] @ ys @ [s] @ zs" using not_distinct_decomp by blast
  then have "mset l + N = add_mset s (add_mset s (mset (xs @ ys @ zs) + N))" by simp
  with i segs_inv_no_dup show False by metis
qed

lemma seg_ok_mono:
  assumes "seg_ok h M s" and "same_sdu (sdu_of h' s) (sdu_of h s)"
    and "seg_size s = 0 \<Longrightarrow> nsegs (seg_sdu s) M' = 1"
  shows "seg_ok h' M' s"
  using assms by (auto simp: seg_ok_def same_sdu_def)

lemma nsegs_member: "s \<in># M \<Longrightarrow> nsegs (seg_sdu s) M \<noteq> 0"
  using nsegs_pos by fastforce

text \<open>An SDU enters.\<close>

lemma segs_inv_new:
  assumes inv: "segs_inv h M" and new: "new_sdu_dated on now buf i h = (s, h')"
  shows "segs_inv h' (add_mset s M)"
proof -
  note n = new_sdu_dated_inv [OF segs_invD(1) [OF inv] new]
  have neq: "\<forall>t \<in># M. seg_sdu t \<noteq> seg_sdu s" using n(3) by simp
  have s0: "nsegs (seg_sdu s) M = 0" using neq by (simp add: nsegs_def filter_mset_eq_mempty_iff)
  have c0: "cov (seg_sdu s) k M = 0" for k using neq by (simp add: cov_def filter_mset_eq_mempty_iff)
  have "seg_ok h' (add_mset s M) s"
    using n(4,5) s0 by (simp add: seg_ok_def same_sdu_def)
  moreover have "seg_ok h' (add_mset s M) t" if "t \<in># M" for t
  proof (rule seg_ok_mono [of h M])
    show "seg_ok h M t" by (rule segs_invD(2) [OF inv that])
    show "same_sdu (sdu_of h' t) (sdu_of h t)" using n(3) that by simp
    have "seg_sdu s \<noteq> seg_sdu t" using neq that by fastforce
    moreover assume "seg_size t = 0"
    ultimately show "nsegs (seg_sdu t) (add_mset s M) = 1"
      using segs_invD(2) [OF inv that] by (simp add: seg_ok_def)
  qed
  moreover have "cov a k (add_mset s M) \<le> 1" for a k using c0 [of k] segs_invD(3) [OF inv, of a k] by auto
  ultimately show ?thesis using n(1) by (auto simp: segs_inv_def)
qed

text \<open>A segment is released.\<close>

lemma segs_inv_free:
  assumes inv: "segs_inv h (add_mset s M)" and fr: "nr_rlc_free_sdu_segment s h = (b, h')"
  shows "segs_inv h' M"
proof -
  note f = free_segment_inv [OF segs_invD(1) [OF inv] fr]
  have "seg_ok h' M t" if t: "t \<in># M" for t
  proof (rule seg_ok_mono [of h "add_mset s M"])
    show "seg_ok h (add_mset s M) t" using segs_invD(2) [OF inv] t by simp
    show "same_sdu (sdu_of h' t) (sdu_of h t)" using f(3) t by blast
    assume "seg_size t = 0"
    then have "nsegs (seg_sdu t) (add_mset s M) = 1" using segs_invD(2) [OF inv, of t] t by (simp add: seg_ok_def)
    with nsegs_member [OF t] show "nsegs (seg_sdu t) M = 1" by (auto split: if_splits)
  qed
  moreover have "cov a k M \<le> 1" for a k using segs_invD(3) [OF inv, of a k] by (auto split: if_splits)
  ultimately show ?thesis using f(1) by (auto simp: segs_inv_def)
qed

lemma segs_inv_free_list:
  "segs_inv h (mset l + M) \<Longrightarrow> segs_inv (nr_rlc_free_sdu_segment_list l h) M"
proof (induction l arbitrary: h)
  case (Cons s l)
  obtain b h1 where fr: "nr_rlc_free_sdu_segment s h = (b, h1)" by fastforce
  with Cons segs_inv_free [of h s "mset l + M" b h1] show ?case by simp
qed simp

text \<open>The two parts of a segment take its place.\<close>

lemma segs_inv_reseg:
  assumes inv: "segs_inv h (add_mset s M)" and n: "0 < n" "n < seg_size s"
  shows "segs_inv (heap_upd (seg_sdu s) (sdu_ref_count_update (\<lambda>m. m + 1)) h)
    (add_mset (s\<lparr>seg_size := n, seg_is_last := False\<rparr>)
      (add_mset (s\<lparr>seg_size := seg_size s - n, seg_so := seg_so s + n, seg_is_first := False\<rparr>) M))"
    (is "segs_inv ?h (add_mset ?s1 (add_mset ?s2 M))")
proof -
  have ok: "seg_ok h (add_mset s M) s" using segs_invD(2) [OF inv] by simp
  have live: "heap_map h (seg_sdu s) = Some (sdu_of h s)" using heap_inv_live [OF segs_invD(1) [OF inv]] by simp
  have same: "same_sdu (sdu_of ?h t) (sdu_of h t)" for t
    by (auto simp: same_sdu_def sdu_of_def split: option.splits)
  have of: "sdu_of ?h ?s1 = sdu_of ?h s" "sdu_of ?h ?s2 = sdu_of ?h s" by (simp_all add: sdu_of_def)
  have "seg_ok ?h (add_mset ?s1 (add_mset ?s2 M)) ?s1" "seg_ok ?h (add_mset ?s1 (add_mset ?s2 M)) ?s2"
    using ok n same [of s] by (auto simp: seg_ok_def same_sdu_def of)
  moreover have "seg_ok ?h (add_mset ?s1 (add_mset ?s2 M)) t" if t: "t \<in># M" for t
  proof (rule seg_ok_mono [of h "add_mset s M"])
    show "seg_ok h (add_mset s M) t" using segs_invD(2) [OF inv] t by simp
    show "same_sdu (sdu_of ?h t) (sdu_of h t)" by (rule same)
    assume "seg_size t = 0"
    then have "nsegs (seg_sdu t) (add_mset s M) = 1" using segs_invD(2) [OF inv, of t] t by (simp add: seg_ok_def)
    with nsegs_member [OF t] show "nsegs (seg_sdu t) (add_mset ?s1 (add_mset ?s2 M)) = 1"
      by (auto split: if_splits)
  qed
  moreover have "cov a k (add_mset ?s1 (add_mset ?s2 M)) = cov a k (add_mset s M)" for a k
    using n by auto
  ultimately show ?thesis
    using segs_invD(3) [OF inv] reseg_inv [OF segs_invD(1) [OF inv], of ?s1 ?s2] by (auto simp: segs_inv_def)
qed

text \<open>A change of a sequence number or of a counter.\<close>

lemma segs_inv_upd:
  assumes inv: "segs_inv h M"
    and f: "\<And>u. sdu_ref_count (f u) = sdu_ref_count u \<and> sdu_free_count (f u) = sdu_free_count u \<and>
      sdu_data (f u) = sdu_data u \<and> sdu_size (f u) = sdu_size u"
  shows "segs_inv (heap_upd a f h) M"
proof -
  have "seg_ok (heap_upd a f h) M t" if "t \<in># M" for t
    using segs_invD(2) [OF inv that] f by (auto simp: seg_ok_def sdu_of_def split: option.splits)
  then show ?thesis using inv heap_upd_inv [of h M f a] f by (simp add: segs_inv_def)
qed

text \<open>What a segment is when its PDU is serialised.\<close>

lemma segs_inv_slice:
  assumes "segs_inv h M" and "s \<in># M"
  shows "slice (sdu_data (sdu_of h s)) (seg_so s) (seg_size s) =
    Inr (take (nat (seg_size s)) (drop (nat (seg_so s)) (sdu_data (sdu_of h s))))"
    "int (length (take (nat (seg_size s)) (drop (nat (seg_so s)) (sdu_data (sdu_of h s))))) = seg_size s"
  using segs_invD(2) [OF assms] by (auto simp: slice_def seg_ok_def)

end
