(* ===== verification/RlcUmTx.thy ===== *)
theory RlcUmTx
  imports RlcUmRx RlcSegments
begin

unbundle bit_operations_syntax

text \<open>
  The transmitting half of the UM entity: its invariant, that every operation keeps it, and the
  bytes of the PDUs.
\<close>

section \<open>The invariant\<close>

text \<open>The size of the PDU of a segment, as a function of the length of the sequence number.\<close>

definition um_seg_bytes :: "int \<Rightarrow> segment \<Rightarrow> int" where
  "um_seg_bytes len s = 1 + (if \<not> (seg_is_first s \<and> seg_is_last s) \<and> len = 12 then 1 else 0) +
     (if \<not> seg_is_first s then 2 else 0) + seg_size s"

lemma um_seg_pdu_size_eq: "um_seg_pdu_size e s = um_seg_bytes (um_sn_field_length e) s"
  by (simp add: um_seg_pdu_size_def um_compute_pdu_header_size_def um_seg_bytes_def)

definition um_list_bytes :: "int \<Rightarrow> segment list \<Rightarrow> int" where
  "um_list_bytes len l = sum_list (map (um_seg_bytes len) l)"

definition um_payload :: "segment list \<Rightarrow> int" where
  "um_payload l = sum_list (map seg_size l)"

lemma um_list_simps [simp]:
  "um_list_bytes len [] = 0" "um_list_bytes len (s # l) = um_seg_bytes len s + um_list_bytes len l"
  "um_list_bytes len (l @ l') = um_list_bytes len l + um_list_bytes len l'"
  "um_payload [] = 0" "um_payload (s # l) = seg_size s + um_payload l"
  "um_payload (l @ l') = um_payload l + um_payload l'"
  by (simp_all add: um_list_bytes_def um_payload_def)

definition whole :: "segment \<Rightarrow> bool" where
  "whole s \<longleftrightarrow> seg_is_first s \<and> seg_is_last s"

text \<open>
  \<open>L\<close> are segments that left the list without being released: those of an SDU for which \<open>resegment\<close>
  gave up. All but the first entry of the list are whole SDUs, and the first ends its SDU. \<open>tx_size\<close> of
  the entity is an upper bound, that of the buffer status is exact.
\<close>

definition um_tx_inv :: "segment multiset \<Rightarrow> nr_rlc_entity_um \<Rightarrow> bool" where
  "um_tx_inv L e \<longleftrightarrow> um_cfg e \<and> segs_inv (um_heap e) (mset (um_tx_list e) + L) \<and>
     um_tx_end e = end_of (um_tx_list e) \<and> um_valid_sn e (um_tx_next e) \<and>
     (\<forall>s \<in> set (um_tx_list e). seg_is_last s) \<and> (\<forall>s \<in> set (tl (um_tx_list e)). seg_is_first s) \<and>
     tx_size (bstatus (um_common e)) = um_list_bytes (um_sn_field_length e) (um_tx_list e) \<and>
     um_payload (um_tx_list e) \<le> um_tx_size e \<and> um_tx_size e \<le> um_tx_maxsize e"

lemma um_tx_invD:
  assumes "um_tx_inv L e"
  shows "um_cfg e" "segs_inv (um_heap e) (mset (um_tx_list e) + L)" "um_tx_end e = end_of (um_tx_list e)"
    "um_valid_sn e (um_tx_next e)" "\<forall>s \<in> set (um_tx_list e). seg_is_last s" "\<forall>s \<in> set (tl (um_tx_list e)). seg_is_first s"
    "tx_size (bstatus (um_common e)) = um_list_bytes (um_sn_field_length e) (um_tx_list e)"
    "um_payload (um_tx_list e) \<le> um_tx_size e" "um_tx_size e \<le> um_tx_maxsize e"
  using assms by (simp_all add: um_tx_inv_def)

lemma um_tx_inv_same:
  assumes "um_tx_inv L e" and "um_same_tx e e'"
  shows "um_tx_inv L e'"
proof -
  have "um_cfg e' = um_cfg e" using assms(2) by (simp add: um_cfg_def um_same_tx_def)
  with assms show ?thesis unfolding um_tx_inv_def um_same_tx_def by simp
qed

definition um_same_rx :: "nr_rlc_entity_um \<Rightarrow> nr_rlc_entity_um \<Rightarrow> bool" where
  "um_same_rx e e' \<longleftrightarrow> um_sn_field_length e' = um_sn_field_length e \<and> um_sn_modulus e' = um_sn_modulus e \<and>
     um_window_size e' = um_window_size e \<and> um_rx_next_highest e' = um_rx_next_highest e \<and>
     um_rx_next_reassembly e' = um_rx_next_reassembly e \<and> um_rx_timer_trigger e' = um_rx_timer_trigger e \<and>
     um_rx_list e' = um_rx_list e \<and> um_rx_size e' = um_rx_size e \<and> um_rx_maxsize e' = um_rx_maxsize e"

lemma um_same_rx_refl [simp]: "um_same_rx e e"
  by (simp add: um_same_rx_def)

lemma um_same_rx_trans: "um_same_rx e e' \<Longrightarrow> um_same_rx e' e'' \<Longrightarrow> um_same_rx e e''"
  by (simp add: um_same_rx_def)

lemma um_rx_inv_same:
  assumes "um_rx_inv_but X e" and "um_same_rx e e'"
  shows "um_rx_inv_but X e'"
proof -
  have "um_modulus_rx e' = um_modulus_rx e" "um_cfg e' = um_cfg e"
    using assms(2) by (simp_all add: um_same_rx_def um_cfg_def um_modulus_rx_key)
  with assms show ?thesis unfolding um_rx_inv_but_def um_same_rx_def by simp
qed

lemma um_cfg_same: "um_same_rx e e' \<Longrightarrow> um_cfg e' = um_cfg e"
  by (simp add: um_same_rx_def um_cfg_def)

section \<open>SDUs from the upper layer\<close>

text \<open>The counters and the bookkeeping of rejected SDUs.\<close>

definition um_prologue :: "int \<Rightarrow> nr_rlc_entity_um \<Rightarrow> nr_rlc_entity_um" where
  "um_prologue sz e =
     (let e1 = e\<lparr>um_common := stats_update (\<lambda>s. s\<lparr>rxsdu_pkts := rxsdu_pkts s + 1,
                  rxsdu_bytes := rxsdu_bytes s + word_of_int sz\<rparr>) (um_common e)\<rparr>
      in if um_sdu_rejected e1 \<noteq> 0 \<and> um_t_current e1 > um_t_log_buffer_full e1 + 1000
         then e1\<lparr>um_sdu_rejected := 0, um_t_log_buffer_full := um_t_current e1\<rparr> else e1)"

lemma um_recv_sdu_eq:
  "nr_rlc_entity_um_recv_sdu t b i e =
     (let sz = int (length b); e2 = um_prologue sz e
      in if sz > NR_SDU_MAX then Inl ExitFatal
         else if um_tx_size e2 + sz > um_tx_maxsize e2
         then Inr (e2\<lparr>um_sdu_rejected := um_sdu_rejected e2 + 1,
                um_common := count_pkts_bytes rxsdu_dd_pkts_update rxsdu_dd_bytes_update sz (um_common e2)\<rparr>)
         else case new_sdu_dated (avg_time_is_on (um_common e)) t b i (um_heap e) of (sdu, h') \<Rightarrow>
           res_bind (nr_rlc_sdu_segment_list_append (um_tx_list e) (um_tx_end e) sdu) (\<lambda>(l, en).
           Inr (e2\<lparr>um_tx_size := um_tx_size e2 + sz, um_heap := h', um_tx_list := l, um_tx_end := en,
             um_common := bstatus_update (tx_size_update (\<lambda>m. m + um_seg_pdu_size e sdu)) (um_common e2)\<rparr>)))"
  unfolding nr_rlc_entity_um_recv_sdu_def Let_def new_sdu_dated_def um_prologue_def
  by (simp add: um_tx_size_add_def um_seg_pdu_size_eq res_bind_def split: prod.splits sum.splits)

lemma um_recv_sdu_inv:
  assumes inv: "um_tx_inv L e" and sz: "int (length b) \<le> NR_SDU_MAX"
  shows "\<exists>e'. nr_rlc_entity_um_recv_sdu t b i e = Inr e' \<and> um_tx_inv L e' \<and> um_same_rx e e' \<and>
    (um_tx_size e + int (length b) \<le> um_tx_maxsize e \<longrightarrow>
      um_tx_next e' = um_tx_next e \<and> um_tx_size e' = um_tx_size e + int (length b) \<and> um_tx_maxsize e' = um_tx_maxsize e \<and>
      (\<forall>t \<in> set (um_tx_list e). sdu_data (sdu_of (um_heap e') t) = sdu_data (sdu_of (um_heap e) t)) \<and>
      (\<exists>s. um_tx_list e' = um_tx_list e @ [s] \<and> whole s \<and> seg_size s = int (length b) \<and> sdu_data (sdu_of (um_heap e') s) = b)) \<and>
    (um_tx_maxsize e < um_tx_size e + int (length b) \<longrightarrow> um_same_tx e e')"
proof -
  let ?sz = "int (length b)"
  define e2 where "e2 = um_prologue ?sz e"
  have st: "um_same_tx e e2" "um_same_rx e e2"
    by (simp_all add: e2_def um_prologue_def um_same_tx_def um_same_rx_def Let_def)
  then have sz2: "um_tx_size e2 = um_tx_size e" "um_tx_maxsize e2 = um_tx_maxsize e" by (simp_all add: um_same_tx_def)
  show ?thesis
  proof (cases "um_tx_size e2 + ?sz > um_tx_maxsize e2")
    case True
    let ?e = "e2\<lparr>um_sdu_rejected := um_sdu_rejected e2 + 1,
      um_common := count_pkts_bytes rxsdu_dd_pkts_update rxsdu_dd_bytes_update ?sz (um_common e2)\<rparr>"
    have "um_same_tx e ?e" "um_same_rx e ?e" using st by (simp_all add: um_same_tx_def um_same_rx_def)
    moreover have "nr_rlc_entity_um_recv_sdu t b i e = Inr ?e"
      unfolding um_recv_sdu_eq Let_def e2_def [symmetric] using True sz by simp
    ultimately show ?thesis using um_tx_inv_same [OF inv] True sz2 by auto
  next
    case False
    obtain s h' where new: "new_sdu_dated (avg_time_is_on (um_common e)) t b i (um_heap e) = (s, h')" by fastforce
    note n = new_sdu_dated_inv [OF segs_invD(1) [OF um_tx_invD(2) [OF inv]] new]
    note si = segs_inv_new [OF um_tx_invD(2) [OF inv] new]
    have app: "nr_rlc_sdu_segment_list_append (um_tx_list e) (um_tx_end e) s =
      Inr (um_tx_list e @ [s], end_of (um_tx_list e @ [s]))"
      unfolding um_tx_invD(3) [OF inv] using segs_inv_distinct [OF um_tx_invD(2) [OF inv]]
      by (rule segment_list_append_ok)
    define e' where "e' = e2\<lparr>um_tx_size := um_tx_size e2 + ?sz, um_heap := h', um_tx_list := um_tx_list e @ [s],
      um_tx_end := end_of (um_tx_list e @ [s]),
      um_common := bstatus_update (tx_size_update (\<lambda>m. m + um_seg_pdu_size e s)) (um_common e2)\<rparr>"
    have rec: "nr_rlc_entity_um_recv_sdu t b i e = Inr e'"
      unfolding um_recv_sdu_eq Let_def e2_def [symmetric] new prod.case app e'_def using False sz by simp
    have "um_same_rx e e'" using st(2) by (simp add: um_same_rx_def e'_def)
    moreover from this have "um_cfg e'" using um_cfg_same um_tx_invD(1) [OF inv] by blast
    moreover have "whole s" "seg_is_last s" "seg_is_first s" "seg_size s = ?sz" using n(5) by (simp_all add: whole_def)
    moreover have "set (tl (um_tx_list e @ [s])) \<subseteq> set (tl (um_tx_list e)) \<union> {s}" by (cases "um_tx_list e") auto
    moreover have "sdu_data (sdu_of (um_heap e') s) = b" using n(4) by (simp add: same_sdu_def e'_def)
    moreover have "\<forall>t \<in> set (um_tx_list e). sdu_data (sdu_of (um_heap e') t) = sdu_data (sdu_of (um_heap e) t)"
      using n(3) by (simp add: e'_def)
    ultimately show ?thesis
      using rec inv st si False sz2 unfolding um_tx_inv_def um_same_tx_def
      by (intro exI [of _ e']) (auto simp: e'_def um_seg_pdu_size_eq)
  qed
qed

section \<open>Serialisation\<close>

text \<open>The fields of the header, as \<open>serialize_sdu\<close> writes them.\<close>

definition um_fields :: "int \<Rightarrow> int \<Rightarrow> segment \<Rightarrow> (int \<times> int) list" where
  "um_fields len sn s =
     [(1 - of_bool (seg_is_first s), 1), (1 - of_bool (seg_is_last s), 1)] @
     (if seg_is_first s \<and> seg_is_last s then [(0, 6)]
      else (if len = 12 then [(0, 2)] else []) @ [(sn, len)]) @
     (if \<not> seg_is_first s then [(seg_so s, 16)] else [])"

text \<open>The bytes of the SDU that a segment stands for.\<close>

definition seg_data :: "sdu_heap \<Rightarrow> segment \<Rightarrow> byte list" where
  "seg_data h s = take (nat (seg_size s)) (drop (nat (seg_so s)) (sdu_data (sdu_of h s)))"

lemma um_fields_ok:
  assumes "um_cfg e"
  shows "fields_ok (um_fields (um_sn_field_length e) sn s)"
    "length (fields_bits (um_fields (um_sn_field_length e) sn s)) = 8 * nat (um_compute_pdu_header_size e s)"
    "0 < um_compute_pdu_header_size e s"
  using um_cfgD(4) [OF assms] by (auto simp: um_fields_def um_compute_pdu_header_size_def)

lemma um_serialize_fields:
  "um_serialize_sdu s b e =
     res_bind (put_fields (um_fields (um_sn_field_length e) (seg_sn (um_heap e) s) s) (nr_rlc_pdu_encoder_init b)) (\<lambda>n.
     res_bind (slice (sdu_data (sdu_of (um_heap e) s)) (seg_so s) (seg_size s)) (\<lambda>data.
     res_bind (splice (enc_buffer n) (enc_byte n) data) (\<lambda>buf.
     Inr (int (enc_byte n) + seg_size s, buf))))"
  unfolding um_serialize_sdu_def um_fields_def
  by (cases "um_sn_field_length e = 12"; cases "seg_is_first s"; cases "seg_is_last s") (simp_all add: res_bind_assoc)

lemma um_serialize_ok:
  assumes cfg: "um_cfg e" and seg: "segs_inv (um_heap e) M" "s \<in># M"
    and room: "um_seg_bytes (um_sn_field_length e) s \<le> int (length b)"
  shows "\<exists>hdr rest. um_serialize_sdu s b e =
      Inr (um_seg_bytes (um_sn_field_length e) s, hdr @ seg_data (um_heap e) s @ rest) \<and>
    length (hdr @ seg_data (um_heap e) s @ rest) = length b \<and>
    um_seg_bytes (um_sn_field_length e) s = int (length (hdr @ seg_data (um_heap e) s)) \<and>
    bytes_bits hdr = fields_bits (um_fields (um_sn_field_length e) (seg_sn (um_heap e) s) s)"
proof -
  let ?h = "nat (um_compute_pdu_header_size e s)" and ?data = "seg_data (um_heap e) s"
  have sz: "0 \<le> seg_size s" using segs_invD(2) [OF seg] by (simp add: seg_ok_def)
  have sb: "um_seg_bytes (um_sn_field_length e) s = int ?h + seg_size s"
    using um_fields_ok(3) [OF cfg, of s] by (simp add: um_seg_bytes_def um_compute_pdu_header_size_def)
  have "?h \<le> length b" using room sb sz by linarith
  then obtain n where
    n: "put_fields (um_fields (um_sn_field_length e) (seg_sn (um_heap e) s) s) (nr_rlc_pdu_encoder_init b) = Inr n"
      "enc_byte n = ?h"
      "bytes_bits (take ?h (enc_buffer n)) = fields_bits (um_fields (um_sn_field_length e) (seg_sn (um_heap e) s) s)"
      "length (enc_buffer n) = length b"
    using um_fields_ok(1,2) [OF cfg] by (rule_tac put_header_ok)
  have sl: "slice (sdu_data (sdu_of (um_heap e) s)) (seg_so s) (seg_size s) = Inr ?data"
    and len: "int (length ?data) = seg_size s" unfolding seg_data_def using segs_inv_slice [OF seg] by blast+
  have fit: "?h + length ?data \<le> length (enc_buffer n)" using n(4) room sb len by linarith
  then have sp: "splice (enc_buffer n) ?h ?data =
      Inr (take ?h (enc_buffer n) @ ?data @ drop (?h + length ?data) (enc_buffer n))"
    by (simp add: splice_def)
  have "um_serialize_sdu s b e = Inr (um_seg_bytes (um_sn_field_length e) s,
      take ?h (enc_buffer n) @ ?data @ drop (?h + length ?data) (enc_buffer n))"
    unfolding um_serialize_fields n(1) using sl sp n(2) sb by simp
  with n(3,4) fit len sb show ?thesis
    by (intro exI [of _ "take ?h (enc_buffer n)"] exI [of _ "drop (?h + length ?data) (enc_buffer n)"]) simp
qed

section \<open>A segment on its way\<close>

definition um_pending :: "segment \<Rightarrow> segment multiset \<Rightarrow> nr_rlc_entity_um \<Rightarrow> bool" where
  "um_pending s L e \<longleftrightarrow> um_cfg e \<and> segs_inv (um_heap e) (add_mset s (mset (um_tx_list e) + L)) \<and>
     um_tx_end e = end_of (um_tx_list e) \<and> um_valid_sn e (um_tx_next e) \<and>
     (\<forall>t \<in> set (um_tx_list e). seg_is_last t) \<and> (\<forall>t \<in> set (tl (um_tx_list e)). seg_is_first t) \<and>
     tx_size (bstatus (um_common e)) = um_list_bytes (um_sn_field_length e) (um_tx_list e) \<and>
     um_payload (um_tx_list e) + seg_size s \<le> um_tx_size e \<and> um_tx_size e \<le> um_tx_maxsize e \<and>
     seg_sn (um_heap e) s = um_tx_next e"

lemma um_pendingD:
  assumes "um_pending s L e"
  shows "um_cfg e" "segs_inv (um_heap e) (add_mset s (mset (um_tx_list e) + L))" "um_valid_sn e (um_tx_next e)"
    "seg_sn (um_heap e) s = um_tx_next e" "seg_ok (um_heap e) (add_mset s (mset (um_tx_list e) + L)) s"
  using assms segs_invD(2) by (auto simp: um_pending_def)

lemma um_pop_tx:
  assumes inv: "um_tx_inv L e" and tx: "um_tx_list e = s # rest"
  defines "e2 \<equiv> um_tx_size_add (- um_seg_pdu_size e s)
    (e\<lparr>um_tx_list := rest, um_tx_end := (if rest = [] then None else um_tx_end e),
       um_heap := heap_upd (seg_sdu s) (sdu_sn_update (\<lambda>_. um_tx_next e)) (um_heap e)\<rparr>)"
  shows "um_pending s L e2" "um_same_rx e e2" "um_tx_list e2 = rest" "um_tx_next e2 = um_tx_next e"
    "seg_is_last s" "\<forall>t \<in> set rest. whole t" "\<And>t. sdu_data (sdu_of (um_heap e2) t) = sdu_data (sdu_of (um_heap e) t)"
    "events (um_common e2) = events (um_common e)" "um_tx_size e2 = um_tx_size e" "um_tx_maxsize e2 = um_tx_maxsize e"
proof -
  note i = um_tx_invD [OF inv, unfolded tx]
  have fld: "um_heap e2 = heap_upd (seg_sdu s) (sdu_sn_update (\<lambda>_. um_tx_next e)) (um_heap e)"
    "um_tx_end e2 = (if rest = [] then None else um_tx_end e)"
    "um_tx_size e2 = um_tx_size e" "um_tx_maxsize e2 = um_tx_maxsize e"
    "bstatus (um_common e2) = (bstatus (um_common e))\<lparr>tx_size := tx_size (bstatus (um_common e)) - um_seg_pdu_size e s\<rparr>"
    by (simp_all add: e2_def um_tx_size_add_def)
  show l: "um_tx_list e2 = rest" "um_tx_next e2 = um_tx_next e" "events (um_common e2) = events (um_common e)"
    "um_same_rx e e2" "um_tx_size e2 = um_tx_size e" "um_tx_maxsize e2 = um_tx_maxsize e" by (simp_all add: e2_def um_tx_size_add_def um_same_rx_def)
  show "seg_is_last s" "\<forall>t \<in> set rest. whole t" using i(5,6) by (auto simp: whole_def)
  show "sdu_data (sdu_of (um_heap e2) t) = sdu_data (sdu_of (um_heap e) t)" for t
    by (simp add: fld sdu_of_heap_upd)
  have live: "heap_map (um_heap e) (seg_sdu s) = Some (sdu_of (um_heap e) s)"
    using heap_inv_live [OF segs_invD(1) [OF i(2)]] by simp
  have c: "um_cfg e2" using um_cfg_same [OF l(4)] i(1) by simp
  have "segs_inv (um_heap e2) (add_mset s (mset rest + L))"
    unfolding fld by (rule segs_inv_upd) (use i(2) in simp_all)
  moreover have "seg_sn (um_heap e2) s = um_tx_next e" using live by (simp add: fld sdu_of_heap_upd)
  moreover have "set (tl rest) \<subseteq> set rest" by (cases rest) auto
  moreover have "um_sn_modulus e2 = um_sn_modulus e" "um_sn_field_length e2 = um_sn_field_length e"
    using l(4) by (simp_all add: um_same_rx_def)
  ultimately show "um_pending s L e2"
    using i c unfolding um_pending_def l fld by (auto simp: um_seg_pdu_size_eq end_of_def)
qed

lemma um_reseg_heap [simp]:
  "seg_sn (heap_upd a (sdu_ref_count_update f) h) s = seg_sn h s"
  "sdu_data (sdu_of (heap_upd a (sdu_ref_count_update f) h) s) = sdu_data (sdu_of h s)"
  "sdu_size (sdu_of (heap_upd a (sdu_ref_count_update f) h) s) = sdu_size (sdu_of h s)"
  by (simp_all add: sdu_of_heap_upd)

text \<open>
  Where \<open>resegment\<close> gives up: a whole SDU, 12 bit sequence numbers, and a buffer of two bytes. The SDU
  is out of the list and holds two references.
\<close>

lemma um_tx_segment_lost:
  assumes p: "um_pending s L e" and lst: "seg_is_last s" and room: "um_compute_pdu_header_size e s + 1 \<le> room"
    and seg: "um_tx_segment s room e = (None, e')"
  shows "whole s \<and> um_sn_field_length e = 12 \<and> room = 2 \<and> 2 \<le> seg_size s \<and> um_same_rx e e' \<and>
    (\<exists>L'. um_tx_inv L' e') \<and> um_tx_list e' = um_tx_list e"
proof -
  define h where "h = heap_upd (seg_sdu s) (sdu_ref_count_update (\<lambda>m. m + 1)) (um_heap e)"
  have big: "um_seg_pdu_size e s > room"
    and none: "um_compute_pdu_header_size e (s\<lparr>seg_is_last := False\<rparr>) + 1 > room" and e': "e' = e\<lparr>um_heap := h\<rparr>"
    using seg by (auto simp: um_tx_segment_def um_resegment_def Let_def um_compute_pdu_header_size_def h_def
        split: if_splits prod.splits option.splits)
  have s: "whole s" "um_sn_field_length e = 12" "room = 2" "2 \<le> seg_size s"
    using none room lst big by (auto simp: whole_def um_compute_pdu_header_size_def um_seg_pdu_size_def split: if_splits)
  let ?s1 = "s\<lparr>seg_size := 1, seg_is_last := False\<rparr>" and ?s2 = "s\<lparr>seg_size := seg_size s - 1, seg_so := seg_so s + 1, seg_is_first := False\<rparr>"
  have "segs_inv h (add_mset ?s1 (add_mset ?s2 (mset (um_tx_list e) + L)))"
    unfolding h_def using s(4) by (intro segs_inv_reseg [OF um_pendingD(2) [OF p]]) auto
  then have "segs_inv h (mset (um_tx_list e) + add_mset ?s1 (add_mset ?s2 L))" by (simp add: ac_simps)
  then have "um_tx_inv (add_mset ?s1 (add_mset ?s2 L)) e'"
    using p s(4) unfolding um_pending_def um_tx_inv_def e' by (auto simp: um_cfg_def)
  with s e' show ?thesis by (auto simp: um_same_rx_def)
qed

text \<open>Otherwise the segment to send fits, and what is left of it heads the list.\<close>

lemma um_tx_segment_ok:
  assumes p: "um_pending s L e" and lst: "seg_is_last s" and room: "um_compute_pdu_header_size e s + 1 \<le> room"
    and wh: "\<forall>t \<in> set (um_tx_list e). whole t"
    and seg: "um_tx_segment s room e = (Some s', e')"
  shows "um_pending s' L e' \<and> um_same_rx e e' \<and> um_seg_bytes (um_sn_field_length e) s' \<le> room \<and>
    um_tx_next e' = um_tx_next e \<and> seg_sdu s' = seg_sdu s \<and> seg_so s' = seg_so s \<and> seg_is_first s' = seg_is_first s \<and>
    (\<forall>t. sdu_data (sdu_of (um_heap e') t) = sdu_data (sdu_of (um_heap e) t)) \<and>
    events (um_common e') = events (um_common e) \<and> um_tx_size e' = um_tx_size e \<and> um_tx_maxsize e' = um_tx_maxsize e \<and>
    (s' = s \<and> um_tx_list e' = um_tx_list e \<or>
     \<not> seg_is_last s' \<and> 0 < seg_size s' \<and> seg_size s' < seg_size s \<and> um_seg_bytes (um_sn_field_length e) s' = room \<and>
     um_tx_list e' = s\<lparr>seg_size := seg_size s - seg_size s', seg_so := seg_so s + seg_size s', seg_is_first := False\<rparr> # um_tx_list e)"
proof (cases "um_seg_pdu_size e s > room")
  case False
  with seg p show ?thesis by (auto simp: um_tx_segment_def um_seg_pdu_size_eq)
next
  case True
  define n where "n = room - (um_compute_pdu_header_size e (s\<lparr>seg_is_last := False\<rparr>))"
  define s2 where "s2 = s\<lparr>seg_size := seg_size s - n, seg_so := seg_so s + n, seg_is_first := False\<rparr>"
  define h where "h = heap_upd (seg_sdu s) (sdu_ref_count_update (\<lambda>m. m + 1)) (um_heap e)"
  have rm: "(um_compute_pdu_header_size e (s\<lparr>seg_is_last := False\<rparr>)) + 1 \<le> room"
    and s': "s' = s\<lparr>seg_size := n, seg_is_last := False\<rparr>"
    and fld: "um_heap e' = h" "um_tx_list e' = s2 # um_tx_list e"
      "um_tx_end e' = (if um_tx_end e = None then Some s2 else um_tx_end e)"
      "um_tx_next e' = um_tx_next e" "um_tx_size e' = um_tx_size e" "um_tx_maxsize e' = um_tx_maxsize e"
      "tx_size (bstatus (um_common e')) = tx_size (bstatus (um_common e)) + um_seg_bytes (um_sn_field_length e) s2"
      "events (um_common e') = events (um_common e)"
    and rx: "um_same_rx e e'"
    using seg True by (auto simp: um_tx_segment_def um_resegment_def Let_def um_compute_pdu_header_size_def n_def s2_def h_def
        um_tx_size_add_def um_same_rx_def um_seg_pdu_size_eq um_seg_bytes_def split: if_splits)
  have n: "0 < n" "n < seg_size s" "um_seg_bytes (um_sn_field_length e) s' = room"
    using rm True s' unfolding n_def by (auto simp: um_compute_pdu_header_size_def um_seg_pdu_size_def um_seg_bytes_def split: if_splits)
  have "segs_inv h (add_mset s' (add_mset s2 (mset (um_tx_list e) + L)))"
    unfolding h_def s' s2_def using n by (intro segs_inv_reseg [OF um_pendingD(2) [OF p]]) auto
  moreover have "um_cfg e'" using um_cfg_same [OF rx] um_pendingD(1) [OF p] by simp
  moreover have "um_sn_modulus e' = um_sn_modulus e" "um_sn_field_length e' = um_sn_field_length e"
    using rx by (simp_all add: um_same_rx_def)
  moreover have "seg_sn h s' = um_tx_next e"
  proof -
    have "seg_sn h s' = seg_sn h s" using s' by (simp add: sdu_of_def)
    then show ?thesis using um_pendingD(4) [OF p] by (simp add: h_def)
  qed
  ultimately have "um_pending s' L e'"
    using p n lst wh unfolding um_pending_def fld
    by (auto simp: s2_def s' whole_def end_of_def)
  with rx n fld show ?thesis by (auto simp: s' s2_def h_def)
qed

section \<open>Generation of a PDU\<close>

text \<open>The PDU of a segment: its header, then its bytes.\<close>

definition um_pdu_of :: "sdu_heap \<Rightarrow> int \<Rightarrow> int \<Rightarrow> segment \<Rightarrow> byte list \<Rightarrow> bool" where
  "um_pdu_of h len sn s pdu \<longleftrightarrow>
     (\<exists>hdr. pdu = hdr @ seg_data h s \<and> bytes_bits hdr = fields_bits (um_fields len sn s))"

text \<open>The PDU is written, then the segment is released.\<close>

lemma um_tx_send_ok:
  assumes p: "um_pending s L e" and fit: "um_seg_bytes (um_sn_field_length e) s \<le> int (length b)"
  shows "\<exists>n b' e'. um_tx_send t s b e = Inr (n, b', e') \<and> um_tx_inv L e' \<and> um_same_rx e e' \<and>
    n = um_seg_bytes (um_sn_field_length e) s \<and> length b' = length b \<and>
    um_pdu_of (um_heap e) (um_sn_field_length e) (um_tx_next e) s (take (nat n) b') \<and>
    um_tx_list e' = um_tx_list e \<and>
    um_tx_next e' = (if \<not> seg_is_first s \<and> seg_is_last s then (um_tx_next e + 1) mod um_sn_modulus e else um_tx_next e) \<and>
    (\<forall>t \<in> set (um_tx_list e). sdu_data (sdu_of (um_heap e') t) = sdu_data (sdu_of (um_heap e) t)) \<and>
    events (um_common e') = events (um_common e) \<and> um_tx_size e' = um_tx_size e - seg_size s \<and> um_tx_maxsize e' = um_tx_maxsize e"
proof -
  let ?len = "um_sn_field_length e" and ?l = "um_tx_list e"
  let ?m = "add_mset s (mset ?l + L)"
  define e1 where "e1 = (if \<not> seg_is_first s \<and> seg_is_last s
    then e\<lparr>um_tx_next := (um_tx_next e + 1) mod um_sn_modulus e\<rparr> else e)"
  have fld: "um_heap e1 = um_heap e" "um_tx_list e1 = ?l" "um_tx_end e1 = um_tx_end e" "um_sn_field_length e1 = ?len"
    "um_sn_modulus e1 = um_sn_modulus e" "um_tx_size e1 = um_tx_size e" "um_tx_maxsize e1 = um_tx_maxsize e"
    "um_common e1 = um_common e" "um_cfg e1 = um_cfg e" "um_same_rx e e1"
    "um_tx_next e1 = (if \<not> seg_is_first s \<and> seg_is_last s then (um_tx_next e + 1) mod um_sn_modulus e else um_tx_next e)"
    by (simp_all add: e1_def um_cfg_def um_same_rx_def)
  have v1: "um_valid_sn e1 (um_tx_next e1)"
    using um_pendingD(3) [OF p] by (simp add: fld)
  obtain hdr rest where ser: "um_serialize_sdu s b e1 = Inr (um_seg_bytes ?len s, hdr @ seg_data (um_heap e) s @ rest)"
    "length (hdr @ seg_data (um_heap e) s @ rest) = length b"
    "um_seg_bytes ?len s = int (length (hdr @ seg_data (um_heap e) s))"
    "bytes_bits hdr = fields_bits (um_fields ?len (um_tx_next e) s)"
    using um_serialize_ok [of e1 ?m s b] p fit unfolding um_pending_def fld by auto
  obtain r h' where fr: "nr_rlc_free_sdu_segment s (um_heap e) = (r, h')" by fastforce
  note f = segs_inv_free [OF um_pendingD(2) [OF p] fr]
  have keep: "sdu_data (sdu_of h' t) = sdu_data (sdu_of (um_heap e) t)" if "t \<in> set ?l" for t
    using free_segment_inv(3) [OF segs_invD(1) [OF um_pendingD(2) [OF p]] fr] that by (auto simp: same_sdu_def)
  define e' where "e' = e1\<lparr>um_tx_size := um_tx_size e1 - seg_size s,
    um_common := count_waiting_time t (sdu_of (um_heap e1) s)
      (count_pkts_bytes txpdu_pkts_update txpdu_bytes_update (int (length b)) (um_common e1)),
    um_heap := h'\<rparr>"
  have snd: "um_tx_send t s b e = Inr (um_seg_bytes ?len s, hdr @ seg_data (um_heap e) s @ rest, e')"
    unfolding um_tx_send_def e1_def [symmetric] e'_def using ser(1) fr by (simp add: fld)
  have sz: "0 \<le> seg_size s" using um_pendingD(5) [OF p] by (simp add: seg_ok_def)
  have "um_cfg e'" using um_pendingD(1) [OF p] fld by (simp add: e'_def um_cfg_def)
  then have "um_tx_inv L e'"
    using p f v1 sz unfolding um_pending_def um_tx_inv_def by (simp add: e'_def fld)
  moreover have "um_same_rx e e'" using fld(10) by (simp add: e'_def um_same_rx_def)
  moreover have "um_pdu_of (um_heap e) ?len (um_tx_next e) s (take (nat (um_seg_bytes ?len s)) (hdr @ seg_data (um_heap e) s @ rest))"
    unfolding um_pdu_of_def ser(3) using ser(4) by (intro exI [of _ hdr]) simp
  ultimately show ?thesis
    using snd ser(2) keep by (auto simp: e'_def fld)
qed

text \<open>What \<open>generate_tx_pdu\<close> does with the first segment of the list.\<close>

lemma um_generate_cases:
  assumes inv: "um_tx_inv L e" and tx: "um_tx_list e = s # rest"
    and room: "um_compute_pdu_header_size e s + 1 \<le> int (length b)"
  obtains (sent) n b' e' s' where "um_generate_tx_pdu t b e = Inr (n, b', e')" "um_tx_inv L e'" "um_same_rx e e'"
      "events (um_common e') = events (um_common e)" "length b' = length b" "0 < n" "n \<le> int (length b)"
      "um_pdu_of (um_heap e) (um_sn_field_length e) (um_tx_next e) s' (take (nat n) b')"
      "seg_sdu s' = seg_sdu s" "seg_so s' = seg_so s" "seg_is_first s' = seg_is_first s"
      "\<forall>t \<in> set (um_tx_list e'). sdu_data (sdu_of (um_heap e') t) = sdu_data (sdu_of (um_heap e) t)"
      "s' = s \<and> um_tx_list e' = rest \<and>
         um_tx_next e' = (if seg_is_first s then um_tx_next e else (um_tx_next e + 1) mod um_sn_modulus e) \<or>
       \<not> seg_is_last s' \<and> 0 < seg_size s' \<and> seg_size s' < seg_size s \<and> um_tx_next e' = um_tx_next e \<and>
         um_tx_list e' = s\<lparr>seg_size := seg_size s - seg_size s', seg_so := seg_so s + seg_size s', seg_is_first := False\<rparr> # rest"
      "um_tx_size e' = um_tx_size e - seg_size s'" "um_tx_maxsize e' = um_tx_maxsize e"
    | (lost) e' L' where "um_generate_tx_pdu t b e = Inr (0, b, e')" "um_tx_inv L' e'" "um_same_rx e e'"
      "whole s" "um_sn_field_length e = 12" "length b = 2" "2 \<le> seg_size s" "um_tx_list e' = rest"
proof -
  define e2 where "e2 = um_tx_size_add (- um_seg_pdu_size e s)
    (e\<lparr>um_tx_list := rest, um_tx_end := (if rest = [] then None else um_tx_end e),
       um_heap := heap_upd (seg_sdu s) (sdu_sn_update (\<lambda>_. um_tx_next e)) (um_heap e)\<rparr>)"
  note q = um_pop_tx [OF inv tx, folded e2_def]
  have len: "um_sn_field_length e2 = um_sn_field_length e" "um_sn_modulus e2 = um_sn_modulus e"
    using q(2) by (simp_all add: um_same_rx_def)
  have room2: "um_compute_pdu_header_size e2 s + 1 \<le> int (length b)"
    using room len by (simp add: um_compute_pdu_header_size_def)
  have gen: "um_generate_tx_pdu t b e = (case um_tx_segment s (int (length b)) e2 of
      (None, e3) \<Rightarrow> Inr (0, b, e3) | (Some s', e3) \<Rightarrow> um_tx_send t s' b e3)"
    unfolding um_generate_tx_pdu_def tx using room
    by (simp add: Let_def e2_def um_seg_pdu_size_eq)
  obtain r e3 where sg: "um_tx_segment s (int (length b)) e2 = (r, e3)" by fastforce
  show thesis
  proof (cases r)
    case None
    note l = um_tx_segment_lost [OF q(1,5) room2 sg [unfolded None]]
    then obtain L' where "um_tx_inv L' e3" by blast
    then show thesis
      using lost [OF _ _ um_same_rx_trans [OF q(2)]] l gen sg None q(3) len by simp
  next
    case (Some s')
    have "\<forall>t \<in> set (um_tx_list e2). whole t" using q(3,6) by simp
    note g = um_tx_segment_ok [OF q(1,5) room2 this sg [unfolded Some]]
    have len3: "um_sn_field_length e3 = um_sn_field_length e" "um_sn_modulus e3 = um_sn_modulus e"
      using g len by (simp_all add: um_same_rx_def)
    from g len3 len have "um_pending s' L e3" "um_seg_bytes (um_sn_field_length e3) s' \<le> int (length b)" by simp_all
    from um_tx_send_ok [OF this, of t] obtain n b' e' where o: "um_tx_send t s' b e3 = Inr (n, b', e')"
      "um_tx_inv L e'" "um_same_rx e3 e'" "n = um_seg_bytes (um_sn_field_length e3) s'" "length b' = length b"
      "um_pdu_of (um_heap e3) (um_sn_field_length e3) (um_tx_next e3) s' (take (nat n) b')"
      "um_tx_list e' = um_tx_list e3"
      "um_tx_next e' = (if \<not> seg_is_first s' \<and> seg_is_last s' then (um_tx_next e3 + 1) mod um_sn_modulus e3 else um_tx_next e3)"
      "\<forall>t \<in> set (um_tx_list e3). sdu_data (sdu_of (um_heap e') t) = sdu_data (sdu_of (um_heap e3) t)"
      "events (um_common e') = events (um_common e3)"
      "um_tx_size e' = um_tx_size e3 - seg_size s'" "um_tx_maxsize e' = um_tx_maxsize e3" by auto
    have dat: "sdu_data (sdu_of (um_heap e3) t) = sdu_data (sdu_of (um_heap e) t)" for t using g q(7) by simp
    have pdu: "um_pdu_of (um_heap e) (um_sn_field_length e) (um_tx_next e) s' (take (nat n) b')"
      using o(6) g q(4) len3 dat unfolding um_pdu_of_def seg_data_def by simp
    have "0 \<le> seg_size s'" using um_pendingD(5) [of s' L e3] g by (simp add: seg_ok_def)
    then have nb: "0 < n" "n \<le> int (length b)"
      using o(4) conjunct1 [OF conjunct2 [OF conjunct2 [OF g]]] len3 len by (simp_all add: um_seg_bytes_def)
    have run: "um_generate_tx_pdu t b e = Inr (n, b', e')" unfolding gen sg Some using o(1) by simp
    have rx: "um_same_rx e e'" using q(2) g o(3) um_same_rx_trans by meson
    have ev: "events (um_common e') = events (um_common e)" using o(10) g q(8) by simp
    have keep: "\<forall>t \<in> set (um_tx_list e'). sdu_data (sdu_of (um_heap e') t) = sdu_data (sdu_of (um_heap e) t)"
      using o(7,9) dat by simp
    show thesis
      by (rule sent [OF run o(2) rx ev o(5) nb pdu _ _ _ keep])
        (use g in simp_all, use o(7,8) g q(3,4,5) len3 in force, use o(11,12) g q(9,10) in simp_all)
  qed
qed

lemma um_generate_tx_pdu_inv:
  assumes inv: "um_tx_inv L e"
  shows "\<exists>n b' e' L'. um_generate_tx_pdu t b e = Inr (n, b', e') \<and> um_tx_inv L' e' \<and> um_same_rx e e' \<and>
    0 \<le> n \<and> n \<le> int (length b) \<and> length b' = length b"
proof (cases "um_tx_list e = [] \<or> um_compute_pdu_header_size e (hd (um_tx_list e)) + 1 > int (length b)")
  case True
  then have "um_generate_tx_pdu t b e = Inr (0, b, e)"
    by (cases "um_tx_list e") (auto simp: um_generate_tx_pdu_def Let_def)
  with inv show ?thesis by auto
next
  case False
  then obtain s rest where "um_tx_list e = s # rest" "um_compute_pdu_header_size e s + 1 \<le> int (length b)"
    by (cases "um_tx_list e") auto
  from inv this show ?thesis by (cases rule: um_generate_cases [where t = t]) force+
qed

end
