(* ===== verification/RlcUmMachine.thy ===== *)
theory RlcUmMachine
  imports RlcUmTx
begin

unbundle bit_operations_syntax

text \<open>
  The UM entity as a machine: discard and re-establishment, and that every run of operations completes
  and keeps the invariant of both halves.
\<close>

section \<open>Discard and re-establishment\<close>

lemma um_discard_sdu_inv:
  assumes inv: "um_tx_inv L e"
  shows "um_tx_inv L (nr_rlc_entity_um_discard_sdu i e) \<and> um_same_rx e (nr_rlc_entity_um_discard_sdu i e)"
proof -
  let ?o = "\<lambda>s. sdu_upper_layer_id (sdu_of (um_heap e) s) \<noteq> i"
  define front where "front = takeWhile ?o (um_tx_list e)"
  show ?thesis
  proof (cases "dropWhile ?o (um_tx_list e)")
    case Nil
    show ?thesis unfolding nr_rlc_entity_um_discard_sdu_def Let_def Nil using inv by simp
  next
    case (Cons cur after)
    show ?thesis
    proof (cases "whole cur")
      case False
      then show ?thesis unfolding nr_rlc_entity_um_discard_sdu_def Let_def Cons using inv by (simp add: whole_def)
    next
      case True
      have l: "um_tx_list e = front @ cur # after"
        unfolding front_def Cons [symmetric] by (rule takeWhile_dropWhile_id [symmetric])
      note d = um_tx_invD [OF inv, unfolded l]
      obtain b h' where fr: "nr_rlc_free_sdu_segment cur (um_heap e) = (b, h')" by fastforce
      define e' where "e' = (um_tx_size_add (- um_seg_bytes (um_sn_field_length e) cur)
        (e\<lparr>um_tx_list := front @ after, um_tx_end := (if um_tx_end e = Some cur then end_of front else um_tx_end e)\<rparr>))
        \<lparr>um_heap := h'\<rparr>"
      have run: "nr_rlc_entity_um_discard_sdu i e = e'"
        using True Cons fr
        by (simp add: nr_rlc_entity_um_discard_sdu_def Let_def whole_def front_def [symmetric] e'_def um_seg_pdu_size_eq
            um_tx_size_add_def)
      have rx: "um_same_rx e e'" by (simp add: e'_def um_tx_size_add_def um_same_rx_def)
      have "segs_inv (um_heap e) (add_mset cur (mset (front @ after) + L))" using d(2) by simp
      from segs_inv_free [OF this fr] have h: "segs_inv h' (mset (front @ after) + L)" .
      have "distinct (front @ cur # after)" using segs_inv_distinct [OF d(2)] .
      then have en: "(if end_of (front @ cur # after) = Some cur then end_of front else end_of (front @ cur # after)) =
          end_of (front @ after)"
        by (cases after rule: rev_cases) (auto simp: end_of_def)
      have sub: "set (tl (front @ after)) \<subseteq> set (tl (front @ cur # after))"
        by (cases front; cases after) auto
      have sz: "0 \<le> seg_size cur" using segs_invD(2) [OF d(2), of cur] by (simp add: seg_ok_def)
      have "um_cfg e'" using um_cfg_same [OF rx] d(1) by simp
      then have "um_tx_inv L e'"
        using d h en sub sz unfolding um_tx_inv_def
        by (auto simp: e'_def um_tx_size_add_def)
      with rx show ?thesis by (simp add: run)
    qed
  qed
qed

lemma um_clear_inv:
  assumes "um_tx_inv L e" and "um_rx_inv e" and "0 \<le> um_tx_maxsize e"
  shows "um_tx_inv L (um_clear_entity e) \<and> um_rx_inv (um_clear_entity e)"
proof -
  have c: "um_cfg (um_clear_entity e)" using um_tx_invD(1) [OF assms(1)] by (simp add: um_clear_entity_def um_cfg_def)
  have M: "0 < um_sn_modulus e" using um_cfgD(3) [OF um_tx_invD(1) [OF assms(1)]] .
  have "segs_inv (nr_rlc_free_sdu_segment_list (um_tx_list e) (um_heap e)) L"
    by (rule segs_inv_free_list [OF um_tx_invD(2) [OF assms(1)]])
  then have "um_tx_inv L (um_clear_entity e)"
    using c M assms(3) by (simp add: um_tx_inv_def) (simp add: um_clear_entity_def)
  moreover have "0 \<le> um_rx_maxsize e"
    using assms(2) rx_bytes_nonneg [of "um_rx_list e" "um_sn_modulus e"] by (simp add: um_rx_inv_but_def rx_inv_def)
  then have "um_rx_inv (um_clear_entity e)"
    using c M by (simp add: um_rx_inv_but_def) (simp add: um_clear_entity_def rx_ends_ok_def rx_bytes_def)
  ultimately show ?thesis by simp
qed

section \<open>The machine\<close>

definition um_inv :: "segment multiset \<Rightarrow> nr_rlc_entity_um \<Rightarrow> bool" where
  "um_inv L e \<longleftrightarrow> um_tx_inv L e \<and> um_rx_inv e \<and> 0 \<le> um_tx_maxsize e"

lemma um_inv_new:
  assumes "new_nr_rlc_entity_um rx_max tx_max t len = Inr e" and "0 \<le> rx_max" "0 \<le> tx_max"
  shows "um_inv {#} e"
proof -
  obtain c where c: "common_new NR_RLC_UM = Inr c" "tx_size (bstatus c) = 0"
    using common_new_Inr [of NR_RLC_UM] by blast
  have len: "len = 6 \<or> len = 12" using assms(1) by (auto simp: new_nr_rlc_entity_um_def split: if_splits)
  then show ?thesis
    using assms c
    by (auto simp: new_nr_rlc_entity_um_def um_inv_def um_tx_inv_def um_rx_inv_but_def um_cfg_def rx_ends_ok_def
        rx_bytes_def Let_def)
qed

text \<open>
  What the user owes the entity: SDUs of at most \<open>NR_SDU_MAX\<close> bytes (a larger one ends the process),
  and PDUs that do not contradict the end of an SDU that is already known.
\<close>

fun um_adm :: "rlc_op \<Rightarrow> nr_rlc_entity_um \<Rightarrow> bool" where
  "um_adm (RecvSdu b i) e \<longleftrightarrow> int (length b) \<le> NR_SDU_MAX"
| "um_adm (RecvPdu b) e \<longleftrightarrow> um_consistent b e"
| "um_adm (GeneratePdu b) e \<longleftrightarrow> True"
| "um_adm (SetTime now) e \<longleftrightarrow> True"
| "um_adm (DiscardSdu i) e \<longleftrightarrow> True"
| "um_adm Reestablishment e \<longleftrightarrow> True"

lemma um_inv_rx:
  "um_inv L e \<Longrightarrow> um_rx_inv e' \<Longrightarrow> um_same_tx e e' \<Longrightarrow> um_inv L e'"
  using um_tx_inv_same by (auto simp: um_inv_def um_same_tx_def)

lemma um_step_inv:
  assumes inv: "um_inv L e" and adm: "um_adm op e"
  shows "\<exists>e' L'. um_step t op e = Inr e' \<and> um_inv L' e'"
proof -
  have tx: "um_tx_inv L e" and rx: "um_rx_inv e" and mx: "0 \<le> um_tx_maxsize e" using inv by (simp_all add: um_inv_def)
  have mono: "0 \<le> um_tx_maxsize e'" if "um_tx_inv L' e'" for L' e'
  proof -
    have "0 \<le> um_payload (um_tx_list e')"
      unfolding um_payload_def by (rule sum_list_nonneg) (use segs_invD(2) [OF um_tx_invD(2) [OF that]] in \<open>auto simp: seg_ok_def\<close>)
    then show ?thesis using um_tx_invD(8,9) [OF that] by simp
  qed
  have keep: "um_inv L' e'" if "um_tx_inv L' e'" "um_same_rx e e'" for L' e'
    using that rx mono um_rx_inv_same by (simp add: um_inv_def)
  show ?thesis
  proof (cases op)
    case (RecvSdu b i)
    with um_recv_sdu_inv [OF tx, of b t i] adm keep show ?thesis by auto
  next
    case (RecvPdu b)
    with um_recv_pdu_inv [OF rx, of b] adm um_inv_rx [OF inv] show ?thesis by auto
  next
    case (GeneratePdu b)
    obtain n b' e' L' where "um_generate_tx_pdu t b e = Inr (n, b', e')" "um_tx_inv L' e'" "um_same_rx e e'"
      using um_generate_tx_pdu_inv [OF tx] by blast
    with GeneratePdu keep show ?thesis by (auto simp: nr_rlc_entity_um_generate_pdu_def)
  next
    case (SetTime now)
    with um_set_time_inv [OF rx, of now] um_inv_rx [OF inv] show ?thesis by auto
  next
    case (DiscardSdu i)
    with um_discard_sdu_inv [OF tx, of i] keep show ?thesis by auto
  next
    case Reestablishment
    with um_clear_inv [OF tx rx mx] mono show ?thesis
      by (auto simp: nr_rlc_entity_um_reestablishment_def um_inv_def)
  qed
qed

interpretation um: rlc_machine um_step "\<lambda>e. \<exists>L. um_inv L e" um_adm
  by unfold_locales (use um_step_inv in blast)

end
