(* ===== verification/RlcUmLink.thy ===== *)
theory RlcUmLink
  imports RlcUmMachine
begin

unbundle bit_operations_syntax

text \<open>
  Two UM entities and the link between them: what one generates, transport block by transport block,
  the other delivers in order, once and unchanged, while no PDU is lost.
\<close>

section \<open>What is sent is what is received\<close>

lemma um_fields_length:
  assumes "len = 6 \<or> len = 12" and "bytes_bits hdr = fields_bits (um_fields len sn s)"
  shows "int (length hdr) = um_seg_bytes len s - seg_size s"
proof -
  have "8 * length hdr = length (fields_bits (um_fields len sn s))" using assms(2) by (metis length_bytes_bits)
  then show ?thesis
    using assms(1) by (cases "seg_is_first s"; cases "seg_is_last s") (auto simp: um_fields_def um_seg_bytes_def)
qed

text \<open>The parser finds the fields of the header.\<close>

lemma um_parse_pdu:
  assumes len: "um_sn_field_length r = len" "len = 6 \<or> len = 12" and sn: "0 \<le> sn" "sn < 2 ^ nat len"
    and so: "0 \<le> seg_so s" "seg_so s < 65536" "seg_is_first s \<longleftrightarrow> seg_so s = 0"
    and pdu: "bytes_bits hdr = fields_bits (um_fields len sn s)" and data: "data \<noteq> []"
  shows "um_parse r (hdr @ data) = Inr (if whole s then UmWhole
    else UmSegment sn (seg_so s) (seg_is_first s) (seg_is_last s) (length hdr))"
proof -
  note step = R_bits_step [where ?'a = um_header]
  let ?f = "seg_is_first s" and ?l = "seg_is_last s" and ?d0 = "nr_rlc_pdu_decoder_init (hdr @ data)"
  have hl: "int (length hdr) = um_seg_bytes len s - seg_size s" by (rule um_fields_length [OF len(2) pdu])
  obtain t where t: "dec_rest ?d0 = [\<not> ?f, \<not> ?l] @ t" and
    tn: "\<not> whole s \<Longrightarrow> t = (if len = 12 then bits_of_val 2 0 else []) @ bits_of_val (nat len) sn @
      (if \<not> ?f then bits_of_val 16 (seg_so s) else []) @ bytes_bits data"
    using pdu by (auto simp: um_fields_def bits_of_val_1 whole_def)
  obtain d1 where d1: "dec_ok d1" "dec_rest d1 = t" "8 * dec_byte d1 + dec_bit d1 = 2"
    "\<And>err k. R_bits err ?d0 2 k = (k (2 * of_bool (\<not> ?f) + of_bool (\<not> ?l)) d1 :: um_header res)"
    using step [OF dec_ok_init t, of 2] by (auto simp: val_of_two_bits nr_rlc_pdu_decoder_init_def)
  have flags: "((2 * of_bool (\<not> ?f) + of_bool (\<not> ?l) :: int) AND 2 = 0) = ?f"
    "((2 * of_bool (\<not> ?f) + of_bool (\<not> ?l) :: int) AND 1 = 0) = ?l"
    by (cases ?f; cases ?l; simp)+
  have al: "dec_byte x = (8 * dec_byte x + dec_bit x) div 8" if "dec_ok x" for x using that by (simp add: dec_ok_def)
  show ?thesis
  proof (cases "whole s")
    case True
    then have "\<not> int (length (hdr @ data)) < 2" using hl data by (cases data) (auto simp: um_seg_bytes_def whole_def)
    with True show ?thesis unfolding um_parse_def Let_def d1(4) flags by (simp add: whole_def)
  next
    case False
    let ?t3 = "bits_of_val (nat len) sn @ (if \<not> ?f then bits_of_val 16 (seg_so s) else []) @ bytes_bits data"
    obtain d2 where d2: "dec_ok d2" "dec_rest d2 = ?t3" "8 * dec_byte d2 + dec_bit d2 = (if len = 12 then 4 else 2)"
      "\<And>err k. len = 12 \<Longrightarrow> R_bits err d1 2 k = (k 0 d2 :: um_header res)" "len \<noteq> 12 \<Longrightarrow> d2 = d1"
    proof (cases "len = 12")
      case True
      then show ?thesis using step [OF d1(1), of "bits_of_val 2 0" ?t3 2] d1(2,3) tn [OF False] that by auto
    next
      case l: False
      then show ?thesis using d1 tn [OF False] that [of d1] by simp
    qed
    have tb: "take_bit (nat len) sn = sn" using sn by (simp add: take_bit_int_eq_self)
    let ?t4 = "(if \<not> ?f then bits_of_val 16 (seg_so s) else []) @ bytes_bits data"
    obtain d3 where d3: "dec_ok d3" "dec_rest d3 = ?t4" "8 * dec_byte d3 + dec_bit d3 = (if len = 12 then 16 else 8)"
      "\<And>err k. R_bits err d2 len k = (k sn d3 :: um_header res)"
      using step [OF d2(1,2), of len] d2(3) len(2) tb by auto
    have d12: "R_bits err d2 12 k = (k sn d3 :: um_header res)" if "len = 12" for err k using d3(4) [of err k] that by simp
    have pl: "(if ?f \<and> ?l then a else b) = b" for a b :: "um_header res" using False by (auto simp: whole_def)
    show ?thesis
    proof (cases ?f)
      case True
      then show ?thesis
        using so(3) al [OF d3(1)] d3(3) hl False unfolding um_parse_def len(1) Let_def d1(4) flags pl
        by (cases "len = 12") (simp_all add: d2(4) d2(5) [symmetric] d3(4) d12 um_seg_bytes_def whole_def)
    next
      case nf: False
      have tb: "take_bit 16 (seg_so s) = seg_so s" using so by (simp add: take_bit_int_eq_self)
      obtain d4 where d4: "dec_ok d4" "8 * dec_byte d4 + dec_bit d4 = (if len = 12 then 32 else 24)"
        "\<And>err k. R_bits err d3 16 k = (k (seg_so s) d4 :: um_header res)"
        using step [OF d3(1), of "bits_of_val 16 (seg_so s)" "bytes_bits data" 16] d3(2,3) nf tb by auto
      then show ?thesis
        using so(3) al [OF d4(1)] nf hl unfolding um_parse_def len(1) Let_def d1(4) flags pl
        by (cases "len = 12") (simp_all add: d2(4) d2(5) [symmetric] d3(4) d12 um_seg_bytes_def whole_def)
    qed
  qed
qed

section \<open>Reception of a segment\<close>

text \<open>Completeness and delivery, as for the AM entity.\<close>

lemma um_rx_facts:
  assumes "um_rx_inv_but X e"
  shows "rx_inv (um_modulus_rx e) (um_sn_modulus e) (um_rx_list e)"
    "rx_pdu_ok (um_sn_modulus e) p \<Longrightarrow> um_valid_sn e (pdu_sn p)"
  using assms by (simp_all add: um_rx_inv_but_def rx_pdu_ok_def)

lemma um_full_iff:
  assumes inv: "um_rx_inv_but X e" and segs: "\<forall>p \<in> set (um_rx_list e). pdu_sn p = x \<longrightarrow> seg_of D p" and D: "D \<noteq> []"
  shows "um_sdu_full e x \<longleftrightarrow>
    (\<forall>i \<in> {0..<int (length D)}. \<exists>p \<in> set (um_rx_list e). pdu_sn p = x \<and> pdu_so p \<le> i \<and> i < pdu_so p + pdu_size p)"
  unfolding um_sdu_full_def by (rule um_rx.rx_full_iff [OF um_rx_facts [OF inv] segs D])

lemma um_delivers_full:
  assumes inv: "um_rx_inv e" and full: "um_sdu_full e x"
    and segs: "\<forall>p \<in> set (um_rx_list e). pdu_sn p = x \<longrightarrow> seg_of D p"
    and max: "int (length D) \<le> NR_SDU_MAX"
  shows "\<exists>e'. um_reassemble_and_deliver e x = Inr e' \<and> um_rx_inv e' \<and> um_sdu_delivered e' x \<and>
    um_rx_list e' = mark_delivered (pdu_size_update (\<lambda>_. 0)) x (um_rx_list e) \<and>
    um_rx_next_reassembly e' = um_rx_next_reassembly e \<and> um_rx_next_highest e' = um_rx_next_highest e \<and>
    um_same_tx e e' \<and> events (um_common e') = events (um_common e) @ [DeliverSdu D]"
proof -
  have f: "rx_sdu_full (um_rx_list e) x" using full by (simp add: um_sdu_full_def)
  note r = um_rx_facts [OF inv]
  obtain e' where e': "um_reassemble_and_deliver e x = Inr e'" "um_rx_inv e'" "um_same_tx e e'"
    "um_rx_list e' = mark_delivered (pdu_size_update (\<lambda>_. 0)) x (um_rx_list e)"
    "um_rx_next_reassembly e' = um_rx_next_reassembly e" "um_rx_next_highest e' = um_rx_next_highest e"
    "events (um_common e') = events (um_common e) @ [DeliverSdu D]"
    using um_reassemble_inv [OF inv full] um_rx.rx_full_data [OF r f segs] max by auto
  moreover have "um_sdu_delivered e' x"
    using um_rx.rx_delivered_mark [OF r clear_ok_simps(2)] um_rx.rx_full_block [OF r f] e'(4)
    by (simp add: um_sdu_delivered_def)
  ultimately show ?thesis by blast
qed

text \<open>
  The reception list has the first \<open>k\<close> bytes of the SDU \<open>D\<close>, with number \<open>x\<close>, and every other PDU of
  it was processed. \<open>room\<close> is the size of the SDUs there is room for.
\<close>

definition um_has :: "int \<Rightarrow> byte list \<Rightarrow> int \<Rightarrow> int \<Rightarrow> nr_rlc_entity_um \<Rightarrow> bool" where
  "um_has x D k room e \<longleftrightarrow> um_rx_inv_but {x} e \<and> um_rx_next_reassembly e = x \<and> um_valid_sn e x \<and>
     (\<forall>p \<in> set (um_rx_list e). if pdu_sn p = x then seg_of D p else pdu_data p = None) \<and>
     (\<forall>i. (\<exists>p \<in> set (um_rx_list e). pdu_sn p = x \<and> pdu_so p \<le> i \<and> i < pdu_so p + pdu_size p) \<longleftrightarrow> 0 \<le> i \<and> i < k) \<and>
     um_rx_size e - k + room \<le> um_rx_maxsize e \<and> rx_bytes (um_rx_list e) = k"

text \<open>
  The receiver between two PDUs. With \<open>k = 0\<close> it has nothing of the SDU, whatever \<open>D\<close> is, and
  \<open>rx_next_highest\<close> is still to move beyond \<open>x\<close>.
\<close>

definition um_holds :: "int \<Rightarrow> byte list \<Rightarrow> int \<Rightarrow> int \<Rightarrow> nr_rlc_entity_um \<Rightarrow> bool" where
  "um_holds x D k room e \<longleftrightarrow> um_has x D k room e \<and> um_rx_inv e \<and>
     um_rx_next_highest e = (if k = 0 then x else (x + 1) mod um_sn_modulus e)"

lemma um_timers_frame [simp]:
  "um_rx_list (um_rx_timer_start (um_rx_timer_stop e)) = um_rx_list e"
  "um_rx_size (um_rx_timer_start (um_rx_timer_stop e)) = um_rx_size e"
  "um_rx_maxsize (um_rx_timer_start (um_rx_timer_stop e)) = um_rx_maxsize e"
  "um_rx_next_reassembly (um_rx_timer_start (um_rx_timer_stop e)) = um_rx_next_reassembly e"
  "um_rx_next_highest (um_rx_timer_start (um_rx_timer_stop e)) = um_rx_next_highest e"
  "um_common (um_rx_timer_start (um_rx_timer_stop e)) = um_common e"
  "um_sn_modulus (um_rx_timer_start (um_rx_timer_stop e)) = um_sn_modulus e"
  "um_sn_field_length (um_rx_timer_start (um_rx_timer_stop e)) = um_sn_field_length e"
  by (simp_all add: um_rx_timer_start_def um_rx_timer_stop_def)

lemma rx_bytes_filter:
  "\<forall>p \<in> set l. \<not> P p \<longrightarrow> pdu_data p = None \<Longrightarrow> rx_bytes (filter P l) = rx_bytes l"
  by (induction l) (auto simp: rx_bytes_def)

lemma rx_bytes_none: "\<forall>p \<in> set l. pdu_data p = None \<Longrightarrow> rx_bytes l = 0"
  by (induction l) (auto simp: rx_bytes_def)

lemma um_has_facts:
  assumes "um_has x D k room e"
  shows "um_rx_inv_but {x} e" "um_cfg e" "um_rx_next_reassembly e = x" "um_valid_sn e x"
    "\<forall>p \<in> set (um_rx_list e). pdu_sn p = x \<longrightarrow> seg_of D p"
  using assms by (auto simp: um_has_def um_rx_inv_but_def)

lemma um_holds_start:
  assumes h: "um_holds x D 0 room e"
  shows "um_holds x D' 0 room e"
proof -
  have has: "um_has x D 0 room e" using h by (simp add: um_holds_def)
  have "pdu_sn p \<noteq> x" if p: "p \<in> set (um_rx_list e)" for p
  proof
    assume x: "pdu_sn p = x"
    then have "0 < pdu_size p" using um_has_facts(5) [OF has] p by (simp add: seg_of_def seg_data_ok_def)
    then have "\<exists>q \<in> set (um_rx_list e). pdu_sn q = x \<and> pdu_so q \<le> pdu_so p \<and> pdu_so p < pdu_so q + pdu_size q"
      using p x by auto
    with has have "0 \<le> pdu_so p \<and> pdu_so p < 0" unfolding um_has_def by blast
    then show False by linarith
  qed
  with h show ?thesis by (simp add: um_holds_def um_has_def)
qed

text \<open>The key of the number just below \<open>rx_next_highest\<close>.\<close>

lemma um_key_below:
  assumes "um_cfg e" and "um_rx_next_highest e = (x + 1) mod um_sn_modulus e"
  shows "um_modulus_rx e x = um_window_size e - 1"
proof -
  let ?w = "um_window_size e"
  have M: "um_sn_modulus e = 2 * ?w" "0 < ?w" using um_cfgD [OF assms(1)] by auto
  have "um_modulus_rx e x = (x - (x + 1) + ?w) mod (2 * ?w)"
    unfolding um_modulus_rx_key um_key_def assms(2) M(1)
    by (rule mod_add_cong [OF mod_diff_cong [OF refl mod_mod_trivial] refl])
  then show ?thesis using M by simp
qed

text \<open>The next bytes of the SDU enter the list.\<close>

lemma um_has_add:
  assumes h: "um_holds x D off room e" and off: "0 \<le> off" "0 < n" "off + n \<le> int (length D)"
    and part: "\<not> (off = 0 \<and> n = int (length D))" and D: "int (length D) \<le> room"
    and pdu: "pdu_sn pdu = x" "pdu_so pdu = off" "pdu_size pdu = n" "seg_of D pdu"
  defines "e1 \<equiv> e\<lparr>um_rx_size := um_rx_size e + pdu_size pdu,
    um_rx_list := nr_rlc_pdu_list_add (um_sn_compare_rx e) (um_rx_list e) pdu\<rparr>"
  shows "um_has x D (off + n) room e1"
    "\<not> um_modulus_rx e1 x < um_window_size e1 \<Longrightarrow> block (um_rx_list e1) x = [pdu]"
proof -
  have has: "um_has x D off room e" and inv: "um_rx_inv e" using h by (simp_all add: um_holds_def)
  note f = um_has_facts [OF has]
  have "um_rx_size e + pdu_size pdu \<le> um_rx_maxsize e" using has pdu(3) off D by (auto simp: um_has_def)
  moreover have "pdu_is_last pdu \<longrightarrow> 0 < pdu_so pdu" using pdu off part by (auto simp: seg_of_def pdu_end_def)
  moreover have "(pdu_is_last q \<longrightarrow> pdu_end pdu \<le> pdu_end q) \<and> (pdu_is_last pdu \<longrightarrow> pdu_end q \<le> pdu_end pdu)"
    if "q \<in> set (um_rx_list e)" "pdu_sn q = x" for q
    using f(5) that pdu(4) by (auto simp: seg_of_def)
  ultimately have i1: "um_rx_inv_but {x} e1"
    and i2: "\<not> um_modulus_rx e1 x < um_window_size e1 \<Longrightarrow> block (um_rx_list e1) x = [pdu]"
    using um_rx_add_inv [OF inv, of pdu] f(4) pdu unfolding e1_def by (auto simp: seg_of_def)
  have "(\<exists>p \<in> set (um_rx_list e1). pdu_sn p = x \<and> pdu_so p \<le> i \<and> i < pdu_so p + pdu_size p) \<longleftrightarrow>
      (off \<le> i \<and> i < off + n) \<or> (\<exists>p \<in> set (um_rx_list e). pdu_sn p = x \<and> pdu_so p \<le> i \<and> i < pdu_so p + pdu_size p)" for i
    using pdu by (auto simp: e1_def)
  moreover have "(off \<le> i \<and> i < off + n) \<or> (0 \<le> i \<and> i < off) \<longleftrightarrow> 0 \<le> i \<and> i < off + n" for i using off by auto
  moreover have "rx_bytes (um_rx_list e1) = off + n"
    using has pdu by (auto simp: e1_def rx_bytes_add um_has_def seg_of_def)
  ultimately show "um_has x D (off + n) room e1"
    using has i1 pdu unfolding um_has_def by (simp add: e1_def)
  show "block (um_rx_list e1) x = [pdu]" if "\<not> um_modulus_rx e1 x < um_window_size e1" using that by (rule i2)
qed

lemma um_has_full:
  assumes "um_has x D k room e" and "0 < k" "k \<le> int (length D)"
  shows "um_sdu_full e x \<longleftrightarrow> k = int (length D)"
proof -
  have "D \<noteq> []" using assms by auto
  note full = um_full_iff [OF um_has_facts(1,5) [OF assms(1)] this]
  have "um_sdu_full e x \<longleftrightarrow> (\<forall>i \<in> {0..<int (length D)}. 0 \<le> i \<and> i < k)"
    unfolding full using assms(1) unfolding um_has_def by blast
  also have "\<dots> \<longleftrightarrow> k = int (length D)" using assms(2,3) by force
  finally show ?thesis .
qed

text \<open>The SDU is complete: it is delivered, and the next number is expected.\<close>

lemma um_has_deliver:
  assumes has: "um_has x D k room e" and inv: "um_rx_inv e" and full: "um_sdu_full e x"
    and hi: "um_rx_next_highest e = (x + 1) mod um_sn_modulus e" and D: "int (length D) \<le> NR_SDU_MAX"
  shows "\<exists>e'. um_rx_full x e = Inr e' \<and> um_same_tx e e' \<and> um_holds ((x + 1) mod um_sn_modulus e) D' 0 room e' \<and>
    events (um_common e') = events (um_common e) @ [DeliverSdu D]"
proof -
  let ?M = "um_sn_modulus e" and ?md = "mark_delivered (pdu_size_update (\<lambda>_. 0)) x (um_rx_list e)"
  note f = um_has_facts [OF has]
  obtain e1 where e1: "um_reassemble_and_deliver e x = Inr e1" "um_rx_inv e1" "um_sdu_delivered e1 x"
    "um_rx_list e1 = ?md" "um_rx_next_reassembly e1 = x" "um_rx_next_highest e1 = (x + 1) mod ?M"
    "um_same_tx e e1" "events (um_common e1) = events (um_common e) @ [DeliverSdu D]"
    using um_delivers_full [OF inv full f(5) D] f(3) hi by auto
  have acc: "um_rx_size e1 - rx_bytes (um_rx_list e1) = um_rx_size e - rx_bytes (um_rx_list e)" "um_rx_maxsize e1 = um_rx_maxsize e"
    using um_reassemble_inv [OF inv full] e1(1) by auto
  have M: "um_sn_modulus e1 = ?M" "0 < ?M" using e1(7) um_cfgD(3) [OF f(2)] by (simp_all add: um_same_tx_def)
  have none: "\<forall>p \<in> set ?md. pdu_data p = None" using has by (auto simp: um_has_def mark_delivered_def)
  have win: "\<forall>p \<in> set ?md. pdu_sn p \<noteq> (x + 1) mod ?M"
    using e1(2,4,6) um_key_highest [of e1] by (auto simp: um_rx_inv_but_def)
  then have nd: "\<not> rx_sdu_delivered ?md ((x + 1) mod ?M)" using rx_delivered_in by blast
  obtain m where m: "nat ?M = Suc m" using M(2) by (cases "nat ?M") auto
  have "skip_delivered ?md ?M x = Inr ((x + 1) mod ?M)"
    using e1(3) nd unfolding skip_delivered_def m um_sdu_delivered_def e1(4) by simp
  then have "um_rx_full x e = Inr (e1\<lparr>um_rx_next_reassembly := (x + 1) mod ?M\<rparr>)"
    using e1(1,4,5) M by (simp add: um_rx_full_def)
  moreover have "um_rx_inv_but X (e1\<lparr>um_rx_next_reassembly := (x + 1) mod ?M\<rparr>)" for X
    using e1(2) M by (simp add: um_rx_inv_but_def)
  moreover have "rx_bytes ?md = 0" by (rule rx_bytes_none [OF none])
  ultimately show ?thesis
    using e1 none win acc has M unfolding um_holds_def um_has_def
    by (intro exI [of _ "e1\<lparr>um_rx_next_reassembly := (x + 1) mod ?M\<rparr>"]) (auto simp: um_same_tx_def)
qed

text \<open>The first segment of an SDU moves the window, later ones find it there.\<close>

lemma um_has_first:
  assumes has: "um_has x D k room e" and k: "0 < k" and hi: "um_rx_next_highest e = x"
  shows "\<exists>e'. um_rx_not_full x e = Inr e' \<and> um_same_tx e e' \<and> um_holds x D k room e' \<and>
    events (um_common e') = events (um_common e)"
proof -
  let ?M = "um_sn_modulus e" and ?w = "um_window_size e"
  note f = um_has_facts [OF has]
  have key: "um_modulus_rx e x = ?w" "0 < ?w" using um_key_highest [OF f(2)] hi um_cfgD(1) [OF f(2)] by simp_all
  define e1 where "e1 = um_discard_out_of_window (e\<lparr>um_rx_next_highest := (x + 1) mod ?M\<rparr>)"
  have e1: "um_rx_inv e1" "um_same_tx e e1" "um_rx_next_highest e1 = (x + 1) mod ?M" "um_rx_next_reassembly e1 = x"
    "um_rx_size e1 - rx_bytes (um_rx_list e1) = um_rx_size e - rx_bytes (um_rx_list e)" "um_rx_maxsize e1 = um_rx_maxsize e"
    "events (um_common e1) = events (um_common e)"
    "um_rx_list e1 = filter (\<lambda>p. um_modulus_rx e (pdu_sn p) > 0) (um_rx_list e)"
    using um_advance_inv [OF f(1,4)] unfolding e1_def [symmetric] key f(3) by auto
  have M1: "um_sn_modulus e1 = ?M" "um_cfg e1" using e1(1,2) by (simp_all add: um_same_tx_def um_rx_inv_but_def)
  have "um_sn_compare_rx e1 (um_rx_next_reassembly e1) (um_rx_next_highest e1) < 0"
    using um_key_below [OF M1(2)] e1(3,4) M1 um_key_highest [OF M1(2)] by (simp add: um_compare_rx_eq)
  then have run: "um_rx_not_full x e = Inr e1"
    using key hi unfolding um_rx_not_full_def e1_def [symmetric] Let_def by (simp add: um_compare_rx_eq)
  have kept: "p \<in> set (um_rx_list e1) \<longleftrightarrow> p \<in> set (um_rx_list e)" if "pdu_sn p = x" for p
    using that key by (simp add: e1(8))
  have "rx_bytes (um_rx_list e1) = rx_bytes (um_rx_list e)"
    unfolding e1(8) using has key by (intro rx_bytes_filter) (auto simp: um_has_def split: if_splits)
  moreover have "um_rx_inv_but {x} e1" using e1(1) by (simp add: um_rx_inv_but_def)
  moreover have "(\<exists>p \<in> set (um_rx_list e1). pdu_sn p = x \<and> P p) \<longleftrightarrow> (\<exists>p \<in> set (um_rx_list e). pdu_sn p = x \<and> P p)" for P
    using kept by blast
  moreover have "\<forall>p \<in> set (um_rx_list e1). if pdu_sn p = x then seg_of D p else pdu_data p = None"
    using has by (simp add: e1(8) um_has_def)
  ultimately have "um_holds x D k room e1"
    using has e1(1-6) M1 k f(4) unfolding um_holds_def um_has_def by simp
  with run e1(2,7) show ?thesis by blast
qed

lemma um_has_next:
  assumes has: "um_has x D k room e" and k: "0 < k" and hi: "um_rx_next_highest e = (x + 1) mod um_sn_modulus e"
  shows "um_rx_inv e" "um_rx_not_full x e = Inr e" "um_holds x D k room e"
proof -
  note f = um_has_facts [OF has]
  have key: "um_modulus_rx e x < um_window_size e" using um_key_below [OF f(2) hi] by simp
  with f(1) show inv: "um_rx_inv e" by (auto simp: um_rx_inv_but_def)
  show "um_rx_not_full x e = Inr e"
    using key um_key_highest [OF f(2)] by (simp add: um_rx_not_full_def um_compare_rx_eq)
  show "um_holds x D k room e" using has inv hi k by (simp add: um_holds_def)
qed

text \<open>The next bytes of the SDU arrive.\<close>

lemma um_holds_step:
  assumes h: "um_holds x D off room e" and off: "0 \<le> off" "0 < n" "off + n \<le> int (length D)"
    and part: "\<not> (off = 0 \<and> n = int (length D))" and D: "int (length D) \<le> NR_SDU_MAX" "int (length D) \<le> room"
    and b: "drop hdr b = take (nat n) (drop (nat off) D)" and l: "is_last \<longleftrightarrow> off + n = int (length D)"
  shows "\<exists>e'. um_rx_data b x off is_first is_last hdr e = Inr e' \<and> um_same_tx e e' \<and>
    (if off + n = int (length D)
     then um_holds ((x + 1) mod um_sn_modulus e) D' 0 room e' \<and> events (um_common e') = events (um_common e) @ [DeliverSdu D]
     else um_holds x D (off + n) room e' \<and> events (um_common e') = events (um_common e))"
proof -
  define pdu where "pdu = nr_rlc_new_pdu x off is_first is_last (drop hdr b)"
  define e1 where "e1 = e\<lparr>um_rx_size := um_rx_size e + pdu_size pdu,
    um_rx_list := nr_rlc_pdu_list_add (um_sn_compare_rx e) (um_rx_list e) pdu\<rparr>"
  have len: "int (length (drop hdr b)) = n" unfolding b using off by simp
  then have hdr: "hdr < length b" "int (length b - hdr) = n" using off(2) by auto
  have pdu: "pdu_sn pdu = x" "pdu_so pdu = off" "pdu_size pdu = n" "seg_of D pdu"
    using len off l b by (simp_all add: pdu_def nr_rlc_new_pdu_def seg_of_def seg_data_ok_def pdu_end_def)
  have has: "um_has x D (off + n) room e1" and new: "\<not> um_modulus_rx e1 x < um_window_size e1 \<Longrightarrow> block (um_rx_list e1) x = [pdu]"
    using um_has_add [OF h off part D(2) pdu] by (simp_all add: e1_def)
  have e0: "um_has x D off room e" "um_rx_next_highest e = (if off = 0 then x else (x + 1) mod um_sn_modulus e)"
    using h by (simp_all add: um_holds_def)
  have e1: "um_same_tx e e1" "um_sn_modulus e1 = um_sn_modulus e" "events (um_common e1) = events (um_common e)"
    "um_rx_next_highest e1 = um_rx_next_highest e" by (simp_all add: e1_def um_same_tx_def)
  have full: "um_sdu_full e1 x \<longleftrightarrow> off + n = int (length D)" using um_has_full [OF has] off by simp
  have "um_rx_size e + n \<le> um_rx_maxsize e" using e0(1) off D(2) by (auto simp: um_has_def)
  then have "um_rx_data b x off is_first is_last hdr e = um_reception_actions e1 pdu"
    using um_rx_data_eq [of hdr b e x off is_first is_last] hdr um_has_facts(3) [OF e0(1)]
    by (simp add: e1_def pdu_def Let_def um_compare_rx_eq)
  then have run: "um_rx_data b x off is_first is_last hdr e = res_bind
    (if off + n = int (length D) then um_rx_full x e1 else um_rx_not_full x e1) (\<lambda>e2. Inr (um_rx_timer_start (um_rx_timer_stop e2)))"
    by (simp add: um_reception_actions_def pdu full)
  have "\<exists>e2. (if off + n = int (length D) then um_rx_full x e1 else um_rx_not_full x e1) = Inr e2 \<and> um_same_tx e1 e2 \<and>
    (if off + n = int (length D)
     then um_holds ((x + 1) mod um_sn_modulus e1) D' 0 room e2 \<and> events (um_common e2) = events (um_common e1) @ [DeliverSdu D]
     else um_holds x D (off + n) room e2 \<and> events (um_common e2) = events (um_common e1))"
  proof (cases "off = 0")
    case True
    then show ?thesis using um_has_first [OF has] e0(2) e1 off part by simp
  next
    case False
    then have "um_rx_next_highest e1 = (x + 1) mod um_sn_modulus e1" using e0(2) e1 by simp
    with um_has_next [OF has _ this] um_has_deliver [OF has _ _ this D(1), of D'] full off show ?thesis by auto
  qed
  then obtain e2 where e2: "(if off + n = int (length D) then um_rx_full x e1 else um_rx_not_full x e1) = Inr e2" "um_same_tx e e2"
    "if off + n = int (length D)
     then um_holds ((x + 1) mod um_sn_modulus e) D' 0 room e2 \<and> events (um_common e2) = events (um_common e) @ [DeliverSdu D]
     else um_holds x D (off + n) room e2 \<and> events (um_common e2) = events (um_common e)"
    unfolding e1 using e1(1) um_same_tx_trans by blast
  have "um_rx_inv e2" using e2(3) by (auto simp: um_holds_def split: if_splits)
  note tm = um_rx_timers_inv [OF this]
  then have "um_holds y E k room (um_rx_timer_start (um_rx_timer_stop e2)) = um_holds y E k room e2" if "um_holds y E k room e2" for y E k
    using that by (simp add: um_holds_def um_has_def) (simp add: um_rx_inv_but_def)
  then show ?thesis
    unfolding run e2(1) using e2(2,3) tm by (auto intro: um_same_tx_trans split: if_splits)
qed

end
