(* ===== verification/RlcUmStream.thy ===== *)
theory RlcUmStream
  imports RlcUmLink
begin

text \<open>
  A sender and a receiver in unacknowledged mode, joined by a link that hands over every transport
  block: the receiver delivers what the sender was given, in order, once and unchanged.
\<close>

section \<open>The link\<close>

text \<open>MAC asks the sender for a PDU of at most \<open>n\<close> bytes, for each \<open>n\<close> of a list, and passes it on.\<close>

fun um_transfer :: "nat list \<Rightarrow> nr_rlc_entity_um \<Rightarrow> nr_rlc_entity_um \<Rightarrow> (nr_rlc_entity_um \<times> nr_rlc_entity_um) res" where
  "um_transfer [] es er = Inr (es, er)"
| "um_transfer (n # ns) es er =
     res_bind (nr_rlc_entity_um_generate_pdu 0 (replicate n 0) es) (\<lambda>(m, b, es').
     if m = 0 then um_transfer ns es' er
     else res_bind (nr_rlc_entity_um_recv_pdu (take (nat m) b) er) (um_transfer ns es'))"

text \<open>The SDUs the sender still has to send, the first of them maybe in part.\<close>

definition um_queued :: "nr_rlc_entity_um \<Rightarrow> byte list list" where
  "um_queued e = map (\<lambda>s. sdu_data (sdu_of (um_heap e) s)) (um_tx_list e)"

definition um_head_so :: "nr_rlc_entity_um \<Rightarrow> int" where
  "um_head_so e = (case um_tx_list e of [] \<Rightarrow> 0 | s # _ \<Rightarrow> seg_so s)"

definition um_linked :: "int \<Rightarrow> nr_rlc_entity_um \<Rightarrow> nr_rlc_entity_um \<Rightarrow> bool" where
  "um_linked room es er \<longleftrightarrow> (\<exists>L. um_tx_inv L es) \<and> um_sn_field_length er = um_sn_field_length es \<and>
     (\<forall>s \<in> set (um_tx_list es). 0 < seg_size s) \<and> um_tx_size es = um_payload (um_tx_list es) \<and>
     (\<forall>D \<in> set (um_queued es). int (length D) \<le> NR_SDU_MAX \<and> int (length D) \<le> room) \<and>
     um_holds (um_tx_next es) (hd (um_queued es @ [[]])) (um_head_so es) room er"

lemma um_holds_common [simp]: "um_holds x D k room (e\<lparr>um_common := c\<rparr>) = um_holds x D k room e"
  by (simp add: um_holds_def um_has_def)

lemma um_head_so_whole: "um_tx_inv L e \<Longrightarrow> \<forall>s \<in> set (um_tx_list e). whole s \<Longrightarrow> um_head_so e = 0"
  using segs_invD(2) [OF um_tx_invD(2), of L e]
  by (cases "um_tx_list e") (auto simp: um_head_so_def whole_def seg_ok_def)

lemma um_seg_data_ne: "segs_inv h M \<Longrightarrow> s \<in># M \<Longrightarrow> 0 < seg_size s \<Longrightarrow> seg_data h s \<noteq> []"
  using segs_inv_slice(2) [of h M s] by (auto simp: seg_data_def)

text \<open>The receiver gets the PDU of a segment.\<close>

lemma um_recv_segment:
  assumes h: "um_holds x D (seg_so s) room er" and cfg: "um_sn_field_length er = len"
    and pdu: "um_pdu_of hp len x s q" and D: "sdu_data (sdu_of hp s) = D" "int (length D) \<le> NR_SDU_MAX" "int (length D) \<le> room"
    and s: "0 \<le> seg_so s" "0 < seg_size s" "seg_so s + seg_size s \<le> int (length D)"
      "seg_is_first s \<longleftrightarrow> seg_so s = 0" "seg_is_last s \<longleftrightarrow> seg_so s + seg_size s = int (length D)"
  shows "\<exists>er'. nr_rlc_entity_um_recv_pdu q er = Inr er' \<and> um_same_tx er er' \<and>
    (if seg_is_last s
     then um_holds (if seg_is_first s then x else (x + 1) mod um_sn_modulus er) D' 0 room er' \<and>
       events (um_common er') = events (um_common er) @ [DeliverSdu D]
     else um_holds x D (seg_so s + seg_size s) room er' \<and> events (um_common er') = events (um_common er))"
proof -
  have has: "um_has x D (seg_so s) room er" using h by (simp add: um_holds_def)
  note f = um_has_facts [OF has]
  obtain hdr where q: "q = hdr @ seg_data hp s" "bytes_bits hdr = fields_bits (um_fields len x s)"
    using pdu by (auto simp: um_pdu_of_def)
  have len: "len = 6 \<or> len = 12" "x < 2 ^ nat len" using um_cfgD(4,5) [OF f(2)] cfg f(4) by auto
  have data: "seg_data hp s = take (nat (seg_size s)) (drop (nat (seg_so s)) D)" by (simp add: seg_data_def D)
  then have ne: "seg_data hp s \<noteq> []" using s by simp
  have "seg_so s < 65536" using s D by (simp add: NR_SDU_MAX_def)
  then have parse: "um_parse er q = Inr (if whole s then UmWhole
      else UmSegment x (seg_so s) (seg_is_first s) (seg_is_last s) (length hdr))"
    unfolding q(1) using um_parse_pdu [OF cfg len(1) _ len(2) s(1) _ s(4) q(2) ne] f(4) by simp
  define er1 where "er1 = um_count_rx q er"
  have h1: "um_holds y E k room er1 = um_holds y E k room er" "um_same_tx er er1" "um_sn_modulus er1 = um_sn_modulus er"
    "events (um_common er1) = events (um_common er)" for y E k
    by (simp_all add: er1_def um_count_rx_def um_same_tx_def)
  show ?thesis
  proof (cases "whole s")
    case True
    then have w: "seg_so s = 0" "seg_size s = int (length D)" "seg_is_first s" "seg_is_last s" using s by (auto simp: whole_def)
    then have "int (length hdr) = 1" using um_fields_length [OF len(1) q(2)] by (simp add: um_seg_bytes_def)
    then have "drop 1 q = D" using w by (simp add: q(1) data)
    then have "nr_rlc_entity_um_recv_pdu q er = Inr (um_deliver D er1)"
      using parse True by (simp add: um_recv_parse er1_def)
    moreover have "um_holds x D' 0 room (um_deliver D er1)" using um_holds_start [of x D room er D'] h h1(1) w by (simp add: um_deliver_def)
    moreover have "um_same_tx er (um_deliver D er1)" "events (um_common (um_deliver D er1)) = events (um_common er) @ [DeliverSdu D]"
      using h1(2,4) by (simp_all add: um_deliver_def um_same_tx_def)
    ultimately show ?thesis using w by simp
  next
    case False
    then have part: "\<not> (seg_so s = 0 \<and> seg_size s = int (length D))" "\<not> (seg_is_first s \<and> seg_is_last s)"
      using s by (auto simp: whole_def)
    have "drop (length hdr) q = take (nat (seg_size s)) (drop (nat (seg_so s)) D)" by (simp add: q(1) data)
    from um_holds_step [OF _ s(1-3) part(1) D(2,3) this s(5), of x er1 "seg_is_first s" D'] h h1(1)
    obtain er' where er': "um_rx_data q x (seg_so s) (seg_is_first s) (seg_is_last s) (length hdr) er1 = Inr er'" "um_same_tx er1 er'"
      "if seg_so s + seg_size s = int (length D)
       then um_holds ((x + 1) mod um_sn_modulus er1) D' 0 room er' \<and> events (um_common er') = events (um_common er1) @ [DeliverSdu D]
       else um_holds x D (seg_so s + seg_size s) room er' \<and> events (um_common er') = events (um_common er1)" by auto
    have "nr_rlc_entity_um_recv_pdu q er = Inr er'"
      using parse False er'(1) by (simp add: um_recv_parse er1_def)
    moreover have "um_same_tx er er'" using h1(2) er'(2) um_same_tx_trans by blast
    ultimately show ?thesis using er'(3) s(5) part(2) unfolding h1(3,4) by auto
  qed
qed

text \<open>
  One transport block of at least three bytes: at most one SDU is completed, and with five bytes or
  more some payload leaves the queue.
\<close>

definition um_block :: "nat \<Rightarrow> nr_rlc_entity_um \<Rightarrow> nr_rlc_entity_um \<Rightarrow> (nr_rlc_entity_um \<times> nr_rlc_entity_um) res" where
  "um_block n es er =
     res_bind (nr_rlc_entity_um_generate_pdu 0 (replicate n 0) es) (\<lambda>(m, b, es').
     if m = 0 then Inr (es', er)
     else res_bind (nr_rlc_entity_um_recv_pdu (take (nat m) b) er) (\<lambda>er'. Inr (es', er')))"

lemma um_transfer_Cons: "um_transfer (n # ns) es er = res_bind (um_block n es er) (\<lambda>(es', er'). um_transfer ns es' er')"
  by (simp add: um_block_def res_bind_def split: sum.split prod.split)

lemma um_block_idle:
  assumes "um_tx_list es = [] \<or> um_compute_pdu_header_size es (hd (um_tx_list es)) + 1 > int n"
  shows "um_block n es er = Inr (es, er)"
  using assms
  by (cases "um_tx_list es") (auto simp: um_block_def nr_rlc_entity_um_generate_pdu_def um_generate_tx_pdu_def Let_def)

lemma um_linked_step:
  assumes l: "um_linked room es er" and n: "3 \<le> n"
  shows "\<exists>es' er' k. um_block n es er = Inr (es', er') \<and> um_linked room es' er' \<and>
    um_queued es' = drop k (um_queued es) \<and>
    events (um_common er') = events (um_common er) @ map DeliverSdu (take k (um_queued es)) \<and>
    (5 \<le> n \<and> um_tx_list es \<noteq> [] \<longrightarrow> um_payload (um_tx_list es') < um_payload (um_tx_list es)) \<and>
    um_tx_maxsize es' = um_tx_maxsize es \<and> (k = 0 \<longrightarrow> um_head_so es \<le> um_head_so es')"
proof (cases "um_tx_list es = [] \<or> um_compute_pdu_header_size es (hd (um_tx_list es)) + 1 > int n")
  case True
  then have "um_tx_list es = []" if "5 \<le> n" using that by (auto simp: um_compute_pdu_header_size_def split: if_splits)
  with um_block_idle [OF True, of er] l show ?thesis by (intro exI [of _ es] exI [of _ er] exI [of _ 0]) auto
next
  case False
  then obtain s rest where tx: "um_tx_list es = s # rest" and room: "um_compute_pdu_header_size es s + 1 \<le> int n"
    by (cases "um_tx_list es") auto
  obtain L where inv: "um_tx_inv L es" using l by (auto simp: um_linked_def)
  define D where "D = sdu_data (sdu_of (um_heap es) s)"
  have "seg_ok (um_heap es) (mset (um_tx_list es) + L) s" "seg_is_last s"
    using segs_invD(2) [OF um_tx_invD(2) [OF inv]] um_tx_invD(5) [OF inv] tx by simp_all
  then have s: "0 \<le> seg_so s" "seg_so s + seg_size s = int (length D)" "seg_is_first s \<longleftrightarrow> seg_so s = 0" "seg_is_last s"
    by (auto simp: seg_ok_def D_def)
  have sz: "um_tx_size es = um_payload (um_tx_list es)" using l by (simp add: um_linked_def)
  have lk: "um_sn_field_length er = um_sn_field_length es" "\<forall>s \<in> set (um_tx_list es). 0 < seg_size s"
    "\<forall>D \<in> set (um_queued es). int (length D) \<le> NR_SDU_MAX \<and> int (length D) \<le> room"
    "um_holds (um_tx_next es) D (seg_so s) room er"
    using l tx by (auto simp: um_linked_def um_queued_def D_def um_head_so_def)
  have DD: "int (length D) \<le> NR_SDU_MAX" "int (length D) \<le> room" "0 < seg_size s"
    using lk(2,3) tx by (auto simp: um_queued_def D_def)
  have cfgr: "um_cfg er" using um_has_facts(2) lk(4) by (auto simp: um_holds_def)
  have M: "um_sn_modulus er = um_sn_modulus es" using um_cfgD(5) [OF um_tx_invD(1) [OF inv]] um_cfgD(5) [OF cfgr] lk(1) by simp
  have room': "um_compute_pdu_header_size es s + 1 \<le> int (length (replicate n (0 :: byte)))" using room by simp
  from inv tx room' show ?thesis
  proof (cases rule: um_generate_cases [where t = 0])
    case lost
    then show ?thesis using n by simp
  next
    case (sent m b' es' s')
    let ?q = "take (nat m) b'"
    have s': "seg_so s' = seg_so s" "seg_is_first s' \<longleftrightarrow> seg_so s' = 0" "sdu_data (sdu_of (um_heap es) s') = D"
      using sent(9-11) s sdu_of_cong [OF sent(9)] by (simp_all add: D_def)
    have part: "0 < seg_size s'" "seg_so s' + seg_size s' \<le> int (length D)"
      "seg_is_last s' \<longleftrightarrow> seg_so s' + seg_size s' = int (length D)"
      using sent(13) s s' DD(3) by auto
    have hr: "um_holds (um_tx_next es) D (seg_so s') room er" using lk(4) s'(1) by simp
    define D' where "D' = hd (um_queued es' @ [[]])"
    obtain er' where er': "nr_rlc_entity_um_recv_pdu ?q er = Inr er'" "um_same_tx er er'"
      "if seg_is_last s'
       then um_holds (if seg_is_first s' then um_tx_next es else (um_tx_next es + 1) mod um_sn_modulus er) D' 0 room er' \<and>
         events (um_common er') = events (um_common er) @ [DeliverSdu D]
       else um_holds (um_tx_next es) D (seg_so s' + seg_size s') room er' \<and> events (um_common er') = events (um_common er)"
      using um_recv_segment [OF hr lk(1) sent(8) s'(3) DD(1,2) _ part(1,2) s'(2) part(3), of D'] s(1) s'(1) by auto
    have blk: "um_block n es er = Inr (es', er')"
      using sent(1,6) er'(1) by (simp add: um_block_def nr_rlc_entity_um_generate_pdu_def)
    have len: "um_sn_field_length er' = um_sn_field_length es'"
      using er'(2) sent(3) lk(1) by (simp add: um_same_tx_def um_same_rx_def)
    show ?thesis
    proof (cases "seg_is_last s'")
      case True
      with sent(13) have e': "s' = s" "um_tx_list es' = rest"
        "um_tx_next es' = (if seg_is_first s then um_tx_next es else (um_tx_next es + 1) mod um_sn_modulus es)" by auto
      have q': "um_queued es' = drop 1 (um_queued es)" using sent(12) e'(2) tx by (simp add: um_queued_def)
      have "um_head_so es' = 0"
        using um_head_so_whole [OF sent(2)] um_tx_invD(5,6) [OF inv] e'(2) tx by (auto simp: whole_def)
      then have "um_linked room es' er'"
        using sent(2,14) sz len lk(2,3) er'(3) True e' M q' tx in_set_dropD [of _ 1 "um_queued es"]
        unfolding um_linked_def D'_def by auto
      moreover have "take 1 (um_queued es) = [D]" using tx by (simp add: um_queued_def D_def)
      moreover have "events (um_common er') = events (um_common er) @ [DeliverSdu D]" using er'(3) True by simp
      ultimately show ?thesis
        using blk q' e'(2) tx DD(3) sent(15) by (intro exI [of _ es'] exI [of _ er'] exI [of _ 1]) simp
    next
      case False
      define s2 where "s2 = s\<lparr>seg_size := seg_size s - seg_size s', seg_so := seg_so s + seg_size s', seg_is_first := False\<rparr>"
      from False sent(13) s(4) have e': "um_tx_list es' = s2 # rest" "0 < seg_size s'" "seg_size s' < seg_size s"
        "um_tx_next es' = um_tx_next es" by (auto simp: s2_def)
      have "sdu_data (sdu_of (um_heap es) s2) = D" using sdu_of_cong [of s2 s] by (simp add: s2_def D_def)
      then have q': "um_queued es' = um_queued es" using sent(12) e'(1) tx by (simp add: um_queued_def D_def)
      have "um_head_so es' = seg_so s' + seg_size s'" using e'(1) s'(1) by (simp add: um_head_so_def s2_def)
      moreover have "hd (um_queued es @ [[]]) = D" using tx by (simp add: um_queued_def D_def)
      ultimately have "um_linked room es' er'"
        using sent(2,14) sz len lk(2,3) er'(3) False e' q' tx unfolding um_linked_def by (auto simp: s2_def)
      moreover have "events (um_common er') = events (um_common er)" using er'(3) False by simp
      ultimately show ?thesis
        using blk q' e' tx sent(15) by (intro exI [of _ es'] exI [of _ er'] exI [of _ 0]) (simp add: s2_def um_head_so_def)
    qed
  qed
qed

lemma um_transfer_ok:
  assumes "um_linked room es er" and "\<forall>n \<in> set ns. 3 \<le> n"
  shows "\<exists>es' er' k. um_transfer ns es er = Inr (es', er') \<and> um_linked room es' er' \<and>
    um_queued es' = drop k (um_queued es) \<and>
    events (um_common er') = events (um_common er) @ map DeliverSdu (take k (um_queued es)) \<and>
    ((\<forall>n \<in> set ns. 5 \<le> n) \<and> um_payload (um_tx_list es) \<le> int (length ns) \<longrightarrow> um_tx_list es' = [])"
  using assms
proof (induction ns arbitrary: es er)
  case Nil
  then obtain L where inv: "um_tx_inv L es" and pos: "\<forall>s \<in> set (um_tx_list es). 0 < seg_size s"
    by (auto simp: um_linked_def)
  have "um_tx_list es = []" if "um_payload (um_tx_list es) \<le> 0"
  proof (cases "um_tx_list es")
    case (Cons s rest)
    have "0 \<le> um_payload rest" unfolding um_payload_def using pos Cons by (intro sum_list_nonneg) (auto intro: less_imp_le)
    with that Cons pos show ?thesis by simp
  qed simp
  with Nil show ?case by (intro exI [of _ es] exI [of _ er] exI [of _ 0]) simp
next
  case (Cons n ns)
  obtain es1 er1 k where st: "um_block n es er = Inr (es1, er1)" "um_linked room es1 er1"
    "um_queued es1 = drop k (um_queued es)"
    "events (um_common er1) = events (um_common er) @ map DeliverSdu (take k (um_queued es))"
    "5 \<le> n \<and> um_tx_list es \<noteq> [] \<longrightarrow> um_payload (um_tx_list es1) < um_payload (um_tx_list es)"
    using um_linked_step [OF Cons.prems(1), of n] Cons.prems(2) by auto
  obtain es' er' j where r: "um_transfer ns es1 er1 = Inr (es', er')" "um_linked room es' er'"
    "um_queued es' = drop j (um_queued es1)"
    "events (um_common er') = events (um_common er1) @ map DeliverSdu (take j (um_queued es1))"
    "(\<forall>n \<in> set ns. 5 \<le> n) \<and> um_payload (um_tx_list es1) \<le> int (length ns) \<longrightarrow> um_tx_list es' = []"
    using Cons.IH [OF st(2)] Cons.prems(2) by auto
  have nil: "um_tx_list es1 = []" if "um_tx_list es = []"
    using st(3) that by (auto simp: um_queued_def)
  have "um_tx_list es' = []" if "\<forall>n \<in> set (n # ns). 5 \<le> n" "um_payload (um_tx_list es) \<le> int (length (n # ns))"
    using that r(5) st(5) nil by (cases "um_tx_list es = []") auto
  moreover have "take k (um_queued es) @ take j (drop k (um_queued es)) = take (k + j) (um_queued es)"
    by (rule take_add [symmetric])
  then have "events (um_common er') = events (um_common er) @ map DeliverSdu (take (k + j) (um_queued es))"
    unfolding r(4) st(3,4) by (metis append.assoc map_append)
  ultimately show ?case
    using st r unfolding um_transfer_Cons
    by (intro exI [of _ es'] exI [of _ er'] exI [of _ "k + j"]) (auto simp: add.commute)
qed

section \<open>From the upper layer of the sender to the upper layer of the receiver\<close>

text \<open>SDUs are given to the sender one after the other.\<close>

definition um_feed :: "byte list list \<Rightarrow> nr_rlc_entity_um \<Rightarrow> nr_rlc_entity_um res" where
  "um_feed Ds es = rlc_run um_step (map (\<lambda>D. (0, RecvSdu D 0)) Ds) es"

lemma um_linked_recv_sdu:
  assumes l: "um_linked room es er" and D: "D \<noteq> []" "int (length D) \<le> NR_SDU_MAX" "int (length D) \<le> room"
    and fit: "um_tx_size es + int (length D) \<le> um_tx_maxsize es"
  shows "\<exists>es'. nr_rlc_entity_um_recv_sdu t D i es = Inr es' \<and> um_linked room es' er \<and>
    um_queued es' = um_queued es @ [D] \<and> um_tx_size es' = um_tx_size es + int (length D) \<and>
    um_tx_maxsize es' = um_tx_maxsize es"
proof -
  obtain L where inv: "um_tx_inv L es" using l by (auto simp: um_linked_def)
  obtain es' s where e': "nr_rlc_entity_um_recv_sdu t D i es = Inr es'" "um_tx_inv L es'" "um_same_rx es es'"
    "um_tx_next es' = um_tx_next es" "um_tx_size es' = um_tx_size es + int (length D)" "um_tx_maxsize es' = um_tx_maxsize es"
    "\<forall>t \<in> set (um_tx_list es). sdu_data (sdu_of (um_heap es') t) = sdu_data (sdu_of (um_heap es) t)"
    "um_tx_list es' = um_tx_list es @ [s]" "whole s" "seg_size s = int (length D)" "sdu_data (sdu_of (um_heap es') s) = D"
    using um_recv_sdu_inv [OF inv D(2), of t i] fit by blast
  have q: "um_queued es' = um_queued es @ [D]" using e'(7,8,11) by (simp add: um_queued_def)
  have len: "um_sn_field_length es' = um_sn_field_length es" using e'(3) by (simp add: um_same_rx_def)
  have "um_holds (um_tx_next es') (hd (um_queued es' @ [[]])) (um_head_so es') room er"
  proof (cases "um_tx_list es")
    case Nil
    have "seg_so s = 0" using segs_invD(2) [OF um_tx_invD(2) [OF e'(2)], of s] e'(8,9) by (auto simp: whole_def seg_ok_def)
    with Nil l e'(4,8) show ?thesis
      by (auto simp: um_linked_def um_head_so_def um_queued_def intro: um_holds_start)
  next
    case (Cons u rest)
    then have "um_head_so es' = um_head_so es" "hd (um_queued es' @ [[]]) = hd (um_queued es @ [[]])"
      using e'(8) q by (simp_all add: um_head_so_def um_queued_def)
    with l e'(4) show ?thesis by (simp add: um_linked_def)
  qed
  then have "um_linked room es' er"
    using l e'(2,5,8,10) D q len by (auto simp: um_linked_def)
  with e' q show ?thesis by blast
qed

lemma um_linked_reject:
  assumes l: "um_linked room es er" and D: "int (length D) \<le> NR_SDU_MAX" and full: "um_tx_maxsize es < um_tx_size es + int (length D)"
  shows "\<exists>es'. nr_rlc_entity_um_recv_sdu t D i es = Inr es' \<and> um_linked room es' er \<and> um_queued es' = um_queued es \<and>
    um_head_so es' = um_head_so es \<and> um_tx_maxsize es' = um_tx_maxsize es"
proof -
  obtain L where inv: "um_tx_inv L es" using l by (auto simp: um_linked_def)
  obtain es' where e': "nr_rlc_entity_um_recv_sdu t D i es = Inr es'" "um_tx_inv L es'" "um_same_tx es es'"
    using um_recv_sdu_inv [OF inv D, of t i] full by blast
  have q: "um_queued es' = um_queued es" "um_head_so es' = um_head_so es" "um_tx_maxsize es' = um_tx_maxsize es"
    using e'(3) by (simp_all add: um_queued_def um_head_so_def um_same_tx_def)
  then have "um_linked room es' er" using l e'(2,3) unfolding um_linked_def q by (auto simp: um_same_tx_def)
  with e'(1) q show ?thesis by blast
qed

text \<open>What the sender still has to send, in bytes.\<close>

definition fifo_bytes :: "byte list list \<Rightarrow> int \<Rightarrow> int" where
  "fifo_bytes q k = int (length (concat q)) - k"

lemma um_linked_bytes:
  assumes "um_linked room es er"
  shows "um_payload (um_tx_list es) = fifo_bytes (um_queued es) (um_head_so es)" "um_tx_size es = fifo_bytes (um_queued es) (um_head_so es)"
    "um_queued es \<noteq> [] \<longrightarrow> 0 \<le> um_head_so es \<and> um_head_so es < int (length (hd (um_queued es)))"
    "um_queued es = [] \<longrightarrow> um_head_so es = 0" "um_queued es = [] \<longleftrightarrow> um_tx_list es = []"
proof -
  obtain L where inv: "um_tx_inv L es" using assms by (auto simp: um_linked_def)
  have s: "seg_so s + seg_size s = int (length (sdu_data (sdu_of (um_heap es) s)))" "0 \<le> seg_so s" "0 < seg_size s" if "s \<in> set (um_tx_list es)" for s
    using that segs_invD(2) [OF um_tx_invD(2) [OF inv], of s] um_tx_invD(5) [OF inv] assms by (auto simp: seg_ok_def um_linked_def)
  have whole: "seg_so s = 0" if "s \<in> set (tl (um_tx_list es))" for s
    using that segs_invD(2) [OF um_tx_invD(2) [OF inv], of s] um_tx_invD(6) [OF inv]
    by (cases "um_tx_list es") (auto simp: seg_ok_def)
  have sum: "um_payload l = int (length (concat (map (\<lambda>s. sdu_data (sdu_of (um_heap es) s)) l)))"
    if "set l \<subseteq> set (tl (um_tx_list es))" for l
    using that
  proof (induction l)
    case (Cons u l)
    then have "u \<in> set (um_tx_list es)" "seg_so u = 0" using whole by (cases "um_tx_list es"; simp)+
    then show ?case using Cons s(1) [of u] by simp
  qed simp
  show p: "um_payload (um_tx_list es) = fifo_bytes (um_queued es) (um_head_so es)"
  proof (cases "um_tx_list es")
    case (Cons u l)
    then show ?thesis using sum [of l] s(1) [of u] by (simp add: fifo_bytes_def um_queued_def um_head_so_def)
  qed (simp add: fifo_bytes_def um_queued_def um_head_so_def)
  show "um_tx_size es = fifo_bytes (um_queued es) (um_head_so es)" using p assms by (simp add: um_linked_def)
  show "um_queued es \<noteq> [] \<longrightarrow> 0 \<le> um_head_so es \<and> um_head_so es < int (length (hd (um_queued es)))"
    using s by (cases "um_tx_list es") (fastforce simp: um_queued_def um_head_so_def)+
  show "um_queued es = [] \<longrightarrow> um_head_so es = 0" "um_queued es = [] \<longleftrightarrow> um_tx_list es = []"
    by (auto simp: um_queued_def um_head_so_def)
qed

lemma um_feed_ok:
  assumes "um_linked room es er" and "\<forall>D \<in> set Ds. D \<noteq> [] \<and> int (length D) \<le> NR_SDU_MAX \<and> int (length D) \<le> room"
    and "um_tx_size es + int (length (concat Ds)) \<le> um_tx_maxsize es"
  shows "\<exists>es'. um_feed Ds es = Inr es' \<and> um_linked room es' er \<and> um_queued es' = um_queued es @ Ds"
  using assms
proof (induction Ds arbitrary: es)
  case Nil
  then show ?case by (simp add: um_feed_def)
next
  case (Cons D Ds)
  then have fit: "um_tx_size es + int (length D) \<le> um_tx_maxsize es"
    and D: "D \<noteq> []" "int (length D) \<le> NR_SDU_MAX" "int (length D) \<le> room" by auto
  obtain es1 where e1: "nr_rlc_entity_um_recv_sdu 0 D 0 es = Inr es1" "um_linked room es1 er"
    "um_queued es1 = um_queued es @ [D]" "um_tx_size es1 = um_tx_size es + int (length D)" "um_tx_maxsize es1 = um_tx_maxsize es"
    using um_linked_recv_sdu [OF Cons.prems(1) D fit] by blast
  with Cons.IH [OF e1(2)] Cons.prems show ?case by (auto simp: um_feed_def)
qed

lemma um_linked_new:
  assumes s: "new_nr_rlc_entity_um rmax1 tmax1 t1 len = Inr es" "0 \<le> rmax1" "0 \<le> tmax1"
    and r: "new_nr_rlc_entity_um rmax2 tmax2 t2 len = Inr er" "0 \<le> rmax2" "0 \<le> tmax2"
  shows "um_linked rmax2 es er \<and> um_queued es = [] \<and> events (um_common er) = [] \<and>
    um_tx_size es = 0 \<and> um_tx_maxsize es = tmax1"
proof -
  have i: "um_tx_inv {#} es" "um_rx_inv er" using um_inv_new [OF s] um_inv_new [OF r] by (simp_all add: um_inv_def)
  obtain c where c: "common_new NR_RLC_UM = Inr c" "events c = []" using common_new_Inr [of NR_RLC_UM] by blast
  have es: "um_tx_list es = []" "um_tx_next es = 0" "um_sn_field_length es = len" "um_tx_size es = 0" "um_tx_maxsize es = tmax1"
    using s c by (auto simp: new_nr_rlc_entity_um_def Let_def split: if_splits)
  have er: "um_rx_list er = []" "um_rx_next_reassembly er = 0" "um_rx_next_highest er = 0" "um_sn_field_length er = len"
    "um_rx_size er = 0" "um_rx_maxsize er = rmax2" "events (um_common er) = []"
    using r c by (auto simp: new_nr_rlc_entity_um_def Let_def split: if_splits)
  have "um_cfg er" "um_rx_inv_but {0} er" using i(2) by (simp_all add: um_rx_inv_but_def)
  then have "um_holds 0 [] 0 rmax2 er"
    using i(2) er um_cfgD(3) [of er] by (simp add: um_holds_def um_has_def rx_bytes_def)
  with i es er show ?thesis by (auto simp: um_linked_def um_queued_def um_head_so_def)
qed

lemma sum_list_le_concat:
  "(\<And>s. s \<in> set l \<Longrightarrow> g s \<le> int (length (f s))) \<Longrightarrow> sum_list (map g l) \<le> int (length (concat (map f l)))"
  by (induction l) (simp, fastforce)

lemma um_end_to_end:
  assumes s: "new_nr_rlc_entity_um rmax1 tmax1 t1 len = Inr es" "0 \<le> rmax1" "0 \<le> tmax1"
    and r: "new_nr_rlc_entity_um rmax2 tmax2 t2 len = Inr er" "0 \<le> rmax2" "0 \<le> tmax2"
    and Ds: "\<forall>D \<in> set Ds. D \<noteq> [] \<and> int (length D) \<le> NR_SDU_MAX \<and> int (length D) \<le> rmax2" "int (length (concat Ds)) \<le> tmax1"
    and ns: "\<forall>n \<in> set ns. 3 \<le> n"
  shows "\<exists>es1 es' er' k. um_feed Ds es = Inr es1 \<and> um_transfer ns es1 er = Inr (es', er') \<and>
    um_queued es' = drop k Ds \<and> events (um_common er') = map DeliverSdu (take k Ds) \<and>
    ((\<forall>n \<in> set ns. 5 \<le> n) \<and> length (concat Ds) \<le> length ns \<longrightarrow> um_queued es' = [])"
proof -
  note n = um_linked_new [OF s r]
  obtain es1 where e1: "um_feed Ds es = Inr es1" "um_linked rmax2 es1 er" "um_queued es1 = Ds"
    using um_feed_ok [of rmax2 es er Ds] n Ds by auto
  obtain es' er' k where t: "um_transfer ns es1 er = Inr (es', er')" "um_queued es' = drop k Ds"
    "events (um_common er') = map DeliverSdu (take k Ds)"
    "(\<forall>n \<in> set ns. 5 \<le> n) \<and> um_payload (um_tx_list es1) \<le> int (length ns) \<longrightarrow> um_tx_list es' = []"
    using um_transfer_ok [OF e1(2) ns] e1(3) n by auto
  obtain L where inv: "um_tx_inv L es1" using e1(2) by (auto simp: um_linked_def)
  have "um_payload (um_tx_list es1) \<le> int (length (concat (um_queued es1)))"
    unfolding um_queued_def um_payload_def
    by (rule sum_list_le_concat) (use segs_invD(2) [OF um_tx_invD(2) [OF inv]] in \<open>force simp: seg_ok_def\<close>)
  with t e1 show ?thesis by (auto simp: um_queued_def)
qed

text \<open>An entity as it is created, with 6 bit sequence numbers, for the witnesses.\<close>

definition um_fresh :: nr_rlc_entity_um where
  "um_fresh = projr (new_nr_rlc_entity_um 1000 1000 35 6)"

lemma um_fresh_eq: "new_nr_rlc_entity_um 1000 1000 35 6 = Inr um_fresh"
  using common_new_Inr [of NR_RLC_UM] by (auto simp: um_fresh_def new_nr_rlc_entity_um_def)

section \<open>The link as a bounded queue\<close>

text \<open>What happens to the two ends, in any order: an SDU for the sender, a transport block.\<close>

datatype um_link_op = UmSdu "byte list" | UmBlock nat

fun um_link_run :: "um_link_op list \<Rightarrow> nr_rlc_entity_um \<Rightarrow> nr_rlc_entity_um \<Rightarrow> (nr_rlc_entity_um \<times> nr_rlc_entity_um) res" where
  "um_link_run [] es er = Inr (es, er)"
| "um_link_run (UmSdu D # ops) es er = res_bind (nr_rlc_entity_um_recv_sdu 0 D 0 es) (\<lambda>es1. um_link_run ops es1 er)"
| "um_link_run (UmBlock n # ops) es er = res_bind (um_block n es er) (\<lambda>(es1, er1). um_link_run ops es1 er1)"

text \<open>
  A queue of SDUs with room for \<open>cap\<close> bytes. Its state: the SDUs, how many bytes of the first are already gone, and the
  SDUs delivered so far. An SDU for which there is no room is dropped. A block takes bytes from the front; with five bytes
  or more it makes progress.
\<close>

inductive um_fifo :: "int \<Rightarrow> um_link_op list \<Rightarrow> byte list list \<times> int \<times> byte list list \<Rightarrow> byte list list \<times> int \<times> byte list list \<Rightarrow> bool"
  for cap where
  fifo_end: "um_fifo cap [] st st"
| fifo_accept: "fifo_bytes q k + int (length D) \<le> cap \<Longrightarrow> um_fifo cap ops (q @ [D], k, del) st \<Longrightarrow>
     um_fifo cap (UmSdu D # ops) (q, k, del) st"
| fifo_reject: "fifo_bytes q k + int (length D) > cap \<Longrightarrow> um_fifo cap ops (q, k, del) st \<Longrightarrow>
     um_fifo cap (UmSdu D # ops) (q, k, del) st"
| fifo_block: "j = 0 \<longrightarrow> k \<le> k' \<Longrightarrow> drop j q = [] \<longrightarrow> k' = 0 \<Longrightarrow> drop j q \<noteq> [] \<longrightarrow> 0 \<le> k' \<and> k' < int (length (hd (drop j q))) \<Longrightarrow>
     5 \<le> n \<and> q \<noteq> [] \<longrightarrow> fifo_bytes (drop j q) k' < fifo_bytes q k \<Longrightarrow>
     um_fifo cap ops (drop j q, k', del @ take j q) st \<Longrightarrow> um_fifo cap (UmBlock n # ops) (q, k, del) st"

definition um_link_op_ok :: "int \<Rightarrow> um_link_op \<Rightarrow> bool" where
  "um_link_op_ok room op = (case op of
     UmSdu D \<Rightarrow> D \<noteq> [] \<and> int (length D) \<le> NR_SDU_MAX \<and> int (length D) \<le> room | UmBlock n \<Rightarrow> 3 \<le> n)"

lemma um_link_run_fifo:
  "um_linked room es er \<Longrightarrow> \<forall>op \<in> set ops. um_link_op_ok room op \<Longrightarrow> events (um_common er) = map DeliverSdu del \<Longrightarrow>
    um_tx_maxsize es = cap \<Longrightarrow>
    \<exists>es' er' del'. um_link_run ops es er = Inr (es', er') \<and> events (um_common er') = map DeliverSdu del' \<and>
      um_fifo cap ops (um_queued es, um_head_so es, del) (um_queued es', um_head_so es', del')"
proof (induction ops arbitrary: es er del)
  case Nil
  then show ?case by (auto intro: fifo_end)
next
  case (Cons op ops)
  note bs = um_linked_bytes [OF Cons.prems(1)]
  show ?case
  proof (cases op)
    case (UmSdu D)
    then have D: "D \<noteq> []" "int (length D) \<le> NR_SDU_MAX" "int (length D) \<le> room" using Cons.prems(2) by (auto simp: um_link_op_ok_def)
    show ?thesis
    proof (cases "um_tx_size es + int (length D) \<le> um_tx_maxsize es")
      case True
      obtain es1 where e1: "nr_rlc_entity_um_recv_sdu 0 D 0 es = Inr es1" "um_linked room es1 er" "um_queued es1 = um_queued es @ [D]"
        "um_tx_maxsize es1 = um_tx_maxsize es" "um_tx_size es1 = um_tx_size es + int (length D)"
        using um_linked_recv_sdu [OF Cons.prems(1) D True] by blast
      have "um_head_so es1 = um_head_so es" using um_linked_bytes(2) [OF e1(2)] bs(2) e1(3,5) by (simp add: fifo_bytes_def)
      moreover obtain es' er' del' where "um_link_run ops es1 er = Inr (es', er')" "events (um_common er') = map DeliverSdu del'"
        "um_fifo cap ops (um_queued es1, um_head_so es1, del) (um_queued es', um_head_so es', del')"
        using Cons.IH [OF e1(2) _ Cons.prems(3)] Cons.prems(2,4) e1(4) by auto
      ultimately show ?thesis using e1(1,3) UmSdu True bs(2) Cons.prems(4)
        by (intro exI [of _ es'] exI [of _ er'] exI [of _ del']) (auto intro: fifo_accept)
    next
      case False
      then obtain es1 where e1: "nr_rlc_entity_um_recv_sdu 0 D 0 es = Inr es1" "um_linked room es1 er" "um_queued es1 = um_queued es"
        "um_head_so es1 = um_head_so es" "um_tx_maxsize es1 = um_tx_maxsize es"
        using um_linked_reject [OF Cons.prems(1) D(2), of 0 0] by auto
      obtain es' er' del' where "um_link_run ops es1 er = Inr (es', er')" "events (um_common er') = map DeliverSdu del'"
        "um_fifo cap ops (um_queued es1, um_head_so es1, del) (um_queued es', um_head_so es', del')"
        using Cons.IH [OF e1(2) _ Cons.prems(3)] Cons.prems(2,4) e1(5) by auto
      then show ?thesis using e1(1,3,4) UmSdu False bs(2) Cons.prems(4)
        by (intro exI [of _ es'] exI [of _ er'] exI [of _ del']) (auto intro: fifo_reject)
    qed
  next
    case (UmBlock n)
    then have "3 \<le> n" using Cons.prems(2) by (simp add: um_link_op_ok_def)
    from um_linked_step [OF Cons.prems(1) this] obtain es1 er1 j where st: "um_block n es er = Inr (es1, er1)" "um_linked room es1 er1"
      "um_queued es1 = drop j (um_queued es)" "events (um_common er1) = events (um_common er) @ map DeliverSdu (take j (um_queued es))"
      "5 \<le> n \<and> um_tx_list es \<noteq> [] \<longrightarrow> um_payload (um_tx_list es1) < um_payload (um_tx_list es)"
      "um_tx_maxsize es1 = um_tx_maxsize es" "j = 0 \<longrightarrow> um_head_so es \<le> um_head_so es1" by blast
    note by1 = um_linked_bytes [OF st(2)]
    have ev: "events (um_common er1) = map DeliverSdu (del @ take j (um_queued es))" using st(4) Cons.prems(3) by simp
    obtain es' er' del' where r: "um_link_run ops es1 er1 = Inr (es', er')" "events (um_common er') = map DeliverSdu del'"
      "um_fifo cap ops (um_queued es1, um_head_so es1, del @ take j (um_queued es)) (um_queued es', um_head_so es', del')"
      using Cons.IH [OF st(2) _ ev] Cons.prems(2,4) st(6) by auto
    have "um_fifo cap (UmBlock n # ops) (um_queued es, um_head_so es, del) (um_queued es', um_head_so es', del')"
      by (rule fifo_block [of j _ "um_head_so es1"]) (use st(3,5,7) bs(1,5) by1(1,3,4) r(3) in auto)
    then show ?thesis using st(1) r(1,2) UmBlock by auto
  qed
qed

text \<open>
  C12: in unacknowledged mode, while no transport block is lost, a new sender and a new receiver together are a bounded
  queue, first in, first out. In whatever order SDUs are given to the sender and transport blocks of at least three bytes
  come, however the SDUs are cut and wherever the sequence numbers wrap: an SDU is accepted exactly when the bytes that are
  still to be sent leave room for it, and the receiver delivers the accepted SDUs in order, each once and unchanged, while
  the sender holds the others.
\<close>

theorem um_link_fifo:
  assumes "new_nr_rlc_entity_um rmax1 tmax1 t1 len = Inr es" and "0 \<le> rmax1" "0 \<le> tmax1"
    and "new_nr_rlc_entity_um rmax2 tmax2 t2 len = Inr er" and "0 \<le> rmax2" "0 \<le> tmax2"
    and "\<forall>op \<in> set ops. um_link_op_ok rmax2 op"
  shows "\<exists>es' er' delivered. um_link_run ops es er = Inr (es', er') \<and> events (um_common er') = map DeliverSdu delivered \<and>
    um_fifo tmax1 ops ([], 0, []) (um_queued es', um_head_so es', delivered)"
proof -
  note n = um_linked_new [OF assms(1-6)]
  have "um_head_so es = 0" using um_linked_bytes(4) [of rmax2 es er] n by simp
  then show ?thesis using um_link_run_fifo [of rmax2 es er ops "[]" tmax1] n assms(7) by simp
qed

theorem um_link_fifo_witness:
  "\<exists>es' er' delivered. um_link_run [UmSdu [1, 2, 3, 4], UmBlock 4, UmSdu [5], UmBlock 3, UmBlock 9] um_fresh um_fresh = Inr (es', er') \<and>
    events (um_common er') = map DeliverSdu delivered \<and>
    um_fifo 1000 [UmSdu [1, 2, 3, 4], UmBlock 4, UmSdu [5], UmBlock 3, UmBlock 9] ([], 0, []) (um_queued es', um_head_so es', delivered)"
  using um_link_fifo [OF um_fresh_eq _ _ um_fresh_eq, of "[UmSdu [1, 2, 3, 4], UmBlock 4, UmSdu [5], UmBlock 3, UmBlock 9]"]
  by (simp add: NR_SDU_MAX_def um_link_op_ok_def)

text \<open>
  C13: and it delivers all of them: when SDUs for which there is room are given to a new sender, the transport blocks have five bytes or more and there are at
  least as many of them as bytes to send, every SDU given to the sender reaches the upper layer of the
  receiver and nothing is left to send.
\<close>

theorem um_link_delivers_all:
  assumes "new_nr_rlc_entity_um rmax1 tmax1 t1 len = Inr es" and "0 \<le> rmax1" "0 \<le> tmax1"
    and "new_nr_rlc_entity_um rmax2 tmax2 t2 len = Inr er" and "0 \<le> rmax2" "0 \<le> tmax2"
    and "\<forall>D \<in> set Ds. D \<noteq> [] \<and> int (length D) \<le> NR_SDU_MAX \<and> int (length D) \<le> rmax2" and "int (length (concat Ds)) \<le> tmax1"
    and "\<forall>n \<in> set ns. 5 \<le> n" and "length (concat Ds) \<le> length ns"
  shows "\<exists>es1 es' er'. um_feed Ds es = Inr es1 \<and> um_transfer ns es1 er = Inr (es', er') \<and>
    um_tx_list es' = [] \<and> events (um_common er') = map DeliverSdu Ds"
proof -
  have "\<forall>n \<in> set ns. 3 \<le> n" using assms(9) by auto
  from um_end_to_end [OF assms(1-8) this] assms(9,10) show ?thesis by (force simp: um_queued_def)
qed

theorem um_link_delivers_all_witness:
  "\<exists>es1 es' er'. um_feed [[1, 2, 3, 4], [5]] um_fresh = Inr es1 \<and>
    um_transfer [5, 5, 5, 5, 5] es1 um_fresh = Inr (es', er') \<and>
    um_tx_list es' = [] \<and> events (um_common er') = [DeliverSdu [1, 2, 3, 4], DeliverSdu [5]]"
  using um_link_delivers_all [OF um_fresh_eq _ _ um_fresh_eq, of "[[1, 2, 3, 4], [5]]" "[5, 5, 5, 5, 5]"]
  by (simp add: NR_SDU_MAX_def)

text \<open>
  C14: an unacknowledged-mode entity never ends the process, whatever SDUs (of at most \<open>NR_SDU_MAX\<close>
  bytes), discard requests, transport blocks, clock readings and PDUs it is given, in any order, as
  long as the segments of one SDU agree on where the SDU ends; its buffers stay within their sizes, and
  the amount of data that \<open>buffer_status\<close> announces to MAC is what it takes to send the list.
\<close>

theorem um_runs_safe:
  assumes "new_nr_rlc_entity_um rx_max tx_max t len = Inr e" and "0 \<le> rx_max" "0 \<le> tx_max"
    and "rlc_adm_run um_step um_adm ops e"
  shows "\<exists>e' L. rlc_run um_step ops e = Inr e' \<and> um_inv L e' \<and>
    tx_size (nr_rlc_entity_um_buffer_status e') =
      sum_list (map (\<lambda>s. um_compute_pdu_header_size e' s + seg_size s) (um_tx_list e')) \<and>
    sum_list (map (\<lambda>p. if pdu_data p = None then 0 else pdu_size p) (um_rx_list e')) \<le> um_rx_size e' \<and>
    um_rx_size e' \<le> um_rx_maxsize e' \<and> um_tx_size e' \<le> um_tx_maxsize e'"
proof -
  obtain e' L where e': "rlc_run um_step ops e = Inr e'" "um_inv L e'"
    using um.run_inv [of e ops] um_inv_new [OF assms(1-3)] assms(4) by blast
  then have "um_tx_inv L e'" "um_rx_inv e'" by (simp_all add: um_inv_def)
  moreover have "um_compute_pdu_header_size e' s + seg_size s = um_seg_bytes (um_sn_field_length e') s" for s
    using um_seg_pdu_size_eq by (simp add: um_seg_pdu_size_def)
  ultimately show ?thesis
    using e' by (auto simp: um_tx_inv_def um_rx_inv_but_def nr_rlc_entity_um_buffer_status_def um_list_bytes_def rx_bytes_def)
qed

theorem um_runs_safe_witness:
  "\<exists>e' L. rlc_run um_step [(0, RecvSdu [1, 2, 3] 7), (0, GeneratePdu [0, 0]), (0, SetTime 9), (0, DiscardSdu 7)] um_fresh = Inr e' \<and>
    um_inv L e' \<and> um_tx_size e' \<le> um_tx_maxsize e'"
proof -
  have "rlc_adm_run um_step um_adm [(0, RecvSdu [1, 2, 3] 7), (0, GeneratePdu [0, 0]), (0, SetTime 9), (0, DiscardSdu 7)] um_fresh"
    by (rule rlc_adm_runI) (auto simp: NR_SDU_MAX_def)
  from um_runs_safe [OF um_fresh_eq _ _ this] show ?thesis by auto
qed

end
