(* ===== verification/RlcUmFaults.thy ===== *)
theory RlcUmFaults
  imports RlcUmMachine
begin

text \<open>
  Runs of the UM entity in which the code does not do what it should, evaluated in the kernel.
\<close>

text \<open>
  A run from a new entity. The average of waiting times, which is switched off, has no influence: the
  runs are evaluated for any state of it.
\<close>

definition um_new_with :: "time_average \<Rightarrow> int \<Rightarrow> int \<Rightarrow> int \<Rightarrow> nr_rlc_entity_um" where
  "um_new_with ta rx_max tx_max len =
     \<lparr>um_common = \<lparr>bstatus = \<lparr>status_size = 0, tx_size = 0, retx_size = 0\<rparr>, stats = stats_zero NR_RLC_UM,
        txsdu_avg_time_to_tx = ta, avg_time_is_on = False, events = []\<rparr>,
      um_t_reassembly = 35, um_sn_field_length = len, um_sn_modulus = 2 ^ nat len, um_window_size = 2 ^ nat len div 2,
      um_rx_next_highest = 0, um_rx_next_reassembly = 0, um_rx_timer_trigger = 0, um_tx_next = 0, um_t_current = 0,
      um_t_log_buffer_full = 0, um_sdu_rejected = 0, um_t_reassembly_start = 0, um_rx_list = [], um_rx_size = 0,
      um_rx_maxsize = rx_max, um_tx_list = [], um_tx_end = None, um_tx_size = 0, um_tx_maxsize = tx_max,
      um_heap = heap_empty\<rparr>"

definition um_run_new :: "int \<Rightarrow> int \<Rightarrow> int \<Rightarrow> rlc_op list \<Rightarrow> nr_rlc_entity_um res" where
  "um_run_new rx_max tx_max len ops =
     res_bind (new_nr_rlc_entity_um rx_max tx_max 35 len) (rlc_run um_step (map (Pair 0) ops))"

lemma um_run_new_I:
  assumes "\<And>ta. P (rlc_run um_step (map (Pair 0) ops) (um_new_with ta rx_max tx_max len))" and "len = 6 \<or> len = 12"
  shows "P (um_run_new rx_max tx_max len ops)"
proof -
  obtain ta where "common_new NR_RLC_UM = Inr \<lparr>bstatus = \<lparr>status_size = 0, tx_size = 0, retx_size = 0\<rparr>, stats = stats_zero NR_RLC_UM,
     txsdu_avg_time_to_tx = ta, avg_time_is_on = False, events = []\<rparr>"
    by (auto simp: common_new_def time_average_new_def)
  then have "new_nr_rlc_entity_um rx_max tx_max 35 len = Inr (um_new_with ta rx_max tx_max len)"
    using assms(2) by (auto simp: new_nr_rlc_entity_um_def um_new_with_def)
  with assms(1) show ?thesis by (simp add: um_run_new_def)
qed

text \<open>
  C25: an SDU can be lost without being sent. With 12 bit sequence numbers and a transport block of two
  bytes, \<open>generate_tx_pdu\<close> takes the SDU from the list, \<open>resegment\<close> counts a second reference and
  then finds no room for a byte of data: nothing is sent, the SDU is in no list, it stays allocated
  with two references, and its bytes stay counted in \<open>tx_size\<close>.
\<close>

theorem um_small_block_loses_sdu:
  "res_holds (\<lambda>e. um_tx_list e = [] \<and> txpdu_pkts (stats (um_common e)) = 0 \<and> um_tx_size e = 3 \<and>
       map_option sdu_data (heap_map (um_heap e) 0) = Some [1, 2, 3] \<and>
       map_option sdu_ref_count (heap_map (um_heap e) 0) = Some 2)
     (um_run_new 1000 1000 12 [RecvSdu [1, 2, 3] 7, GeneratePdu [0, 0]])"
  by (rule um_run_new_I) (code_simp, simp)

text \<open>
  Discarding SDUs uses up the transmission buffer for good. \<open>discard_sdu\<close> releases the SDU but
  does not decrease \<open>tx_size\<close>; with room for four bytes, after an SDU of three bytes was discarded
  an SDU of two bytes is rejected although the entity holds nothing.
\<close>

theorem um_discard_leaks_room:
  "res_holds (\<lambda>e. um_tx_list e = [] \<and> heap_map (um_heap e) 0 = None \<and> um_tx_size e = 3 \<and> um_sdu_rejected e = 1)
     (um_run_new 1000 4 6 [RecvSdu [1, 2, 3] 7, DiscardSdu 7, RecvSdu [4, 5] 8])"
  by (rule um_run_new_I) (code_simp, simp)

text \<open>
  Reassembly that times out uses up the reception buffer for good. \<open>check_t_reassembly\<close> drops the
  PDUs it gives up without decreasing \<open>rx_size\<close>; with room for four bytes, after a segment of three
  bytes was dropped the reception list is empty, and a segment of two bytes is still discarded.
\<close>

theorem um_timeout_leaks_room:
  "res_holds (\<lambda>e. um_rx_list e = [] \<and> um_rx_size e = 3 \<and> rxpdu_dd_pkts (stats (um_common e)) = 2)
     (um_run_new 4 1000 6 [SetTime 10, RecvPdu [0x41, 1, 2, 3], SetTime 100, RecvPdu [0x42, 4, 5]])"
  by (rule um_run_new_I) (code_simp, simp)

text \<open>
  As in acknowledged mode, three segments of one SDU make the receiver read outside a buffer: one
  far beyond the end of the SDU, the first one, and the last one.
\<close>

theorem um_reassembly_overread:
  "fault_of (um_run_new 1000 1000 6 [RecvPdu [0xC0, 0, 100, 1, 2, 3], RecvPdu [0x40, 5, 6, 7],
     RecvPdu [0x80, 0, 3, 8, 9]]) = Some OutOfBounds"
  by (rule um_run_new_I) (code_simp, simp)

end
