(* ===== verification/RlcAm.thy ===== *)
theory RlcAm
  imports RlcReassembly
begin

unbundle bit_operations_syntax

text \<open>
  \<open>openair2/LAYER2/nr_rlc/nr_rlc_entity_am.c\<close>, the acknowledged mode entity: its state, sequence
  number arithmetic, and the reception of data PDUs (38.322 5.2.3.2).
\<close>

record nr_rlc_entity_am =
  am_common :: nr_rlc_entity
  am_t_poll_retransmit :: int
  am_t_reassembly :: int
  am_t_status_prohibit :: int
  am_poll_pdu :: int
  am_poll_byte :: int
  am_max_retx_threshold :: int
  am_sn_field_length :: int
  am_sn_modulus :: int
  am_window_size :: int
  am_rx_next :: int
  am_rx_next_status_trigger :: int
  am_rx_highest_status :: int
  am_rx_next_highest :: int
  am_status_triggered :: bool
  am_tx_next :: int
  am_tx_next_ack :: int
  am_poll_sn :: int
  am_pdu_without_poll :: int
  am_byte_without_poll :: int
  am_force_poll :: bool
  am_t_current :: u64
  am_t_log_buffer_full :: u64
  am_sdu_rejected :: int
  am_t_poll_retransmit_start :: u64
  am_t_reassembly_start :: u64
  am_t_status_prohibit_start :: u64
  am_rx_list :: "nr_rlc_pdu list"
  am_rx_size :: int
  am_rx_maxsize :: int
  am_tx_list :: "segment list"
  am_tx_end :: "segment option"
  am_tx_size :: int
  am_tx_maxsize :: int
  am_wait_list :: "segment list"
  am_wait_end :: "segment option"
  am_retransmit_list :: "segment list"
  am_heap :: sdu_heap

text \<open>\<open>new_nr_rlc_entity_am\<close> of \<open>nr_rlc_entity.c\<close>.\<close>

definition new_nr_rlc_entity_am ::
  "int \<Rightarrow> int \<Rightarrow> int \<Rightarrow> int \<Rightarrow> int \<Rightarrow> int \<Rightarrow> int \<Rightarrow> int \<Rightarrow> int \<Rightarrow> nr_rlc_entity_am res" where
  "new_nr_rlc_entity_am rx_maxsize tx_maxsize t_poll_retransmit t_reassembly t_status_prohibit
     poll_pdu poll_byte max_retx_threshold sn_field_length =
     (if \<not> (sn_field_length = 12 \<or> sn_field_length = 18) then Inl AssertFailed
      else res_bind (common_new NR_RLC_AM) (\<lambda>c.
        let sn_modulus = push_bit (nat sn_field_length) 1
        in Inr \<lparr>am_common = c, am_t_poll_retransmit = t_poll_retransmit, am_t_reassembly = t_reassembly,
          am_t_status_prohibit = t_status_prohibit, am_poll_pdu = poll_pdu, am_poll_byte = poll_byte,
          am_max_retx_threshold = max_retx_threshold, am_sn_field_length = sn_field_length,
          am_sn_modulus = sn_modulus, am_window_size = sn_modulus div 2,
          am_rx_next = 0, am_rx_next_status_trigger = 0, am_rx_highest_status = 0,
          am_rx_next_highest = 0, am_status_triggered = False, am_tx_next = 0, am_tx_next_ack = 0,
          am_poll_sn = 0, am_pdu_without_poll = 0, am_byte_without_poll = 0, am_force_poll = False,
          am_t_current = 0, am_t_log_buffer_full = 0, am_sdu_rejected = 0,
          am_t_poll_retransmit_start = 0, am_t_reassembly_start = 0, am_t_status_prohibit_start = 0,
          am_rx_list = [], am_rx_size = 0, am_rx_maxsize = rx_maxsize, am_tx_list = [],
          am_tx_end = None, am_tx_size = 0, am_tx_maxsize = tx_maxsize, am_wait_list = [],
          am_wait_end = None, am_retransmit_list = [], am_heap = heap_empty\<rparr>))"

text \<open>\<open>nr_rlc_entity_am_reconfigure\<close> of \<open>nr_rlc_entity.c\<close>; the last argument is a pointer.\<close>

definition nr_rlc_entity_am_reconfigure ::
  "int \<Rightarrow> int \<Rightarrow> int \<Rightarrow> int \<Rightarrow> int \<Rightarrow> int \<Rightarrow> int option \<Rightarrow> nr_rlc_entity_am \<Rightarrow> nr_rlc_entity_am" where
  "nr_rlc_entity_am_reconfigure t_poll_retransmit t_reassembly t_status_prohibit poll_pdu poll_byte
     max_retx_threshold sn_field_length e =
     (let e1 = e\<lparr>am_t_poll_retransmit := t_poll_retransmit, am_t_reassembly := t_reassembly,
        am_t_status_prohibit := t_status_prohibit, am_poll_pdu := poll_pdu, am_poll_byte := poll_byte,
        am_max_retx_threshold := max_retx_threshold\<rparr>
      in case sn_field_length of None \<Rightarrow> e1 | Some l \<Rightarrow> e1\<lparr>am_sn_field_length := l\<rparr>)"

section \<open>Sequence numbers\<close>

definition am_compute_pdu_header_size :: "nr_rlc_entity_am \<Rightarrow> segment \<Rightarrow> int" where
  "am_compute_pdu_header_size e sdu =
     2 + (if am_sn_field_length e = 18 then 1 else 0) + (if \<not> seg_is_first sdu then 2 else 0)"

definition am_modulus_rx :: "nr_rlc_entity_am \<Rightarrow> int \<Rightarrow> int" where
  "am_modulus_rx e a =
     (let r = a - am_rx_next e in if r < 0 then r + am_sn_modulus e else r)"

definition am_modulus_tx :: "nr_rlc_entity_am \<Rightarrow> int \<Rightarrow> int" where
  "am_modulus_tx e a =
     (let r = a - am_tx_next_ack e in if r < 0 then r + am_sn_modulus e else r)"

definition am_sn_in_recv_window :: "nr_rlc_entity_am \<Rightarrow> int \<Rightarrow> bool" where
  "am_sn_in_recv_window e sn \<longleftrightarrow> am_modulus_rx e sn < am_window_size e"

definition am_sn_compare_rx :: "nr_rlc_entity_am \<Rightarrow> int \<Rightarrow> int \<Rightarrow> int" where
  "am_sn_compare_rx e a b = am_modulus_rx e a - am_modulus_rx e b"

definition am_sn_compare_tx :: "nr_rlc_entity_am \<Rightarrow> int \<Rightarrow> int \<Rightarrow> int" where
  "am_sn_compare_tx e a b = am_modulus_tx e a - am_modulus_tx e b"

section \<open>The reception list\<close>

fun segment_already_received_loop :: "nr_rlc_pdu list \<Rightarrow> int \<Rightarrow> int \<Rightarrow> int \<Rightarrow> bool" where
  "segment_already_received_loop [] sn so sz = (sz \<le> 0)"
| "segment_already_received_loop (l # ls) sn so sz =
     (if \<not> sz > 0 then sz \<le> 0
      else if pdu_sn l = sn then
        if pdu_so l \<le> so \<and> so < pdu_so l + pdu_size l then
          let covered = pdu_size l - (so - pdu_so l)
          in segment_already_received_loop ls sn (so + covered) (sz - covered)
        else if pdu_so l \<le> so + sz - 1 \<and> so + sz - 1 < pdu_so l + pdu_size l then
          let covered = sz - (pdu_so l - so)
          in segment_already_received_loop ls sn so (sz - covered)
        else segment_already_received_loop ls sn so sz
      else segment_already_received_loop ls sn so sz)"

definition am_segment_already_received :: "nr_rlc_entity_am \<Rightarrow> int \<Rightarrow> int \<Rightarrow> int \<Rightarrow> bool" where
  "am_segment_already_received e sn so sz = segment_already_received_loop (am_rx_list e) sn so sz"

definition am_sdu_full :: "nr_rlc_entity_am \<Rightarrow> int \<Rightarrow> bool" where
  "am_sdu_full e sn = rx_sdu_full (am_rx_list e) sn"

definition am_sdu_delivered :: "nr_rlc_entity_am \<Rightarrow> int \<Rightarrow> bool" where
  "am_sdu_delivered e sn = rx_sdu_delivered (am_rx_list e) sn"

definition am_sdu_has_missing_bytes :: "nr_rlc_entity_am \<Rightarrow> int \<Rightarrow> bool" where
  "am_sdu_has_missing_bytes e sn = rx_sdu_has_missing_bytes (am_rx_list e) sn"

text \<open>\<open>while (pdu->sn != sn) pdu = pdu->next\<close> runs into the null pointer when no segment has \<open>sn\<close>.\<close>

definition am_reassemble_and_deliver :: "nr_rlc_entity_am \<Rightarrow> int \<Rightarrow> nr_rlc_entity_am res" where
  "am_reassemble_and_deliver e sn =
     (let front = takeWhile (\<lambda>p. pdu_sn p \<noteq> sn) (am_rx_list e); l = seek_sn (am_rx_list e) sn
      in if l = [] then Inl NullDeref
         else res_bind (reassemble_loop id l sn [] False) (\<lambda>(l', sdu, bad_sdu, freed).
           let e1 = e\<lparr>am_rx_list := front @ l', am_rx_size := am_rx_size e - freed\<rparr>
           in if bad_sdu then Inr e1
              else Inr (e1\<lparr>am_common :=
                stats_update (txsdu_pkts_update (\<lambda>n. n + 1)) (emit (DeliverSdu sdu) (am_common e1))\<rparr>)))"

text \<open>
  The loop of \<open>reception_actions\<close> that frees all delivered SDUs at the head of the list: \<open>drop_sdu\<close>
  is its inner loop, over all segments of one SDU.
\<close>

definition drop_sdu :: "nr_rlc_pdu list \<Rightarrow> int \<Rightarrow> nr_rlc_pdu list" where
  "drop_sdu l sn = dropWhile (\<lambda>p. pdu_sn p = sn) l"

function free_delivered_head :: "nr_rlc_pdu list \<Rightarrow> int \<Rightarrow> int \<Rightarrow> nr_rlc_pdu list \<times> int" where
  "free_delivered_head l modulus rx_next =
     (case l of [] \<Rightarrow> (l, rx_next)
      | p # ps \<Rightarrow>
          if pdu_data p = None \<and> pdu_sn p = rx_next
          then free_delivered_head (drop_sdu ps rx_next) modulus ((rx_next + 1) mod modulus)
          else (l, rx_next))"
  by pat_completeness auto
termination
  by (relation "measure (\<lambda>(l, m, r). length l)") (auto simp: drop_sdu_def less_Suc_eq_le length_dropWhile_le)

declare free_delivered_head.simps [simp del]

text \<open>\<open>reception_actions\<close>, in the order of the code.\<close>

definition am_rx_deliver :: "int \<Rightarrow> nr_rlc_entity_am \<Rightarrow> nr_rlc_entity_am res" where
  "am_rx_deliver x e =
     (if am_sdu_full e x
      then res_bind (am_reassemble_and_deliver e x) (\<lambda>e1.
        res_bind (if x = am_rx_highest_status e1
                  then res_bind (skip_delivered (am_rx_list e1) (am_sn_modulus e1) (am_rx_highest_status e1))
                         (\<lambda>s. Inr (e1\<lparr>am_rx_highest_status := s\<rparr>))
                  else Inr e1) (\<lambda>e2.
        Inr (if x = am_rx_next e2
             then let (l, rx_next) = free_delivered_head (am_rx_list e2) (am_sn_modulus e2) (am_rx_next e2)
                  in e2\<lparr>am_rx_list := l, am_rx_next := rx_next\<rparr>
             else e2)))
      else Inr e)"

definition am_rx_timer_stop :: "nr_rlc_entity_am \<Rightarrow> nr_rlc_entity_am" where
  "am_rx_timer_stop e =
     (if am_t_reassembly_start e \<noteq> 0 \<and>
         (am_rx_next_status_trigger e = am_rx_next e \<or>
          (am_rx_next_status_trigger e = (am_rx_next e + 1) mod am_sn_modulus e \<and>
           \<not> am_sdu_has_missing_bytes e (am_rx_next e)) \<or>
          (\<not> am_sn_in_recv_window e (am_rx_next_status_trigger e) \<and>
           am_rx_next_status_trigger e \<noteq> (am_rx_next e + am_window_size e) mod am_sn_modulus e))
      then e\<lparr>am_t_reassembly_start := 0\<rparr> else e)"

definition am_rx_timer_start :: "nr_rlc_entity_am \<Rightarrow> nr_rlc_entity_am" where
  "am_rx_timer_start e =
     (if am_t_reassembly_start e = 0 \<and>
         (am_sn_compare_rx e (am_rx_next_highest e) ((am_rx_next e + 1) mod am_sn_modulus e) > 0 \<or>
          (am_rx_next_highest e = (am_rx_next e + 1) mod am_sn_modulus e \<and>
           am_sdu_has_missing_bytes e (am_rx_next e)))
      then e\<lparr>am_t_reassembly_start := am_t_current e,
             am_rx_next_status_trigger := am_rx_next_highest e\<rparr> else e)"

definition am_reception_actions :: "nr_rlc_entity_am \<Rightarrow> nr_rlc_pdu \<Rightarrow> nr_rlc_entity_am res" where
  "am_reception_actions e pdu =
     (let x = pdu_sn pdu;
          e1 = (if am_sn_compare_rx e x (am_rx_next_highest e) \<ge> 0
                then e\<lparr>am_rx_next_highest := (x + 1) mod am_sn_modulus e\<rparr> else e)
      in res_bind (am_rx_deliver x e1) (\<lambda>e2. Inr (am_rx_timer_start (am_rx_timer_stop e2))))"

section \<open>Reception of data PDUs\<close>

text \<open>
  \<open>nr_rlc_entity_am_recv_pdu\<close> without the dispatch on D/C, which \<open>RlcAmControl\<close> adds. The label
  \<open>discard\<close> (also reached from \<open>err\<close>) with the poll bit read so far:
\<close>

definition am_discard_pdu :: "int \<Rightarrow> int \<Rightarrow> nr_rlc_entity_am \<Rightarrow> nr_rlc_entity_am" where
  "am_discard_pdu p sz e =
     (let e1 = (if p \<noteq> 0 then e\<lparr>am_status_triggered := True\<rparr> else e)
      in e1\<lparr>am_common := count_pkts_bytes rxpdu_dd_pkts_update rxpdu_dd_bytes_update sz (am_common e1)\<rparr>)"

definition am_count_rx ::
  "((u32 \<Rightarrow> u32) \<Rightarrow> nr_rlc_statistics \<Rightarrow> nr_rlc_statistics) \<Rightarrow>
   ((u32 \<Rightarrow> u32) \<Rightarrow> nr_rlc_statistics \<Rightarrow> nr_rlc_statistics) \<Rightarrow> int \<Rightarrow> nr_rlc_entity_am \<Rightarrow> nr_rlc_entity_am" where
  "am_count_rx pkts bytes sz e = e\<lparr>am_common := count_pkts_bytes pkts bytes sz (am_common e)\<rparr>"

text \<open>What follows the parsing of the header: the checks, the insertion, the actions, the poll.\<close>

definition am_rx_data ::
  "byte list \<Rightarrow> int \<Rightarrow> int \<Rightarrow> int \<Rightarrow> bool \<Rightarrow> bool \<Rightarrow> nat \<Rightarrow> nr_rlc_entity_am \<Rightarrow> nr_rlc_entity_am res" where
  "am_rx_data buffer p sn so is_first is_last hdr e =
     (let sz = int (length buffer); data_size = sz - int hdr
      in if data_size \<le> 0 then Inr (am_discard_pdu p sz e)
         else if am_rx_size e + data_size > am_rx_maxsize e then Inr (am_discard_pdu p sz e)
         else if \<not> am_sn_in_recv_window e sn
         then Inr (am_discard_pdu p sz (am_count_rx rxpdu_ow_pkts_update rxpdu_ow_bytes_update sz e))
         else if am_segment_already_received e sn so data_size
         then Inr (am_discard_pdu p sz (am_count_rx rxpdu_dup_pkts_update rxpdu_dup_bytes_update sz e))
         else
           let pdu = nr_rlc_new_pdu sn so is_first is_last (drop hdr buffer);
               e1 = e\<lparr>am_rx_size := am_rx_size e + data_size,
                      am_rx_list := nr_rlc_pdu_list_add (am_sn_compare_rx e) (am_rx_list e) pdu\<rparr>
           in res_bind (am_reception_actions e1 pdu) (\<lambda>e2.
              Inr (if p \<noteq> 0 then e2\<lparr>am_status_triggered := True\<rparr> else e2)))"

definition am_recv_data_pdu ::
  "byte list \<Rightarrow> nr_rlc_pdu_decoder \<Rightarrow> nr_rlc_entity_am \<Rightarrow> nr_rlc_entity_am res" where
  "am_recv_data_pdu buffer d0 e =
     (let sz = int (length buffer)
      in R_bits (Inr (am_discard_pdu (-1) sz e)) d0 1 (\<lambda>p d1.
         R_bits (Inr (am_discard_pdu p sz e)) d1 2 (\<lambda>si d2.
         let is_first = (si AND 2 = 0); is_last = (si AND 1 = 0);
             read_sn = (\<lambda>d3. R_bits (Inr (am_discard_pdu p sz e)) d3 (am_sn_field_length e) (\<lambda>sn d4.
               if \<not> is_first
               then R_bits (Inr (am_discard_pdu p sz e)) d4 16 (\<lambda>so d5.
                      if so = 0 then Inr (am_discard_pdu p sz e)
                      else am_rx_data buffer p sn so is_first is_last (dec_byte d5) e)
               else am_rx_data buffer p sn 0 is_first is_last (dec_byte d4) e))
         in if am_sn_field_length e = 18
            then R_bits (Inr (am_discard_pdu p sz e)) d2 2 (\<lambda>r d3. read_sn d3)
            else read_sn d2)))"

end
