(* ===== verification/RlcAmControl.thy ===== *)
theory RlcAmControl
  imports RlcAm
begin

unbundle bit_operations_syntax

text \<open>
  \<open>process_control_pdu\<close> of \<open>nr_rlc_entity_am.c\<close>: a status PDU of the peer is read twice, once to
  validate it and once to act on it, and \<open>nr_rlc_entity_am_recv_pdu\<close>, which tells control from data
  PDUs.
\<close>

section \<open>Reading a status PDU\<close>

text \<open>A read without the check of the decoder, as in the second pass.\<close>

definition U_bits ::
  "nr_rlc_pdu_decoder \<Rightarrow> int \<Rightarrow> (int \<Rightarrow> nr_rlc_pdu_decoder \<Rightarrow> 'a res) \<Rightarrow> 'a res" where
  "U_bits d n k = res_bind (nr_rlc_pdu_decoder_get_bits d n) (\<lambda>(v, d'). k v d')"

type_synonym 'a reader = "nr_rlc_pdu_decoder \<Rightarrow> int \<Rightarrow> (int \<Rightarrow> nr_rlc_pdu_decoder \<Rightarrow> 'a res) \<Rightarrow> 'a res"

text \<open>
  One NACK block: \<open>nack_sn\<close>, \<open>e1\<close>, \<open>so_start\<close>, \<open>so_end\<close> (\<open>-1\<close> for "to the end") and \<open>range\<close>. Both passes
  read it with the same code, the first with checked reads.
\<close>

definition am_read_nack ::
  "'a reader \<Rightarrow> nr_rlc_entity_am \<Rightarrow> nr_rlc_pdu_decoder \<Rightarrow>
   (int \<Rightarrow> int \<Rightarrow> int \<Rightarrow> int \<Rightarrow> int \<Rightarrow> nr_rlc_pdu_decoder \<Rightarrow> 'a res) \<Rightarrow> 'a res" where
  "am_read_nack rd e d0 k =
     rd d0 (am_sn_field_length e) (\<lambda>nack_sn d1.
     rd d1 1 (\<lambda>e1 d2.
     rd d2 1 (\<lambda>e2 d3.
     rd d3 1 (\<lambda>e3 d4.
     rd d4 (if am_sn_field_length e = 18 then 3 else 1) (\<lambda>r d5.
     let read_range = (\<lambda>so_start so_end d6.
           let so_end' = (if so_end = 65535 then -1 else so_end)
           in if e3 \<noteq> 0 then rd d6 8 (\<lambda>rng d7. k nack_sn e1 so_start so_end' rng d7)
              else k nack_sn e1 so_start so_end' 1 d6)
     in if e2 \<noteq> 0
        then rd d5 16 (\<lambda>so_start d6. rd d6 16 (\<lambda>so_end d7. read_range so_start so_end d7))
        else read_range 0 65535 d5)))))"

declare U_bits_def [code_unfold] am_read_nack_def [code_unfold]

text \<open>
  The check of one block, \<open>for (i = 0; i < range; i++)\<close> with \<open>n\<close> iterations left. \<open>prev_nack_sn\<close> and
  \<open>prev_so_end\<close> are variables that the first pass does not assign.
\<close>

fun am_check_range ::
  "nr_rlc_entity_am \<Rightarrow> int \<Rightarrow> int \<Rightarrow> int \<Rightarrow> int \<Rightarrow> int \<Rightarrow> int \<Rightarrow> nat \<Rightarrow> bool" where
  "am_check_range e ack_sn prev_nack_sn prev_so_end nack_sn so_start rng 0 = True"
| "am_check_range e ack_sn prev_nack_sn prev_so_end nack_sn so_start rng (Suc n) =
     (let i = rng - int (Suc n);
          cur_nack_sn = (nack_sn + i) mod am_sn_modulus e;
          cur_so_start = (if i = 0 then so_start else 0);
          c = am_sn_compare_tx e cur_nack_sn prev_nack_sn
      in if prev_nack_sn \<noteq> -1 \<and> (c < 0 \<or> (c = 0 \<and> (prev_so_end = -1 \<or> cur_so_start \<le> prev_so_end)))
         then False
         else if am_sn_compare_tx e cur_nack_sn ack_sn > 0 then False
         else am_check_range e ack_sn prev_nack_sn prev_so_end nack_sn so_start rng n)"

text \<open>
  \<open>while (e1)\<close> of the first pass; \<open>Inr False\<close> is the jump to \<open>err\<close>. Every block takes at least two
  bytes, so that as many steps as the PDU has bytes are enough (\<open>validate_enough_fuel\<close> below).
\<close>

fun am_validate_nacks ::
  "nat \<Rightarrow> nr_rlc_entity_am \<Rightarrow> int \<Rightarrow> int \<Rightarrow> int \<Rightarrow> nr_rlc_pdu_decoder \<Rightarrow> int \<Rightarrow> bool res" where
  "am_validate_nacks 0 e ack_sn prev_nack_sn prev_so_end d e1 = Inl NoReturn"
| "am_validate_nacks (Suc n) e ack_sn prev_nack_sn prev_so_end d e1 =
     (if e1 = 0 then Inr True
      else am_read_nack (R_bits (Inr False)) e d (\<lambda>nack_sn e1' so_start so_end rng d'.
        if am_check_range e ack_sn prev_nack_sn prev_so_end nack_sn so_start rng (nat rng)
        then am_validate_nacks n e ack_sn prev_nack_sn prev_so_end d' e1'
        else Inr False))"

text \<open>The first pass: the header, the check of \<open>ack_sn\<close>, the blocks.\<close>

definition am_validate_control_pdu :: "byte list \<Rightarrow> nr_rlc_entity_am \<Rightarrow> bool res" where
  "am_validate_control_pdu buffer e =
     R_bits (Inr False) (nr_rlc_pdu_decoder_init buffer) 1 (\<lambda>dc d1.
     R_bits (Inr False) d1 3 (\<lambda>cpt d2.
     if cpt \<noteq> 0 then Inr False
     else R_bits (Inr False) d2 (am_sn_field_length e) (\<lambda>ack_sn d3.
     R_bits (Inr False) d3 1 (\<lambda>e1 d4.
     R_bits (Inr False) d4 (if am_sn_field_length e = 18 then 1 else 7) (\<lambda>r d5.
     if am_sn_compare_tx e ack_sn (am_tx_next e) > 0 then Inr False
     else am_validate_nacks (Suc (length buffer)) e ack_sn (-1) 0 d5 e1)))))"

section \<open>Acting on the NACKs\<close>

definition so_overlap :: "int \<Rightarrow> int \<Rightarrow> int \<Rightarrow> int \<Rightarrow> bool" where
  "so_overlap s1 e1 s2 e2 =
     (if s1 < s2 then (if e1 = -1 \<or> e1 \<ge> s2 then True else False)
      else if e2 = -1 \<or> s1 \<le> e2 then True else False)"

text \<open>
  The local variables of the second pass. The wait list is edited in place: \<open>ct_wait_done\<close> are the
  segments up to \<open>prev_wait_list\<close>, \<open>ct_wait_rest\<close> what follows it, where \<open>cur_wait_list\<close> stands, unless
  it was set to null (\<open>ct_wait_stop\<close>). \<open>ct_end\<close> is \<open>end_wait_list\<close> (\<open>None\<close> null, \<open>Some None\<close> the
  address of \<open>head_wait_list\<close>). The new retransmit list ends at \<open>new_retransmit_list\<close>, the last segment
  of \<open>ct_new_retx\<close>, whose \<open>next\<close> pointer holds \<open>ct_new_next\<close>.
\<close>

record am_ctrl =
  ct_e :: nr_rlc_entity_am
  ct_wait_done :: "segment list"
  ct_wait_rest :: "segment list"
  ct_wait_stop :: bool
  ct_end :: "segment option option"
  ct_new_retx :: "segment list"
  ct_new_next :: "segment list"
  ct_cur_retx :: "segment list"

definition ct_cur_wait :: "am_ctrl \<Rightarrow> segment list" where
  "ct_cur_wait c = (if ct_wait_stop c then [] else ct_wait_rest c)"

text \<open>\<open>prev_wait_list->next = cur_wait_list->next\<close>, with the bookkeeping of the end of the list.\<close>

definition ct_unlink_wait :: "segment \<Rightarrow> am_ctrl \<Rightarrow> am_ctrl" where
  "ct_unlink_wait s c =
     c\<lparr>ct_wait_rest := tl (ct_wait_rest c),
       ct_end := (if Some s = am_wait_end (ct_e c) then Some (end_of (ct_wait_done c)) else ct_end c)\<rparr>"

text \<open>Free an acknowledged segment; report the delivery when it was the last one of its SDU.\<close>

definition am_ack_segment :: "segment \<Rightarrow> nr_rlc_entity_am \<Rightarrow> nr_rlc_entity_am" where
  "am_ack_segment s e =
     (let upper_layer_id = sdu_upper_layer_id (sdu_of (am_heap e) s);
          sdu_sz = sdu_size (sdu_of (am_heap e) s);
          (released, h) = nr_rlc_free_sdu_segment s (am_heap e);
          e1 = e\<lparr>am_heap := h\<rparr>
      in if released
         then e1\<lparr>am_tx_size := am_tx_size e1 - sdu_sz,
                 am_common := emit (SduSuccessfulDelivery upper_layer_id)
                   (stats_update (txsdu_bytes_update (\<lambda>n. n + word_of_int sdu_sz)) (am_common e1))\<rparr>
         else e1)"

definition am_retx_size_add :: "int \<Rightarrow> nr_rlc_entity_am \<Rightarrow> nr_rlc_entity_am" where
  "am_retx_size_add n e = e\<lparr>am_common := bstatus_update (retx_size_update (\<lambda>m. m + n)) (am_common e)\<rparr>"

definition am_seg_pdu_size :: "nr_rlc_entity_am \<Rightarrow> segment \<Rightarrow> int" where
  "am_seg_pdu_size e s = am_compute_pdu_header_size e s + seg_size s"

text \<open>Count a retransmission of the SDU of \<open>s\<close>, and report it when there were too many.\<close>

definition am_count_retx :: "segment \<Rightarrow> nr_rlc_entity_am \<Rightarrow> nr_rlc_entity_am" where
  "am_count_retx s e =
     (let e1 = e\<lparr>am_heap := heap_upd (seg_sdu s) (sdu_retx_count_update (\<lambda>n. n + 1)) (am_heap e)\<rparr>;
          u = sdu_of (am_heap e1) s
      in if sdu_retx_count u \<ge> am_max_retx_threshold e1 * sdu_ref_count u
         then e1\<lparr>am_common := emit MaxRetxReached (am_common e1)\<rparr> else e1)"

datatype ctrl_outcome = ProcessNextPdu | DoneNack | ListsOver

text \<open>The label \<open>process_wait_list_head\<close>, for the segment \<open>s\<close> under \<open>cur_wait_list\<close>.\<close>

definition am_wait_head ::
  "int \<Rightarrow> int \<Rightarrow> int \<Rightarrow> int \<Rightarrow> segment \<Rightarrow> am_ctrl \<Rightarrow> ctrl_outcome \<times> am_ctrl" where
  "am_wait_head ack_sn nack_sn so_start so_end s c =
     (let e = ct_e c; sn = seg_sn (am_heap e) s; cmp = am_sn_compare_tx e sn nack_sn
      in if sn = nack_sn \<and> so_overlap so_start so_end (seg_so s) (seg_so s + seg_size s - 1)
         then let c1 = ct_unlink_wait s c
              in (ProcessNextPdu, c1\<lparr>ct_new_retx := ct_new_retx c1 @ [s], ct_new_next := [],
                    ct_e := am_retx_size_add (am_seg_pdu_size e s) (am_count_retx s e)\<rparr>)
         else if cmp > 0 \<or> (cmp = 0 \<and> seg_so s > so_start) then (DoneNack, c)
         else if am_sn_compare_tx e sn ack_sn < 0
         then (ProcessNextPdu, (ct_unlink_wait s c)\<lparr>ct_e := am_ack_segment s e\<rparr>)
         else if am_sn_compare_tx e sn ack_sn > 0 then (ProcessNextPdu, c\<lparr>ct_wait_stop := True\<rparr>)
         else (ProcessNextPdu, c\<lparr>ct_wait_done := ct_wait_done c @ [s],
                 ct_wait_rest := tl (ct_wait_rest c)\<rparr>))"

text \<open>The label \<open>process_retransmit_list_head\<close>, for the segment \<open>s\<close> under \<open>cur_retransmit_list\<close>.\<close>

definition am_retx_head ::
  "int \<Rightarrow> int \<Rightarrow> int \<Rightarrow> int \<Rightarrow> segment \<Rightarrow> am_ctrl \<Rightarrow> ctrl_outcome \<times> am_ctrl" where
  "am_retx_head ack_sn nack_sn so_start so_end s c =
     (let e = ct_e c; sn = seg_sn (am_heap e) s; cmp = am_sn_compare_tx e sn nack_sn;
          keep = c\<lparr>ct_new_retx := ct_new_retx c @ [s], ct_new_next := [],
                   ct_cur_retx := tl (ct_cur_retx c)\<rparr>
      in if sn = nack_sn \<and> so_overlap so_start so_end (seg_so s) (seg_so s + seg_size s - 1)
         then (ProcessNextPdu, keep)
         else if cmp > 0 \<or> (cmp = 0 \<and> seg_so s > so_start) then (DoneNack, c)
         else if am_sn_compare_tx e sn ack_sn < 0
         then (ProcessNextPdu, c\<lparr>ct_cur_retx := tl (ct_cur_retx c),
                 ct_e := am_ack_segment s (am_retx_size_add (- am_seg_pdu_size e s) e)\<rparr>)
         else if ct_cur_wait c = []
         then (ListsOver, c\<lparr>ct_new_next := ct_cur_retx c, ct_cur_retx := []\<rparr>)
         else (ProcessNextPdu, keep))"

text \<open>The label \<open>process_next_pdu\<close>: the smallest segment of the two lists is next.\<close>

definition am_ctrl_step ::
  "int \<Rightarrow> int \<Rightarrow> int \<Rightarrow> int \<Rightarrow> am_ctrl \<Rightarrow> ctrl_outcome \<times> am_ctrl" where
  "am_ctrl_step ack_sn nack_sn so_start so_end c =
     (case (ct_cur_wait c, ct_cur_retx c) of
        ([], []) \<Rightarrow> (ListsOver, c)
      | ([], r # rs) \<Rightarrow> am_retx_head ack_sn nack_sn so_start so_end r c
      | (w # ws, []) \<Rightarrow> am_wait_head ack_sn nack_sn so_start so_end w c
      | (w # ws, r # rs) \<Rightarrow>
          let h = am_heap (ct_e c); cmp = am_sn_compare_tx (ct_e c) (seg_sn h w) (seg_sn h r)
          in if cmp < 0 \<or> (cmp = 0 \<and> seg_so w < seg_so r)
             then am_wait_head ack_sn nack_sn so_start so_end w c
             else am_retx_head ack_sn nack_sn so_start so_end r c)"

lemma am_ctrl_step_decreases:
  assumes "am_ctrl_step ack nack s t c = (ProcessNextPdu, c')"
  shows "length (ct_cur_wait c') + length (ct_cur_retx c') < length (ct_cur_wait c) + length (ct_cur_retx c)"
  using assms
  by (auto simp: am_ctrl_step_def am_wait_head_def am_retx_head_def ct_unlink_wait_def ct_cur_wait_def Let_def
      split: list.splits if_splits)

text \<open>All segments one NACK is about; \<open>True\<close> when the lists are over.\<close>

function am_process_nack :: "int \<Rightarrow> int \<Rightarrow> int \<Rightarrow> int \<Rightarrow> am_ctrl \<Rightarrow> bool \<times> am_ctrl" where
  "am_process_nack ack_sn nack_sn so_start so_end c =
     (case am_ctrl_step ack_sn nack_sn so_start so_end c of
        (ProcessNextPdu, c') \<Rightarrow> am_process_nack ack_sn nack_sn so_start so_end c'
      | (DoneNack, c') \<Rightarrow> (False, c')
      | (ListsOver, c') \<Rightarrow> (True, c'))"
  by pat_completeness auto
termination
  by (relation "measure (\<lambda>(ack, nack, s, t, c). length (ct_cur_wait c) + length (ct_cur_retx c))")
     (auto dest: am_ctrl_step_decreases [OF sym])

declare am_process_nack.simps [simp del]

text \<open>\<open>for (i = 0; i < range; i++)\<close> of the second pass, \<open>n\<close> iterations left.\<close>

fun am_process_range :: "int \<Rightarrow> int \<Rightarrow> int \<Rightarrow> int \<Rightarrow> int \<Rightarrow> nat \<Rightarrow> am_ctrl \<Rightarrow> am_ctrl" where
  "am_process_range ack_sn nack_sn so_start so_end rng 0 c = c"
| "am_process_range ack_sn nack_sn so_start so_end rng (Suc n) c =
     (let i = rng - int (Suc n);
          cur_nack_sn = (nack_sn + i) mod am_sn_modulus (ct_e c);
          cur_so_start = (if i = 0 then so_start else 0);
          cur_so_end = (if i = rng - 1 then so_end else -1);
          (lists_over, c') = am_process_nack ack_sn cur_nack_sn cur_so_start cur_so_end c
      in if lists_over then c' else am_process_range ack_sn nack_sn so_start so_end rng n c')"

text \<open>The label \<open>lists_over\<close>: a NACK for \<open>poll_sn\<close> stops \<open>t_poll_retransmit\<close>.\<close>

definition am_stop_poll_nack :: "int \<Rightarrow> int \<Rightarrow> nr_rlc_entity_am \<Rightarrow> nr_rlc_entity_am" where
  "am_stop_poll_nack nack_sn rng e =
     (if am_sn_compare_tx e nack_sn (am_poll_sn e) \<le> 0 \<and>
         am_sn_compare_tx e (am_poll_sn e) ((nack_sn + rng) mod am_sn_modulus e) < 0
      then e\<lparr>am_t_poll_retransmit_start := 0\<rparr> else e)"

text \<open>\<open>while (e1)\<close> of the second pass.\<close>

fun am_process_nacks :: "nat \<Rightarrow> int \<Rightarrow> nr_rlc_pdu_decoder \<Rightarrow> int \<Rightarrow> am_ctrl \<Rightarrow> am_ctrl res" where
  "am_process_nacks 0 ack_sn d e1 c = Inl NoReturn"
| "am_process_nacks (Suc n) ack_sn d e1 c =
     (if e1 = 0 then Inr c
      else am_read_nack U_bits (ct_e c) d (\<lambda>nack_sn e1' so_start so_end rng d'.
        let c1 = am_process_range ack_sn nack_sn so_start so_end rng (nat rng) c
        in am_process_nacks n ack_sn d' e1' (c1\<lparr>ct_e := am_stop_poll_nack nack_sn rng (ct_e c1)\<rparr>)))"

section \<open>Finishing with the ACK\<close>

text \<open>The two loops that free what \<open>ack_sn\<close> acknowledges of the rest of the lists.\<close>

function am_finish_wait :: "int \<Rightarrow> am_ctrl \<Rightarrow> am_ctrl" where
  "am_finish_wait ack_sn c =
     (case ct_cur_wait c of [] \<Rightarrow> c
      | s # ss \<Rightarrow>
          if am_sn_compare_tx (ct_e c) (seg_sn (am_heap (ct_e c)) s) ack_sn < 0
          then am_finish_wait ack_sn ((ct_unlink_wait s c)\<lparr>ct_e := am_ack_segment s (ct_e c)\<rparr>)
          else c)"
  by pat_completeness auto
termination
  by (relation "measure (\<lambda>(ack, c). length (ct_cur_wait c))")
     (auto simp: ct_cur_wait_def ct_unlink_wait_def split: if_splits)

function am_finish_retx :: "int \<Rightarrow> am_ctrl \<Rightarrow> am_ctrl" where
  "am_finish_retx ack_sn c =
     (case ct_cur_retx c of [] \<Rightarrow> c
      | s # ss \<Rightarrow>
          if am_sn_compare_tx (ct_e c) (seg_sn (am_heap (ct_e c)) s) ack_sn < 0
          then am_finish_retx ack_sn (c\<lparr>ct_cur_retx := ss,
                 ct_e := am_ack_segment s (am_retx_size_add (- am_seg_pdu_size (ct_e c) s) (ct_e c))\<rparr>)
          else c)"
  by pat_completeness auto
termination
  by (relation "measure (\<lambda>(ack, c). length (ct_cur_retx c))") auto

declare am_finish_wait.simps [simp del] am_finish_retx.simps [simp del]

text \<open>The lists are put back into the entity, and \<open>tx_next_ack\<close> moves.\<close>

definition am_finish_lists :: "am_ctrl \<Rightarrow> nr_rlc_entity_am" where
  "am_finish_lists c =
     (let c1 = c\<lparr>ct_new_next := ct_cur_retx c\<rparr>
      in (ct_e c1)\<lparr>am_wait_list := ct_wait_done c1 @ ct_wait_rest c1,
            am_retransmit_list := ct_new_retx c1 @ ct_new_next c1,
            am_wait_end := (case ct_end c1 of None \<Rightarrow> am_wait_end (ct_e c1) | Some p \<Rightarrow> p)\<rparr>)"

definition am_update_tx_next_ack :: "int \<Rightarrow> nr_rlc_entity_am \<Rightarrow> nr_rlc_entity_am" where
  "am_update_tx_next_ack ack_sn e =
     (let h = am_heap e;
          t0 = am_tx_next e;
          t1 = (case am_wait_list e of s # _ \<Rightarrow>
                  if am_sn_compare_tx e (seg_sn h s) t0 < 0 then seg_sn h s else t0 | [] \<Rightarrow> t0);
          t2 = (case am_retransmit_list e of s # _ \<Rightarrow>
                  if am_sn_compare_tx e (seg_sn h s) t1 < 0 then seg_sn h s else t1 | [] \<Rightarrow> t1);
          t3 = (if am_sn_compare_tx e ack_sn t2 < 0 then ack_sn else t2)
      in e\<lparr>am_tx_next_ack := t3\<rparr>)"

section \<open>The whole function\<close>

definition am_ctrl_init :: "nr_rlc_entity_am \<Rightarrow> am_ctrl" where
  "am_ctrl_init e =
     \<lparr>ct_e = e, ct_wait_done = [], ct_wait_rest = am_wait_list e, ct_wait_stop = False, ct_end = None,
      ct_new_retx = [], ct_new_next = [], ct_cur_retx = am_retransmit_list e\<rparr>"

definition am_stop_poll_ack :: "int \<Rightarrow> nr_rlc_entity_am \<Rightarrow> nr_rlc_entity_am" where
  "am_stop_poll_ack ack_sn e =
     (if am_sn_compare_tx e (am_poll_sn e) ack_sn < 0 then e\<lparr>am_t_poll_retransmit_start := 0\<rparr> else e)"

definition am_process_control_pdu :: "byte list \<Rightarrow> nr_rlc_entity_am \<Rightarrow> nr_rlc_entity_am res" where
  "am_process_control_pdu buffer e =
     res_bind (am_validate_control_pdu buffer e) (\<lambda>valid.
     if \<not> valid then Inr e
     else
       U_bits (nr_rlc_pdu_decoder_init buffer) 1 (\<lambda>dc d1.
       U_bits d1 3 (\<lambda>cpt d2.
       U_bits d2 (am_sn_field_length e) (\<lambda>ack_sn d3.
       U_bits d3 1 (\<lambda>e1 d4.
       U_bits d4 (if am_sn_field_length e = 18 then 1 else 7) (\<lambda>r d5.
       res_bind (am_process_nacks (Suc (length buffer)) ack_sn d5 e1
                   ((am_ctrl_init e)\<lparr>ct_e := am_stop_poll_ack ack_sn e\<rparr>)) (\<lambda>c.
       Inr (am_update_tx_next_ack ack_sn
              (am_finish_lists (am_finish_retx ack_sn (am_finish_wait ack_sn c)))))))))))"

text \<open>\<open>nr_rlc_entity_am_recv_pdu\<close>: counters, the D/C bit, then the control or the data branch.\<close>

definition nr_rlc_entity_am_recv_pdu :: "byte list \<Rightarrow> nr_rlc_entity_am \<Rightarrow> nr_rlc_entity_am res" where
  "nr_rlc_entity_am_recv_pdu buffer e =
     (let sz = int (length buffer);
          e1 = am_count_rx rxpdu_pkts_update rxpdu_bytes_update sz e
      in R_bits (Inr (am_discard_pdu 0 sz e1)) (nr_rlc_pdu_decoder_init buffer) 1 (\<lambda>dc d.
         if dc = 0 then am_process_control_pdu buffer e1 else am_recv_data_pdu buffer d e1))"

end
