(* ===== verification/RlcAmTx.thy ===== *)
theory RlcAmTx
  imports RlcAmControl
begin

unbundle bit_operations_syntax

text \<open>
  The transmitting half of \<open>nr_rlc_entity_am.c\<close>: polling, serialisation, segmentation, new and
  retransmitted PDUs, status reports, \<open>recv_sdu\<close>, the timers, discard and re-establishment.
\<close>

section \<open>Polling and serialisation\<close>

definition am_is_window_stalling :: "nr_rlc_entity_am \<Rightarrow> bool" where
  "am_is_window_stalling e =
     (\<not> (am_sn_compare_tx e (am_tx_next_ack e) (am_tx_next e) \<le> 0 \<and>
         am_sn_compare_tx e (am_tx_next e)
           ((am_tx_next_ack e + am_window_size e) mod am_sn_modulus e) < 0))"

definition am_include_poll :: "byte list \<Rightarrow> nr_rlc_entity_am \<Rightarrow> byte list \<times> nr_rlc_entity_am" where
  "am_include_poll buffer e =
     (buffer[0 := buffer ! 0 OR 0x40],
      e\<lparr>am_pdu_without_poll := 0, am_byte_without_poll := 0,
        am_poll_sn := (am_tx_next e - 1 + am_sn_modulus e) mod am_sn_modulus e,
        am_t_poll_retransmit_start := am_t_current e\<rparr>)"

definition am_check_poll_after_pdu_assembly :: "nr_rlc_entity_am \<Rightarrow> bool" where
  "am_check_poll_after_pdu_assembly e =
     (let transmission_buffer_empty = (am_tx_list e = []);
          retransmission_buffer_empty = (am_retransmit_list e = [])
      in (transmission_buffer_empty \<and> retransmission_buffer_empty) \<or> am_is_window_stalling e)"

text \<open>The number of bytes written, the buffer and the entity.\<close>

definition am_serialize_sdu ::
  "segment \<Rightarrow> byte list \<Rightarrow> bool \<Rightarrow> nr_rlc_entity_am \<Rightarrow> (int \<times> byte list \<times> nr_rlc_entity_am) res" where
  "am_serialize_sdu s buffer p e =
     res_bind (nr_rlc_pdu_encoder_put_bits (nr_rlc_pdu_encoder_init buffer) 1 1) (\<lambda>n0.
     res_bind (nr_rlc_pdu_encoder_put_bits n0 0 1) (\<lambda>n1.
     res_bind (nr_rlc_pdu_encoder_put_bits n1 (1 - of_bool (seg_is_first s)) 1) (\<lambda>n2.
     res_bind (nr_rlc_pdu_encoder_put_bits n2 (1 - of_bool (seg_is_last s)) 1) (\<lambda>n3.
     res_bind (if am_sn_field_length e = 18 then nr_rlc_pdu_encoder_put_bits n3 0 2 else Inr n3) (\<lambda>n4.
     res_bind (nr_rlc_pdu_encoder_put_bits n4 (seg_sn (am_heap e) s) (am_sn_field_length e)) (\<lambda>n5.
     res_bind (if \<not> seg_is_first s then nr_rlc_pdu_encoder_put_bits n5 (seg_so s) 16 else Inr n5) (\<lambda>n6.
     res_bind (slice (sdu_data (sdu_of (am_heap e) s)) (seg_so s) (seg_size s)) (\<lambda>data.
     res_bind (splice (enc_buffer n6) (enc_byte n6) data) (\<lambda>buf.
     let (buf', e') = (if p then am_include_poll buf e else (buf, e))
     in Inr (int (enc_byte n6) + seg_size s, buf', e'))))))))))"

text \<open>
  \<open>resegment\<close>: the shortened segment, the new one with the rest of the bytes, and the entity.
\<close>

definition am_resegment ::
  "segment \<Rightarrow> int \<Rightarrow> nr_rlc_entity_am \<Rightarrow> segment \<times> segment \<times> nr_rlc_entity_am" where
  "am_resegment s pdu_sz e =
     (let e1 = e\<lparr>am_heap := heap_upd (seg_sdu s) (sdu_ref_count_update (\<lambda>n. n + 1)) (am_heap e)\<rparr>;
          pdu_header_size = am_compute_pdu_header_size e1 s;
          over_size = pdu_header_size + seg_size s - pdu_sz;
          s1 = s\<lparr>seg_size := seg_size s - over_size, seg_is_last := False\<rparr>;
          s2 = s\<lparr>seg_size := over_size, seg_so := seg_so s1 + seg_size s1, seg_is_first := False\<rparr>
      in (s1, s2, e1))"

section \<open>Status reports\<close>

text \<open>\<open>md_next\<close>, a pointer into the reception list, is the list from there on.\<close>

record missing_data =
  md_sn_start :: int
  md_so_start :: int
  md_sn_end :: int
  md_so_end :: int
  md_next :: "nr_rlc_pdu list"

text \<open>\<open>sn_start = -1\<close>: nothing to report. The other fields are then not read.\<close>

definition md_none :: missing_data where
  "md_none = \<lparr>md_sn_start = -1, md_so_start = 0, md_sn_end = 0, md_so_end = 0, md_next = []\<rparr>"

definition am_out_of_report :: "nr_rlc_entity_am \<Rightarrow> int \<Rightarrow> bool" where
  "am_out_of_report e sn \<longleftrightarrow> am_sn_compare_rx e (am_rx_highest_status e) sn \<le> 0"

definition am_status_last :: "nr_rlc_entity_am \<Rightarrow> int" where
  "am_status_last e = (am_rx_highest_status e - 1 + am_sn_modulus e) mod am_sn_modulus e"

text \<open>The label \<open>set_end_different_sdu\<close>; \<open>cur\<close> is the PDU after the missing part.\<close>

definition am_set_end_different_sdu ::
  "nr_rlc_entity_am \<Rightarrow> nr_rlc_pdu \<Rightarrow> missing_data \<Rightarrow> missing_data" where
  "am_set_end_different_sdu e cur m =
     (let m1 = (if pdu_is_first cur
                then m\<lparr>md_sn_end := (pdu_sn cur - 1 + am_sn_modulus e) mod am_sn_modulus e, md_so_end := 65535\<rparr>
                else m\<lparr>md_sn_end := pdu_sn cur, md_so_end := pdu_so cur - 1\<rparr>)
      in if am_out_of_report e (md_sn_end m1)
         then m1\<lparr>md_sn_end := am_status_last e, md_so_end := 65535, md_next := []\<rparr> else m1)"

text \<open>The label \<open>next_pdu\<close>; \<open>rest\<close> is the list from \<open>cur->next\<close> on.\<close>

fun am_next_missing_loop ::
  "nr_rlc_entity_am \<Rightarrow> nr_rlc_pdu \<Rightarrow> nr_rlc_pdu list \<Rightarrow> int \<Rightarrow> bool \<Rightarrow> missing_data" where
  "am_next_missing_loop e cur [] max_so0 last_reached0 =
     (let cur_max_so = pdu_so cur + pdu_size cur - 1;
          max_so = (if cur_max_so > max_so0 then cur_max_so else max_so0);
          last_reached = (last_reached0 \<or> pdu_is_last cur);
          (sn_start, so_start) =
            (if pdu_data cur = None then ((pdu_sn cur + 1) mod am_sn_modulus e, 0)
             else if last_reached then ((pdu_sn cur + 1) mod am_sn_modulus e, 0)
             else (pdu_sn cur, max_so + 1))
      in if am_out_of_report e sn_start then md_none
         else \<lparr>md_sn_start = sn_start, md_so_start = so_start, md_sn_end = am_status_last e,
               md_so_end = 65535, md_next = []\<rparr>)"
| "am_next_missing_loop e cur (nxt # rest) max_so0 last_reached0 =
     (let cur_max_so = pdu_so cur + pdu_size cur - 1;
          max_so = (if cur_max_so > max_so0 then cur_max_so else max_so0);
          last_reached = (last_reached0 \<or> pdu_is_last cur);
          sn = pdu_sn cur
      in if pdu_sn nxt = sn \<and> max_so \<ge> pdu_so nxt - 1
         then am_next_missing_loop e nxt rest max_so last_reached
         else if pdu_sn nxt = (sn + 1) mod am_sn_modulus e \<and> last_reached \<and> pdu_is_first nxt
         then am_next_missing_loop e nxt rest 0 False
         else if pdu_sn nxt = sn
         then if am_out_of_report e sn then md_none
              else \<lparr>md_sn_start = sn, md_so_start = max_so + 1, md_sn_end = sn,
                    md_so_end = pdu_so nxt - 1, md_next = nxt # rest\<rparr>
         else
           let (sn_start, so_start) =
                 (if last_reached then ((sn + 1) mod am_sn_modulus e, 0) else (sn, max_so + 1))
           in if am_out_of_report e sn_start then md_none
              else am_set_end_different_sdu e nxt
                     \<lparr>md_sn_start = sn_start, md_so_start = so_start, md_sn_end = 0, md_so_end = 0,
                      md_next = nxt # rest\<rparr>)"

definition am_next_missing ::
  "nr_rlc_entity_am \<Rightarrow> nr_rlc_pdu \<Rightarrow> nr_rlc_pdu list \<Rightarrow> bool \<Rightarrow> missing_data" where
  "am_next_missing e cur rest check_head =
     (if check_head \<and> (pdu_sn cur \<noteq> am_rx_next e \<or> \<not> pdu_is_first cur)
      then if am_out_of_report e (am_rx_next e) then md_none
           else am_set_end_different_sdu e cur
                  \<lparr>md_sn_start = am_rx_next e, md_so_start = 0, md_sn_end = 0, md_so_end = 0,
                   md_next = cur # rest\<rparr>
      else am_next_missing_loop e cur rest 0 False)"

definition am_nack_size :: "nr_rlc_entity_am \<Rightarrow> int \<Rightarrow> int \<Rightarrow> int \<Rightarrow> int \<Rightarrow> int" where
  "am_nack_size e sn_start so_start sn_end so_end =
     (let nack_length = 2 + of_bool (am_sn_field_length e = 18)
      in if sn_start = sn_end
         then if so_start = 0 \<and> so_end = 65535 then nack_length else nack_length + 4
         else if so_start = 0 \<and> so_end = 65535 then nack_length + 1 else nack_length + 5)"

definition am_get_e1_position :: "nr_rlc_entity_am \<Rightarrow> nr_rlc_pdu_encoder \<Rightarrow> nat \<times> nat" where
  "am_get_e1_position e enc =
     (if am_sn_field_length e = 18 then (enc_byte enc + 2, 5) else (enc_byte enc + 1, 3))"

text \<open>
  The range a step of \<open>generate_missing\<close> and of \<open>missing_size\<close> reports: at most 255 sequence numbers,
  from \<open>sn_start\<close>, of the \<open>sn_count\<close> that are left.
\<close>

definition am_nack_range :: "nr_rlc_entity_am \<Rightarrow> missing_data \<Rightarrow> int \<Rightarrow> int \<Rightarrow> int \<times> int \<times> int \<times> int" where
  "am_nack_range e m sn_start sn_count =
     (let cur_sn_count = (if sn_count > 255 then 255 else sn_count);
          so_start = (if sn_start = md_sn_start m then md_so_start m else 0);
          (sn_end, so_end) =
            (if cur_sn_count = sn_count then (md_sn_end m, md_so_end m)
             else ((sn_start + 254) mod am_sn_modulus e, 65535))
      in (cur_sn_count, so_start, sn_end, so_end))"

text \<open>One NACK block is written; the result is the encoder and the place of \<open>so_end\<close>, if any.\<close>

definition am_put_nack ::
  "nr_rlc_entity_am \<Rightarrow> int \<Rightarrow> int \<Rightarrow> int \<Rightarrow> int \<Rightarrow> int \<Rightarrow> nr_rlc_pdu_encoder \<Rightarrow>
   (nr_rlc_pdu_encoder \<times> nat option \<times> int) res" where
  "am_put_nack e sn_start so_start sn_end so_end cur_sn_count n0 =
     (let r_bits = (if am_sn_field_length e = 18 then 3 else 1);
          e2 = \<not> (so_start = 0 \<and> so_end = 65535);
          e3 = (sn_start \<noteq> sn_end)
      in res_bind (nr_rlc_pdu_encoder_put_bits n0 sn_start (am_sn_field_length e)) (\<lambda>n1.
         res_bind (nr_rlc_pdu_encoder_put_bits n1 0 1) (\<lambda>n2.
         res_bind (nr_rlc_pdu_encoder_put_bits n2 (of_bool e2) 1) (\<lambda>n3.
         res_bind (nr_rlc_pdu_encoder_put_bits n3 (of_bool e3) 1) (\<lambda>n4.
         res_bind (nr_rlc_pdu_encoder_put_bits n4 0 r_bits) (\<lambda>n5.
         res_bind (if e2
                   then res_bind (nr_rlc_pdu_encoder_put_bits n5 so_start 16) (\<lambda>n6.
                        res_bind (nr_rlc_pdu_encoder_put_bits n6 so_end 16) (\<lambda>n7.
                        Inr (n7, Some (enc_byte n6))))
                   else Inr (n5, None)) (\<lambda>(n8, so_end_address).
         if e3
         then res_bind (nr_rlc_pdu_encoder_put_bits n8 cur_sn_count 8) (\<lambda>n9.
              Inr (n9, so_end_address, sn_start + cur_sn_count - 1))
         else Inr (n8, so_end_address, sn_start))))))))"

text \<open>What \<open>generate_missing\<close> changes through its pointers.\<close>

record am_gen =
  gn_enc :: nr_rlc_pdu_encoder
  gn_e1_byte :: nat
  gn_e1_bit :: nat
  gn_so_end_address :: "nat option"

text \<open>
  The loop of \<open>generate_missing\<close>: \<open>Inr (last_nack_generated, truncated, state)\<close>. Each round reports at
  least one sequence number, so that \<open>sn_count\<close> rounds are enough.
\<close>

primrec am_generate_missing_loop ::
  "nat \<Rightarrow> nr_rlc_entity_am \<Rightarrow> missing_data \<Rightarrow> int \<Rightarrow> int \<Rightarrow> int \<Rightarrow> am_gen \<Rightarrow> (int \<times> bool \<times> am_gen) res" where
  "am_generate_missing_loop 0 e m sn_start sn_count last_nack g = Inl NoReturn"
| "am_generate_missing_loop (Suc n) e m sn_start sn_count last_nack g =
     (if sn_count = 0 then Inr (last_nack, False, g)
      else case am_nack_range e m sn_start sn_count of (cur_sn_count, so_start, sn_end, so_end) \<Rightarrow>
        let enc = gn_enc g
        in if int (enc_byte enc) + am_nack_size e sn_start so_start sn_end so_end > int (enc_size enc)
           then Inr (last_nack, True, g)
           else
             let enc1 = enc\<lparr>enc_buffer := (enc_buffer enc)[gn_e1_byte g :=
                          enc_buffer enc ! gn_e1_byte g OR push_bit (gn_e1_bit g) 1]\<rparr>;
                 (e1_byte, e1_bit) = am_get_e1_position e enc1
             in res_bind (am_put_nack e sn_start so_start sn_end so_end cur_sn_count enc1)
                  (\<lambda>(enc2, so_end_address, last).
                  am_generate_missing_loop n e m ((sn_start + cur_sn_count) mod am_sn_modulus e)
                    (sn_count - cur_sn_count) last
                    \<lparr>gn_enc = enc2, gn_e1_byte = e1_byte, gn_e1_bit = e1_bit,
                     gn_so_end_address = so_end_address\<rparr>))"

definition am_missing_count :: "nr_rlc_entity_am \<Rightarrow> missing_data \<Rightarrow> int" where
  "am_missing_count e m =
     (md_sn_end m - md_sn_start m + am_sn_modulus e) mod am_sn_modulus e + 1"

definition am_generate_missing ::
  "nr_rlc_entity_am \<Rightarrow> missing_data \<Rightarrow> am_gen \<Rightarrow> (int \<times> bool \<times> am_gen) res" where
  "am_generate_missing e m g =
     am_generate_missing_loop (Suc (nat (am_missing_count e m))) e m (md_sn_start m) (am_missing_count e m) (-1) g"

text \<open>
  \<open>while (cur != NULL)\<close> of \<open>generate_status\<close>, with \<open>last_nack\<close>. Every call of \<open>next_missing\<close> moves on in
  the reception list, so that its length bounds the number of rounds.
\<close>

primrec am_generate_status_loop ::
  "nat \<Rightarrow> nr_rlc_entity_am \<Rightarrow> nr_rlc_pdu list \<Rightarrow> bool \<Rightarrow> int \<Rightarrow> am_gen \<Rightarrow> (int \<times> am_gen) res" where
  "am_generate_status_loop 0 e cur check_head last_nack g = Inl NoReturn"
| "am_generate_status_loop (Suc n) e cur check_head last_nack g =
     (case cur of [] \<Rightarrow> Inr (last_nack, g)
      | p # rest \<Rightarrow>
          let m = am_next_missing e p rest check_head
          in if md_sn_start m = -1 then Inr (last_nack, g)
             else res_bind (am_generate_missing e m g) (\<lambda>(ln, truncated, g1).
               let last_nack' = (if ln \<noteq> -1 then ln else last_nack);
                   g2 = (case gn_so_end_address g1 of
                           Some a \<Rightarrow>
                             if truncated
                             then g1\<lparr>gn_enc := (gn_enc g1)\<lparr>enc_buffer :=
                                    (enc_buffer (gn_enc g1))[a := 0xff, Suc a := 0xff]\<rparr>\<rparr>
                             else g1
                         | None \<Rightarrow> g1)
               in am_generate_status_loop n e (if truncated then [] else md_next m) False last_nack' g2))"

text \<open>The first three bytes get \<open>ack_sn\<close>; the third already holds \<open>e1\<close>.\<close>

definition am_put_ack_sn :: "nr_rlc_entity_am \<Rightarrow> int \<Rightarrow> byte list \<Rightarrow> byte list" where
  "am_put_ack_sn e ack_sn buffer =
     (if am_sn_field_length e = 12
      then buffer[0 := word_of_int (drop_bit 8 ack_sn), 1 := word_of_int (ack_sn AND 255)]
      else buffer[0 := word_of_int (drop_bit 14 ack_sn),
                  1 := word_of_int (drop_bit 6 ack_sn AND 255),
                  2 := buffer ! 2 OR word_of_int (push_bit 2 (ack_sn AND 0x3f))])"

definition am_generate_status ::
  "byte list \<Rightarrow> nr_rlc_entity_am \<Rightarrow> (int \<times> byte list \<times> nr_rlc_entity_am) res" where
  "am_generate_status buffer e =
     (if length buffer < 3 then Inr (0, buffer, e)
      else
        let last_nack = (am_rx_next e - 1 + am_sn_modulus e) mod am_sn_modulus e
        in res_bind (nr_rlc_pdu_encoder_put_bits (nr_rlc_pdu_encoder_init buffer) 0 (8 * 3)) (\<lambda>enc.
           res_bind (am_generate_status_loop (Suc (Suc (length (am_rx_list e)))) e (am_rx_list e) True last_nack
             \<lparr>gn_enc = enc, gn_e1_byte = 2, gn_e1_bit = (if am_sn_field_length e = 18 then 1 else 7),
              gn_so_end_address = None\<rparr>) (\<lambda>(last, g).
           let ack_sn = (last + 1) mod am_sn_modulus e;
               n = int (enc_byte (gn_enc g));
               e1 = e\<lparr>am_status_triggered := False, am_t_status_prohibit_start := am_t_current e,
                      am_common := count_pkts_bytes txpdu_status_pkts_update txpdu_status_bytes_update n
                        (count_pkts_bytes txpdu_pkts_update txpdu_bytes_update n (am_common e))\<rparr>
           in Inr (n, am_put_ack_sn e ack_sn (enc_buffer (gn_enc g)), e1))))"

definition am_status_to_report :: "nr_rlc_entity_am \<Rightarrow> bool" where
  "am_status_to_report e \<longleftrightarrow> am_status_triggered e \<and>
     (am_t_status_prohibit_start e = 0 \<or>
      am_t_current e - am_t_status_prohibit_start e > word_of_int (am_t_status_prohibit e))"

text \<open>
  \<open>missing_size\<close>: the number of ranges, whether the room ran out, and the size. One range takes
  \<open>am_range_bytes\<close>.
\<close>

definition am_range_bytes :: "nr_rlc_entity_am \<Rightarrow> int \<Rightarrow> int \<Rightarrow> int \<Rightarrow> int \<Rightarrow> int" where
  "am_range_bytes e sn_start so_start sn_end so_end =
     (let r_bits = (if am_sn_field_length e = 18 then 3 else 1);
          len = am_sn_field_length e + 3 + r_bits
      in if sn_start = sn_end
         then if so_start = 0 \<and> so_end = 65535 then len div 8 else (len + 16 * 2) div 8
         else if so_start = 0 \<and> so_end = 65535 then (len + 8) div 8 else (len + 16 * 2 + 8) div 8)"

primrec am_missing_size_loop ::
  "nat \<Rightarrow> nr_rlc_entity_am \<Rightarrow> missing_data \<Rightarrow> int \<Rightarrow> int \<Rightarrow> int \<Rightarrow> int \<Rightarrow> int \<Rightarrow> (int \<times> bool \<times> int) res" where
  "am_missing_size_loop 0 e m sn_start sn_count range_count sz maxsize = Inl NoReturn"
| "am_missing_size_loop (Suc n) e m sn_start sn_count range_count sz maxsize =
     (if sn_count = 0 then Inr (range_count, False, sz)
      else case am_nack_range e m sn_start sn_count of (cur_sn_count, so_start, sn_end, so_end) \<Rightarrow>
        if sz + am_nack_size e sn_start so_start sn_end so_end > maxsize
        then Inr (range_count, True, sz)
        else am_missing_size_loop n e m ((sn_start + cur_sn_count) mod am_sn_modulus e)
               (sn_count - cur_sn_count) (range_count + 1)
               (sz + am_range_bytes e sn_start so_start sn_end so_end) maxsize)"

definition am_missing_size ::
  "nr_rlc_entity_am \<Rightarrow> missing_data \<Rightarrow> int \<Rightarrow> int \<Rightarrow> (int \<times> bool \<times> int) res" where
  "am_missing_size e m sz maxsize =
     am_missing_size_loop (Suc (nat (am_missing_count e m))) e m (md_sn_start m) (am_missing_count e m) 0 sz maxsize"

primrec am_status_size_loop ::
  "nat \<Rightarrow> nr_rlc_entity_am \<Rightarrow> nr_rlc_pdu list \<Rightarrow> int \<Rightarrow> int \<Rightarrow> int \<Rightarrow> int res" where
  "am_status_size_loop 0 e cur nack_count sz maxsize = Inl NoReturn"
| "am_status_size_loop (Suc n) e cur nack_count sz maxsize =
     (case cur of [] \<Rightarrow> Inr sz
      | p # rest \<Rightarrow>
          let m = am_next_missing e p rest (nack_count = 0)
          in if md_sn_start m = -1 then Inr sz
             else res_bind (am_missing_size e m sz maxsize) (\<lambda>(ranges, truncated, sz').
               am_status_size_loop n e (if truncated then [] else md_next m) (nack_count + ranges) sz' maxsize))"

definition am_status_size :: "nr_rlc_entity_am \<Rightarrow> int \<Rightarrow> int res" where
  "am_status_size e maxsize =
     (if maxsize < 3 then Inr 0
      else am_status_size_loop (Suc (Suc (length (am_rx_list e)))) e (am_rx_list e) 0 3 maxsize)"

end
