(* ===== verification/RlcAmEntity.thy ===== *)
theory RlcAmEntity
  imports RlcAmTx
begin

unbundle bit_operations_syntax

text \<open>
  The rest of \<open>nr_rlc_entity_am.c\<close>: new and retransmitted PDUs, \<open>generate_pdu\<close>, \<open>recv_sdu\<close>, the
  timers, discard and re-establishment, and the entity as a machine of these operations.
\<close>

section \<open>New and retransmitted PDUs\<close>

text \<open>The search of \<open>nr_rlc_tx_sdu_segment_list_add\<close>: order by \<open>sn\<close>, then by \<open>so\<close>.\<close>

fun nr_rlc_tx_sdu_segment_list_add ::
  "nr_rlc_entity_am \<Rightarrow> segment list \<Rightarrow> segment \<Rightarrow> segment list" where
  "nr_rlc_tx_sdu_segment_list_add e [] s = [s]"
| "nr_rlc_tx_sdu_segment_list_add e (cur # l) s =
     (let h = am_heap e
      in if am_sn_compare_tx e (seg_sn h cur) (seg_sn h s) > 0 \<or>
            (seg_sn h cur = seg_sn h s \<and> seg_so cur > seg_so s)
         then s # cur # l
         else cur # nr_rlc_tx_sdu_segment_list_add e l s)"

text \<open>A transmitted segment enters the wait list, at its end when it comes after \<open>wait_end\<close>.\<close>

definition am_wait_list_insert :: "segment \<Rightarrow> nr_rlc_entity_am \<Rightarrow> nr_rlc_entity_am res" where
  "am_wait_list_insert s e =
     (let h = am_heap e;
          at_end = (case am_wait_end e of None \<Rightarrow> True
            | Some w \<Rightarrow> am_sn_compare_tx e (seg_sn h s) (seg_sn h w) > 0 \<or>
                        (am_sn_compare_tx e (seg_sn h s) (seg_sn h w) = 0 \<and> seg_so s > seg_so w))
      in if at_end
         then res_bind (nr_rlc_sdu_segment_list_append (am_wait_list e) (am_wait_end e) s)
                (\<lambda>(l, en). Inr (e\<lparr>am_wait_list := l, am_wait_end := en\<rparr>))
         else
           let l = nr_rlc_tx_sdu_segment_list_add e (am_wait_list e) s
           in Inr (e\<lparr>am_wait_list := l,
                     am_wait_end := (if tl l = [] then Some (hd l) else am_wait_end e)\<rparr>))"

definition am_tx_size_add :: "int \<Rightarrow> nr_rlc_entity_am \<Rightarrow> nr_rlc_entity_am" where
  "am_tx_size_add n e = e\<lparr>am_common := bstatus_update (tx_size_update (\<lambda>m. m + n)) (am_common e)\<rparr>"

definition am_count_segmented :: "nr_rlc_entity_am \<Rightarrow> nr_rlc_entity_am" where
  "am_count_segmented e = e\<lparr>am_common := stats_update (txpdu_segmented_update (\<lambda>n. n + 1)) (am_common e)\<rparr>"

text \<open>\<open>if (entity->force_poll) { p = 1; entity->force_poll = 0; }\<close>\<close>

definition am_take_force_poll :: "bool \<Rightarrow> nr_rlc_entity_am \<Rightarrow> bool \<times> nr_rlc_entity_am" where
  "am_take_force_poll p e = (if am_force_poll e then (True, e\<lparr>am_force_poll := False\<rparr>) else (p, e))"

text \<open>\<open>segment if necessary\<close> of the two functions: the segment to send, and the rest goes back.\<close>

definition am_retx_segment :: "segment \<Rightarrow> int \<Rightarrow> nr_rlc_entity_am \<Rightarrow> segment \<times> nr_rlc_entity_am" where
  "am_retx_segment s room e =
     (if am_seg_pdu_size e s > room
      then let (s1, next_sdu, e1) = am_resegment s room e;
               e2 = e1\<lparr>am_retransmit_list := next_sdu # am_retransmit_list e1\<rparr>
           in (s1, am_count_segmented (am_retx_size_add (am_seg_pdu_size e2 next_sdu) e2))
      else (s, e))"

definition am_tx_segment :: "segment \<Rightarrow> int \<Rightarrow> nr_rlc_entity_am \<Rightarrow> segment \<times> nr_rlc_entity_am" where
  "am_tx_segment s room e =
     (if am_seg_pdu_size e s > room
      then let (s1, next_sdu, e1) = am_resegment s room e;
               e2 = e1\<lparr>am_tx_list := next_sdu # am_tx_list e1,
                       am_tx_end := (if am_tx_end e1 = None then Some next_sdu else am_tx_end e1)\<rparr>
           in (s1, am_tx_size_add (am_seg_pdu_size e2 next_sdu) (am_count_segmented e2))
      else (s, e))"

text \<open>\<open>generate_retx_pdu\<close> reads the head of the retransmit list without a check.\<close>

definition am_generate_retx_pdu ::
  "byte list \<Rightarrow> nr_rlc_entity_am \<Rightarrow> (int \<times> byte list \<times> nr_rlc_entity_am) res" where
  "am_generate_retx_pdu buffer e =
     (case am_retransmit_list e of
        [] \<Rightarrow> Inl NullDeref
      | sdu # rest \<Rightarrow>
          let room = int (length buffer)
          in if am_compute_pdu_header_size e sdu + 1 > room then Inr (0, buffer, e)
             else
               let e1 = am_retx_size_add (- am_seg_pdu_size e sdu) (e\<lparr>am_retransmit_list := rest\<rparr>);
                   (s, e2) = am_retx_segment sdu room e1
               in res_bind (am_wait_list_insert s e2) (\<lambda>e3.
                  let (p, e4) = am_take_force_poll (am_check_poll_after_pdu_assembly e3) e3
                  in res_bind (am_serialize_sdu s buffer p e4) (\<lambda>(ret_size, buffer', e5).
                     Inr (ret_size, buffer',
                       e5\<lparr>am_common :=
                         count_pkts_bytes txpdu_retx_pkts_update txpdu_retx_bytes_update ret_size
                           (count_pkts_bytes txpdu_pkts_update txpdu_bytes_update ret_size (am_common e5))\<rparr>))))"

text \<open>\<open>assign SN to SDU\<close>\<close>

definition am_assign_sn :: "segment \<Rightarrow> nr_rlc_entity_am \<Rightarrow> nr_rlc_entity_am" where
  "am_assign_sn s e =
     (if seg_sn (am_heap e) s = -1
      then e\<lparr>am_heap := heap_upd (seg_sdu s) (sdu_sn_update (\<lambda>_. am_tx_next e)) (am_heap e),
             am_tx_next := (am_tx_next e + 1) mod am_sn_modulus e\<rparr>
      else e)"

text \<open>\<open>polling actions for a new PDU\<close>\<close>

definition am_poll_new_pdu :: "segment \<Rightarrow> nr_rlc_entity_am \<Rightarrow> bool \<times> nr_rlc_entity_am" where
  "am_poll_new_pdu s e =
     (let e1 = e\<lparr>am_pdu_without_poll := am_pdu_without_poll e + 1,
                 am_byte_without_poll := am_byte_without_poll e + seg_size s\<rparr>;
          p = (if (am_poll_pdu e1 \<noteq> -1 \<and> am_pdu_without_poll e1 \<ge> am_poll_pdu e1) \<or>
                  (am_poll_byte e1 \<noteq> -1 \<and> am_byte_without_poll e1 \<ge> am_poll_byte e1)
               then True else am_check_poll_after_pdu_assembly e1)
      in am_take_force_poll p e1)"

definition am_generate_tx_pdu ::
  "u64 \<Rightarrow> byte list \<Rightarrow> nr_rlc_entity_am \<Rightarrow> (int \<times> byte list \<times> nr_rlc_entity_am) res" where
  "am_generate_tx_pdu time_now buffer e =
     (if am_is_window_stalling e then Inr (0, buffer, e)
      else case am_tx_list e of
        [] \<Rightarrow> Inr (0, buffer, e)
      | sdu # rest \<Rightarrow>
          let room = int (length buffer)
          in if am_compute_pdu_header_size e sdu + 1 > room then Inr (0, buffer, e)
             else
               let e1 = am_tx_size_add (- am_seg_pdu_size e sdu)
                          (e\<lparr>am_tx_list := rest, am_tx_end := (if rest = [] then None else am_tx_end e)\<rparr>);
                   (s, e2) = am_tx_segment sdu room (am_assign_sn sdu e1)
               in res_bind (am_wait_list_insert s e2) (\<lambda>e3.
                  let (p, e4) = am_poll_new_pdu s e3
                  in res_bind (am_serialize_sdu s buffer p e4) (\<lambda>(ret_size, buffer', e5).
                     Inr (ret_size, buffer',
                       e5\<lparr>am_common := count_waiting_time time_now (sdu_of (am_heap e5) s)
                         (count_pkts_bytes txpdu_pkts_update txpdu_bytes_update ret_size (am_common e5))\<rparr>))))"

definition nr_rlc_entity_am_buffer_status ::
  "nr_rlc_entity_am \<Rightarrow> int \<Rightarrow> nr_rlc_entity_buffer_status res" where
  "nr_rlc_entity_am_buffer_status e maxsize =
     res_bind (if am_status_to_report e then am_status_size e maxsize else Inr 0) (\<lambda>n.
     Inr \<lparr>status_size = n, tx_size = tx_size (bstatus (am_common e)),
          retx_size = retx_size (bstatus (am_common e))\<rparr>)"

definition nr_rlc_entity_am_generate_pdu ::
  "u64 \<Rightarrow> byte list \<Rightarrow> nr_rlc_entity_am \<Rightarrow> (int \<times> byte list \<times> nr_rlc_entity_am) res" where
  "nr_rlc_entity_am_generate_pdu time_now buffer e =
     (let try_tx = (\<lambda>buffer e. am_generate_tx_pdu time_now buffer e);
          try_retx = (\<lambda>buffer e.
            if am_retransmit_list e \<noteq> []
            then res_bind (am_generate_retx_pdu buffer e) (\<lambda>(ret, buffer', e').
                 if ret \<noteq> 0 then Inr (ret, buffer', e') else try_tx buffer' e')
            else try_tx buffer e)
      in if am_status_to_report e
         then res_bind (am_generate_status buffer e) (\<lambda>(ret, buffer', e').
              if ret \<noteq> 0 then Inr (ret, buffer', e') else try_retx buffer' e')
         else try_retx buffer e)"

section \<open>SDUs from the upper layer\<close>

definition nr_rlc_entity_am_recv_sdu ::
  "u64 \<Rightarrow> byte list \<Rightarrow> int \<Rightarrow> nr_rlc_entity_am \<Rightarrow> nr_rlc_entity_am res" where
  "nr_rlc_entity_am_recv_sdu time_now buffer sdu_id e =
     (let sz = int (length buffer);
          e1 = e\<lparr>am_common := stats_update (rxsdu_pkts_update (\<lambda>n. n + 1)) (am_common e)\<rparr>;
          e2 = (if am_sdu_rejected e1 \<noteq> 0 \<and> am_t_current e1 > am_t_log_buffer_full e1 + 1000
                then e1\<lparr>am_sdu_rejected := 0, am_t_log_buffer_full := am_t_current e1\<rparr> else e1)
      in if am_tx_size e2 + sz > am_tx_maxsize e2
         then Inr (e2\<lparr>am_sdu_rejected := am_sdu_rejected e2 + 1\<rparr>)
         else
           let e3 = e2\<lparr>am_tx_size := am_tx_size e2 + sz,
                       am_common := stats_update (rxsdu_bytes_update (\<lambda>n. n + word_of_int sz)) (am_common e2)\<rparr>;
               (sdu, h) = nr_rlc_new_sdu buffer sdu_id (am_heap e3)
           in res_bind (nr_rlc_sdu_segment_list_append (am_tx_list e3) (am_tx_end e3) sdu) (\<lambda>(l, en).
              let e4 = am_tx_size_add (am_seg_pdu_size e3 sdu)
                         (e3\<lparr>am_heap := h, am_tx_list := l, am_tx_end := en\<rparr>)
              in Inr (if avg_time_is_on (am_common e4)
                      then e4\<lparr>am_heap := heap_upd (seg_sdu sdu) (sdu_time_of_arrival_update (\<lambda>_. time_now))
                                          (am_heap e4)\<rparr>
                      else e4)))"

section \<open>Timers\<close>

text \<open>
  The \<open>do ... while\<close> of \<open>check_t_poll_retransmit\<close>: \<open>cur\<close> is the head of the wait list, \<open>rest\<close> what follows.
\<close>

fun am_poll_retx_loop :: "int \<Rightarrow> segment \<Rightarrow> segment list \<Rightarrow> nr_rlc_entity_am \<Rightarrow> nr_rlc_entity_am" where
  "am_poll_retx_loop retransmit_sn cur rest e =
     (let e1 = e\<lparr>am_wait_list := rest, am_wait_end := (if rest = [] then None else am_wait_end e)\<rparr>;
          e2 = am_retx_size_add (am_seg_pdu_size e1 cur) e1;
          e3 = e2\<lparr>am_retransmit_list := nr_rlc_tx_sdu_segment_list_add e2 (am_retransmit_list e2) cur\<rparr>
      in case rest of
           [] \<Rightarrow> e3
         | c # cs \<Rightarrow> if seg_sn (am_heap e3) c = retransmit_sn then am_poll_retx_loop retransmit_sn c cs e3 else e3)"

definition am_check_t_poll_retransmit :: "nr_rlc_entity_am \<Rightarrow> nr_rlc_entity_am res" where
  "am_check_t_poll_retransmit e =
     (if am_t_poll_retransmit_start e = 0 \<or>
         am_t_current e \<le> am_t_poll_retransmit_start e + word_of_int (am_t_poll_retransmit e)
      then Inr e
      else
        let e1 = e\<lparr>am_t_poll_retransmit_start := 0, am_force_poll := True\<rparr>
        in if \<not> am_check_poll_after_pdu_assembly e1 then Inr e1
           else case am_wait_list e1 of
             [] \<Rightarrow> Inl NullDeref
           | cur # rest \<Rightarrow>
               let e2 = e1\<lparr>am_heap := heap_upd (seg_sdu cur) (sdu_retx_count_update (\<lambda>n. n + 1)) (am_heap e1)\<rparr>;
                   sdu_retx_cnt = sdu_retx_count (sdu_of (am_heap e2) cur);
                   e3 = am_poll_retx_loop (seg_sn (am_heap e2) cur) cur rest e2
               in Inr (if sdu_retx_cnt \<ge> am_max_retx_threshold e3
                       then e3\<lparr>am_common := emit MaxRetxReached (am_common e3)\<rparr> else e3))"

definition am_check_t_reassembly :: "nr_rlc_entity_am \<Rightarrow> nr_rlc_entity_am res" where
  "am_check_t_reassembly e =
     (if am_t_reassembly_start e = 0 \<or>
         am_t_current e \<le> am_t_reassembly_start e + word_of_int (am_t_reassembly e)
      then Inr e
      else
        res_bind (skip_delivered (am_rx_list e) (am_sn_modulus e) (am_rx_next_status_trigger e)) (\<lambda>sn.
        let e1 = e\<lparr>am_t_reassembly_start := 0, am_rx_highest_status := sn, am_status_triggered := True\<rparr>;
            next_sn = (am_rx_highest_status e1 + 1) mod am_sn_modulus e1
        in Inr (if am_sn_compare_rx e1 (am_rx_next_highest e1) next_sn > 0 \<or>
                   (am_rx_next_highest e1 = next_sn \<and> am_sdu_has_missing_bytes e1 (am_rx_highest_status e1))
                then e1\<lparr>am_t_reassembly_start := am_t_current e1,
                        am_rx_next_status_trigger := am_rx_next_highest e1\<rparr>
                else e1)))"

definition nr_rlc_entity_am_set_time :: "u64 \<Rightarrow> nr_rlc_entity_am \<Rightarrow> nr_rlc_entity_am res" where
  "nr_rlc_entity_am_set_time now e =
     res_bind (am_check_t_poll_retransmit (e\<lparr>am_t_current := now\<rparr>)) am_check_t_reassembly"

section \<open>Discard, re-establishment, deletion\<close>

definition nr_rlc_entity_am_discard_sdu :: "int \<Rightarrow> nr_rlc_entity_am \<Rightarrow> nr_rlc_entity_am" where
  "nr_rlc_entity_am_discard_sdu sdu_id e =
     (let other = (\<lambda>s. sdu_upper_layer_id (sdu_of (am_heap e) s) \<noteq> sdu_id);
          front = takeWhile other (am_tx_list e)
      in case dropWhile other (am_tx_list e) of
           [] \<Rightarrow> e
         | cur # after \<Rightarrow>
             if \<not> seg_is_first cur \<or> \<not> seg_is_last cur then e
             else
               let e1 = e\<lparr>am_tx_list := front @ after,
                          am_tx_end := (if am_tx_end e = Some cur then end_of front else am_tx_end e)\<rparr>;
                   e2 = am_tx_size_add (- am_seg_pdu_size e1 cur) e1
               in e2\<lparr>am_tx_size := am_tx_size e2 - sdu_size (sdu_of (am_heap e2) cur),
                     am_heap := snd (nr_rlc_free_sdu_segment cur (am_heap e2))\<rparr>)"

definition am_clear_entity :: "nr_rlc_entity_am \<Rightarrow> nr_rlc_entity_am" where
  "am_clear_entity e =
     e\<lparr>am_rx_next := 0, am_rx_next_status_trigger := 0, am_rx_highest_status := 0, am_rx_next_highest := 0,
       am_status_triggered := False, am_tx_next := 0, am_tx_next_ack := 0, am_poll_sn := 0,
       am_pdu_without_poll := 0, am_byte_without_poll := 0, am_force_poll := False, am_t_current := 0,
       am_t_log_buffer_full := 0, am_sdu_rejected := 0, am_t_poll_retransmit_start := 0,
       am_t_reassembly_start := 0, am_t_status_prohibit_start := 0, am_rx_list := [], am_rx_size := 0,
       am_heap := nr_rlc_free_sdu_segment_list (am_retransmit_list e)
                    (nr_rlc_free_sdu_segment_list (am_wait_list e)
                      (nr_rlc_free_sdu_segment_list (am_tx_list e) (am_heap e))),
       am_tx_list := [], am_tx_end := None, am_tx_size := 0, am_wait_list := [], am_wait_end := None,
       am_retransmit_list := [],
       am_common := bstatus_update (\<lambda>b. b\<lparr>tx_size := 0, retx_size := 0\<rparr>) (am_common e)\<rparr>"

definition nr_rlc_entity_am_reestablishment :: "nr_rlc_entity_am \<Rightarrow> nr_rlc_entity_am" where
  "nr_rlc_entity_am_reestablishment e = am_clear_entity e"

text \<open>\<open>delete\<close> clears the entity and frees it; what is left is the heap of SDUs.\<close>

definition nr_rlc_entity_am_delete :: "nr_rlc_entity_am \<Rightarrow> sdu_heap" where
  "nr_rlc_entity_am_delete e = am_heap (am_clear_entity e)"

definition nr_rlc_entity_am_available_tx_space :: "nr_rlc_entity_am \<Rightarrow> int" where
  "nr_rlc_entity_am_available_tx_space e = am_tx_maxsize e - am_tx_size e"

fun am_step :: "u64 \<Rightarrow> rlc_op \<Rightarrow> nr_rlc_entity_am \<Rightarrow> nr_rlc_entity_am res" where
  "am_step t (RecvSdu b i) e = nr_rlc_entity_am_recv_sdu t b i e"
| "am_step t (RecvPdu b) e = nr_rlc_entity_am_recv_pdu b e"
| "am_step t (GeneratePdu b) e =
     res_bind (nr_rlc_entity_am_generate_pdu t b e) (\<lambda>(n, b', e'). Inr e')"
| "am_step t (SetTime now) e = nr_rlc_entity_am_set_time now e"
| "am_step t (DiscardSdu i) e = Inr (nr_rlc_entity_am_discard_sdu i e)"
| "am_step t Reestablishment e = Inr (nr_rlc_entity_am_reestablishment e)"

end
