(* ===== verification/RlcAmRx.thy ===== *)
theory RlcAmRx
  imports RlcAm
begin

unbundle bit_operations_syntax

text \<open>
  Correctness of the receiving half of the AM entity: the order of the reception list, its bounds and
  its accounting, and the delivery of complete SDUs, for whatever PDUs arrive.
\<close>

section \<open>Configuration and window\<close>

definition am_cfg :: "nr_rlc_entity_am \<Rightarrow> bool" where
  "am_cfg e \<longleftrightarrow> (am_sn_field_length e = 12 \<or> am_sn_field_length e = 18) \<and>
     am_sn_modulus e = 2 ^ nat (am_sn_field_length e) \<and> am_window_size e = am_sn_modulus e div 2"

lemma am_cfgD:
  assumes "am_cfg e"
  shows "0 < am_window_size e" "am_sn_modulus e = 2 * am_window_size e" "0 < am_sn_modulus e"
    "1 < am_window_size e"
    "am_sn_field_length e = 12 \<or> am_sn_field_length e = 18" "am_sn_modulus e = 2 ^ nat (am_sn_field_length e)"
  using assms by (auto simp: am_cfg_def)

abbreviation am_valid_sn :: "nr_rlc_entity_am \<Rightarrow> int \<Rightarrow> bool" where
  "am_valid_sn e a \<equiv> 0 \<le> a \<and> a < am_sn_modulus e"

interpretation am_rx: sn_order "am_sn_compare_rx e" "am_modulus_rx e" "am_valid_sn e" for e
  by unfold_locales (auto simp: am_sn_compare_rx_def am_modulus_rx_def Let_def split: if_splits)

lemma am_modulus_rx_mod:
  assumes "am_valid_sn e a" and "am_valid_sn e (am_rx_next e)"
  shows "am_modulus_rx e a = (a - am_rx_next e) mod am_sn_modulus e"
proof (cases "a < am_rx_next e")
  case True
  have "(a - am_rx_next e) mod am_sn_modulus e = (a - am_rx_next e + am_sn_modulus e) mod am_sn_modulus e" by simp
  also have "\<dots> = a - am_rx_next e + am_sn_modulus e" using True assms by (intro mod_pos_pos_trivial) auto
  finally show ?thesis using True by (simp add: am_modulus_rx_def)
next
  case False
  then show ?thesis using assms by (simp add: am_modulus_rx_def mod_pos_pos_trivial)
qed

section \<open>The invariant\<close>

definition am_rx_inv :: "nr_rlc_entity_am \<Rightarrow> bool" where
  "am_rx_inv e \<longleftrightarrow> am_cfg e \<and> am_valid_sn e (am_rx_next e) \<and> am_valid_sn e (am_rx_next_highest e) \<and>
     am_valid_sn e (am_rx_highest_status e) \<and> am_valid_sn e (am_rx_next_status_trigger e) \<and>
     rx_inv (am_modulus_rx e) (am_sn_modulus e) (am_rx_list e) \<and>
     (\<forall>p \<in> set (am_rx_list e). am_sn_in_recv_window e (pdu_sn p)) \<and> rx_ends_ok (am_rx_list e) \<and>
     rx_bytes (am_rx_list e) \<le> am_rx_size e \<and> am_rx_size e \<le> am_rx_maxsize e"

text \<open>What the receiving half leaves alone.\<close>

definition same_tx :: "nr_rlc_entity_am \<Rightarrow> nr_rlc_entity_am \<Rightarrow> bool" where
  "same_tx e e' \<longleftrightarrow> am_tx_next e' = am_tx_next e \<and> am_tx_next_ack e' = am_tx_next_ack e \<and>
     am_tx_list e' = am_tx_list e \<and> am_tx_end e' = am_tx_end e \<and>
     am_tx_size e' = am_tx_size e \<and> am_tx_maxsize e' = am_tx_maxsize e \<and> am_wait_list e' = am_wait_list e \<and>
     am_wait_end e' = am_wait_end e \<and> am_retransmit_list e' = am_retransmit_list e \<and> am_heap e' = am_heap e \<and>
     bstatus (am_common e') = bstatus (am_common e) \<and> am_sn_field_length e' = am_sn_field_length e \<and>
     am_sn_modulus e' = am_sn_modulus e \<and> am_window_size e' = am_window_size e"

lemma same_tx_refl [simp]: "same_tx e e"
  by (simp add: same_tx_def)

lemma same_tx_trans: "same_tx e e' \<Longrightarrow> same_tx e' e'' \<Longrightarrow> same_tx e e''"
  by (simp add: same_tx_def)

lemma am_rx_inv_cong:
  assumes "am_rx_inv e" and "am_sn_field_length e' = am_sn_field_length e" "am_sn_modulus e' = am_sn_modulus e"
    "am_window_size e' = am_window_size e" "am_rx_next e' = am_rx_next e" "am_rx_next_highest e' = am_rx_next_highest e"
    "am_rx_highest_status e' = am_rx_highest_status e" "am_rx_next_status_trigger e' = am_rx_next_status_trigger e"
    "am_rx_list e' = am_rx_list e" "am_rx_size e' = am_rx_size e" "am_rx_maxsize e' = am_rx_maxsize e"
  shows "am_rx_inv e'"
proof -
  have "am_modulus_rx e' = am_modulus_rx e" using assms by (simp add: am_modulus_rx_def fun_eq_iff Let_def)
  moreover from this have "am_sn_in_recv_window e' = am_sn_in_recv_window e"
    using assms(4) by (simp add: am_sn_in_recv_window_def fun_eq_iff)
  moreover have "am_cfg e' = am_cfg e" using assms(2-4) by (simp add: am_cfg_def)
  ultimately show ?thesis using assms(1) unfolding am_rx_inv_def assms(2-) by simp
qed

lemma am_frame [simp]:
  "am_modulus_rx (e\<lparr>am_rx_list := v_am_rx_list\<rparr>) = am_modulus_rx e" "am_cfg (e\<lparr>am_rx_list := v_am_rx_list\<rparr>) = am_cfg e"
  "am_sn_in_recv_window (e\<lparr>am_rx_list := v_am_rx_list\<rparr>) = am_sn_in_recv_window e"
  "am_modulus_rx (e\<lparr>am_rx_size := v_am_rx_size\<rparr>) = am_modulus_rx e" "am_cfg (e\<lparr>am_rx_size := v_am_rx_size\<rparr>) = am_cfg e"
  "am_sn_in_recv_window (e\<lparr>am_rx_size := v_am_rx_size\<rparr>) = am_sn_in_recv_window e"
  "am_modulus_rx (e\<lparr>am_rx_highest_status := v_am_rx_highest_status\<rparr>) = am_modulus_rx e" "am_cfg (e\<lparr>am_rx_highest_status := v_am_rx_highest_status\<rparr>) = am_cfg e"
  "am_sn_in_recv_window (e\<lparr>am_rx_highest_status := v_am_rx_highest_status\<rparr>) = am_sn_in_recv_window e"
  "am_modulus_rx (e\<lparr>am_rx_next_highest := v_am_rx_next_highest\<rparr>) = am_modulus_rx e" "am_cfg (e\<lparr>am_rx_next_highest := v_am_rx_next_highest\<rparr>) = am_cfg e"
  "am_sn_in_recv_window (e\<lparr>am_rx_next_highest := v_am_rx_next_highest\<rparr>) = am_sn_in_recv_window e"
  "am_modulus_rx (e\<lparr>am_rx_next_status_trigger := v_am_rx_next_status_trigger\<rparr>) = am_modulus_rx e" "am_cfg (e\<lparr>am_rx_next_status_trigger := v_am_rx_next_status_trigger\<rparr>) = am_cfg e"
  "am_sn_in_recv_window (e\<lparr>am_rx_next_status_trigger := v_am_rx_next_status_trigger\<rparr>) = am_sn_in_recv_window e"
  "am_modulus_rx (e\<lparr>am_t_reassembly_start := v_am_t_reassembly_start\<rparr>) = am_modulus_rx e" "am_cfg (e\<lparr>am_t_reassembly_start := v_am_t_reassembly_start\<rparr>) = am_cfg e"
  "am_sn_in_recv_window (e\<lparr>am_t_reassembly_start := v_am_t_reassembly_start\<rparr>) = am_sn_in_recv_window e"
  "am_modulus_rx (e\<lparr>am_status_triggered := v_am_status_triggered\<rparr>) = am_modulus_rx e" "am_cfg (e\<lparr>am_status_triggered := v_am_status_triggered\<rparr>) = am_cfg e"
  "am_sn_in_recv_window (e\<lparr>am_status_triggered := v_am_status_triggered\<rparr>) = am_sn_in_recv_window e"
  "am_modulus_rx (e\<lparr>am_common := v_am_common\<rparr>) = am_modulus_rx e" "am_cfg (e\<lparr>am_common := v_am_common\<rparr>) = am_cfg e"
  "am_sn_in_recv_window (e\<lparr>am_common := v_am_common\<rparr>) = am_sn_in_recv_window e"
  "am_cfg (e\<lparr>am_rx_next := r\<rparr>) = am_cfg e"
  by (simp_all add: am_modulus_rx_def am_cfg_def am_sn_in_recv_window_def fun_eq_iff Let_def)

section \<open>Delivery\<close>

lemma am_window_free:
  assumes "am_rx_inv e"
  shows "\<forall>p \<in> set (am_rx_list e). pdu_sn p \<noteq> (am_rx_next e + am_window_size e) mod am_sn_modulus e"
proof
  fix p assume p: "p \<in> set (am_rx_list e)"
  have c: "am_cfg e" and v: "am_valid_sn e (am_rx_next e)" using assms by (simp_all add: am_rx_inv_def)
  have "am_valid_sn e ((am_rx_next e + am_window_size e) mod am_sn_modulus e)" using am_cfgD(3) [OF c] by simp
  then have "am_modulus_rx e ((am_rx_next e + am_window_size e) mod am_sn_modulus e) =
    (am_rx_next e + am_window_size e - am_rx_next e) mod am_sn_modulus e"
    using am_modulus_rx_mod v by (simp add: mod_diff_left_eq)
  also have "\<dots> = am_window_size e" using am_cfgD [OF c] by simp
  finally show "pdu_sn p \<noteq> (am_rx_next e + am_window_size e) mod am_sn_modulus e"
    using assms p by (auto simp: am_rx_inv_def am_sn_in_recv_window_def)
qed

lemma am_skip_delivered:
  assumes "am_rx_inv e" and "am_valid_sn e a"
  shows "\<exists>sn. skip_delivered (am_rx_list e) (am_sn_modulus e) a = Inr sn \<and> am_valid_sn e sn \<and>
    \<not> am_sdu_delivered e sn"
proof -
  have M: "0 < am_sn_modulus e" using assms am_cfgD by (auto simp: am_rx_inv_def)
  from skip_delivered_ok [OF am_window_free [OF assms(1)], of a "am_sn_modulus e"] assms(2) M
  show ?thesis by (auto simp: am_sdu_delivered_def)
qed

text \<open>The base moves by one when the SDU of \<open>rx_next\<close> is released.\<close>

lemma am_modulus_shift:
  assumes "am_valid_sn e a" and "am_valid_sn e (am_rx_next e)" and "a \<noteq> am_rx_next e"
  shows "am_modulus_rx (e\<lparr>am_rx_next := (am_rx_next e + 1) mod am_sn_modulus e\<rparr>) a = am_modulus_rx e a - 1"
proof -
  let ?M = "am_sn_modulus e" and ?r = "am_rx_next e"
  have "am_modulus_rx (e\<lparr>am_rx_next := (?r + 1) mod ?M\<rparr>) a = (a - (?r + 1)) mod ?M"
    using assms am_modulus_rx_mod [of a "e\<lparr>am_rx_next := (?r + 1) mod ?M\<rparr>"] by (simp add: mod_diff_right_eq)
  also have "\<dots> = (a - ?r) mod ?M - 1"
  proof -
    have "(a - ?r) mod ?M \<noteq> 0" using am_modulus_rx_mod [OF assms(1,2)] assms by (auto simp: am_modulus_rx_def Let_def split: if_splits)
    then have "0 \<le> (a - ?r) mod ?M - 1" "(a - ?r) mod ?M - 1 < ?M"
      using assms pos_mod_bound [of ?M "a - ?r"] pos_mod_sign [of ?M "a - ?r"] by linarith+
    then have "(a - ?r) mod ?M - 1 = ((a - ?r) mod ?M - 1) mod ?M" by simp
    also have "\<dots> = (a - (?r + 1)) mod ?M" by (simp add: mod_diff_left_eq algebra_simps)
    finally show ?thesis by simp
  qed
  finally show ?thesis using am_modulus_rx_mod [OF assms(1,2)] by simp
qed

lemma drop_sdu_block:
  assumes "rx_inv (am_modulus_rx e) (am_sn_modulus e) (p # ps)" and "pdu_sn p = am_rx_next e"
  shows "\<forall>q \<in> set (drop_sdu ps (am_rx_next e)). pdu_sn q \<noteq> am_rx_next e"
proof -
  let ?r = "am_rx_next e"
  have v: "\<forall>q \<in> set (p # ps). am_valid_sn e (pdu_sn q)" and s: "sorted_wrt (pdu_before (am_modulus_rx e)) (p # ps)"
    using assms by (auto simp: rx_inv_def rx_pdu_ok_def)
  obtain rest where "seek_sn (p # ps) ?r = block (p # ps) ?r @ rest" "\<forall>q \<in> set rest. pdu_sn q \<noteq> ?r"
    using am_rx.seek_block [OF s v] by blast
  moreover have "seek_sn (p # ps) ?r = p # ps" using assms(2) by (simp add: seek_sn_def)
  ultimately have ps: "ps = block ps ?r @ rest" and r: "\<forall>q \<in> set rest. pdu_sn q \<noteq> ?r" using assms(2) by auto
  have "drop_sdu (block ps ?r @ rest) ?r = drop_sdu rest ?r"
    unfolding drop_sdu_def by (rule dropWhile_append2) simp
  then have "drop_sdu ps ?r = drop_sdu rest ?r" using ps by simp
  with r show ?thesis by (auto simp: drop_sdu_def dest: set_dropWhileD)
qed

text \<open>\<open>rx_next\<close> moves over the delivered SDUs at the head of the list, which are released.\<close>

lemma free_delivered_head_inv:
  assumes "am_cfg e" and "am_valid_sn e (am_rx_next e)"
    and "rx_inv (am_modulus_rx e) (am_sn_modulus e) l" and "\<forall>p \<in> set l. am_sn_in_recv_window e (pdu_sn p)"
    and "free_delivered_head l (am_sn_modulus e) (am_rx_next e) = (l', r)"
  shows "am_valid_sn e r \<and> set l' \<subseteq> set l \<and> rx_bytes l' \<le> rx_bytes l \<and>
    rx_inv (am_modulus_rx (e\<lparr>am_rx_next := r\<rparr>)) (am_sn_modulus e) l' \<and>
    (\<forall>p \<in> set l'. am_sn_in_recv_window (e\<lparr>am_rx_next := r\<rparr>) (pdu_sn p))"
  using assms
proof (induction "length l" arbitrary: l e rule: less_induct)
  case less
  show ?case
  proof (cases "\<exists>p ps. l = p # ps \<and> pdu_data p = None \<and> pdu_sn p = am_rx_next e")
    case False
    then have "l' = l" "r = am_rx_next e" using less.prems(5)
      by (auto simp: free_delivered_head.simps [of l] split: list.splits if_splits)
    with less.prems show ?thesis by simp
  next
    case True
    then obtain p ps where l: "l = p # ps" "pdu_data p = None" "pdu_sn p = am_rx_next e" by blast
    let ?e1 = "e\<lparr>am_rx_next := (am_rx_next e + 1) mod am_sn_modulus e\<rparr>" and ?l1 = "drop_sdu ps (am_rx_next e)"
    let ?l0 = "takeWhile (\<lambda>q. pdu_sn q = am_rx_next e) ps"
    have split: "ps = ?l0 @ ?l1" by (simp add: drop_sdu_def)
    have no: "\<forall>q \<in> set ?l1. pdu_sn q \<noteq> am_rx_next e" using drop_sdu_block less.prems(3) l by blast
    have "rx_inv (am_modulus_rx e) (am_sn_modulus e) ((p # ?l0) @ ?l1)" using less.prems(3) l split by simp
    moreover have "\<forall>q \<in> set (p # ?l0). \<forall>x \<in> set ?l1. pdu_sn q \<noteq> pdu_sn x"
      using no l by (auto dest!: set_takeWhileD)
    ultimately have i1: "rx_inv (am_modulus_rx e) (am_sn_modulus e) ?l1" by (rule rx_inv_drop)
    have v: "\<forall>q \<in> set ?l1. am_valid_sn e (pdu_sn q)" using i1 by (auto simp: rx_inv_def rx_pdu_ok_def)
    then have sh: "\<forall>q \<in> set ?l1. am_modulus_rx ?e1 (pdu_sn q) = am_modulus_rx e (pdu_sn q) - 1"
      using no am_modulus_shift less.prems(2) by blast
    have "rx_inv (am_modulus_rx ?e1) (am_sn_modulus e) ?l1" by (rule rx_inv_rebase [OF i1]) (simp add: sh)
    moreover have sub: "set ?l1 \<subseteq> set l" using l by (auto simp: drop_sdu_def dest: set_dropWhileD)
    then have "\<forall>q \<in> set ?l1. am_sn_in_recv_window ?e1 (pdu_sn q)"
      using sh less.prems(4) by (force simp: am_sn_in_recv_window_def)
    moreover have "free_delivered_head ?l1 (am_sn_modulus e) ((am_rx_next e + 1) mod am_sn_modulus e) = (l', r)"
      using less.prems(5) l by (subst (asm) free_delivered_head.simps) simp
    moreover have "length ?l1 < length l" using l by (simp add: drop_sdu_def length_dropWhile_le less_Suc_eq_le)
    ultimately have r: "am_valid_sn e r \<and> set l' \<subseteq> set ?l1 \<and> rx_bytes l' \<le> rx_bytes ?l1 \<and>
      rx_inv (am_modulus_rx (?e1\<lparr>am_rx_next := r\<rparr>)) (am_sn_modulus e) l' \<and>
      (\<forall>p \<in> set l'. am_sn_in_recv_window (?e1\<lparr>am_rx_next := r\<rparr>) (pdu_sn p))"
      using less.hyps [of ?l1 ?e1] less.prems(1,2) by (simp add: am_cfg_def)
    have "rx_bytes l = rx_bytes (p # ?l0) + rx_bytes ?l1" using l split by (simp add: rx_bytes_append [symmetric])
    moreover have "0 \<le> rx_bytes (p # ?l0)"
      using less.prems(3) l by (intro rx_bytes_nonneg [of _ "am_sn_modulus e"]) (auto simp: rx_inv_def dest: set_takeWhileD)
    ultimately have "rx_bytes ?l1 \<le> rx_bytes l" by simp
    with r sub show ?thesis by auto
  qed
qed


lemma am_reassemble_inv:
  assumes inv: "am_rx_inv e" and full: "am_sdu_full e x"
  shows "\<exists>e'. am_reassemble_and_deliver e x = Inr e' \<and> am_rx_inv e' \<and> same_tx e e' \<and>
    am_rx_list e' = mark_delivered id x (am_rx_list e) \<and>
    events (am_common e') = events (am_common e) @
      (if covered_to (block (am_rx_list e) x) 0 > NR_SDU_MAX then []
       else [DeliverSdu (assemble (block (am_rx_list e) x) [])])"
proof -
  let ?l = "am_rx_list e"
  have rx: "rx_inv (am_modulus_rx e) (am_sn_modulus e) ?l" and ends: "rx_ends_ok ?l"
    using inv by (simp_all add: am_rx_inv_def)
  have v: "rx_pdu_ok (am_sn_modulus e) p \<Longrightarrow> am_valid_sn e (pdu_sn p)" for p by (simp add: rx_pdu_ok_def)
  have f: "rx_sdu_full ?l x" using full by (simp add: am_sdu_full_def)
  note B = am_rx.rx_full_block [OF rx v f]
  have lst: "last_is_last (block ?l x)" using rx_ends_ok_last_is_last [OF ends] B by blast
  from am_rx.rx_reassemble [OF rx v f lst clear_ok_simps(1)] obtain l' sdu bad where
    ne: "seek_sn ?l x \<noteq> []" and
    r: "reassemble_loop id (seek_sn ?l x) x [] False = Inr (l', sdu, bad, sum_list (map pdu_size (block ?l x)))"
      "takeWhile (\<lambda>p. pdu_sn p \<noteq> x) ?l @ l' = mark_delivered id x ?l"
      "bad \<longleftrightarrow> covered_to (block ?l x) 0 > NR_SDU_MAX" "\<not> bad \<longrightarrow> sdu = assemble (block ?l x) []" by blast
  define e1 where "e1 = e\<lparr>am_rx_list := mark_delivered id x ?l,
    am_rx_size := am_rx_size e - sum_list (map pdu_size (block ?l x))\<rparr>"
  have all: "\<forall>p \<in> set (block ?l x). pdu_data p \<noteq> None"
    using B by (force simp: seg_data_ok_def split: option.splits)
  have m1: "am_modulus_rx e1 = am_modulus_rx e" "am_sn_in_recv_window e1 = am_sn_in_recv_window e" "am_cfg e1 = am_cfg e"
    by (simp_all add: e1_def)
  have "rx_inv (am_modulus_rx e) (am_sn_modulus e) (mark_delivered id x ?l)"
    using mark_delivered_inv [OF rx clear_ok_simps(1)] B by blast
  moreover have "\<forall>p \<in> set (mark_delivered id x ?l). am_sn_in_recv_window e (pdu_sn p)"
    using inv by (auto simp: mark_delivered_def am_rx_inv_def)
  moreover have "0 \<le> sum_list (map pdu_size (block ?l x))"
    using B by (intro sum_list_nonneg) (force simp: seg_data_ok_def)
  ultimately have i1: "am_rx_inv e1"
    using inv m1 mark_delivered_bytes [OF clear_ok_simps(1) all] rx_ends_ok_mark [OF ends clear_ok_simps(1), of x]
    by (simp add: am_rx_inv_def e1_def)
  have "am_reassemble_and_deliver e x = Inr (if bad then e1
      else e1\<lparr>am_common := stats_update (txsdu_pkts_update (\<lambda>n. n + 1)) (emit (DeliverSdu sdu) (am_common e1))\<rparr>)"
    using ne r(1,2) by (simp add: am_reassemble_and_deliver_def Let_def e1_def)
  moreover have "am_rx_inv (e1\<lparr>am_common := c\<rparr>)" for c by (rule am_rx_inv_cong [OF i1]) simp_all
  ultimately show ?thesis using i1 r(3,4) by (cases bad) (auto simp: e1_def same_tx_def)
qed

lemma am_rx_deliver_inv:
  assumes inv: "am_rx_inv e"
  shows "\<exists>e'. am_rx_deliver x e = Inr e' \<and> am_rx_inv e' \<and> same_tx e e'"
proof (cases "am_sdu_full e x")
  case False
  with inv show ?thesis by (simp add: am_rx_deliver_def)
next
  case True
  with inv obtain e1 where e1: "am_reassemble_and_deliver e x = Inr e1" "am_rx_inv e1" "same_tx e e1"
    using am_reassemble_inv by blast
  define e2r where "e2r = (if x = am_rx_highest_status e1
    then res_bind (skip_delivered (am_rx_list e1) (am_sn_modulus e1) (am_rx_highest_status e1))
      (\<lambda>s. Inr (e1\<lparr>am_rx_highest_status := s\<rparr>)) else Inr e1)"
  have "\<exists>e2. e2r = Inr e2 \<and> am_rx_inv e2 \<and> same_tx e1 e2"
  proof (cases "x = am_rx_highest_status e1")
    case True
    obtain sn where sn: "skip_delivered (am_rx_list e1) (am_sn_modulus e1) (am_rx_highest_status e1) = Inr sn"
      "am_valid_sn e1 sn" using am_skip_delivered [OF e1(2)] e1(2) by (auto simp: am_rx_inv_def)
    have "am_rx_inv (e1\<lparr>am_rx_highest_status := sn\<rparr>)"
      using e1(2) sn(2) by (simp add: am_rx_inv_def)
    with sn True show ?thesis by (simp add: e2r_def same_tx_def)
  next
    case False
    with e1 show ?thesis by (simp add: e2r_def)
  qed
  then obtain e2 where e2: "e2r = Inr e2" "am_rx_inv e2" "same_tx e1 e2" by blast
  obtain l r where lr: "free_delivered_head (am_rx_list e2) (am_sn_modulus e2) (am_rx_next e2) = (l, r)" by fastforce
  have "am_rx_inv (e2\<lparr>am_rx_list := l, am_rx_next := r\<rparr>)"
  proof -
    from e2(2) have pre: "am_cfg e2" "am_valid_sn e2 (am_rx_next e2)"
      "rx_inv (am_modulus_rx e2) (am_sn_modulus e2) (am_rx_list e2)"
      "\<forall>p \<in> set (am_rx_list e2). am_sn_in_recv_window e2 (pdu_sn p)" by (simp_all add: am_rx_inv_def)
    note f = free_delivered_head_inv [OF pre lr]
    have "am_modulus_rx (e2\<lparr>am_rx_list := l, am_rx_next := r\<rparr>) = am_modulus_rx (e2\<lparr>am_rx_next := r\<rparr>)"
      "am_sn_in_recv_window (e2\<lparr>am_rx_list := l, am_rx_next := r\<rparr>) = am_sn_in_recv_window (e2\<lparr>am_rx_next := r\<rparr>)"
      by (simp_all add: am_modulus_rx_def am_sn_in_recv_window_def fun_eq_iff Let_def)
    then show ?thesis using e2(2) f rx_ends_ok_subset [of "am_rx_list e2" l]
      by (simp add: am_rx_inv_def)
  qed
  moreover have "same_tx e2 (e2\<lparr>am_rx_list := l, am_rx_next := r\<rparr>)" by (simp add: same_tx_def)
  moreover have "am_rx_deliver x e = Inr (if x = am_rx_next e2 then e2\<lparr>am_rx_list := l, am_rx_next := r\<rparr> else e2)"
    using True e1(1) e2(1) lr by (simp add: am_rx_deliver_def e2r_def [symmetric])
  ultimately show ?thesis using e1(3) e2(2,3) by (auto intro: same_tx_trans)
qed

lemma am_rx_timers_inv:
  assumes "am_rx_inv e"
  shows "am_rx_inv (am_rx_timer_start (am_rx_timer_stop e)) \<and> same_tx e (am_rx_timer_start (am_rx_timer_stop e))"
proof -
  have "am_rx_inv (am_rx_timer_stop e)" by (rule am_rx_inv_cong [OF assms]) (simp_all add: am_rx_timer_stop_def)
  then have "am_rx_inv (am_rx_timer_start (am_rx_timer_stop e))"
    by (simp add: am_rx_timer_start_def am_rx_inv_def)
  then show ?thesis by (simp add: am_rx_timer_start_def am_rx_timer_stop_def same_tx_def)
qed

lemma am_reception_actions_inv:
  assumes "am_rx_inv e" and "am_valid_sn e (pdu_sn pdu)"
  shows "\<exists>e'. am_reception_actions e pdu = Inr e' \<and> am_rx_inv e' \<and> same_tx e e'"
proof -
  let ?e1 = "if am_sn_compare_rx e (pdu_sn pdu) (am_rx_next_highest e) \<ge> 0
    then e\<lparr>am_rx_next_highest := (pdu_sn pdu + 1) mod am_sn_modulus e\<rparr> else e"
  have "am_rx_inv ?e1"
    using assms by (simp add: am_rx_inv_def)
  moreover have "same_tx e ?e1" by (simp add: same_tx_def)
  moreover obtain e2 where "am_rx_deliver (pdu_sn pdu) ?e1 = Inr e2" "am_rx_inv e2" "same_tx ?e1 e2"
    using am_rx_deliver_inv calculation(1) by blast
  ultimately show ?thesis using am_rx_timers_inv [of e2] unfolding am_reception_actions_def Let_def
    by (auto intro: same_tx_trans)
qed

section \<open>Reception of a data PDU\<close>

text \<open>
  What the parser finds in a data PDU: the poll bit, and the fields of the header with its length, or
  nothing when it gives up.
\<close>

definition am_parse_data ::
  "nr_rlc_entity_am \<Rightarrow> nr_rlc_pdu_decoder \<Rightarrow> (int \<times> (int \<times> int \<times> bool \<times> bool \<times> nat) option) res" where
  "am_parse_data e d0 =
     R_bits (Inr (-1, None)) d0 1 (\<lambda>p d1.
     R_bits (Inr (p, None)) d1 2 (\<lambda>si d2.
     let is_first = (si AND 2 = 0); is_last = (si AND 1 = 0);
         read_sn = (\<lambda>d3. R_bits (Inr (p, None)) d3 (am_sn_field_length e) (\<lambda>sn d4.
           if \<not> is_first
           then R_bits (Inr (p, None)) d4 16 (\<lambda>so d5.
                  if so = 0 then Inr (p, None) else Inr (p, Some (sn, so, is_first, is_last, dec_byte d5)))
           else Inr (p, Some (sn, 0, is_first, is_last, dec_byte d4))))
     in if am_sn_field_length e = 18 then R_bits (Inr (p, None)) d2 2 (\<lambda>r d3. read_sn d3) else read_sn d2))"

lemma am_recv_data_parse:
  "am_recv_data_pdu b d e = res_bind (am_parse_data e d) (\<lambda>(p, h).
     case h of None \<Rightarrow> Inr (am_discard_pdu p (int (length b)) e)
     | Some (sn, so, is_first, is_last, hdr) \<Rightarrow> am_rx_data b p sn so is_first is_last hdr e)"
  unfolding am_recv_data_pdu_def am_parse_data_def Let_def
  by (simp add: R_bits_bind if_distrib [where f = "\<lambda>m. res_bind m f" for f] cong: if_cong)

lemma am_parse_data_ok:
  assumes "am_cfg e" and "dec_ok d"
  shows "\<exists>p h. am_parse_data e d = Inr (p, h) \<and>
    (\<forall>sn so is_first is_last hdr. h = Some (sn, so, is_first, is_last, hdr) \<longrightarrow>
      am_valid_sn e sn \<and> 0 \<le> so \<and> hdr \<le> length (dec_buffer d))"
proof -
  have len: "0 \<le> am_sn_field_length e" "am_sn_field_length e \<le> 31" "2 ^ nat (am_sn_field_length e) = am_sn_modulus e"
    using am_cfgD [OF assms(1)] by auto
  define ok where "ok r \<longleftrightarrow> (\<exists>p h. r = Inr (p, h) \<and>
    (\<forall>sn so is_first is_last hdr. h = Some (sn, so, is_first, is_last, hdr) \<longrightarrow>
      am_valid_sn e sn \<and> 0 \<le> so \<and> hdr \<le> length (dec_buffer d)))"
    for r :: "(int \<times> (int \<times> int \<times> bool \<times> bool \<times> nat) option) res"
  have none: "ok (Inr (p, None))" for p by (simp add: ok_def)
  have some: "ok (Inr (p, Some (sn, so, f, l, dec_byte d')))"
    if "dec_ok d'" "dec_buffer d' = dec_buffer d" "am_valid_sn e sn" "0 \<le> so" for p sn so f l d'
    using that by (auto simp: ok_def dec_ok_def)
  have "ok (am_parse_data e d)"
    unfolding am_parse_data_def Let_def
    using assms(2) len none some by (auto intro!: R_bits_rule [where P = ok])
  then show ?thesis unfolding ok_def .
qed

lemma am_rx_data_inv:
  assumes inv: "am_rx_inv e" and sn: "am_valid_sn e sn" and so: "0 \<le> so" and hdr: "hdr \<le> length b"
    and ends: "\<And>q. q \<in> set (am_rx_list e) \<Longrightarrow> pdu_sn q = sn \<Longrightarrow> pdu_data q \<noteq> None \<Longrightarrow>
      (pdu_is_last q \<longrightarrow> so + int (length b - hdr) \<le> pdu_end q) \<and> (is_last \<longrightarrow> pdu_end q \<le> so + int (length b - hdr))"
  shows "\<exists>e'. am_rx_data b p sn so is_first is_last hdr e = Inr e' \<and> am_rx_inv e' \<and> same_tx e e'"
proof -
  let ?n = "int (length b)" and ?data = "drop hdr b"
  have disc: "am_rx_inv (am_discard_pdu p ?n e) \<and> same_tx e (am_discard_pdu p ?n e)"
    "am_rx_inv (am_discard_pdu p ?n (am_count_rx pk by ?n e)) \<and> same_tx e (am_discard_pdu p ?n (am_count_rx pk by ?n e))"
    for pk "by"
    using inv by (auto intro!: am_rx_inv_cong [OF inv] simp: am_discard_pdu_def am_count_rx_def same_tx_def Let_def)
  show ?thesis
  proof (cases "?n - int hdr \<le> 0 \<or> am_rx_size e + (?n - int hdr) > am_rx_maxsize e \<or>
      \<not> am_sn_in_recv_window e sn \<or> am_segment_already_received e sn so (?n - int hdr)")
    case True
    with disc show ?thesis by (auto simp: am_rx_data_def Let_def)
  next
    case False
    define pdu where "pdu = nr_rlc_new_pdu sn so is_first is_last ?data"
    define e1 where "e1 = e\<lparr>am_rx_size := am_rx_size e + (?n - int hdr),
      am_rx_list := nr_rlc_pdu_list_add (am_sn_compare_rx e) (am_rx_list e) pdu\<rparr>"
    have pdu: "pdu_sn pdu = sn" "pdu_so pdu = so" "pdu_data pdu = Some ?data" "pdu_size pdu = ?n - int hdr"
      "pdu_is_last pdu = is_last"
      using hdr by (simp_all add: pdu_def nr_rlc_new_pdu_def)
    have "rx_pdu_ok (am_sn_modulus e) pdu"
      using pdu sn so False hdr by (simp add: rx_pdu_ok_def seg_data_ok_def)
    then have "rx_inv (am_modulus_rx e) (am_sn_modulus e) (nr_rlc_pdu_list_add (am_sn_compare_rx e) (am_rx_list e) pdu)"
      using inv pdu by (intro am_rx.rx_add_inv) (auto simp: am_rx_inv_def rx_pdu_ok_def)
    moreover have "rx_ends_ok (nr_rlc_pdu_list_add (am_sn_compare_rx e) (am_rx_list e) pdu)"
      using inv ends pdu hdr by (auto simp: am_rx_inv_def rx_ends_ok_def pdu_end_def)
    ultimately have "am_rx_inv e1"
      using inv False pdu by (auto simp: am_rx_inv_def e1_def rx_bytes_add)
    then obtain e2 where e2: "am_reception_actions e1 pdu = Inr e2" "am_rx_inv e2" "same_tx e1 e2"
      using am_reception_actions_inv [of e1 pdu] sn pdu(1) by (auto simp: e1_def)
    have "same_tx e e1" by (simp add: e1_def same_tx_def)
    moreover have "am_rx_inv (e2\<lparr>am_status_triggered := True\<rparr>)" by (rule am_rx_inv_cong [OF e2(2)]) simp_all
    moreover have "am_rx_data b p sn so is_first is_last hdr e =
      Inr (if p \<noteq> 0 then e2\<lparr>am_status_triggered := True\<rparr> else e2)"
      using False e2(1) by (simp add: am_rx_data_def Let_def e1_def pdu_def)
    moreover have "same_tx e2 (e2\<lparr>am_status_triggered := True\<rparr>)" by (simp add: same_tx_def)
    ultimately show ?thesis using e2(2,3) by (auto intro: same_tx_trans)
  qed
qed

text \<open>
  A data PDU is consistent with what was received when it does not reach beyond the last segment of
  its SDU, and no segment reaches beyond it if it is the last.
\<close>

definition am_data_consistent :: "byte list \<Rightarrow> nr_rlc_pdu_decoder \<Rightarrow> nr_rlc_entity_am \<Rightarrow> bool" where
  "am_data_consistent b d e =
     (case am_parse_data e d of
        Inr (p, Some (sn, so, is_first, is_last, hdr)) \<Rightarrow>
          (\<forall>q \<in> set (am_rx_list e). pdu_sn q = sn \<and> pdu_data q \<noteq> None \<longrightarrow>
             (pdu_is_last q \<longrightarrow> so + int (length b - hdr) \<le> pdu_end q) \<and>
             (is_last \<longrightarrow> pdu_end q \<le> so + int (length b - hdr)))
      | _ \<Rightarrow> True)"

lemma am_recv_data_inv:
  assumes inv: "am_rx_inv e" and d: "dec_ok d" "dec_buffer d = b" and con: "am_data_consistent b d e"
  shows "\<exists>e'. am_recv_data_pdu b d e = Inr e' \<and> am_rx_inv e' \<and> same_tx e e'"
proof -
  obtain p h where h: "am_parse_data e d = Inr (p, h)"
    and ok: "\<And>sn so is_first is_last hdr. h = Some (sn, so, is_first, is_last, hdr) \<Longrightarrow>
      am_valid_sn e sn \<and> 0 \<le> so \<and> hdr \<le> length b"
    using am_parse_data_ok [of e d] inv d by (auto simp: am_rx_inv_def)
  show ?thesis
  proof (cases h)
    case None
    have "am_rx_inv (am_discard_pdu p (int (length b)) e)"
      by (rule am_rx_inv_cong [OF inv]) (simp_all add: am_discard_pdu_def Let_def)
    with None h show ?thesis by (simp add: am_recv_data_parse am_discard_pdu_def same_tx_def Let_def)
  next
    case (Some x)
    obtain sn so f l hdr where x: "h = Some (sn, so, f, l, hdr)" using Some by (cases x) auto
    show ?thesis
      using am_rx_data_inv [OF inv, of sn so hdr b l p f] ok [OF x] con h x
      by (auto simp: am_recv_data_parse am_data_consistent_def)
  qed
qed

section \<open>What is delivered\<close>

lemma am_delivers_full:
  assumes inv: "am_rx_inv e" and full: "am_sdu_full e x"
    and segs: "\<forall>p \<in> set (am_rx_list e). pdu_sn p = x \<longrightarrow> seg_of D p"
    and max: "int (length D) \<le> NR_SDU_MAX"
  shows "\<exists>e'. am_reassemble_and_deliver e x = Inr e' \<and> am_rx_inv e' \<and> am_sdu_delivered e' x \<and>
    events (am_common e') = events (am_common e) @ [DeliverSdu D]"
proof -
  let ?B = "block (am_rx_list e) x"
  have rx: "rx_inv (am_modulus_rx e) (am_sn_modulus e) (am_rx_list e)" and f: "rx_sdu_full (am_rx_list e) x"
    using inv full by (simp_all add: am_rx_inv_def am_sdu_full_def)
  have v: "rx_pdu_ok (am_sn_modulus e) p \<Longrightarrow> am_valid_sn e (pdu_sn p)" for p by (simp add: rx_pdu_ok_def)
  obtain e' where e': "am_reassemble_and_deliver e x = Inr e'" "am_rx_inv e'"
    "am_rx_list e' = mark_delivered id x (am_rx_list e)"
    "events (am_common e') = events (am_common e) @ [DeliverSdu D]"
    using am_reassemble_inv [OF inv full] am_rx.rx_full_data [OF rx v f segs] max by auto
  moreover have "am_sdu_delivered e' x"
    using am_rx.rx_delivered_mark [OF rx v clear_ok_simps(1)] am_rx.rx_full_block [OF rx v f] e'(3)
    by (simp add: am_sdu_delivered_def)
  ultimately show ?thesis by blast
qed

text \<open>
  C4: a complete SDU is delivered as it was sent: when every PDU held for \<open>x\<close> is a segment of the SDU
  \<open>D\<close> of the peer (in whatever way it was cut, with overlaps and repetitions) and \<open>sdu_full\<close> says so,
  \<open>reassemble_and_deliver\<close> hands exactly \<open>D\<close> to the upper layer, once, without a fault, and the
  invariant of the reception list is kept.
\<close>

theorem am_delivers_sdu:
  assumes inv: "am_rx_inv e" and full: "am_sdu_full e x"
    and segs: "\<forall>p \<in> set (am_rx_list e). pdu_sn p = x \<longrightarrow> seg_of D p"
    and max: "int (length D) \<le> NR_SDU_MAX"
  shows "\<exists>e'. am_reassemble_and_deliver e x = Inr e' \<and> am_rx_inv e' \<and> am_sdu_delivered e' x \<and>
    events (am_common e') = events (am_common e) @ [DeliverSdu D]"
  by (rule am_delivers_full [OF assms])

text \<open>An entity as it is created (12 bit sequence numbers, 35 ms reassembly), and one with segments.\<close>

definition am_fresh :: nr_rlc_entity_am where
  "am_fresh = projr (new_nr_rlc_entity_am 1000 1000 45 35 0 64 500 8 12)"

lemma am_fresh_eq: "new_nr_rlc_entity_am 1000 1000 45 35 0 64 500 8 12 = Inr am_fresh"
  using common_new_Inr [of NR_RLC_AM] by (auto simp: am_fresh_def new_nr_rlc_entity_am_def)

lemma am_fresh_simps [simp]:
  "am_sn_field_length am_fresh = 12" "am_sn_modulus am_fresh = 4096" "am_window_size am_fresh = 2048"
  "am_rx_next am_fresh = 0" "am_rx_next_highest am_fresh = 0" "am_rx_highest_status am_fresh = 0"
  "am_rx_next_status_trigger am_fresh = 0" "am_rx_list am_fresh = []" "am_rx_size am_fresh = 0"
  "am_rx_maxsize am_fresh = 1000" "am_tx_list am_fresh = []" "am_tx_end am_fresh = None" "am_tx_size am_fresh = 0"
  "am_tx_maxsize am_fresh = 1000" "am_wait_list am_fresh = []" "am_wait_end am_fresh = None"
  "am_retransmit_list am_fresh = []" "am_heap am_fresh = heap_empty" "am_tx_next am_fresh = 0"
  "am_tx_next_ack am_fresh = 0" "events (am_common am_fresh) = []"
  "tx_size (bstatus (am_common am_fresh)) = 0" "retx_size (bstatus (am_common am_fresh)) = 0"
proof -
  obtain c where "common_new NR_RLC_AM = Inr c" "events c = []" "tx_size (bstatus c) = 0" "retx_size (bstatus c) = 0"
    using common_new_Inr [of NR_RLC_AM] by blast
  then show "am_sn_field_length am_fresh = 12" "am_sn_modulus am_fresh = 4096" "am_window_size am_fresh = 2048"
    "am_rx_next am_fresh = 0" "am_rx_next_highest am_fresh = 0" "am_rx_highest_status am_fresh = 0"
    "am_rx_next_status_trigger am_fresh = 0" "am_rx_list am_fresh = []" "am_rx_size am_fresh = 0"
    "am_rx_maxsize am_fresh = 1000" "am_tx_list am_fresh = []" "am_tx_end am_fresh = None" "am_tx_size am_fresh = 0"
    "am_tx_maxsize am_fresh = 1000" "am_wait_list am_fresh = []" "am_wait_end am_fresh = None"
    "am_retransmit_list am_fresh = []" "am_heap am_fresh = heap_empty" "am_tx_next am_fresh = 0"
    "am_tx_next_ack am_fresh = 0" "events (am_common am_fresh) = []"
    "tx_size (bstatus (am_common am_fresh)) = 0" "retx_size (bstatus (am_common am_fresh)) = 0"
    unfolding am_fresh_def new_nr_rlc_entity_am_def by (simp_all add: Let_def)
qed

definition am_two_segments :: nr_rlc_entity_am where
  "am_two_segments = am_fresh\<lparr>am_rx_size := 5, am_rx_list :=
     [nr_rlc_new_pdu 0 0 True False [10, 11, 12], nr_rlc_new_pdu 0 2 False True [12, 13]]\<rparr>"

lemma am_two_segments_inv: "am_rx_inv am_two_segments"
  by (simp add: am_two_segments_def am_rx_inv_def am_cfg_def rx_inv_def rx_pdu_ok_def rx_delivered_first_def
      nr_rlc_new_pdu_def pdu_before_def seg_data_ok_def am_sn_in_recv_window_def am_modulus_rx_def rx_ends_ok_def
      pdu_end_def rx_bytes_def)

lemma am_two_segments_of: "\<forall>p \<in> set (am_rx_list am_two_segments). pdu_sn p = 0 \<longrightarrow> seg_of [10, 11, 12, 13] p"
  by (simp add: am_two_segments_def seg_of_def seg_data_ok_def pdu_end_def nr_rlc_new_pdu_def)

theorem am_delivers_sdu_witness:
  "\<exists>e'. am_reassemble_and_deliver am_two_segments 0 = Inr e' \<and> am_rx_inv e' \<and> am_sdu_delivered e' 0 \<and>
    events (am_common e') = events (am_common am_two_segments) @ [DeliverSdu [10, 11, 12, 13]]"
proof -
  have "am_sdu_full am_two_segments 0"
    by (simp add: am_two_segments_def am_sdu_full_def rx_sdu_full_def seek_sn_def nr_rlc_new_pdu_def)
  from am_delivers_sdu [OF am_two_segments_inv this am_two_segments_of] show ?thesis
    by (simp add: NR_SDU_MAX_def)
qed

lemma am_full_iff:
  assumes inv: "am_rx_inv e" and segs: "\<forall>p \<in> set (am_rx_list e). pdu_sn p = x \<longrightarrow> seg_of D p"
    and D: "D \<noteq> []"
  shows "am_sdu_full e x \<longleftrightarrow>
    (\<forall>i \<in> {0..<int (length D)}. \<exists>p \<in> set (am_rx_list e). pdu_sn p = x \<and> pdu_so p \<le> i \<and> i < pdu_so p + pdu_size p)"
proof -
  have "rx_inv (am_modulus_rx e) (am_sn_modulus e) (am_rx_list e)" using inv by (simp add: am_rx_inv_def)
  from am_rx.rx_full_iff [OF this _ segs D] show ?thesis by (simp add: am_sdu_full_def rx_pdu_ok_def)
qed

text \<open>
  C5: \<open>sdu_full\<close> is exact: of an SDU \<open>D\<close> that was not delivered yet, it answers yes just when every byte
  of \<open>D\<close> is in one of the PDUs received, in whatever order and with whatever overlap they came.
\<close>

theorem am_sdu_full_iff:
  assumes inv: "am_rx_inv e" and segs: "\<forall>p \<in> set (am_rx_list e). pdu_sn p = x \<longrightarrow> seg_of D p"
    and D: "D \<noteq> []"
  shows "am_sdu_full e x \<longleftrightarrow>
    (\<forall>i \<in> {0..<int (length D)}. \<exists>p \<in> set (am_rx_list e). pdu_sn p = x \<and> pdu_so p \<le> i \<and> i < pdu_so p + pdu_size p)"
  by (rule am_full_iff [OF assms])

theorem am_sdu_full_iff_witness: "am_sdu_full am_two_segments 0"
proof -
  have "{0..<4::int} = {0, 1, 2, 3}" by auto
  then show ?thesis
    using am_sdu_full_iff [OF am_two_segments_inv am_two_segments_of]
    by (simp add: am_two_segments_def nr_rlc_new_pdu_def)
qed

lemma already_received_loop_sound:
  "segment_already_received_loop l sn so sz \<Longrightarrow> so \<le> i \<Longrightarrow> i < so + sz \<Longrightarrow>
   \<exists>p \<in> set l. pdu_sn p = sn \<and> pdu_so p \<le> i \<and> i < pdu_so p + pdu_size p"
proof (induction l sn so sz arbitrary: i rule: segment_already_received_loop.induct)
  case (2 l ls sn so sz)
  show ?case
  proof (cases "pdu_sn l = sn \<and> pdu_so l \<le> i \<and> i < pdu_so l + pdu_size l")
    case False
    with 2 show ?thesis by (auto simp: Let_def split: if_splits)
  qed auto
qed simp

text \<open>
  A PDU is discarded as a duplicate only if it brings nothing new: when
  \<open>segment_already_received\<close> answers yes, each of its bytes is in a PDU of the same SDU in the list.
\<close>

theorem am_duplicate_sound:
  assumes "am_segment_already_received e sn so sz" and "so \<le> i" and "i < so + sz"
  shows "\<exists>p \<in> set (am_rx_list e). pdu_sn p = sn \<and> pdu_so p \<le> i \<and> i < pdu_so p + pdu_size p"
  using assms already_received_loop_sound unfolding am_segment_already_received_def by simp

theorem am_duplicate_sound_witness:
  "\<exists>p \<in> set (am_rx_list am_two_segments). pdu_sn p = 0 \<and> pdu_so p \<le> 3 \<and> 3 < pdu_so p + pdu_size p"
proof -
  have "am_segment_already_received am_two_segments 0 1 3"
    by (simp add: am_two_segments_def am_segment_already_received_def nr_rlc_new_pdu_def)
  from am_duplicate_sound [OF this, of 3] show ?thesis by simp
qed

end
