(* ===== verification/RlcAmFlow.thy ===== *)
theory RlcAmFlow
  imports RlcAmEntity RlcAmRx RlcSegments
begin

text \<open>
  The order of the sequence numbers in flight of an AM entity: the numbers in the wait and the
  retransmit list are between \<open>tx_next_ack\<close> and \<open>tx_next\<close>, at most a window apart, each number belongs to one SDU,
  and both lists are sorted.
\<close>

section \<open>Distances\<close>

definition sn_dist :: "int \<Rightarrow> int \<Rightarrow> int \<Rightarrow> int" where
  "sn_dist M base a = (a - base) mod M"

definition in_flight :: "int \<Rightarrow> int \<Rightarrow> int \<Rightarrow> int \<Rightarrow> bool" where
  "in_flight M base nxt n \<longleftrightarrow> 0 \<le> n \<and> n < M \<and> sn_dist M base n < sn_dist M base nxt"

definition seg_before :: "int \<Rightarrow> int \<Rightarrow> (segment \<Rightarrow> int) \<Rightarrow> segment \<Rightarrow> segment \<Rightarrow> bool" where
  "seg_before M base sn s t \<longleftrightarrow> sn_dist M base (sn s) < sn_dist M base (sn t) \<or>
     (sn s = sn t \<and> seg_so s < seg_so t)"

lemma sn_dist_bounds: "0 < M \<Longrightarrow> 0 \<le> sn_dist M base a \<and> sn_dist M base a < M"
  by (simp add: sn_dist_def)

lemma sn_dist_inj:
  assumes "0 \<le> a" "a < M" "0 \<le> b" "b < M" "sn_dist M base a = sn_dist M base b"
  shows "a = b"
proof -
  have "((a - base) mod M + base) mod M = ((b - base) mod M + base) mod M" using assms(5) by (simp add: sn_dist_def)
  then have "a mod M = b mod M" by (simp add: mod_add_left_eq)
  with assms show ?thesis by simp
qed

lemma sn_dist_self [simp]: "sn_dist M base base = 0"
  by (simp add: sn_dist_def)

text \<open>A new base that is not after \<open>a\<close> brings \<open>a\<close> closer by its own distance.\<close>

lemma sn_dist_rebase:
  assumes "0 < M" and "sn_dist M base b \<le> sn_dist M base a"
  shows "sn_dist M b a = sn_dist M base a - sn_dist M base b"
proof -
  let ?x = "(a - base) mod M" and ?y = "(b - base) mod M"
  have "(?x - ?y) mod M = (a - b) mod M" by (simp add: mod_diff_eq)
  moreover have "0 \<le> ?x - ?y" "?x - ?y < M"
    using assms pos_mod_sign [of M "b - base"] pos_mod_bound [of M "a - base"] unfolding sn_dist_def by linarith+
  ultimately show ?thesis by (simp add: sn_dist_def)
qed

lemma sn_dist_Suc:
  assumes "sn_dist M base a + 1 < M" and "0 < M"
  shows "sn_dist M base ((a + 1) mod M) = sn_dist M base a + 1"
proof -
  have "((a + 1) mod M - base) mod M = ((a - base) mod M + 1) mod M"
    by (simp add: mod_diff_left_eq mod_add_left_eq diff_add_eq)
  with assms sn_dist_bounds [of M base a] show ?thesis by (simp add: sn_dist_def)
qed

lemma am_modulus_tx_dist:
  assumes "am_valid_sn e a" and "am_valid_sn e (am_tx_next_ack e)"
  shows "am_modulus_tx e a = sn_dist (am_sn_modulus e) (am_tx_next_ack e) a"
proof (cases "a < am_tx_next_ack e")
  case True
  have "(a - am_tx_next_ack e) mod am_sn_modulus e = (a - am_tx_next_ack e + am_sn_modulus e) mod am_sn_modulus e" by simp
  also have "\<dots> = a - am_tx_next_ack e + am_sn_modulus e" using True assms by (intro mod_pos_pos_trivial) auto
  finally show ?thesis using True by (simp add: am_modulus_tx_def sn_dist_def)
next
  case False
  then show ?thesis using assms by (simp add: am_modulus_tx_def sn_dist_def mod_pos_pos_trivial)
qed

section \<open>The invariant\<close>

definition whole_seg :: "segment \<Rightarrow> bool" where
  "whole_seg s \<longleftrightarrow> seg_is_first s \<and> seg_is_last s"

definition sn_unique :: "(segment \<Rightarrow> int) \<Rightarrow> segment set \<Rightarrow> bool" where
  "sn_unique sn S \<longleftrightarrow> (\<forall>s \<in> S. \<forall>t \<in> S. sn s = sn t \<and> sn s \<noteq> -1 \<longrightarrow> seg_sdu s = seg_sdu t)"

definition tx_seg_ok :: "int \<Rightarrow> int \<Rightarrow> int \<Rightarrow> (segment \<Rightarrow> int) \<Rightarrow> segment \<Rightarrow> bool" where
  "tx_seg_ok M base nxt sn s \<longleftrightarrow> (sn s = -1 \<and> whole_seg s) \<or> in_flight M base nxt (sn s)"

definition flow ::
  "int \<Rightarrow> int \<Rightarrow> int \<Rightarrow> int \<Rightarrow> (segment \<Rightarrow> int) \<Rightarrow> segment list \<Rightarrow> segment list \<Rightarrow> segment list \<Rightarrow> bool" where
  "flow M w base nxt sn tx wait retx \<longleftrightarrow>
     0 \<le> base \<and> base < M \<and> 0 \<le> nxt \<and> nxt < M \<and> sn_dist M base nxt \<le> w \<and>
     (\<forall>s \<in> set wait \<union> set retx. in_flight M base nxt (sn s)) \<and>
     (\<forall>s \<in> set tx. tx_seg_ok M base nxt sn s) \<and> (\<forall>s \<in> set (tl tx). sn s = -1) \<and>
     sn_unique sn (set tx \<union> set wait \<union> set retx) \<and>
     sorted_wrt (seg_before M base sn) wait \<and> sorted_wrt (seg_before M base sn) retx"

lemma flowI:
  assumes "0 \<le> base" "base < M" "0 \<le> nxt" "nxt < M" "sn_dist M base nxt \<le> w"
    and "\<And>s. s \<in> set wait \<Longrightarrow> in_flight M base nxt (sn s)" "\<And>s. s \<in> set retx \<Longrightarrow> in_flight M base nxt (sn s)"
    and "\<And>s. s \<in> set tx \<Longrightarrow> tx_seg_ok M base nxt sn s" "\<And>s. s \<in> set (tl tx) \<Longrightarrow> sn s = -1"
    and "sn_unique sn (set tx \<union> set wait \<union> set retx)"
    and "sorted_wrt (seg_before M base sn) wait" "sorted_wrt (seg_before M base sn) retx"
  shows "flow M w base nxt sn tx wait retx"
  using assms unfolding flow_def by blast

lemma flowD:
  assumes "flow M w base nxt sn tx wait retx"
  shows "0 \<le> base" "base < M" "0 \<le> nxt" "nxt < M" "sn_dist M base nxt \<le> w"
    "s \<in> set wait \<Longrightarrow> in_flight M base nxt (sn s)" "s \<in> set retx \<Longrightarrow> in_flight M base nxt (sn s)"
    "s \<in> set tx \<Longrightarrow> tx_seg_ok M base nxt sn s" "s \<in> set (tl tx) \<Longrightarrow> sn s = -1"
    "sn_unique sn (set tx \<union> set wait \<union> set retx)"
    "sorted_wrt (seg_before M base sn) wait" "sorted_wrt (seg_before M base sn) retx"
  using assms unfolding flow_def by blast+

lemma in_set_tlD: "x \<in> set (tl l) \<Longrightarrow> x \<in> set l"
  by (cases l) auto

lemma sn_unique_subset: "sn_unique sn S \<Longrightarrow> T \<subseteq> S \<Longrightarrow> sn_unique sn T"
  unfolding sn_unique_def by blast

lemma sn_unique_insertI:
  assumes S: "sn_unique sn S" and s: "\<And>t. t \<in> S \<Longrightarrow> sn s = sn t \<Longrightarrow> sn s \<noteq> -1 \<Longrightarrow> seg_sdu s = seg_sdu t"
  shows "sn_unique sn (insert s S)"
  unfolding sn_unique_def
proof (intro ballI impI)
  fix x y assume "x \<in> insert s S" "y \<in> insert s S" and eq: "sn x = sn y \<and> sn x \<noteq> -1"
  then consider "x = s" "y = s" | "x = s" "y \<in> S" | "x \<in> S" "y = s" | "x \<in> S" "y \<in> S" by blast
  then show "seg_sdu x = seg_sdu y"
  proof cases
    case 2
    with s [of y] eq show ?thesis by metis
  next
    case 3
    with s [of x] eq show ?thesis by metis
  next
    case 4
    with S eq show ?thesis unfolding sn_unique_def by blast
  qed simp
qed

lemma sn_unique_cong: "sn_unique sn S \<Longrightarrow> (\<And>s. s \<in> S \<Longrightarrow> sn' s = sn s) \<Longrightarrow> sn_unique sn' S"
  unfolding sn_unique_def by metis

lemma seg_before_sorted_cong:
  assumes "sorted_wrt (seg_before M base sn) l" and "\<And>s. s \<in> set l \<Longrightarrow> sn' s = sn s"
  shows "sorted_wrt (seg_before M base sn') l"
  by (rule sorted_wrt_mono_rel [OF _ assms(1)]) (simp add: seg_before_def assms(2))

lemma flow_cong:
  assumes f: "flow M w base nxt sn tx wait retx"
    and c: "\<And>s. s \<in> set tx \<union> set wait \<union> set retx \<Longrightarrow> sn' s = sn s"
  shows "flow M w base nxt sn' tx wait retx"
proof (rule flowI)
  show "sorted_wrt (seg_before M base sn') wait" using flowD(11) [OF f] by (rule seg_before_sorted_cong) (simp add: c)
  show "sorted_wrt (seg_before M base sn') retx" using flowD(12) [OF f] by (rule seg_before_sorted_cong) (simp add: c)
  show "sn_unique sn' (set tx \<union> set wait \<union> set retx)" using flowD(10) [OF f] c by (rule sn_unique_cong)
  show "sn' s = -1" if "s \<in> set (tl tx)" for s
    using flowD(9) [OF f that] c [of s] in_set_tlD [OF that] by simp
  show "tx_seg_ok M base nxt sn' s" if "s \<in> set tx" for s
    using flowD(8) [OF f that] c [of s] that by (simp add: tx_seg_ok_def)
  show "in_flight M base nxt (sn' s)" if "s \<in> set wait" for s using flowD(6) [OF f that] c [of s] that by simp
  show "in_flight M base nxt (sn' s)" if "s \<in> set retx" for s using flowD(7) [OF f that] c [of s] that by simp
qed (use flowD(1-5) [OF f] in auto)

text \<open>Taking segments out of the lists.\<close>

lemma flow_shrink:
  assumes f: "flow M w base nxt sn tx wait retx"
    and "set tx' \<subseteq> set tx" "set (tl tx') \<subseteq> set (tl tx)" "set wait' \<subseteq> set wait" "set retx' \<subseteq> set retx"
    and "sorted_wrt (seg_before M base sn) wait'" "sorted_wrt (seg_before M base sn) retx'"
  shows "flow M w base nxt sn tx' wait' retx'"
proof (rule flowI)
  show "sn_unique sn (set tx' \<union> set wait' \<union> set retx')"
    by (rule sn_unique_subset [OF flowD(10) [OF f]]) (use assms(2,4,5) in auto)
qed (use flowD [OF f] assms in auto)

text \<open>Sorted insertion.\<close>

lemma mset_tx_list_add [simp]: "mset (nr_rlc_tx_sdu_segment_list_add e l s) = add_mset s (mset l)"
  by (induction l) (auto simp: Let_def)

lemma set_tx_list_add [simp]: "set (nr_rlc_tx_sdu_segment_list_add e l s) = insert s (set l)"
  by (induction l) (auto simp: Let_def)

definition am_sn_of :: "nr_rlc_entity_am \<Rightarrow> segment \<Rightarrow> int" where
  "am_sn_of e s = seg_sn (am_heap e) s"

abbreviation am_before :: "nr_rlc_entity_am \<Rightarrow> segment \<Rightarrow> segment \<Rightarrow> bool" where
  "am_before e \<equiv> seg_before (am_sn_modulus e) (am_tx_next_ack e) (am_sn_of e)"

lemma am_before_code:
  assumes "am_valid_sn e (am_tx_next_ack e)" "am_valid_sn e (am_sn_of e s)" "am_valid_sn e (am_sn_of e t)"
  shows "am_sn_compare_tx e (seg_sn (am_heap e) t) (seg_sn (am_heap e) s) > 0 \<or>
      (seg_sn (am_heap e) t = seg_sn (am_heap e) s \<and> seg_so t > seg_so s) \<longleftrightarrow> am_before e s t"
  using assms am_modulus_tx_dist [of "am_sn_of e s" e] am_modulus_tx_dist [of "am_sn_of e t" e]
  by (auto simp: seg_before_def am_sn_compare_tx_def am_sn_of_def)

lemma am_before_trans: "am_before e s t \<Longrightarrow> am_before e t u \<Longrightarrow> am_before e s u"
  by (auto simp: seg_before_def)

lemma tx_list_add_sorted:
  assumes "sorted_wrt (am_before e) l" and "am_valid_sn e (am_tx_next_ack e)" and "am_valid_sn e (am_sn_of e s)"
    and "\<forall>t \<in> set l. am_valid_sn e (am_sn_of e t) \<and> (am_before e s t \<or> am_before e t s)"
  shows "sorted_wrt (am_before e) (nr_rlc_tx_sdu_segment_list_add e l s)"
  using assms
proof (induction l)
  case (Cons c l)
  then show ?case
    using am_before_code [of e s c] am_before_trans by (auto simp: Let_def)
qed simp

text \<open>What comes before the last segment does not become the last one.\<close>

lemma tx_list_add_last:
  assumes "l \<noteq> []" and "am_valid_sn e (am_tx_next_ack e)" and "am_valid_sn e (am_sn_of e s)"
    and "am_valid_sn e (am_sn_of e (last l))" and "am_before e s (last l)"
  shows "last (nr_rlc_tx_sdu_segment_list_add e l s) = last l \<and> tl (nr_rlc_tx_sdu_segment_list_add e l s) \<noteq> []"
  using assms
proof (induction l)
  case (Cons c l)
  show ?case
  proof (cases "l = []")
    case True
    with Cons.prems am_before_code [of e s c] show ?thesis by (auto simp: Let_def)
  next
    case False
    have "nr_rlc_tx_sdu_segment_list_add e l s \<noteq> []" by (cases l) (auto simp: Let_def)
    with False Cons show ?thesis by (auto simp: Let_def)
  qed
qed simp

section \<open>Steps of the flow\<close>

lemma flow_recv:
  assumes f: "flow M w base nxt sn tx wait retx" and s: "sn s = -1" "whole_seg s"
  shows "flow M w base nxt sn (tx @ [s]) wait retx"
proof (rule flowI)
  have "sn_unique sn (insert s (set tx \<union> set wait \<union> set retx))"
    using flowD(10) [OF f] s(1) by (blast intro: sn_unique_insertI)
  then show "sn_unique sn (set (tx @ [s]) \<union> set wait \<union> set retx)" by simp
  show "sn t = -1" if "t \<in> set (tl (tx @ [s]))" for t
    using that flowD(9) [OF f, of t] s by (cases tx) auto
  show "tx_seg_ok M base nxt sn t" if "t \<in> set (tx @ [s])" for t
    using that flowD(8) [OF f, of t] s by (auto simp: tx_seg_ok_def)
qed (use flowD(1-7,11-12) [OF f] in auto)

text \<open>The next sequence number goes to the SDU at the head of the queue.\<close>

lemma flow_assign:
  assumes f: "flow M w base nxt sn (s # tx) wait retx" and w: "sn_dist M base nxt < w" "w < M"
    and sn': "sn' s = nxt" "\<And>t. t \<in> set tx \<union> set wait \<union> set retx \<Longrightarrow> sn' t = sn t"
  shows "flow M w base ((nxt + 1) mod M) sn' (s # tx) wait retx"
proof -
  have base: "0 \<le> nxt" "nxt < M" using flowD [OF f] by auto
  have d: "sn_dist M base ((nxt + 1) mod M) = sn_dist M base nxt + 1" by (rule sn_dist_Suc) (use w base in auto)
  have fl: "in_flight M base ((nxt + 1) mod M) n" if "in_flight M base nxt n" for n
    using that d by (simp add: in_flight_def)
  have nf: "in_flight M base ((nxt + 1) mod M) nxt" using base d by (simp add: in_flight_def)
  have fresh: "sn t \<noteq> nxt" if "t \<in> set tx \<union> set wait \<union> set retx" for t
    using that flowD(6,7) [OF f, of t] flowD(8) [OF f, of t] base by (auto simp: tx_seg_ok_def in_flight_def)
  show ?thesis
  proof (rule flowI)
    show "sn_unique sn' (set (s # tx) \<union> set wait \<union> set retx)"
    proof -
      have "sn_unique sn (set tx \<union> set wait \<union> set retx)"
        by (rule sn_unique_subset [OF flowD(10) [OF f]]) auto
      then have "sn_unique sn' (set tx \<union> set wait \<union> set retx)" using sn'(2) by (rule sn_unique_cong)
      moreover have "sn' s \<noteq> sn' t" if "t \<in> set tx \<union> set wait \<union> set retx" for t
        using fresh [OF that] sn'(1) sn'(2) [OF that] by simp
      ultimately have "sn_unique sn' (insert s (set tx \<union> set wait \<union> set retx))"
        by (blast intro: sn_unique_insertI)
      then show ?thesis by simp
    qed
    show "sorted_wrt (seg_before M base sn') wait" "sorted_wrt (seg_before M base sn') retx"
      using flowD(11,12) [OF f] sn'(2) by (auto intro: seg_before_sorted_cong)
    show "tx_seg_ok M base ((nxt + 1) mod M) sn' t" if "t \<in> set (s # tx)" for t
      using that flowD(8) [OF f, of t] sn' nf fl by (cases "t = s") (auto simp: tx_seg_ok_def)
    show "sn_dist M base ((nxt + 1) mod M) \<le> w" using d w by simp
    show "in_flight M base ((nxt + 1) mod M) (sn' t)" if "t \<in> set wait" for t
      using that flowD(6) [OF f that] fl sn'(2) by simp
    show "in_flight M base ((nxt + 1) mod M) (sn' t)" if "t \<in> set retx" for t
      using that flowD(7) [OF f that] fl sn'(2) by simp
    show "sn' t = -1" if "t \<in> set (tl (s # tx))" for t using that flowD(9) [OF f, of t] sn'(2) by simp
  qed (use flowD(1,2) [OF f] base in auto)
qed

text \<open>A segment of an SDU that is in flight takes a place in a list.\<close>

lemma flow_add:
  assumes f: "flow M w base nxt sn tx wait retx" and s: "in_flight M base nxt (sn s)"
    and u: "\<And>t. t \<in> set tx \<union> set wait \<union> set retx \<Longrightarrow> sn s = sn t \<Longrightarrow> seg_sdu s = seg_sdu t"
  shows "set wait' = insert s (set wait) \<Longrightarrow> sorted_wrt (seg_before M base sn) wait' \<Longrightarrow> flow M w base nxt sn tx wait' retx"
    "set retx' = insert s (set retx) \<Longrightarrow> sorted_wrt (seg_before M base sn) retx' \<Longrightarrow> flow M w base nxt sn tx wait retx'"
    "\<forall>t \<in> set tx. sn t = -1 \<Longrightarrow> flow M w base nxt sn (s # tx) wait retx"
proof -
  have un: "sn_unique sn (insert s (set tx \<union> set wait \<union> set retx))"
    using flowD(10) [OF f] u by (blast intro: sn_unique_insertI)
  show "flow M w base nxt sn tx wait' retx"
    if "set wait' = insert s (set wait)" "sorted_wrt (seg_before M base sn) wait'"
    by (rule flowI) (use flowD [OF f] that s un in auto)
  show "flow M w base nxt sn tx wait retx'"
    if "set retx' = insert s (set retx)" "sorted_wrt (seg_before M base sn) retx'"
    by (rule flowI) (use flowD [OF f] that s un in auto)
  show "flow M w base nxt sn (s # tx) wait retx" if "\<forall>t \<in> set tx. sn t = -1"
    by (rule flowI) (use flowD [OF f] that s un in \<open>auto simp: tx_seg_ok_def\<close>)
qed

text \<open>The window moves forward, not beyond a number that is still in flight.\<close>

lemma flow_rebase:
  assumes f: "flow M w base nxt sn tx wait retx" and b: "0 \<le> b" "b < M" "sn_dist M base b \<le> sn_dist M base nxt"
    and lo: "\<And>s. s \<in> set tx \<union> set wait \<union> set retx \<Longrightarrow> sn s \<noteq> -1 \<Longrightarrow> sn_dist M base b \<le> sn_dist M base (sn s)"
  shows "flow M w b nxt sn tx wait retx"
proof -
  have M: "0 < M" using b by simp
  have d: "sn_dist M b n = sn_dist M base n - sn_dist M base b" if "sn_dist M base b \<le> sn_dist M base n" for n
    using sn_dist_rebase [OF M that] .
  have fl: "in_flight M b nxt (sn s)" if "in_flight M base nxt (sn s)" "s \<in> set tx \<union> set wait \<union> set retx" for s
    using that d [OF b(3)] d [OF lo [OF that(2)]] by (auto simp: in_flight_def)
  have srt: "sorted_wrt (seg_before M b sn) l"
    if "sorted_wrt (seg_before M base sn) l" "\<And>s. s \<in> set l \<Longrightarrow> sn_dist M base b \<le> sn_dist M base (sn s)" for l
    by (rule sorted_wrt_mono_rel [OF _ that(1)]) (use that(2) d in \<open>auto simp: seg_before_def\<close>)
  have neg: "sn s \<noteq> -1" if "in_flight M base nxt (sn s)" for s using that by (auto simp: in_flight_def)
  show ?thesis
  proof (rule flowI)
    show "sn_dist M b nxt \<le> w" using d [OF b(3)] flowD(5) [OF f] sn_dist_bounds [OF M, of base b] by linarith
    show "in_flight M b nxt (sn s)" if "s \<in> set wait" for s using that fl flowD(6) [OF f that] by simp
    show "in_flight M b nxt (sn s)" if "s \<in> set retx" for s using that fl flowD(7) [OF f that] by simp
    show "tx_seg_ok M b nxt sn s" if "s \<in> set tx" for s
      using that fl flowD(8) [OF f that] by (auto simp: tx_seg_ok_def)
    show "sorted_wrt (seg_before M b sn) wait"
      by (rule srt [OF flowD(11) [OF f]]) (use lo neg flowD(6) [OF f] in auto)
    show "sorted_wrt (seg_before M b sn) retx"
      by (rule srt [OF flowD(12) [OF f]]) (use lo neg flowD(7) [OF f] in auto)
  qed (use flowD [OF f] b in auto)
qed

end
