(* ===== verification/RlcAmInv.thy ===== *)
theory RlcAmInv
  imports RlcAmFlow
begin

unbundle bit_operations_syntax

text \<open>
  The invariant of the transmitting half of the AM entity, and that the operations keep it: memory, end
  pointers, the flow of sequence numbers, and the accounting of bytes.
\<close>

section \<open>The invariant\<close>

definition am_segs :: "nr_rlc_entity_am \<Rightarrow> segment multiset" where
  "am_segs e = mset (am_tx_list e) + mset (am_wait_list e) + mset (am_retransmit_list e)"

definition am_flow :: "nr_rlc_entity_am \<Rightarrow> bool" where
  "am_flow e \<longleftrightarrow> flow (am_sn_modulus e) (am_window_size e) (am_tx_next_ack e) (am_tx_next e) (am_sn_of e)
     (am_tx_list e) (am_wait_list e) (am_retransmit_list e)"

text \<open>The size of the PDU of a segment, as a function of the length of the sequence number.\<close>

definition seg_bytes :: "int \<Rightarrow> segment \<Rightarrow> int" where
  "seg_bytes len s = 2 + (if len = 18 then 1 else 0) + (if \<not> seg_is_first s then 2 else 0) + seg_size s"

lemma am_seg_pdu_size_eq: "am_seg_pdu_size e s = seg_bytes (am_sn_field_length e) s"
  by (simp add: am_seg_pdu_size_def am_compute_pdu_header_size_def seg_bytes_def)

definition list_bytes :: "int \<Rightarrow> segment list \<Rightarrow> int" where
  "list_bytes len l = sum_list (map (seg_bytes len) l)"

lemma list_bytes_simps [simp]:
  "list_bytes len [] = 0" "list_bytes len (s # l) = seg_bytes len s + list_bytes len l"
  "list_bytes len (l @ l') = list_bytes len l + list_bytes len l'"
  by (simp_all add: list_bytes_def)

lemma list_bytes_nonneg: "(\<And>s. s \<in> set l \<Longrightarrow> 0 \<le> seg_size s) \<Longrightarrow> 0 \<le> list_bytes len l"
  unfolding list_bytes_def by (rule sum_list_nonneg) (auto simp: seg_bytes_def)

text \<open>
  Accounting. \<open>L\<close> are segments that were cut off from the lists without being released. When there are none, the
  counters are exact; \<open>process_control_pdu\<close> can cut the retransmit list, and then \<open>retx_size\<close> counts too much,
  but it never counts too little.
\<close>

definition am_acct :: "segment multiset \<Rightarrow> nr_rlc_entity_am \<Rightarrow> bool" where
  "am_acct L e \<longleftrightarrow>
     tx_size (bstatus (am_common e)) = list_bytes (am_sn_field_length e) (am_tx_list e) \<and>
     am_tx_size e \<le> am_tx_maxsize e \<and> 0 \<le> am_tx_maxsize e \<and>
     list_bytes (am_sn_field_length e) (am_retransmit_list e) \<le> retx_size (bstatus (am_common e)) \<and>
     (L = {#} \<longrightarrow> am_tx_size e = heap_bytes (am_heap e) \<and>
        retx_size (bstatus (am_common e)) = list_bytes (am_sn_field_length e) (am_retransmit_list e))"

definition am_tx_inv :: "segment multiset \<Rightarrow> nr_rlc_entity_am \<Rightarrow> bool" where
  "am_tx_inv L e \<longleftrightarrow> am_cfg e \<and> segs_inv (am_heap e) (am_segs e + L) \<and>
     am_tx_end e = end_of (am_tx_list e) \<and> am_wait_end e = end_of (am_wait_list e) \<and>
     am_flow e \<and> am_acct L e"

text \<open>What the transmitting half leaves alone.\<close>

definition same_rx :: "nr_rlc_entity_am \<Rightarrow> nr_rlc_entity_am \<Rightarrow> bool" where
  "same_rx e e' \<longleftrightarrow> am_sn_field_length e' = am_sn_field_length e \<and> am_sn_modulus e' = am_sn_modulus e \<and>
     am_window_size e' = am_window_size e \<and> am_rx_next e' = am_rx_next e \<and>
     am_rx_next_highest e' = am_rx_next_highest e \<and> am_rx_highest_status e' = am_rx_highest_status e \<and>
     am_rx_next_status_trigger e' = am_rx_next_status_trigger e \<and> am_rx_list e' = am_rx_list e \<and>
     am_rx_size e' = am_rx_size e \<and> am_rx_maxsize e' = am_rx_maxsize e"

lemma same_rx_refl [simp]: "same_rx e e"
  by (simp add: same_rx_def)

lemma same_rx_trans: "same_rx e e' \<Longrightarrow> same_rx e' e'' \<Longrightarrow> same_rx e e''"
  by (simp add: same_rx_def)

lemma am_rx_inv_same: "am_rx_inv e \<Longrightarrow> same_rx e e' \<Longrightarrow> am_rx_inv e'"
  unfolding same_rx_def by (rule am_rx_inv_cong) simp_all

lemma am_tx_inv_same:
  assumes "am_tx_inv L e" and "same_tx e e'"
  shows "am_tx_inv L e'"
proof -
  have "am_sn_of e' = am_sn_of e" using assms(2) by (simp add: am_sn_of_def same_tx_def fun_eq_iff)
  moreover have "am_segs e' = am_segs e" "am_cfg e' = am_cfg e"
    using assms(2) by (simp_all add: am_segs_def am_cfg_def same_tx_def)
  ultimately show ?thesis
    using assms unfolding am_tx_inv_def am_flow_def am_acct_def same_tx_def by simp
qed

lemma am_tx_invD:
  assumes "am_tx_inv L e"
  shows "am_cfg e" "segs_inv (am_heap e) (am_segs e + L)" "am_tx_end e = end_of (am_tx_list e)"
    "am_wait_end e = end_of (am_wait_list e)" "am_flow e" "am_acct L e"
  using assms by (simp_all add: am_tx_inv_def)

section \<open>SDUs from the upper layer\<close>

text \<open>The bookkeeping of rejected SDUs touches nothing else.\<close>

definition am_prologue :: "nr_rlc_entity_am \<Rightarrow> nr_rlc_entity_am" where
  "am_prologue e =
     (let e1 = e\<lparr>am_common := stats_update (rxsdu_pkts_update (\<lambda>n. n + 1)) (am_common e)\<rparr>
      in if am_sdu_rejected e1 \<noteq> 0 \<and> am_t_current e1 > am_t_log_buffer_full e1 + 1000
         then e1\<lparr>am_sdu_rejected := 0, am_t_log_buffer_full := am_t_current e1\<rparr> else e1)"

lemma am_recv_sdu_eq:
  "nr_rlc_entity_am_recv_sdu t b i e =
     (let sz = int (length b); e2 = am_prologue e
      in if am_tx_size e2 + sz > am_tx_maxsize e2
         then Inr (e2\<lparr>am_sdu_rejected := am_sdu_rejected e2 + 1\<rparr>)
         else case new_sdu_dated (avg_time_is_on (am_common e)) t b i (am_heap e) of (sdu, h') \<Rightarrow>
           res_bind (nr_rlc_sdu_segment_list_append (am_tx_list e) (am_tx_end e) sdu) (\<lambda>(l, en).
           Inr (e2\<lparr>am_tx_size := am_tx_size e2 + sz, am_heap := h', am_tx_list := l, am_tx_end := en,
             am_common := bstatus_update (tx_size_update (\<lambda>m. m + am_seg_pdu_size e sdu))
               (stats_update (rxsdu_bytes_update (\<lambda>n. n + word_of_int sz)) (am_common e2))\<rparr>)))"
  unfolding nr_rlc_entity_am_recv_sdu_def Let_def new_sdu_dated_def am_prologue_def
  by (simp add: am_tx_size_add_def am_seg_pdu_size_eq res_bind_def split: prod.splits sum.splits)

lemma am_recv_sdu_inv:
  assumes inv: "am_tx_inv L e"
  shows "\<exists>e'. nr_rlc_entity_am_recv_sdu t b i e = Inr e' \<and> am_tx_inv L e' \<and> same_rx e e'"
proof -
  let ?sz = "int (length b)"
  define e2 where "e2 = am_prologue e"
  have st: "same_tx e e2" "same_rx e e2" by (simp_all add: e2_def am_prologue_def same_tx_def same_rx_def Let_def)
  show ?thesis
  proof (cases "am_tx_size e2 + ?sz > am_tx_maxsize e2")
    case True
    let ?e = "e2\<lparr>am_sdu_rejected := am_sdu_rejected e2 + 1\<rparr>"
    have "same_tx e ?e" "same_rx e ?e" using st by (simp_all add: same_tx_def same_rx_def)
    moreover have "nr_rlc_entity_am_recv_sdu t b i e = Inr ?e"
      unfolding am_recv_sdu_eq Let_def e2_def [symmetric] using True by simp
    ultimately show ?thesis using am_tx_inv_same [OF inv] by blast
  next
    case False
    obtain s h' where new: "new_sdu_dated (avg_time_is_on (am_common e)) t b i (am_heap e) = (s, h')" by fastforce
    note n = new_sdu_dated_inv [OF segs_invD(1) [OF am_tx_invD(2) [OF inv]] new]
    note si = segs_inv_new [OF am_tx_invD(2) [OF inv] new]
    have "mset (am_tx_list e) \<subseteq># am_segs e + L" by (simp add: am_segs_def)
    then obtain N where "am_segs e + L = mset (am_tx_list e) + N" by (metis mset_subset_eq_exists_conv)
    then have "distinct (am_tx_list e)" using am_tx_invD(2) [OF inv] segs_inv_distinct by metis
    then have app: "nr_rlc_sdu_segment_list_append (am_tx_list e) (am_tx_end e) s =
      Inr (am_tx_list e @ [s], end_of (am_tx_list e @ [s]))"
      unfolding am_tx_invD(3) [OF inv] by (rule segment_list_append_ok)
    define e' where "e' = e2\<lparr>am_tx_size := am_tx_size e2 + ?sz, am_heap := h', am_tx_list := am_tx_list e @ [s],
      am_tx_end := end_of (am_tx_list e @ [s]),
      am_common := bstatus_update (tx_size_update (\<lambda>m. m + am_seg_pdu_size e s))
         (stats_update (rxsdu_bytes_update (\<lambda>n. n + word_of_int ?sz)) (am_common e2))\<rparr>"
    have fld: "am_heap e' = h'" "am_tx_list e' = am_tx_list e @ [s]" "am_tx_end e' = end_of (am_tx_list e @ [s])"
      "am_wait_list e' = am_wait_list e" "am_wait_end e' = am_wait_end e" "am_retransmit_list e' = am_retransmit_list e"
      "am_tx_next e' = am_tx_next e" "am_tx_next_ack e' = am_tx_next_ack e" "am_sn_modulus e' = am_sn_modulus e"
      "am_window_size e' = am_window_size e" "am_sn_field_length e' = am_sn_field_length e"
      "am_tx_size e' = am_tx_size e + ?sz" "am_tx_maxsize e' = am_tx_maxsize e"
      "tx_size (bstatus (am_common e')) = tx_size (bstatus (am_common e)) + am_seg_pdu_size e s"
      "retx_size (bstatus (am_common e')) = retx_size (bstatus (am_common e))"
      using st by (simp_all add: e'_def same_tx_def)
    have sn: "am_sn_of e' x = am_sn_of e x" if "x \<in># am_segs e" for x
      using n(3) that by (simp add: am_sn_of_def fld)
    have s: "am_sn_of e' s = -1" using n(4) by (simp add: am_sn_of_def fld same_sdu_def null_sdu_def)
    have ws: "whole_seg s" by (simp add: whole_seg_def n(5))
    have "flow (am_sn_modulus e) (am_window_size e) (am_tx_next_ack e) (am_tx_next e) (am_sn_of e')
       (am_tx_list e) (am_wait_list e) (am_retransmit_list e)"
      by (rule flow_cong [OF am_tx_invD(5) [OF inv, unfolded am_flow_def]], rule sn) (auto simp: am_segs_def)
    from flow_recv [OF this s ws]
    have "am_flow e'" by (simp add: am_flow_def fld)
    moreover have "am_acct L e'"
      using am_tx_invD(6) [OF inv] n(2) False st by (simp add: am_acct_def fld am_seg_pdu_size_eq same_tx_def)
    moreover have "segs_inv (am_heap e') (am_segs e' + L)"
      using si by (simp add: am_segs_def fld)
    moreover have "am_cfg e'" using am_tx_invD(1) [OF inv] by (simp add: am_cfg_def fld)
    ultimately have "am_tx_inv L e'" using am_tx_invD(4) [OF inv] by (simp add: am_tx_inv_def fld)
    moreover have "same_rx e e'" using st(2) by (simp add: same_rx_def e'_def)
    moreover have "nr_rlc_entity_am_recv_sdu t b i e = Inr e'"
      unfolding am_recv_sdu_eq Let_def new prod.case app e2_def [symmetric]
      using False by (simp add: e'_def)
    ultimately show ?thesis by blast
  qed
qed

section \<open>Serialisation\<close>

text \<open>The fields of the header of a data PDU, as \<open>serialize_sdu\<close> writes them.\<close>

definition am_header :: "nr_rlc_entity_am \<Rightarrow> segment \<Rightarrow> (int \<times> int) list" where
  "am_header e s =
     [(1, 1), (0, 1), (1 - of_bool (seg_is_first s), 1), (1 - of_bool (seg_is_last s), 1)] @
     (if am_sn_field_length e = 18 then [(0, 2)] else []) @ [(am_sn_of e s, am_sn_field_length e)] @
     (if \<not> seg_is_first s then [(seg_so s, 16)] else [])"

lemma am_header_ok:
  assumes "am_cfg e"
  shows "fields_ok (am_header e s)"
    "length (fields_bits (am_header e s)) = 8 * nat (am_compute_pdu_header_size e s)"
    "0 \<le> am_compute_pdu_header_size e s"
  using am_cfgD(5) [OF assms] by (auto simp: am_header_def am_compute_pdu_header_size_def)

lemma am_serialize_fields:
  "am_serialize_sdu s b p e =
     res_bind (put_fields (am_header e s) (nr_rlc_pdu_encoder_init b)) (\<lambda>n.
     res_bind (slice (sdu_data (sdu_of (am_heap e) s)) (seg_so s) (seg_size s)) (\<lambda>data.
     res_bind (splice (enc_buffer n) (enc_byte n) data) (\<lambda>buf.
     let (buf', e') = (if p then am_include_poll buf e else (buf, e))
     in Inr (int (enc_byte n) + seg_size s, buf', e'))))"
  unfolding am_serialize_sdu_def am_header_def am_sn_of_def
  by (cases "am_sn_field_length e = 18"; cases "seg_is_first s") (simp_all add: res_bind_assoc)

text \<open>
  The PDU: its header, then the bytes of the segment; only the poll bit may be set on top. The rest of
  the buffer is not touched.
\<close>

lemma am_serialize_ok:
  assumes cfg: "am_cfg e" and seg: "segs_inv (am_heap e) M" "s \<in># M"
    and room: "seg_bytes (am_sn_field_length e) s \<le> int (length b)"
  shows "\<exists>hdr rest b' e'. am_serialize_sdu s b p e = Inr (seg_bytes (am_sn_field_length e) s, b', e') \<and>
    same_tx e e' \<and> same_rx e e' \<and> length b' = length b \<and>
    bytes_bits hdr = fields_bits (am_header e s) \<and> hdr \<noteq> [] \<and> int (length hdr) = am_compute_pdu_header_size e s \<and>
    b' = (if p then hdr[0 := hdr ! 0 OR 0x40] else hdr) @
      take (nat (seg_size s)) (drop (nat (seg_so s)) (sdu_data (sdu_of (am_heap e) s))) @ rest"
proof -
  let ?h = "nat (am_compute_pdu_header_size e s)" and ?data = "take (nat (seg_size s)) (drop (nat (seg_so s)) (sdu_data (sdu_of (am_heap e) s)))"
  have sz: "0 \<le> seg_size s" using segs_invD(2) [OF seg] by (simp add: seg_ok_def)
  have sb: "seg_bytes (am_sn_field_length e) s = int ?h + seg_size s"
    using am_header_ok(3) [OF cfg] by (simp add: seg_bytes_def am_compute_pdu_header_size_def)
  have h2: "2 \<le> ?h" by (simp add: am_compute_pdu_header_size_def)
  have "?h \<le> length b" using room sb sz by linarith
  then obtain n where
    n: "put_fields (am_header e s) (nr_rlc_pdu_encoder_init b) = Inr n" "enc_byte n = ?h"
      "bytes_bits (take ?h (enc_buffer n)) = fields_bits (am_header e s)" "length (enc_buffer n) = length b"
    using am_header_ok(1,2) [OF cfg, of s] by (rule_tac put_header_ok)
  have sl: "slice (sdu_data (sdu_of (am_heap e) s)) (seg_so s) (seg_size s) = Inr ?data"
    and len: "int (length ?data) = seg_size s" using segs_inv_slice [OF seg] by blast+
  define hdr where "hdr = take ?h (enc_buffer n)"
  have hl: "length hdr = ?h" using n(4) \<open>?h \<le> length b\<close> by (simp add: hdr_def)
  have hb: "bytes_bits hdr = fields_bits (am_header e s)" using n(3) by (simp add: hdr_def)
  have "enc_byte n + length ?data \<le> length (enc_buffer n)" using n(2,4) room sb len by linarith
  then have sp: "splice (enc_buffer n) (enc_byte n) ?data = Inr (hdr @ ?data @ drop (?h + length ?data) (enc_buffer n))"
    by (simp add: splice_def n(2) hdr_def)
  define rest where "rest = drop (?h + length ?data) (enc_buffer n)"
  define buf where "buf = hdr @ ?data @ rest"
  define buf' e' where "buf' = (if p then fst (am_include_poll buf e) else buf)"
    and "e' = (if p then snd (am_include_poll buf e) else e)"
  have ser: "am_serialize_sdu s b p e = Inr (int ?h + seg_size s, buf', e')"
    unfolding am_serialize_fields n(1) using sl sp n(2)
    by (simp add: buf'_def e'_def buf_def rest_def am_include_poll_def)
  have "hdr \<noteq> []" using hl h2 by auto
  then have b': "buf' = (if p then hdr[0 := hdr ! 0 OR 0x40] else hdr) @ ?data @ rest"
    by (simp add: buf'_def buf_def am_include_poll_def list_update_append nth_append)
  have "length buf' = length b" using n(2,4) \<open>enc_byte n + length ?data \<le> length (enc_buffer n)\<close> hl
    by (simp add: b' rest_def)
  moreover have "same_tx e e'" "same_rx e e'" by (simp_all add: e'_def am_include_poll_def same_tx_def same_rx_def)
  moreover have "am_serialize_sdu s b p e = Inr (seg_bytes (am_sn_field_length e) s, buf', e')"
    unfolding ser sb by (rule refl)
  moreover have "int (length hdr) = am_compute_pdu_header_size e s" using hl am_header_ok(3) [OF cfg, of s] by simp
  ultimately show ?thesis using hb b' \<open>hdr \<noteq> []\<close> by blast
qed

section \<open>A segment on its way to the wait list\<close>

definition am_pending :: "segment \<Rightarrow> segment multiset \<Rightarrow> nr_rlc_entity_am \<Rightarrow> bool" where
  "am_pending s L e \<longleftrightarrow> am_cfg e \<and> segs_inv (am_heap e) (add_mset s (am_segs e + L)) \<and>
     am_tx_end e = end_of (am_tx_list e) \<and> am_wait_end e = end_of (am_wait_list e) \<and>
     am_flow e \<and> am_acct L e \<and>
     in_flight (am_sn_modulus e) (am_tx_next_ack e) (am_tx_next e) (am_sn_of e s) \<and>
     (\<forall>t \<in># am_segs e. am_sn_of e s = am_sn_of e t \<longrightarrow> seg_sdu s = seg_sdu t)"

lemma same_sdu_so_neq:
  assumes inv: "segs_inv h (add_mset s (add_mset t M))" and eq: "seg_sdu s = seg_sdu t"
  shows "seg_so s \<noteq> seg_so t"
proof
  assume so: "seg_so s = seg_so t"
  let ?M = "add_mset s (add_mset t M)"
  have ok: "seg_ok h ?M s" "seg_ok h ?M t" using segs_invD(2) [OF inv] by auto
  have "0 < seg_size s" "0 < seg_size t" using ok eq by (auto simp: seg_ok_def less_le)
  then have "cov (seg_sdu s) (seg_so s) ?M \<ge> 2" using so eq by simp
  with segs_invD(3) [OF inv, of "seg_sdu s" "seg_so s"] show False by linarith
qed

lemma am_pending_comparable:
  assumes p: "am_pending s L e" and t: "t \<in> set (am_wait_list e) \<union> set (am_retransmit_list e)"
  shows "am_valid_sn e (am_sn_of e t) \<and> (am_before e s t \<or> am_before e t s)"
proof -
  have tin: "t \<in># am_segs e" using t by (auto simp: am_segs_def)
  then obtain N where N: "am_segs e = add_mset t N" by (metis multi_member_split)
  have inv: "segs_inv (am_heap e) (add_mset s (add_mset t (N + L)))"
    using p by (simp add: am_pending_def N)
  have f: "flow (am_sn_modulus e) (am_window_size e) (am_tx_next_ack e) (am_tx_next e) (am_sn_of e)
     (am_tx_list e) (am_wait_list e) (am_retransmit_list e)" using p by (simp add: am_pending_def am_flow_def)
  have v: "am_valid_sn e (am_sn_of e t)" "am_valid_sn e (am_sn_of e s)"
    using t flowD(6,7) [OF f, of t] p by (auto simp: in_flight_def am_pending_def)
  show ?thesis
  proof (cases "sn_dist (am_sn_modulus e) (am_tx_next_ack e) (am_sn_of e s) =
      sn_dist (am_sn_modulus e) (am_tx_next_ack e) (am_sn_of e t)")
    case True
    then have eq: "am_sn_of e s = am_sn_of e t"
      using v sn_dist_inj [of "am_sn_of e s" "am_sn_modulus e" "am_sn_of e t" "am_tx_next_ack e"] by blast
    have "seg_sdu s = seg_sdu t" using p tin eq unfolding am_pending_def by blast
    then have "seg_so s < seg_so t \<or> seg_so t < seg_so s" using same_sdu_so_neq [OF inv] by linarith
    then have "am_before e s t \<or> am_before e t s" unfolding seg_before_def using eq by metis
    with v show ?thesis by blast
  next
    case False
    then have "am_before e s t \<or> am_before e t s" unfolding seg_before_def by linarith
    with v show ?thesis by blast
  qed
qed

lemma am_pending_flow:
  assumes "am_pending s L e"
  shows "flow (am_sn_modulus e) (am_window_size e) (am_tx_next_ack e) (am_tx_next e) (am_sn_of e)
     (am_tx_list e) (am_wait_list e) (am_retransmit_list e)"
    "am_valid_sn e (am_tx_next_ack e)" "am_valid_sn e (am_sn_of e s)"
  using assms by (auto simp: am_pending_def am_flow_def flow_def in_flight_def)

lemma am_pending_insert:
  assumes p: "am_pending s L e" and l: "mset l = add_mset s (mset (am_wait_list e))" "sorted_wrt (am_before e) l"
  shows "am_tx_inv L (e\<lparr>am_wait_list := l, am_wait_end := end_of l\<rparr>)"
proof -
  let ?e = "e\<lparr>am_wait_list := l, am_wait_end := end_of l\<rparr>"
  have sn: "am_sn_of ?e = am_sn_of e" by (simp add: am_sn_of_def fun_eq_iff)
  have "set l = insert s (set (am_wait_list e))" using arg_cong [OF l(1), of set_mset] by simp
  then have "flow (am_sn_modulus e) (am_window_size e) (am_tx_next_ack e) (am_tx_next e) (am_sn_of e)
     (am_tx_list e) l (am_retransmit_list e)"
    using p l(2) by (intro flow_add(1) [OF am_pending_flow(1) [OF p], of s]) (auto simp: am_pending_def am_segs_def)
  moreover have "am_segs ?e = add_mset s (am_segs e)" using l(1) by (simp add: am_segs_def)
  ultimately show ?thesis
    using p by (simp add: am_tx_inv_def am_pending_def am_flow_def am_acct_def sn am_cfg_def)
qed

lemma am_wait_list_insert_ok:
  assumes p: "am_pending s L e"
  shows "\<exists>l. am_wait_list_insert s e = Inr (e\<lparr>am_wait_list := l, am_wait_end := end_of l\<rparr>) \<and>
    am_tx_inv L (e\<lparr>am_wait_list := l, am_wait_end := end_of l\<rparr>) \<and> s \<in> set l"
proof -
  let ?w = "am_wait_list e"
  note f = am_pending_flow [OF p]
  have we: "am_wait_end e = end_of ?w" and cfg: "am_cfg e" using p by (simp_all add: am_pending_def)
  have srt: "sorted_wrt (am_before e) ?w" using flowD(11) [OF f(1)] .
  have cmp: "\<forall>t \<in> set ?w. am_valid_sn e (am_sn_of e t) \<and> (am_before e s t \<or> am_before e t s)"
    using am_pending_comparable [OF p] by simp
  have irr: "\<not> (am_before e s t \<and> am_before e t s)" for t by (auto simp: seg_before_def)
  define at_end where "at_end = (case am_wait_end e of None \<Rightarrow> True
    | Some w \<Rightarrow> am_sn_compare_tx e (seg_sn (am_heap e) s) (seg_sn (am_heap e) w) > 0 \<or>
       (am_sn_compare_tx e (seg_sn (am_heap e) s) (seg_sn (am_heap e) w) = 0 \<and> seg_so s > seg_so w))"
  have ae: "at_end \<longleftrightarrow> ?w = [] \<or> am_before e (last ?w) s"
  proof (cases "?w = []")
    case True
    then show ?thesis by (simp add: at_end_def we)
  next
    case False
    then have v: "am_valid_sn e (am_sn_of e (last ?w))" using cmp by simp
    have "am_sn_compare_tx e (am_sn_of e s) (am_sn_of e (last ?w)) = 0 \<longleftrightarrow> am_sn_of e s = am_sn_of e (last ?w)"
      using am_modulus_tx_dist [OF v f(2)] am_modulus_tx_dist [OF f(3) f(2)] v f(3)
        sn_dist_inj [of "am_sn_of e s" "am_sn_modulus e" "am_sn_of e (last ?w)" "am_tx_next_ack e"]
      by (auto simp: am_sn_compare_tx_def)
    then show ?thesis
      using am_before_code [OF f(2) v f(3)] False by (auto simp: at_end_def we end_of_def am_sn_of_def)
  qed
  show ?thesis
  proof (cases at_end)
    case True
    have "mset ?w \<subseteq># add_mset s (am_segs e + L)" by (simp add: am_segs_def subset_mset.add_increasing)
    then have "distinct ?w" using p segs_inv_distinct unfolding am_pending_def by (metis mset_subset_eq_exists_conv)
    then have ap: "nr_rlc_sdu_segment_list_append ?w (am_wait_end e) s = Inr (?w @ [s], end_of (?w @ [s]))"
      unfolding we by (rule segment_list_append_ok)
    have "am_before e t s" if "t \<in> set ?w" for t
    proof -
      from that have "?w \<noteq> []" by auto
      then have "am_before e (last ?w) s" "?w = butlast ?w @ [last ?w]" using True ae by auto
      then show ?thesis using that srt am_before_trans
        by (metis (no_types, lifting) Un_iff append_butlast_last_id empty_iff empty_set list.set_intros(1) set_ConsD set_append sorted_wrt_append)
    qed
    then have "sorted_wrt (am_before e) (?w @ [s])" using srt by (simp add: sorted_wrt_append)
    with am_pending_insert [OF p, of "?w @ [s]"] True ap show ?thesis
      by (intro exI [of _ "?w @ [s]"]) (simp add: am_wait_list_insert_def at_end_def [symmetric] Let_def)
  next
    case False
    let ?l = "nr_rlc_tx_sdu_segment_list_add e ?w s"
    have ne: "?w \<noteq> []" and bf: "am_before e s (last ?w)" using False ae cmp last_in_set [of ?w] by auto
    have la: "last ?l = last ?w" "tl ?l \<noteq> []"
      using tx_list_add_last [OF ne f(2,3) _ bf] cmp last_in_set [OF ne] by auto
    then have "?l \<noteq> []" by auto
    then have en: "(if tl ?l = [] then Some (hd ?l) else am_wait_end e) = end_of ?l"
      using la ne by (simp add: we end_of_def)
    have "sorted_wrt (am_before e) ?l" using tx_list_add_sorted [OF srt f(2,3)] cmp by blast
    with am_pending_insert [OF p, of ?l] False en show ?thesis
      by (intro exI [of _ ?l]) (simp add: am_wait_list_insert_def at_end_def [symmetric] Let_def)
  qed
qed

section \<open>Segmentation\<close>

lemma am_resegment_eq:
  assumes "n = room - am_compute_pdu_header_size e s"
  shows "am_resegment s room e =
    (s\<lparr>seg_size := n, seg_is_last := False\<rparr>,
     s\<lparr>seg_size := seg_size s - n, seg_so := seg_so s + n, seg_is_first := False\<rparr>,
     e\<lparr>am_heap := heap_upd (seg_sdu s) (sdu_ref_count_update (\<lambda>n. n + 1)) (am_heap e)\<rparr>)"
  using assms by (simp add: am_resegment_def Let_def am_compute_pdu_header_size_def)

lemma am_sn_of_heap_upd [simp]:
  "(\<And>u. sdu_sn (f u) = sdu_sn u) \<Longrightarrow> am_sn_of (e\<lparr>am_heap := heap_upd a f (am_heap e)\<rparr>) = am_sn_of e"
  by (auto simp: am_sn_of_def sdu_of_def fun_eq_iff split: option.splits)

lemma am_sn_of_seg: "seg_sdu s = seg_sdu t \<Longrightarrow> am_sn_of e s = am_sn_of e t"
  by (simp add: am_sn_of_def sdu_of_def)

lemma am_sn_of_frame [simp]:
  "am_sn_of (e\<lparr>am_tx_list := ts\<rparr>) = am_sn_of e" "am_sn_of (e\<lparr>am_tx_end := te\<rparr>) = am_sn_of e"
  "am_sn_of (e\<lparr>am_retransmit_list := rl\<rparr>) = am_sn_of e" "am_sn_of (e\<lparr>am_common := c\<rparr>) = am_sn_of e"
  "am_sn_of (e\<lparr>am_wait_list := wl\<rparr>) = am_sn_of e" "am_sn_of (e\<lparr>am_wait_end := we\<rparr>) = am_sn_of e"
  "am_sn_of (e\<lparr>am_tx_next := n\<rparr>) = am_sn_of e" "am_sn_of (e\<lparr>am_tx_size := n\<rparr>) = am_sn_of e"
  by (simp_all add: am_sn_of_def fun_eq_iff)

lemma disjoint_order:
  assumes inv: "segs_inv h (add_mset s (add_mset t M))" and eq: "seg_sdu s = seg_sdu t" and so: "seg_so s < seg_so t"
  shows "seg_so s + seg_size s \<le> seg_so t"
proof (rule ccontr)
  assume over: "\<not> ?thesis"
  let ?M = "add_mset s (add_mset t M)"
  have ok: "seg_ok h ?M s" "seg_ok h ?M t" using segs_invD(2) [OF inv] by auto
  have "0 < seg_size t" using ok eq by (auto simp: seg_ok_def less_le)
  then have "cov (seg_sdu s) (seg_so t) ?M \<ge> 2" using so eq over by simp
  with segs_invD(3) [OF inv, of "seg_sdu s" "seg_so t"] show False by linarith
qed

text \<open>What the two functions share: the segment is cut, and the rest is put back.\<close>

lemma am_pending_cut:
  assumes p: "am_pending s L e" and n: "0 < n" "n < seg_size s"
  defines "s1 \<equiv> s\<lparr>seg_size := n, seg_is_last := False\<rparr>"
    and "s2 \<equiv> s\<lparr>seg_size := seg_size s - n, seg_so := seg_so s + n, seg_is_first := False\<rparr>"
    and "h \<equiv> heap_upd (seg_sdu s) (sdu_ref_count_update (\<lambda>n. n + 1)) (am_heap e)"
  shows "segs_inv h (add_mset s1 (add_mset s2 (am_segs e + L)))"
    "in_flight (am_sn_modulus e) (am_tx_next_ack e) (am_tx_next e) (am_sn_of e s2)"
    "\<And>t. t \<in># am_segs e \<Longrightarrow> am_sn_of e s2 = am_sn_of e t \<Longrightarrow> seg_sdu s2 = seg_sdu t"
    "am_sn_of e s1 = am_sn_of e s" "am_sn_of e s2 = am_sn_of e s" "heap_bytes h = heap_bytes (am_heap e)"
proof -
  show sn: "am_sn_of e s1 = am_sn_of e s" "am_sn_of e s2 = am_sn_of e s"
    by (rule am_sn_of_seg, simp add: s1_def s2_def)+
  show "segs_inv h (add_mset s1 (add_mset s2 (am_segs e + L)))"
    unfolding h_def s1_def s2_def using p n by (intro segs_inv_reseg) (simp_all add: am_pending_def)
  show "heap_bytes h = heap_bytes (am_heap e)" by (simp add: h_def heap_upd_bytes)
  show "in_flight (am_sn_modulus e) (am_tx_next_ack e) (am_tx_next e) (am_sn_of e s2)"
    using p sn by (simp add: am_pending_def)
  show "seg_sdu s2 = seg_sdu t" if "t \<in># am_segs e" "am_sn_of e s2 = am_sn_of e t" for t
    using p that sn unfolding am_pending_def by (simp add: s2_def)
qed

lemma am_acct_frame:
  assumes "am_acct L e" and "am_tx_size e' = am_tx_size e" "am_tx_maxsize e' = am_tx_maxsize e"
    "am_sn_field_length e' = am_sn_field_length e" "heap_bytes (am_heap e') = heap_bytes (am_heap e)"
    and "tx_size (bstatus (am_common e')) - list_bytes (am_sn_field_length e) (am_tx_list e') =
      tx_size (bstatus (am_common e)) - list_bytes (am_sn_field_length e) (am_tx_list e)"
    "retx_size (bstatus (am_common e')) - list_bytes (am_sn_field_length e) (am_retransmit_list e') =
      retx_size (bstatus (am_common e)) - list_bytes (am_sn_field_length e) (am_retransmit_list e)"
  shows "am_acct L e'"
  using assms by (auto simp: am_acct_def)

lemma am_tx_segment_ok:
  assumes p: "am_pending s L e" and room: "am_compute_pdu_header_size e s + 1 \<le> room"
    and tx: "\<forall>t \<in> set (am_tx_list e). am_sn_of e t = -1"
    and seg: "am_tx_segment s room e = (s', e')"
  shows "am_pending s' L e' \<and> same_rx e e' \<and> seg_bytes (am_sn_field_length e) s' \<le> room \<and> seg_sdu s' = seg_sdu s \<and>
    am_tx_next e' = am_tx_next e \<and> am_tx_next_ack e' = am_tx_next_ack e"
proof (cases "am_seg_pdu_size e s > room")
  case False
  with seg p show ?thesis by (auto simp: am_tx_segment_def am_seg_pdu_size_eq)
next
  case True
  define n where "n = room - am_compute_pdu_header_size e s"
  have n: "0 < n" "n < seg_size s" using room True by (auto simp: n_def am_seg_pdu_size_def)
  define s2 where "s2 = s\<lparr>seg_size := seg_size s - n, seg_so := seg_so s + n, seg_is_first := False\<rparr>"
  define h where "h = heap_upd (seg_sdu s) (sdu_ref_count_update (\<lambda>n. n + 1)) (am_heap e)"
  note c = am_pending_cut [OF p n, folded s2_def h_def]
  have te: "am_tx_end e = end_of (am_tx_list e)" and we: "am_wait_end e = end_of (am_wait_list e)" and cfg: "am_cfg e"
    using p by (simp_all add: am_pending_def)
  have s': "s' = s\<lparr>seg_size := n, seg_is_last := False\<rparr>"
    and e': "e' = am_tx_size_add (seg_bytes (am_sn_field_length e) s2) (am_count_segmented
      (e\<lparr>am_heap := h, am_tx_list := s2 # am_tx_list e, am_tx_end := end_of (s2 # am_tx_list e)\<rparr>))"
    using seg True te
    by (cases "am_tx_list e = []"; simp add: am_tx_segment_def am_resegment_eq [OF n_def] s2_def [symmetric]
        h_def [symmetric] am_seg_pdu_size_eq end_of_def Let_def)+
  have fld: "am_heap e' = h" "am_tx_list e' = s2 # am_tx_list e" "am_tx_end e' = end_of (s2 # am_tx_list e)"
    "am_wait_list e' = am_wait_list e" "am_wait_end e' = am_wait_end e" "am_retransmit_list e' = am_retransmit_list e"
    "am_tx_next e' = am_tx_next e" "am_tx_next_ack e' = am_tx_next_ack e" "am_sn_modulus e' = am_sn_modulus e"
    "am_window_size e' = am_window_size e" "am_sn_field_length e' = am_sn_field_length e" "am_tx_size e' = am_tx_size e"
    "am_tx_maxsize e' = am_tx_maxsize e" "retx_size (bstatus (am_common e')) = retx_size (bstatus (am_common e))"
    "tx_size (bstatus (am_common e')) = tx_size (bstatus (am_common e)) + seg_bytes (am_sn_field_length e) s2"
    "same_rx e e'"
    by (simp_all add: e' am_tx_size_add_def am_count_segmented_def same_rx_def)
  have sn: "am_sn_of e' = am_sn_of e" by (simp add: am_sn_of_def fld(1) h_def fun_eq_iff sdu_of_def split: option.split)
  have "flow (am_sn_modulus e) (am_window_size e) (am_tx_next_ack e) (am_tx_next e) (am_sn_of e)
     (s2 # am_tx_list e) (am_wait_list e) (am_retransmit_list e)"
    using c(2,3) tx by (intro flow_add(3) [OF am_pending_flow(1) [OF p]]) (auto simp: am_segs_def)
  then have "am_flow e'" by (simp add: am_flow_def fld sn)
  moreover have "am_acct L e'" by (rule am_acct_frame [of L e]) (use p c(6) in \<open>simp_all add: fld am_pending_def\<close>)
  moreover have "am_cfg e'" using cfg by (simp add: am_cfg_def fld)
  moreover have "segs_inv (am_heap e') (add_mset s' (am_segs e' + L))" using c(1) by (simp add: fld s' am_segs_def)
  moreover have "seg_sdu s' = seg_sdu t" if t: "t \<in># am_segs e'" "am_sn_of e' s' = am_sn_of e' t" for t
  proof (cases "t \<in># am_segs e")
    case True
    then show ?thesis using c(3) [OF True] t(2) c(4,5) by (simp add: sn s' s2_def)
  next
    case False
    then have "t = s2" using t(1) by (auto simp: am_segs_def fld)
    then show ?thesis by (simp add: s' s2_def)
  qed
  moreover have "in_flight (am_sn_modulus e') (am_tx_next_ack e') (am_tx_next e') (am_sn_of e' s')"
    using p c(4) by (simp add: fld sn s' am_pending_def)
  ultimately have "am_pending s' L e'" using we by (simp add: am_pending_def fld)
  moreover have "seg_bytes (am_sn_field_length e) s' \<le> room"
    by (simp add: s' seg_bytes_def n_def am_compute_pdu_header_size_def)
  ultimately show ?thesis using fld by (simp add: s')
qed

lemma am_retx_segment_ok:
  assumes p: "am_pending s L e" and room: "am_compute_pdu_header_size e s + 1 \<le> room"
    and rt: "\<forall>t \<in> set (am_retransmit_list e). am_before e s t"
    and seg: "am_retx_segment s room e = (s', e')"
  shows "am_pending s' L e' \<and> same_rx e e' \<and> seg_bytes (am_sn_field_length e) s' \<le> room \<and> seg_sdu s' = seg_sdu s \<and>
    am_tx_next e' = am_tx_next e \<and> am_tx_next_ack e' = am_tx_next_ack e"
proof (cases "am_seg_pdu_size e s > room")
  case False
  with seg p show ?thesis by (auto simp: am_retx_segment_def am_seg_pdu_size_eq)
next
  case True
  define n where "n = room - am_compute_pdu_header_size e s"
  have n: "0 < n" "n < seg_size s" using room True by (auto simp: n_def am_seg_pdu_size_def)
  define s2 where "s2 = s\<lparr>seg_size := seg_size s - n, seg_so := seg_so s + n, seg_is_first := False\<rparr>"
  define h where "h = heap_upd (seg_sdu s) (sdu_ref_count_update (\<lambda>n. n + 1)) (am_heap e)"
  note c = am_pending_cut [OF p n, folded s2_def h_def]
  have s': "s' = s\<lparr>seg_size := n, seg_is_last := False\<rparr>"
    and e': "e' = am_count_segmented (am_retx_size_add (seg_bytes (am_sn_field_length e) s2)
      (e\<lparr>am_heap := h, am_retransmit_list := s2 # am_retransmit_list e\<rparr>))"
    using seg True
    by (simp_all add: am_retx_segment_def am_resegment_eq [OF n_def] s2_def [symmetric] h_def [symmetric]
        am_seg_pdu_size_eq Let_def)
  have fld: "am_heap e' = h" "am_retransmit_list e' = s2 # am_retransmit_list e" "am_tx_end e' = am_tx_end e"
    "am_wait_list e' = am_wait_list e" "am_wait_end e' = am_wait_end e" "am_tx_list e' = am_tx_list e"
    "am_tx_next e' = am_tx_next e" "am_tx_next_ack e' = am_tx_next_ack e" "am_sn_modulus e' = am_sn_modulus e"
    "am_window_size e' = am_window_size e" "am_sn_field_length e' = am_sn_field_length e" "am_tx_size e' = am_tx_size e"
    "am_tx_maxsize e' = am_tx_maxsize e" "tx_size (bstatus (am_common e')) = tx_size (bstatus (am_common e))"
    "retx_size (bstatus (am_common e')) = retx_size (bstatus (am_common e)) + seg_bytes (am_sn_field_length e) s2"
    "same_rx e e'"
    by (simp_all add: e' am_retx_size_add_def am_count_segmented_def same_rx_def)
  have sn: "am_sn_of e' = am_sn_of e" by (simp add: am_sn_of_def fld(1) h_def fun_eq_iff sdu_of_def split: option.split)
  have bef: "am_before e s2 t" if t: "t \<in> set (am_retransmit_list e)" for t
  proof (cases "am_sn_of e s = am_sn_of e t")
    case True
    have tin: "t \<in># am_segs e" using t by (simp add: am_segs_def)
    then obtain N where N: "am_segs e = add_mset t N" by (metis multi_member_split)
    have "seg_sdu s = seg_sdu t" using p True tin unfolding am_pending_def by blast
    moreover have "seg_so s < seg_so t" using rt t True unfolding seg_before_def by fastforce
    ultimately have "seg_so s + seg_size s \<le> seg_so t"
      using disjoint_order [of "am_heap e" s t "N + L"] p by (simp add: am_pending_def N)
    then show ?thesis using True c(5) n unfolding seg_before_def by (simp add: s2_def)
  next
    case False
    then show ?thesis using rt t c(5) unfolding seg_before_def by fastforce
  qed
  have "flow (am_sn_modulus e) (am_window_size e) (am_tx_next_ack e) (am_tx_next e) (am_sn_of e)
     (am_tx_list e) (am_wait_list e) (s2 # am_retransmit_list e)"
    using c(2,3) bef flowD(12) [OF am_pending_flow(1) [OF p]]
    by (intro flow_add(2) [OF am_pending_flow(1) [OF p], of s2]) (auto simp: am_segs_def)
  then have "am_flow e'" by (simp add: am_flow_def fld sn)
  moreover have "am_acct L e'" by (rule am_acct_frame [of L e]) (use p c(6) in \<open>simp_all add: fld am_pending_def\<close>)
  moreover have "am_cfg e'" using p by (simp add: am_cfg_def fld am_pending_def)
  moreover have "segs_inv (am_heap e') (add_mset s' (am_segs e' + L))" using c(1) by (simp add: fld s' am_segs_def)
  moreover have "seg_sdu s' = seg_sdu t" if t: "t \<in># am_segs e'" "am_sn_of e' s' = am_sn_of e' t" for t
  proof (cases "t \<in># am_segs e")
    case True
    then show ?thesis using c(3) [OF True] t(2) c(4,5) by (simp add: sn s' s2_def)
  next
    case False
    then have "t = s2" using t(1) by (auto simp: am_segs_def fld)
    then show ?thesis by (simp add: s' s2_def)
  qed
  moreover have "in_flight (am_sn_modulus e') (am_tx_next_ack e') (am_tx_next e') (am_sn_of e' s')"
    using p c(4) by (simp add: fld sn s' am_pending_def)
  ultimately have "am_pending s' L e'" using p by (simp add: am_pending_def fld)
  moreover have "seg_bytes (am_sn_field_length e) s' \<le> room"
    by (simp add: s' seg_bytes_def n_def am_compute_pdu_header_size_def)
  ultimately show ?thesis using fld by (simp add: s')
qed

end
