(* ===== verification/RlcAmSend.thy ===== *)
theory RlcAmSend
  imports RlcAmInv
begin

text \<open>
  \<open>generate_tx_pdu\<close> and \<open>generate_retx_pdu\<close> of the AM entity keep its invariant: the window is
  respected, PDUs fit the buffer, and nothing is lost or freed too early.
\<close>

section \<open>New PDUs\<close>

lemma sn_uniqueD: "sn_unique sn S \<Longrightarrow> s \<in> S \<Longrightarrow> t \<in> S \<Longrightarrow> sn s = sn t \<Longrightarrow> sn s \<noteq> -1 \<Longrightarrow> seg_sdu s = seg_sdu t"
  unfolding sn_unique_def by blast

lemma am_not_stalling:
  assumes "am_cfg e" and f: "am_flow e" and "\<not> am_is_window_stalling e"
  shows "sn_dist (am_sn_modulus e) (am_tx_next_ack e) (am_tx_next e) < am_window_size e"
proof -
  let ?M = "am_sn_modulus e" and ?w = "am_window_size e" and ?a = "am_tx_next_ack e"
  note c = am_cfgD [OF assms(1)] and fl = flowD(1-4) [OF f [unfolded am_flow_def]]
  have "sn_dist ?M ?a ((?a + ?w) mod ?M) = ?w mod ?M" by (simp add: sn_dist_def mod_diff_left_eq)
  then have "sn_dist ?M ?a ((?a + ?w) mod ?M) = ?w" using c by simp
  moreover have "am_valid_sn e ((?a + ?w) mod ?M)" using c by simp
  ultimately show ?thesis
    using assms(3) fl am_modulus_tx_dist [of "(?a + ?w) mod ?M" e] am_modulus_tx_dist [of "am_tx_next e" e]
    by (auto simp: am_is_window_stalling_def am_sn_compare_tx_def)
qed

lemma am_pop_tx:
  assumes inv: "am_tx_inv L e" and tx: "am_tx_list e = s # rest" and ns: "\<not> am_is_window_stalling e"
  defines "e1 \<equiv> am_tx_size_add (- am_seg_pdu_size e s)
    (e\<lparr>am_tx_list := rest, am_tx_end := (if rest = [] then None else am_tx_end e)\<rparr>)"
  defines "e2 \<equiv> am_assign_sn s e1"
  shows "am_pending s L e2 \<and> same_rx e e2 \<and> am_tx_list e2 = rest \<and> (\<forall>t \<in> set rest. am_sn_of e2 t = -1)"
proof -
  let ?M = "am_sn_modulus e" and ?w = "am_window_size e" and ?a = "am_tx_next_ack e" and ?n = "am_tx_next e"
  let ?W = "am_wait_list e" and ?R = "am_retransmit_list e"
  note f = am_tx_invD(5) [OF inv, unfolded am_flow_def tx] and c = am_cfgD [OF am_tx_invD(1) [OF inv]]
  have segs: "am_segs e = add_mset s (mset rest + mset ?W + mset ?R)" by (simp add: am_segs_def tx)
  have sn_rest: "am_sn_of e t = -1" if "t \<in> set rest" for t using flowD(9) [OF f, of t] that by simp
  have other: "seg_sdu t \<noteq> seg_sdu s" if "am_sn_of e s = -1" "t \<in> set rest \<union> set ?W \<union> set ?R" for t
  proof
    assume eq: "seg_sdu t = seg_sdu s"
    then have m1: "am_sn_of e t = -1" using that(1) am_sn_of_seg by metis
    then have "t \<in> set rest" using that(2) flowD(6,7) [OF f, of t] by (auto simp: in_flight_def)
    then have w: "whole_seg t" "whole_seg s" "t \<in># mset rest + mset ?W + mset ?R"
      using flowD(8) [OF f, of t] flowD(8) [OF f, of s] m1 that(1) by (auto simp: tx_seg_ok_def in_flight_def)
    then obtain N where "mset rest + mset ?W + mset ?R = add_mset t N" by (metis multi_member_split)
    then have i: "segs_inv (am_heap e) (add_mset s (add_mset t (N + L)))" using am_tx_invD(2) [OF inv] segs by simp
    have "seg_so s = 0" "seg_so t = 0" using w segs_invD(2) [OF i, of s] segs_invD(2) [OF i, of t]
      by (auto simp: seg_ok_def whole_seg_def)
    with same_sdu_so_neq [OF i] eq show False by simp
  qed
  have te: "(if rest = [] then None else am_tx_end e) = end_of rest"
    using am_tx_invD(3) [OF inv] tx by (simp add: end_of_def)
  have e2: "am_wait_list e2 = ?W" "am_wait_end e2 = am_wait_end e" "am_retransmit_list e2 = ?R" "am_tx_list e2 = rest"
    "am_tx_end e2 = end_of rest" "am_tx_next_ack e2 = ?a" "am_sn_modulus e2 = ?M" "am_window_size e2 = ?w"
    "am_sn_field_length e2 = am_sn_field_length e" "am_tx_size e2 = am_tx_size e" "am_tx_maxsize e2 = am_tx_maxsize e"
    "retx_size (bstatus (am_common e2)) = retx_size (bstatus (am_common e))"
    "tx_size (bstatus (am_common e2)) = tx_size (bstatus (am_common e)) - seg_bytes (am_sn_field_length e) s"
    "am_tx_next e2 = (if am_sn_of e s = -1 then (?n + 1) mod ?M else ?n)"
    "am_heap e2 = (if am_sn_of e s = -1 then heap_upd (seg_sdu s) (sdu_sn_update (\<lambda>_. ?n)) (am_heap e) else am_heap e)"
    "same_rx e e2"
    by (simp_all add: e2_def e1_def am_assign_sn_def am_tx_size_add_def te same_rx_def am_seg_pdu_size_eq am_sn_of_def)
  have live: "heap_map (am_heap e) (seg_sdu s) = Some (sdu_of (am_heap e) s)"
    using heap_inv_live [OF segs_invD(1) [OF am_tx_invD(2) [OF inv]]] segs by simp
  have sn: "am_sn_of e2 t = (if am_sn_of e s = -1 \<and> seg_sdu t = seg_sdu s then ?n else am_sn_of e t)" for t
    using live by (auto simp: am_sn_of_def e2 sdu_of_def split: option.splits)
  have snr: "am_sn_of e2 t = am_sn_of e t" if "t \<in> set rest \<union> set ?W \<union> set ?R" for t
    using other that by (auto simp: sn)
  have fl2: "flow ?M ?w ?a (am_tx_next e2) (am_sn_of e2) (s # rest) ?W ?R"
  proof (cases "am_sn_of e s = -1")
    case True
    then show ?thesis
      using flow_assign [OF f am_not_stalling [OF am_tx_invD(1,5) [OF inv] ns], of "am_sn_of e2"] c snr
      by (simp add: e2 sn)
  next
    case False
    have "am_sn_of e2 t = am_sn_of e t" for t using False by (simp add: sn)
    then show ?thesis using flow_cong [OF f, of "am_sn_of e2"] False by (simp add: e2)
  qed
  have infl: "in_flight ?M ?a (am_tx_next e2) (am_sn_of e2 s)"
    using flowD(8) [OF fl2, of s] flowD(3) [OF f] by (auto simp: tx_seg_ok_def sn)
  have "flow ?M ?w ?a (am_tx_next e2) (am_sn_of e2) rest ?W ?R"
    by (rule flow_shrink [OF fl2]) (use flowD(11,12) [OF fl2] in \<open>auto dest: in_set_tlD\<close>)
  then have "am_flow e2" by (simp add: am_flow_def e2)
  moreover have hb: "heap_bytes (am_heap e2) = heap_bytes (am_heap e)" by (simp add: e2 heap_upd_bytes)
  then have "am_acct L e2"
    by (intro am_acct_frame [OF am_tx_invD(6) [OF inv]]) (simp_all add: e2 tx)
  moreover have "segs_inv (am_heap e2) (add_mset s (am_segs e2 + L))"
    using am_tx_invD(2) [OF inv] segs by (simp add: e2 am_segs_def segs_inv_upd)
  moreover have "am_cfg e2" using am_tx_invD(1) [OF inv] by (simp add: am_cfg_def e2)
  moreover have "seg_sdu s = seg_sdu t" if "t \<in># am_segs e2" "am_sn_of e2 s = am_sn_of e2 t" for t
  proof -
    have "t \<in> set (s # rest) \<union> set ?W \<union> set ?R" using that(1) by (auto simp: am_segs_def e2)
    moreover have "am_sn_of e2 s \<noteq> -1" using infl by (auto simp: in_flight_def)
    ultimately show ?thesis by (intro sn_uniqueD [OF flowD(10) [OF fl2] _ _ that(2)]) simp_all
  qed
  ultimately have "am_pending s L e2"
    using infl am_tx_invD(4) [OF inv] by (simp add: am_pending_def e2)
  then show ?thesis using e2 sn_rest snr by simp
qed

text \<open>The polling actions and counters touch neither half.\<close>

lemma am_poll_new_pdu_frame:
  "am_poll_new_pdu s e = (p, e') \<Longrightarrow> same_tx e e' \<and> same_rx e e'"
  by (auto simp: am_poll_new_pdu_def am_take_force_poll_def same_tx_def same_rx_def Let_def split: if_splits)

lemma am_take_force_poll_frame:
  "am_take_force_poll q e = (p, e') \<Longrightarrow> same_tx e e' \<and> same_rx e e'"
  by (auto simp: am_take_force_poll_def same_tx_def same_rx_def split: if_splits)

text \<open>A segment in the lists is serialised into the buffer.\<close>

lemma am_send_ok:
  assumes inv: "am_tx_inv L e" and s: "s \<in> set (am_wait_list e)" and room: "seg_bytes (am_sn_field_length e) s \<le> int (length b)"
  shows "\<exists>b' e'. am_serialize_sdu s b p e = Inr (seg_bytes (am_sn_field_length e) s, b', e') \<and>
    am_tx_inv L e' \<and> same_rx e e' \<and> same_tx e e' \<and> length b' = length b"
proof -
  have "s \<in># am_segs e + L" using s by (simp add: am_segs_def)
  from am_serialize_ok [OF am_tx_invD(1,2) [OF inv] this room] am_tx_inv_same [OF inv] show ?thesis by blast
qed

lemma seg_bytes_pos: "segs_inv h M \<Longrightarrow> s \<in># M \<Longrightarrow> 0 < seg_bytes len s"
  using segs_invD(2) [of h M s] by (auto simp: seg_bytes_def seg_ok_def)

lemma am_generate_tx_pdu_inv:
  assumes inv: "am_tx_inv L e"
  shows "\<exists>n b' e'. am_generate_tx_pdu t b e = Inr (n, b', e') \<and> am_tx_inv L e' \<and> same_rx e e' \<and>
    0 \<le> n \<and> n \<le> int (length b) \<and> length b' = length b"
proof -
  show ?thesis
  proof (cases "am_is_window_stalling e \<or> am_tx_list e = [] \<or>
      am_compute_pdu_header_size e (hd (am_tx_list e)) + 1 > int (length b)")
    case True
    then have "am_generate_tx_pdu t b e = Inr (0, b, e)"
      by (cases "am_tx_list e") (auto simp: am_generate_tx_pdu_def Let_def)
    with inv show ?thesis by simp
  next
    case False
    then obtain s rest where send: "\<not> am_is_window_stalling e" "am_tx_list e = s # rest"
      "am_compute_pdu_header_size e s + 1 \<le> int (length b)" by (cases "am_tx_list e") auto
    let ?room = "int (length b)"
    define e2 where "e2 = am_assign_sn s (am_tx_size_add (- am_seg_pdu_size e s)
      (e\<lparr>am_tx_list := rest, am_tx_end := (if rest = [] then None else am_tx_end e)\<rparr>))"
    have p2: "am_pending s L e2" "same_rx e e2" "am_tx_list e2 = rest" "\<forall>t \<in> set rest. am_sn_of e2 t = -1"
      using am_pop_tx [OF inv send(2,1)] by (simp_all add: e2_def)
    obtain s' e3 where sg: "am_tx_segment s ?room e2 = (s', e3)" by fastforce
    have "am_compute_pdu_header_size e2 s + 1 \<le> ?room"
      using send(3) p2(2) by (simp add: am_compute_pdu_header_size_def same_rx_def)
    from am_tx_segment_ok [OF p2(1) this _ sg] p2(3,4) have p3: "am_pending s' L e3" "same_rx e2 e3"
      "seg_bytes (am_sn_field_length e2) s' \<le> ?room" by simp_all
    obtain l where l: "am_wait_list_insert s' e3 = Inr (e3\<lparr>am_wait_list := l, am_wait_end := end_of l\<rparr>)"
      "am_tx_inv L (e3\<lparr>am_wait_list := l, am_wait_end := end_of l\<rparr>)" "s' \<in> set l"
      using am_wait_list_insert_ok [OF p3(1)] by blast
    define e4 where "e4 = e3\<lparr>am_wait_list := l, am_wait_end := end_of l\<rparr>"
    obtain q e5 where pl: "am_poll_new_pdu s' e4 = (q, e5)" by fastforce
    note fr = am_poll_new_pdu_frame [OF pl]
    have i5: "am_tx_inv L e5" using am_tx_inv_same l(2) fr by (simp add: e4_def)
    have s5: "s' \<in> set (am_wait_list e5)" using fr l(3) by (simp add: e4_def same_tx_def)
    have len: "am_sn_field_length e5 = am_sn_field_length e2" using fr p3(2) by (simp add: e4_def same_rx_def)
    obtain b' e6 where s6: "am_serialize_sdu s' b q e5 = Inr (seg_bytes (am_sn_field_length e5) s', b', e6)"
      "am_tx_inv L e6" "same_rx e5 e6" "length b' = length b"
      using am_send_ok [OF i5 s5] p3(3) len by metis
    let ?n = "seg_bytes (am_sn_field_length e5) s'"
    define e7 where "e7 = e6\<lparr>am_common := count_waiting_time t (sdu_of (am_heap e6) s')
       (count_pkts_bytes txpdu_pkts_update txpdu_bytes_update ?n (am_common e6))\<rparr>"
    have "am_generate_tx_pdu t b e = Inr (?n, b', e7)"
      using send s6(1) sg l(1) pl
      by (simp add: am_generate_tx_pdu_def Let_def e2_def [symmetric] e4_def [symmetric] e7_def)
    moreover have "am_tx_inv L e7" by (rule am_tx_inv_same [OF s6(2)]) (simp add: e7_def same_tx_def)
    moreover have "same_rx e e7"
    proof -
      have "same_rx e3 e4" "same_rx e6 e7" by (simp_all add: e4_def e7_def same_rx_def)
      with p2(2) p3(2) fr s6(3) show ?thesis by (meson same_rx_trans)
    qed
    moreover have "0 < ?n" using seg_bytes_pos [OF am_tx_invD(2) [OF i5]] s5 by (simp add: am_segs_def)
    ultimately show ?thesis using s6(4) p3(3) len by force
  qed
qed

section \<open>Retransmissions\<close>

lemma am_pop_retx:
  assumes inv: "am_tx_inv L e" and rt: "am_retransmit_list e = s # rest"
  defines "e1 \<equiv> am_retx_size_add (- am_seg_pdu_size e s) (e\<lparr>am_retransmit_list := rest\<rparr>)"
  shows "am_pending s L e1 \<and> same_rx e e1 \<and> am_retransmit_list e1 = rest \<and> (\<forall>t \<in> set rest. am_before e1 s t)"
proof -
  note f = am_tx_invD(5) [OF inv, unfolded am_flow_def rt]
  have e1: "am_wait_list e1 = am_wait_list e" "am_wait_end e1 = am_wait_end e" "am_tx_list e1 = am_tx_list e"
    "am_tx_end e1 = am_tx_end e" "am_retransmit_list e1 = rest" "am_heap e1 = am_heap e" "am_tx_next e1 = am_tx_next e"
    "am_tx_next_ack e1 = am_tx_next_ack e" "am_sn_modulus e1 = am_sn_modulus e" "am_window_size e1 = am_window_size e"
    "am_sn_field_length e1 = am_sn_field_length e" "am_tx_size e1 = am_tx_size e" "am_tx_maxsize e1 = am_tx_maxsize e"
    "tx_size (bstatus (am_common e1)) = tx_size (bstatus (am_common e))"
    "retx_size (bstatus (am_common e1)) = retx_size (bstatus (am_common e)) - seg_bytes (am_sn_field_length e) s"
    "same_rx e e1"
    by (simp_all add: e1_def am_retx_size_add_def same_rx_def am_seg_pdu_size_eq)
  have sn: "am_sn_of e1 = am_sn_of e" by (simp add: am_sn_of_def e1 fun_eq_iff)
  have "flow (am_sn_modulus e) (am_window_size e) (am_tx_next_ack e) (am_tx_next e) (am_sn_of e)
     (am_tx_list e) (am_wait_list e) rest"
    by (rule flow_shrink [OF f]) (use flowD(11,12) [OF f] in auto)
  then have "am_flow e1" by (simp add: am_flow_def e1 sn)
  moreover have "am_acct L e1" by (rule am_acct_frame [OF am_tx_invD(6) [OF inv]]) (simp_all add: e1 rt)
  moreover have "segs_inv (am_heap e1) (add_mset s (am_segs e1 + L))"
    using am_tx_invD(2) [OF inv] by (simp add: e1 am_segs_def rt)
  moreover have "am_cfg e1" using am_tx_invD(1) [OF inv] by (simp add: am_cfg_def e1)
  moreover have infl: "in_flight (am_sn_modulus e1) (am_tx_next_ack e1) (am_tx_next e1) (am_sn_of e1 s)"
    using flowD(7) [OF f, of s] by (simp add: e1 sn)
  moreover have "seg_sdu s = seg_sdu t" if "t \<in># am_segs e1" "am_sn_of e1 s = am_sn_of e1 t" for t
  proof -
    have "t \<in> set (am_tx_list e) \<union> set (am_wait_list e) \<union> set (s # rest)" using that(1) by (auto simp: am_segs_def e1)
    moreover have "am_sn_of e s \<noteq> -1" using infl by (auto simp: in_flight_def sn)
    ultimately show ?thesis by (intro sn_uniqueD [OF flowD(10) [OF f] _ _ that(2) [unfolded sn]]) simp_all
  qed
  ultimately have "am_pending s L e1" using am_tx_invD(3,4) [OF inv] by (simp add: am_pending_def e1)
  moreover have "\<forall>t \<in> set rest. am_before e1 s t" using flowD(12) [OF f] by (simp add: e1 sn)
  ultimately show ?thesis using e1 by simp
qed

lemma am_generate_retx_pdu_inv:
  assumes inv: "am_tx_inv L e" and ne: "am_retransmit_list e \<noteq> []"
  shows "\<exists>n b' e'. am_generate_retx_pdu b e = Inr (n, b', e') \<and> am_tx_inv L e' \<and> same_rx e e' \<and>
    0 \<le> n \<and> n \<le> int (length b) \<and> length b' = length b"
proof -
  obtain s rest where rt: "am_retransmit_list e = s # rest" using ne by (cases "am_retransmit_list e") auto
  let ?room = "int (length b)"
  show ?thesis
  proof (cases "am_compute_pdu_header_size e s + 1 > ?room")
    case True
    with inv rt show ?thesis by (simp add: am_generate_retx_pdu_def Let_def)
  next
    case False
    define e2 where "e2 = am_retx_size_add (- am_seg_pdu_size e s) (e\<lparr>am_retransmit_list := rest\<rparr>)"
    have p2: "am_pending s L e2" "same_rx e e2" "am_retransmit_list e2 = rest" "\<forall>t \<in> set rest. am_before e2 s t"
      using am_pop_retx [OF inv rt] by (simp_all add: e2_def)
    obtain s' e3 where sg: "am_retx_segment s ?room e2 = (s', e3)" by fastforce
    have "am_compute_pdu_header_size e2 s + 1 \<le> ?room"
      using False p2(2) by (simp add: am_compute_pdu_header_size_def same_rx_def)
    from am_retx_segment_ok [OF p2(1) this _ sg] p2(3,4) have p3: "am_pending s' L e3" "same_rx e2 e3"
      "seg_bytes (am_sn_field_length e2) s' \<le> ?room" by simp_all
    obtain l where l: "am_wait_list_insert s' e3 = Inr (e3\<lparr>am_wait_list := l, am_wait_end := end_of l\<rparr>)"
      "am_tx_inv L (e3\<lparr>am_wait_list := l, am_wait_end := end_of l\<rparr>)" "s' \<in> set l"
      using am_wait_list_insert_ok [OF p3(1)] by blast
    define e4 where "e4 = e3\<lparr>am_wait_list := l, am_wait_end := end_of l\<rparr>"
    obtain q e5 where pl: "am_take_force_poll (am_check_poll_after_pdu_assembly e4) e4 = (q, e5)" by fastforce
    note fr = am_take_force_poll_frame [OF pl]
    have i5: "am_tx_inv L e5" using am_tx_inv_same l(2) fr by (simp add: e4_def)
    have s5: "s' \<in> set (am_wait_list e5)" using fr l(3) by (simp add: e4_def same_tx_def)
    have len: "am_sn_field_length e5 = am_sn_field_length e2" using fr p3(2) by (simp add: e4_def same_rx_def)
    obtain b' e6 where s6: "am_serialize_sdu s' b q e5 = Inr (seg_bytes (am_sn_field_length e5) s', b', e6)"
      "am_tx_inv L e6" "same_rx e5 e6" "length b' = length b"
      using am_send_ok [OF i5 s5] p3(3) len by metis
    let ?n = "seg_bytes (am_sn_field_length e5) s'"
    define e7 where "e7 = e6\<lparr>am_common :=
      count_pkts_bytes txpdu_retx_pkts_update txpdu_retx_bytes_update ?n
        (count_pkts_bytes txpdu_pkts_update txpdu_bytes_update ?n (am_common e6))\<rparr>"
    have "am_generate_retx_pdu b e = Inr (?n, b', e7)"
      using False rt s6(1) sg l(1) pl
      by (simp add: am_generate_retx_pdu_def Let_def e2_def [symmetric] e4_def [symmetric] e7_def)
    moreover have "am_tx_inv L e7" by (rule am_tx_inv_same [OF s6(2)]) (simp add: e7_def same_tx_def)
    moreover have "same_rx e e7"
    proof -
      have "same_rx e3 e4" "same_rx e6 e7" by (simp_all add: e4_def e7_def same_rx_def)
      with p2(2) p3(2) fr s6(3) show ?thesis by (meson same_rx_trans)
    qed
    moreover have "0 < ?n" using seg_bytes_pos [OF am_tx_invD(2) [OF i5]] s5 by (simp add: am_segs_def)
    ultimately show ?thesis using s6(4) p3(3) len by force
  qed
qed

end
