(* ===== verification/RlcAmCtrlInv.thy ===== *)
theory RlcAmCtrlInv
  imports RlcAmSend
begin

text \<open>
  \<open>process_control_pdu\<close> keeps the invariant of the transmitting half: acknowledged segments are
  released, NACKed ones go to the retransmit list in order, and \<open>tx_next_ack\<close> moves within the window.
\<close>

section \<open>Acknowledged and NACKed segments\<close>

text \<open>A segment is released: what is left is known as before.\<close>

lemma am_ack_segment_inv:
  assumes inv: "am_tx_inv L e" and segs: "am_segs e = add_mset s (am_segs e')"
    and e': "am_tx_list e' = am_tx_list e" "am_tx_end e' = am_tx_end e" "am_cfg e' = am_cfg e"
      "am_sn_field_length e' = am_sn_field_length e" "am_sn_modulus e' = am_sn_modulus e"
      "am_window_size e' = am_window_size e" "am_tx_next e' = am_tx_next e" "am_tx_next_ack e' = am_tx_next_ack e"
      "am_tx_maxsize e' = am_tx_maxsize e" "am_heap e' = am_heap (am_ack_segment s e)"
      "am_tx_size e' = am_tx_size (am_ack_segment s e)"
      "tx_size (bstatus (am_common e')) = tx_size (bstatus (am_common e))"
    and lists: "set (am_wait_list e') \<subseteq> set (am_wait_list e)" "sorted_wrt (am_before e) (am_wait_list e')"
      "set (am_retransmit_list e') \<subseteq> set (am_retransmit_list e)" "sorted_wrt (am_before e) (am_retransmit_list e')"
      "am_wait_end e' = end_of (am_wait_list e')"
    and rt: "retx_size (bstatus (am_common e')) - list_bytes (am_sn_field_length e) (am_retransmit_list e') =
      retx_size (bstatus (am_common e)) - list_bytes (am_sn_field_length e) (am_retransmit_list e)"
  shows "am_tx_inv L e'"
proof -
  obtain b h' where fr: "nr_rlc_free_sdu_segment s (am_heap e) = (b, h')" by fastforce
  have i: "segs_inv (am_heap e) (add_mset s (am_segs e' + L))" using am_tx_invD(2) [OF inv] segs by simp
  note f = free_segment_inv [OF segs_invD(1) [OF i] fr] and si = segs_inv_free [OF i fr]
  have h: "am_heap e' = h'" using e'(10) fr by (simp add: am_ack_segment_def Let_def)
  have ts: "am_tx_size e' = am_tx_size e - (if b then sdu_size (sdu_of (am_heap e) s) else 0)"
    using e'(11) fr by (simp add: am_ack_segment_def Let_def)
  have sz: "0 \<le> sdu_size (sdu_of (am_heap e) s)" using segs_invD(2) [OF i, of s] by (simp add: seg_ok_def)
  have sn: "am_sn_of e' t = am_sn_of e t" if "t \<in># am_segs e'" for t
    using f(3) that by (simp add: am_sn_of_def h same_sdu_def)
  have "flow (am_sn_modulus e) (am_window_size e) (am_tx_next_ack e) (am_tx_next e) (am_sn_of e)
     (am_tx_list e') (am_wait_list e') (am_retransmit_list e')"
    by (rule flow_shrink [OF am_tx_invD(5) [OF inv, unfolded am_flow_def]]) (use lists e'(1) in auto)
  then have "flow (am_sn_modulus e) (am_window_size e) (am_tx_next_ack e) (am_tx_next e) (am_sn_of e')
     (am_tx_list e') (am_wait_list e') (am_retransmit_list e')"
    by (rule flow_cong) (use sn in \<open>auto simp: am_segs_def\<close>)
  then have "am_flow e'" by (simp add: am_flow_def e')
  moreover have "am_acct L e'"
    using am_tx_invD(6) [OF inv] rt f(4) sz by (auto simp: am_acct_def h ts e')
  ultimately show ?thesis using am_tx_invD(1,3) [OF inv] e' lists(5) si by (simp add: am_tx_inv_def h)
qed

lemma am_ack_segment_frame [simp]:
  "am_tx_list (am_ack_segment s e) = am_tx_list e" "am_tx_end (am_ack_segment s e) = am_tx_end e"
  "am_wait_list (am_ack_segment s e) = am_wait_list e" "am_wait_end (am_ack_segment s e) = am_wait_end e"
  "am_retransmit_list (am_ack_segment s e) = am_retransmit_list e"
  "am_sn_field_length (am_ack_segment s e) = am_sn_field_length e" "am_sn_modulus (am_ack_segment s e) = am_sn_modulus e"
  "am_window_size (am_ack_segment s e) = am_window_size e" "am_tx_next (am_ack_segment s e) = am_tx_next e"
  "am_tx_next_ack (am_ack_segment s e) = am_tx_next_ack e" "am_tx_maxsize (am_ack_segment s e) = am_tx_maxsize e"
  "bstatus (am_common (am_ack_segment s e)) = bstatus (am_common e)"
  "same_rx e' (am_ack_segment s e) = same_rx e' e"
  by (simp_all add: am_ack_segment_def Let_def same_rx_def split: prod.split)

lemma am_retx_size_frame [simp]:
  "am_tx_list (am_retx_size_add n e) = am_tx_list e" "am_tx_end (am_retx_size_add n e) = am_tx_end e"
  "am_wait_list (am_retx_size_add n e) = am_wait_list e" "am_wait_end (am_retx_size_add n e) = am_wait_end e"
  "am_retransmit_list (am_retx_size_add n e) = am_retransmit_list e" "am_heap (am_retx_size_add n e) = am_heap e"
  "am_sn_field_length (am_retx_size_add n e) = am_sn_field_length e" "am_sn_modulus (am_retx_size_add n e) = am_sn_modulus e"
  "am_window_size (am_retx_size_add n e) = am_window_size e" "am_tx_next (am_retx_size_add n e) = am_tx_next e"
  "am_tx_next_ack (am_retx_size_add n e) = am_tx_next_ack e" "am_tx_maxsize (am_retx_size_add n e) = am_tx_maxsize e"
  "am_tx_size (am_retx_size_add n e) = am_tx_size e"
  "tx_size (bstatus (am_common (am_retx_size_add n e))) = tx_size (bstatus (am_common e))"
  "retx_size (bstatus (am_common (am_retx_size_add n e))) = retx_size (bstatus (am_common e)) + n"
  "same_rx e' (am_retx_size_add n e) = same_rx e' e"
  by (simp_all add: am_retx_size_add_def same_rx_def)

lemma am_count_retx_frame [simp]:
  "am_tx_list (am_count_retx s e) = am_tx_list e" "am_tx_end (am_count_retx s e) = am_tx_end e"
  "am_wait_list (am_count_retx s e) = am_wait_list e" "am_wait_end (am_count_retx s e) = am_wait_end e"
  "am_retransmit_list (am_count_retx s e) = am_retransmit_list e"
  "am_sn_field_length (am_count_retx s e) = am_sn_field_length e" "am_sn_modulus (am_count_retx s e) = am_sn_modulus e"
  "am_window_size (am_count_retx s e) = am_window_size e" "am_tx_next (am_count_retx s e) = am_tx_next e"
  "am_tx_next_ack (am_count_retx s e) = am_tx_next_ack e" "am_tx_maxsize (am_count_retx s e) = am_tx_maxsize e"
  "am_tx_size (am_count_retx s e) = am_tx_size e" "bstatus (am_common (am_count_retx s e)) = bstatus (am_common e)"
  "am_heap (am_count_retx s e) = heap_upd (seg_sdu s) (sdu_retx_count_update (\<lambda>n. n + 1)) (am_heap e)"
  "same_rx e' (am_count_retx s e) = same_rx e' e"
  by (simp_all add: am_count_retx_def Let_def same_rx_def)

lemma am_ack_wait:
  assumes inv: "am_tx_inv L e" and w: "am_wait_list e = xs @ s # ys"
  shows "am_tx_inv L ((am_ack_segment s e)\<lparr>am_wait_list := xs @ ys, am_wait_end := end_of (xs @ ys)\<rparr>)" (is "am_tx_inv L ?e")
proof (rule am_ack_segment_inv [OF inv, of s ?e])
  note f = am_tx_invD(5) [OF inv, unfolded am_flow_def w]
  show "sorted_wrt (am_before e) (am_wait_list ?e)" "sorted_wrt (am_before e) (am_retransmit_list ?e)"
    using flowD(11,12) [OF f] by (auto simp: sorted_wrt_append)
qed (auto simp: w am_segs_def am_cfg_def)

lemma am_ack_retx:
  assumes inv: "am_tx_inv L e" and r: "am_retransmit_list e = xs @ s # ys"
  shows "am_tx_inv L ((am_ack_segment s (am_retx_size_add (- am_seg_pdu_size e s) e))\<lparr>am_retransmit_list := xs @ ys\<rparr>)" (is "am_tx_inv L ?e")
proof (rule am_ack_segment_inv [OF inv, of s ?e])
  note f = am_tx_invD(5) [OF inv, unfolded am_flow_def r]
  show "sorted_wrt (am_before e) (am_wait_list ?e)" "sorted_wrt (am_before e) (am_retransmit_list ?e)"
    using flowD(11,12) [OF f] by (auto simp: sorted_wrt_append)
  show "am_wait_end ?e = end_of (am_wait_list ?e)" using am_tx_invD(4) [OF inv] by simp
  show "am_heap ?e = am_heap (am_ack_segment s e)" "am_tx_size ?e = am_tx_size (am_ack_segment s e)"
    by (simp_all add: am_ack_segment_def am_retx_size_add_def Let_def split: prod.split)
qed (auto simp: r am_segs_def am_cfg_def am_seg_pdu_size_eq)

lemma am_nack_wait:
  assumes inv: "am_tx_inv L e" and w: "am_wait_list e = xs @ s # ys" and r: "am_retransmit_list e = us @ vs"
    and us: "\<forall>u \<in> set us. am_before e u s" and vs: "\<forall>v \<in> set vs. am_before e s v"
  shows "am_tx_inv L ((am_retx_size_add (am_seg_pdu_size e s) (am_count_retx s e))
    \<lparr>am_wait_list := xs @ ys, am_wait_end := end_of (xs @ ys), am_retransmit_list := us @ s # vs\<rparr>)" (is "am_tx_inv L ?e")
proof -
  note f = am_tx_invD(5) [OF inv, unfolded am_flow_def w r]
  let ?h = "heap_upd (seg_sdu s) (sdu_retx_count_update (\<lambda>n. n + 1)) (am_heap e)"
  have snf: "am_sn_of ?e = am_sn_of e" by (rule ext) (simp add: am_sn_of_def sdu_of_def split: option.split)
  have "flow (am_sn_modulus e) (am_window_size e) (am_tx_next_ack e) (am_tx_next e) (am_sn_of e)
     (am_tx_list e) (xs @ ys) (us @ s # vs)"
  proof (rule flowI)
    show "sorted_wrt (am_before e) (xs @ ys)" using flowD(11) [OF f] by (auto simp: sorted_wrt_append)
    show "sorted_wrt (am_before e) (us @ s # vs)" using flowD(12) [OF f] us vs by (auto simp: sorted_wrt_append)
    show "sn_unique (am_sn_of e) (set (am_tx_list e) \<union> set (xs @ ys) \<union> set (us @ s # vs))"
      by (rule sn_unique_subset [OF flowD(10) [OF f]]) auto
  qed (use flowD(1-9) [OF f] in auto)
  then have "am_flow ?e" unfolding am_flow_def snf by simp
  moreover have "am_segs ?e = am_segs e" by (simp add: am_segs_def w r)
  moreover have "am_acct L ?e"
    by (rule am_acct_frame [OF am_tx_invD(6) [OF inv]]) (simp_all add: r heap_upd_bytes am_seg_pdu_size_eq)
  moreover have "segs_inv ?h (am_segs e + L)" by (rule segs_inv_upd [OF am_tx_invD(2) [OF inv]]) simp
  ultimately show ?thesis using am_tx_invD [OF inv] by (simp add: am_tx_inv_def am_cfg_def)
qed

section \<open>The loop over the lists\<close>

text \<open>The lists while they are being edited, as an entity.\<close>

definition ct_view :: "am_ctrl \<Rightarrow> nr_rlc_entity_am" where
  "ct_view c = (ct_e c)\<lparr>am_wait_list := ct_wait_done c @ ct_wait_rest c,
     am_wait_end := end_of (ct_wait_done c @ ct_wait_rest c),
     am_retransmit_list := ct_new_retx c @ ct_new_next c @ ct_cur_retx c\<rparr>"

text \<open>What the processing of a status PDU does not change until it is over.\<close>

definition ct_frame :: "nr_rlc_entity_am \<Rightarrow> nr_rlc_entity_am \<Rightarrow> bool" where
  "ct_frame e e' \<longleftrightarrow> same_rx e e' \<and> am_tx_next e' = am_tx_next e \<and> am_tx_next_ack e' = am_tx_next_ack e \<and>
     am_tx_list e' = am_tx_list e \<and> (\<forall>t \<in> set (am_tx_list e). am_sn_of e' t = am_sn_of e t)"

definition ct_inv :: "segment multiset \<Rightarrow> nr_rlc_entity_am \<Rightarrow> am_ctrl \<Rightarrow> bool" where
  "ct_inv L e c \<longleftrightarrow> am_tx_inv L (ct_view c) \<and> ct_frame e (ct_e c) \<and>
     (case ct_end c of None \<Rightarrow> am_wait_end (ct_e c) = end_of (ct_wait_done c @ ct_wait_rest c)
      | Some p \<Rightarrow> p = end_of (ct_wait_done c @ ct_wait_rest c) \<and> ct_wait_rest c = []) \<and>
     (\<forall>x \<in> set (ct_new_retx c). \<forall>y \<in> set (ct_cur_wait c). am_before (ct_e c) x y) \<and>
     (ct_new_next c \<noteq> [] \<longrightarrow> ct_cur_retx c = [] \<and> ct_cur_wait c = [])"

lemma ct_view_simps [simp]:
  "am_wait_list (ct_view c) = ct_wait_done c @ ct_wait_rest c"
  "am_retransmit_list (ct_view c) = ct_new_retx c @ ct_new_next c @ ct_cur_retx c"
  "am_tx_list (ct_view c) = am_tx_list (ct_e c)" "am_heap (ct_view c) = am_heap (ct_e c)"
  "am_sn_modulus (ct_view c) = am_sn_modulus (ct_e c)" "am_tx_next_ack (ct_view c) = am_tx_next_ack (ct_e c)"
  "am_tx_next (ct_view c) = am_tx_next (ct_e c)" "am_sn_field_length (ct_view c) = am_sn_field_length (ct_e c)"
  "am_window_size (ct_view c) = am_window_size (ct_e c)"
  "am_sn_of (ct_view c) = am_sn_of (ct_e c)" "am_seg_pdu_size (ct_view c) = am_seg_pdu_size (ct_e c)"
  by (simp_all add: ct_view_def am_sn_of_def fun_eq_iff am_seg_pdu_size_eq)

text \<open>Segments in flight are comparable, and the comparison of the code is the order.\<close>

lemma am_before_total:
  assumes inv: "segs_inv (am_heap e) (add_mset s (add_mset t M))"
    and "am_valid_sn e (am_sn_of e s)" "am_valid_sn e (am_sn_of e t)"
    and same: "am_sn_of e s = am_sn_of e t \<Longrightarrow> seg_sdu s = seg_sdu t"
  shows "am_before e s t \<or> am_before e t s"
proof (cases "am_sn_of e s = am_sn_of e t")
  case True
  have "seg_so s < seg_so t \<or> seg_so t < seg_so s" using same_sdu_so_neq [OF inv same [OF True]] by linarith
  then show ?thesis unfolding seg_before_def using True by metis
next
  case False
  then have "sn_dist (am_sn_modulus e) (am_tx_next_ack e) (am_sn_of e s) \<noteq>
      sn_dist (am_sn_modulus e) (am_tx_next_ack e) (am_sn_of e t)" using sn_dist_inj assms(2,3) by blast
  then show ?thesis unfolding seg_before_def by linarith
qed

lemma am_before_code_less:
  assumes "am_valid_sn e (am_tx_next_ack e)" "am_valid_sn e (am_sn_of e s)" "am_valid_sn e (am_sn_of e t)"
    and c: "c = am_sn_compare_tx e (seg_sn (am_heap e) s) (seg_sn (am_heap e) t)"
  shows "c < 0 \<or> (c = 0 \<and> seg_so s < seg_so t) \<longleftrightarrow> am_before e s t"
proof -
  have c': "c = sn_dist (am_sn_modulus e) (am_tx_next_ack e) (am_sn_of e s) -
      sn_dist (am_sn_modulus e) (am_tx_next_ack e) (am_sn_of e t)"
    using assms am_modulus_tx_dist [of "am_sn_of e s" e] am_modulus_tx_dist [of "am_sn_of e t" e]
    by (simp add: am_sn_compare_tx_def am_sn_of_def)
  have "c = 0 \<longleftrightarrow> am_sn_of e s = am_sn_of e t" unfolding c' using sn_dist_inj assms(2,3) by (metis diff_self eq_iff_diff_eq_0)
  then show ?thesis unfolding seg_before_def c' by auto
qed

lemma am_lists_comparable:
  assumes inv: "am_tx_inv L e" and s: "s \<in> set (am_wait_list e)" and t: "t \<in> set (am_retransmit_list e)"
  shows "am_before e s t \<or> am_before e t s" "am_valid_sn e (am_tx_next_ack e)"
    "am_valid_sn e (am_sn_of e s)" "am_valid_sn e (am_sn_of e t)"
proof -
  note f = am_tx_invD(5) [OF inv, unfolded am_flow_def]
  show "am_valid_sn e (am_tx_next_ack e)" using flowD(1,2) [OF f] by simp
  show v: "am_valid_sn e (am_sn_of e s)" "am_valid_sn e (am_sn_of e t)"
    using flowD(6) [OF f s] flowD(7) [OF f t] by (auto simp: in_flight_def)
  obtain W R where "mset (am_wait_list e) = add_mset s W" "mset (am_retransmit_list e) = add_mset t R"
    using s t by (metis multi_member_split set_mset_mset)
  then have "am_segs e + L = add_mset s (add_mset t (mset (am_tx_list e) + W + R + L))" by (simp add: am_segs_def)
  then have i: "segs_inv (am_heap e) (add_mset s (add_mset t (mset (am_tx_list e) + W + R + L)))"
    using am_tx_invD(2) [OF inv] by (simp only:)
  have n: "am_sn_of e s \<noteq> -1" using v by auto
  have "seg_sdu s = seg_sdu t" if "am_sn_of e s = am_sn_of e t"
    by (rule sn_uniqueD [OF flowD(10) [OF f] _ _ that n]) (use s t in auto)
  then show "am_before e s t \<or> am_before e t s" by (rule am_before_total [OF i v])
qed

lemma am_ack_sn_of:
  assumes inv: "am_tx_inv L e" and segs: "am_segs e = add_mset s N" and t: "t \<in># N"
  shows "am_sn_of (am_ack_segment s e) t = am_sn_of e t"
proof -
  obtain b h' where fr: "nr_rlc_free_sdu_segment s (am_heap e) = (b, h')" by fastforce
  have "segs_inv (am_heap e) (add_mset s (N + L))" using am_tx_invD(2) [OF inv] segs by simp
  note f = free_segment_inv [OF segs_invD(1) [OF this] fr]
  then show ?thesis using t fr by (simp add: am_sn_of_def am_ack_segment_def same_sdu_def Let_def)
qed

lemma am_ack_segment_lists [simp]:
  "am_ack_segment s (e\<lparr>am_wait_list := w\<rparr>) = (am_ack_segment s e)\<lparr>am_wait_list := w\<rparr>"
  "am_ack_segment s (e\<lparr>am_wait_end := we\<rparr>) = (am_ack_segment s e)\<lparr>am_wait_end := we\<rparr>"
  "am_ack_segment s (e\<lparr>am_retransmit_list := r\<rparr>) = (am_ack_segment s e)\<lparr>am_retransmit_list := r\<rparr>"
  "am_count_retx s (e\<lparr>am_wait_list := w\<rparr>) = (am_count_retx s e)\<lparr>am_wait_list := w\<rparr>"
  "am_count_retx s (e\<lparr>am_wait_end := we\<rparr>) = (am_count_retx s e)\<lparr>am_wait_end := we\<rparr>"
  "am_count_retx s (e\<lparr>am_retransmit_list := r\<rparr>) = (am_count_retx s e)\<lparr>am_retransmit_list := r\<rparr>"
  "am_retx_size_add n (e\<lparr>am_wait_list := w\<rparr>) = (am_retx_size_add n e)\<lparr>am_wait_list := w\<rparr>"
  "am_retx_size_add n (e\<lparr>am_wait_end := we\<rparr>) = (am_retx_size_add n e)\<lparr>am_wait_end := we\<rparr>"
  "am_retx_size_add n (e\<lparr>am_retransmit_list := r\<rparr>) = (am_retx_size_add n e)\<lparr>am_retransmit_list := r\<rparr>"
  by (simp_all add: am_ack_segment_def am_count_retx_def am_retx_size_add_def Let_def split: prod.split)


lemma am_ack_sn_of_simps [simp]:
  "am_sn_of (am_ack_segment s (am_retx_size_add n e)) = am_sn_of (am_ack_segment s e)"
  "am_sn_of (am_ack_segment s (ct_view c)) = am_sn_of (am_ack_segment s (ct_e c))"
  by (simp_all add: fun_eq_iff am_sn_of_def am_ack_segment_def am_retx_size_add_def Let_def split: prod.split)

lemma ct_invD:
  assumes "ct_inv L e c"
  shows "am_tx_inv L (ct_view c)" "ct_frame e (ct_e c)"
    "x \<in> set (ct_new_retx c) \<Longrightarrow> y \<in> set (ct_cur_wait c) \<Longrightarrow> am_before (ct_e c) x y"
    "ct_new_next c \<noteq> [] \<Longrightarrow> ct_cur_retx c = [] \<and> ct_cur_wait c = []"
  using assms by (simp_all add: ct_inv_def)

lemma ct_frame_ack:
  assumes inv: "am_tx_inv L (ct_view c)" and segs: "am_segs (ct_view c) = add_mset s N"
    and N: "set (am_tx_list (ct_e c)) \<subseteq> set_mset N" and fr: "ct_frame e (ct_e c)"
  shows "ct_frame e (am_ack_segment s (ct_e c))" "ct_frame e (am_ack_segment s (am_retx_size_add n (ct_e c)))"
proof -
  have sn: "am_sn_of (am_ack_segment s (ct_e c)) t = am_sn_of (ct_e c) t" if "t \<in># N" for t
    using am_ack_sn_of [OF inv segs that] by simp
  then show "ct_frame e (am_ack_segment s (ct_e c))" using fr N by (auto simp: ct_frame_def)
  show "ct_frame e (am_ack_segment s (am_retx_size_add n (ct_e c)))" using sn fr N by (auto simp: ct_frame_def)
qed

text \<open>A segment of the wait list is unlinked: the end pointer follows.\<close>

lemma ct_unlink_end:
  assumes inv: "ct_inv L e c" and r: "ct_wait_rest c = s # ws"
  shows "ct_end (ct_unlink_wait s c) = (if ws = [] then Some (end_of (ct_wait_done c)) else None)"
    "am_wait_end (ct_e c) = end_of (ct_wait_done c @ s # ws)"
proof -
  have en: "ct_end c = None" "am_wait_end (ct_e c) = end_of (ct_wait_done c @ s # ws)"
    using inv r by (auto simp: ct_inv_def split: option.splits)
  have "segs_inv (am_heap (ct_e c)) (am_segs (ct_view c) + L)" using am_tx_invD(2) [OF ct_invD(1) [OF inv]] by simp
  moreover have "am_segs (ct_view c) + L = mset (ct_wait_done c @ s # ws) +
      (mset (am_tx_list (ct_e c)) + mset (am_retransmit_list (ct_view c)) + L)" by (simp add: am_segs_def r)
  ultimately have "distinct (ct_wait_done c @ s # ws)" using segs_inv_distinct by metis
  then have "Some s = am_wait_end (ct_e c) \<longleftrightarrow> ws = []" using en(2) last_in_set [of ws] by (auto simp: end_of_def)
  then show "ct_end (ct_unlink_wait s c) = (if ws = [] then Some (end_of (ct_wait_done c)) else None)"
    "am_wait_end (ct_e c) = end_of (ct_wait_done c @ s # ws)"
    using en by (simp_all add: ct_unlink_wait_def)
qed

lemma end_of_Cons_ne: "ws \<noteq> [] \<Longrightarrow> end_of (d @ s # ws) = end_of (d @ ws)"
  by (simp add: end_of_def)

lemma ct_ack_wait:
  assumes inv: "ct_inv L e c" and w: "ct_cur_wait c = s # ws"
  shows "ct_inv L e ((ct_unlink_wait s c)\<lparr>ct_e := am_ack_segment s (ct_e c)\<rparr>)" (is "ct_inv L e ?c")
proof -
  have r: "ct_wait_rest c = s # ws" "\<not> ct_wait_stop c" using w by (auto simp: ct_cur_wait_def split: if_splits)
  note en = ct_unlink_end [OF inv r(1)] and i = ct_invD [OF inv]
  have "ct_view ?c = (am_ack_segment s (ct_view c))\<lparr>am_wait_list := ct_wait_done c @ ws, am_wait_end := end_of (ct_wait_done c @ ws)\<rparr>"
    by (simp add: ct_view_def ct_unlink_wait_def r)
  then have "am_tx_inv L (ct_view ?c)" using am_ack_wait [OF i(1), of "ct_wait_done c" s ws] r by simp
  moreover have "ct_frame e (ct_e ?c)"
    using ct_frame_ack(1) [OF i(1) _ _ i(2), of s "mset (am_tx_list (ct_e c)) + mset (ct_wait_done c @ ws) + mset (am_retransmit_list (ct_view c))"] r
    by (auto simp: am_segs_def)
  moreover have "am_before (ct_e ?c) x y" if x: "x \<in> set (ct_new_retx c)" and y: "y \<in> set ws" for x y
  proof -
    let ?N = "mset (am_tx_list (ct_e c)) + mset (ct_wait_done c @ ws) + mset (am_retransmit_list (ct_view c))"
    have segs: "am_segs (ct_view c) = add_mset s ?N" by (simp add: am_segs_def r)
    have "am_sn_of (ct_e ?c) t = am_sn_of (ct_e c) t" if "t \<in># ?N" for t
      using am_ack_sn_of [OF i(1) segs that] by simp
    from this [of x] this [of y] x y i(3) [OF x, of y] w show ?thesis by (simp add: seg_before_def)
  qed
  moreover have "ct_end ?c = (if ws = [] then Some (end_of (ct_wait_done c)) else None)" using en(1) by simp
  ultimately show ?thesis
    using en(2) i(4) r w end_of_Cons_ne [of ws "ct_wait_done c" s]
    by (auto simp: ct_inv_def ct_unlink_wait_def ct_cur_wait_def)
qed

lemma ct_nack_wait:
  assumes inv: "ct_inv L e c" and w: "ct_cur_wait c = s # ws" and v: "\<forall>v \<in> set (ct_cur_retx c). am_before (ct_e c) s v"
  shows "ct_inv L e ((ct_unlink_wait s c)\<lparr>ct_new_retx := ct_new_retx c @ [s], ct_new_next := [],
    ct_e := am_retx_size_add (am_seg_pdu_size (ct_e c) s) (am_count_retx s (ct_e c))\<rparr>)" (is "ct_inv L e ?c")
proof -
  have r: "ct_wait_rest c = s # ws" "\<not> ct_wait_stop c" using w by (auto simp: ct_cur_wait_def split: if_splits)
  note en = ct_unlink_end [OF inv r(1)] and i = ct_invD [OF inv]
  have nn: "ct_new_next c = []" using i(4) w by auto
  let ?e = "am_retx_size_add (am_seg_pdu_size (ct_view c) s) (am_count_retx s (ct_view c))"
  have "ct_view ?c = ?e\<lparr>am_wait_list := ct_wait_done c @ ws, am_wait_end := end_of (ct_wait_done c @ ws),
      am_retransmit_list := ct_new_retx c @ s # ct_cur_retx c\<rparr>"
    by (simp add: ct_view_def ct_unlink_wait_def r am_seg_pdu_size_eq)
  then have "am_tx_inv L (ct_view ?c)"
    using am_nack_wait [OF i(1), of "ct_wait_done c" s ws "ct_new_retx c" "ct_cur_retx c"] r nn v i(3) [of _ s] w by simp
  moreover have sn: "am_sn_of (ct_e ?c) = am_sn_of (ct_e c)"
    by (rule ext) (simp add: am_sn_of_def sdu_of_def split: option.split)
  then have "ct_frame e (ct_e ?c)" using i(2) by (simp add: ct_frame_def)
  moreover have "am_before (ct_e ?c) x y" if x: "x \<in> set (ct_new_retx c @ [s])" and y: "y \<in> set ws" for x y
  proof -
    have "am_before (ct_e c) s y"
      using flowD(11) [OF am_tx_invD(5) [OF i(1), unfolded am_flow_def]] y r by (auto simp: sorted_wrt_append)
    then have "am_before (ct_e c) x y" using i(3) [of x y] w x y by auto
    then show ?thesis unfolding sn by simp
  qed
  moreover have "ct_end ?c = (if ws = [] then Some (end_of (ct_wait_done c)) else None)" using en(1) by simp
  ultimately show ?thesis
    using en(2) r w end_of_Cons_ne [of ws "ct_wait_done c" s]
    by (auto simp: ct_inv_def ct_unlink_wait_def ct_cur_wait_def)
qed

lemma ct_skip_wait:
  assumes "ct_inv L e c" and "ct_cur_wait c = s # ws"
  shows "ct_inv L e (c\<lparr>ct_wait_done := ct_wait_done c @ [s], ct_wait_rest := ws\<rparr>)"
    "ct_inv L e (c\<lparr>ct_wait_stop := True\<rparr>)"
proof -
  have r: "ct_wait_rest c = s # ws" "\<not> ct_wait_stop c" using assms(2) by (auto simp: ct_cur_wait_def split: if_splits)
  have v: "ct_view (c\<lparr>ct_wait_done := ct_wait_done c @ [s], ct_wait_rest := ws\<rparr>) = ct_view c"
    "ct_view (c\<lparr>ct_wait_stop := True\<rparr>) = ct_view c" by (simp_all add: ct_view_def r)
  show "ct_inv L e (c\<lparr>ct_wait_done := ct_wait_done c @ [s], ct_wait_rest := ws\<rparr>)"
    using assms(1) r by (auto simp: ct_inv_def v ct_cur_wait_def split: option.splits)
  show "ct_inv L e (c\<lparr>ct_wait_stop := True\<rparr>)"
    using assms(1) r by (auto simp: ct_inv_def v ct_cur_wait_def split: option.splits)
qed

lemma ct_keep_retx:
  assumes inv: "ct_inv L e c" and r: "ct_cur_retx c = s # rs" and w: "\<forall>y \<in> set (ct_cur_wait c). am_before (ct_e c) s y"
  shows "ct_inv L e (c\<lparr>ct_new_retx := ct_new_retx c @ [s], ct_new_next := [], ct_cur_retx := rs\<rparr>)"
proof -
  have "ct_new_next c = []" using ct_invD(4) [OF inv] r by auto
  then have v: "ct_view (c\<lparr>ct_new_retx := ct_new_retx c @ [s], ct_new_next := [], ct_cur_retx := rs\<rparr>) = ct_view c"
    by (simp add: ct_view_def r)
  show ?thesis using inv w unfolding ct_inv_def v by (auto simp: ct_cur_wait_def split: option.splits)
qed

lemma ct_ack_retx:
  assumes inv: "ct_inv L e c" and r: "ct_cur_retx c = s # rs"
  shows "ct_inv L e (c\<lparr>ct_cur_retx := rs,
    ct_e := am_ack_segment s (am_retx_size_add (- am_seg_pdu_size (ct_e c) s) (ct_e c))\<rparr>)" (is "ct_inv L e ?c")
proof -
  note i = ct_invD [OF inv]
  have nn: "ct_new_next c = []" using i(4) r by auto
  let ?N = "mset (am_tx_list (ct_e c)) + mset (am_wait_list (ct_view c)) + mset (ct_new_retx c @ rs)"
  have segs: "am_segs (ct_view c) = add_mset s ?N" by (simp add: am_segs_def r nn)
  have "ct_view ?c = (am_ack_segment s (am_retx_size_add (- am_seg_pdu_size (ct_view c) s) (ct_view c)))
      \<lparr>am_retransmit_list := ct_new_retx c @ rs\<rparr>"
    by (simp add: ct_view_def r nn am_seg_pdu_size_eq)
  then have "am_tx_inv L (ct_view ?c)" using am_ack_retx [OF i(1), of "ct_new_retx c" s rs] r nn by simp
  moreover have "ct_frame e (ct_e ?c)"
    using ct_frame_ack(2) [OF i(1) segs _ i(2)] by auto
  moreover have "am_before (ct_e ?c) x y" if x: "x \<in> set (ct_new_retx c)" and y: "y \<in> set (ct_cur_wait c)" for x y
  proof -
    have sn: "am_sn_of (ct_e ?c) t = am_sn_of (ct_e c) t" if "t \<in># ?N" for t
      using am_ack_sn_of [OF i(1) segs that] by simp
    have "y \<in> set (ct_wait_rest c)" using y by (auto simp: ct_cur_wait_def split: if_splits)
    with sn [of x] sn [of y] x i(3) [OF x y] show ?thesis by (simp add: seg_before_def)
  qed
  moreover have "ct_end ?c = ct_end c" "am_wait_end (ct_e ?c) = am_wait_end (ct_e c)" "ct_cur_wait ?c = ct_cur_wait c"
    by (simp_all add: ct_cur_wait_def)
  ultimately show ?thesis using inv nn by (simp add: ct_inv_def split: option.splits)
qed

lemma ct_speedup:
  assumes inv: "ct_inv L e c" and r: "ct_cur_retx c = s # rs" and w: "ct_cur_wait c = []"
  shows "ct_inv L e (c\<lparr>ct_new_next := ct_cur_retx c, ct_cur_retx := []\<rparr>)" (is "ct_inv L e ?c")
proof -
  have "ct_new_next c = []" using ct_invD(4) [OF inv] r by auto
  then have v: "ct_view ?c = ct_view c" by (simp add: ct_view_def)
  have "ct_cur_wait ?c = []" using w by (simp add: ct_cur_wait_def split: if_splits)
  then show ?thesis using inv unfolding ct_inv_def v by (simp split: option.splits)
qed

lemma am_wait_head_inv:
  assumes inv: "ct_inv L e c" and w: "ct_cur_wait c = s # ws" and v: "\<forall>v \<in> set (ct_cur_retx c). am_before (ct_e c) s v"
    and st: "am_wait_head ack nack so se s c = (out, c')"
  shows "ct_inv L e c'"
proof -
  have r: "ct_wait_rest c = s # ws" using w by (auto simp: ct_cur_wait_def split: if_splits)
  show ?thesis
    using st ct_nack_wait [OF inv w v] ct_ack_wait [OF inv w] ct_skip_wait [OF inv w] inv
    by (auto simp: am_wait_head_def Let_def r ct_unlink_wait_def split: if_splits)
qed

lemma am_retx_head_inv:
  assumes inv: "ct_inv L e c" and r: "ct_cur_retx c = s # rs" and w: "\<forall>y \<in> set (ct_cur_wait c). am_before (ct_e c) s y"
    and st: "am_retx_head ack nack so se s c = (out, c')"
  shows "ct_inv L e c'"
  using st ct_keep_retx [OF inv r w] ct_ack_retx [OF inv r] ct_speedup [OF inv r] inv
  by (auto simp: am_retx_head_def Let_def r split: if_splits)

lemma am_ctrl_step_inv:
  assumes inv: "ct_inv L e c" and st: "am_ctrl_step ack nack so se c = (out, c')"
  shows "ct_inv L e c'"
proof (cases "ct_cur_wait c")
  case Nil
  with inv st am_retx_head_inv [OF inv, of _ _ ack nack so se out c'] show ?thesis
    by (auto simp: am_ctrl_step_def split: list.splits)
next
  case w: (Cons s ws)
  show ?thesis
  proof (cases "ct_cur_retx c")
    case Nil
    with w st am_wait_head_inv [OF inv w, of ack nack so se out c'] show ?thesis by (simp add: am_ctrl_step_def)
  next
    case r: (Cons v vs)
    let ?b = "am_before (ct_e c)"
    note f = am_tx_invD(5) [OF ct_invD(1) [OF inv], unfolded am_flow_def]
    have rest: "ct_wait_rest c = s # ws" using w by (auto simp: ct_cur_wait_def split: if_splits)
    have s: "\<forall>y \<in> set ws. ?b s y" using flowD(11) [OF f] rest by (auto simp: sorted_wrt_append)
    have v: "\<forall>y \<in> set vs. ?b v y" using flowD(12) [OF f] r by (auto simp: sorted_wrt_append)
    have cmp: "?b s v \<or> ?b v s" "am_valid_sn (ct_e c) (am_tx_next_ack (ct_e c))"
      "am_valid_sn (ct_e c) (am_sn_of (ct_e c) s)" "am_valid_sn (ct_e c) (am_sn_of (ct_e c) v)"
      using am_lists_comparable [OF ct_invD(1) [OF inv], of s v] rest r by auto
    show ?thesis
    proof (cases "?b s v")
      case True
      then have "\<forall>y \<in> set (ct_cur_retx c). ?b s y" using v r am_before_trans by auto
      moreover have "am_wait_head ack nack so se s c = (out, c')"
        using st True am_before_code_less [OF cmp(2-4) refl] by (simp add: am_ctrl_step_def w r Let_def)
      ultimately show ?thesis using am_wait_head_inv [OF inv w] by blast
    next
      case False
      then have "\<forall>y \<in> set (ct_cur_wait c). ?b v y" using s cmp(1) w am_before_trans by auto
      moreover have "am_retx_head ack nack so se v c = (out, c')"
        using st False am_before_code_less [OF cmp(2-4) refl] by (simp add: am_ctrl_step_def w r Let_def)
      ultimately show ?thesis using am_retx_head_inv [OF inv r] by blast
    qed
  qed
qed

lemma am_process_nack_inv:
  "ct_inv L e c \<Longrightarrow> am_process_nack ack nack so se c = (b, c') \<Longrightarrow> ct_inv L e c'"
proof (induction ack nack so se c rule: am_process_nack.induct)
  case (1 ack nack so se c)
  obtain out c1 where st: "am_ctrl_step ack nack so se c = (out, c1)" by fastforce
  have i1: "ct_inv L e c1" by (rule am_ctrl_step_inv [OF 1(2) st])
  show ?case
  proof (cases out)
    case ProcessNextPdu
    from 1(3) have "am_process_nack ack nack so se c1 = (b, c')"
      by (subst (asm) am_process_nack.simps) (simp add: st ProcessNextPdu)
    with 1(1) [OF st [symmetric]] ProcessNextPdu i1 show ?thesis by simp
  qed (use 1(3) i1 in \<open>subst (asm) am_process_nack.simps, simp add: st\<close>)+
qed

lemma am_process_range_inv: "ct_inv L e c \<Longrightarrow> ct_inv L e (am_process_range ack nack so se rng n c)"
proof (induction n arbitrary: c)
  case (Suc n)
  then show ?case using am_process_nack_inv [OF Suc(2)] by (auto simp: Let_def split: prod.split)
qed simp

lemma ct_inv_same:
  assumes "ct_inv L e c" and "same_tx (ct_e c) e'" "same_rx (ct_e c) e'"
  shows "ct_inv L e (c\<lparr>ct_e := e'\<rparr>)"
proof -
  have "same_tx (ct_view c) (ct_view (c\<lparr>ct_e := e'\<rparr>))" using assms(2) by (simp add: same_tx_def ct_view_def)
  then have "am_tx_inv L (ct_view (c\<lparr>ct_e := e'\<rparr>))" using am_tx_inv_same ct_invD(1) [OF assms(1)] by blast
  moreover have sn: "am_sn_of e' = am_sn_of (ct_e c)" using assms(2) by (simp add: am_sn_of_def same_tx_def fun_eq_iff)
  moreover have "ct_frame e e'" using ct_invD(2) [OF assms(1)] assms(2) same_rx_trans [OF _ assms(3), of e] sn
    by (simp add: ct_frame_def same_tx_def)
  moreover have "am_wait_end e' = am_wait_end (ct_e c)" "am_tx_next_ack e' = am_tx_next_ack (ct_e c)"
    "am_sn_modulus e' = am_sn_modulus (ct_e c)" "ct_cur_wait (c\<lparr>ct_e := e'\<rparr>) = ct_cur_wait c"
    using assms(2) by (simp_all add: same_tx_def ct_cur_wait_def)
  ultimately show ?thesis using assms(1) by (simp add: ct_inv_def split: option.splits)
qed

section \<open>The two passes over a status PDU\<close>

text \<open>A checked and an unchecked read of the same bits: what the first accepts the second reads as well.\<close>

lemma RU_bits_rule:
  assumes "dec_ok d" and "0 \<le> n" and "n \<le> 31" and "\<And>x. P err x"
    and "\<And>d'. dec_ok d' \<Longrightarrow> nat n \<le> length (dec_rest d) \<Longrightarrow> dec_rest d' = drop (nat n) (dec_rest d) \<Longrightarrow>
      P (k (val_of_bits (take (nat n) (dec_rest d))) d') (k' (val_of_bits (take (nat n) (dec_rest d))) d')"
  shows "P (R_bits err d n k) (U_bits d n k')"
proof (cases "int (length (dec_rest d)) < n")
  case True
  then show ?thesis using get_bits_short [OF assms(1) _ assms(3)] assms(4) by (auto simp: R_bits_def U_bits_def)
next
  case False
  let ?bs = "take (nat n) (dec_rest d)"
  have "dec_rest d = ?bs @ drop (nat n) (dec_rest d)" "n = int (length ?bs)" using False assms(2) by auto
  then obtain d' where "nr_rlc_pdu_decoder_get_bits d n = Inr (val_of_bits ?bs, d')" "dec_ok d'"
    "dec_rest d' = drop (nat n) (dec_rest d)" using get_bits_ok [OF assms(1) _ _ assms(3)] by metis
  then show ?thesis using assms(5) [of d'] False by (simp add: R_bits_def U_bits_def dec_ok_def)
qed

lemma RU_bits_len:
  assumes "dec_ok d" and "0 \<le> n" and "n \<le> 31" and "\<And>x. P err x"
    and "\<And>v d'. dec_ok d' \<Longrightarrow> length (dec_rest d) = nat n + length (dec_rest d') \<Longrightarrow> P (k v d') (k' v d')"
  shows "P (R_bits err d n k) (U_bits d n k')"
  by (rule RU_bits_rule [where P = P, OF assms(1-4)]) (rule assms(5), auto)

lemma RU_if:
  "(c \<Longrightarrow> P a a') \<Longrightarrow> (\<not> c \<Longrightarrow> P b b') \<Longrightarrow> P (if c then a else b) (if c then a' else b')"
  by simp

lemma RU_read_nack:
  assumes ok: "dec_ok d" and len: "am_sn_field_length e = 12 \<or> am_sn_field_length e = 18"
    and e': "am_sn_field_length e' = am_sn_field_length e" and err: "\<And>x. P (Inr False) x"
    and k: "\<And>nack e1 s t r d'. dec_ok d' \<Longrightarrow> 16 + length (dec_rest d') \<le> length (dec_rest d) \<Longrightarrow>
      P (k nack e1 s t r d') (k' nack e1 s t r d')"
  shows "P (am_read_nack (R_bits (Inr False)) e d k) (am_read_nack U_bits e' d k')"
proof -
  note step = RU_bits_len [where P = P, OF _ _ _ err]
  have rng: "P (if e3 \<noteq> 0 then R_bits (Inr False) d6 8 (\<lambda>rng d7. k nack e1 s t rng d7) else k nack e1 s t 1 d6)
      (if e3 \<noteq> 0 then U_bits d6 8 (\<lambda>rng d7. k' nack e1 s t rng d7) else k' nack e1 s t 1 d6)"
    if "dec_ok d6" "16 + length (dec_rest d6) \<le> length (dec_rest d)" for e3 nack e1 s t d6
  proof (rule RU_if)
    show "P (R_bits (Inr False) d6 8 (k nack e1 s t)) (U_bits d6 8 (k' nack e1 s t))"
      by (rule step [OF that(1)]) (use that in \<open>simp_all add: k\<close>)
    show "P (k nack e1 s t 1 d6) (k' nack e1 s t 1 d6)" using that by (simp add: k)
  qed
  have l: "0 \<le> am_sn_field_length e" "am_sn_field_length e \<le> 31" "12 \<le> nat (am_sn_field_length e)" using len by auto
  show ?thesis
    unfolding am_read_nack_def e' Let_def
    apply (rule step [OF ok l(1,2)])
    apply (rule step, assumption, simp, simp)
    apply (rule step, assumption, simp, simp)
    apply (rule step, assumption, simp, simp)
    apply (rule step, assumption, simp, simp)
    apply (rule RU_if)
     apply (rule step, assumption, simp, simp)
     apply (rule step, assumption, simp, simp)
     apply (rule rng, assumption, use l(3) in \<open>simp split: if_splits\<close>)
    apply (rule rng, assumption, use l(3) in \<open>simp split: if_splits\<close>)
    done
qed

text \<open>The first pass always comes to a decision, and what it accepts the second pass can act on.\<close>

lemma am_two_passes:
  assumes "ct_inv L e0 c" and "dec_ok d" and "length (dec_rest d) < 16 * n"
    and "am_sn_field_length e = 12 \<or> am_sn_field_length e = 18" and "am_sn_field_length e0 = am_sn_field_length e"
  shows "\<exists>b. am_validate_nacks n e ack p q d e1 = Inr b \<and>
    (b \<longrightarrow> (\<exists>c'. am_process_nacks n ack d e1 c = Inr c' \<and> ct_inv L e0 c'))"
  using assms
proof (induction n arbitrary: c d e1)
  case (Suc n)
  let ?P = "\<lambda>r x. \<exists>b. r = Inr b \<and> (b \<longrightarrow> (\<exists>c'. x = Inr c' \<and> ct_inv L e0 c'))"
  have len: "am_sn_field_length (ct_e c) = am_sn_field_length e"
    using ct_invD(2) [OF Suc.prems(1)] Suc.prems(5) by (simp add: ct_frame_def same_rx_def)
  show ?case
  proof (cases "e1 = 0")
    case False
    have "?P (am_read_nack (R_bits (Inr False)) e d (\<lambda>nack_sn e1' so_start so_end rng d'.
        if am_check_range e ack p q nack_sn so_start rng (nat rng)
        then am_validate_nacks n e ack p q d' e1' else Inr False))
      (am_read_nack U_bits (ct_e c) d (\<lambda>nack_sn e1' so_start so_end rng d'.
        let c1 = am_process_range ack nack_sn so_start so_end rng (nat rng) c
        in am_process_nacks n ack d' e1' (c1\<lparr>ct_e := am_stop_poll_nack nack_sn rng (ct_e c1)\<rparr>)))"
    proof (rule RU_read_nack [where P = ?P, OF Suc.prems(2,4) len])
      fix nack e1' s t r and d' :: nr_rlc_pdu_decoder
      assume d': "dec_ok d'" "16 + length (dec_rest d') \<le> length (dec_rest d)"
      define c1 where "c1 = am_process_range ack nack s t r (nat r) c"
      have "ct_inv L e0 (c1\<lparr>ct_e := am_stop_poll_nack nack r (ct_e c1)\<rparr>)"
        by (rule ct_inv_same) (use am_process_range_inv [OF Suc.prems(1)] in
            \<open>auto simp: c1_def am_stop_poll_nack_def same_tx_def same_rx_def\<close>)
      from Suc.IH [OF this d'(1) _ Suc.prems(4,5), of e1'] Suc.prems(3) d'(2)
      show "?P (if am_check_range e ack p q nack s r (nat r) then am_validate_nacks n e ack p q d' e1' else Inr False)
         (let c1 = am_process_range ack nack s t r (nat r) c
          in am_process_nacks n ack d' e1' (c1\<lparr>ct_e := am_stop_poll_nack nack r (ct_e c1)\<rparr>))"
        by (auto simp: c1_def Let_def)
    qed auto
    with False show ?thesis by simp
  qed (use Suc.prems(1) in auto)
qed simp

section \<open>After the NACKs\<close>

lemma am_finish_wait_inv: "ct_inv L e c \<Longrightarrow> ct_inv L e (am_finish_wait ack c)"
proof (induction ack c rule: am_finish_wait.induct)
  case (1 ack c)
  show ?case
  proof (cases "ct_cur_wait c")
    case (Cons s ss)
    with 1 ct_ack_wait [OF 1(2) Cons] show ?thesis by (subst am_finish_wait.simps) simp
  qed (use 1(2) in \<open>subst am_finish_wait.simps, simp\<close>)
qed

lemma am_finish_retx_inv: "ct_inv L e c \<Longrightarrow> ct_inv L e (am_finish_retx ack c)"
proof (induction ack c rule: am_finish_retx.induct)
  case (1 ack c)
  show ?case
  proof (cases "ct_cur_retx c")
    case (Cons s ss)
    with 1 ct_ack_retx [OF 1(2) Cons] show ?thesis by (subst am_finish_retx.simps) simp
  qed (use 1(2) in \<open>subst am_finish_retx.simps, simp\<close>)
qed

text \<open>The lists go back into the entity; what the shortcut had appended is cut off.\<close>

lemma am_finish_lists_inv:
  assumes inv: "ct_inv L e c"
  shows "am_tx_inv (L + mset (ct_new_next c)) (am_finish_lists c) \<and> ct_frame e (am_finish_lists c)"
proof -
  let ?e = "am_finish_lists c"
  note i = ct_invD [OF inv]
  have en: "(case ct_end c of None \<Rightarrow> am_wait_end (ct_e c) | Some p \<Rightarrow> p) = end_of (ct_wait_done c @ ct_wait_rest c)"
    using inv by (auto simp: ct_inv_def split: option.splits)
  have e: "?e = (ct_view c)\<lparr>am_retransmit_list := ct_new_retx c @ ct_cur_retx c\<rparr>"
    using en by (simp add: am_finish_lists_def ct_view_def split: option.splits)
  have sn: "am_sn_of ?e = am_sn_of (ct_e c)" by (simp add: e am_sn_of_def fun_eq_iff)
  then have fr: "ct_frame e ?e" using i(2) by (simp add: ct_frame_def e same_rx_def ct_view_def)
  have "am_tx_inv (L + mset (ct_new_next c)) ?e"
  proof (cases "ct_new_next c = []")
    case True
    then have "?e = ct_view c" unfolding e by (simp add: ct_view_def)
    with i(1) True show ?thesis by simp
  next
    case False
    then have r: "ct_cur_retx c = []" using i(4) by blast
    note f = am_tx_invD(5) [OF i(1), unfolded am_flow_def]
    have "flow (am_sn_modulus ?e) (am_window_size ?e) (am_tx_next_ack ?e) (am_tx_next ?e) (am_sn_of ?e)
        (am_tx_list ?e) (am_wait_list ?e) (am_retransmit_list ?e)"
      unfolding sn unfolding e
      by (rule flow_shrink [where wait = "ct_wait_done c @ ct_wait_rest c" and retx = "ct_new_retx c @ ct_new_next c"
            and tx = "am_tx_list (ct_e c)"]) (use f flowD(11,12) [OF f] r in \<open>auto simp: sorted_wrt_append\<close>)
    then have "am_flow ?e" by (simp add: am_flow_def)
    moreover have "am_segs (ct_view c) + L = am_segs ?e + (L + mset (ct_new_next c))"
      by (simp add: am_segs_def e r ac_simps)
    moreover have "am_acct (L + mset (ct_new_next c)) ?e"
    proof -
      have "0 \<le> list_bytes (am_sn_field_length (ct_e c)) (ct_new_next c)"
        using segs_invD(2) [OF am_tx_invD(2) [OF i(1)]] by (intro list_bytes_nonneg) (auto simp: seg_ok_def am_segs_def ct_view_def)
      then show ?thesis using am_tx_invD(6) [OF i(1)] False by (simp add: am_acct_def e)
    qed
    moreover have "am_cfg ?e" using am_tx_invD(1) [OF i(1)] by (simp add: am_cfg_def e)
    ultimately show ?thesis using am_tx_invD(2,3,4) [OF i(1)] by (simp add: am_tx_inv_def e ac_simps)
  qed
  with fr show ?thesis by blast
qed

lemma am_flow_lowest:
  assumes f: "am_flow e" and d: "d = sn_dist (am_sn_modulus e) (am_tx_next_ack e)"
  shows "am_wait_list e = s # l \<Longrightarrow> t \<in> set (am_wait_list e) \<Longrightarrow> d (am_sn_of e s) \<le> d (am_sn_of e t)"
    "am_retransmit_list e = s # l \<Longrightarrow> t \<in> set (am_retransmit_list e) \<Longrightarrow> d (am_sn_of e s) \<le> d (am_sn_of e t)"
  using flowD(11,12) [OF f [unfolded am_flow_def]] by (auto simp: d seg_before_def)

text \<open>\<open>tx_next_ack\<close> becomes the smallest number that is not acknowledged.\<close>

lemma am_update_tx_next_ack_inv:
  assumes inv: "am_tx_inv L e" and ack: "am_valid_sn e ack" "am_sn_compare_tx e ack (am_tx_next e) \<le> 0"
    and tx: "\<forall>t \<in> set (am_tx_list e). am_sn_of e t = -1 \<or> \<not> am_sn_compare_tx e (am_sn_of e t) ack < 0"
  shows "am_tx_inv L (am_update_tx_next_ack ack e) \<and> same_rx e (am_update_tx_next_ack ack e)"
proof -
  note f = am_tx_invD(5) [OF inv]
  note fl = f [unfolded am_flow_def]
  let ?M = "am_sn_modulus e" and ?a = "am_tx_next_ack e" and ?n = "am_tx_next e"
  define d where "d = sn_dist ?M ?a"
  have va: "am_valid_sn e ?a" and vn: "am_valid_sn e ?n" using flowD(1-4) [OF fl] by simp_all
  have mod: "am_modulus_tx e x = d x" if "am_valid_sn e x" for x unfolding d_def by (rule am_modulus_tx_dist [OF that va])
  have cmp: "am_sn_compare_tx e x y = d x - d y" if "am_valid_sn e x" "am_valid_sn e y" for x y
    using that by (simp add: am_sn_compare_tx_def mod)
  have vw: "am_valid_sn e (am_sn_of e t)" if "t \<in> set (am_wait_list e) \<union> set (am_retransmit_list e)" for t
    using that flowD(6,7) [OF fl, of t] by (auto simp: in_flight_def)
  define t1 where "t1 = (case am_wait_list e of s # _ \<Rightarrow>
      if am_sn_compare_tx e (am_sn_of e s) ?n < 0 then am_sn_of e s else ?n | [] \<Rightarrow> ?n)"
  define t2 where "t2 = (case am_retransmit_list e of s # _ \<Rightarrow>
      if am_sn_compare_tx e (am_sn_of e s) t1 < 0 then am_sn_of e s else t1 | [] \<Rightarrow> t1)"
  define t3 where "t3 = (if am_sn_compare_tx e ack t2 < 0 then ack else t2)"
  have e': "am_update_tx_next_ack ack e = e\<lparr>am_tx_next_ack := t3\<rparr>"
    unfolding am_update_tx_next_ack_def Let_def t3_def t2_def t1_def am_sn_of_def by (rule refl)
  have 1: "am_valid_sn e t1" "d t1 \<le> d ?n" "\<forall>t \<in> set (am_wait_list e). d t1 \<le> d (am_sn_of e t)"
    using vn vw am_flow_lowest(1) [OF f d_def] by (auto simp: t1_def cmp split: list.split) fastforce+
  have 2: "am_valid_sn e t2" "d t2 \<le> d t1" "\<forall>t \<in> set (am_retransmit_list e). d t2 \<le> d (am_sn_of e t)"
    using 1(1) vw am_flow_lowest(2) [OF f d_def] by (auto simp: t2_def cmp split: list.split) fastforce+
  have 3: "am_valid_sn e t3" "d t3 \<le> d t2" "d t3 \<le> d ack"
    using 2(1) ack(1) cmp [OF ack(1) 2(1)] by (auto simp: t3_def)
  have "flow ?M (am_window_size e) t3 ?n (am_sn_of e) (am_tx_list e) (am_wait_list e) (am_retransmit_list e)"
  proof (rule flow_rebase [OF fl])
    show "sn_dist ?M ?a t3 \<le> sn_dist ?M ?a ?n" using 1(2) 2(2) 3(2) by (simp add: d_def)
    fix s assume s: "s \<in> set (am_tx_list e) \<union> set (am_wait_list e) \<union> set (am_retransmit_list e)" "am_sn_of e s \<noteq> -1"
    have "d t3 \<le> d (am_sn_of e s)"
    proof (cases "s \<in> set (am_wait_list e) \<union> set (am_retransmit_list e)")
      case True
      with 1(3) 2(2,3) 3(2) show ?thesis by fastforce
    next
      case False
      then have t: "s \<in> set (am_tx_list e)" using s(1) by blast
      then have "am_valid_sn e (am_sn_of e s)" using flowD(8) [OF fl t] s(2) by (auto simp: tx_seg_ok_def in_flight_def)
      then show ?thesis using tx t s(2) 3(3) cmp [OF _ ack(1), of "am_sn_of e s"] by fastforce
    qed
    then show "sn_dist ?M ?a t3 \<le> sn_dist ?M ?a (am_sn_of e s)" by (simp add: d_def)
  qed (use 3(1) in auto)
  moreover have "am_sn_of (e\<lparr>am_tx_next_ack := t3\<rparr>) = am_sn_of e" by (simp add: am_sn_of_def fun_eq_iff)
  ultimately have "am_flow (e\<lparr>am_tx_next_ack := t3\<rparr>)" by (simp add: am_flow_def)
  then show ?thesis unfolding e' using am_tx_invD [OF inv]
    by (simp add: am_tx_inv_def am_segs_def am_acct_def am_cfg_def same_rx_def)
qed

section \<open>The whole function\<close>

text \<open>
  What the peer may acknowledge: \<open>ack_sn\<close> is not beyond an SDU of which only a part was sent. (A
  receiver never acknowledges what it has not received completely.)
\<close>

definition am_pdu_ack_sn :: "byte list \<Rightarrow> nr_rlc_entity_am \<Rightarrow> int" where
  "am_pdu_ack_sn b e = val_of_bits (take (nat (am_sn_field_length e)) (drop 4 (bytes_bits b)))"

definition am_ack_plausible :: "byte list \<Rightarrow> nr_rlc_entity_am \<Rightarrow> bool" where
  "am_ack_plausible b e \<longleftrightarrow> (\<forall>t \<in> set (am_tx_list e). am_sn_of e t = -1 \<or>
     \<not> am_sn_compare_tx e (am_sn_of e t) (am_pdu_ack_sn b e) < 0)"

lemma am_sn_compare_tx_frame:
  "am_tx_next_ack e' = am_tx_next_ack e \<Longrightarrow> am_sn_modulus e' = am_sn_modulus e \<Longrightarrow>
   am_sn_compare_tx e' = am_sn_compare_tx e"
  by (simp add: am_sn_compare_tx_def am_modulus_tx_def fun_eq_iff Let_def)

lemma am_ctrl_init_inv:
  assumes inv: "am_tx_inv L e"
  shows "ct_inv L e ((am_ctrl_init e)\<lparr>ct_e := am_stop_poll_ack ack e\<rparr>)"
proof -
  have "ct_view (am_ctrl_init e) = e" using am_tx_invD(4) [OF inv] by (simp add: ct_view_def am_ctrl_init_def)
  then have "ct_inv L e (am_ctrl_init e)"
    using inv am_tx_invD(4) [OF inv] by (simp add: ct_inv_def am_ctrl_init_def ct_frame_def)
  then show ?thesis
    by (rule ct_inv_same) (simp_all add: am_ctrl_init_def am_stop_poll_ack_def same_tx_def same_rx_def)
qed

lemma am_finish_inv:
  assumes inv: "am_tx_inv L e" and c: "ct_inv L e c" and ack: "am_valid_sn e ack" "\<not> am_sn_compare_tx e ack (am_tx_next e) > 0"
    and pl: "\<forall>t \<in> set (am_tx_list e). am_sn_of e t = -1 \<or> \<not> am_sn_compare_tx e (am_sn_of e t) ack < 0"
  shows "\<exists>L'. am_tx_inv (L + L') (am_update_tx_next_ack ack (am_finish_lists (am_finish_retx ack (am_finish_wait ack c)))) \<and>
    same_rx e (am_update_tx_next_ack ack (am_finish_lists (am_finish_retx ack (am_finish_wait ack c))))"
proof -
  define c' where "c' = am_finish_retx ack (am_finish_wait ack c)"
  define e1 where "e1 = am_finish_lists c'"
  have "ct_inv L e c'" unfolding c'_def using c by (intro am_finish_retx_inv am_finish_wait_inv)
  from am_finish_lists_inv [OF this] have i: "am_tx_inv (L + mset (ct_new_next c')) e1" "ct_frame e e1"
    by (simp_all add: e1_def)
  have fr: "am_sn_compare_tx e1 = am_sn_compare_tx e" "am_tx_next e1 = am_tx_next e" "am_sn_modulus e1 = am_sn_modulus e"
    "am_tx_list e1 = am_tx_list e" "\<forall>t \<in> set (am_tx_list e). am_sn_of e1 t = am_sn_of e t" "same_rx e e1"
    using i(2) am_sn_compare_tx_frame [of e1 e] by (simp_all add: ct_frame_def same_rx_def)
  have "am_tx_inv (L + mset (ct_new_next c')) (am_update_tx_next_ack ack e1) \<and> same_rx e1 (am_update_tx_next_ack ack e1)"
    by (rule am_update_tx_next_ack_inv [OF i(1)]) (use ack pl fr in auto)
  with fr(6) show ?thesis unfolding e1_def c'_def using same_rx_trans by blast
qed

text \<open>Both passes, from the header on.\<close>

definition ctrl_ok :: "segment multiset \<Rightarrow> nr_rlc_entity_am \<Rightarrow> bool res \<Rightarrow> nr_rlc_entity_am res \<Rightarrow> bool" where
  "ctrl_ok L e r x \<longleftrightarrow> (\<exists>ok. r = Inr ok \<and> (ok \<longrightarrow> (\<exists>e' L'. x = Inr e' \<and> am_tx_inv (L + L') e' \<and> same_rx e e')))"

lemma ctrl_ok_False [simp]: "ctrl_ok L e (Inr False) x"
  by (auto simp: ctrl_ok_def)

lemma am_control_passes:
  assumes inv: "am_tx_inv L e" and pl: "am_ack_plausible b e"
    and ack: "ack = am_pdu_ack_sn b e" "am_valid_sn e ack" and d: "dec_ok d" "length (dec_rest d) \<le> length (bytes_bits b)"
  shows "ctrl_ok L e
     (if am_sn_compare_tx e ack (am_tx_next e) > 0 then Inr False
      else am_validate_nacks (Suc (length b)) e ack (-1) 0 d e1)
     (res_bind (am_process_nacks (Suc (length b)) ack d e1 ((am_ctrl_init e)\<lparr>ct_e := am_stop_poll_ack ack e\<rparr>))
       (\<lambda>c. Inr (am_update_tx_next_ack ack (am_finish_lists (am_finish_retx ack (am_finish_wait ack c))))))"
proof -
  have len: "am_sn_field_length e = 12 \<or> am_sn_field_length e = 18" using am_tx_invD(1) [OF inv] by (simp add: am_cfg_def)
  obtain ok where v: "am_validate_nacks (Suc (length b)) e ack (-1) 0 d e1 = Inr ok" and
    p: "ok \<Longrightarrow> \<exists>c'. am_process_nacks (Suc (length b)) ack d e1 ((am_ctrl_init e)\<lparr>ct_e := am_stop_poll_ack ack e\<rparr>) = Inr c' \<and> ct_inv L e c'"
    using am_two_passes [OF am_ctrl_init_inv [OF inv] d(1) _ len refl, of "Suc (length b)" ack "-1" 0 e1] d(2) by auto
  show ?thesis
  proof (cases "am_sn_compare_tx e ack (am_tx_next e) > 0 \<or> \<not> ok")
    case True
    then show ?thesis using v by auto
  next
    case False
    with p obtain c where c: "am_process_nacks (Suc (length b)) ack d e1 ((am_ctrl_init e)\<lparr>ct_e := am_stop_poll_ack ack e\<rparr>) = Inr c"
      "ct_inv L e c" by blast
    have "\<not> am_sn_compare_tx e ack (am_tx_next e) > 0" using False by blast
    from am_finish_inv [OF inv c(2) ack(2) this] pl c(1) v False show ?thesis
      by (auto simp: ctrl_ok_def am_ack_plausible_def ack(1))
  qed
qed

lemma am_process_control_pdu_inv:
  assumes inv: "am_tx_inv L e" and pl: "am_ack_plausible b e"
  shows "\<exists>e' L'. am_process_control_pdu b e = Inr e' \<and> am_tx_inv (L + L') e' \<and> same_rx e e'"
proof -
  have len: "0 \<le> am_sn_field_length e" "am_sn_field_length e \<le> 31" "am_sn_modulus e = 2 ^ nat (am_sn_field_length e)"
    using am_tx_invD(1) [OF inv] by (auto simp: am_cfg_def)
  note step = RU_bits_rule [where P = "ctrl_ok L e", OF _ _ _ ctrl_ok_False]
  have skip: "ctrl_ok L e y x \<Longrightarrow> ctrl_ok L e (if cpt \<noteq> 0 then Inr False else y) x" for cpt :: int and x y by simp
  define X where "X = U_bits (nr_rlc_pdu_decoder_init b) 1 (\<lambda>dc d1. U_bits d1 3 (\<lambda>cpt d2. U_bits d2 (am_sn_field_length e) (\<lambda>ack_sn d3.
       U_bits d3 1 (\<lambda>e1 d4. U_bits d4 (if am_sn_field_length e = 18 then 1 else 7) (\<lambda>r d5.
       res_bind (am_process_nacks (Suc (length b)) ack_sn d5 e1 ((am_ctrl_init e)\<lparr>ct_e := am_stop_poll_ack ack_sn e\<rparr>))
         (\<lambda>c. Inr (am_update_tx_next_ack ack_sn (am_finish_lists (am_finish_retx ack_sn (am_finish_wait ack_sn c))))))))))"
  have "ctrl_ok L e (am_validate_control_pdu b e) X"
    unfolding am_validate_control_pdu_def X_def
    apply (rule step, rule dec_ok_init, simp, simp)
    apply (rule step, assumption, simp, simp, rule skip)
    apply (rule step, assumption, rule len, rule len)
    apply (rule step, assumption, simp, simp)
    apply (rule step, assumption, simp, simp)
    subgoal for d1 d2 d3 d4 d5
      using val_of_bits_less [of "take (nat (am_sn_field_length e)) (dec_rest d2)"]
      by (intro am_control_passes [OF inv pl]) (simp_all add: am_pdu_ack_sn_def len)
    done
  then obtain ok where ok: "am_validate_control_pdu b e = Inr ok"
    "ok \<Longrightarrow> \<exists>e' L'. X = Inr e' \<and> am_tx_inv (L + L') e' \<and> same_rx e e'" unfolding ctrl_ok_def by blast
  have eq: "am_process_control_pdu b e = res_bind (am_validate_control_pdu b e) (\<lambda>valid. if \<not> valid then Inr e else X)"
    unfolding am_process_control_pdu_def X_def by (rule refl)
  have triv: "am_tx_inv (L + {#}) e \<and> same_rx e e" using inv by simp
  show ?thesis
  proof (cases ok)
    case True
    then show ?thesis using ok eq by simp
  next
    case False
    then have "am_process_control_pdu b e = Inr e" using ok(1) eq by simp
    with triv show ?thesis by blast
  qed
qed

end
