(* ===== verification/RlcAmStatus.thy ===== *)
theory RlcAmStatus
  imports RlcAmCtrlInv
begin

unbundle bit_operations_syntax

text \<open>
  Status reports: \<open>generate_status\<close> returns and stays inside the buffer of the caller whatever was
  received, and \<open>status_size\<close>, which announces the size of the report to MAC, computes exactly the
  size of the report that is generated for the same room.
\<close>

section \<open>One NACK\<close>

text \<open>An encoder on a byte boundary.\<close>

definition enc_at :: "nr_rlc_pdu_encoder \<Rightarrow> nat \<Rightarrow> bool" where
  "enc_at n k \<longleftrightarrow> enc_ok n \<and> enc_pos n = 8 * k"

lemma enc_atD:
  assumes "enc_at n k"
  shows "enc_ok n" "enc_pos n = 8 * k" "enc_byte n = k" "enc_size n = length (enc_buffer n)" "k \<le> enc_size n"
proof -
  show ok: "enc_ok n" "enc_pos n = 8 * k" using assms by (simp_all add: enc_at_def)
  show "enc_byte n = k" by (rule enc_aligned(2) [OF ok])
  show "enc_size n = length (enc_buffer n)" "k \<le> enc_size n" using ok by (auto simp: enc_ok_def)
qed

lemma put_fields_at:
  assumes "enc_at n k" and "fields_ok fs" and "length (fields_bits fs) = 8 * j" and "k + j \<le> enc_size n"
  shows "\<exists>n'. put_fields fs n = Inr n' \<and> enc_at n' (k + j) \<and> enc_size n' = enc_size n"
  using put_fields_ok [OF enc_atD(1) [OF assms(1)] assms(2)] enc_atD(2) [OF assms(1)] assms(3,4)
  by (fastforce simp: enc_at_def)

lemma put_opt_at:
  assumes "enc_at n k" and "0 \<le> w" "w \<le> 31" "nat w = 8 * j" and "k + (if c then j else 0) \<le> enc_size n"
  shows "\<exists>n'. put_fields (if c then [(x, w)] else []) n = Inr n' \<and> enc_at n' (k + (if c then j else 0)) \<and> enc_size n' = enc_size n"
  using put_fields_at [OF assms(1), of "[(x, w)]" j] assms by (cases c) auto

lemma am_nack_size_pos: "2 \<le> am_nack_size e s t u v"
  by (simp add: am_nack_size_def Let_def)

lemma am_range_bytes_eq: "am_cfg e \<Longrightarrow> am_range_bytes e s t u v = am_nack_size e s t u v"
  by (auto simp: am_range_bytes_def am_nack_size_def am_cfg_def Let_def)

lemma am_put_nack_fields:
  "am_put_nack e s t u v c n0 =
     (let e2 = \<not> (t = 0 \<and> v = 65535); e3 = (s \<noteq> u)
      in res_bind (put_fields [(s, am_sn_field_length e), (0, 1), (of_bool e2, 1), (of_bool e3, 1),
                    (0, if am_sn_field_length e = 18 then 3 else 1)] n0) (\<lambda>n1.
         res_bind (put_fields (if e2 then [(t, 16)] else []) n1) (\<lambda>n2.
         res_bind (put_fields (if e2 then [(v, 16)] else []) n2) (\<lambda>n3.
         res_bind (put_fields (if e3 then [(c, 8)] else []) n3) (\<lambda>n4.
         Inr (n4, if e2 then Some (enc_byte n2) else None, if e3 then s + c - 1 else s))))))"
  unfolding am_put_nack_def Let_def
  by (simp add: res_bind_assoc)

lemma am_put_nack_ok:
  assumes cfg: "am_cfg e" and n0: "enc_at n0 k" and room: "int k + am_nack_size e s t u v \<le> int (enc_size n0)"
  shows "\<exists>n' adr last. am_put_nack e s t u v c n0 = Inr (n', adr, last) \<and>
    enc_at n' (k + nat (am_nack_size e s t u v)) \<and> enc_size n' = enc_size n0 \<and>
    (\<forall>a. adr = Some a \<longrightarrow> Suc a < enc_byte n')"
proof -
  let ?len = "am_sn_field_length e" and ?e2 = "\<not> (t = 0 \<and> v = 65535)" and ?e3 = "s \<noteq> u"
  let ?h = "2 + of_bool (?len = 18) :: nat"
  have len: "?len = 12 \<or> ?len = 18" using cfg by (simp add: am_cfg_def)
  have sz: "nat (am_nack_size e s t u v) = ?h + (if ?e2 then 2 else 0) + (if ?e2 then 2 else 0) + (if ?e3 then 1 else 0)"
    by (auto simp: am_nack_size_def Let_def)
  let ?H = "[(s, ?len), (0, 1), (of_bool ?e2, 1), (of_bool ?e3, 1), (0, if ?len = 18 then 3 else 1)]"
  have r: "k + nat (am_nack_size e s t u v) \<le> enc_size n0" using room am_nack_size_pos [of e s t u v] by linarith
  obtain n1 where n1: "put_fields ?H n0 = Inr n1" "enc_at n1 (k + ?h)" "enc_size n1 = enc_size n0"
    using put_fields_at [OF n0, of ?H ?h] len r sz by auto
  obtain n2 where n2: "put_fields (if ?e2 then [(t, 16)] else []) n1 = Inr n2"
    "enc_at n2 (k + ?h + (if ?e2 then 2 else 0))" "enc_size n2 = enc_size n0"
    using put_opt_at [OF n1(2), of 16 2 ?e2 t] r sz n1(3) by auto
  obtain n3 where n3: "put_fields (if ?e2 then [(v, 16)] else []) n2 = Inr n3"
    "enc_at n3 (k + ?h + (if ?e2 then 2 else 0) + (if ?e2 then 2 else 0))" "enc_size n3 = enc_size n0"
    using put_opt_at [OF n2(2), of 16 2 ?e2 v] r sz n2(3) by auto
  obtain n4 where n4: "put_fields (if ?e3 then [(c, 8)] else []) n3 = Inr n4"
    "enc_at n4 (k + ?h + (if ?e2 then 2 else 0) + (if ?e2 then 2 else 0) + (if ?e3 then 1 else 0))" "enc_size n4 = enc_size n0"
    using put_opt_at [OF n3(2), of 8 1 ?e3 c] r sz n3(3) by auto
  have "am_put_nack e s t u v c n0 = Inr (n4, if ?e2 then Some (enc_byte n2) else None, if ?e3 then s + c - 1 else s)"
    unfolding am_put_nack_fields Let_def n1(1) res_bind_Inr n2(1) n3(1) n4(1) by (rule refl)
  moreover have "enc_at n4 (k + nat (am_nack_size e s t u v))" using n4(2) unfolding sz by (simp add: add.assoc)
  moreover have "Suc (enc_byte n2) < enc_byte n4" if ?e2
    using that enc_atD(3) [OF n2(2)] enc_atD(3) [OF n4(2)] by simp
  ultimately show ?thesis using n4(3) by auto
qed

section \<open>All NACKs of a hole\<close>

definition gen_ok :: "am_gen \<Rightarrow> bool" where
  "gen_ok g \<longleftrightarrow> enc_at (gn_enc g) (enc_byte (gn_enc g)) \<and> gn_e1_byte g < enc_byte (gn_enc g) \<and>
     (\<forall>a. gn_so_end_address g = Some a \<longrightarrow> Suc a < enc_byte (gn_enc g))"

lemma enc_at_buffer [simp]:
  "length b = length (enc_buffer n) \<Longrightarrow> enc_at (n\<lparr>enc_buffer := b\<rparr>) k = enc_at n k"
  by (simp add: enc_at_def enc_ok_def enc_pos_def)

text \<open>\<open>generate_missing\<close> and \<open>missing_size\<close> in step.\<close>

lemma am_generate_missing_loop_ok:
  assumes "am_cfg e" and "gen_ok g" and "0 \<le> cnt" and "nat cnt < n"
  shows "\<exists>ln tr g' rc. am_generate_missing_loop n e m s cnt l g = Inr (ln, tr, g') \<and>
    am_missing_size_loop n e m s cnt rc0 (int (enc_byte (gn_enc g))) (int (enc_size (gn_enc g))) =
      Inr (rc, tr, int (enc_byte (gn_enc g'))) \<and>
    gen_ok g' \<and> enc_size (gn_enc g') = enc_size (gn_enc g) \<and> rc0 \<le> rc \<and> (rc = rc0 \<longrightarrow> tr \<or> cnt = 0)"
  using assms
proof (induction n arbitrary: s cnt l g rc0)
  case (Suc n)
  show ?case
  proof (cases "cnt = 0")
    case True
    then have "am_generate_missing_loop (Suc n) e m s cnt l g = Inr (l, False, g)"
      "am_missing_size_loop (Suc n) e m s cnt rc0 (int (enc_byte (gn_enc g))) (int (enc_size (gn_enc g))) =
        Inr (rc0, False, int (enc_byte (gn_enc g)))" by simp_all
    with True Suc.prems(2) show ?thesis by blast
  next
    case False
    obtain c t u v where rg: "am_nack_range e m s cnt = (c, t, u, v)" by (metis prod_cases4)
    have c: "0 < c" "c \<le> cnt" using rg False Suc.prems(3) by (auto simp: am_nack_range_def Let_def split: if_splits)
    let ?enc = "gn_enc g" and ?sz = "am_nack_size e s t u v"
    show ?thesis
    proof (cases "int (enc_byte ?enc) + ?sz > int (enc_size ?enc)")
      case True
      with False rg Suc.prems(2) show ?thesis by auto
    next
      case room: False
      define enc1 where "enc1 = ?enc\<lparr>enc_buffer := (enc_buffer ?enc)[gn_e1_byte g :=
         enc_buffer ?enc ! gn_e1_byte g OR push_bit (gn_e1_bit g) 1]\<rparr>"
      obtain b1 b2 where e1: "am_get_e1_position e enc1 = (b1, b2)" by fastforce
      have at: "enc_at enc1 (enc_byte ?enc)" and sz: "enc_size enc1 = enc_size ?enc" "enc_byte enc1 = enc_byte ?enc"
        using Suc.prems(2) by (simp_all add: enc1_def gen_ok_def)
      from am_put_nack_ok [OF Suc.prems(1) at, of s t u v c] room sz obtain enc2 adr last where
        p: "am_put_nack e s t u v c enc1 = Inr (enc2, adr, last)" "enc_at enc2 (enc_byte ?enc + nat ?sz)"
          "enc_size enc2 = enc_size ?enc" "\<forall>a. adr = Some a \<longrightarrow> Suc a < enc_byte enc2" by auto
      define g1 where "g1 = \<lparr>gn_enc = enc2, gn_e1_byte = b1, gn_e1_bit = b2, gn_so_end_address = adr\<rparr>"
      have eb: "enc_byte enc2 = enc_byte ?enc + nat ?sz" by (rule enc_atD(3) [OF p(2)])
      have "b1 < enc_byte enc2"
        using e1 sz am_nack_size_pos [of e s t u v] eb
        by (auto simp: am_get_e1_position_def am_nack_size_def Let_def split: if_splits)
      then have g1: "gen_ok g1" using p eb by (simp add: gen_ok_def g1_def)
      have gen: "am_generate_missing_loop (Suc n) e m s cnt l g =
          am_generate_missing_loop n e m ((s + c) mod am_sn_modulus e) (cnt - c) last g1"
        using False room
        by (simp only: am_generate_missing_loop.simps rg prod.case Let_def enc1_def [symmetric] e1 p(1) res_bind_Inr
            g1_def if_False simp_thms)
      have "am_missing_size_loop (Suc n) e m s cnt rc0 (int (enc_byte ?enc)) (int (enc_size ?enc)) =
          am_missing_size_loop n e m ((s + c) mod am_sn_modulus e) (cnt - c) (rc0 + 1)
            (int (enc_byte (gn_enc g1))) (int (enc_size (gn_enc g1)))"
        using False room rg am_nack_size_pos [of e s t u v] p(3) eb
        by (simp add: am_range_bytes_eq [OF Suc.prems(1)] g1_def)
      moreover obtain ln tr g' rc where
        "am_generate_missing_loop n e m ((s + c) mod am_sn_modulus e) (cnt - c) last g1 = Inr (ln, tr, g')"
        "am_missing_size_loop n e m ((s + c) mod am_sn_modulus e) (cnt - c) (rc0 + 1)
            (int (enc_byte (gn_enc g1))) (int (enc_size (gn_enc g1))) = Inr (rc, tr, int (enc_byte (gn_enc g')))"
        "gen_ok g'" "enc_size (gn_enc g') = enc_size (gn_enc g1)" "rc0 + 1 \<le> rc"
        using Suc.IH [OF Suc.prems(1) g1, of "cnt - c" "(s + c) mod am_sn_modulus e" last "rc0 + 1"] c Suc.prems(4)
        by fastforce
      ultimately show ?thesis using gen p(3) by (fastforce simp: g1_def)
    qed
  qed
qed simp

lemma am_generate_missing_ok:
  assumes "am_cfg e" and "gen_ok g"
  shows "\<exists>ln tr g' rc. am_generate_missing e m g = Inr (ln, tr, g') \<and>
    am_missing_size e m (int (enc_byte (gn_enc g))) (int (enc_size (gn_enc g))) = Inr (rc, tr, int (enc_byte (gn_enc g'))) \<and>
    gen_ok g' \<and> enc_size (gn_enc g') = enc_size (gn_enc g) \<and> 0 \<le> rc \<and> (rc = 0 \<longrightarrow> tr)"
proof -
  have "0 < am_missing_count e m" using am_cfgD [OF assms(1)] by (simp add: am_missing_count_def pos_mod_sign add_pos_nonneg)
  then show ?thesis
    using am_generate_missing_loop_ok [OF assms, of "am_missing_count e m" "Suc (nat (am_missing_count e m))" m
        "md_sn_start m" "-1" 0]
    unfolding am_generate_missing_def am_missing_size_def by (auto simp del: am_generate_missing_loop.simps am_missing_size_loop.simps)
qed

section \<open>The walk over the reception list\<close>

lemma am_next_missing_loop_shorter:
  "md_sn_start (am_next_missing_loop e p rest mx lr) \<noteq> -1 \<Longrightarrow>
   length (md_next (am_next_missing_loop e p rest mx lr)) \<le> length rest"
proof (induction e p rest mx lr rule: am_next_missing_loop.induct)
  case (2 e cur nxt rest mx lr)
  then show ?case
    by (auto simp: Let_def md_none_def am_set_end_different_sdu_def split: if_splits prod.splits intro: le_SucI)
qed (auto simp: Let_def md_none_def split: if_splits prod.splits)

lemma am_next_missing_shorter:
  "md_sn_start (am_next_missing e p rest ch) \<noteq> -1 \<Longrightarrow>
   length (md_next (am_next_missing e p rest ch)) \<le> length rest + of_bool ch"
  using am_next_missing_loop_shorter [of e p rest 0 False]
  by (auto simp: am_next_missing_def md_none_def am_set_end_different_sdu_def Let_def split: if_splits)

lemma am_generate_status_loop_ok:
  assumes "am_cfg e" and "gen_ok g" and "length cur + of_bool ch < n" and "0 \<le> nc" and "cur \<noteq> [] \<Longrightarrow> ch \<longleftrightarrow> nc = 0"
  shows "\<exists>ln g'. am_generate_status_loop n e cur ch l g = Inr (ln, g') \<and>
    am_status_size_loop n e cur nc (int (enc_byte (gn_enc g))) (int (enc_size (gn_enc g))) = Inr (int (enc_byte (gn_enc g'))) \<and>
    gen_ok g' \<and> enc_size (gn_enc g') = enc_size (gn_enc g)"
  using assms
proof (induction n arbitrary: cur ch l g nc)
  case (Suc n)
  show ?case
  proof (cases cur)
    case Nil
    with Suc.prems show ?thesis by simp
  next
    case (Cons p rest)
    define m where "m = am_next_missing e p rest ch"
    have m': "am_next_missing e p rest (nc = 0) = m" using Suc.prems(5) Cons by (simp add: m_def)
    show ?thesis
    proof (cases "md_sn_start m = -1")
      case True
      then show ?thesis using Cons Suc.prems(2) m' by (simp add: m_def)
    next
      case False
      obtain ln tr g1 rc where g1: "am_generate_missing e m g = Inr (ln, tr, g1)"
        "am_missing_size e m (int (enc_byte (gn_enc g))) (int (enc_size (gn_enc g))) = Inr (rc, tr, int (enc_byte (gn_enc g1)))"
        "gen_ok g1" "enc_size (gn_enc g1) = enc_size (gn_enc g)" "0 \<le> rc" "rc = 0 \<longrightarrow> tr"
        using am_generate_missing_ok [OF Suc.prems(1,2)] by blast
      define g2 where "g2 = (case gn_so_end_address g1 of
          Some a \<Rightarrow> if tr then g1\<lparr>gn_enc := (gn_enc g1)\<lparr>enc_buffer :=
             (enc_buffer (gn_enc g1))[a := 0xff, Suc a := 0xff]\<rparr>\<rparr> else g1
        | None \<Rightarrow> g1)"
      have g2: "gen_ok g2" "enc_byte (gn_enc g2) = enc_byte (gn_enc g1)" "enc_size (gn_enc g2) = enc_size (gn_enc g)"
        using g1(3,4) by (auto simp: g2_def gen_ok_def split: option.split)
      let ?cur = "if tr then [] else md_next m"
      have "length ?cur + of_bool False < n"
        using am_next_missing_shorter [OF False [unfolded m_def]] Suc.prems(3) Cons by (auto simp: m_def)
      from Suc.IH [OF Suc.prems(1) g2(1) this, of "nc + rc" "if ln \<noteq> -1 then ln else l"] g1(5,6) Suc.prems(4)
      obtain ln' g' where "am_generate_status_loop n e ?cur False (if ln \<noteq> -1 then ln else l) g2 = Inr (ln', g')"
        "am_status_size_loop n e ?cur (nc + rc) (int (enc_byte (gn_enc g2))) (int (enc_size (gn_enc g2))) =
           Inr (int (enc_byte (gn_enc g')))" "gen_ok g'" "enc_size (gn_enc g') = enc_size (gn_enc g2)"
        by fastforce
      then show ?thesis using Cons False g1(1,2) g2(2,3) m'
        by (simp add: m_def [symmetric] g2_def [symmetric])
    qed
  qed
qed simp

lemma am_generate_status_ok:
  assumes cfg: "am_cfg e"
  shows "\<exists>n b' e'. am_generate_status b e = Inr (n, b', e') \<and> am_status_size e (int (length b)) = Inr n \<and>
    0 \<le> n \<and> n \<le> int (length b) \<and> length b' = length b \<and> same_tx e e' \<and> same_rx e e'"
proof (cases "length b < 3")
  case True
  then show ?thesis by (simp add: am_generate_status_def am_status_size_def)
next
  case False
  have at: "enc_at (nr_rlc_pdu_encoder_init b) 0" by (simp add: enc_at_def)
  obtain enc where enc: "put_fields [(0, 24)] (nr_rlc_pdu_encoder_init b) = Inr enc" "enc_at enc 3" "enc_size enc = length b"
    using put_fields_at [OF at, of "[(0, 24)]" 3] False by auto
  define g where "g = \<lparr>gn_enc = enc, gn_e1_byte = 2, gn_e1_bit = (if am_sn_field_length e = 18 then 1 else 7),
     gn_so_end_address = None\<rparr>"
  have eb: "enc_byte enc = 3" using enc_atD(3) [OF enc(2)] .
  then have g: "gen_ok g" using enc(2) by (simp add: gen_ok_def g_def)
  have put: "nr_rlc_pdu_encoder_put_bits (nr_rlc_pdu_encoder_init b) 0 (8 * 3) = Inr enc"
    using enc(1) by (simp add: res_bind_eq_Inr)
  define l where "l = (am_rx_next e - 1 + am_sn_modulus e) mod am_sn_modulus e"
  from am_generate_status_loop_ok [OF cfg g, of "am_rx_list e" True "Suc (Suc (length (am_rx_list e)))" 0 l]
  obtain ln g' where g': "am_generate_status_loop (Suc (Suc (length (am_rx_list e)))) e (am_rx_list e) True l g = Inr (ln, g')"
    "am_status_size_loop (Suc (Suc (length (am_rx_list e)))) e (am_rx_list e) 0 3 (int (length b)) = Inr (int (enc_byte (gn_enc g')))"
    "gen_ok g'" "enc_size (gn_enc g') = length b"
    using enc(3) eb by (auto simp: g_def)
  have "enc_size (gn_enc g') = length (enc_buffer (gn_enc g'))" "enc_byte (gn_enc g') \<le> enc_size (gn_enc g')"
    using enc_atD(4,5) [of "gn_enc g'"] g'(3) by (auto simp: gen_ok_def)
  note len = this
  let ?b = "am_put_ack_sn e ((ln + 1) mod am_sn_modulus e) (enc_buffer (gn_enc g'))"
  have "length ?b = length b" using len(1) g'(4) by (simp add: am_put_ack_sn_def)
  moreover have "\<exists>e'. am_generate_status b e = Inr (int (enc_byte (gn_enc g')), ?b, e') \<and> same_tx e e' \<and> same_rx e e'"
    unfolding am_generate_status_def put g_def [symmetric] l_def [symmetric] Let_def res_bind_Inr g'(1) prod.case
    using False by (simp add: same_tx_def same_rx_def)
  moreover have "am_status_size e (int (length b)) = Inr (int (enc_byte (gn_enc g')))"
    using False g'(2) by (simp add: am_status_size_def del: am_status_size_loop.simps)
  ultimately show ?thesis using len(2) g'(4) by auto
qed

end
