(* ===== verification/RlcAmTimers.thy ===== *)
theory RlcAmTimers
  imports RlcAmCtrlInv
begin

text \<open>
  The timers of the AM entity, discard and re-establishment keep the invariants.
\<close>

section \<open>t-PollRetransmit\<close>

lemma am_pop_wait:
  assumes inv: "am_tx_inv L e" and w: "am_wait_list e = s # rest"
  shows "am_pending s L (e\<lparr>am_wait_list := rest, am_wait_end := end_of rest\<rparr>)" (is "am_pending s L ?e")
proof -
  note f = am_tx_invD(5) [OF inv, unfolded am_flow_def w]
  have sn: "am_sn_of ?e = am_sn_of e" by (simp add: am_sn_of_def fun_eq_iff)
  have "flow (am_sn_modulus e) (am_window_size e) (am_tx_next_ack e) (am_tx_next e) (am_sn_of e)
     (am_tx_list e) rest (am_retransmit_list e)"
    by (rule flow_shrink [OF f]) (use flowD(11,12) [OF f] in auto)
  then have "am_flow ?e" by (simp add: am_flow_def sn)
  moreover have "am_acct L ?e" by (rule am_acct_frame [OF am_tx_invD(6) [OF inv]]) simp_all
  moreover have "segs_inv (am_heap ?e) (add_mset s (am_segs ?e + L))"
    using am_tx_invD(2) [OF inv] by (simp add: am_segs_def w)
  moreover have "am_cfg ?e" using am_tx_invD(1) [OF inv] by (simp add: am_cfg_def)
  moreover have infl: "in_flight (am_sn_modulus e) (am_tx_next_ack e) (am_tx_next e) (am_sn_of e s)"
    using flowD(6) [OF f, of s] by simp
  moreover have "seg_sdu s = seg_sdu t" if "t \<in># am_segs ?e" "am_sn_of e s = am_sn_of e t" for t
  proof -
    have "t \<in> set (am_tx_list e) \<union> set (s # rest) \<union> set (am_retransmit_list e)" using that(1) by (auto simp: am_segs_def)
    moreover have "am_sn_of e s \<noteq> -1" using infl by (auto simp: in_flight_def)
    ultimately show ?thesis by (intro sn_uniqueD [OF flowD(10) [OF f] _ _ that(2)]) simp_all
  qed
  ultimately show ?thesis using am_tx_invD(3) [OF inv] unfolding am_pending_def sn by simp
qed

lemma am_sn_of_retx_size [simp]: "am_sn_of (am_retx_size_add n e) = am_sn_of e"
  by (simp add: am_sn_of_def fun_eq_iff)

lemma am_pending_retx:
  assumes p: "am_pending s L e"
  defines "e1 \<equiv> am_retx_size_add (am_seg_pdu_size e s) e"
  shows "am_tx_inv L (e1\<lparr>am_retransmit_list := nr_rlc_tx_sdu_segment_list_add e1 (am_retransmit_list e1) s\<rparr>)" (is "am_tx_inv L ?e")
proof -
  let ?l = "nr_rlc_tx_sdu_segment_list_add e1 (am_retransmit_list e1) s"
  note f = am_pending_flow [OF p]
  have sn: "am_sn_of e1 = am_sn_of e" "am_sn_of ?e = am_sn_of e" by (simp_all add: am_sn_of_def fun_eq_iff e1_def)
  have srt: "sorted_wrt (am_before e1) ?l"
    by (rule tx_list_add_sorted) (use flowD(12) [OF f(1)] f(2,3) am_pending_comparable [OF p] in \<open>auto simp: sn e1_def\<close>)
  have "flow (am_sn_modulus e) (am_window_size e) (am_tx_next_ack e) (am_tx_next e) (am_sn_of e)
     (am_tx_list e) (am_wait_list e) ?l"
    using p srt by (intro flow_add(2) [OF f(1), of s]) (auto simp: am_pending_def am_segs_def sn e1_def)
  then have "am_flow ?e" by (simp add: am_flow_def sn e1_def)
  moreover have "am_segs ?e = add_mset s (am_segs e)" by (simp add: am_segs_def e1_def)
  moreover have "list_bytes len ?l = seg_bytes len s + list_bytes len (am_retransmit_list e)" for len
  proof -
    have "mset (map (seg_bytes len) ?l) = mset (map (seg_bytes len) (s # am_retransmit_list e))" by (simp add: e1_def)
    then have "sum_list (map (seg_bytes len) ?l) = sum_list (map (seg_bytes len) (s # am_retransmit_list e))"
      by (metis sum_mset_sum_list)
    then show ?thesis by (simp add: list_bytes_def)
  qed
  then have "am_acct L ?e"
    using p by (simp add: am_acct_def am_pending_def e1_def am_seg_pdu_size_eq)
  ultimately show ?thesis using p by (simp add: am_tx_inv_def am_pending_def am_cfg_def e1_def)
qed

lemma am_poll_retx_loop_inv:
  assumes "am_tx_inv L e" and "am_wait_list e = s # rest"
  shows "am_tx_inv L (am_poll_retx_loop sn s rest e) \<and> same_rx e (am_poll_retx_loop sn s rest e)"
  using assms
proof (induction sn s rest e rule: am_poll_retx_loop.induct)
  case (1 sn s rest e)
  define e1 where "e1 = e\<lparr>am_wait_list := rest, am_wait_end := (if rest = [] then None else am_wait_end e)\<rparr>"
  define e3 where "e3 = (am_retx_size_add (am_seg_pdu_size e1 s) e1)
    \<lparr>am_retransmit_list := nr_rlc_tx_sdu_segment_list_add (am_retx_size_add (am_seg_pdu_size e1 s) e1)
       (am_retransmit_list (am_retx_size_add (am_seg_pdu_size e1 s) e1)) s\<rparr>"
  have "e1 = e\<lparr>am_wait_list := rest, am_wait_end := end_of rest\<rparr>"
    using am_tx_invD(4) [OF 1(2)] 1(3) by (simp add: e1_def end_of_def)
  then have "am_pending s L e1" using am_pop_wait [OF 1(2,3)] by simp
  then have i3: "am_tx_inv L e3" unfolding e3_def by (rule am_pending_retx)
  have w3: "am_wait_list e3 = rest" "same_rx e e3" by (simp_all add: e3_def e1_def same_rx_def am_retx_size_add_def)
  have eq: "am_poll_retx_loop sn s rest e = (case rest of [] \<Rightarrow> e3
      | c # cs \<Rightarrow> if seg_sn (am_heap e3) c = sn then am_poll_retx_loop sn c cs e3 else e3)"
    by (subst am_poll_retx_loop.simps) (simp only: Let_def e1_def [symmetric] e3_def [symmetric])
  show ?case
  proof (cases rest)
    case Nil
    have "am_poll_retx_loop sn s rest e = e3" by (rule trans [OF eq]) (simp add: Nil)
    with i3 w3 show ?thesis by metis
  next
    case (Cons c cs)
    have "am_tx_inv L (am_poll_retx_loop sn c cs e3) \<and> same_rx e3 (am_poll_retx_loop sn c cs e3)"
      if "seg_sn (am_heap e3) c = sn"
      by (rule 1(1) [OF e1_def refl, unfolded e3_def [symmetric], OF refl Cons that i3]) (simp add: w3 Cons)
    moreover have "am_poll_retx_loop sn s rest e = (if seg_sn (am_heap e3) c = sn then am_poll_retx_loop sn c cs e3 else e3)"
      by (rule trans [OF eq]) (simp only: Cons list.case)
    ultimately show ?thesis using i3 w3 same_rx_trans [OF w3(2)] by presburger
  qed
qed

text \<open>
  The timer expires with nothing to wait for and a poll to send: the one case in which the code
  dereferences the empty wait list.
\<close>

definition am_poll_retx_safe :: "u64 \<Rightarrow> nr_rlc_entity_am \<Rightarrow> bool" where
  "am_poll_retx_safe now e \<longleftrightarrow> am_wait_list e \<noteq> [] \<or> am_t_poll_retransmit_start e = 0 \<or>
     now \<le> am_t_poll_retransmit_start e + word_of_int (am_t_poll_retransmit e) \<or>
     \<not> am_check_poll_after_pdu_assembly e"

lemma am_check_poll_frame:
  "am_check_poll_after_pdu_assembly (e\<lparr>am_t_poll_retransmit_start := t, am_force_poll := b\<rparr>) = am_check_poll_after_pdu_assembly e"
  by (simp add: am_check_poll_after_pdu_assembly_def am_is_window_stalling_def am_sn_compare_tx_def am_modulus_tx_def Let_def)

lemma am_check_t_poll_retransmit_inv:
  assumes inv: "am_tx_inv L e" and safe: "am_poll_retx_safe (am_t_current e) e"
  shows "\<exists>e'. am_check_t_poll_retransmit e = Inr e' \<and> am_tx_inv L e' \<and> same_rx e e'"
proof -
  define e1 where "e1 = e\<lparr>am_t_poll_retransmit_start := 0, am_force_poll := True\<rparr>"
  have f1: "same_tx e e1" "same_rx e e1" "am_wait_list e1 = am_wait_list e"
    "am_check_poll_after_pdu_assembly e1 = am_check_poll_after_pdu_assembly e"
    by (simp_all add: e1_def same_tx_def same_rx_def am_check_poll_frame)
  have i1: "am_tx_inv L e1" by (rule am_tx_inv_same [OF inv f1(1)])
  show ?thesis
  proof (cases "am_t_poll_retransmit_start e = 0 \<or>
      am_t_current e \<le> am_t_poll_retransmit_start e + word_of_int (am_t_poll_retransmit e)")
    case True
    with inv show ?thesis by (simp add: am_check_t_poll_retransmit_def)
  next
    case on: False
    show ?thesis
    proof (cases "am_check_poll_after_pdu_assembly e1")
      case False
      with on i1 f1(2) show ?thesis by (simp add: am_check_t_poll_retransmit_def e1_def)
    next
      case True
      with safe on f1(4) obtain s rest where w: "am_wait_list e1 = s # rest"
        by (cases "am_wait_list e") (auto simp: am_poll_retx_safe_def f1)
      define e2 where "e2 = e1\<lparr>am_heap := heap_upd (seg_sdu s) (sdu_retx_count_update (\<lambda>n. n + 1)) (am_heap e1)\<rparr>"
      have sn: "am_sn_of e2 = am_sn_of e1" by (rule ext) (simp add: e2_def am_sn_of_def sdu_of_def split: option.split)
      have "am_flow e2" using am_tx_invD(5) [OF i1] unfolding am_flow_def sn by (simp add: e2_def)
      moreover have "segs_inv (am_heap e2) (am_segs e1 + L)"
        using segs_inv_upd [OF am_tx_invD(2) [OF i1]] by (simp add: e2_def)
      moreover have "am_segs e2 = am_segs e1" by (simp add: e2_def am_segs_def)
      moreover have "am_acct L e2" by (rule am_acct_frame [OF am_tx_invD(6) [OF i1]]) (simp_all add: e2_def heap_upd_bytes)
      ultimately have i2: "am_tx_inv L e2" using am_tx_invD [OF i1] by (simp add: am_tx_inv_def e2_def am_cfg_def)
      define e3 where "e3 = am_poll_retx_loop (seg_sn (am_heap e2) s) s rest e2"
      have i3: "am_tx_inv L e3" "same_rx e2 e3" using am_poll_retx_loop_inv [OF i2, of s rest] w by (simp_all add: e3_def e2_def)
      define e4 where "e4 = (if sdu_retx_count (sdu_of (am_heap e2) s) \<ge> am_max_retx_threshold e3
         then e3\<lparr>am_common := emit MaxRetxReached (am_common e3)\<rparr> else e3)"
      have "same_tx e3 e4" "same_rx e3 e4" by (simp_all add: e4_def same_tx_def same_rx_def)
      moreover have "same_rx e1 e2" by (simp add: e2_def same_rx_def)
      moreover have "am_check_t_poll_retransmit e = Inr e4"
        using on True w
        by (simp only: am_check_t_poll_retransmit_def Let_def e1_def [symmetric] if_False if_True simp_thms list.case
            e2_def [symmetric] e3_def [symmetric] e4_def [symmetric])
      ultimately show ?thesis using am_tx_inv_same [OF i3(1)] f1(2) i3(2) by (meson same_rx_trans)
    qed
  qed
qed

section \<open>t-Reassembly\<close>

lemma am_check_t_reassembly_inv:
  assumes inv: "am_rx_inv e"
  shows "\<exists>e'. am_check_t_reassembly e = Inr e' \<and> am_rx_inv e' \<and> same_tx e e'"
proof (cases "am_t_reassembly_start e = 0 \<or>
      am_t_current e \<le> am_t_reassembly_start e + word_of_int (am_t_reassembly e)")
  case True
  with inv show ?thesis by (simp add: am_check_t_reassembly_def)
next
  case False
  have "am_valid_sn e (am_rx_next_status_trigger e)" using inv by (simp add: am_rx_inv_def)
  from am_skip_delivered [OF inv this] obtain sn where
    sn: "skip_delivered (am_rx_list e) (am_sn_modulus e) (am_rx_next_status_trigger e) = Inr sn" "am_valid_sn e sn" by blast
  define e1 where "e1 = e\<lparr>am_t_reassembly_start := 0, am_rx_highest_status := sn, am_status_triggered := True\<rparr>"
  have i1: "am_rx_inv e1" using inv sn(2) unfolding am_rx_inv_def by (simp add: e1_def)
  let ?e2 = "e1\<lparr>am_t_reassembly_start := am_t_current e1, am_rx_next_status_trigger := am_rx_next_highest e1\<rparr>"
  have i2: "am_rx_inv ?e2" using i1 unfolding am_rx_inv_def by simp
  have "\<exists>e' \<in> {e1, ?e2}. am_check_t_reassembly e = Inr e'"
    using False sn(1) by (simp add: am_check_t_reassembly_def Let_def e1_def)
  then show ?thesis using i1 i2 by (auto simp: e1_def same_tx_def)
qed

lemma am_set_time_inv:
  assumes tx: "am_tx_inv L e" and rx: "am_rx_inv e" and safe: "am_poll_retx_safe now e"
  shows "\<exists>e'. nr_rlc_entity_am_set_time now e = Inr e' \<and> am_tx_inv L e' \<and> am_rx_inv e'"
proof -
  let ?e = "e\<lparr>am_t_current := now\<rparr>"
  have f: "same_tx e ?e" "same_rx e ?e" by (simp_all add: same_tx_def same_rx_def)
  have "am_check_poll_after_pdu_assembly ?e = am_check_poll_after_pdu_assembly e"
    by (simp add: am_check_poll_after_pdu_assembly_def am_is_window_stalling_def am_sn_compare_tx_def am_modulus_tx_def Let_def)
  then have "am_poll_retx_safe (am_t_current ?e) ?e" using safe by (simp add: am_poll_retx_safe_def)
  from am_check_t_poll_retransmit_inv [OF am_tx_inv_same [OF tx f(1)] this] obtain e1 where
    e1: "am_check_t_poll_retransmit ?e = Inr e1" "am_tx_inv L e1" "same_rx ?e e1" by blast
  have "am_rx_inv e1" using am_rx_inv_same [OF am_rx_inv_same [OF rx f(2)] e1(3)] .
  from am_check_t_reassembly_inv [OF this] e1 am_tx_inv_same [OF e1(2)] show ?thesis
    unfolding nr_rlc_entity_am_set_time_def by auto
qed

section \<open>Discard\<close>

text \<open>A segment that is a whole SDU is the only one of this SDU.\<close>

lemma whole_seg_alone:
  assumes inv: "segs_inv h (add_mset s M)" and w: "whole_seg s"
  shows "nsegs (seg_sdu s) M = 0"
proof (rule ccontr)
  assume "nsegs (seg_sdu s) M \<noteq> 0"
  then obtain t where t: "t \<in># M" "seg_sdu t = seg_sdu s"
    by (auto simp: nsegs_def filter_mset_eq_mempty_iff)
  then obtain N where N: "M = add_mset t N" by (metis multi_member_split)
  let ?M = "add_mset s M"
  have ok: "seg_ok h ?M s" "seg_ok h ?M t" using segs_invD(2) [OF inv] t by auto
  have "sdu_of h t = sdu_of h s" using t(2) by (simp add: sdu_of_def)
  moreover have "seg_size t \<noteq> 0" using ok(2) N t(2) by (simp add: seg_ok_def)
  ultimately have "seg_so s = 0" "0 \<le> seg_so t" "0 < seg_size t" "seg_so t + seg_size t \<le> seg_size s"
    using ok w by (simp_all add: seg_ok_def whole_seg_def)
  then have "cov (seg_sdu s) (seg_so t) ?M \<ge> 2" using t(2) by (simp add: N)
  with segs_invD(3) [OF inv, of "seg_sdu s" "seg_so t"] show False by linarith
qed

lemma am_discard_sdu_inv:
  assumes inv: "am_tx_inv L e"
  shows "am_tx_inv L (nr_rlc_entity_am_discard_sdu i e) \<and> same_rx e (nr_rlc_entity_am_discard_sdu i e)"
proof -
  define other where "other = (\<lambda>s. sdu_upper_layer_id (sdu_of (am_heap e) s) \<noteq> i)"
  define front where "front = takeWhile other (am_tx_list e)"
  show ?thesis
  proof (cases "dropWhile other (am_tx_list e)")
    case Nil
    then have "nr_rlc_entity_am_discard_sdu i e = e"
      unfolding nr_rlc_entity_am_discard_sdu_def Let_def other_def [symmetric] by (simp del: dropWhile_eq_Nil_conv)
    with inv show ?thesis by simp
  next
    case (Cons s after)
    have tx: "am_tx_list e = front @ s # after"
      using takeWhile_dropWhile_id [of other "am_tx_list e"] by (simp add: Cons front_def)
    show ?thesis
    proof (cases "whole_seg s")
      case False
      then have "nr_rlc_entity_am_discard_sdu i e = e" using Cons
        by (auto simp: nr_rlc_entity_am_discard_sdu_def other_def [symmetric] whole_seg_def)
      with inv show ?thesis by simp
    next
      case True
      obtain b h' where fr: "nr_rlc_free_sdu_segment s (am_heap e) = (b, h')" by fastforce
      let ?N = "mset (front @ after) + mset (am_wait_list e) + mset (am_retransmit_list e)"
      have segs: "am_segs e = add_mset s ?N" by (simp add: am_segs_def tx)
      have i: "segs_inv (am_heap e) (add_mset s (?N + L))" using am_tx_invD(2) [OF inv] by (simp add: segs)
      note f = free_segment_inv [OF segs_invD(1) [OF i] fr] and si = segs_inv_free [OF i fr]
      have b: "b" using f(2) whole_seg_alone [OF i True] by simp
      have sz: "0 \<le> sdu_size (sdu_of (am_heap e) s)" using segs_invD(2) [OF i, of s] by (simp add: seg_ok_def)
      have "distinct (front @ s # after)"
        using segs_inv_distinct [of "am_heap e" "front @ s # after" "mset (am_wait_list e) + mset (am_retransmit_list e) + L"] i
        by (simp add: ac_simps)
      then have en: "(if am_tx_end e = Some s then end_of front else am_tx_end e) = end_of (front @ after)"
        using am_tx_invD(3) [OF inv] tx last_in_set [of after] by (auto simp: end_of_def)
      define e' where "e' = nr_rlc_entity_am_discard_sdu i e"
      have e': "am_tx_list e' = front @ after" "am_tx_end e' = end_of (front @ after)" "am_heap e' = h'"
        "am_tx_size e' = am_tx_size e - sdu_size (sdu_of (am_heap e) s)" "am_tx_maxsize e' = am_tx_maxsize e"
        "am_wait_list e' = am_wait_list e" "am_wait_end e' = am_wait_end e" "am_retransmit_list e' = am_retransmit_list e"
        "am_tx_next e' = am_tx_next e" "am_tx_next_ack e' = am_tx_next_ack e" "am_cfg e' = am_cfg e"
        "am_sn_field_length e' = am_sn_field_length e" "am_sn_modulus e' = am_sn_modulus e" "am_window_size e' = am_window_size e"
        "tx_size (bstatus (am_common e')) = tx_size (bstatus (am_common e)) - seg_bytes (am_sn_field_length e) s"
        "retx_size (bstatus (am_common e')) = retx_size (bstatus (am_common e))" "same_rx e e'"
        using Cons True fr en
        by (simp_all add: e'_def nr_rlc_entity_am_discard_sdu_def other_def [symmetric] front_def [symmetric] whole_seg_def
            am_tx_size_add_def am_seg_pdu_size_eq am_cfg_def same_rx_def)
      have sn: "am_sn_of e' t = am_sn_of e t" if "t \<in># ?N" for t
        using f(3) that by (simp add: am_sn_of_def e' same_sdu_def)
      have "flow (am_sn_modulus e) (am_window_size e) (am_tx_next_ack e) (am_tx_next e) (am_sn_of e)
         (front @ after) (am_wait_list e) (am_retransmit_list e)"
        by (rule flow_shrink [OF am_tx_invD(5) [OF inv, unfolded am_flow_def]])
           (use flowD(11,12) [OF am_tx_invD(5) [OF inv, unfolded am_flow_def]] in
             \<open>cases front; auto simp: tx dest: in_set_tlD\<close>)+
      then have "flow (am_sn_modulus e) (am_window_size e) (am_tx_next_ack e) (am_tx_next e) (am_sn_of e')
         (front @ after) (am_wait_list e) (am_retransmit_list e)"
        by (rule flow_cong) (use sn in auto)
      then have "am_flow e'" by (simp add: am_flow_def e')
      moreover have "am_acct L e'" using am_tx_invD(6) [OF inv] f(4) b sz by (auto simp: am_acct_def e' tx)
      moreover have "segs_inv (am_heap e') (am_segs e' + L)" using si by (simp add: am_segs_def e')
      ultimately show ?thesis
        using am_tx_invD(1,4) [OF inv] e'(17) by (simp add: am_tx_inv_def e' e'_def [symmetric])
    qed
  qed
qed

section \<open>Re-establishment\<close>

lemma heap_bytes_none: "heap_inv h {#} \<Longrightarrow> heap_bytes h = 0"
proof -
  assume "heap_inv h {#}"
  then have "heap_map h a = None" for a by (cases "heap_map h a") (auto simp: heap_inv_def nsegs_def)
  then show ?thesis by (simp add: heap_bytes_def dom_def)
qed

lemma am_clear_entity_inv:
  assumes tx: "am_tx_inv L e" and rx: "am_rx_inv e"
  shows "am_tx_inv L (am_clear_entity e) \<and> am_rx_inv (am_clear_entity e)"
proof
  let ?e = "am_clear_entity e"
  have cfg: "am_cfg ?e" using am_tx_invD(1) [OF tx] by (simp add: am_clear_entity_def am_cfg_def)
  have "segs_inv (am_heap e) (mset (am_tx_list e) + (mset (am_wait_list e) + (mset (am_retransmit_list e) + L)))"
    using am_tx_invD(2) [OF tx] by (simp add: am_segs_def ac_simps)
  then have si: "segs_inv (am_heap ?e) L"
    unfolding am_clear_entity_def by (simp add: segs_inv_free_list)
  have "am_flow ?e"
    using am_cfgD [OF cfg] unfolding am_flow_def by (intro flowI) (simp_all add: am_clear_entity_def sn_unique_def)
  moreover have "am_acct L ?e"
    using am_tx_invD(6) [OF tx] heap_bytes_none [of "am_heap ?e"] segs_invD(1) [OF si]
    by (auto simp: am_acct_def am_clear_entity_def)
  moreover have "am_segs ?e = {#}" by (simp add: am_segs_def am_clear_entity_def)
  moreover have "am_tx_end ?e = end_of (am_tx_list ?e)" "am_wait_end ?e = end_of (am_wait_list ?e)"
    by (simp_all add: am_clear_entity_def)
  ultimately show "am_tx_inv L ?e" using cfg si by (simp add: am_tx_inv_def)
  have "0 \<le> rx_bytes (am_rx_list e)" using rx by (intro rx_bytes_nonneg) (auto simp: am_rx_inv_def rx_inv_def)
  then show "am_rx_inv ?e"
    using rx cfg am_cfgD(3) [OF cfg] by (auto simp: am_rx_inv_def am_clear_entity_def rx_inv_def rx_ends_ok_def rx_bytes_def
      rx_delivered_first_def)
qed

end
