(* ===== verification/RlcAmMachine.thy ===== *)
theory RlcAmMachine
  imports RlcAmStatus RlcAmTimers
begin

text \<open>
  The AM entity as a machine: every operation completes and keeps both halves of the invariant, so that
  any run does. This theory holds the properties of whole runs.
\<close>

section \<open>Operations\<close>

definition am_inv :: "segment multiset \<Rightarrow> nr_rlc_entity_am \<Rightarrow> bool" where
  "am_inv L e \<longleftrightarrow> am_tx_inv L e \<and> am_rx_inv e"

lemma am_inv_same:
  "am_inv L e \<Longrightarrow> am_tx_inv L' e' \<Longrightarrow> same_rx e e' \<Longrightarrow> am_inv L' e'"
  "am_inv L e \<Longrightarrow> am_rx_inv e' \<Longrightarrow> same_tx e e' \<Longrightarrow> am_inv L e'"
  using am_rx_inv_same am_tx_inv_same by (auto simp: am_inv_def)

lemma am_inv_new:
  assumes "new_nr_rlc_entity_am rx_max tx_max t1 t2 t3 pp pb thr len = Inr e" and "0 \<le> rx_max" "0 \<le> tx_max"
  shows "am_inv {#} e"
proof -
  obtain c where c: "common_new NR_RLC_AM = Inr c" "tx_size (bstatus c) = 0" "retx_size (bstatus c) = 0"
    using common_new_Inr [of NR_RLC_AM] by blast
  have len: "len = 12 \<or> len = 18" using assms(1) by (auto simp: new_nr_rlc_entity_am_def split: if_splits)
  have "am_tx_inv {#} e"
    using assms c len
    by (auto simp: new_nr_rlc_entity_am_def am_tx_inv_def am_cfg_def am_segs_def am_flow_def flow_def am_acct_def
        sn_unique_def Let_def)
  moreover have "am_rx_inv e"
    using assms c len
    by (auto simp: new_nr_rlc_entity_am_def am_rx_inv_def am_cfg_def rx_inv_def rx_delivered_first_def rx_ends_ok_def
        rx_bytes_def Let_def)
  ultimately show ?thesis by (simp add: am_inv_def)
qed

text \<open>\<open>generate_pdu\<close>: a status report, else a retransmission, else a new PDU.\<close>

lemma am_generate_pdu_inv:
  assumes inv: "am_inv L e"
  shows "\<exists>n b' e'. nr_rlc_entity_am_generate_pdu t b e = Inr (n, b', e') \<and> am_inv L e' \<and>
    0 \<le> n \<and> n \<le> int (length b) \<and> length b' = length b"
proof -
  have tx: "\<exists>n b' e'. am_generate_tx_pdu t b e = Inr (n, b', e') \<and> am_inv L e' \<and>
      0 \<le> n \<and> n \<le> int (length b) \<and> length b' = length b" if "am_inv L e" for b e
    using am_generate_tx_pdu_inv [of L e t b] am_inv_same(1) [OF that] that by (fastforce simp: am_inv_def)
  define retx where "retx = (\<lambda>b e. if am_retransmit_list e \<noteq> []
      then res_bind (am_generate_retx_pdu b e) (\<lambda>(ret, b', e').
           if ret \<noteq> 0 then Inr (ret, b', e') else am_generate_tx_pdu t b' e')
      else am_generate_tx_pdu t b e)"
  have rt: "\<exists>n b' e'. retx b e = Inr (n, b', e') \<and> am_inv L e' \<and> 0 \<le> n \<and> n \<le> int (length b) \<and> length b' = length b"
    if i: "am_inv L e" for b e
  proof (cases "am_retransmit_list e = []")
    case True
    then show ?thesis using tx [OF i, of b] by (simp add: retx_def)
  next
    case False
    obtain n b1 e1 where g: "am_generate_retx_pdu b e = Inr (n, b1, e1)" "am_tx_inv L e1" "same_rx e e1"
      "0 \<le> n" "n \<le> int (length b)" "length b1 = length b"
      using am_generate_retx_pdu_inv [OF _ False, of L b] i by (auto simp: am_inv_def)
    have "am_inv L e1" by (rule am_inv_same(1) [OF i g(2,3)])
    then show ?thesis using g False tx [of e1 b1] by (cases "n = 0") (auto simp: retx_def)
  qed
  have eq: "nr_rlc_entity_am_generate_pdu t b e =
    (if am_status_to_report e
     then res_bind (am_generate_status b e) (\<lambda>(ret, b', e'). if ret \<noteq> 0 then Inr (ret, b', e') else retx b' e')
     else retx b e)"
    unfolding nr_rlc_entity_am_generate_pdu_def Let_def retx_def by (rule refl)
  show ?thesis
  proof (cases "am_status_to_report e")
    case True
    obtain n b1 e1 where g: "am_generate_status b e = Inr (n, b1, e1)" "0 \<le> n" "n \<le> int (length b)"
      "length b1 = length b" "same_tx e e1" "same_rx e e1"
      using am_generate_status_ok [of e b] inv am_tx_invD(1) by (auto simp: am_inv_def)
    have "am_inv L e1" using am_inv_same(1) [OF inv am_tx_inv_same g(6)] inv g(5) by (auto simp: am_inv_def)
    with g True rt [of e1 b1] show ?thesis unfolding eq by (cases "n = 0") auto
  next
    case False
    with rt [OF inv, of b] show ?thesis unfolding eq by simp
  qed
qed

text \<open>
  What is admissible. A peer that follows the protocol sends segments that fit together and
  acknowledges only what was sent; the third condition excludes the null dereference of
  \<open>check_t_poll_retransmit\<close> (see \<open>am_poll_retransmit_crash\<close>).
\<close>

fun am_adm :: "rlc_op \<Rightarrow> nr_rlc_entity_am \<Rightarrow> bool" where
  "am_adm (RecvPdu b) e =
     (case nr_rlc_pdu_decoder_get_bits (nr_rlc_pdu_decoder_init b) 1 of
        Inr (dc, d) \<Rightarrow> if dc = 0 then am_ack_plausible b e else am_data_consistent b d e
      | Inl f \<Rightarrow> True)"
| "am_adm (SetTime now) e = am_poll_retx_safe now e"
| "am_adm op e = True"

lemma am_recv_pdu_inv:
  assumes inv: "am_inv L e" and adm: "am_adm (RecvPdu b) e"
  shows "\<exists>e' L'. nr_rlc_entity_am_recv_pdu b e = Inr e' \<and> am_inv (L + L') e'"
proof -
  define e1 where "e1 = am_count_rx rxpdu_pkts_update rxpdu_bytes_update (int (length b)) e"
  have f1: "same_tx e e1" "same_rx e e1" by (simp_all add: e1_def am_count_rx_def same_tx_def same_rx_def)
  have i1: "am_inv L e1" using inv am_tx_inv_same [OF _ f1(1)] am_rx_inv_same [OF _ f1(2)] by (simp add: am_inv_def)
  have ack: "am_ack_plausible b e1 = am_ack_plausible b e"
    using am_sn_compare_tx_frame [of e1 e]
    by (simp add: am_ack_plausible_def am_pdu_ack_sn_def e1_def am_count_rx_def am_sn_of_def)
  have len: "am_sn_field_length e1 = am_sn_field_length e" "am_rx_list e1 = am_rx_list e"
    using f1(2) by (simp_all add: same_rx_def)
  have con: "am_data_consistent b d e1 = am_data_consistent b d e" for d
    unfolding am_data_consistent_def am_parse_data_def len by (rule refl)
  obtain v d where gb: "nr_rlc_pdu_decoder_get_bits (nr_rlc_pdu_decoder_init b) 1 = Inr (v, d)"
    by (cases "get_bits_loop (nat 1) 0 (nr_rlc_pdu_decoder_init b)") (simp add: nr_rlc_pdu_decoder_get_bits_def)
  show ?thesis
  proof (cases "dec_error d")
    case True
    have "am_inv (L + {#}) (am_discard_pdu 0 (int (length b)) e1)"
      using am_inv_same(1) [OF i1, of L] am_tx_inv_same [of L e1] i1
      by (simp add: am_inv_def am_discard_pdu_def same_rx_def same_tx_def)
    with gb True show ?thesis unfolding nr_rlc_entity_am_recv_pdu_def Let_def e1_def [symmetric] R_bits_def by fastforce
  next
    case False
    then have ok: "dec_ok d" "dec_buffer d = b"
    proof -
      have "\<not> int (length (dec_rest (nr_rlc_pdu_decoder_init b))) < 1"
        using get_bits_short [of "nr_rlc_pdu_decoder_init b" 1] gb False by auto
      then have "0 < length (bytes_bits b)" by auto
      then obtain x rest where "dec_rest (nr_rlc_pdu_decoder_init b) = [x] @ rest" by (cases "bytes_bits b") auto
      from get_bits_ok [OF dec_ok_init this] gb show "dec_ok d" "dec_buffer d = b" by auto
    qed
    have eq: "nr_rlc_entity_am_recv_pdu b e = (if v = 0 then am_process_control_pdu b e1 else am_recv_data_pdu b d e1)"
      unfolding nr_rlc_entity_am_recv_pdu_def Let_def e1_def [symmetric] R_bits_def gb using False by simp
    show ?thesis
    proof (cases "v = 0")
      case True
      then have "am_ack_plausible b e1" using adm gb ack by simp
      with am_process_control_pdu_inv [of L e1 b] i1 am_inv_same(1) [OF i1] show ?thesis
        unfolding eq using True by (fastforce simp: am_inv_def)
    next
      case v: False
      then have "am_data_consistent b d e1" using adm gb con by simp
      from am_recv_data_inv [OF _ ok this] i1 obtain e' where
        e': "am_recv_data_pdu b d e1 = Inr e'" "am_rx_inv e'" "same_tx e1 e'" by (auto simp: am_inv_def)
      have "am_inv (L + {#}) e'" using am_inv_same(2) [OF i1 e'(2,3)] by simp
      then have "\<exists>L'. am_inv (L + L') e'" by (rule exI)
      with e'(1) v show ?thesis unfolding eq by simp
    qed
  qed
qed

lemma am_step_inv:
  assumes inv: "am_inv L e" and adm: "am_adm op e"
  shows "\<exists>e' L'. am_step t op e = Inr e' \<and> am_inv (L + L') e'"
proof -
  have keep: "\<exists>e' L'. am_step t op e = Inr e' \<and> am_inv (L + L') e'" if "\<exists>e'. am_step t op e = Inr e' \<and> am_inv L e'"
    using that by (metis add.right_neutral)
  show ?thesis
  proof (cases op)
    case (RecvSdu b i)
    then show ?thesis using am_recv_sdu_inv [of L e t b i] inv am_inv_same(1) [OF inv] by (intro keep) (auto simp: am_inv_def)
  next
    case (RecvPdu b)
    then show ?thesis using am_recv_pdu_inv [OF inv] adm by simp
  next
    case (GeneratePdu b)
    then show ?thesis using am_generate_pdu_inv [OF inv, of t b] by (intro keep) auto
  next
    case (SetTime now)
    then show ?thesis using am_set_time_inv [of L e now] inv adm by (intro keep) (auto simp: am_inv_def)
  next
    case (DiscardSdu i)
    then show ?thesis using am_discard_sdu_inv [of L e i] inv am_inv_same(1) [OF inv] by (intro keep) (auto simp: am_inv_def)
  next
    case Reestablishment
    then show ?thesis using am_clear_entity_inv [of L e] inv
      by (intro keep) (auto simp: am_inv_def nr_rlc_entity_am_reestablishment_def)
  qed
qed

interpretation am: rlc_machine am_step "\<lambda>e. \<exists>L. am_inv L e" am_adm
  by unfold_locales (use am_step_inv in blast)

section \<open>Properties of runs\<close>

lemma am_run_inv:
  assumes "new_nr_rlc_entity_am rx_max tx_max t1 t2 t3 pp pb thr len = Inr e" and "0 \<le> rx_max" "0 \<le> tx_max"
    and "rlc_adm_run am_step am_adm ops e"
  shows "\<exists>e' L. rlc_run am_step ops e = Inr e' \<and> am_inv L e'"
  using am.run_inv [of e ops] am_inv_new [OF assms(1-3)] assms(4) by blast

text \<open>A polling PDU is received, an SDU is sent in two segments, for the witnesses.\<close>

definition am_sample_run :: "(u64 \<times> rlc_op) list" where
  "am_sample_run = [(0, RecvPdu [0xC0, 0, 9, 9]), (0, RecvSdu [1, 2, 3, 4, 5] 7), (0, GeneratePdu [0, 0, 0, 0]),
     (0, GeneratePdu [0, 0, 0, 0]), (0, GeneratePdu [0, 0, 0, 0, 0, 0, 0, 0]), (0, DiscardSdu 7)]"

lemma am_adm_empty: "am_rx_list e = [] \<Longrightarrow> am_tx_list e = [] \<Longrightarrow> am_adm (RecvPdu b) e"
  by (auto simp: am_ack_plausible_def am_data_consistent_def split: sum.split option.split prod.split)

lemma am_sample_adm: "rlc_adm_run am_step am_adm am_sample_run am_fresh"
proof -
  have "rlc_adm_run am_step am_adm (tl am_sample_run) e" for e
    by (rule rlc_adm_runI) (auto simp: am_sample_run_def)
  then show ?thesis
    using am_adm_empty [of am_fresh "[0xC0, 0, 9, 9]"]
    by (simp add: am_sample_run_def del: am_adm.simps(1) split: sum.split)
qed

text \<open>
  C1: an acknowledged-mode entity never ends the process, whatever SDUs, discard requests, transport
  blocks, clock readings and PDUs it is given, in any order: from a new entity every run completes and
  the entity is well formed afterwards. The run must be admissible (\<open>am_adm\<close>): segments of one SDU
  agree on where the SDU ends, a status PDU does not acknowledge an SDU that was only sent in part,
  and t-PollRetransmit does not expire in the one state the code does not handle.
\<close>

theorem am_runs_safe:
  assumes "new_nr_rlc_entity_am rx_max tx_max t1 t2 t3 pp pb thr len = Inr e" and "0 \<le> rx_max" "0 \<le> tx_max"
    and "rlc_adm_run am_step am_adm ops e"
  shows "\<exists>e' L. rlc_run am_step ops e = Inr e' \<and> am_inv L e'"
  by (rule am_run_inv [OF assms])

theorem am_runs_safe_witness:
  "\<exists>e' L. rlc_run am_step am_sample_run am_fresh = Inr e' \<and> am_inv L e'"
  using am_runs_safe [OF am_fresh_eq _ _ am_sample_adm] by simp

text \<open>
  C3: the transmitting window is respected, and sequence numbers identify SDUs. After any admissible
  run the numbers in flight start at \<open>tx_next_ack\<close>, end before \<open>tx_next\<close> and are at most a window
  (half of the number space) apart; every segment that waits for an acknowledgement or a
  retransmission has such a number; whatever else has the same number, in these two lists or in the transmission list,
  is a segment of the same SDU; no two segments of the two lists have the same number and the same first byte;
  both lists are in order of number and offset.
\<close>

theorem am_tx_window:
  assumes "new_nr_rlc_entity_am rx_max tx_max t1 t2 t3 pp pb thr len = Inr e" and "0 \<le> rx_max" "0 \<le> tx_max"
    and "rlc_adm_run am_step am_adm ops e" and "rlc_run am_step ops e = Inr e'"
  shows "(am_tx_next e' - am_tx_next_ack e') mod am_sn_modulus e' \<le> am_window_size e' \<and>
    2 * am_window_size e' = am_sn_modulus e' \<and>
    (\<forall>s \<in> set (am_wait_list e' @ am_retransmit_list e').
       (seg_sn (am_heap e') s - am_tx_next_ack e') mod am_sn_modulus e' <
       (am_tx_next e' - am_tx_next_ack e') mod am_sn_modulus e') \<and>
    (\<forall>s \<in> set (am_wait_list e' @ am_retransmit_list e'). \<forall>t \<in> set (am_tx_list e' @ am_wait_list e' @ am_retransmit_list e').
       seg_sn (am_heap e') s = seg_sn (am_heap e') t \<longrightarrow> seg_sdu s = seg_sdu t) \<and>
    (\<forall>i j. let l = am_wait_list e' @ am_retransmit_list e' in i < j \<and> j < length l \<and>
       seg_sn (am_heap e') (l ! i) = seg_sn (am_heap e') (l ! j) \<longrightarrow> seg_so (l ! i) \<noteq> seg_so (l ! j)) \<and>
    sorted_wrt (am_before e') (am_wait_list e') \<and> sorted_wrt (am_before e') (am_retransmit_list e')"
proof -
  obtain L where i: "am_tx_inv L e'" using am_run_inv [OF assms(1-4)] assms(5) by (auto simp: am_inv_def)
  note f = am_tx_invD(5) [OF i, unfolded am_flow_def]
  let ?w = "am_wait_list e'" and ?r = "am_retransmit_list e'"
  have "seg_sdu s = seg_sdu t" if "s \<in> set (?w @ ?r)" "t \<in> set (am_tx_list e' @ ?w @ ?r)" "seg_sn (am_heap e') s = seg_sn (am_heap e') t" for s t
  proof (rule sn_uniqueD [OF flowD(10) [OF f]])
    show "am_sn_of e' s \<noteq> - 1" using flowD(6) [OF f, of s] flowD(7) [OF f, of s] that(1) by (auto simp: in_flight_def)
  qed (use that in \<open>auto simp: am_sn_of_def\<close>)
  moreover have "seg_so ((?w @ ?r) ! i) \<noteq> seg_so ((?w @ ?r) ! j)"
    if ij: "i < j" "j < length (?w @ ?r)" and eq: "seg_sn (am_heap e') ((?w @ ?r) ! i) = seg_sn (am_heap e') ((?w @ ?r) ! j)" for i j
  proof -
    let ?s = "(?w @ ?r) ! i" and ?t = "(?w @ ?r) ! j"
    consider "j < length ?w" | "length ?w \<le> i" | "i < length ?w" "length ?w \<le> j" by linarith
    then have "am_before e' ?s ?t \<or> am_before e' ?t ?s"
    proof cases
      case 1
      then show ?thesis using sorted_wrt_nth_less [OF flowD(11) [OF f], of i j] ij by (simp add: nth_append)
    next
      case 2
      then show ?thesis using sorted_wrt_nth_less [OF flowD(12) [OF f], of "i - length ?w" "j - length ?w"] ij by (simp add: nth_append)
    next
      case 3
      then show ?thesis using am_lists_comparable(1) [OF i, of ?s ?t] ij by (simp add: nth_append)
    qed
    then show ?thesis using eq by (auto simp: seg_before_def am_sn_of_def)
  qed
  ultimately show ?thesis
    using flowD(5-7,11,12) [OF f] am_cfgD(2) [OF am_tx_invD(1) [OF i]] unfolding in_flight_def sn_dist_def am_sn_of_def Let_def by auto
qed

theorem am_tx_window_witness:
  "(case rlc_run am_step am_sample_run am_fresh of
      Inr e' \<Rightarrow> (am_tx_next e' - am_tx_next_ack e') mod am_sn_modulus e' \<le> am_window_size e'
    | Inl f \<Rightarrow> False)"
proof -
  obtain e' where "rlc_run am_step am_sample_run am_fresh = Inr e'"
    using am_run_inv [OF am_fresh_eq _ _ am_sample_adm] by auto
  with am_tx_window [OF am_fresh_eq _ _ am_sample_adm this] show ?thesis by simp
qed

text \<open>
  C8: the buffers of an acknowledged-mode entity stay within their configured sizes, and \<open>buffer_status\<close> announces
  enough to MAC. After any admissible run, the received bytes held are at most \<open>rx_size\<close>, which is at most
  \<open>rx_maxsize\<close>; \<open>tx_size\<close> is at most \<open>tx_maxsize\<close>; the \<open>tx_size\<close> that is announced is the number of bytes it
  takes to send everything in the transmission list, headers included; the \<open>retx_size\<close> is not less than what it takes
  to send the retransmission list (it can be more: \<open>am_status_cuts_retransmissions\<close>); and the status report
  fits into the room it is computed for.
\<close>

theorem am_buffers_bounded:
  assumes "new_nr_rlc_entity_am rx_max tx_max t1 t2 t3 pp pb thr len = Inr e" and "0 \<le> rx_max" "0 \<le> tx_max"
    and "rlc_adm_run am_step am_adm ops e" and "rlc_run am_step ops e = Inr e'"
  shows "\<exists>bs. nr_rlc_entity_am_buffer_status e' (int m) = Inr bs \<and> status_size bs \<le> int m \<and>
    tx_size bs = sum_list (map (\<lambda>s. am_compute_pdu_header_size e' s + seg_size s) (am_tx_list e')) \<and>
    sum_list (map (\<lambda>s. am_compute_pdu_header_size e' s + seg_size s) (am_retransmit_list e')) \<le> retx_size bs \<and>
    sum_list (map (\<lambda>p. if pdu_data p = None then 0 else pdu_size p) (am_rx_list e')) \<le> am_rx_size e' \<and>
    am_rx_size e' \<le> am_rx_maxsize e' \<and> am_tx_size e' \<le> am_tx_maxsize e'"
proof -
  obtain L where i: "am_tx_inv L e'" "am_rx_inv e'" using am_run_inv [OF assms(1-4)] assms(5) by (auto simp: am_inv_def)
  obtain n where "am_status_size e' (int (length (replicate m (0 :: byte)))) = Inr n" "n \<le> int m"
    using am_generate_status_ok [OF am_tx_invD(1) [OF i(1)], of "replicate m 0"] by auto
  moreover have "am_compute_pdu_header_size e' s + seg_size s = seg_bytes (am_sn_field_length e') s" for s
    using am_seg_pdu_size_eq by (simp add: am_seg_pdu_size_def)
  moreover have "rx_bytes (am_rx_list e') \<le> am_rx_size e'" "am_rx_size e' \<le> am_rx_maxsize e'"
    using i(2) by (simp_all add: am_rx_inv_def)
  ultimately show ?thesis
    using am_tx_invD(6) [OF i(1)]
    by (cases "am_status_to_report e'") (auto simp: nr_rlc_entity_am_buffer_status_def am_acct_def list_bytes_def rx_bytes_def)
qed

theorem am_buffers_bounded_witness:
  "(case rlc_run am_step am_sample_run am_fresh of
      Inr e' \<Rightarrow> am_rx_size e' \<le> am_rx_maxsize e' \<and> am_tx_size e' \<le> am_tx_maxsize e'
    | Inl f \<Rightarrow> False)"
proof -
  obtain e' where "rlc_run am_step am_sample_run am_fresh = Inr e'"
    using am_run_inv [OF am_fresh_eq _ _ am_sample_adm] by auto
  with am_buffers_bounded [OF am_fresh_eq _ _ am_sample_adm this, of 0] show ?thesis by auto
qed

text \<open>
  C7: the size of the status report that \<open>buffer_status\<close> announces to MAC is exact. Whatever was
  received, \<open>generate_status\<close> returns, writes inside the buffer, and writes as many bytes as
  \<open>status_size\<close> computes for the same room.
\<close>

theorem am_status_size_exact:
  assumes "am_sn_field_length e = 12 \<or> am_sn_field_length e = 18"
    and "am_sn_modulus e = 2 ^ nat (am_sn_field_length e)" "am_window_size e = am_sn_modulus e div 2"
  shows "\<exists>n b' e'. am_generate_status b e = Inr (n, b', e') \<and> am_status_size e (int (length b)) = Inr n \<and>
    0 \<le> n \<and> n \<le> int (length b) \<and> length b' = length b"
  using am_generate_status_ok [of e b] assms by (auto simp: am_cfg_def)

theorem am_status_size_exact_witness:
  "\<exists>n b' e'. am_generate_status (replicate 20 0) am_two_segments = Inr (n, b', e') \<and>
    am_status_size am_two_segments 20 = Inr n \<and> n \<le> 20 \<and> length b' = 20"
  using am_status_size_exact [of am_two_segments "replicate 20 0"] by (auto simp: am_two_segments_def)

end
