(* ===== verification/RlcAmLink.thy ===== *)
theory RlcAmLink
  imports RlcAmMachine
begin

unbundle bit_operations_syntax

text \<open>
  Two AM entities and the link between them: a data PDU that one serialises is the segment the other
  stores, and the segment that completes an SDU delivers it.
\<close>

section \<open>What is sent is what is received\<close>

text \<open>The poll bit is the second bit of the first byte.\<close>

lemma byte_bits_poll: "byte_bits (x OR 0x40) = (byte_bits x)[1 := True]"
proof -
  have "bit (push_bit 6 (1 :: byte)) n \<longleftrightarrow> n = 6" for n
    unfolding bit_push_bit_iff bit_1_iff by auto
  then have b: "bit (x OR 0x40) n \<longleftrightarrow> bit x n \<or> n = 6" for n by (simp add: bit_or_iff)
  have "byte_bits (x OR 0x40) ! i = (byte_bits x)[1 := True] ! i" if "i < 8" for i
  proof (cases "i = 1")
    case False
    then have "7 - i \<noteq> 6" using that by linarith
    with False that show ?thesis by (simp add: b)
  qed (simp add: b)
  then show ?thesis by (intro nth_equalityI) simp_all
qed

definition am_header_poll :: "nr_rlc_entity_am \<Rightarrow> segment \<Rightarrow> bool \<Rightarrow> (int \<times> int) list" where
  "am_header_poll e s p =
     [(1, 1), (of_bool p, 1), (1 - of_bool (seg_is_first s), 1), (1 - of_bool (seg_is_last s), 1)] @
     (if am_sn_field_length e = 18 then [(0, 2)] else []) @ [(am_sn_of e s, am_sn_field_length e)] @
     (if \<not> seg_is_first s then [(seg_so s, 16)] else [])"

lemma am_header_poll_bits:
  assumes "bytes_bits hdr = fields_bits (am_header e s)" and "hdr \<noteq> []"
  shows "bytes_bits (if p then hdr[0 := hdr ! 0 OR 0x40] else hdr) = fields_bits (am_header_poll e s p)"
proof (cases p)
  case True
  obtain x xs where h: "hdr = x # xs" using assms(2) by (cases hdr) auto
  have "bytes_bits (hdr[0 := hdr ! 0 OR 0x40]) = (bytes_bits hdr)[1 := True]"
    by (simp add: h byte_bits_poll list_update_append)
  then show ?thesis using True assms(1) by (simp add: am_header_def am_header_poll_def bits_of_val_1)
next
  case False
  then show ?thesis using assms(1) by (simp add: am_header_def am_header_poll_def)
qed

text \<open>The parser finds the fields of the header.\<close>

lemma am_parse_header:
  assumes len: "am_sn_field_length r = am_sn_field_length e" "am_sn_field_length e = 12 \<or> am_sn_field_length e = 18"
    and sn: "0 \<le> am_sn_of e s" "am_sn_of e s < 2 ^ nat (am_sn_field_length e)"
    and so: "0 \<le> seg_so s" "seg_so s < 65536" "seg_is_first s \<longleftrightarrow> seg_so s = 0"
    and d: "dec_ok d" "8 * dec_byte d + dec_bit d = 1" "dec_rest d = tl (fields_bits (am_header_poll e s p)) @ rest"
  shows "am_parse_data r d = Inr (of_bool p, Some (am_sn_of e s, seg_so s, seg_is_first s, seg_is_last s,
    nat (am_compute_pdu_header_size e s)))"
proof -
  note step = R_bits_step [where ?'a = "int \<times> (int \<times> int \<times> bool \<times> bool \<times> nat) option"]
  let ?len = "nat (am_sn_field_length e)"
  let ?t = "(if am_sn_field_length e = 18 then bits_of_val 2 0 else []) @ bits_of_val ?len (am_sn_of e s) @
    (if \<not> seg_is_first s then bits_of_val 16 (seg_so s) else []) @ rest"
  have rest: "dec_rest d = [p] @ [\<not> seg_is_first s, \<not> seg_is_last s] @ ?t"
    using d(3) by (auto simp: am_header_poll_def bits_of_val_1)
  obtain d1 where d1: "dec_ok d1" "dec_rest d1 = [\<not> seg_is_first s, \<not> seg_is_last s] @ ?t" "8 * dec_byte d1 + dec_bit d1 = 2"
    "\<And>err k. R_bits err d 1 k = (k (of_bool p) d1 :: (int \<times> (int \<times> int \<times> bool \<times> bool \<times> nat) option) res)"
    using step [OF d(1) rest, of 1] d(2) by (auto simp: val_of_bits_def)
  obtain d2 where d2: "dec_ok d2" "dec_rest d2 = ?t" "8 * dec_byte d2 + dec_bit d2 = 4"
    "\<And>err k. R_bits err d1 2 k = (k (2 * of_bool (\<not> seg_is_first s) + of_bool (\<not> seg_is_last s)) d2
       :: (int \<times> (int \<times> int \<times> bool \<times> bool \<times> nat) option) res)"
    using step [OF d1(1,2), of 2] d1(3) by (auto simp: val_of_two_bits)
  have flags: "((2 * of_bool (\<not> seg_is_first s) + of_bool (\<not> seg_is_last s) :: int) AND 2 = 0) = seg_is_first s"
    "((2 * of_bool (\<not> seg_is_first s) + of_bool (\<not> seg_is_last s) :: int) AND 1 = 0) = seg_is_last s"
    by (cases "seg_is_first s"; cases "seg_is_last s"; simp)+
  let ?t3 = "bits_of_val ?len (am_sn_of e s) @ (if \<not> seg_is_first s then bits_of_val 16 (seg_so s) else []) @ rest"
  obtain d3 where d3: "dec_ok d3" "dec_rest d3 = ?t3" "8 * dec_byte d3 + dec_bit d3 = (if am_sn_field_length e = 18 then 6 else 4)"
    "\<And>err k. am_sn_field_length e = 18 \<Longrightarrow> R_bits err d2 2 k = (k 0 d3 :: (int \<times> (int \<times> int \<times> bool \<times> bool \<times> nat) option) res)"
    "am_sn_field_length e \<noteq> 18 \<Longrightarrow> d3 = d2"
  proof (cases "am_sn_field_length e = 18")
    case True
    then show ?thesis using step [OF d2(1), of "bits_of_val 2 0" ?t3 2] d2 that by auto
  next
    case False
    then show ?thesis using d2 that [of d2] by simp
  qed
  let ?t4 = "(if \<not> seg_is_first s then bits_of_val 16 (seg_so s) else []) @ rest"
  have tb: "take_bit ?len (am_sn_of e s) = am_sn_of e s" using sn by (simp add: take_bit_int_eq_self)
  obtain d4 where d4: "dec_ok d4" "dec_rest d4 = ?t4" "8 * dec_byte d4 + dec_bit d4 = (if am_sn_field_length e = 18 then 24 else 16)"
    "\<And>err k. R_bits err d3 (am_sn_field_length e) k = (k (am_sn_of e s) d4 :: (int \<times> (int \<times> int \<times> bool \<times> bool \<times> nat) option) res)"
    using step [OF d3(1,2), of "am_sn_field_length e"] d3(3) len(2) tb by auto
  have d18: "R_bits err d3 18 k = (k (am_sn_of e s) d4 :: (int \<times> (int \<times> int \<times> bool \<times> bool \<times> nat) option) res)"
    if "am_sn_field_length e = 18" for err k using d4(4) [of err k] that by simp
  have al: "dec_byte x = (8 * dec_byte x + dec_bit x) div 8" if "dec_ok x" for x using that by (simp add: dec_ok_def)
  show ?thesis
  proof (cases "seg_is_first s")
    case True
    then show ?thesis
      using so(3) al [OF d4(1)] d4(3) unfolding am_parse_data_def len(1) Let_def d1(4) d2(4) flags
      by (cases "am_sn_field_length e = 18") (simp_all add: d3(4) d3(5) [symmetric] d4(4) d18 am_compute_pdu_header_size_def)
  next
    case False
    have tb: "take_bit 16 (seg_so s) = seg_so s" using so by (simp add: take_bit_int_eq_self)
    obtain d5 where d5: "dec_ok d5" "8 * dec_byte d5 + dec_bit d5 = (if am_sn_field_length e = 18 then 40 else 32)"
      "\<And>err k. R_bits err d4 16 k = (k (seg_so s) d5 :: (int \<times> (int \<times> int \<times> bool \<times> bool \<times> nat) option) res)"
      using step [OF d4(1), of "bits_of_val 16 (seg_so s)" rest 16] d4(2,3) False tb by auto
    then show ?thesis
      using so(3) al [OF d5(1)] False unfolding am_parse_data_def len(1) Let_def d1(4) d2(4) flags
      by (cases "am_sn_field_length e = 18") (simp_all add: d3(4) d3(5) [symmetric] d4(4) d18 am_compute_pdu_header_size_def)
  qed
qed

text \<open>The receiver goes on with the segment that was serialised.\<close>

lemma am_recv_serialized:
  assumes cfg: "am_cfg e" and seg: "segs_inv (am_heap e) M" "s \<in># M" and room: "seg_bytes (am_sn_field_length e) s \<le> int (length b)"
    and sn: "am_valid_sn e (am_sn_of e s)" and so: "seg_so s < 65536" and r: "am_sn_field_length r = am_sn_field_length e"
  shows "\<exists>b' e' hdr. am_serialize_sdu s b p e = Inr (seg_bytes (am_sn_field_length e) s, b', e') \<and>
    int hdr = am_compute_pdu_header_size e s \<and>
    drop hdr (take (nat (seg_bytes (am_sn_field_length e) s)) b') =
      take (nat (seg_size s)) (drop (nat (seg_so s)) (sdu_data (sdu_of (am_heap e) s))) \<and>
    int (length (take (nat (seg_bytes (am_sn_field_length e) s)) b')) = int hdr + seg_size s \<and>
    (let pdu = take (nat (seg_bytes (am_sn_field_length e) s)) b'
     in nr_rlc_entity_am_recv_pdu pdu r =
          am_rx_data pdu (of_bool p) (am_sn_of e s) (seg_so s) (seg_is_first s) (seg_is_last s) hdr
            (am_count_rx rxpdu_pkts_update rxpdu_bytes_update (int (length pdu)) r))"
proof -
  let ?data = "take (nat (seg_size s)) (drop (nat (seg_so s)) (sdu_data (sdu_of (am_heap e) s)))"
  let ?n = "seg_bytes (am_sn_field_length e) s"
  have ok: "0 \<le> seg_so s" "0 \<le> seg_size s" "seg_is_first s \<longleftrightarrow> seg_so s = 0"
    using segs_invD(2) [OF seg] by (auto simp: seg_ok_def)
  obtain hdr rest b' e' where ser: "am_serialize_sdu s b p e = Inr (?n, b', e')"
    "bytes_bits hdr = fields_bits (am_header e s)" "hdr \<noteq> []" "int (length hdr) = am_compute_pdu_header_size e s"
    "b' = (if p then hdr[0 := hdr ! 0 OR 0x40] else hdr) @ ?data @ rest"
    using am_serialize_ok [OF cfg seg room, of p] by blast
  define hdr' where "hdr' = (if p then hdr[0 := hdr ! 0 OR 0x40] else hdr)"
  have len: "length hdr' = length hdr" by (simp add: hdr'_def)
  have dl: "int (length ?data) = seg_size s" by (rule segs_inv_slice(2) [OF seg])
  have n: "nat ?n = length hdr + length ?data"
    using ser(4) dl ok(2) by (simp add: seg_bytes_def am_compute_pdu_header_size_def split: if_splits)
  have pdu: "take (nat ?n) b' = hdr' @ ?data"
  proof -
    have "take (length h + length x) (h @ x @ rest) = h @ x" for h x :: "byte list" by simp
    from this [of hdr' ?data] show ?thesis unfolding n ser(5) hdr'_def [symmetric] len .
  qed
  have "bytes_bits hdr' = fields_bits (am_header_poll e s p)"
    unfolding hdr'_def by (rule am_header_poll_bits [OF ser(2,3)])
  then have bits: "bytes_bits (hdr' @ ?data) = fields_bits (am_header_poll e s p) @ bytes_bits ?data" by simp
  have hd: "fields_bits (am_header_poll e s p) = [True] @ tl (fields_bits (am_header_poll e s p))"
    by (simp add: am_header_poll_def bits_of_val_1)
  let ?d0 = "nr_rlc_pdu_decoder_init (hdr' @ ?data)"
  have "dec_rest ?d0 = [True] @ (tl (fields_bits (am_header_poll e s p)) @ bytes_bits ?data)"
    unfolding dec_rest_init bits using hd by simp
  from R_bits_step [where ?'a = nr_rlc_entity_am, OF dec_ok_init this, of 1] obtain d where
    d: "dec_ok d" "dec_rest d = tl (fields_bits (am_header_poll e s p)) @ bytes_bits ?data" "8 * dec_byte d + dec_bit d = 1"
      "\<And>err k. R_bits err ?d0 1 k = (k 1 d :: nr_rlc_entity_am res)"
    by (auto simp: val_of_bits_def nr_rlc_pdu_decoder_init_def)
  define r1 where "r1 = am_count_rx rxpdu_pkts_update rxpdu_bytes_update (int (length (hdr' @ ?data))) r"
  have "am_parse_data r1 d = Inr (of_bool p, Some (am_sn_of e s, seg_so s, seg_is_first s, seg_is_last s,
      nat (am_compute_pdu_header_size e s)))"
    by (rule am_parse_header [OF _ _ _ _ ok(1) so ok(3) d(1,3,2)])
       (use r sn am_cfgD [OF cfg] in \<open>auto simp: r1_def am_count_rx_def\<close>)
  then have "nr_rlc_entity_am_recv_pdu (hdr' @ ?data) r =
      am_rx_data (hdr' @ ?data) (of_bool p) (am_sn_of e s) (seg_so s) (seg_is_first s) (seg_is_last s) (length hdr) r1"
    unfolding nr_rlc_entity_am_recv_pdu_def Let_def d(4) r1_def [symmetric]
    by (simp add: am_recv_data_parse ser(4) [symmetric])
  then show ?thesis unfolding Let_def using ser(1,4) dl len pdu
    by (intro exI [of _ b'] exI [of _ e'] exI [of _ "length hdr"]) (simp add: r1_def)
qed

section \<open>The segment that completes an SDU\<close>

lemma am_rx_timers_common [simp]: "am_common (am_rx_timer_start (am_rx_timer_stop e)) = am_common e"
proof -
  have "am_common (am_rx_timer_start x) = am_common x" "am_common (am_rx_timer_stop x) = am_common x" for x
    unfolding am_rx_timer_start_def am_rx_timer_stop_def by (simp_all only: if_distrib [of am_common]) simp_all
  then show ?thesis by simp
qed

lemma am_rx_deliver_events:
  assumes inv: "am_rx_inv e" and segs: "\<forall>p \<in> set (am_rx_list e). pdu_sn p = x \<longrightarrow> seg_of D p"
    and max: "int (length D) \<le> NR_SDU_MAX" and r: "am_rx_deliver x e = Inr e'"
  shows "events (am_common e') = events (am_common e) @ (if am_sdu_full e x then [DeliverSdu D] else [])"
proof (cases "am_sdu_full e x")
  case False
  with r show ?thesis by (simp add: am_rx_deliver_def)
next
  case True
  obtain e1 where e1: "am_reassemble_and_deliver e x = Inr e1" "events (am_common e1) = events (am_common e) @ [DeliverSdu D]"
    using am_delivers_full [OF inv True segs max] by blast
  have "am_common e' = am_common e1"
    using r True e1(1) by (auto simp: am_rx_deliver_def res_simps split: if_splits prod.splits)
  with e1(2) True show ?thesis by simp
qed

lemma am_rx_data_events:
  assumes inv: "am_rx_inv e" and sn: "am_valid_sn e sn" and so: "0 \<le> so" and hdr: "hdr < length b"
    and data: "so + int (length b - hdr) \<le> int (length D)" "drop hdr b = take (length b - hdr) (drop (nat so) D)"
      "is_last \<longleftrightarrow> so + int (length b - hdr) = int (length D)"
    and segs: "\<forall>p \<in> set (am_rx_list e). pdu_sn p = sn \<longrightarrow> seg_of D p" and max: "int (length D) \<le> NR_SDU_MAX"
    and take: "am_rx_size e + int (length b - hdr) \<le> am_rx_maxsize e" "am_sn_in_recv_window e sn"
      "\<not> am_segment_already_received e sn so (int (length b - hdr))"
  shows "\<exists>e'. am_rx_data b p sn so is_first is_last hdr e = Inr e' \<and> am_rx_inv e' \<and>
    events (am_common e') = events (am_common e) @
      (if \<forall>i \<in> {0..<int (length D)}. (so \<le> i \<and> i < so + int (length b - hdr)) \<or>
          (\<exists>p \<in> set (am_rx_list e). pdu_sn p = sn \<and> pdu_so p \<le> i \<and> i < pdu_so p + pdu_size p)
       then [DeliverSdu D] else [])"
proof -
  let ?sz = "int (length b) - int hdr"
  define pdu where "pdu = nr_rlc_new_pdu sn so is_first is_last (drop hdr b)"
  define e1 where "e1 = e\<lparr>am_rx_size := am_rx_size e + ?sz,
    am_rx_list := nr_rlc_pdu_list_add (am_sn_compare_rx e) (am_rx_list e) pdu\<rparr>"
  have pdu: "pdu_sn pdu = sn" "pdu_so pdu = so" "pdu_data pdu = Some (drop hdr b)" "pdu_size pdu = ?sz" "pdu_is_last pdu = is_last"
    using hdr by (simp_all add: pdu_def nr_rlc_new_pdu_def)
  have ends: "(pdu_is_last q \<longrightarrow> so + int (length b - hdr) \<le> pdu_end q) \<and> (is_last \<longrightarrow> pdu_end q \<le> so + int (length b - hdr))"
    if "q \<in> set (am_rx_list e)" "pdu_sn q = sn" for q
    using segs that data by (auto simp: seg_of_def)
  obtain e' where e': "am_rx_data b p sn so is_first is_last hdr e = Inr e'" "am_rx_inv e'"
    using am_rx_data_inv [OF inv sn so, of hdr b is_last p is_first] hdr ends by auto
  have "rx_pdu_ok (am_sn_modulus e) pdu"
    using pdu sn so hdr by (simp add: rx_pdu_ok_def seg_data_ok_def)
  then have "rx_inv (am_modulus_rx e) (am_sn_modulus e) (nr_rlc_pdu_list_add (am_sn_compare_rx e) (am_rx_list e) pdu)"
    using inv pdu by (intro am_rx.rx_add_inv) (auto simp: am_rx_inv_def rx_pdu_ok_def)
  moreover have "rx_ends_ok (nr_rlc_pdu_list_add (am_sn_compare_rx e) (am_rx_list e) pdu)"
    using inv ends pdu hdr by (auto simp: am_rx_inv_def rx_ends_ok_def pdu_end_def)
  ultimately have i1: "am_rx_inv e1"
    using inv take(1,2) hdr pdu by (auto simp: am_rx_inv_def e1_def rx_bytes_add)
  have "seg_of D pdu" using pdu data hdr so by (auto simp: seg_of_def seg_data_ok_def pdu_end_def nat_diff_distrib)
  then have s1: "\<forall>p \<in> set (am_rx_list e1). pdu_sn p = sn \<longrightarrow> seg_of D p" using segs by (auto simp: e1_def)
  define e2 where "e2 = (if am_sn_compare_rx e1 sn (am_rx_next_highest e1) \<ge> 0
    then e1\<lparr>am_rx_next_highest := (sn + 1) mod am_sn_modulus e1\<rparr> else e1)"
  have i2: "am_rx_inv e2" using i1 sn by (simp add: am_rx_inv_def e2_def)
  have s2: "am_rx_list e2 = am_rx_list e1" "am_common e2 = am_common e" by (simp_all add: e2_def e1_def)
  obtain e3 where e3: "am_rx_deliver sn e2 = Inr e3" using am_rx_deliver_inv [OF i2] by blast
  have act: "am_reception_actions e1 pdu = Inr (am_rx_timer_start (am_rx_timer_stop e3))"
    unfolding am_reception_actions_def Let_def pdu(1) e2_def [symmetric] using e3 by simp
  have sz: "?sz = int (length b - hdr)" using hdr by (simp add: of_nat_diff)
  have "am_rx_data b p sn so is_first is_last hdr e = res_bind (am_reception_actions e1 pdu) (\<lambda>e2.
      Inr (if p \<noteq> 0 then e2\<lparr>am_status_triggered := True\<rparr> else e2))"
    unfolding am_rx_data_def Let_def e1_def pdu_def sz using take hdr by simp
  then have "am_common e' = am_common e3" using e'(1) unfolding act by (simp split: if_splits)
  moreover have "events (am_common e3) = events (am_common e) @ (if am_sdu_full e2 sn then [DeliverSdu D] else [])"
    using am_rx_deliver_events [OF i2 _ max e3] s1 s2 by simp
  ultimately have ev: "events (am_common e') = events (am_common e) @ (if am_sdu_full e2 sn then [DeliverSdu D] else [])" by simp
  have D: "D \<noteq> []" using data(1) hdr so by auto
  have s2': "\<forall>p \<in> set (am_rx_list e2). pdu_sn p = sn \<longrightarrow> seg_of D p" using s1 s2 by simp
  have "set (am_rx_list e2) = insert pdu (set (am_rx_list e))" using s2 by (simp add: e1_def)
  then have cov: "(\<exists>p \<in> set (am_rx_list e2). pdu_sn p = sn \<and> pdu_so p \<le> i \<and> i < pdu_so p + pdu_size p) \<longleftrightarrow>
     (so \<le> i \<and> i < so + int (length b - hdr)) \<or>
     (\<exists>p \<in> set (am_rx_list e). pdu_sn p = sn \<and> pdu_so p \<le> i \<and> i < pdu_so p + pdu_size p)" for i
    by (simp add: pdu sz)
  show ?thesis using e' ev unfolding am_full_iff [OF i2 s2' D] cov by blast
qed

section \<open>Properties\<close>

text \<open>An entity that sent an SDU of three bytes, for the witnesses.\<close>

definition am_sent_seg :: segment where
  "am_sent_seg = fst (nr_rlc_new_sdu [1, 2, 3] 7 heap_empty)"

definition am_sent :: nr_rlc_entity_am where
  "am_sent = am_fresh\<lparr>am_heap := heap_upd (seg_sdu am_sent_seg) (sdu_sn_update (\<lambda>_. 0)) (snd (nr_rlc_new_sdu [1, 2, 3] 7 heap_empty)),
     am_wait_list := [am_sent_seg], am_wait_end := Some am_sent_seg, am_tx_next := 1, am_tx_size := 3\<rparr>"

lemma am_sent_seg_simps [simp]:
  "seg_size am_sent_seg = 3" "seg_so am_sent_seg = 0" "seg_is_first am_sent_seg" "seg_is_last am_sent_seg"
  "seg_sdu am_sent_seg = 0"
  by (simp_all add: am_sent_seg_def nr_rlc_new_sdu_def heap_empty_def Let_def)

lemma am_sent_sdu [simp]:
  "sdu_data (sdu_of (am_heap am_sent) am_sent_seg) = [1, 2, 3]" "sdu_sn (sdu_of (am_heap am_sent) am_sent_seg) = 0"
  by (simp_all add: am_sent_def sdu_of_def nr_rlc_new_sdu_def heap_empty_def Let_def)

lemma am_sent_inv: "am_inv {#} am_sent"
proof -
  have new: "new_sdu_dated False 0 [1, 2, 3] 7 heap_empty = (am_sent_seg, snd (nr_rlc_new_sdu [1, 2, 3] 7 heap_empty))"
    by (simp add: new_sdu_dated_def am_sent_seg_def split: prod.split)
  from segs_inv_new [OF segs_inv_empty this] have "segs_inv (am_heap am_sent) {#am_sent_seg#}"
    unfolding am_sent_def by (simp add: segs_inv_upd)
  moreover have "heap_bytes (am_heap am_sent) = 3"
    using new_sdu_dated_inv(2) [OF segs_invD(1) [OF segs_inv_empty] new] by (simp add: am_sent_def heap_upd_bytes)
  moreover have "am_sn_of am_sent am_sent_seg = 0" by (simp add: am_sn_of_def)
  then have "am_flow am_sent"
    unfolding am_flow_def flow_def by (simp add: am_sent_def in_flight_def sn_dist_def sn_unique_def)
  ultimately have "am_tx_inv {#} am_sent"
    by (simp add: am_tx_inv_def am_acct_def am_segs_def) (simp add: am_sent_def am_cfg_def end_of_def)
  moreover have "am_rx_inv am_sent"
    by (simp add: am_sent_def am_rx_inv_def am_cfg_def rx_inv_def rx_delivered_first_def rx_ends_ok_def rx_bytes_def)
  ultimately show ?thesis by (simp add: am_inv_def)
qed

lemma am_fresh_rx_inv: "am_rx_inv am_fresh"
  using am_inv_new [OF am_fresh_eq] by (simp add: am_inv_def)

text \<open>
  C6: a data PDU written by one acknowledged-mode entity is read back by its peer: for any segment that
  is sent, in a buffer with room for it, the receiver finds in the PDU exactly the sequence number, the
  segment offset, the first and last flags, the poll bit and the bytes of the segment.
\<close>

theorem am_pdu_roundtrip:
  assumes "am_inv L e" and "s \<in> set (am_wait_list e)" and "seg_so s < 65536"
    and "am_compute_pdu_header_size e s + seg_size s \<le> int (length b)"
    and "am_sn_field_length r = am_sn_field_length e"
  shows "\<exists>n b' e' hdr. am_serialize_sdu s b p e = Inr (n, b', e') \<and> n = int hdr + seg_size s \<and>
    drop hdr (take (nat n) b') = take (nat (seg_size s)) (drop (nat (seg_so s)) (sdu_data (sdu_of (am_heap e) s))) \<and>
    nr_rlc_entity_am_recv_pdu (take (nat n) b') r =
      am_rx_data (take (nat n) b') (of_bool p) (seg_sn (am_heap e) s) (seg_so s) (seg_is_first s) (seg_is_last s) hdr
        (am_count_rx rxpdu_pkts_update rxpdu_bytes_update n r)"
proof -
  have tx: "am_tx_inv L e" using assms(1) by (simp add: am_inv_def)
  have s: "s \<in># am_segs e + L" using assms(2) by (simp add: am_segs_def)
  have sn: "am_valid_sn e (am_sn_of e s)"
    using flowD(6) [OF am_tx_invD(5) [OF tx, unfolded am_flow_def] assms(2)] by (simp add: in_flight_def)
  have n: "seg_bytes (am_sn_field_length e) s = am_compute_pdu_header_size e s + seg_size s"
    using am_seg_pdu_size_eq by (simp add: am_seg_pdu_size_def)
  define N where "N = am_compute_pdu_header_size e s + seg_size s"
  obtain b' e' hdr where r: "am_serialize_sdu s b p e = Inr (N, b', e')" "int hdr = am_compute_pdu_header_size e s"
    "drop hdr (take (nat N) b') = take (nat (seg_size s)) (drop (nat (seg_so s)) (sdu_data (sdu_of (am_heap e) s)))"
    "int (length (take (nat N) b')) = int hdr + seg_size s"
    "nr_rlc_entity_am_recv_pdu (take (nat N) b') r =
       am_rx_data (take (nat N) b') (of_bool p) (am_sn_of e s) (seg_so s) (seg_is_first s) (seg_is_last s) hdr
         (am_count_rx rxpdu_pkts_update rxpdu_bytes_update (int (length (take (nat N) b'))) r)"
    using am_recv_serialized [OF am_tx_invD(1,2) [OF tx] s _ sn assms(3,5), of b p] assms(4)
    unfolding n N_def [symmetric] Let_def by blast
  have "N = int hdr + seg_size s" using r(2) by (simp add: N_def)
  moreover from r(5) have "nr_rlc_entity_am_recv_pdu (take (nat N) b') r =
       am_rx_data (take (nat N) b') (of_bool p) (seg_sn (am_heap e) s) (seg_so s) (seg_is_first s) (seg_is_last s) hdr
         (am_count_rx rxpdu_pkts_update rxpdu_bytes_update N r)"
    unfolding r(4) calculation [symmetric] am_sn_of_def .
  ultimately show ?thesis using r(1,3) by blast
qed

theorem am_pdu_roundtrip_witness:
  "\<exists>n b' e' hdr. am_serialize_sdu am_sent_seg (replicate 8 0) True am_sent = Inr (n, b', e') \<and>
    drop hdr (take (nat n) b') = [1, 2, 3]"
proof -
  have "am_sent_seg \<in> set (am_wait_list am_sent)" "am_sn_field_length am_fresh = am_sn_field_length am_sent"
    "am_compute_pdu_header_size am_sent am_sent_seg + seg_size am_sent_seg \<le> int (length (replicate 8 (0::byte)))"
    by (simp_all add: am_sent_def am_compute_pdu_header_size_def)
  from am_pdu_roundtrip [OF am_sent_inv this(1) _ this(3,2), of True] show ?thesis by auto
qed

text \<open>
  C2: from sender to receiver, in acknowledged mode: when the sender serialises a segment of an SDU \<open>D\<close>
  and the receiver, which so far holds nothing but segments of \<open>D\<close> under this sequence number, gets the
  PDU (in its window, with room in its buffer, not a duplicate), the receiver stays well formed and
  delivers \<open>D\<close>, once, if and only if the segment completes it.
\<close>

theorem am_link_delivers:
  assumes tx: "am_inv L es" and s: "s \<in> set (am_wait_list es)" "0 < seg_size s"
    and room: "am_compute_pdu_header_size es s + seg_size s \<le> int (length b)"
    and rx: "am_rx_inv er" "am_sn_field_length er = am_sn_field_length es"
    and D: "D = sdu_data (sdu_of (am_heap es) s)" "int (length D) \<le> NR_SDU_MAX" "sn = seg_sn (am_heap es) s"
    and held: "\<forall>q \<in> set (am_rx_list er). pdu_sn q = sn \<longrightarrow> seg_of D q"
    and take: "am_rx_size er + seg_size s \<le> am_rx_maxsize er" "am_sn_in_recv_window er sn"
      "\<not> am_segment_already_received er sn (seg_so s) (seg_size s)"
  shows "\<exists>n b' es' er'. am_serialize_sdu s b p es = Inr (n, b', es') \<and>
    nr_rlc_entity_am_recv_pdu (take (nat n) b') er = Inr er' \<and> am_rx_inv er' \<and>
    events (am_common er') = events (am_common er) @
      (if \<forall>i \<in> {0..<int (length D)}. (seg_so s \<le> i \<and> i < seg_so s + seg_size s) \<or>
          (\<exists>q \<in> set (am_rx_list er). pdu_sn q = sn \<and> pdu_so q \<le> i \<and> i < pdu_so q + pdu_size q)
       then [DeliverSdu D] else [])"
proof -
  have txi: "am_tx_inv L es" using tx by (simp add: am_inv_def)
  have sM: "s \<in># am_segs es + L" using s by (simp add: am_segs_def)
  note ok = segs_invD(2) [OF am_tx_invD(2) [OF txi] sM, unfolded seg_ok_def]
  have snv: "am_sn_of es s = sn" "am_valid_sn es sn"
    using flowD(6) [OF am_tx_invD(5) [OF txi, unfolded am_flow_def] s(1)] D(3) by (simp_all add: in_flight_def am_sn_of_def)
  have so: "seg_so s < 65536" using ok D s(2) by (simp add: NR_SDU_MAX_def)
  have n: "seg_bytes (am_sn_field_length es) s = am_compute_pdu_header_size es s + seg_size s"
    using am_seg_pdu_size_eq by (simp add: am_seg_pdu_size_def)
  obtain b' es' hdr where ser: "am_serialize_sdu s b p es = Inr (seg_bytes (am_sn_field_length es) s, b', es')"
    and pdu: "drop hdr (take (nat (seg_bytes (am_sn_field_length es) s)) b') = take (nat (seg_size s)) (drop (nat (seg_so s)) D)"
      "int (length (take (nat (seg_bytes (am_sn_field_length es) s)) b')) = int hdr + seg_size s"
    and rc: "nr_rlc_entity_am_recv_pdu (take (nat (seg_bytes (am_sn_field_length es) s)) b') er =
      am_rx_data (take (nat (seg_bytes (am_sn_field_length es) s)) b') (of_bool p) sn (seg_so s) (seg_is_first s) (seg_is_last s) hdr
        (am_count_rx rxpdu_pkts_update rxpdu_bytes_update (int (length (take (nat (seg_bytes (am_sn_field_length es) s)) b'))) er)"
    using am_recv_serialized [OF am_tx_invD(1,2) [OF txi] sM _ _ so rx(2), of b p] room snv
    unfolding n D(1) Let_def by blast
  define q where "q = take (nat (seg_bytes (am_sn_field_length es) s)) b'"
  define er1 where "er1 = am_count_rx rxpdu_pkts_update rxpdu_bytes_update (int (length q)) er"
  have len: "length q - hdr = nat (seg_size s)" "hdr < length q" "int (length q - hdr) = seg_size s"
    using pdu(2) s(2) by (auto simp: q_def [symmetric])
  have e1: "am_rx_list er1 = am_rx_list er" "am_rx_size er1 = am_rx_size er" "am_rx_maxsize er1 = am_rx_maxsize er"
    "am_sn_in_recv_window er1 = am_sn_in_recv_window er" "events (am_common er1) = events (am_common er)" "am_sn_modulus er1 = am_sn_modulus er"
    by (simp_all add: er1_def am_count_rx_def)
  have i1: "am_rx_inv er1" by (rule am_rx_inv_cong [OF rx(1)]) (simp_all add: er1_def am_count_rx_def)
  have "am_sn_modulus er = am_sn_modulus es"
    using rx am_tx_invD(1) [OF txi] by (simp add: am_rx_inv_def am_cfg_def)
  then have "\<exists>e'. am_rx_data q (of_bool p) sn (seg_so s) (seg_is_first s) (seg_is_last s) hdr er1 = Inr e' \<and> am_rx_inv e' \<and>
    events (am_common e') = events (am_common er1) @
      (if \<forall>i \<in> {0..<int (length D)}. (seg_so s \<le> i \<and> i < seg_so s + int (length q - hdr)) \<or>
          (\<exists>p \<in> set (am_rx_list er1). pdu_sn p = sn \<and> pdu_so p \<le> i \<and> i < pdu_so p + pdu_size p)
       then [DeliverSdu D] else [])"
    using ok snv D held take pdu(1) len
    by (intro am_rx_data_events [OF i1]) (auto simp: e1 q_def am_segment_already_received_def)
  then obtain er' where er': "am_rx_data q (of_bool p) sn (seg_so s) (seg_is_first s) (seg_is_last s) hdr er1 = Inr er'" "am_rx_inv er'"
    "events (am_common er') = events (am_common er) @
      (if \<forall>i \<in> {0..<int (length D)}. (seg_so s \<le> i \<and> i < seg_so s + seg_size s) \<or>
          (\<exists>p \<in> set (am_rx_list er). pdu_sn p = sn \<and> pdu_so p \<le> i \<and> i < pdu_so p + pdu_size p)
       then [DeliverSdu D] else [])" unfolding len(3) e1 by blast
  have "nr_rlc_entity_am_recv_pdu (take (nat (seg_bytes (am_sn_field_length es) s)) b') er = Inr er'"
    using rc er'(1) unfolding q_def [symmetric] er1_def [symmetric] by simp
  with ser er'(2,3) show ?thesis by blast
qed

theorem am_link_delivers_witness:
  "\<exists>n b' es' er'. am_serialize_sdu am_sent_seg (replicate 8 0) False am_sent = Inr (n, b', es') \<and>
    nr_rlc_entity_am_recv_pdu (take (nat n) b') am_fresh = Inr er' \<and> am_rx_inv er' \<and>
    events (am_common er') = [DeliverSdu [1, 2, 3]]"
proof -
  have w: "am_sent_seg \<in> set (am_wait_list am_sent)" "am_sn_field_length am_fresh = am_sn_field_length am_sent"
    by (simp_all add: am_sent_def)
  have room: "am_compute_pdu_header_size am_sent am_sent_seg + seg_size am_sent_seg \<le> int (length (replicate 8 (0::byte)))"
    by (simp add: am_compute_pdu_header_size_def)
  have win: "am_sn_in_recv_window am_fresh 0" by (simp add: am_sn_in_recv_window_def am_modulus_rx_def)
  from am_link_delivers [OF am_sent_inv w(1) _ room am_fresh_rx_inv w(2) refl _ refl, of False] win show ?thesis
    by (simp add: NR_SDU_MAX_def am_segment_already_received_def)
qed

end
