(* ===== verification/RlcAmFaults.thy ===== *)
theory RlcAmFaults
  imports RlcAmMachine
begin

text \<open>
  Runs of the AM entity in which the code does not do what it should, evaluated in the kernel: the
  reasons for the conditions of \<open>am_adm\<close>, and a retransmit list that is cut.
\<close>

text \<open>
  A run from a new entity with 12 bit sequence numbers. The average of waiting times, which is switched
  off, has no influence: the runs are evaluated for any state of it.
\<close>

definition am_new12 :: "time_average \<Rightarrow> nr_rlc_entity_am" where
  "am_new12 ta = \<lparr>am_common = \<lparr>bstatus = \<lparr>status_size = 0, tx_size = 0, retx_size = 0\<rparr>, stats = stats_zero NR_RLC_AM,
       txsdu_avg_time_to_tx = ta, avg_time_is_on = False, events = []\<rparr>,
     am_t_poll_retransmit = 45, am_t_reassembly = 35, am_t_status_prohibit = 0, am_poll_pdu = 64, am_poll_byte = 500,
     am_max_retx_threshold = 8, am_sn_field_length = 12, am_sn_modulus = 4096, am_window_size = 2048,
     am_rx_next = 0, am_rx_next_status_trigger = 0, am_rx_highest_status = 0,
     am_rx_next_highest = 0, am_status_triggered = False, am_tx_next = 0, am_tx_next_ack = 0,
     am_poll_sn = 0, am_pdu_without_poll = 0, am_byte_without_poll = 0, am_force_poll = False,
     am_t_current = 0, am_t_log_buffer_full = 0, am_sdu_rejected = 0,
     am_t_poll_retransmit_start = 0, am_t_reassembly_start = 0, am_t_status_prohibit_start = 0,
     am_rx_list = [], am_rx_size = 0, am_rx_maxsize = 1000, am_tx_list = [],
     am_tx_end = None, am_tx_size = 0, am_tx_maxsize = 1000, am_wait_list = [],
     am_wait_end = None, am_retransmit_list = [], am_heap = heap_empty\<rparr>"

definition am_run12 :: "rlc_op list \<Rightarrow> nr_rlc_entity_am res" where
  "am_run12 ops = res_bind (new_nr_rlc_entity_am 1000 1000 45 35 0 64 500 8 12)
     (rlc_run am_step (map (Pair 0) ops))"

lemma am_run12_eq: "\<exists>ta. am_run12 ops = rlc_run am_step (map (Pair 0) ops) (am_new12 ta)"
proof -
  obtain ta where "common_new NR_RLC_AM = Inr \<lparr>bstatus = \<lparr>status_size = 0, tx_size = 0, retx_size = 0\<rparr>, stats = stats_zero NR_RLC_AM,
     txsdu_avg_time_to_tx = ta, avg_time_is_on = False, events = []\<rparr>"
    by (auto simp: common_new_def time_average_new_def)
  then have "new_nr_rlc_entity_am 1000 1000 45 35 0 64 500 8 12 = Inr (am_new12 ta)"
    by (simp add: new_nr_rlc_entity_am_def am_new12_def)
  then show ?thesis by (auto simp: am_run12_def)
qed

lemma am_run12_I: "(\<And>ta. P (rlc_run am_step (map (Pair 0) ops) (am_new12 ta))) \<Longrightarrow> P (am_run12 ops)"
  using am_run12_eq [of ops] by metis

text \<open>
  C24: three data PDUs of one SDU are enough to make the receiver read outside a buffer: a first segment,
  a segment far beyond the end of the SDU, and then the last segment. \<open>sdu_full\<close> stops at the
  last segment, \<open>reassemble_and_deliver\<close> goes on to the stray one and copies from before its data.
\<close>

theorem am_reassembly_overread:
  "fault_of (am_run12 [RecvPdu [0xB0, 0, 0, 100, 1, 2, 3], RecvPdu [0xA0, 0, 0, 5, 6, 7, 8, 9, 10],
     RecvPdu [0x90, 0, 1, 2, 3, 4, 5]]) = Some OutOfBounds"
  by (rule am_run12_I) code_simp

text \<open>
  T-PollRetransmit can expire while no PDU waits for an acknowledgement, and then
  \<open>check_t_poll_retransmit\<close> dereferences the head of the empty wait list: two SDUs are sent, the
  first is retransmitted with a poll (\<open>poll_sn\<close> is the highest number sent, 1), and a late status
  PDU acknowledges only the first.
\<close>

theorem am_poll_retransmit_crash:
  "fault_of (am_run12 [SetTime 10, RecvSdu [1, 2] 7, RecvSdu [3, 4] 8, GeneratePdu [0, 0, 0, 0],
     GeneratePdu [0, 0, 0, 0], RecvPdu [0, 2, 0x80, 0, 0], GeneratePdu [0, 0, 0, 0], RecvPdu [0, 1, 0],
     SetTime 1000]) = Some NullDeref"
  by (rule am_run12_I) code_simp

text \<open>
  A status PDU can make an acknowledged-mode entity lose data for good. An SDU is sent in two
  segments, both are NACKed, and then the peer reports that only the second is missing
  (with \<open>ACK_SN\<close> equal to the number of this SDU). Both segments are cut from the retransmit list
  without being sent or released: no list holds them, the SDU stays allocated, and the retransmission
  size announced to MAC stays at 10 bytes.
\<close>

theorem am_status_cuts_retransmissions:
  "res_holds (\<lambda>e. am_tx_list e = [] \<and> am_wait_list e = [] \<and> am_retransmit_list e = [] \<and>
       retx_size (bstatus (am_common e)) = 10 \<and> map_option sdu_data (heap_map (am_heap e) 0) = Some [1, 2, 3, 4])
     (am_run12 [RecvSdu [1, 2, 3, 4] 7, GeneratePdu [0, 0, 0, 0], GeneratePdu [0, 0, 0, 0, 0, 0, 0, 0],
        RecvPdu [0, 0, 0x80, 0, 0], RecvPdu [0, 0, 0x80, 0, 4, 0, 2, 0, 3]])"
  by (rule am_run12_I) code_simp

text \<open>
  A NACKed SDU can be reported as delivered. The first pass over a status PDU is meant to reject
  NACKs that are not in order, but never remembers the previous one; with NACKs for 1 and then for 0, the
  SDU with number 0 counts as acknowledged, is released, and its delivery is indicated to the upper layer.
\<close>

theorem am_unordered_nacks_accepted:
  "res_holds (\<lambda>e. events (am_common e) = [SduSuccessfulDelivery 7] \<and> am_wait_list e = [] \<and>
       map seg_sdu (am_retransmit_list e) = [1])
     (am_run12 [RecvSdu [1, 2] 7, RecvSdu [3, 4] 8, GeneratePdu [0, 0, 0, 0], GeneratePdu [0, 0, 0, 0],
        RecvPdu [0, 2, 0x80, 0, 0x18, 0, 0]])"
  by (rule am_run12_I) code_simp

end
