(* ===== verification/Snow3g.thy ===== *)
theory Snow3g
  imports Snow3gTables
begin

unbundle bit_operations_syntax

text \<open>
  \<open>openair3/SECU/snow3g.c\<close>: the stream cipher behind 128-NEA1 and 128-NIA1. The C code keeps the 16
  stages of the shift register twice, in an array of 32 words, and moves a pointer instead of the
  words. The array is not initialised as a whole; its content before \<open>snow3g_init\<close> is a parameter.
\<close>

section \<open>Tables\<close>

definition snow_s1 :: "u32 \<Rightarrow> u32" where
  "snow_s1 w =
     (let w0 = unat (drop_bit 24 w AND 0xFF); w1 = unat (drop_bit 16 w AND 0xFF);
          w2 = unat (drop_bit 8 w AND 0xFF); w3 = unat (w AND 0xFF)
      in s1_t0 ! w3 XOR s1_t1 ! w2 XOR s1_t2 ! w1 XOR s1_t3 ! w0)"

definition snow_s2 :: "u32 \<Rightarrow> u32" where
  "snow_s2 w =
     (let w0 = unat (drop_bit 24 w AND 0xFF); w1 = unat (drop_bit 16 w AND 0xFF);
          w2 = unat (drop_bit 8 w AND 0xFF); w3 = unat (w AND 0xFF)
      in s2_t0 ! w3 XOR s2_t1 ! w2 XOR s2_t2 ! w1 XOR s2_t3 ! w0)"

definition MULa :: "nat \<Rightarrow> u32" where
  "MULa c = mula ! c"

definition DIVa :: "nat \<Rightarrow> u32" where
  "DIVa c = diva ! c"

section \<open>The generator\<close>

text \<open>\<open>s_ptr\<close> is the offset of the pointer \<open>s\<close> in the array \<open>_s\<close>.\<close>

record snow3g_t =
  s_array :: "u32 list"
  s_ptr :: nat
  snow_r1 :: u32
  snow_r2 :: u32
  snow_r3 :: u32

definition stage :: "snow3g_t \<Rightarrow> nat \<Rightarrow> u32" where
  "stage s i = s_array s ! (s_ptr s + i)"

text \<open>The new word: of \<open>s[0]\<close>, \<open>s[2]\<close> and \<open>s[11]\<close>.\<close>

definition lfsr_value :: "u32 \<Rightarrow> u32 \<Rightarrow> u32 \<Rightarrow> u32" where
  "lfsr_value s0 s2w s11 =
     (let s0_0 = drop_bit 24 s0 AND 0xFF; s0_1 = drop_bit 16 s0 AND 0xFF;
          s0_2 = drop_bit 8 s0 AND 0xFF; s0_3 = s0 AND 0xFF;
          s11_0 = drop_bit 24 s11 AND 0xFF; s11_1 = drop_bit 16 s11 AND 0xFF;
          s11_2 = drop_bit 8 s11 AND 0xFF; s11_3 = s11 AND 0xFF;
          v0 = push_bit 24 s0_1 OR push_bit 16 s0_2 OR push_bit 8 s0_3;
          v11 = push_bit 16 s11_0 OR push_bit 8 s11_1 OR s11_2
      in v0 XOR MULa (unat s0_0) XOR s2w XOR v11 XOR DIVa (unat s11_3))"

text \<open>\<open>s[0] = v; s[16] = v; s++\<close>, back to the start of the array after 16 steps.\<close>

definition lfsr_shift :: "u32 \<Rightarrow> snow3g_t \<Rightarrow> snow3g_t" where
  "lfsr_shift v s =
     (let a = ((s_array s)[s_ptr s := v])[s_ptr s + 16 := v];
          p = s_ptr s + 1
      in s\<lparr>s_array := a, s_ptr := (if p = 16 then 0 else p)\<rparr>)"

definition lfsr_init :: "snow3g_t \<Rightarrow> u32 \<Rightarrow> snow3g_t" where
  "lfsr_init s f = lfsr_shift (lfsr_value (stage s 0) (stage s 2) (stage s 11) XOR f) s"

definition lfsr_keystream :: "snow3g_t \<Rightarrow> snow3g_t" where
  "lfsr_keystream s = lfsr_shift (lfsr_value (stage s 0) (stage s 2) (stage s 11)) s"

definition clock_fsm :: "snow3g_t \<Rightarrow> u32 \<times> snow3g_t" where
  "clock_fsm s =
     (let f = (stage s 15 + snow_r1 s) XOR snow_r2 s;
          r = snow_r2 s + (snow_r3 s XOR stage s 5)
      in (f, s\<lparr>snow_r3 := snow_s2 (snow_r2 s), snow_r2 := snow_s1 (snow_r1 s), snow_r1 := r\<rparr>))"

definition GET32 :: "byte list \<Rightarrow> nat \<Rightarrow> u32" where
  "GET32 b i = push_bit 24 (ucast (b ! i)) OR push_bit 16 (ucast (b ! (i + 1))) OR
     push_bit 8 (ucast (b ! (i + 2))) OR ucast (b ! (i + 3))"

text \<open>The loop of 32 clocks; \<open>mem\<close> is what was in the array.\<close>

fun init_clocks :: "nat \<Rightarrow> snow3g_t \<Rightarrow> snow3g_t" where
  "init_clocks 0 s = s"
| "init_clocks (Suc n) s = init_clocks n (let (f, s') = clock_fsm s in lfsr_init s' f)"

definition snow3g_load :: "u32 list \<Rightarrow> byte list \<Rightarrow> byte list \<Rightarrow> snow3g_t" where
  "snow3g_load mem kb ivb =
     (let k = map (\<lambda>i. GET32 kb (i * 4)) [0..<4]; iv = map (\<lambda>i. GET32 ivb (i * 4)) [0..<4]
      in \<lparr>s_array = [k ! 0 XOR 0xFFFFFFFF, k ! 1 XOR 0xFFFFFFFF, k ! 2 XOR 0xFFFFFFFF, k ! 3 XOR 0xFFFFFFFF,
            k ! 0, k ! 1, k ! 2, k ! 3,
            k ! 0 XOR 0xFFFFFFFF, k ! 1 XOR 0xFFFFFFFF XOR iv ! 3, k ! 2 XOR 0xFFFFFFFF XOR iv ! 2, k ! 3 XOR 0xFFFFFFFF,
            k ! 0 XOR iv ! 1, k ! 1, k ! 2, k ! 3 XOR iv ! 0] @ drop 16 mem,
          s_ptr = 0, snow_r1 = 0, snow_r2 = 0, snow_r3 = 0\<rparr>)"

definition snow3g_init :: "u32 list \<Rightarrow> byte list \<Rightarrow> byte list \<Rightarrow> snow3g_t" where
  "snow3g_init mem kb ivb = lfsr_keystream (snd (clock_fsm (init_clocks 32 (snow3g_load mem kb ivb))))"

definition generate_keystream_step :: "snow3g_t \<Rightarrow> u32 \<times> snow3g_t" where
  "generate_keystream_step s =
     (let (f, s') = clock_fsm s in (f XOR stage s' 0, lfsr_keystream s'))"

fun keystream_words :: "nat \<Rightarrow> snow3g_t \<Rightarrow> u32 list" where
  "keystream_words 0 s = []"
| "keystream_words (Suc n) s = (let (z, s') = generate_keystream_step s in z # keystream_words n s')"

section \<open>Ciphering\<close>

text \<open>\<open>htonl\<close> and the view of the words as bytes: most significant byte first.\<close>

definition be_bytes :: "u32 \<Rightarrow> byte list" where
  "be_bytes w = [ucast (drop_bit 24 w), ucast (drop_bit 16 w), ucast (drop_bit 8 w), ucast w]"

lemma length_be_bytes [simp]: "length (be_bytes w) = 4"
  by (simp add: be_bytes_def)

text \<open>The words of the key are taken in reverse order.\<close>

definition snow3g_key :: "byte list \<Rightarrow> byte list" where
  "snow3g_key key = map (\<lambda>i. key ! i) [12, 13, 14, 15, 8, 9, 10, 11, 4, 5, 6, 7, 0, 1, 2, 3]"

definition ciphering_iv :: "u32 \<Rightarrow> int \<Rightarrow> int \<Rightarrow> byte list" where
  "ciphering_iv count bearer direction =
     (let b = word_of_int (push_bit 3 bearer OR push_bit 2 direction); c = be_bytes count
      in [b, 0, 0, 0] @ c @ [b, 0, 0, 0] @ c)"

definition snow3g_ciphering ::
  "u32 list \<Rightarrow> u32 \<Rightarrow> int \<Rightarrow> int \<Rightarrow> byte list \<Rightarrow> byte list \<Rightarrow> byte list" where
  "snow3g_ciphering mem count bearer direction key inp =
     (let s = snow3g_init mem (snow3g_key key) (ciphering_iv count bearer direction);
          keystream_count = (length inp + 3) div 4;
          keystream = concat (map be_bytes (keystream_words keystream_count s))
      in map2 (XOR) inp keystream)"

section \<open>Integrity\<close>

text \<open>\<open>GET64\<close> on the bytes that are available: what is missing counts as zero.\<close>

definition GET64 :: "byte list \<Rightarrow> u64" where
  "GET64 p =
     (let g = (\<lambda>i. if i < length p then ucast (p ! i) else 0)
      in push_bit 56 (g 0) OR push_bit 48 (g 1) OR push_bit 40 (g 2) OR push_bit 32 (g 3) OR
         push_bit 24 (g 4) OR push_bit 16 (g 5) OR push_bit 8 (g 6) OR g 7)"

definition MULx64 :: "u64 \<Rightarrow> u64 \<Rightarrow> u64" where
  "MULx64 v c = (if v AND push_bit 63 1 \<noteq> 0 then push_bit 1 v XOR c else push_bit 1 v)"

fun MULxPOW64 :: "u64 \<Rightarrow> nat \<Rightarrow> u64 \<Rightarrow> u64" where
  "MULxPOW64 v 0 c = v"
| "MULxPOW64 v (Suc i) c = MULx64 (MULxPOW64 v i c) c"

definition MUL64 :: "u64 \<Rightarrow> u64 \<Rightarrow> u64 \<Rightarrow> u64" where
  "MUL64 v p c =
     fold (\<lambda>i result. if drop_bit i p AND 1 \<noteq> 0 then result XOR MULxPOW64 v i c else result) [0..<64] 0"

text \<open>The table \<open>pm\<close>, a two-dimensional array on the stack.\<close>

type_synonym pm_table = "nat \<Rightarrow> nat \<Rightarrow> u64"

definition pm_set :: "pm_table \<Rightarrow> nat \<Rightarrow> nat \<Rightarrow> u64 \<Rightarrow> pm_table" where
  "pm_set pm i j v = pm(i := (pm i)(j := v))"

definition mul_p :: "pm_table \<Rightarrow> u64 \<Rightarrow> u64" where
  "mul_p pm x =
     (let x0 = unat (drop_bit 56 x AND 255); x1 = unat (drop_bit 48 x AND 255);
          x2 = unat (drop_bit 40 x AND 255); x3 = unat (drop_bit 32 x AND 255);
          x4 = unat (drop_bit 24 x AND 255); x5 = unat (drop_bit 16 x AND 255);
          x6 = unat (drop_bit 8 x AND 255); x7 = unat (x AND 255)
      in pm 0 x7 XOR pm 1 x6 XOR pm 2 x5 XOR pm 3 x4 XOR pm 4 x3 XOR pm 5 x2 XOR pm 6 x1 XOR pm 7 x0)"

text \<open>
  The precomputation: the zeros and the first power, the powers of x (\<open>i = 1 .. 63\<close>), the sums of
  a row (\<open>k = 1 .. 2 ^ j - 1\<close> for \<open>j = 1 .. 7\<close>).
\<close>

definition pm_start :: "u64 \<Rightarrow> pm_table \<Rightarrow> pm_table" where
  "pm_start p pm = pm_set (fold (\<lambda>i pm. pm_set pm i 0 0) [0..<8] pm) 0 1 p"

definition pm_power :: "nat \<Rightarrow> pm_table \<Rightarrow> pm_table" where
  "pm_power i pm =
     (let q = pm ((i - 1) div 8) (2 ^ ((i - 1) mod 8));
          v = push_bit 1 q;
          v' = (if q AND 0x8000000000000000 \<noteq> 0 then v XOR 0x1b else v)
      in pm_set pm (i div 8) (2 ^ (i mod 8)) v')"

definition pm_sum :: "nat \<Rightarrow> nat \<Rightarrow> nat \<Rightarrow> pm_table \<Rightarrow> pm_table" where
  "pm_sum i j k pm = pm_set pm i (2 ^ j + k) (pm i (2 ^ j) XOR pm i k)"

definition pm_row :: "nat \<Rightarrow> pm_table \<Rightarrow> pm_table" where
  "pm_row i pm = fold (\<lambda>j. fold (pm_sum i j) [1..<2 ^ j]) [1..<8] pm"

definition pm_build :: "u64 \<Rightarrow> pm_table \<Rightarrow> pm_table" where
  "pm_build p pm = fold pm_row [0..<8] (fold pm_power [1..<64] (pm_start p pm))"

definition integrity_iv :: "u32 \<Rightarrow> u32 \<Rightarrow> int \<Rightarrow> byte list" where
  "integrity_iv count fresh direction =
     (let dbit = word_of_int (push_bit 7 (direction AND 1)); c = be_bytes count; f = be_bytes fresh
      in [f ! 0, f ! 1, f ! 2 XOR dbit, f ! 3] @ [c ! 0 XOR dbit, c ! 1, c ! 2, c ! 3] @ f @ c)"

text \<open>The whole blocks of 8 bytes before the last one.\<close>

fun integrity_blocks :: "pm_table \<Rightarrow> byte list \<Rightarrow> int \<Rightarrow> nat \<Rightarrow> u64 \<Rightarrow> u64 res" where
  "integrity_blocks pm inp i 0 ev = Inr ev"
| "integrity_blocks pm inp i (Suc n) ev =
     res_bind (slice inp (i * 8) 8) (\<lambda>m. integrity_blocks pm inp (i + 1) n (mul_p pm (ev XOR GET64 m)))"

text \<open>The length in bits is not wrapped here; in the code it is a number of 32 bits, so messages have less than 2 ^ 28 bytes.\<close>

definition snow3g_integrity_fresh ::
  "u32 list \<Rightarrow> pm_table \<Rightarrow> u32 \<Rightarrow> u32 \<Rightarrow> int \<Rightarrow> byte list \<Rightarrow> byte list \<Rightarrow> byte list res" where
  "snow3g_integrity_fresh mem pm0 count fresh direction key inp =
     (let len = int (length inp);
          s = snow3g_init mem (snow3g_key key) (integrity_iv count fresh direction);
          z = keystream_words 5 s;
          d = (len * 8 + 63) div 64 + 1;
          p = push_bit 32 (ucast (z ! 0)) OR ucast (z ! 1);
          q = push_bit 32 (ucast (z ! 2)) OR ucast (z ! 3);
          otp = ucast (z ! 4);
          pm = pm_build p pm0
      in res_bind (integrity_blocks pm inp 0 (nat (d - 2)) 0) (\<lambda>ev.
         res_bind (slice inp ((d - 2) * 8) (min 8 (len - (d - 2) * 8))) (\<lambda>m.
         let ev1 = mul_p pm (ev XOR GET64 m);
             ev2 = ev1 XOR word_of_int len * 8;
             ev3 = drop_bit 32 (MUL64 ev2 q 0x1b) XOR otp
         in Inr [ucast (drop_bit 24 ev3 AND 0xFF), ucast (drop_bit 16 ev3 AND 0xFF),
                 ucast (drop_bit 8 ev3 AND 0xFF), ucast (ev3 AND 0xFF)])))"

definition snow3g_integrity ::
  "u32 list \<Rightarrow> pm_table \<Rightarrow> u32 \<Rightarrow> int \<Rightarrow> int \<Rightarrow> byte list \<Rightarrow> byte list \<Rightarrow> byte list res" where
  "snow3g_integrity mem pm0 count bearer direction key inp =
     snow3g_integrity_fresh mem pm0 count (push_bit 27 (word_of_int bearer)) direction key inp"

end
