(* ===== verification/Snow3gRef.thy ===== *)
theory Snow3gRef
  imports Snow3g
begin

unbundle bit_operations_syntax

text \<open>
  SNOW 3G as it is specified, and the proof that \<open>snow3g.c\<close> computes it. The specification shifts
  a register of 16 words (the code disabled by \<open>#if 0\<close> in \<open>lfsr_init\<close> and \<open>lfsr_keystream\<close>), the
  code moves a pointer in an array of 32. The specification of the integrity algorithm multiplies
  polynomials bit by bit with \<open>MUL64\<close>, the code looks up eight bytes in a table.
\<close>

section \<open>The register of 16 words\<close>

type_synonym spec_state = "u32 list \<times> u32 \<times> u32 \<times> u32"

definition spec_shift :: "u32 \<Rightarrow> u32 list \<Rightarrow> u32 list" where
  "spec_shift v s = tl s @ [v]"

fun spec_fsm :: "spec_state \<Rightarrow> u32 \<times> spec_state" where
  "spec_fsm (s, a, b, c) = ((s ! 15 + a) XOR b, (s, b + (c XOR s ! 5), snow_s1 a, snow_s2 b))"

fun spec_lfsr :: "u32 \<Rightarrow> spec_state \<Rightarrow> spec_state" where
  "spec_lfsr f (s, r) = (spec_shift (lfsr_value (s ! 0) (s ! 2) (s ! 11) XOR f) s, r)"

fun spec_init :: "nat \<Rightarrow> spec_state \<Rightarrow> spec_state" where
  "spec_init 0 s = s"
| "spec_init (Suc n) s = spec_init n (let (f, s') = spec_fsm s in spec_lfsr f s')"

fun spec_words :: "nat \<Rightarrow> spec_state \<Rightarrow> u32 list" where
  "spec_words 0 s = []"
| "spec_words (Suc n) s = (let (f, s') = spec_fsm s in (f XOR fst s' ! 0) # spec_words n (spec_lfsr 0 s'))"

definition spec_load :: "byte list \<Rightarrow> byte list \<Rightarrow> spec_state" where
  "spec_load kb ivb =
     (let k = \<lambda>i. GET32 kb (i * 4); iv = \<lambda>i. GET32 ivb (i * 4); n = \<lambda>i. k i XOR 0xFFFFFFFF
      in ([n 0, n 1, n 2, n 3, k 0, k 1, k 2, k 3,
           n 0, n 1 XOR iv 3, n 2 XOR iv 2, n 3, k 0 XOR iv 1, k 1, k 2, k 3 XOR iv 0], 0, 0, 0))"

definition spec_keystream :: "byte list \<Rightarrow> byte list \<Rightarrow> nat \<Rightarrow> u32 list" where
  "spec_keystream kb ivb n =
     spec_words n (spec_lfsr 0 (snd (spec_fsm (spec_init 32 (spec_load kb ivb)))))"

section \<open>The register with a moving pointer\<close>

text \<open>
  The 16 stages start at the pointer; what is before the pointer has been written twice.
\<close>

definition snow_window :: "snow3g_t \<Rightarrow> u32 list" where
  "snow_window s = map (stage s) [0..<16]"

definition snow_abs :: "snow3g_t \<Rightarrow> spec_state" where
  "snow_abs s = (snow_window s, snow_r1 s, snow_r2 s, snow_r3 s)"

definition snow_ok :: "snow3g_t \<Rightarrow> bool" where
  "snow_ok s \<longleftrightarrow> length (s_array s) = 32 \<and> s_ptr s < 16 \<and>
     (\<forall>i < s_ptr s. s_array s ! i = s_array s ! (i + 16))"

lemma length_snow_window [simp]: "length (snow_window s) = 16"
  by (simp add: snow_window_def)

lemma snow_window_nth [simp]: "i < 16 \<Longrightarrow> snow_window s ! i = stage s i"
  by (simp add: snow_window_def)

lemma lfsr_shift_ok:
  assumes "snow_ok s"
  shows "snow_ok (lfsr_shift v s)"
  using assms by (auto simp: snow_ok_def lfsr_shift_def Let_def nth_list_update less_Suc_eq)

lemma lfsr_shift_window:
  assumes "snow_ok s"
  shows "snow_window (lfsr_shift v s) = spec_shift v (snow_window s)"
proof (rule nth_equalityI)
  show "length (snow_window (lfsr_shift v s)) = length (spec_shift v (snow_window s))"
    by (simp add: spec_shift_def)
next
  fix i assume "i < length (snow_window (lfsr_shift v s))"
  then have i: "i < 16" by simp
  let ?p = "s_ptr s"
  have len: "length (s_array s) = 32" "?p < 16"
    and copy: "\<And>j. j < ?p \<Longrightarrow> s_array s ! j = s_array s ! (j + 16)"
    using assms by (auto simp: snow_ok_def)
  have spec: "spec_shift v (snow_window s) ! i = (if i = 15 then v else stage s (i + 1))"
    using i by (auto simp: spec_shift_def nth_append nth_tl)
  show "snow_window (lfsr_shift v s) ! i = spec_shift v (snow_window s) ! i"
  proof (cases "?p = 15")
    case True
    with i len copy [of i] show ?thesis
      unfolding spec by (auto simp: stage_def lfsr_shift_def Let_def nth_list_update add.commute)
  next
    case False
    with i len show ?thesis
      unfolding spec by (auto simp: stage_def lfsr_shift_def Let_def nth_list_update)
  qed
qed

lemma lfsr_shift_regs [simp]:
  "snow_r1 (lfsr_shift v s) = snow_r1 s" "snow_r2 (lfsr_shift v s) = snow_r2 s"
  "snow_r3 (lfsr_shift v s) = snow_r3 s"
  by (simp_all add: lfsr_shift_def Let_def)

lemma clock_fsm_refines:
  assumes "clock_fsm s = (f, s')"
  shows "spec_fsm (snow_abs s) = (f, snow_abs s')" and "snow_ok s' = snow_ok s"
proof -
  have "stage s' = stage s" "snow_ok s' = snow_ok s"
    using assms by (auto simp: clock_fsm_def Let_def stage_def fun_eq_iff snow_ok_def)
  then show "spec_fsm (snow_abs s) = (f, snow_abs s')" "snow_ok s' = snow_ok s"
    using assms by (auto simp: clock_fsm_def Let_def snow_abs_def snow_window_def)
qed

lemma lfsr_init_refines:
  assumes "snow_ok s"
  shows "snow_abs (lfsr_init s f) = spec_lfsr f (snow_abs s)" and "snow_ok (lfsr_init s f)"
  using lfsr_shift_window [OF assms] lfsr_shift_ok [OF assms]
  by (simp_all add: lfsr_init_def snow_abs_def)

lemma lfsr_keystream_init: "lfsr_keystream s = lfsr_init s 0"
  by (simp add: lfsr_keystream_def lfsr_init_def)

lemma init_clocks_refines:
  assumes "snow_ok s"
  shows "snow_abs (init_clocks n s) = spec_init n (snow_abs s) \<and> snow_ok (init_clocks n s)"
  using assms
proof (induction n arbitrary: s)
  case (Suc n)
  obtain f s' where c: "clock_fsm s = (f, s')" by fastforce
  then have "snow_ok s'" using Suc.prems clock_fsm_refines by blast
  with Suc.IH [of "lfsr_init s' f"] c clock_fsm_refines(1) [OF c] show ?case
    by (simp add: lfsr_init_refines)
qed simp

lemma keystream_words_refines:
  assumes "snow_ok s"
  shows "keystream_words n s = spec_words n (snow_abs s)"
  using assms
proof (induction n arbitrary: s)
  case (Suc n)
  obtain f s' where c: "clock_fsm s = (f, s')" by fastforce
  then have "snow_ok s'" using Suc.prems clock_fsm_refines by blast
  with Suc.IH [of "lfsr_keystream s'"] c clock_fsm_refines(1) [OF c] show ?case
    by (simp add: generate_keystream_step_def lfsr_keystream_init lfsr_init_refines)
       (simp add: snow_abs_def)
qed simp

lemma snow3g_load_refines:
  assumes "length mem = 32"
  shows "snow_abs (snow3g_load mem kb ivb) = spec_load kb ivb" "snow_ok (snow3g_load mem kb ivb)"
  using assms
  by (simp_all add: snow_abs_def snow3g_load_def spec_load_def snow_ok_def snow_window_def stage_def
      Let_def upt_rec numeral_eq_Suc xor.assoc)

text \<open>The key stream does not depend on what was in the array.\<close>

lemma snow3g_keystream_refines:
  assumes "length mem = 32"
  shows "keystream_words n (snow3g_init mem kb ivb) = spec_keystream kb ivb n"
proof -
  let ?s = "init_clocks 32 (snow3g_load mem kb ivb)"
  have s: "snow_abs ?s = spec_init 32 (spec_load kb ivb)" "snow_ok ?s"
    using init_clocks_refines [of "snow3g_load mem kb ivb" 32] snow3g_load_refines [OF assms] by auto
  obtain f s' where c: "clock_fsm ?s = (f, s')" by fastforce
  then have "snow_ok s'" using s clock_fsm_refines by blast
  then show ?thesis
    using c clock_fsm_refines(1) [OF c] s
    by (simp add: snow3g_init_def spec_keystream_def keystream_words_refines lfsr_keystream_init
        lfsr_init_refines)
qed

section \<open>Sums over the bits of a word\<close>

text \<open>The sum, in GF(2), of the \<open>f i\<close> whose bit \<open>i\<close> is set.\<close>

primrec xbits :: "(nat \<Rightarrow> u64) \<Rightarrow> nat \<Rightarrow> (nat \<Rightarrow> bool) \<Rightarrow> u64" where
  "xbits f 0 B = 0"
| "xbits f (Suc n) B = xbits f n B XOR (if B n then f n else 0)"

lemma xbits_cong:
  "(\<And>i. i < n \<Longrightarrow> B i \<Longrightarrow> f i = g i) \<Longrightarrow> (\<And>i. i < n \<Longrightarrow> B i = B' i) \<Longrightarrow> xbits f n B = xbits g n B'"
  by (induction n) auto

lemma xbits_zero [simp]: "xbits (\<lambda>i. 0) n B = 0"
  by (induction n) auto

lemma xbits_add: "xbits f (m + n) B = xbits f m B XOR xbits (\<lambda>i. f (m + i)) n (\<lambda>i. B (m + i))"
  by (induction n) (auto simp: xor.assoc)

lemma xbits_xor: "xbits (\<lambda>i. f i XOR g i) n B = xbits f n B XOR xbits g n B"
  by (induction n) (auto simp: xor.assoc xor.left_commute)

lemma xbits_if: "xbits (\<lambda>i. if C then f i else 0) n B = (if C then xbits f n B else 0)"
  by simp

lemma xbits_swap:
  "xbits (\<lambda>b. xbits (\<lambda>a. F a b) m A) n B = xbits (\<lambda>a. xbits (\<lambda>b. F a b) n B) m A"
proof (induction n)
  case (Suc n)
  have "xbits (\<lambda>a. xbits (F a) n B XOR (if B n then F a n else 0)) m A =
        xbits (\<lambda>a. xbits (F a) n B) m A XOR (if B n then xbits (\<lambda>a. F a n) m A else 0)"
    by (simp add: xbits_xor)
  then show ?case using Suc.IH by simp
qed simp

lemma bit_xbits_powers: "bit (xbits (\<lambda>i. 2 ^ i) n B) m \<longleftrightarrow> m < n \<and> m < 64 \<and> B m"
  by (induction n) (auto simp: bit_xor_iff bit_exp_iff less_Suc_eq)

lemma xbits_powers: "xbits (\<lambda>i. 2 ^ i) 64 (bit v) = v"
  by (rule bit_word_eqI) (simp add: bit_xbits_powers)

lemma MUL64_xbits: "MUL64 v p c = xbits (\<lambda>i. MULxPOW64 v i c) 64 (bit p)"
proof -
  have "fold (\<lambda>i r. if drop_bit i p AND 1 \<noteq> 0 then r XOR MULxPOW64 v i c else r) [0..<n] 0 =
        xbits (\<lambda>i. MULxPOW64 v i c) n (bit p)" for n
    by (induction n) (simp_all add: and_one_eq bit_iff_odd_drop_bit odd_iff_mod_2_eq_one)
  then show ?thesis by (simp add: MUL64_def)
qed

section \<open>Multiplication is commutative\<close>

lemma and_top_bit: "(v :: u64) AND 0x8000000000000000 \<noteq> 0 \<longleftrightarrow> bit v 63"
  using and_exp_eq_0_iff_not_bit [of v 63] by simp

lemma MULx64_bit: "MULx64 v c = (if bit v 63 then push_bit 1 v XOR c else push_bit 1 v)"
  by (simp add: MULx64_def and_top_bit)

lemma MULx64_xor: "MULx64 (a XOR b) c = MULx64 a c XOR MULx64 b c"
  by (simp add: MULx64_bit bit_xor_iff push_bit_xor ac_simps del: push_bit_numeral push_bit_Suc)

lemma MULx64_0 [simp]: "MULx64 0 c = 0"
  by (simp add: MULx64_def)

lemma MULxPOW64_xor: "MULxPOW64 (a XOR b) n c = MULxPOW64 a n c XOR MULxPOW64 b n c"
  by (induction n) (auto simp: MULx64_xor)

lemma MULxPOW64_0 [simp]: "MULxPOW64 0 n c = 0"
  by (induction n) auto

lemma MULxPOW64_xbits: "MULxPOW64 (xbits f n B) m c = xbits (\<lambda>i. MULxPOW64 (f i) m c) n B"
  by (induction n) (auto simp: MULxPOW64_xor)

lemma MULxPOW64_add: "MULxPOW64 (MULxPOW64 v m c) n c = MULxPOW64 v (m + n) c"
  by (induction n) auto

lemma MULxPOW64_1: "i < 64 \<Longrightarrow> MULxPOW64 1 i c = 2 ^ i"
proof (induction i)
  case (Suc i)
  then have "\<not> bit ((2 :: u64) ^ i) 63" by (simp add: bit_exp_iff)
  with Suc show ?case by (simp add: MULx64_bit)
qed simp

lemma MULxPOW64_power:
  "a < 64 \<Longrightarrow> b < 64 \<Longrightarrow> MULxPOW64 (2 ^ a) b c = MULxPOW64 (2 ^ b) a c"
  using MULxPOW64_add [of 1 a c b] MULxPOW64_add [of 1 b c a]
  by (simp add: MULxPOW64_1 add.commute)

lemma MUL64_expand:
  "MUL64 v p c = xbits (\<lambda>b. xbits (\<lambda>a. MULxPOW64 (2 ^ a) b c) 64 (bit v)) 64 (bit p)"
proof -
  have "MULxPOW64 v b c = xbits (\<lambda>a. MULxPOW64 (2 ^ a) b c) 64 (bit v)" for b
    using MULxPOW64_xbits [of "\<lambda>i. 2 ^ i" 64 "bit v" b c] by (simp only: xbits_powers)
  then show ?thesis by (simp only: MUL64_xbits)
qed

lemma MUL64_commute: "MUL64 v p c = MUL64 p v c"
proof -
  have "MUL64 v p c = xbits (\<lambda>a. xbits (\<lambda>b. MULxPOW64 (2 ^ a) b c) 64 (bit p)) 64 (bit v)"
    unfolding MUL64_expand by (rule xbits_swap)
  also have "\<dots> = xbits (\<lambda>a. xbits (\<lambda>b. MULxPOW64 (2 ^ b) a c) 64 (bit p)) 64 (bit v)"
    by (intro xbits_cong MULxPOW64_power refl) auto
  also have "\<dots> = MUL64 p v c" by (rule MUL64_expand [symmetric])
  finally show ?thesis .
qed

section \<open>The table\<close>

text \<open>An entry of a row: the sum of the powers its index selects.\<close>

definition pm_entry :: "u64 \<Rightarrow> nat \<Rightarrow> nat \<Rightarrow> u64" where
  "pm_entry p i b = xbits (\<lambda>t. MULxPOW64 p (8 * i + t) 0x1b) 8 (bit b)"

text \<open>The zeros and the powers are in place.\<close>

definition pm_seeded :: "u64 \<Rightarrow> nat \<Rightarrow> pm_table \<Rightarrow> bool" where
  "pm_seeded p n pm \<longleftrightarrow> (\<forall>i < 8. pm i 0 = 0) \<and>
     (\<forall>t < n. pm (t div 8) (2 ^ (t mod 8)) = MULxPOW64 p t 0x1b)"

lemma pm_set_apply [simp]: "pm_set pm i j v i' j' = (if i' = i \<and> j' = j then v else pm i' j')"
  by (simp add: pm_set_def)

lemma pm_zeros_apply:
  "fold (\<lambda>i pm. pm_set pm i 0 0) [0..<n] pm i' b = (if i' < n \<and> b = 0 then 0 else pm i' b)"
  by (induction n) auto

lemma pm_start_seeded: "pm_seeded p 1 (pm_start p pm)"
  by (simp add: pm_seeded_def pm_start_def pm_zeros_apply)

lemma pm_power_seeded:
  assumes "pm_seeded p n pm" "0 < n"
  shows "pm_seeded p (Suc n) (pm_power n pm)"
proof -
  have prev: "pm ((n - 1) div 8) (2 ^ ((n - 1) mod 8)) = MULxPOW64 p (n - 1) 0x1b"
    using assms by (simp add: pm_seeded_def)
  have "MULxPOW64 p n 0x1b = MULx64 (MULxPOW64 p (n - 1) 0x1b) 0x1b"
    using assms(2) by (cases n) auto
  moreover have "t div 8 \<noteq> n div 8 \<or> t mod 8 \<noteq> n mod 8" if "t < n" for t
    using that by (metis div_mult_mod_eq less_irrefl)
  ultimately show ?thesis
    using assms
    by (auto simp: pm_seeded_def pm_power_def Let_def prev and_top_bit MULx64_bit less_Suc_eq
        simp del: push_bit_numeral push_bit_Suc)
qed

lemma pm_powers_seeded:
  assumes "pm_seeded p 1 pm"
  shows "pm_seeded p (Suc n) (fold pm_power [1..<Suc n] pm)"
proof (induction n)
  case 0
  then show ?case using assms by simp
next
  case (Suc n)
  then show ?case using pm_power_seeded [of p "Suc n"] by simp
qed

lemma pm_sums_apply:
  assumes "n \<le> 2 ^ j"
  shows "fold (pm_sum i j) [1..<n] pm i' b =
     (if i' = i \<and> 2 ^ j < b \<and> b < 2 ^ j + n then pm i (2 ^ j) XOR pm i (b - 2 ^ j) else pm i' b)"
  using assms
proof (induction n arbitrary: i' b)
  case (Suc n)
  define F where "F = fold (pm_sum i j) [1..<n] pm"
  have IH: "F i'' b' = (if i'' = i \<and> 2 ^ j < b' \<and> b' < 2 ^ j + n
      then pm i (2 ^ j) XOR pm i (b' - 2 ^ j) else pm i'' b')" for i'' b'
    unfolding F_def using Suc by simp
  show ?case
  proof (cases "n = 0")
    case False
    then have step: "fold (pm_sum i j) [1..<Suc n] pm = pm_sum i j n F" by (simp add: F_def)
    have "F i (2 ^ j) = pm i (2 ^ j)" "F i n = pm i n" using Suc.prems by (simp_all add: IH)
    then show ?thesis
      unfolding step using False IH [of i' b]
      by (cases "i' = i \<and> b = 2 ^ j + n") (auto simp: pm_sum_def)
  qed auto
qed auto

lemma bit_add_power:
  assumes "k < 2 ^ j" "t < j"
  shows "bit (2 ^ j + k :: nat) t = bit k t"
  using assms by (metis add.commute bit_take_bit_iff take_bit_nat_eq_self_iff
      mod_add_self2 take_bit_eq_mod)

lemma bit_add_power_top: "k < 2 ^ j \<Longrightarrow> bit (2 ^ j + k :: nat) j"
  by (simp add: bit_iff_odd div_add1_eq)

lemma pm_row_prefix:
  assumes z: "pm i 0 = 0" and g: "\<And>t. t < 8 \<Longrightarrow> pm i (2 ^ t) = g t" and m: "1 \<le> m" "m \<le> 8"
  defines "pm' \<equiv> fold (\<lambda>j. fold (pm_sum i j) [1..<2 ^ j]) [1..<m] pm"
  shows "(\<forall>b < 2 ^ m. pm' i b = xbits g m (bit b)) \<and> (\<forall>t < 8. pm' i (2 ^ t) = g t) \<and>
     (\<forall>i' b. i' \<noteq> i \<longrightarrow> pm' i' b = pm i' b)"
  using m unfolding pm'_def
proof (induction m)
  case (Suc m)
  show ?case
  proof (cases "m = 0")
    case True
    then show ?thesis using z g [of 0] g by (auto simp: less_Suc_eq numeral_2_eq_2 bit_0)
  next
    case False
    define q where "q = fold (\<lambda>j. fold (pm_sum i j) [1..<2 ^ j]) [1..<m] pm"
    define r where "r = fold (pm_sum i m) [1..<2 ^ m] q"
    have IH: "\<And>b. b < 2 ^ m \<Longrightarrow> q i b = xbits g m (bit b)" "\<And>t. t < 8 \<Longrightarrow> q i (2 ^ t) = g t"
      "\<And>i' b. i' \<noteq> i \<Longrightarrow> q i' b = pm i' b"
      using Suc.IH Suc.prems False unfolding q_def by auto
    have r: "r i' b = (if i' = i \<and> 2 ^ m < b \<and> b < 2 ^ m + 2 ^ m
        then q i (2 ^ m) XOR q i (b - 2 ^ m) else q i' b)" for i' b
      unfolding r_def by (rule pm_sums_apply) simp
    have low: "r i b = xbits g (Suc m) (bit b)" if "b < 2 ^ m" for b
    proof -
      have "\<not> bit b m" using that by (metis bit_take_bit_iff less_irrefl take_bit_nat_eq_self_iff)
      then show ?thesis using that IH(1) by (simp add: r)
    qed
    have high: "r i b = xbits g (Suc m) (bit b)" if b: "2 ^ m \<le> b" "b < 2 ^ Suc m" for b
    proof -
      obtain k where k: "b = 2 ^ m + k" "k < 2 ^ m" using b by (auto simp: le_iff_add)
      have "xbits g m (bit b) = xbits g m (bit k)"
        unfolding k(1) by (rule xbits_cong) (auto simp: bit_add_power k(2))
      moreover have "q i (2 ^ m) = g m" using IH(2) Suc.prems by simp
      moreover have "q i k = xbits g m (bit k)" using IH(1) k(2) by simp
      moreover have "xbits g m (bit (0 :: nat)) = 0"
        by (induction m) auto
      ultimately show ?thesis
        using k IH(2) Suc.prems by (cases "k = 0") (auto simp: r bit_add_power_top xor.commute bit_exp_iff)
    qed
    have pow: "r i (2 ^ t) = g t" if "t < 8" for t
    proof -
      have "\<not> ((2 :: nat) ^ m < 2 ^ t \<and> (2 :: nat) ^ t < 2 ^ m + 2 ^ m)"
        by (auto simp flip: mult_2 power_Suc simp del: power_Suc)
      then show ?thesis using IH(2) that by (auto simp: r)
    qed
    have "r i b = xbits g (Suc m) (bit b)" if "b < 2 ^ Suc m" for b
      using low [of b] high [of b] that by (cases "b < 2 ^ m") auto
    moreover have "fold (\<lambda>j. fold (pm_sum i j) [1..<2 ^ j]) [1..<Suc m] pm = r"
      using False by (simp add: r_def q_def)
    ultimately show ?thesis using pow IH(3) r by simp
  qed
qed simp

lemma pm_row_apply:
  assumes "pm i 0 = 0" "\<And>t. t < 8 \<Longrightarrow> pm i (2 ^ t) = MULxPOW64 p (8 * i + t) 0x1b"
  shows "b < 256 \<Longrightarrow> pm_row i pm i b = pm_entry p i b" and "i' \<noteq> i \<Longrightarrow> pm_row i pm i' b = pm i' b"
  using pm_row_prefix [of pm i "\<lambda>t. MULxPOW64 p (8 * i + t) 0x1b" 8] assms
  unfolding pm_row_def pm_entry_def by simp_all

lemma pm_seeded_row:
  assumes "pm_seeded p 64 pm" "i < 8" "t < 8"
  shows "pm i (2 ^ t) = MULxPOW64 p (8 * i + t) 0x1b"
proof -
  have "8 * i + t < 64" "(8 * i + t) div 8 = i" "(8 * i + t) mod 8 = t" using assms by simp_all
  with assms(1) show ?thesis unfolding pm_seeded_def by metis
qed

lemma pm_rows_apply:
  assumes s: "pm_seeded p 64 pm" and "n \<le> 8"
  defines "pm' \<equiv> fold pm_row [0..<n] pm"
  shows "(\<forall>i < n. \<forall>b < 256. pm' i b = pm_entry p i b) \<and> (\<forall>i \<ge> n. pm' i = pm i)"
  using \<open>n \<le> 8\<close> unfolding pm'_def
proof (induction n)
  case (Suc n)
  define q where "q = fold pm_row [0..<n] pm"
  have IH: "\<And>i b. i < n \<Longrightarrow> b < 256 \<Longrightarrow> q i b = pm_entry p i b" "\<And>i. n \<le> i \<Longrightarrow> q i = pm i"
    using Suc unfolding q_def by auto
  have "q n 0 = 0" "\<And>t. t < 8 \<Longrightarrow> q n (2 ^ t) = MULxPOW64 p (8 * n + t) 0x1b"
    using IH(2) s Suc.prems pm_seeded_row [OF s] by (auto simp: pm_seeded_def)
  note row = pm_row_apply [of q n p, OF this]
  have "\<forall>i < Suc n. \<forall>b < 256. pm_row n q i b = pm_entry p i b"
    using row IH(1) by (auto simp: less_Suc_eq)
  moreover have "\<forall>i \<ge> Suc n. pm_row n q i = pm i"
    using row(2) IH(2) by (auto simp: fun_eq_iff)
  ultimately show ?case by (simp add: q_def)
qed simp

lemma pm_build_apply: "i < 8 \<Longrightarrow> b < 256 \<Longrightarrow> pm_build p pm i b = pm_entry p i b"
  using pm_rows_apply [of p "fold pm_power [1..<64] (pm_start p pm)" 8]
    pm_powers_seeded [OF pm_start_seeded, of p 63 pm]
  by (simp add: pm_build_def)

section \<open>Lookup\<close>

lemma unat_byte_less: "unat (drop_bit s (x :: u64) AND 255) < 256"
proof -
  have "drop_bit s x AND 255 \<le> 255" by (rule word_and_le1)
  then show ?thesis by (simp add: word_le_nat_alt)
qed

lemma bit_unat_byte: "t < 8 \<Longrightarrow> bit (unat (drop_bit s (x :: u64) AND 255)) t = bit x (s + t)"
proof -
  assume t: "t < 8"
  have "drop_bit s x AND 255 = take_bit 8 (drop_bit s x)"
    by (simp add: take_bit_eq_mask mask_eq_exp_minus_1)
  then show ?thesis
    using t by (simp add: unsigned_take_bit_eq bit_take_bit_iff bit_unsigned_iff bit_drop_bit_eq) 
qed

lemma pm_lookup:
  assumes "i < 8" "s = 8 * i"
  shows "pm_build p pm i (unat (drop_bit s (x :: u64) AND 255)) =
    xbits (\<lambda>t. MULxPOW64 p (s + t) 0x1b) 8 (\<lambda>t. bit x (s + t))"
proof -
  have "pm_build p pm i (unat (drop_bit s x AND 255)) = pm_entry p i (unat (drop_bit s x AND 255))"
    by (rule pm_build_apply [OF assms(1) unat_byte_less])
  also have "\<dots> = xbits (\<lambda>t. MULxPOW64 p (s + t) 0x1b) 8 (\<lambda>t. bit x (s + t))"
    unfolding pm_entry_def assms(2) by (rule xbits_cong) (simp_all add: bit_unat_byte)
  finally show ?thesis .
qed

text \<open>The lookup of the eight bytes is the product.\<close>

lemma mul_p_MUL64: "mul_p (pm_build p pm) x = MUL64 p x 0x1b"
proof -
  have split: "xbits f 64 B =
      xbits f 8 B XOR xbits (\<lambda>t. f (8 + t)) 8 (\<lambda>t. B (8 + t)) XOR
      xbits (\<lambda>t. f (16 + t)) 8 (\<lambda>t. B (16 + t)) XOR xbits (\<lambda>t. f (24 + t)) 8 (\<lambda>t. B (24 + t)) XOR
      xbits (\<lambda>t. f (32 + t)) 8 (\<lambda>t. B (32 + t)) XOR xbits (\<lambda>t. f (40 + t)) 8 (\<lambda>t. B (40 + t)) XOR
      xbits (\<lambda>t. f (48 + t)) 8 (\<lambda>t. B (48 + t)) XOR xbits (\<lambda>t. f (56 + t)) 8 (\<lambda>t. B (56 + t))" for f B
    using xbits_add [of f 8 56 B] xbits_add [of "\<lambda>t. f (8 + t)" 8 48 "\<lambda>t. B (8 + t)"]
      xbits_add [of "\<lambda>t. f (16 + t)" 8 40 "\<lambda>t. B (16 + t)"] xbits_add [of "\<lambda>t. f (24 + t)" 8 32 "\<lambda>t. B (24 + t)"]
      xbits_add [of "\<lambda>t. f (32 + t)" 8 24 "\<lambda>t. B (32 + t)"] xbits_add [of "\<lambda>t. f (40 + t)" 8 16 "\<lambda>t. B (40 + t)"]
      xbits_add [of "\<lambda>t. f (48 + t)" 8 8 "\<lambda>t. B (48 + t)"]
    by (simp add: add.assoc [symmetric])
  show ?thesis
    unfolding MUL64_xbits split mul_p_def Let_def
    using pm_lookup [of 0 0 p pm x] pm_lookup [of 1 8 p pm x] pm_lookup [of 2 16 p pm x]
      pm_lookup [of 3 24 p pm x] pm_lookup [of 4 32 p pm x] pm_lookup [of 5 40 p pm x]
      pm_lookup [of 6 48 p pm x] pm_lookup [of 7 56 p pm x]
    by (simp del: xbits.simps)
qed

end
