(* ===== verification/Snow3gUse.thy ===== *)
theory Snow3gUse
  imports Snow3gRef
begin

unbundle bit_operations_syntax

text \<open>
  The two algorithms built on the generator, UEA2 (128-NEA1) and UIA2 (128-NIA1): what they are
  specified to compute, the proof that \<open>snow3g_ciphering\<close> and \<open>snow3g_integrity\<close> compute it, and
  the interface through which PDCP uses a cipher.
\<close>

section \<open>Specifications\<close>

definition uea2 :: "u32 \<Rightarrow> int \<Rightarrow> int \<Rightarrow> byte list \<Rightarrow> byte list \<Rightarrow> byte list" where
  "uea2 count bearer direction key inp =
     map2 (XOR) inp (concat (map be_bytes
       (spec_keystream (snow3g_key key) (ciphering_iv count bearer direction) ((length inp + 3) div 4))))"

text \<open>The message as a polynomial, evaluated by Horner's rule; the last block is filled with zeros.\<close>

function uia2_eval :: "u64 \<Rightarrow> u64 \<Rightarrow> byte list \<Rightarrow> u64" where
  "uia2_eval p ev m =
     (if m = [] then ev else uia2_eval p (MUL64 (ev XOR GET64 (take 8 m)) p 0x1b) (drop 8 m))"
  by pat_completeness auto

termination uia2_eval
  by (relation "measure (\<lambda>(p, ev, m). length m)") auto

declare uia2_eval.simps [simp del]

definition uia2 :: "u32 \<Rightarrow> u32 \<Rightarrow> int \<Rightarrow> byte list \<Rightarrow> byte list \<Rightarrow> byte list" where
  "uia2 count fresh direction key inp =
     (let z = spec_keystream (snow3g_key key) (integrity_iv count fresh direction) 5;
          p = push_bit 32 (ucast (z ! 0)) OR ucast (z ! 1);
          q = push_bit 32 (ucast (z ! 2)) OR ucast (z ! 3);
          ev = MUL64 (uia2_eval p 0 inp XOR of_nat (length inp * 8)) q 0x1b
      in be_bytes (ucast (drop_bit 32 ev) XOR z ! 4))"

section \<open>Ciphering\<close>

lemma length_spec_words [simp]: "length (spec_words n s) = n"
  by (induction n arbitrary: s) (auto simp: Let_def split: prod.splits)

lemma length_spec_keystream [simp]: "length (spec_keystream kb ivb n) = n"
  by (simp add: spec_keystream_def)

lemma length_concat_be_bytes [simp]: "length (concat (map be_bytes ws)) = 4 * length ws"
  by (induction ws) auto

lemma length_uea2 [simp]: "length (uea2 count bearer direction key inp) = length inp"
  by (simp add: uea2_def)

lemma map2_xor_twice:
  "length xs \<le> length (ks :: byte list) \<Longrightarrow> map2 (XOR) (map2 (XOR) xs ks) ks = xs"
  by (rule nth_equalityI) (auto simp: xor.assoc)

lemma uea2_twice: "uea2 count bearer direction key (uea2 count bearer direction key inp) = inp"
  unfolding uea2_def [of _ _ _ _ "uea2 count bearer direction key inp"] length_uea2
  unfolding uea2_def by (rule map2_xor_twice) simp

lemma snow3g_ciphering_uea2:
  "length mem = 32 \<Longrightarrow>
   snow3g_ciphering mem count bearer direction key inp = uea2 count bearer direction key inp"
  by (simp add: snow3g_ciphering_def uea2_def snow3g_keystream_refines)

text \<open>C22: The ciphering of \<open>snow3g.c\<close> is UEA2 as specified with a shift register of 16 words,
  whatever the memory the generator is set up in held before.\<close>

theorem snow3g_ciphering_is_uea2:
  assumes "length mem = 32"
  shows "snow3g_ciphering mem count bearer direction key inp = uea2 count bearer direction key inp"
  using assms by (rule snow3g_ciphering_uea2)

theorem snow3g_ciphering_is_uea2_witness:
  "snow3g_ciphering (replicate 32 7) 5 3 1 (replicate 16 0) [1, 2, 3] =
   snow3g_ciphering (replicate 32 9) 5 3 1 (replicate 16 0) [1, 2, 3]"
  using snow3g_ciphering_is_uea2 [of "replicate 32 7"] snow3g_ciphering_is_uea2 [of "replicate 32 9"] by simp

section \<open>Integrity\<close>

lemma integrity_blocks_eval:
  assumes "8 * (i + n) \<le> length inp"
  shows "\<exists>ev'. integrity_blocks (pm_build p pm) inp (int i) n ev = Inr ev' \<and>
    uia2_eval p ev (drop (8 * i) inp) = uia2_eval p ev' (drop (8 * (i + n)) inp)"
  using assms
proof (induction n arbitrary: i ev)
  case (Suc n)
  let ?b = "take 8 (drop (8 * i) inp)"
  have b: "slice inp (int i * 8) 8 = Inr ?b"
    using Suc.prems by (auto simp: slice_def nat_mult_distrib mult.commute)
  have "drop (8 * i) inp \<noteq> []" using Suc.prems by simp
  then have "uia2_eval p ev (drop (8 * i) inp) =
      uia2_eval p (mul_p (pm_build p pm) (ev XOR GET64 ?b)) (drop (8 * Suc i) inp)"
    by (subst uia2_eval.simps) (simp add: mul_p_MUL64 MUL64_commute [of p] add.commute)
  then show ?case
    using Suc.IH [of "Suc i" "mul_p (pm_build p pm) (ev XOR GET64 ?b)"] Suc.prems b by (simp add: add.commute)
qed simp

lemma uia2_eval_last:
  "m \<noteq> [] \<Longrightarrow> length m \<le> 8 \<Longrightarrow> uia2_eval p ev m = MUL64 (ev XOR GET64 m) p 0x1b"
  using uia2_eval.simps [of p ev m] uia2_eval.simps [of p _ "[]"] by simp

lemma mac_bytes:
  fixes e :: u64 and o32 :: u32
  defines "e' \<equiv> drop_bit 32 e XOR ucast o32"
  shows "[ucast (drop_bit 24 e' AND 0xFF), ucast (drop_bit 16 e' AND 0xFF),
      ucast (drop_bit 8 e' AND 0xFF), ucast (e' AND 0xFF)] = be_bytes (ucast (drop_bit 32 e) XOR o32)"
proof -
  have ff: "(x :: u64) AND 0xFF = take_bit 8 x" for x
    by (simp add: take_bit_eq_mask mask_eq_exp_minus_1)
  have "ucast (drop_bit s e' AND 0xFF) = (ucast (drop_bit s (ucast (drop_bit 32 e) XOR o32)) :: byte)"
    if "s \<le> 24" for s
    unfolding ff e'_def using that
    by (intro bit_word_eqI) (auto simp: bit_ucast_iff bit_take_bit_iff bit_drop_bit_eq bit_xor_iff ac_simps)
  from this [of 24] this [of 16] this [of 8] this [of 0] show ?thesis by (simp add: be_bytes_def)
qed

lemma snow3g_integrity_uia2:
  assumes "length mem = 32" "inp \<noteq> []"
  shows "snow3g_integrity mem pm0 count bearer direction key inp =
    Inr (uia2 count (push_bit 27 (word_of_int bearer)) direction key inp)"
proof -
  define n where "n = (length inp - 1) div 8"
  define rest where "rest = drop (8 * n) inp"
  have n: "8 * n < length inp" "length inp \<le> 8 * n + 8"
    using assms(2) by (auto simp: n_def Suc_le_eq simp flip: length_greater_0_conv)
  have d: "(int (length inp) * 8 + 63) div 64 + 1 - 2 = int n"
    using n by simp
  have rest: "rest \<noteq> []" "length rest \<le> 8" using n by (auto simp: rest_def)
  have last: "slice inp (int n * 8) (min 8 (int (length inp) - int n * 8)) = Inr rest"
    using n by (auto simp: slice_def rest_def min_def nat_mult_distrib mult.commute)
  show ?thesis
  proof -
    let ?iv = "integrity_iv count (push_bit 27 (word_of_int bearer)) direction"
    define z where "z = spec_keystream (snow3g_key key) ?iv 5"
    define p :: u64 where "p = push_bit 32 (ucast (z ! 0)) OR ucast (z ! 1)"
    define q :: u64 where "q = push_bit 32 (ucast (z ! 2)) OR ucast (z ! 3)"
    obtain ev where ev: "integrity_blocks (pm_build p pm0) inp 0 n 0 = Inr ev"
      "uia2_eval p 0 inp = uia2_eval p ev rest"
      using integrity_blocks_eval [of 0 n inp p pm0 0] n by (auto simp: rest_def)
    have mac: "uia2_eval p 0 inp = mul_p (pm_build p pm0) (ev XOR GET64 rest)"
      using ev(2) uia2_eval_last [OF rest] by (simp add: mul_p_MUL64 MUL64_commute [of p])
    show ?thesis
      unfolding snow3g_integrity_def snow3g_integrity_fresh_def uia2_def Let_def d
        snow3g_keystream_refines [OF assms(1)] z_def [symmetric] p_def [symmetric] q_def [symmetric]
      by (simp add: ev(1) last mac flip: mac_bytes)
  qed
qed

text \<open>C21: The message authentication code of \<open>snow3g.c\<close>, computed with the precomputed table, is
  the one of UIA2, which multiplies bit by bit, for every message that is not empty and whatever
  the uninitialised memory holds; no read is outside the message.\<close>

theorem snow3g_integrity_is_uia2:
  assumes "length mem = 32" "inp \<noteq> []"
  shows "snow3g_integrity mem pm0 count bearer direction key inp =
    Inr (uia2 count (push_bit 27 (word_of_int bearer)) direction key inp)"
  using assms by (rule snow3g_integrity_uia2)

theorem snow3g_integrity_is_uia2_witness:
  "snow3g_integrity (replicate 32 7) (\<lambda>i j. 9) 5 3 1 (replicate 16 0) [1, 2, 3] =
   Inr (uia2 5 (push_bit 27 (word_of_int 3)) 1 (replicate 16 0) [1, 2, 3])"
  using snow3g_integrity_is_uia2 [of "replicate 32 7" "[1, 2, 3]"] by simp

text \<open>For an empty message \<open>_snow3g_integrity\<close> computes \<open>d = 1\<close> and reads the 8 bytes before
  the message.\<close>

theorem snow3g_integrity_empty_overread:
  "snow3g_integrity mem pm0 count bearer direction key [] = Inl OutOfBounds"
  by (simp add: snow3g_integrity_def snow3g_integrity_fresh_def Let_def slice_def)

section \<open>The interface to PDCP\<close>

text \<open>
  A cipher is called with COUNT, bearer and direction on the data of a PDU, in place; what PDCP
  relies on is that it keeps the length and that the peer, with the same arguments, undoes it.
\<close>

locale stream_cipher =
  fixes crypt :: "u32 \<Rightarrow> int \<Rightarrow> int \<Rightarrow> byte list \<Rightarrow> byte list"
  assumes crypt_length: "length (crypt count bearer direction inp) = length inp"
    and crypt_twice: "crypt count bearer direction (crypt count bearer direction inp) = inp"
begin

lemma crypt_inject: "crypt count bearer direction x = crypt count bearer direction y \<longleftrightarrow> x = y"
  by (metis crypt_twice)

lemma crypt_empty [simp]: "crypt count bearer direction [] = []"
  using crypt_length [of count bearer direction "[]"] by simp

end

interpretation uea2_cipher: stream_cipher "\<lambda>count bearer direction. uea2 count bearer direction key"
  for key
  by unfold_locales (simp_all add: uea2_twice)

text \<open>\<open>snow3g_ciphering\<close> keeps the length of the data, and deciphering is ciphering again
  with the same arguments.\<close>

theorem snow3g_ciphering_roundtrip:
  assumes "length mem = 32" "length mem' = 32"
  shows "length (snow3g_ciphering mem count bearer direction key inp) = length inp \<and>
    snow3g_ciphering mem' count bearer direction key
      (snow3g_ciphering mem count bearer direction key inp) = inp"
  using assms by (simp add: snow3g_ciphering_uea2 uea2_cipher.crypt_twice)

theorem snow3g_ciphering_roundtrip_witness:
  "snow3g_ciphering (replicate 32 7) 5 3 1 (replicate 16 0)
    (snow3g_ciphering (replicate 32 9) 5 3 1 (replicate 16 0) [1, 2, 3]) = [1, 2, 3]"
  by (rule snow3g_ciphering_roundtrip [THEN conjunct2]) simp_all

end
