(* ===== verification/PdcpSecurity.thy ===== *)
theory PdcpSecurity
  imports Snow3gUse
begin

unbundle bit_operations_syntax

text \<open>
  The security functions PDCP calls (\<open>nr_pdcp_security_nea1.c\<close>, \<open>nr_pdcp_security_nea2.c\<close>,
  \<open>nr_pdcp_integrity_nia1.c\<close>, \<open>nr_pdcp_integrity_nia2.c\<close>) and the part of \<open>openair3/SECU\<close> they go
  through. SNOW 3G is the model of \<open>snow3g.c\<close>; AES is a library's (OpenSSL): the counter mode and
  the CMAC are the functions of an environment, of which the code relies on what \<open>env_ok\<close> says.
\<close>

section \<open>The environment\<close>

text \<open>
  \<open>env_mem\<close> and \<open>env_pm\<close> are the uninitialised arrays on the stack of SNOW 3G. \<open>aes_ctr\<close> takes the
  key, the initial counter block and the data, \<open>aes_cmac\<close> the key and the data.
\<close>

record crypto_env =
  env_mem :: "u32 list"
  env_pm :: pm_table
  aes_ctr :: "byte list \<Rightarrow> byte list \<Rightarrow> byte list \<Rightarrow> byte list"
  aes_cmac :: "byte list \<Rightarrow> byte list \<Rightarrow> byte list"

text \<open>Counter mode is a stream cipher; a CMAC with AES-128 has 16 bytes.\<close>

definition env_ok :: "crypto_env \<Rightarrow> bool" where
  "env_ok env \<longleftrightarrow> length (env_mem env) = 32 \<and>
     (\<forall>key iv m. length (aes_ctr env key iv m) = length m) \<and>
     (\<forall>key iv m. aes_ctr env key iv (aes_ctr env key iv m) = m) \<and>
     (\<forall>key m. length (aes_cmac env key m) = 16)"

section \<open>\<open>secu_defs.c\<close> and the stream functions\<close>

record nas_stream_cipher =
  sc_context :: "byte list"
  sc_count :: u32
  sc_bearer :: byte
  sc_direction :: byte
  sc_message :: "byte list"
  sc_blength :: u32

text \<open>The bytes the length in bits covers.\<close>

definition sc_bytes :: "nas_stream_cipher \<Rightarrow> byte list" where
  "sc_bytes sc = take (unat (sc_blength sc) div 8) (sc_message sc)"

text \<open>The bit fields of \<open>data_iv8_t\<close> and \<open>data_iv16_t\<close>, laid out in memory.\<close>

definition aes_iv8 :: "u32 \<Rightarrow> int \<Rightarrow> int \<Rightarrow> byte list" where
  "aes_iv8 count bearer direction =
     be_bytes count @ [word_of_int (push_bit 3 (bearer mod 32) OR push_bit 2 (direction mod 2)), 0, 0, 0]"

definition aes_iv16 :: "u32 \<Rightarrow> int \<Rightarrow> int \<Rightarrow> byte list" where
  "aes_iv16 count bearer direction = aes_iv8 count bearer direction @ replicate 8 0"

definition nas_stream_encrypt_eea0 :: "nas_stream_cipher \<Rightarrow> byte list" where
  "nas_stream_encrypt_eea0 sc = take (unat ((sc_blength sc + 7) div 8)) (sc_message sc)"

definition nas_stream_encrypt_eea1 :: "crypto_env \<Rightarrow> nas_stream_cipher \<Rightarrow> byte list" where
  "nas_stream_encrypt_eea1 env sc =
     snow3g_ciphering (env_mem env) (sc_count sc) (uint (sc_bearer sc)) (uint (sc_direction sc)) (sc_context sc)
       (sc_bytes sc)"

definition nas_stream_encrypt_eea2 :: "crypto_env \<Rightarrow> nas_stream_cipher \<Rightarrow> byte list res" where
  "nas_stream_encrypt_eea2 env sc =
     (if \<not> (sc_bearer sc < 32 \<and> sc_direction sc < 2 \<and> sc_blength sc > 7 \<and> sc_blength sc AND 7 = 0) then Inl AssertFailed
      else Inr (aes_ctr env (sc_context sc)
        (aes_iv16 (sc_count sc) (uint (sc_bearer sc)) (uint (sc_direction sc))) (sc_bytes sc)))"

definition nas_stream_encrypt_eia1 :: "crypto_env \<Rightarrow> nas_stream_cipher \<Rightarrow> byte list res" where
  "nas_stream_encrypt_eia1 env sc =
     snow3g_integrity (env_mem env) (env_pm env) (sc_count sc) (uint (sc_bearer sc)) (uint (sc_direction sc))
       (sc_context sc) (sc_bytes sc)"

definition nas_stream_encrypt_eia2 :: "crypto_env \<Rightarrow> nas_stream_cipher \<Rightarrow> byte list res" where
  "nas_stream_encrypt_eia2 env sc =
     (if \<not> (sc_bearer sc < 32 \<and> sc_blength sc AND 7 = 0) then Inl AssertFailed
      else Inr (take 4 (aes_cmac env (sc_context sc)
        (aes_iv8 (sc_count sc) (uint (sc_bearer sc)) (uint (sc_direction sc)) @ sc_bytes sc))))"

text \<open>The algorithm is a number; \<open>out\<close> is what the buffer of the MAC held.\<close>

definition stream_compute_encrypt :: "crypto_env \<Rightarrow> int \<Rightarrow> nas_stream_cipher \<Rightarrow> byte list res" where
  "stream_compute_encrypt env alg sc =
     (if alg = 0 then Inr (nas_stream_encrypt_eea0 sc)
      else if alg = 1 then Inr (nas_stream_encrypt_eea1 env sc)
      else if alg = 2 then nas_stream_encrypt_eea2 env sc
      else Inl AssertFailed)"

definition stream_compute_integrity :: "crypto_env \<Rightarrow> int \<Rightarrow> nas_stream_cipher \<Rightarrow> byte list \<Rightarrow> byte list res" where
  "stream_compute_integrity env alg sc out =
     (if alg = 0 then Inr out
      else if alg = 1 then nas_stream_encrypt_eia1 env sc
      else if alg = 2 then nas_stream_encrypt_eia2 env sc
      else Inl AssertFailed)"

section \<open>The functions of PDCP\<close>

text \<open>They get the bearer and the direction as \<open>int\<close>, and COUNT as an \<open>int\<close> of the same 32 bits.\<close>

definition pdcp_stream :: "byte list \<Rightarrow> byte list \<Rightarrow> int \<Rightarrow> u32 \<Rightarrow> int \<Rightarrow> nas_stream_cipher" where
  "pdcp_stream key buffer bearer count direction =
     \<lparr>sc_context = key, sc_count = count, sc_bearer = word_of_int (bearer - 1), sc_direction = word_of_int direction,
      sc_message = buffer, sc_blength = word_of_int (int (length buffer) * 8)\<rparr>"

definition nr_pdcp_security_nea1_cipher ::
  "crypto_env \<Rightarrow> byte list \<Rightarrow> byte list \<Rightarrow> int \<Rightarrow> u32 \<Rightarrow> int \<Rightarrow> byte list res" where
  "nr_pdcp_security_nea1_cipher env key buffer bearer count direction =
     stream_compute_encrypt env 1 (pdcp_stream key buffer bearer count direction)"

definition nr_pdcp_security_nea2_cipher ::
  "crypto_env \<Rightarrow> byte list \<Rightarrow> byte list \<Rightarrow> int \<Rightarrow> u32 \<Rightarrow> int \<Rightarrow> byte list res" where
  "nr_pdcp_security_nea2_cipher env key buffer bearer count direction =
     (if \<not> (0 < length buffer \<and> - 1 < bearer \<and> bearer < 32 \<and> - 1 < direction \<and> direction < 2 \<and> - 1 < sint count)
      then Inl AssertFailed
      else Inr (aes_ctr env key (aes_iv16 count (bearer - 1) direction) buffer))"

definition nr_pdcp_integrity_nia1_integrity ::
  "crypto_env \<Rightarrow> byte list \<Rightarrow> byte list \<Rightarrow> int \<Rightarrow> u32 \<Rightarrow> int \<Rightarrow> byte list res" where
  "nr_pdcp_integrity_nia1_integrity env key buffer bearer count direction =
     stream_compute_integrity env 1 (pdcp_stream key buffer bearer count direction) []"

definition nr_pdcp_integrity_nia2_integrity ::
  "crypto_env \<Rightarrow> byte list \<Rightarrow> byte list \<Rightarrow> int \<Rightarrow> u32 \<Rightarrow> int \<Rightarrow> byte list res" where
  "nr_pdcp_integrity_nia2_integrity env key buffer bearer count direction =
     (if \<not> (0 < bearer \<and> bearer < 33 \<and> - 1 < sint count) then Inl AssertFailed
      else Inr (take 4 (aes_cmac env key (aes_iv8 count (bearer - 1) direction @ buffer))))"

section \<open>What they compute\<close>

lemma sc_bytes_pdcp_stream:
  assumes "length buffer < 2 ^ 28"
  shows "sc_bytes (pdcp_stream key buffer bearer count direction) = buffer"
proof -
  have "unat (word_of_nat (length buffer * 8) :: u32) = length buffer * 8"
    using assms by (simp only: unat_of_nat) simp
  then have "unat (word_of_int (int (length buffer) * 8) :: u32) = length buffer * 8"
    by simp
  then show ?thesis by (simp add: sc_bytes_def pdcp_stream_def)
qed

lemma pdcp_stream_fields:
  "sc_context (pdcp_stream key buffer bearer count direction) = key"
  "sc_count (pdcp_stream key buffer bearer count direction) = count"
  "sc_bearer (pdcp_stream key buffer bearer count direction) = word_of_int (bearer - 1)"
  "sc_direction (pdcp_stream key buffer bearer count direction) = word_of_int direction"
  by (simp_all add: pdcp_stream_def)

lemma env_ok_mem: "env_ok env \<Longrightarrow> length (env_mem env) = 32"
  by (simp add: env_ok_def)

lemma nea1_cipher:
  assumes "env_ok env" "length buffer < 2 ^ 28"
  shows "nr_pdcp_security_nea1_cipher env key buffer bearer count direction =
    Inr (uea2 count (uint (word_of_int (bearer - 1) :: byte)) (uint (word_of_int direction :: byte)) key buffer)"
  unfolding nr_pdcp_security_nea1_cipher_def stream_compute_encrypt_def nas_stream_encrypt_eea1_def
    sc_bytes_pdcp_stream [OF assms(2)] pdcp_stream_fields snow3g_ciphering_uea2 [OF env_ok_mem [OF assms(1)]]
  by simp

lemma nia1_integrity:
  assumes "env_ok env" "length buffer < 2 ^ 28" "buffer \<noteq> []"
  shows "nr_pdcp_integrity_nia1_integrity env key buffer bearer count direction =
    Inr (uia2 count (push_bit 27 (word_of_int (uint (word_of_int (bearer - 1) :: byte))))
      (uint (word_of_int direction :: byte)) key buffer)"
  unfolding nr_pdcp_integrity_nia1_integrity_def stream_compute_integrity_def nas_stream_encrypt_eia1_def
    sc_bytes_pdcp_stream [OF assms(2)] pdcp_stream_fields
    snow3g_integrity_uia2 [OF env_ok_mem [OF assms(1)] assms(3)]
  by simp

end
