(* ===== verification/PdcpEntity.thy ===== *)
theory PdcpEntity
  imports PdcpSecurity
begin

unbundle bit_operations_syntax

text \<open>
  \<open>openair2/LAYER2/nr_pdcp/nr_pdcp_sdu.c\<close> and \<open>nr_pdcp_entity.c\<close>: the list of received SDUs and the
  PDCP entity. Memory is owned by the list, so \<open>nr_pdcp_free_sdu\<close> is the removal of an element. A
  call of \<open>deliver_sdu\<close> is an element of the list of SDUs each operation returns, in the order of
  the calls. LOG output is left out.
\<close>

section \<open>\<open>nr_pdcp_sdu.c\<close>\<close>

record nr_pdcp_integrity_data =
  id_count :: u32
  id_mac :: "byte list"
  id_header_size :: nat
  id_header :: "byte list"

record nr_pdcp_sdu =
  su_count :: u32
  su_buffer :: "byte list"
  su_size :: int
  su_integrity :: nr_pdcp_integrity_data

definition nr_pdcp_new_sdu :: "u32 \<Rightarrow> byte list \<Rightarrow> nr_pdcp_integrity_data \<Rightarrow> nr_pdcp_sdu" where
  "nr_pdcp_new_sdu count buffer mi =
     \<lparr>su_count = count, su_buffer = buffer, su_size = int (length buffer), su_integrity = mi\<rparr>"

text \<open>Before the first element with a larger COUNT.\<close>

fun nr_pdcp_sdu_list_add :: "nr_pdcp_sdu list \<Rightarrow> nr_pdcp_sdu \<Rightarrow> nr_pdcp_sdu list" where
  "nr_pdcp_sdu_list_add [] s = [s]"
| "nr_pdcp_sdu_list_add (cur # l) s =
     (if su_count s < su_count cur then s # cur # l else cur # nr_pdcp_sdu_list_add l s)"

fun nr_pdcp_sdu_in_list :: "nr_pdcp_sdu list \<Rightarrow> u32 \<Rightarrow> bool" where
  "nr_pdcp_sdu_in_list [] count = False"
| "nr_pdcp_sdu_in_list (cur # l) count = (if su_count cur = count then True else nr_pdcp_sdu_in_list l count)"

section \<open>The entity\<close>

datatype nr_pdcp_entity_type = NR_PDCP_DRB_AM | NR_PDCP_DRB_UM | NR_PDCP_SRB

record security_keys_and_algos =
  sp_integrity_algorithm :: int
  sp_ciphering_algorithm :: int
  sp_integrity_key :: "byte list"
  sp_ciphering_key :: "byte list"

text \<open>
  The context and the function pointer that goes with it. NEA1, NIA1 and NIA2 copy the key; the
  context of NEA2 is a pointer to the key in the entity.
\<close>

datatype cipher_context = NoCipher | Nea1 "byte list" | Nea2

datatype integrity_context = NoIntegrity | Nia1 "byte list" | Nia2 "byte list"

record nr_pdcp_statistics =
  ps_txpdu_pkts :: u32
  ps_txpdu_bytes :: u32
  ps_txpdu_sn :: u32
  ps_rxpdu_pkts :: u32
  ps_rxpdu_bytes :: u32
  ps_rxpdu_sn :: u32
  ps_rxpdu_dd_pkts :: u32
  ps_rxpdu_dd_bytes :: u32
  ps_txsdu_pkts :: u32
  ps_txsdu_bytes :: u32
  ps_rxsdu_pkts :: u32
  ps_rxsdu_bytes :: u32

record nr_pdcp_entity =
  pd_type :: nr_pdcp_entity_type
  pd_rb_id :: int
  pd_pdusession_id :: int
  pd_has_sdap_rx :: bool
  pd_has_sdap_tx :: bool
  pd_sn_size :: nat
  pd_t_reordering :: int
  pd_discard_timer :: int
  pd_sn_max :: int
  pd_window_size :: int
  pd_tx_next :: u32
  pd_rx_next :: u32
  pd_rx_deliv :: u32
  pd_rx_reord :: u32
  pd_t_current :: u64
  pd_t_reordering_start :: u64
  pd_has_ciphering :: bool
  pd_has_integrity :: bool
  pd_keys :: security_keys_and_algos
  pd_cipher :: cipher_context
  pd_integrity :: integrity_context
  pd_is_gnb :: bool
  pd_rx_list :: "nr_pdcp_sdu list"
  pd_rx_size :: int
  pd_stats :: nr_pdcp_statistics
  pd_entity_suspended :: bool

text \<open>The calls through the function pointers \<open>cipher\<close> and \<open>integrity\<close>.\<close>

definition pdcp_cipher :: "crypto_env \<Rightarrow> nr_pdcp_entity \<Rightarrow> byte list \<Rightarrow> u32 \<Rightarrow> int \<Rightarrow> byte list res" where
  "pdcp_cipher env e buffer count direction =
     (case pd_cipher e of
        NoCipher \<Rightarrow> Inl NullDeref
      | Nea1 key \<Rightarrow> nr_pdcp_security_nea1_cipher env key buffer (pd_rb_id e) count direction
      | Nea2 \<Rightarrow> nr_pdcp_security_nea2_cipher env (sp_ciphering_key (pd_keys e)) buffer (pd_rb_id e) count direction)"

definition pdcp_integrity :: "crypto_env \<Rightarrow> nr_pdcp_entity \<Rightarrow> byte list \<Rightarrow> u32 \<Rightarrow> int \<Rightarrow> byte list res" where
  "pdcp_integrity env e buffer count direction =
     (case pd_integrity e of
        NoIntegrity \<Rightarrow> Inl NullDeref
      | Nia1 key \<Rightarrow> nr_pdcp_integrity_nia1_integrity env key buffer (pd_rb_id e) count direction
      | Nia2 key \<Rightarrow> nr_pdcp_integrity_nia2_integrity env key buffer (pd_rb_id e) count direction)"

definition pdcp_rx_direction :: "nr_pdcp_entity \<Rightarrow> int" where
  "pdcp_rx_direction e = (if pd_is_gnb e then 0 else 1)"

definition pdcp_tx_direction :: "nr_pdcp_entity \<Rightarrow> int" where
  "pdcp_tx_direction e = (if pd_is_gnb e then 1 else 0)"

definition nr_max_pdcp_pdu_size :: "int \<Rightarrow> int" where
  "nr_max_pdcp_pdu_size sdu_size = sdu_size + 3 + 4"

definition pdcp_header_size :: "nr_pdcp_entity \<Rightarrow> nat" where
  "pdcp_header_size e = (if pd_sn_size e = 12 then 2 else 3)"

text \<open>SRBs always have MAC-I, even if integrity is not active.\<close>

definition pdcp_integrity_size :: "nr_pdcp_entity \<Rightarrow> nat" where
  "pdcp_integrity_size e = (if pd_has_integrity e \<or> pd_type e = NR_PDCP_SRB then 4 else 0)"

section \<open>Reception\<close>

definition pdcp_count_discard :: "int \<Rightarrow> nr_pdcp_entity \<Rightarrow> nr_pdcp_entity" where
  "pdcp_count_discard n =
     pd_stats_update (\<lambda>s. s\<lparr>ps_rxpdu_dd_pkts := ps_rxpdu_dd_pkts s + 1,
       ps_rxpdu_dd_bytes := ps_rxpdu_dd_bytes s + word_of_int n\<rparr>)"

text \<open>The sequence number of the header.\<close>

definition pdcp_rcvd_sn :: "nr_pdcp_entity \<Rightarrow> byte list \<Rightarrow> int res" where
  "pdcp_rcvd_sn e b =
     (if length b < pdcp_header_size e then Inl OutOfBounds
      else Inr (if pd_sn_size e = 12
                then push_bit 8 (uint (b ! 0) AND 0xf) OR uint (b ! 1)
                else push_bit 16 (uint (b ! 0) AND 0x3) OR push_bit 8 (uint (b ! 1)) OR uint (b ! 2)))"

text \<open>The hyper frame number is the one that brings COUNT closest to \<open>rx_deliv\<close>.\<close>

definition pdcp_rcvd_count :: "nr_pdcp_entity \<Rightarrow> int \<Rightarrow> u32" where
  "pdcp_rcvd_count e rcvd_sn =
     (let rx_deliv_sn = uint (pd_rx_deliv e) AND pd_sn_max e;
          rx_deliv_hfn = drop_bit (pd_sn_size e) (pd_rx_deliv e);
          rcvd_hfn =
            (if rcvd_sn < rx_deliv_sn - pd_window_size e then rx_deliv_hfn + 1
             else if rcvd_sn \<ge> rx_deliv_sn + pd_window_size e then rx_deliv_hfn - 1
             else rx_deliv_hfn)
      in push_bit (pd_sn_size e) rcvd_hfn OR word_of_int rcvd_sn)"

definition pdcp_msg_integrity :: "nr_pdcp_entity \<Rightarrow> byte list \<Rightarrow> u32 \<Rightarrow> nr_pdcp_integrity_data" where
  "pdcp_msg_integrity e b rcvd_count =
     (if pd_has_integrity e \<or> pd_type e = NR_PDCP_SRB
      then \<lparr>id_count = rcvd_count, id_mac = drop (length b - 4) b, id_header_size = pdcp_header_size e,
            id_header = take (pdcp_header_size e) b @ replicate (3 - pdcp_header_size e) 0\<rparr>
      else \<lparr>id_count = 0, id_mac = replicate 4 0, id_header_size = 0, id_header = replicate 3 0\<rparr>)"

text \<open>
  The body of the three loops that deliver the head of \<open>rx_list\<close>, whose rest is \<open>next\<close>.
\<close>

definition pdcp_deliver_one :: "nr_pdcp_sdu \<Rightarrow> nr_pdcp_sdu list \<Rightarrow> nr_pdcp_entity \<Rightarrow> nr_pdcp_entity" where
  "pdcp_deliver_one cur rest e =
     e\<lparr>pd_rx_list := rest, pd_rx_size := pd_rx_size e - su_size cur,
       pd_stats := (let s = pd_stats e in s\<lparr>ps_txsdu_pkts := ps_txsdu_pkts s + 1,
         ps_txsdu_bytes := ps_txsdu_bytes s + word_of_int (su_size cur)\<rparr>)\<rparr>"

text \<open>Up to a discontinuity or the end of the list. The first argument is \<open>rx_list\<close>.\<close>

fun pdcp_deliver_consecutive ::
  "nr_pdcp_sdu list \<Rightarrow> u32 \<Rightarrow> nr_pdcp_entity \<Rightarrow> u32 \<times> nr_pdcp_entity \<times> nr_pdcp_sdu list" where
  "pdcp_deliver_consecutive [] count e = (count, e, [])"
| "pdcp_deliver_consecutive (cur # rest) count e =
     (if count = su_count cur
      then let (count', e', out) = pdcp_deliver_consecutive rest (count + 1) (pdcp_deliver_one cur rest e)
           in (count', e', cur # out)
      else (count, e, []))"

text \<open>What is below a COUNT.\<close>

fun pdcp_deliver_below ::
  "nr_pdcp_sdu list \<Rightarrow> u32 \<Rightarrow> nr_pdcp_entity \<Rightarrow> nr_pdcp_entity \<times> nr_pdcp_sdu list" where
  "pdcp_deliver_below [] count e = (e, [])"
| "pdcp_deliver_below (cur # rest) count e =
     (if su_count cur < count
      then let (e', out) = pdcp_deliver_below rest count (pdcp_deliver_one cur rest e) in (e', cur # out)
      else (e, []))"

fun pdcp_deliver_all :: "nr_pdcp_sdu list \<Rightarrow> nr_pdcp_entity \<Rightarrow> nr_pdcp_entity \<times> nr_pdcp_sdu list" where
  "pdcp_deliver_all [] e = (e, [])"
| "pdcp_deliver_all (cur # rest) e =
     (let (e', out) = pdcp_deliver_all rest (pdcp_deliver_one cur rest e) in (e', cur # out))"

text \<open>The start of t-Reordering, when something is missing.\<close>

definition pdcp_start_reordering :: "nr_pdcp_entity \<Rightarrow> nr_pdcp_entity" where
  "pdcp_start_reordering e =
     (if pd_rx_deliv e < pd_rx_next e
      then e\<lparr>pd_rx_reord := pd_rx_next e, pd_t_reordering_start := pd_t_current e\<rparr> else e)"

definition pdcp_update_reordering :: "nr_pdcp_entity \<Rightarrow> nr_pdcp_entity" where
  "pdcp_update_reordering e =
     (let e1 = (if pd_t_reordering_start e \<noteq> 0 \<and> pd_rx_deliv e \<ge> pd_rx_reord e
                then e\<lparr>pd_t_reordering_start := 0\<rparr> else e)
      in if pd_t_reordering_start e1 = 0 then pdcp_start_reordering e1 else e1)"

text \<open>A PDU whose COUNT is new: stored, and delivered with what follows it when it is the next.\<close>

definition pdcp_store_sdu :: "nr_pdcp_sdu \<Rightarrow> int \<Rightarrow> nr_pdcp_entity \<Rightarrow> nr_pdcp_entity" where
  "pdcp_store_sdu s n e =
     (let e1 = e\<lparr>pd_rx_list := nr_pdcp_sdu_list_add (pd_rx_list e) s, pd_rx_size := pd_rx_size e + n\<rparr>
      in if su_count s \<ge> pd_rx_next e then e1\<lparr>pd_rx_next := su_count s + 1\<rparr> else e1)"

definition pdcp_accept_sdu ::
  "nr_pdcp_sdu \<Rightarrow> int \<Rightarrow> nr_pdcp_entity \<Rightarrow> nr_pdcp_entity \<times> nr_pdcp_sdu list" where
  "pdcp_accept_sdu s n e =
     (let e2 = pdcp_store_sdu s n e;
          (e4, out) =
            (if su_count s = pd_rx_deliv e2
             then let (count, e3, out) = pdcp_deliver_consecutive (pd_rx_list e2) (pd_rx_deliv e2) e2
                  in (e3\<lparr>pd_rx_deliv := count\<rparr>, out)
             else (e2, []))
      in (pdcp_update_reordering e4, out))"

text \<open>Deciphering in place and the check of the MAC: the buffer after it, and whether it is kept.\<close>

definition pdcp_decipher :: "crypto_env \<Rightarrow> nr_pdcp_entity \<Rightarrow> byte list \<Rightarrow> u32 \<Rightarrow> byte list res" where
  "pdcp_decipher env e b count =
     (let off = pdcp_header_size e + of_bool (pd_has_sdap_rx e)
      in if pd_has_ciphering e
         then res_bind (pdcp_cipher env e (drop off b) count (pdcp_rx_direction e)) (\<lambda>d. Inr (take off b @ d))
         else Inr b)"

definition pdcp_verify :: "crypto_env \<Rightarrow> nr_pdcp_entity \<Rightarrow> byte list \<Rightarrow> u32 \<Rightarrow> bool res" where
  "pdcp_verify env e b count =
     (if pd_has_integrity e
      then res_bind (pdcp_integrity env e (take (length b - 4) b) count (pdcp_rx_direction e))
             (\<lambda>mac. Inr (mac = drop (length b - 4) b))
      else Inr True)"

text \<open>From the known COUNT on.\<close>

definition pdcp_recv_count ::
  "crypto_env \<Rightarrow> byte list \<Rightarrow> u32 \<Rightarrow> nr_pdcp_entity \<Rightarrow> (nr_pdcp_entity \<times> nr_pdcp_sdu list) res" where
  "pdcp_recv_count env b count e =
     (let size = int (length b); hs = pdcp_header_size e; is = pdcp_integrity_size e;
          mi = pdcp_msg_integrity e b count
      in res_bind (pdcp_decipher env e b count) (\<lambda>b1.
         res_bind (pdcp_verify env e b1 count) (\<lambda>ok.
         if \<not> ok \<or> count < pd_rx_deliv e \<or> nr_pdcp_sdu_in_list (pd_rx_list e) count
         then Inr (pdcp_count_discard size e, [])
         else Inr (pdcp_accept_sdu (nr_pdcp_new_sdu count (take (length b - hs - is) (drop hs b1)) mi)
           (size - int hs) e))))"

definition nr_pdcp_entity_recv_pdu ::
  "crypto_env \<Rightarrow> byte list \<Rightarrow> nr_pdcp_entity \<Rightarrow> (nr_pdcp_entity \<times> nr_pdcp_sdu list) res" where
  "nr_pdcp_entity_recv_pdu env buffer e =
     (let size = int (length buffer)
      in if pd_entity_suspended e then Inr (e, [])
         else if size < 1 then Inr (e, [])
         else
           let b = (if pd_type e \<noteq> NR_PDCP_SRB \<and> buffer ! 0 AND 0x80 = 0
                    then buffer[0 := buffer ! 0 OR 128] else buffer);
               e1 = e\<lparr>pd_stats := (let s = pd_stats e in s\<lparr>ps_rxpdu_pkts := ps_rxpdu_pkts s + 1,
                      ps_rxpdu_bytes := ps_rxpdu_bytes s + word_of_int size\<rparr>)\<rparr>
           in res_bind (pdcp_rcvd_sn e1 b) (\<lambda>rcvd_sn.
              let e2 = pd_stats_update (\<lambda>s. s\<lparr>ps_rxpdu_sn := word_of_int rcvd_sn\<rparr>) e1
              in if size < int (pdcp_header_size e) + of_bool (pd_has_sdap_rx e) + int (pdcp_integrity_size e) + 1
                 then Inr (pdcp_count_discard size e2, [])
                 else pdcp_recv_count env b (pdcp_rcvd_count e2 rcvd_sn) e2))"

section \<open>Transmission\<close>

definition pdcp_header :: "nr_pdcp_entity \<Rightarrow> int \<Rightarrow> byte list" where
  "pdcp_header e sn =
     (let dc_bit = (if pd_type e = NR_PDCP_DRB_AM \<or> pd_type e = NR_PDCP_DRB_UM then 0x80 else 0)
      in if pd_sn_size e = 12
         then [word_of_int (dc_bit OR (drop_bit 8 sn AND 0xf)), word_of_int (sn AND 0xff)]
         else [word_of_int (dc_bit OR (drop_bit 16 sn AND 0x3)), word_of_int (drop_bit 8 sn AND 0xff),
               word_of_int (sn AND 0xff)])"

text \<open>The PDU, and the size the C function returns; \<open>None\<close> stands for \<open>-1\<close>.\<close>

definition nr_pdcp_entity_process_sdu ::
  "crypto_env \<Rightarrow> byte list \<Rightarrow> int \<Rightarrow> nr_pdcp_entity \<Rightarrow> (nr_pdcp_entity \<times> byte list option) res" where
  "nr_pdcp_entity_process_sdu env buffer pdu_max_size e =
     (let size = int (length buffer)
      in if \<not> nr_max_pdcp_pdu_size size \<le> pdu_max_size then Inl AssertFailed
         else if pd_entity_suspended e then Inr (e, None)
         else
           let e1 = e\<lparr>pd_stats := (let s = pd_stats e in s\<lparr>ps_rxsdu_pkts := ps_rxsdu_pkts s + 1,
                      ps_rxsdu_bytes := ps_rxsdu_bytes s + word_of_int size\<rparr>)\<rparr>;
               count = pd_tx_next e1;
               sn = uint (pd_tx_next e1) AND pd_sn_max e1;
               b = pdcp_header e1 sn @ buffer
           in res_bind
                (if pd_has_integrity e1 then pdcp_integrity env e1 b count (pdcp_tx_direction e1)
                 else Inr (replicate (pdcp_integrity_size e1) 0)) (\<lambda>mac.
              let b1 = b @ mac;
                  off = pdcp_header_size e1 + of_bool (pd_has_sdap_tx e1)
              in res_bind
                   (if pd_has_ciphering e1
                    then res_bind (pdcp_cipher env e1 (drop off b1) count (pdcp_tx_direction e1))
                           (\<lambda>d. Inr (take off b1 @ d))
                    else Inr b1) (\<lambda>b2.
              Inr (e1\<lparr>pd_tx_next := pd_tx_next e1 + 1,
                     pd_stats := (let s = pd_stats e1 in s\<lparr>ps_txpdu_pkts := ps_txpdu_pkts s + 1,
                       ps_txpdu_bytes := ps_txpdu_bytes s + word_of_int (int (length b2)),
                       ps_txpdu_sn := word_of_int sn\<rparr>)\<rparr>, Some b2))))"

definition nr_pdcp_entity_check_integrity ::
  "crypto_env \<Rightarrow> byte list \<Rightarrow> nr_pdcp_integrity_data \<Rightarrow> nr_pdcp_entity \<Rightarrow> bool res" where
  "nr_pdcp_entity_check_integrity env buffer mi e =
     (if \<not> pd_has_integrity e then Inr False
      else res_bind (pdcp_integrity env e (take (id_header_size mi) (id_header mi) @ buffer) (id_count mi)
               (pdcp_rx_direction e))
             (\<lambda>mac. Inr (mac = id_mac mi)))"

section \<open>Security configuration\<close>

text \<open>The two algorithms are set separately; -1 keeps the current one.\<close>

definition pdcp_set_keys :: "security_keys_and_algos \<Rightarrow> nr_pdcp_entity \<Rightarrow> nr_pdcp_entity" where
  "pdcp_set_keys p e =
     (let k = pd_keys e;
          k1 = (if sp_integrity_algorithm p \<noteq> - 1
                then k\<lparr>sp_integrity_algorithm := sp_integrity_algorithm p, sp_integrity_key := sp_integrity_key p\<rparr> else k);
          k2 = (if sp_ciphering_algorithm p \<noteq> - 1
                then k1\<lparr>sp_ciphering_algorithm := sp_ciphering_algorithm p, sp_ciphering_key := sp_ciphering_key p\<rparr> else k1)
      in e\<lparr>pd_keys := k2\<rparr>)"

definition pdcp_set_integrity :: "int \<Rightarrow> nr_pdcp_entity \<Rightarrow> nr_pdcp_entity res" where
  "pdcp_set_integrity alg e =
     (if alg = 0 then Inr (e\<lparr>pd_has_integrity := False, pd_integrity := NoIntegrity\<rparr>)
      else if alg = - 1 then Inr e
      else if alg = 2 then Inr (e\<lparr>pd_has_integrity := True, pd_integrity := Nia2 (sp_integrity_key (pd_keys e))\<rparr>)
      else if alg = 1 then Inr (e\<lparr>pd_has_integrity := True, pd_integrity := Nia1 (sp_integrity_key (pd_keys e))\<rparr>)
      else Inl ExitFatal)"

definition pdcp_set_ciphering :: "int \<Rightarrow> nr_pdcp_entity \<Rightarrow> nr_pdcp_entity res" where
  "pdcp_set_ciphering alg e =
     (if alg = 0 then Inr (e\<lparr>pd_has_ciphering := False, pd_cipher := NoCipher\<rparr>)
      else if alg = - 1 then Inr e
      else if alg = 2 then Inr (e\<lparr>pd_has_ciphering := True, pd_cipher := Nea2\<rparr>)
      else if alg = 1 then Inr (e\<lparr>pd_has_ciphering := True, pd_cipher := Nea1 (sp_ciphering_key (pd_keys e))\<rparr>)
      else Inl ExitFatal)"

definition nr_pdcp_entity_set_security :: "security_keys_and_algos \<Rightarrow> nr_pdcp_entity \<Rightarrow> nr_pdcp_entity res" where
  "nr_pdcp_entity_set_security p e =
     res_bind (pdcp_set_integrity (sp_integrity_algorithm p) (pdcp_set_keys p e))
       (pdcp_set_ciphering (sp_ciphering_algorithm p))"

section \<open>Time, suspension, re-establishment\<close>

definition pdcp_check_t_reordering :: "nr_pdcp_entity \<Rightarrow> nr_pdcp_entity \<times> nr_pdcp_sdu list" where
  "pdcp_check_t_reordering e =
     (if pd_t_reordering e = - 1 then (e, [])
      else if pd_t_reordering_start e = 0
        \<or> pd_t_current e \<le> pd_t_reordering_start e + word_of_int (pd_t_reordering e) then (e, [])
      else
        let e1 = e\<lparr>pd_t_reordering_start := 0\<rparr>;
            (e2, out1) = pdcp_deliver_below (pd_rx_list e1) (pd_rx_reord e1) e1;
            (count, e3, out2) = pdcp_deliver_consecutive (pd_rx_list e2) (pd_rx_reord e2) e2
        in (pdcp_start_reordering (e3\<lparr>pd_rx_deliv := count\<rparr>), out1 @ out2))"

definition nr_pdcp_entity_set_time :: "u64 \<Rightarrow> nr_pdcp_entity \<Rightarrow> nr_pdcp_entity \<times> nr_pdcp_sdu list" where
  "nr_pdcp_entity_set_time now e = pdcp_check_t_reordering (e\<lparr>pd_t_current := now\<rparr>)"

definition deliver_all_sdus :: "nr_pdcp_entity \<Rightarrow> nr_pdcp_entity \<times> nr_pdcp_sdu list" where
  "deliver_all_sdus e = pdcp_deliver_all (pd_rx_list e) e"

definition nr_pdcp_entity_suspend :: "nr_pdcp_entity \<Rightarrow> nr_pdcp_entity \<times> nr_pdcp_sdu list" where
  "nr_pdcp_entity_suspend e =
     (let e1 = e\<lparr>pd_tx_next := 0\<rparr>;
          (e2, out) = (if pd_t_reordering_start e1 \<noteq> 0 then deliver_all_sdus (e1\<lparr>pd_t_reordering_start := 0\<rparr>)
                       else (e1, []))
      in (e2\<lparr>pd_rx_next := 0, pd_rx_deliv := 0, pd_entity_suspended := True\<rparr>, out))"

definition free_rx_list :: "nr_pdcp_entity \<Rightarrow> nr_pdcp_entity" where
  "free_rx_list e =
     (fold (\<lambda>cur. pdcp_count_discard (su_size cur)) (pd_rx_list e) e)\<lparr>pd_rx_list := [], pd_rx_size := 0\<rparr>"

definition pdcp_reestablish_drb_am ::
  "security_keys_and_algos \<Rightarrow> nr_pdcp_entity \<Rightarrow> (nr_pdcp_entity \<times> nr_pdcp_sdu list) res" where
  "pdcp_reestablish_drb_am p e =
     res_bind (nr_pdcp_entity_set_security p e) (\<lambda>e1. Inr (e1\<lparr>pd_entity_suspended := False\<rparr>, []))"

definition pdcp_reestablish_drb_um ::
  "security_keys_and_algos \<Rightarrow> nr_pdcp_entity \<Rightarrow> (nr_pdcp_entity \<times> nr_pdcp_sdu list) res" where
  "pdcp_reestablish_drb_um p e =
     (let e1 = e\<lparr>pd_tx_next := 0\<rparr>;
          (e2, out) = (if pd_t_reordering_start e1 \<noteq> 0 then deliver_all_sdus e1 else (e1, []))
      in res_bind (nr_pdcp_entity_set_security p (e2\<lparr>pd_t_reordering_start := 0, pd_rx_next := 0, pd_rx_deliv := 0\<rparr>))
           (\<lambda>e3. Inr (e3\<lparr>pd_entity_suspended := False\<rparr>, out)))"

definition pdcp_reestablish_srb ::
  "security_keys_and_algos \<Rightarrow> nr_pdcp_entity \<Rightarrow> (nr_pdcp_entity \<times> nr_pdcp_sdu list) res" where
  "pdcp_reestablish_srb p e =
     (let e1 = free_rx_list (e\<lparr>pd_tx_next := 0\<rparr>)
      in res_bind (nr_pdcp_entity_set_security p (e1\<lparr>pd_t_reordering_start := 0, pd_rx_next := 0, pd_rx_deliv := 0\<rparr>))
           (\<lambda>e2. Inr (e2\<lparr>pd_entity_suspended := False\<rparr>, [])))"

text \<open>The function pointer \<open>reestablish_entity\<close> is chosen by the type.\<close>

definition pdcp_reestablish_entity ::
  "security_keys_and_algos \<Rightarrow> nr_pdcp_entity \<Rightarrow> (nr_pdcp_entity \<times> nr_pdcp_sdu list) res" where
  "pdcp_reestablish_entity p e =
     (case pd_type e of
        NR_PDCP_DRB_AM \<Rightarrow> pdcp_reestablish_drb_am p e
      | NR_PDCP_DRB_UM \<Rightarrow> pdcp_reestablish_drb_um p e
      | NR_PDCP_SRB \<Rightarrow> pdcp_reestablish_srb p e)"

definition nr_pdcp_entity_release :: "nr_pdcp_entity \<Rightarrow> nr_pdcp_entity \<times> nr_pdcp_sdu list" where
  "nr_pdcp_entity_release e = deliver_all_sdus e"

definition pdcp_stats_zero :: nr_pdcp_statistics where
  "pdcp_stats_zero = \<lparr>ps_txpdu_pkts = 0, ps_txpdu_bytes = 0, ps_txpdu_sn = 0, ps_rxpdu_pkts = 0,
     ps_rxpdu_bytes = 0, ps_rxpdu_sn = 0, ps_rxpdu_dd_pkts = 0, ps_rxpdu_dd_bytes = 0, ps_txsdu_pkts = 0,
     ps_txsdu_bytes = 0, ps_rxsdu_pkts = 0, ps_rxsdu_bytes = 0\<rparr>"

definition new_nr_pdcp_entity ::
  "nr_pdcp_entity_type \<Rightarrow> bool \<Rightarrow> int \<Rightarrow> int \<Rightarrow> bool \<Rightarrow> bool \<Rightarrow> nat \<Rightarrow> int \<Rightarrow> int \<Rightarrow> security_keys_and_algos \<Rightarrow>
   nr_pdcp_entity res" where
  "new_nr_pdcp_entity type is_gnb rb_id pdusession_id has_sdap_rx has_sdap_tx sn_size t_reordering discard_timer p =
     nr_pdcp_entity_set_security p
       \<lparr>pd_type = type, pd_rb_id = rb_id, pd_pdusession_id = pdusession_id, pd_has_sdap_rx = has_sdap_rx,
        pd_has_sdap_tx = has_sdap_tx,
        pd_sn_size = sn_size, pd_t_reordering = t_reordering, pd_discard_timer = discard_timer,
        pd_sn_max = push_bit sn_size 1 - 1, pd_window_size = push_bit (sn_size - 1) 1,
        pd_tx_next = 0, pd_rx_next = 0, pd_rx_deliv = 0, pd_rx_reord = 0, pd_t_current = 0,
        pd_t_reordering_start = 0, pd_has_ciphering = False, pd_has_integrity = False,
        pd_keys = \<lparr>sp_integrity_algorithm = 0, sp_ciphering_algorithm = 0, sp_integrity_key = replicate 16 0,
          sp_ciphering_key = replicate 16 0\<rparr>,
        pd_cipher = NoCipher, pd_integrity = NoIntegrity, pd_is_gnb = is_gnb, pd_rx_list = [],
        pd_rx_size = 0, pd_stats = pdcp_stats_zero, pd_entity_suspended = False\<rparr>"

end
