(* ===== verification/PdcpCount.thy ===== *)
theory PdcpCount
  imports PdcpEntity
begin

unbundle bit_operations_syntax

text \<open>
  COUNT and the header: the sequence number written by the sender is the one the receiver reads, and
  the receiver infers the COUNT of the sender as long as it is in the window around \<open>rx_deliv\<close>.
\<close>

section \<open>Statistics do not matter\<close>

lemma pdcp_stats_frame [simp]:
  "pdcp_rcvd_sn (pd_stats_update f e) = pdcp_rcvd_sn e"
  "pdcp_rcvd_count (pd_stats_update f e) = pdcp_rcvd_count e"
  "pdcp_header (pd_stats_update f e) = pdcp_header e"
  "pdcp_header_size (pd_stats_update f e) = pdcp_header_size e"
  "pdcp_integrity_size (pd_stats_update f e) = pdcp_integrity_size e"
  "pdcp_cipher env (pd_stats_update f e) = pdcp_cipher env e"
  "pdcp_integrity env (pd_stats_update f e) = pdcp_integrity env e"
  "pdcp_tx_direction (pd_stats_update f e) = pdcp_tx_direction e"
  "pdcp_rx_direction (pd_stats_update f e) = pdcp_rx_direction e"
  "pdcp_decipher env (pd_stats_update f e) = pdcp_decipher env e"
  "pdcp_verify env (pd_stats_update f e) = pdcp_verify env e"
  by (simp_all add: fun_eq_iff pdcp_rcvd_sn_def pdcp_rcvd_count_def pdcp_header_def pdcp_header_size_def
      pdcp_integrity_size_def pdcp_cipher_def pdcp_integrity_def pdcp_tx_direction_def pdcp_rx_direction_def
      pdcp_decipher_def pdcp_verify_def Let_def cong: if_cong split: cipher_context.split integrity_context.split)

lemma pdcp_stats_more [simp]: "pd_stats_update f (pd_stats_update g e) = pd_stats_update (f \<circ> g) e"
  "pd_has_sdap_rx (pd_stats_update f e) = pd_has_sdap_rx e"
  by simp_all

definition pdcp_cfg :: "nr_pdcp_entity \<Rightarrow> bool" where
  "pdcp_cfg e \<longleftrightarrow> (pd_sn_size e = 12 \<or> pd_sn_size e = 18) \<and> pd_sn_max e = 2 ^ pd_sn_size e - 1 \<and>
     pd_window_size e = 2 ^ (pd_sn_size e - 1)"

lemma word_split: "(word_of_int c :: u32) = push_bit n (word_of_int (c div 2 ^ n)) OR word_of_int (c mod 2 ^ n)"
proof (rule bit_word_eqI)
  fix i assume i: "i < LENGTH(32)"
  then show "bit (word_of_int c :: u32) i =
      bit (push_bit n (word_of_int (c div 2 ^ n)) OR word_of_int (c mod 2 ^ n) :: u32) i"
    by (auto simp: bit_or_iff bit_push_bit_iff bit_word_of_int_iff drop_bit_eq_div [symmetric]
        take_bit_eq_mod [symmetric] bit_drop_bit_eq bit_take_bit_iff)
qed

lemma drop_bit_word_of_int: "(drop_bit n d :: u32) = word_of_int (uint d div 2 ^ n)"
  by (rule bit_word_eqI) (auto simp: bit_word_of_int_iff bit_drop_bit_eq drop_bit_eq_div [symmetric] bit_uint_iff dest: bit_imp_le_length)

lemma sn_max_mod: "pdcp_cfg e \<Longrightarrow> x AND pd_sn_max e = x mod 2 ^ pd_sn_size e"
  by (simp add: pdcp_cfg_def take_bit_eq_mod [symmetric] take_bit_eq_mask mask_eq_exp_minus_1)

text \<open>The arithmetic of the hyper frame number.\<close>

lemma hfn_arith:
  fixes c d :: int
  assumes "M = 2 * W" "0 < W" "d - W \<le> c" "c < d + W"
  shows "c div M = (if c mod M < d mod M - W then d div M + 1
    else if c mod M \<ge> d mod M + W then d div M - 1 else d div M)"
proof -
  let ?k = "c div M" and ?h = "d div M"
  have c: "c = M * ?k + c mod M" and d: "d = M * ?h + d mod M" by simp_all
  have r: "0 \<le> c mod M" "c mod M < M" "0 \<le> d mod M" "d mod M < M" using assms by simp_all
  have lo: "?h - 1 \<le> ?k"
  proof (rule ccontr)
    assume "\<not> ?h - 1 \<le> ?k"
    then have "M * ?k \<le> M * (?h - 2)" using assms by (intro mult_left_mono) auto
    moreover have "M * (?h - 2) = M * ?h - 2 * M" by (simp add: right_diff_distrib)
    ultimately show False using c d r assms by linarith
  qed
  have hi: "?k \<le> ?h + 1"
  proof (rule ccontr)
    assume "\<not> ?k \<le> ?h + 1"
    then have "M * (?h + 2) \<le> M * ?k" using assms by (intro mult_left_mono) auto
    moreover have "M * (?h + 2) = M * ?h + 2 * M" by (simp add: distrib_left)
    ultimately show False using c d r assms by linarith
  qed
  from lo hi consider "?k = ?h - 1" | "?k = ?h" | "?k = ?h + 1" by linarith
  then show ?thesis
  proof cases
    case 1
    then have "M * ?k = M * ?h - M" by (simp add: right_diff_distrib)
    then have "\<not> c mod M < d mod M - W" "c mod M \<ge> d mod M + W"
      using c d r assms by linarith+
    then show ?thesis using assms 1 by simp
  next
    case 2
    then have "M * ?k = M * ?h" by simp
    then have "\<not> c mod M < d mod M - W" "\<not> c mod M \<ge> d mod M + W"
      using c d r assms by linarith+
    then show ?thesis using assms 2 by simp
  next
    case 3
    then have "M * ?k = M * ?h + M" by (simp add: distrib_left)
    then have "c mod M < d mod M - W"
      using c d r assms by linarith+
    then show ?thesis using assms 3 by simp
  qed
qed

lemma pdcp_rcvd_count_eq:
  assumes cfg: "pdcp_cfg e"
    and near: "uint (pd_rx_deliv e) - pd_window_size e \<le> uint c" "uint c < uint (pd_rx_deliv e) + pd_window_size e"
  shows "pdcp_rcvd_count e (uint c AND pd_sn_max e) = c"
proof -
  let ?n = "pd_sn_size e" and ?d = "uint (pd_rx_deliv e)" and ?W = "pd_window_size e"
  have MW: "(2 :: int) ^ ?n = 2 * ?W" "0 < ?W" using cfg by (auto simp: pdcp_cfg_def)
  have c: "c = push_bit ?n (word_of_int (uint c div 2 ^ ?n)) OR word_of_int (uint c mod 2 ^ ?n)"
    using word_split [of "uint c" ?n] by simp
  have h: "drop_bit ?n (pd_rx_deliv e) = word_of_int (?d div 2 ^ ?n)" by (rule drop_bit_word_of_int)
  note hfn_arith [OF MW near]
  then show ?thesis
    unfolding pdcp_rcvd_count_def Let_def sn_max_mod [OF cfg] h
    by (subst c) (auto split: if_splits)
qed

section \<open>The header\<close>

lemma length_pdcp_header [simp]: "length (pdcp_header e sn) = pdcp_header_size e"
  by (simp add: pdcp_header_def pdcp_header_size_def)

lemma and_masks:
  "(x :: int) AND 0xff = take_bit 8 x" "x AND 0xf = take_bit 4 x" "x AND 0x3 = take_bit 2 x"
  by (simp_all add: take_bit_eq_mask mask_eq_exp_minus_1)

lemma sn12_parts: "take_bit 12 sn = sn \<Longrightarrow> push_bit 8 (take_bit 4 (drop_bit 8 sn)) OR take_bit 8 sn = (sn :: int)"
proof (rule bit_eqI)
  fix i assume "take_bit 12 sn = sn"
  then have "bit sn i = (i < 12 \<and> bit sn i)" by (metis bit_take_bit_iff)
  then show "bit (push_bit 8 (take_bit 4 (drop_bit 8 sn)) OR take_bit 8 sn) i = bit sn i"
    by (auto simp: bit_simps)
qed

lemma sn18_parts:
  "take_bit 18 sn = sn \<Longrightarrow>
   push_bit 16 (take_bit 2 (drop_bit 16 sn)) OR push_bit 8 (take_bit 8 (drop_bit 8 sn)) OR take_bit 8 sn = (sn :: int)"
proof (rule bit_eqI)
  fix i assume "take_bit 18 sn = sn"
  then have "bit sn i = (i < 18 \<and> bit sn i)" by (metis bit_take_bit_iff)
  then show "bit (push_bit 16 (take_bit 2 (drop_bit 16 sn)) OR push_bit 8 (take_bit 8 (drop_bit 8 sn)) OR take_bit 8 sn) i =
      bit sn i"
    by (cases "i < 8"; cases "i < 16") (auto simp: bit_simps)
qed

lemma pdcp_header_sn:
  assumes "pdcp_cfg tx" "pd_sn_size rx = pd_sn_size tx" "take_bit (pd_sn_size tx) sn = sn"
  shows "pdcp_rcvd_sn rx (pdcp_header tx sn @ b) = Inr sn"
proof -
  have u: "uint (word_of_int x :: byte) = take_bit 8 x" for x by (simp add: uint_word_of_int_eq)
  have hs: "\<not> length (pdcp_header tx sn @ b) < pdcp_header_size rx"
    using assms(2) by (simp add: pdcp_header_size_def)
  from assms(1) consider "pd_sn_size tx = 12" | "pd_sn_size tx = 18" by (auto simp: pdcp_cfg_def)
  then show ?thesis
  proof cases
    case 1
    then show ?thesis
      unfolding pdcp_rcvd_sn_def if_not_P [OF hs] using assms sn12_parts [of sn]
      by (simp add: pdcp_header_def Let_def and_masks u take_bit_or)
  next
    case 2
    then show ?thesis
      unfolding pdcp_rcvd_sn_def if_not_P [OF hs] using assms sn18_parts [of sn]
      by (simp add: pdcp_header_def Let_def and_masks u take_bit_or)
  qed
qed

text \<open>The D/C bit of a data radio bearer is set.\<close>

lemma pdcp_header_dc: "pd_type e \<noteq> NR_PDCP_SRB \<Longrightarrow> (pdcp_header e sn @ b) ! 0 AND 0x80 \<noteq> 0"
proof -
  assume "pd_type e \<noteq> NR_PDCP_SRB"
  then have dc: "pd_type e = NR_PDCP_DRB_AM \<or> pd_type e = NR_PDCP_DRB_UM" by (cases "pd_type e") auto
  have "bit (word_of_int (0x80 OR x) :: byte) 7" for x
    by (simp add: bit_word_of_int_iff bit_or_iff) 
  then have "(word_of_int (0x80 OR x) :: byte) AND 0x80 \<noteq> 0" for x
    using and_exp_eq_0_iff_not_bit [of "word_of_int (0x80 OR x) :: byte" 7] by simp
  with dc show ?thesis by (simp add: pdcp_header_def Let_def)
qed

section \<open>Security, seen from the peer\<close>

text \<open>
  Two entities of one bearer: the same configuration and security context, opposite sides.
\<close>

definition pdcp_peers :: "nr_pdcp_entity \<Rightarrow> nr_pdcp_entity \<Rightarrow> bool" where
  "pdcp_peers tx rx \<longleftrightarrow> pdcp_cfg tx \<and> pdcp_cfg rx \<and> pd_sn_size rx = pd_sn_size tx \<and> pd_type rx = pd_type tx \<and>
     pd_rb_id rx = pd_rb_id tx \<and> pd_has_sdap_rx rx = pd_has_sdap_tx tx \<and> pd_is_gnb rx = (\<not> pd_is_gnb tx) \<and>
     pd_has_ciphering rx = pd_has_ciphering tx \<and> pd_has_integrity rx = pd_has_integrity tx \<and>
     pd_cipher rx = pd_cipher tx \<and> pd_integrity rx = pd_integrity tx \<and>
     (pd_cipher tx = Nea2 \<longrightarrow> sp_ciphering_key (pd_keys rx) = sp_ciphering_key (pd_keys tx))"

lemma pdcp_peers_direction: "pdcp_peers tx rx \<Longrightarrow> pdcp_rx_direction rx = pdcp_tx_direction tx"
  by (simp add: pdcp_peers_def pdcp_rx_direction_def pdcp_tx_direction_def)

lemma pdcp_peers_sizes:
  "pdcp_peers tx rx \<Longrightarrow> pdcp_header_size rx = pdcp_header_size tx \<and> pdcp_integrity_size rx = pdcp_integrity_size tx"
  by (simp add: pdcp_peers_def pdcp_header_size_def pdcp_integrity_size_def)

lemma pdcp_peers_integrity: "pdcp_peers tx rx \<Longrightarrow> pdcp_integrity env rx = pdcp_integrity env tx"
  unfolding pdcp_peers_def by (elim conjE) (simp add: pdcp_integrity_def fun_eq_iff split: integrity_context.split)

lemma pdcp_peers_cipher: "pdcp_peers tx rx \<Longrightarrow> pdcp_cipher env rx = pdcp_cipher env tx"
  unfolding pdcp_peers_def by (elim conjE) (simp add: pdcp_cipher_def fun_eq_iff split: cipher_context.split)

text \<open>Every cipher keeps the length and undoes itself.\<close>

lemma pdcp_cipher_twice:
  assumes env: "env_ok env" and len: "length b < 2 ^ 28" and run: "pdcp_cipher env e b count dir = Inr d"
  shows "length d = length b" and "pdcp_cipher env e d count dir = Inr b"
proof -
  have "length d = length b \<and> pdcp_cipher env e d count dir = Inr b"
  proof (cases "pd_cipher e")
    case NoCipher
    then show ?thesis using run by (simp add: pdcp_cipher_def)
  next
    case (Nea1 key)
    then show ?thesis
      using run len by (auto simp: pdcp_cipher_def nea1_cipher [OF env] uea2_cipher.crypt_twice)
  next
    case Nea2
    let ?iv = "aes_iv16 count (pd_rb_id e - 1) dir" and ?key = "sp_ciphering_key (pd_keys e)"
    have d: "d = aes_ctr env ?key ?iv b"
      and guard: "0 < length b \<and> - 1 < pd_rb_id e \<and> pd_rb_id e < 32 \<and> - 1 < dir \<and> dir < 2 \<and> - 1 < sint count"
      using run Nea2 by (auto simp: pdcp_cipher_def nr_pdcp_security_nea2_cipher_def split: if_splits)
    have "length d = length b" "aes_ctr env ?key ?iv d = b" using env by (simp_all add: d env_ok_def)
    then show ?thesis
      using guard Nea2 by (simp add: pdcp_cipher_def nr_pdcp_security_nea2_cipher_def)
  qed
  then show "length d = length b" "pdcp_cipher env e d count dir = Inr b" by auto
qed

lemma length_uia2 [simp]: "length (uia2 count fresh direction key b) = 4"
  by (simp add: uia2_def Let_def)

lemma pdcp_integrity_length:
  assumes env: "env_ok env" and len: "length b < 2 ^ 28" "b \<noteq> []" and run: "pdcp_integrity env e b count dir = Inr mac"
  shows "length mac = 4"
  using run len env
  by (auto simp: pdcp_integrity_def nia1_integrity [OF env] nr_pdcp_integrity_nia2_integrity_def env_ok_def
      split: integrity_context.splits if_splits)

section \<open>A PDU of the sender at the receiver\<close>

text \<open>What the sender does, cut into its steps.\<close>

lemma pdcp_process_parts:
  assumes "nr_pdcp_entity_process_sdu env sdu room tx = Inr (tx', Some pdu)"
  obtains mac where
    "\<not> pd_entity_suspended tx"
    "(if pd_has_integrity tx
      then pdcp_integrity env tx (pdcp_header tx (uint (pd_tx_next tx) AND pd_sn_max tx) @ sdu) (pd_tx_next tx) (pdcp_tx_direction tx)
      else Inr (replicate (pdcp_integrity_size tx) 0)) = Inr mac"
    "(let b = pdcp_header tx (uint (pd_tx_next tx) AND pd_sn_max tx) @ sdu @ mac;
          off = pdcp_header_size tx + of_bool (pd_has_sdap_tx tx)
      in if pd_has_ciphering tx
         then res_bind (pdcp_cipher env tx (drop off b) (pd_tx_next tx) (pdcp_tx_direction tx)) (\<lambda>d. Inr (take off b @ d))
         else Inr b) = Inr pdu"
proof -
  define st where "st = (let s = pd_stats tx in s\<lparr>ps_rxsdu_pkts := ps_rxsdu_pkts s + 1,
    ps_rxsdu_bytes := ps_rxsdu_bytes s + word_of_int (int (length sdu))\<rparr>)"
  show thesis
    using assms that
    unfolding nr_pdcp_entity_process_sdu_def Let_def st_def [unfolded Let_def, symmetric]
    by (auto simp: res_bind_eq_Inr split: if_splits)
qed

text \<open>The PDU is the header followed by as many bytes as the SDU and the MAC-I have; deciphered, it is
  the header, the SDU and the MAC-I.\<close>

lemma pdcp_pdu_shape:
  assumes env: "env_ok env" and peers: "pdcp_peers tx rx" and len: "length sdu < 2 ^ 27"
    and sdap: "of_bool (pd_has_sdap_tx tx) < length sdu"
    and run: "nr_pdcp_entity_process_sdu env sdu room tx = Inr (tx', Some pdu)"
  defines "hdr \<equiv> pdcp_header tx (uint (pd_tx_next tx) AND pd_sn_max tx)"
  obtains mac rest where "pdu = hdr @ rest" "length rest = length sdu + pdcp_integrity_size tx"
    "length mac = pdcp_integrity_size tx" "\<not> pd_entity_suspended tx"
    "pdcp_decipher env rx pdu (pd_tx_next tx) = Inr (hdr @ sdu @ mac)"
    "pdcp_verify env rx (hdr @ sdu @ mac) (pd_tx_next tx) = Inr True"
proof -
  let ?off = "pdcp_header_size tx + of_bool (pd_has_sdap_tx tx)"
  obtain mac where susp: "\<not> pd_entity_suspended tx"
    and mac: "(if pd_has_integrity tx then pdcp_integrity env tx (hdr @ sdu) (pd_tx_next tx) (pdcp_tx_direction tx)
      else Inr (replicate (pdcp_integrity_size tx) 0)) = Inr mac"
    and pdu: "(let b = hdr @ sdu @ mac in if pd_has_ciphering tx
         then res_bind (pdcp_cipher env tx (drop ?off b) (pd_tx_next tx) (pdcp_tx_direction tx)) (\<lambda>d. Inr (take ?off b @ d))
         else Inr b) = Inr pdu"
    using pdcp_process_parts [OF run] unfolding hdr_def [symmetric] Let_def by blast
  have hs: "length hdr = pdcp_header_size tx" "pdcp_header_size tx \<le> 3" "pdcp_integrity_size tx \<le> 4"
    by (simp_all add: hdr_def pdcp_header_size_def pdcp_integrity_size_def)
  have ml: "length mac = pdcp_integrity_size tx"
  proof (cases "pd_has_integrity tx")
    case True
    then have "length mac = 4"
      using mac len hs sdap by (intro pdcp_integrity_length [OF env, of "hdr @ sdu"]) auto
    then show ?thesis using True by (simp add: pdcp_integrity_size_def)
  qed (use mac in auto)
  have dir: "pdcp_rx_direction rx = pdcp_tx_direction tx" by (rule pdcp_peers_direction [OF peers])
  have roff: "pdcp_header_size rx + of_bool (pd_has_sdap_rx rx) = ?off"
    using peers pdcp_peers_sizes [OF peers] by (simp add: pdcp_peers_def)
  define b where "b = hdr @ sdu @ mac"
  define off where "off = ?off"
  have bl: "length b < 2 ^ 28" "off \<le> length b" "length hdr \<le> off" using len hs ml sdap by (auto simp: b_def off_def)
  note pdu' = pdu [unfolded Let_def, folded b_def off_def]
  note roff' = roff [folded off_def]
  have dec: "pdcp_decipher env rx pdu (pd_tx_next tx) = Inr b \<and> length pdu = length b \<and> take off pdu = take off b"
  proof (cases "pd_has_ciphering tx")
    case True
    then obtain d where d: "pdcp_cipher env tx (drop off b) (pd_tx_next tx) (pdcp_tx_direction tx) = Inr d"
      and p: "pdu = take off b @ d"
      using pdu' by (auto simp: res_bind_eq_Inr)
    have c: "length (drop off b) < 2 ^ 28" using bl by simp
    note tw = pdcp_cipher_twice [OF env c d]
    have "pd_has_ciphering rx" using True peers by (simp add: pdcp_peers_def)
    moreover have "take off pdu = take off b" "drop off pdu = d" "length pdu = length b"
      using tw(1) bl(2) unfolding p by simp_all
    ultimately show ?thesis
      using tw(2) unfolding pdcp_decipher_def Let_def roff' dir pdcp_peers_cipher [OF peers] by simp
  next
    case False
    then show ?thesis using pdu' peers by (simp add: pdcp_decipher_def pdcp_peers_def)
  qed
  have ver: "pdcp_verify env rx b (pd_tx_next tx) = Inr True"
  proof (cases "pd_has_integrity tx")
    case True
    then have "length mac = 4" using ml by (simp add: pdcp_integrity_size_def)
    moreover have "pd_has_integrity rx" using True peers by (simp add: pdcp_peers_def)
    ultimately show ?thesis
      using True mac by (simp add: b_def pdcp_verify_def dir pdcp_peers_integrity [OF peers])
  qed (use peers in \<open>simp add: pdcp_verify_def pdcp_peers_def\<close>)
  have "take (length hdr) pdu = take (length hdr) (take off b)"
    using dec bl(3) by (metis min.absorb1 take_take)
  also have "\<dots> = hdr" using bl(3) by (simp add: b_def min.absorb1)
  finally have "pdu = hdr @ drop (length hdr) pdu" by (metis append_take_drop_id)
  moreover have "length (drop (length hdr) pdu) = length sdu + pdcp_integrity_size tx"
    using dec ml by (simp add: b_def)
  ultimately show thesis using that ml susp dec ver unfolding b_def by blast
qed

lemma pdcp_recv_peer:
  assumes env: "env_ok env" and peers: "pdcp_peers tx rx" and len: "length sdu < 2 ^ 27"
    and sdap: "of_bool (pd_has_sdap_tx tx) < length sdu"
    and run: "nr_pdcp_entity_process_sdu env sdu room tx = Inr (tx', Some pdu)"
    and susp: "\<not> pd_entity_suspended rx"
    and near: "uint (pd_rx_deliv rx) - pd_window_size rx \<le> uint (pd_tx_next tx)"
      "uint (pd_tx_next tx) < uint (pd_rx_deliv rx) + pd_window_size rx"
  defines "old \<equiv> pd_tx_next tx < pd_rx_deliv rx \<or> nr_pdcp_sdu_in_list (pd_rx_list rx) (pd_tx_next tx)"
  shows "\<exists>f mi. nr_pdcp_entity_recv_pdu env pdu rx =
    Inr (if old then (pd_stats_update f rx, [])
      else pdcp_accept_sdu (nr_pdcp_new_sdu (pd_tx_next tx) sdu mi) (int (length sdu + pdcp_integrity_size rx))
        (pd_stats_update f rx))"
proof -
  define sn where "sn = uint (pd_tx_next tx) AND pd_sn_max tx"
  define hdr where "hdr = pdcp_header tx sn"
  obtain mac rest where p: "pdu = hdr @ rest" and lr: "length rest = length sdu + pdcp_integrity_size tx"
    and ml: "length mac = pdcp_integrity_size tx"
    and dec: "pdcp_decipher env rx pdu (pd_tx_next tx) = Inr (hdr @ sdu @ mac)"
    and ver: "pdcp_verify env rx (hdr @ sdu @ mac) (pd_tx_next tx) = Inr True"
    using pdcp_pdu_shape [OF env peers len sdap run] unfolding hdr_def sn_def by metis
  have cfg: "pdcp_cfg tx" "pdcp_cfg rx" "pd_sn_size rx = pd_sn_size tx" "pd_sn_max rx = pd_sn_max tx"
    "pd_type rx = pd_type tx"
    using peers by (auto simp: pdcp_peers_def pdcp_cfg_def)
  have sizes: "length hdr = pdcp_header_size rx" "pdcp_integrity_size rx = pdcp_integrity_size tx"
    using pdcp_peers_sizes [OF peers] by (simp_all add: hdr_def)
  have "take_bit (pd_sn_size tx) sn = sn"
    using sn_max_mod [OF cfg(1)] by (simp add: sn_def take_bit_eq_mod)
  note psn = pdcp_header_sn [OF cfg(1,3) this, of rest, folded hdr_def, folded p]
  have dc: "\<not> (pd_type rx \<noteq> NR_PDCP_SRB \<and> pdu ! 0 AND 0x80 = 0)"
    using pdcp_header_dc [of tx sn rest] cfg(5) by (auto simp: p hdr_def)
  have n1: "\<not> int (length pdu) < 1" using sizes lr sdap by (auto simp: p)
  have n2: "\<not> int (length pdu) < int (pdcp_header_size rx) + of_bool (pd_has_sdap_rx rx) + int (pdcp_integrity_size rx) + 1"
    using sizes lr sdap peers by (cases "pd_has_sdap_tx tx") (auto simp: p pdcp_peers_def)
  have cnt: "pdcp_rcvd_count rx sn = pd_tx_next tx"
    unfolding sn_def cfg(4) [symmetric]
    by (rule pdcp_rcvd_count_eq [OF cfg(2) near])
  have rec: "\<exists>g mi. pdcp_recv_count env pdu (pd_tx_next tx) (pd_stats_update f rx) =
    Inr (if old then (pd_stats_update g rx, [])
      else pdcp_accept_sdu (nr_pdcp_new_sdu (pd_tx_next tx) sdu mi) (int (length sdu + pdcp_integrity_size rx))
        (pd_stats_update g rx))" for f
  proof -
    have "take (length pdu - pdcp_header_size rx - pdcp_integrity_size rx) (drop (pdcp_header_size rx) (hdr @ sdu @ mac)) = sdu"
      "int (length pdu) - int (pdcp_header_size rx) = int (length sdu + pdcp_integrity_size rx)"
      using sizes lr by (simp_all add: p)
    moreover have "\<exists>g. pdcp_count_discard n (pd_stats_update f rx) = pd_stats_update g rx" for n
      unfolding pdcp_count_discard_def pdcp_stats_more by blast
    ultimately show ?thesis
      unfolding pdcp_recv_count_def Let_def pdcp_stats_frame dec by (cases old) (auto simp: ver old_def)
  qed
  show ?thesis
    unfolding nr_pdcp_entity_recv_pdu_def Let_def if_not_P [OF susp] if_not_P [OF n1] if_not_P [OF dc]
      pdcp_stats_frame psn res_bind_Inr cnt
    unfolding pdcp_stats_more if_not_P [OF n2] using rec by blast
qed

end
