(* ===== verification/PdcpRx.thy ===== *)
theory PdcpRx
  imports PdcpCount
begin

unbundle bit_operations_syntax

text \<open>
  The receiving side: the list of stored SDUs is sorted by COUNT and beyond \<open>rx_deliv\<close>, what is
  delivered comes out in the order of COUNT, each COUNT once, and nothing is delivered that was not
  received.
\<close>

section \<open>The list\<close>

abbreviation counts :: "nr_pdcp_sdu list \<Rightarrow> u32 list" where
  "counts l \<equiv> map su_count l"

abbreviation count_sorted :: "nr_pdcp_sdu list \<Rightarrow> bool" where
  "count_sorted l \<equiv> sorted_wrt (<) (counts l)"

lemma sdu_in_list_iff [simp]: "nr_pdcp_sdu_in_list l c \<longleftrightarrow> c \<in> set (counts l)"
  by (induction l) auto

lemma set_sdu_list_add [simp]: "set (nr_pdcp_sdu_list_add l s) = insert s (set l)"
  by (induction l) auto

lemma sdu_list_add_sorted:
  "count_sorted l \<Longrightarrow> su_count s \<notin> set (counts l) \<Longrightarrow> count_sorted (nr_pdcp_sdu_list_add l s)"
  by (induction l) (auto simp: less_le)

section \<open>The loops\<close>

text \<open>The loops only touch the list, its size and the statistics.\<close>

definition same_but_list :: "nr_pdcp_entity \<Rightarrow> nr_pdcp_entity \<Rightarrow> bool" where
  "same_but_list e e' \<longleftrightarrow>
     e'\<lparr>pd_rx_list := [], pd_rx_size := 0, pd_stats := pdcp_stats_zero\<rparr> =
     e\<lparr>pd_rx_list := [], pd_rx_size := 0, pd_stats := pdcp_stats_zero\<rparr>"

lemma same_but_list_refl [simp]: "same_but_list e e"
  by (simp add: same_but_list_def)

lemma same_but_list_trans: "same_but_list a b \<Longrightarrow> same_but_list b c \<Longrightarrow> same_but_list a c"
  by (simp add: same_but_list_def)

lemma same_but_list_deliver_one [simp]: "same_but_list e (pdcp_deliver_one cur rest e)"
  by (simp add: same_but_list_def pdcp_deliver_one_def)

text \<open>The sum of the sizes the loops take off \<open>rx_size\<close>.\<close>

definition sdu_sizes :: "nr_pdcp_sdu list \<Rightarrow> int" where
  "sdu_sizes l = sum_list (map su_size l)"

lemma sdu_sizes_simps [simp]: "sdu_sizes [] = 0" "sdu_sizes (s # l) = su_size s + sdu_sizes l"
  "sdu_sizes (k @ l) = sdu_sizes k + sdu_sizes l"
  by (simp_all add: sdu_sizes_def)

lemma deliver_one_list [simp]:
  "pd_rx_list (pdcp_deliver_one cur rest e) = rest"
  "pd_rx_size (pdcp_deliver_one cur rest e) = pd_rx_size e - su_size cur"
  by (simp_all add: pdcp_deliver_one_def)

lemma deliver_consecutive_frame:
  assumes "pdcp_deliver_consecutive l c e = (c', e', out)" "pd_rx_list e = l"
  shows "same_but_list e e' \<and> l = out @ pd_rx_list e' \<and> pd_rx_size e' = pd_rx_size e - sdu_sizes out"
  using assms
proof (induction l c e arbitrary: c' e' out rule: pdcp_deliver_consecutive.induct)
  case (2 cur rest c e)
  show ?case
  proof (cases "c = su_count cur")
    case True
    obtain c1 e1 o1 where r: "pdcp_deliver_consecutive rest (c + 1) (pdcp_deliver_one cur rest e) = (c1, e1, o1)"
      by (metis prod_cases3)
    from "2.IH" [OF True r] r True "2.prems" show ?thesis
      by (auto intro: same_but_list_trans [OF same_but_list_deliver_one])
  qed (use "2.prems" in auto)
qed auto

text \<open>
  From a sorted list that starts at \<open>c\<close> or later: what stays is beyond the new value, and what comes
  out lies from \<open>c\<close> up to it, unless COUNT wraps.
\<close>

lemma deliver_consecutive_counts:
  assumes "pdcp_deliver_consecutive l c e = (c', e', out)" "pd_rx_list e = l" "count_sorted l"
    "\<And>s. s \<in> set l \<Longrightarrow> c \<le> su_count s"
  shows "(\<forall>s \<in> set (pd_rx_list e'). c' < su_count s) \<and>
    (- 1 \<notin> set (counts out) \<longrightarrow> c \<le> c' \<and> (\<forall>s \<in> set out. su_count s < c'))"
  using assms
proof (induction l c e arbitrary: c' e' out rule: pdcp_deliver_consecutive.induct)
  case (2 cur rest c e)
  show ?case
  proof (cases "c = su_count cur")
    case True
    obtain c1 e1 o1 where r: "pdcp_deliver_consecutive rest (c + 1) (pdcp_deliver_one cur rest e) = (c1, e1, o1)"
      by (metis prod_cases3)
    with True "2.prems" have c': "c' = c1" "e' = e1" "out = cur # o1" by auto
    have "c + 1 \<le> su_count s" if "s \<in> set rest" for s
      using "2.prems"(3) that True by (auto intro: inc_le)
    with "2.IH" [OF True r] "2.prems"(3)
    have IH: "\<forall>s \<in> set (pd_rx_list e1). c1 < su_count s"
      "- 1 \<notin> set (counts o1) \<Longrightarrow> c + 1 \<le> c1 \<and> (\<forall>s \<in> set o1. su_count s < c1)" by auto
    have "c < c1" if "c \<noteq> - 1" "c + 1 \<le> c1"
      using that by (simp add: inc_less_eq_iff)
    with IH True show ?thesis unfolding c' by (auto intro: less_imp_le)
  next
    case False
    then have "c < su_count cur" using "2.prems"(4) [of cur] by (simp add: less_le)
    then show ?thesis using False "2.prems" by (auto intro: less_trans)
  qed
qed auto

lemma deliver_below_frame:
  assumes "pdcp_deliver_below l c e = (e', out)" "pd_rx_list e = l" "count_sorted l"
  shows "same_but_list e e' \<and> l = out @ pd_rx_list e' \<and> pd_rx_size e' = pd_rx_size e - sdu_sizes out \<and>
    (\<forall>s \<in> set out. su_count s < c) \<and> (\<forall>s \<in> set (pd_rx_list e'). c \<le> su_count s)"
  using assms
proof (induction l c e arbitrary: e' out rule: pdcp_deliver_below.induct)
  case (2 cur rest c e)
  show ?case
  proof (cases "su_count cur < c")
    case True
    obtain e1 o1 where r: "pdcp_deliver_below rest c (pdcp_deliver_one cur rest e) = (e1, o1)" by fastforce
    from "2.IH" [OF True r] r True "2.prems" show ?thesis
      by (auto intro: same_but_list_trans [OF same_but_list_deliver_one])
  next
    case False
    then have "e' = e" "out = []" "c \<le> su_count cur" using "2.prems"(1) by auto
    then show ?thesis using "2.prems"(2,3) by (auto intro: order_trans less_imp_le)
  qed
qed auto

lemma deliver_all_frame:
  assumes "pdcp_deliver_all l e = (e', out)" "pd_rx_list e = l"
  shows "same_but_list e e' \<and> out = l \<and> pd_rx_list e' = [] \<and> pd_rx_size e' = pd_rx_size e - sdu_sizes l"
  using assms
proof (induction l e arbitrary: e' out rule: pdcp_deliver_all.induct)
  case (2 cur rest e)
  obtain e1 o1 where r: "pdcp_deliver_all rest (pdcp_deliver_one cur rest e) = (e1, o1)" by fastforce
  have e': "e' = e1" "out = cur # o1" using r "2.prems"(1) by auto
  from "2.IH" [OF r] have "same_but_list (pdcp_deliver_one cur rest e) e1 \<and> o1 = rest \<and> pd_rx_list e1 = [] \<and>
      pd_rx_size e1 = pd_rx_size e - su_size cur - sdu_sizes rest" by simp
  then show ?case unfolding e' by (auto intro: same_but_list_trans [OF same_but_list_deliver_one])
qed auto

lemma same_but_listD:
  assumes "same_but_list e e'"
  shows "pd_rx_deliv e' = pd_rx_deliv e" "pd_rx_next e' = pd_rx_next e" "pd_rx_reord e' = pd_rx_reord e"
    "pd_t_reordering_start e' = pd_t_reordering_start e" "pd_t_current e' = pd_t_current e"
    "pd_tx_next e' = pd_tx_next e" "pd_entity_suspended e' = pd_entity_suspended e"
    "pd_sn_size e' = pd_sn_size e" "pd_sn_max e' = pd_sn_max e" "pd_window_size e' = pd_window_size e"
    "pd_type e' = pd_type e" "pd_rb_id e' = pd_rb_id e" "pd_has_ciphering e' = pd_has_ciphering e"
    "pd_has_integrity e' = pd_has_integrity e" "pd_cipher e' = pd_cipher e" "pd_integrity e' = pd_integrity e"
    "pd_keys e' = pd_keys e" "pd_is_gnb e' = pd_is_gnb e" "pd_t_reordering e' = pd_t_reordering e"
    "pd_has_sdap_rx e' = pd_has_sdap_rx e" "pd_has_sdap_tx e' = pd_has_sdap_tx e"
  using assms by (cases e; cases e'; simp add: same_but_list_def)+

section \<open>The invariant\<close>

text \<open>
  Sorted, beyond \<open>rx_deliv\<close>; while t-Reordering runs, \<open>rx_deliv\<close> has not reached the COUNT it
  waits for.
\<close>

definition pdcp_rx_inv :: "nr_pdcp_entity \<Rightarrow> bool" where
  "pdcp_rx_inv e \<longleftrightarrow> count_sorted (pd_rx_list e) \<and> (\<forall>s \<in> set (pd_rx_list e). pd_rx_deliv e < su_count s) \<and>
     (pd_t_reordering_start e \<noteq> 0 \<longrightarrow> pd_rx_deliv e < pd_rx_reord e)"

text \<open>
  What an operation delivers, between the value of \<open>rx_deliv\<close> before and after: in the order of COUNT,
  and, unless the largest COUNT is used up, each below the new value.
\<close>

definition delivers_between :: "u32 \<Rightarrow> nr_pdcp_sdu list \<Rightarrow> u32 \<Rightarrow> bool" where
  "delivers_between c out c' \<longleftrightarrow> count_sorted out \<and> (\<forall>s \<in> set out. c \<le> su_count s) \<and>
     (- 1 \<notin> set (counts out) \<longrightarrow> c \<le> c' \<and> (\<forall>s \<in> set out. su_count s < c'))"

lemma delivers_between_Nil [simp]: "delivers_between c [] c' \<longleftrightarrow> c \<le> c'"
  by (simp add: delivers_between_def)

lemma delivers_between_trans:
  assumes "delivers_between a xs b" "delivers_between b ys c" "- 1 \<notin> set (counts xs)"
  shows "delivers_between a (xs @ ys) c"
  using assms unfolding delivers_between_def
  by (auto simp: sorted_wrt_append intro: order_trans less_le_trans dest: bspec)

lemma pdcp_start_reordering_inv:
  "pd_t_reordering_start e = 0 \<Longrightarrow> pdcp_rx_inv (pdcp_start_reordering e) = pdcp_rx_inv e"
  by (auto simp: pdcp_start_reordering_def pdcp_rx_inv_def)

lemma pdcp_start_reordering_frame [simp]:
  "pd_rx_deliv (pdcp_start_reordering e) = pd_rx_deliv e" "pd_rx_list (pdcp_start_reordering e) = pd_rx_list e"
  "pd_rx_size (pdcp_start_reordering e) = pd_rx_size e"
  by (simp_all add: pdcp_start_reordering_def)

lemma pdcp_update_reordering_frame [simp]:
  "pd_rx_deliv (pdcp_update_reordering e) = pd_rx_deliv e" "pd_rx_list (pdcp_update_reordering e) = pd_rx_list e"
  "pd_rx_size (pdcp_update_reordering e) = pd_rx_size e"
  by (simp_all add: pdcp_update_reordering_def)

lemma pdcp_update_reordering_inv:
  assumes "count_sorted (pd_rx_list e)" "\<forall>s \<in> set (pd_rx_list e). pd_rx_deliv e < su_count s"
  shows "pdcp_rx_inv (pdcp_update_reordering e)"
  using assms by (auto simp: pdcp_update_reordering_def Let_def pdcp_start_reordering_def pdcp_rx_inv_def not_le)

section \<open>A received SDU\<close>

lemma pdcp_store_sdu_frame [simp]:
  "pd_rx_list (pdcp_store_sdu s n e) = nr_pdcp_sdu_list_add (pd_rx_list e) s"
  "pd_rx_deliv (pdcp_store_sdu s n e) = pd_rx_deliv e"
  "pd_rx_size (pdcp_store_sdu s n e) = pd_rx_size e + n"
  by (simp_all add: pdcp_store_sdu_def Let_def)

lemma pdcp_accept_sdu_inv:
  assumes inv: "pdcp_rx_inv e" and new: "pd_rx_deliv e \<le> su_count s" "su_count s \<notin> set (counts (pd_rx_list e))"
    and run: "pdcp_accept_sdu s n e = (e', out)"
  shows "pdcp_rx_inv e'" and "delivers_between (pd_rx_deliv e) out (pd_rx_deliv e')"
    and "set (out @ pd_rx_list e') = insert s (set (pd_rx_list e))"
    and "pd_rx_size e' = pd_rx_size e + n - sdu_sizes out"
proof -
  define e2 where "e2 = pdcp_store_sdu s n e"
  have l2: "count_sorted (pd_rx_list e2)" "\<forall>s \<in> set (pd_rx_list e2). pd_rx_deliv e2 \<le> su_count s"
    "pd_rx_deliv e2 = pd_rx_deliv e" "set (pd_rx_list e2) = insert s (set (pd_rx_list e))"
    "pd_rx_size e2 = pd_rx_size e + n"
    using inv new by (auto simp: e2_def pdcp_rx_inv_def sdu_list_add_sorted)
  have "pdcp_rx_inv e' \<and> delivers_between (pd_rx_deliv e) out (pd_rx_deliv e') \<and>
    set (out @ pd_rx_list e') = insert s (set (pd_rx_list e)) \<and> pd_rx_size e' = pd_rx_size e + n - sdu_sizes out"
  proof (cases "su_count s = pd_rx_deliv e2")
    case True
    obtain c e3 o3 where d: "pdcp_deliver_consecutive (pd_rx_list e2) (pd_rx_deliv e2) e2 = (c, e3, o3)"
      by (metis prod_cases3)
    have r: "e' = pdcp_update_reordering (e3\<lparr>pd_rx_deliv := c\<rparr>)" "out = o3"
      using run True d by (simp_all add: pdcp_accept_sdu_def e2_def [symmetric] Let_def)
    note f = deliver_consecutive_frame [OF d refl]
    have k: "(\<forall>s \<in> set (pd_rx_list e3). c < su_count s) \<and>
        (- 1 \<notin> set (counts o3) \<longrightarrow> pd_rx_deliv e2 \<le> c \<and> (\<forall>s \<in> set o3. su_count s < c))"
      by (rule deliver_consecutive_counts [OF d refl l2(1)]) (use l2(2) in blast)
    have l: "pd_rx_list e2 = o3 @ pd_rx_list e3" using f by simp
    have "count_sorted (pd_rx_list e3)" "count_sorted o3" using l2(1) unfolding l by (simp_all add: sorted_wrt_append)
    then have "pdcp_rx_inv e'" unfolding r using k by (intro pdcp_update_reordering_inv) simp_all
    moreover have "delivers_between (pd_rx_deliv e) out (pd_rx_deliv e')"
      using k l2(2,3) \<open>count_sorted o3\<close> unfolding l by (simp add: r delivers_between_def)
    moreover have "set (out @ pd_rx_list e') = insert s (set (pd_rx_list e))"
      using l2(4) unfolding l by (simp add: r)
    ultimately show ?thesis using f l2(5) by (simp add: r)
  next
    case False
    have r: "e' = pdcp_update_reordering e2" "out = []"
      using run False by (simp_all add: pdcp_accept_sdu_def e2_def [symmetric] Let_def)
    have "pd_rx_deliv e2 < su_count s" using False new l2(3) by simp
    then have "\<forall>s \<in> set (pd_rx_list e2). pd_rx_deliv e2 < su_count s"
      using inv l2(3,4) by (auto simp: pdcp_rx_inv_def)
    then have "pdcp_rx_inv e'" unfolding r using l2(1) by (intro pdcp_update_reordering_inv)
    then show ?thesis using l2 by (simp add: r)
  qed
  then show "pdcp_rx_inv e'" "delivers_between (pd_rx_deliv e) out (pd_rx_deliv e')"
    "set (out @ pd_rx_list e') = insert s (set (pd_rx_list e))" "pd_rx_size e' = pd_rx_size e + n - sdu_sizes out"
    by auto
qed

section \<open>The expiry of t-Reordering\<close>

lemma pdcp_check_t_reordering_inv:
  assumes inv: "pdcp_rx_inv e" and run: "pdcp_check_t_reordering e = (e', out)"
  shows "pdcp_rx_inv e' \<and> delivers_between (pd_rx_deliv e) out (pd_rx_deliv e') \<and>
    set (out @ pd_rx_list e') = set (pd_rx_list e) \<and> pd_rx_size e' = pd_rx_size e - sdu_sizes out"
proof (cases "pd_t_reordering e = - 1 \<or> pd_t_reordering_start e = 0 \<or>
    pd_t_current e \<le> pd_t_reordering_start e + word_of_int (pd_t_reordering e)")
  case True
  then have "e' = e" "out = []" using run by (auto simp: pdcp_check_t_reordering_def split: if_splits)
  then show ?thesis using inv by simp
next
  case False
  define e1 where "e1 = e\<lparr>pd_t_reordering_start := 0\<rparr>"
  have i1: "count_sorted (pd_rx_list e1)" "pd_rx_list e1 = pd_rx_list e" "pd_rx_deliv e1 = pd_rx_deliv e"
    "pd_rx_reord e1 = pd_rx_reord e" "pd_rx_deliv e < pd_rx_reord e" "pd_rx_size e1 = pd_rx_size e"
    using inv False by (simp_all add: e1_def pdcp_rx_inv_def)
  obtain e2 o1 where b: "pdcp_deliver_below (pd_rx_list e1) (pd_rx_reord e1) e1 = (e2, o1)" by fastforce
  obtain c e3 o2 where d: "pdcp_deliver_consecutive (pd_rx_list e2) (pd_rx_reord e2) e2 = (c, e3, o2)"
    by (metis prod_cases3)
  have r: "e' = pdcp_start_reordering (e3\<lparr>pd_rx_deliv := c\<rparr>)" "out = o1 @ o2"
    using run False b d by (simp_all add: pdcp_check_t_reordering_def Let_def e1_def)
  note fb = deliver_below_frame [OF b refl i1(1)]
  note fc = deliver_consecutive_frame [OF d refl]
  have re: "pd_rx_reord e2 = pd_rx_reord e" using fb same_but_listD(3) i1(4) by metis
  have l: "pd_rx_list e = o1 @ o2 @ pd_rx_list e3" "pd_rx_list e2 = o2 @ pd_rx_list e3" using fb fc i1(2) by auto
  have so: "count_sorted (o1 @ o2)" "count_sorted (pd_rx_list e3)" "count_sorted (pd_rx_list e2)"
    using i1(1,2) unfolding l i1(2) by (auto simp: sorted_wrt_append)
  have k: "(\<forall>s \<in> set (pd_rx_list e3). c < su_count s) \<and>
      (- 1 \<notin> set (counts o2) \<longrightarrow> pd_rx_reord e2 \<le> c \<and> (\<forall>s \<in> set o2. su_count s < c))"
    by (rule deliver_consecutive_counts [OF d refl so(3)]) (use fb re i1(4) in auto)
  have t0: "pd_t_reordering_start (e3\<lparr>pd_rx_deliv := c\<rparr>) = 0"
    using same_but_listD(4) [of e1 e2] same_but_listD(4) [of e2 e3] fb fc by (simp add: e1_def)
  have "pdcp_rx_inv e'"
    unfolding r(1) pdcp_start_reordering_inv [OF t0] using so(2) k t0 by (simp add: pdcp_rx_inv_def)
  moreover have "\<forall>s \<in> set (o1 @ o2). pd_rx_deliv e \<le> su_count s"
    using inv unfolding pdcp_rx_inv_def l by (auto intro: less_imp_le)
  then have "delivers_between (pd_rx_deliv e) out (pd_rx_deliv e')"
    using so(1) k re i1(5) fb unfolding delivers_between_def r i1(4)
    by (auto intro: less_le_trans less_imp_le)
  moreover have "set (out @ pd_rx_list e') = set (pd_rx_list e)" unfolding r l by simp
  ultimately show ?thesis using fb fc i1(6) by (simp add: r)
qed

end
