(* ===== verification/PdcpMachine.thy ===== *)
theory PdcpMachine
  imports PdcpRx
begin

unbundle bit_operations_syntax

text \<open>
  The PDCP entity as a machine: every admissible run of its operations completes and keeps the
  invariant; what a run delivers is in the order of COUNT, without duplicates, and, with integrity
  protection, only what carries a valid MAC.
\<close>

section \<open>Reception, case by case\<close>

lemma pdcp_count_discard_stats: "\<exists>f. pdcp_count_discard n e = pd_stats_update f e"
  by (auto simp: pdcp_count_discard_def)

text \<open>A reception either counts the PDU and keeps the rest, or accepts an SDU whose MAC is valid.\<close>

lemma pdcp_recv_cases:
  assumes run: "nr_pdcp_entity_recv_pdu env b e = Inr (e', out)"
  obtains (same) f where "e' = pd_stats_update f e" "out = []"
  | (accept) f count b1 mi n where "\<not> pd_entity_suspended e" "pd_rx_deliv e \<le> count"
      "count \<notin> set (counts (pd_rx_list e))" "pdcp_verify env e b1 count = Inr True"
      "pdcp_accept_sdu (nr_pdcp_new_sdu count
        (take (length b - pdcp_header_size e - pdcp_integrity_size e) (drop (pdcp_header_size e) b1)) mi) n
        (pd_stats_update f e) = (e', out)"
proof -
  define b0 where "b0 = (if pd_type e \<noteq> NR_PDCP_SRB \<and> b ! 0 AND 0x80 = 0 then b[0 := b ! 0 OR 128] else b)"
  have b0: "length b0 = length b" by (simp add: b0_def)
  show thesis
  proof (cases "pd_entity_suspended e \<or> int (length b) < 1")
    case True
    then have "e' = pd_stats_update id e" "out = []" using run by (auto simp: nr_pdcp_entity_recv_pdu_def Let_def split: if_splits)
    then show thesis by (rule same)
  next
    case False
    then have n: "\<not> pd_entity_suspended e" "\<not> int (length b) < 1" by auto
    obtain f sn where
      "(if int (length b) < int (pdcp_header_size e) + of_bool (pd_has_sdap_rx e) + int (pdcp_integrity_size e) + 1
        then Inr (pdcp_count_discard (int (length b)) (pd_stats_update f e), [])
        else pdcp_recv_count env b0 (pdcp_rcvd_count e sn) (pd_stats_update f e)) = Inr (e', out)"
      using run unfolding nr_pdcp_entity_recv_pdu_def Let_def if_not_P [OF n(1)] if_not_P [OF n(2)] b0_def [symmetric]
        res_bind_eq_Inr pdcp_stats_frame pdcp_stats_more by blast
    then consider "pdcp_count_discard (int (length b)) (pd_stats_update f e) = e'" "out = []"
      | "pdcp_recv_count env b0 (pdcp_rcvd_count e sn) (pd_stats_update f e) = Inr (e', out)"
      by (auto split: if_splits)
    then show thesis
    proof cases
      case 1
      then show thesis using pdcp_count_discard_stats [of "int (length b)" "pd_stats_update f e"] same by auto
    next
      case 2
      define c where "c = pdcp_rcvd_count e sn"
      have sel: "pd_rx_deliv (pd_stats_update f e) = pd_rx_deliv e" "pd_rx_list (pd_stats_update f e) = pd_rx_list e"
        by simp_all
      define mi where "mi = pdcp_msg_integrity (pd_stats_update f e) b0 c"
      obtain b1 ok where d: "pdcp_decipher env e b0 c = Inr b1" and v: "pdcp_verify env e b1 c = Inr ok"
        and r: "(if \<not> ok \<or> c < pd_rx_deliv e \<or> c \<in> set (counts (pd_rx_list e))
          then Inr (pdcp_count_discard (int (length b)) (pd_stats_update f e), [])
          else Inr (pdcp_accept_sdu (nr_pdcp_new_sdu c
            (take (length b - pdcp_header_size e - pdcp_integrity_size e) (drop (pdcp_header_size e) b1)) mi)
            (int (length b) - int (pdcp_header_size e)) (pd_stats_update f e))) =
          (Inr (e', out) :: (nr_pdcp_entity \<times> nr_pdcp_sdu list) res)"
        using 2 unfolding pdcp_recv_count_def Let_def c_def [symmetric] mi_def [symmetric] pdcp_stats_frame b0
          res_bind_eq_Inr sel sdu_in_list_iff
        by blast
      show thesis
      proof (cases "\<not> ok \<or> c < pd_rx_deliv e \<or> c \<in> set (counts (pd_rx_list e))")
        case True
        then show thesis
          using r pdcp_count_discard_stats [of "int (length b)" "pd_stats_update f e"] same by auto
      next
        case False
        then have "ok" "pd_rx_deliv e \<le> c" "c \<notin> set (counts (pd_rx_list e))" by (auto simp: not_less)
        moreover from this v have "pdcp_verify env e b1 c = Inr True" by simp
        ultimately show thesis using r n(1) accept [of c b1 mi] unfolding if_not_P [OF False] sum.inject by blast
      qed
    qed
  qed
qed

section \<open>What the operations leave alone\<close>

text \<open>The configuration and the security context of an entity.\<close>

definition pdcp_static :: "nr_pdcp_entity \<Rightarrow> nr_pdcp_entity" where
  "pdcp_static e = e\<lparr>pd_tx_next := 0, pd_rx_next := 0, pd_rx_deliv := 0, pd_rx_reord := 0, pd_t_current := 0,
     pd_t_reordering_start := 0, pd_rx_list := [], pd_rx_size := 0, pd_stats := pdcp_stats_zero,
     pd_entity_suspended := False\<rparr>"

lemma pdcp_static_updates [simp]:
  "pdcp_static (pd_tx_next_update a e) = pdcp_static e"
  "pdcp_static (pd_rx_next_update a e) = pdcp_static e"
  "pdcp_static (pd_rx_deliv_update a e) = pdcp_static e"
  "pdcp_static (pd_rx_reord_update a e) = pdcp_static e"
  "pdcp_static (pd_t_current_update b e) = pdcp_static e"
  "pdcp_static (pd_t_reordering_start_update b e) = pdcp_static e"
  "pdcp_static (pd_rx_list_update c e) = pdcp_static e"
  "pdcp_static (pd_rx_size_update d e) = pdcp_static e"
  "pdcp_static (pd_stats_update f e) = pdcp_static e"
  "pdcp_static (pd_entity_suspended_update g e) = pdcp_static e"
  by (simp_all add: pdcp_static_def)

lemma pdcp_staticD:
  assumes "pdcp_static e' = pdcp_static e"
  shows "pd_sn_size e' = pd_sn_size e" "pd_sn_max e' = pd_sn_max e" "pd_window_size e' = pd_window_size e"
    "pd_type e' = pd_type e" "pd_rb_id e' = pd_rb_id e" "pd_has_ciphering e' = pd_has_ciphering e"
    "pd_has_integrity e' = pd_has_integrity e" "pd_cipher e' = pd_cipher e" "pd_integrity e' = pd_integrity e"
    "pd_keys e' = pd_keys e" "pd_is_gnb e' = pd_is_gnb e" "pd_has_sdap_rx e' = pd_has_sdap_rx e"
    "pd_has_sdap_tx e' = pd_has_sdap_tx e" "pd_t_reordering e' = pd_t_reordering e"
    "pd_pdusession_id e' = pd_pdusession_id e"
  using assms by (cases e; cases e'; simp add: pdcp_static_def)+

lemma same_but_list_static: "same_but_list e e' \<Longrightarrow> pdcp_static e' = pdcp_static e"
  by (cases e; cases e'; simp add: same_but_list_def pdcp_static_def)

lemma pdcp_accept_static:
  assumes "pdcp_accept_sdu s n e = (e', out)"
  shows "pdcp_static e' = pdcp_static e"
proof -
  have u: "pdcp_static (pdcp_update_reordering x) = pdcp_static x" for x
    by (simp add: pdcp_update_reordering_def pdcp_start_reordering_def Let_def)
  have st: "pdcp_static (pdcp_store_sdu s n e) = pdcp_static e" by (simp add: pdcp_store_sdu_def Let_def)
  have "pdcp_static e3 = pdcp_static (pdcp_store_sdu s n e)"
    if "pdcp_deliver_consecutive (pd_rx_list (pdcp_store_sdu s n e)) c (pdcp_store_sdu s n e) = (c', e3, o3)" for c c' e3 o3
    using deliver_consecutive_frame [OF that refl] same_but_list_static by blast
  with assms st u show ?thesis
    by (auto simp: pdcp_accept_sdu_def Let_def split: if_splits prod.splits)
qed

lemma pdcp_recv_static:
  assumes "nr_pdcp_entity_recv_pdu env b e = Inr (e', out)"
  shows "pdcp_static e' = pdcp_static e"
  using assms by (cases rule: pdcp_recv_cases) (auto dest: pdcp_accept_static)

lemma pdcp_check_static:
  assumes "pdcp_check_t_reordering e = (e', out)"
  shows "pdcp_static e' = pdcp_static e"
proof (cases "pd_t_reordering e = - 1 \<or> pd_t_reordering_start e = 0 \<or>
    pd_t_current e \<le> pd_t_reordering_start e + word_of_int (pd_t_reordering e)")
  case True
  then show ?thesis using assms by (auto simp: pdcp_check_t_reordering_def split: if_splits)
next
  case False
  define e1 where "e1 = e\<lparr>pd_t_reordering_start := 0\<rparr>"
  obtain e2 o1 where b: "pdcp_deliver_below (pd_rx_list e1) (pd_rx_reord e1) e1 = (e2, o1)" by fastforce
  obtain c e3 o2 where d: "pdcp_deliver_consecutive (pd_rx_list e2) (pd_rx_reord e2) e2 = (c, e3, o2)"
    by (metis prod_cases3)
  have "e' = pdcp_start_reordering (e3\<lparr>pd_rx_deliv := c\<rparr>)"
    using assms False b d by (simp add: pdcp_check_t_reordering_def Let_def e1_def)
  moreover have "pdcp_static e2 = pdcp_static e1"
  proof -
    have "same_but_list e1 e2" using b
    proof -
      have "same_but_list e e'" if "pdcp_deliver_below l c e = (e', out)" for l c e e' out
        using that
      proof (induction l c e arbitrary: e' out rule: pdcp_deliver_below.induct)
        case (2 cur rest c e)
        then show ?case
          by (auto split: if_splits prod.splits intro: same_but_list_trans [OF same_but_list_deliver_one])
      qed auto
      then show ?thesis using b by blast
    qed
    then show ?thesis by (rule same_but_list_static)
  qed
  moreover have "pdcp_static e3 = pdcp_static e2"
    using deliver_consecutive_frame [OF d refl] same_but_list_static by blast
  ultimately show ?thesis by (simp add: pdcp_start_reordering_def e1_def)
qed

section \<open>The invariant under reception\<close>

lemma pdcp_rx_inv_stats [simp]: "pdcp_rx_inv (pd_stats_update f e) = pdcp_rx_inv e"
  by (simp add: pdcp_rx_inv_def)

lemma pdcp_recv_inv:
  assumes inv: "pdcp_rx_inv e" and run: "nr_pdcp_entity_recv_pdu env b e = Inr (e', out)"
  shows "pdcp_rx_inv e' \<and> delivers_between (pd_rx_deliv e) out (pd_rx_deliv e')"
  using run
proof (cases rule: pdcp_recv_cases)
  case (same f)
  then show ?thesis using inv by simp
next
  case (accept f count b1 mi n)
  then show ?thesis
    using pdcp_accept_sdu_inv [of "pd_stats_update f e" "nr_pdcp_new_sdu count
        (take (length b - pdcp_header_size e - pdcp_integrity_size e) (drop (pdcp_header_size e) b1)) mi" n e' out] inv
    by (simp add: nr_pdcp_new_sdu_def)
qed

section \<open>Operations and runs\<close>

datatype pdcp_op =
    RecvPdu "byte list"
  | ProcessSdu "byte list" int
  | SetTime u64
  | SetSecurity security_keys_and_algos
  | Suspend
  | Reestablish security_keys_and_algos
  | Release

text \<open>An operation: the new entity, the SDUs delivered, the PDU produced.\<close>

type_synonym pdcp_outcome = "nr_pdcp_entity \<times> nr_pdcp_sdu list \<times> byte list list"

definition pdcp_step :: "crypto_env \<Rightarrow> pdcp_op \<Rightarrow> nr_pdcp_entity \<Rightarrow> pdcp_outcome res" where
  "pdcp_step env x e =
     (case x of
        RecvPdu b \<Rightarrow> res_bind (nr_pdcp_entity_recv_pdu env b e) (\<lambda>(e', out). Inr (e', out, []))
      | ProcessSdu b room \<Rightarrow> res_bind (nr_pdcp_entity_process_sdu env b room e)
          (\<lambda>(e', p). Inr (e', [], (case p of Some pdu \<Rightarrow> [pdu] | None \<Rightarrow> [])))
      | SetTime now \<Rightarrow> (let (e', out) = nr_pdcp_entity_set_time now e in Inr (e', out, []))
      | SetSecurity p \<Rightarrow> res_bind (nr_pdcp_entity_set_security p e) (\<lambda>e'. Inr (e', [], []))
      | Suspend \<Rightarrow> (let (e', out) = nr_pdcp_entity_suspend e in Inr (e', out, []))
      | Reestablish p \<Rightarrow> res_bind (pdcp_reestablish_entity p e) (\<lambda>(e', out). Inr (e', out, []))
      | Release \<Rightarrow> (let (e', out) = nr_pdcp_entity_release e in Inr (e', out, [])))"

fun pdcp_run :: "crypto_env \<Rightarrow> pdcp_op list \<Rightarrow> nr_pdcp_entity \<Rightarrow> pdcp_outcome res" where
  "pdcp_run env [] e = Inr (e, [], [])"
| "pdcp_run env (x # xs) e =
     res_bind (pdcp_step env x e) (\<lambda>(e1, out1, pdus1).
     res_bind (pdcp_run env xs e1) (\<lambda>(e2, out2, pdus2). Inr (e2, out1 @ out2, pdus1 @ pdus2)))"

section \<open>The invariant\<close>

text \<open>The context matches the flags, and the bearer is one every algorithm accepts.\<close>

definition pdcp_security_ok :: "nr_pdcp_entity \<Rightarrow> bool" where
  "pdcp_security_ok e \<longleftrightarrow> (pd_has_ciphering e \<longrightarrow> pd_cipher e \<noteq> NoCipher) \<and>
     (pd_has_integrity e \<longrightarrow> pd_integrity e \<noteq> NoIntegrity) \<and> 0 < pd_rb_id e \<and> pd_rb_id e < 32"

definition pdcp_ok :: "nr_pdcp_entity \<Rightarrow> bool" where
  "pdcp_ok e \<longleftrightarrow> pdcp_cfg e \<and> pdcp_security_ok e \<and> pdcp_rx_inv e"

lemma pdcp_ok_static:
  "pdcp_static e' = pdcp_static e \<Longrightarrow> pdcp_cfg e' = pdcp_cfg e \<and> pdcp_security_ok e' = pdcp_security_ok e"
  using pdcp_staticD [of e' e] by (simp add: pdcp_cfg_def pdcp_security_ok_def)

text \<open>AES is used; NEA2 and NIA2 assert that COUNT, as an \<open>int\<close>, is not negative.\<close>

definition pdcp_uses_aes :: "nr_pdcp_entity \<Rightarrow> bool" where
  "pdcp_uses_aes e \<longleftrightarrow> (pd_has_ciphering e \<and> pd_cipher e = Nea2) \<or>
     (pd_has_integrity e \<and> (case pd_integrity e of Nia2 key \<Rightarrow> True | _ \<Rightarrow> False))"

definition pdcp_params_ok :: "security_keys_and_algos \<Rightarrow> bool" where
  "pdcp_params_ok p \<longleftrightarrow> sp_integrity_algorithm p \<in> {- 1, 0, 1, 2} \<and> sp_ciphering_algorithm p \<in> {- 1, 0, 1, 2} \<and>
     length (sp_integrity_key p) = 16 \<and> length (sp_ciphering_key p) = 16"

text \<open>
  What the user of the module has to respect. A PDU is empty or holds a header; with AES, the COUNT
  inferred for it has to be below \<open>2 ^ 31\<close>.
\<close>

definition pdcp_adm :: "pdcp_op \<Rightarrow> nr_pdcp_entity \<Rightarrow> bool" where
  "pdcp_adm x e \<longleftrightarrow>
     (case x of
        RecvPdu b \<Rightarrow> b = [] \<or> (pdcp_header_size e \<le> length b \<and> int (length b) < 2 ^ 27 \<and>
          (pdcp_uses_aes e \<longrightarrow>
            (case pdcp_rcvd_sn e b of Inr sn \<Rightarrow> - 1 < sint (pdcp_rcvd_count e sn) | Inl f \<Rightarrow> False)))
      | ProcessSdu b room \<Rightarrow> of_bool (pd_has_sdap_tx e) < length b \<and> int (length b) < 2 ^ 27 \<and>
          int (length b) + 7 \<le> room \<and> (pdcp_uses_aes e \<longrightarrow> - 1 < sint (pd_tx_next e))
      | SetSecurity p \<Rightarrow> pdcp_params_ok p
      | Reestablish p \<Rightarrow> pdcp_params_ok p
      | _ \<Rightarrow> True)"

fun pdcp_adm_run :: "crypto_env \<Rightarrow> pdcp_op list \<Rightarrow> nr_pdcp_entity \<Rightarrow> bool" where
  "pdcp_adm_run env [] e = True"
| "pdcp_adm_run env (x # xs) e =
     (pdcp_adm x e \<and> (case pdcp_step env x e of Inr (e', _) \<Rightarrow> pdcp_adm_run env xs e' | Inl f \<Rightarrow> True))"

section \<open>Security operations\<close>

lemma pdcp_cipher_returns:
  assumes "env_ok env" "pdcp_security_ok e" "pd_has_ciphering e" "length b < 2 ^ 28" "b \<noteq> []"
    "pdcp_uses_aes e \<longrightarrow> - 1 < sint count" "dir = 0 \<or> dir = 1"
  shows "\<exists>d. pdcp_cipher env e b count dir = Inr d \<and> length d = length b"
proof (cases "pd_cipher e")
  case NoCipher
  then show ?thesis using assms by (simp add: pdcp_security_ok_def)
next
  case (Nea1 key)
  then show ?thesis using assms by (simp add: pdcp_cipher_def nea1_cipher)
next
  case Nea2
  then have "- 1 < sint count" using assms by (simp add: pdcp_uses_aes_def)
  with Nea2 show ?thesis
    using assms by (auto simp: pdcp_cipher_def nr_pdcp_security_nea2_cipher_def pdcp_security_ok_def env_ok_def)
qed

lemma pdcp_integrity_returns:
  assumes "env_ok env" "pdcp_security_ok e" "pd_has_integrity e" "length b < 2 ^ 28" "b \<noteq> []"
    "pdcp_uses_aes e \<longrightarrow> - 1 < sint count"
  shows "\<exists>mac. pdcp_integrity env e b count dir = Inr mac"
proof (cases "pd_integrity e")
  case NoIntegrity
  then show ?thesis using assms by (simp add: pdcp_security_ok_def)
next
  case (Nia1 key)
  then show ?thesis using assms by (simp add: pdcp_integrity_def nia1_integrity)
next
  case (Nia2 key)
  then have "- 1 < sint count" using assms by (simp add: pdcp_uses_aes_def)
  with Nia2 show ?thesis
    using assms by (auto simp: pdcp_integrity_def nr_pdcp_integrity_nia2_integrity_def pdcp_security_ok_def)
qed

lemma pdcp_set_security_ok:
  assumes "pdcp_params_ok p" "pdcp_security_ok e"
  obtains e' where "nr_pdcp_entity_set_security p e = Inr e'" "pdcp_security_ok e'"
    "pdcp_cfg e' = pdcp_cfg e" "pdcp_rx_inv e' = pdcp_rx_inv e" "pd_rx_deliv e' = pd_rx_deliv e"
    "pd_rx_list e' = pd_rx_list e"
proof -
  have "\<exists>e1. pdcp_set_integrity (sp_integrity_algorithm p) (pdcp_set_keys p e) = Inr e1 \<and> pdcp_security_ok e1 \<and>
      pdcp_cfg e1 = pdcp_cfg e \<and> pdcp_rx_inv e1 = pdcp_rx_inv e \<and> pd_rx_deliv e1 = pd_rx_deliv e \<and>
      pd_rx_list e1 = pd_rx_list e"
    using assms
    by (auto simp: pdcp_set_integrity_def pdcp_set_keys_def Let_def pdcp_params_ok_def pdcp_security_ok_def
        pdcp_cfg_def pdcp_rx_inv_def)
  then obtain e1 where e1: "pdcp_set_integrity (sp_integrity_algorithm p) (pdcp_set_keys p e) = Inr e1"
    "pdcp_security_ok e1" "pdcp_cfg e1 = pdcp_cfg e" "pdcp_rx_inv e1 = pdcp_rx_inv e" "pd_rx_deliv e1 = pd_rx_deliv e"
    "pd_rx_list e1 = pd_rx_list e" by blast
  have "\<exists>e'. pdcp_set_ciphering (sp_ciphering_algorithm p) e1 = Inr e' \<and> pdcp_security_ok e' \<and>
      pdcp_cfg e' = pdcp_cfg e1 \<and> pdcp_rx_inv e' = pdcp_rx_inv e1 \<and> pd_rx_deliv e' = pd_rx_deliv e1 \<and>
      pd_rx_list e' = pd_rx_list e1"
    using assms e1(2)
    by (auto simp: pdcp_set_ciphering_def pdcp_params_ok_def pdcp_security_ok_def pdcp_cfg_def pdcp_rx_inv_def)
  then show thesis using that e1 by (auto simp: nr_pdcp_entity_set_security_def)
qed

section \<open>Reception and transmission return\<close>

text \<open>Setting the D/C bit does not change the sequence number.\<close>

lemma pdcp_rcvd_sn_dc: "pdcp_rcvd_sn e (b[0 := b ! 0 OR 128]) = pdcp_rcvd_sn e b"
proof (cases b)
  case (Cons a l)
  have "(128 :: int) = 2 ^ 7" by simp
  then have "uint (a OR 128) AND 0xf = uint a AND 0xf" "uint (a OR 128) AND 0x3 = uint a AND 0x3"
    by (simp_all add: unsigned_or_eq bit.conj_disj_distrib2)
  with Cons show ?thesis by (simp add: pdcp_rcvd_sn_def cong: if_cong)
qed simp

lemma pdcp_directions: "pdcp_rx_direction e = 0 \<or> pdcp_rx_direction e = 1" "pdcp_tx_direction e = 0 \<or> pdcp_tx_direction e = 1"
  by (simp_all add: pdcp_rx_direction_def pdcp_tx_direction_def)

lemma pdcp_recv_returns:
  assumes env: "env_ok env" and ok: "pdcp_ok e" and adm: "pdcp_adm (RecvPdu b) e"
  shows "\<exists>e' out. nr_pdcp_entity_recv_pdu env b e = Inr (e', out)"
proof (cases "pd_entity_suspended e \<or> b = []")
  case True
  then show ?thesis by (cases "pd_entity_suspended e") (auto simp: nr_pdcp_entity_recv_pdu_def)
next
  case False
  define b0 where "b0 = (if pd_type e \<noteq> NR_PDCP_SRB \<and> b ! 0 AND 0x80 = 0 then b[0 := b ! 0 OR 128] else b)"
  have b0: "length b0 = length b" "pdcp_rcvd_sn e b0 = pdcp_rcvd_sn e b" by (simp_all add: b0_def pdcp_rcvd_sn_dc)
  have b: "pdcp_header_size e \<le> length b" "length b < 2 ^ 27" using adm False by (auto simp: pdcp_adm_def)
  obtain sn where sn: "pdcp_rcvd_sn e b = Inr sn" "pdcp_uses_aes e \<longrightarrow> - 1 < sint (pdcp_rcvd_count e sn)"
    using adm False b by (auto simp: pdcp_adm_def pdcp_rcvd_sn_def)
  define c where "c = pdcp_rcvd_count e sn"
  have n: "\<not> pd_entity_suspended e" "\<not> int (length b) < 1" using False by (auto simp: Suc_le_eq)
  have sec: "pdcp_security_ok e" using ok by (simp add: pdcp_ok_def)
  have "\<exists>r. pdcp_recv_count env b0 c (pd_stats_update f e) = Inr r"
    if size: "\<not> int (length b) < int (pdcp_header_size e) + of_bool (pd_has_sdap_rx e) + int (pdcp_integrity_size e) + 1" for f
  proof -
    let ?off = "pdcp_header_size e + of_bool (pd_has_sdap_rx e)"
    have off: "?off < length b" using size by (cases "pd_has_sdap_rx e") auto
    have ne: "length (drop ?off b0) < 2 ^ 28" "drop ?off b0 \<noteq> []" using off b(2) b0(1) by simp_all
    have "\<exists>b1. pdcp_decipher env e b0 c = Inr b1 \<and> length b1 = length b"
    proof (cases "pd_has_ciphering e")
      case True
      obtain d where "pdcp_cipher env e (drop ?off b0) c (pdcp_rx_direction e) = Inr d" "length d = length (drop ?off b0)"
        using pdcp_cipher_returns [OF env sec True ne(1,2) sn(2) [folded c_def] pdcp_directions(1)] by blast
      with True off b0(1) show ?thesis by (simp add: pdcp_decipher_def Let_def)
    qed (simp add: pdcp_decipher_def b0(1))
    then obtain b1 where b1: "pdcp_decipher env e b0 c = Inr b1" "length b1 = length b" by blast
    have "\<exists>r. pdcp_verify env e b1 c = Inr r"
    proof (cases "pd_has_integrity e")
      case True
      then have "4 < length b1"
        using size b1(2) by (cases "pd_has_sdap_rx e") (simp_all add: pdcp_integrity_size_def)
      then have n: "length (take (length b1 - 4) b1) < 2 ^ 28" "take (length b1 - 4) b1 \<noteq> []" using b(2) b1(2) by auto
      obtain mac where "pdcp_integrity env e (take (length b1 - 4) b1) c (pdcp_rx_direction e) = Inr mac"
        using pdcp_integrity_returns [OF env sec True n sn(2) [folded c_def]] by blast
      with True show ?thesis by (simp add: pdcp_verify_def)
    qed (auto simp: pdcp_verify_def)
    then show ?thesis using b1(1) unfolding pdcp_recv_count_def Let_def pdcp_stats_frame by (auto simp: if_distrib)
  qed
  then show ?thesis
    unfolding nr_pdcp_entity_recv_pdu_def Let_def if_not_P [OF n(1)] if_not_P [OF n(2)] b0_def [symmetric]
      pdcp_stats_frame b0(2) sn(1) res_bind_Inr pdcp_stats_more c_def [symmetric]
    by (auto simp del: pdcp_stats_more)
qed

text \<open>The two calls of the sender, and nothing else that can fail.\<close>

lemma pdcp_process_unfold:
  assumes "\<not> pd_entity_suspended e" "nr_max_pdcp_pdu_size (int (length b)) \<le> room"
  defines "hb \<equiv> pdcp_header e (uint (pd_tx_next e) AND pd_sn_max e) @ b"
    and "off \<equiv> pdcp_header_size e + of_bool (pd_has_sdap_tx e)"
  shows "\<exists>F. nr_pdcp_entity_process_sdu env b room e =
    res_bind (if pd_has_integrity e then pdcp_integrity env e hb (pd_tx_next e) (pdcp_tx_direction e)
      else Inr (replicate (pdcp_integrity_size e) 0)) (\<lambda>mac.
    res_bind (if pd_has_ciphering e
      then res_bind (pdcp_cipher env e (drop off (hb @ mac)) (pd_tx_next e) (pdcp_tx_direction e))
        (\<lambda>d. Inr (take off (hb @ mac) @ d)) else Inr (hb @ mac)) (\<lambda>b2. Inr (F b2)))"
proof -
  have sel: "pd_tx_next (pd_stats_update f e) = pd_tx_next e" "pd_sn_max (pd_stats_update f e) = pd_sn_max e"
    "pd_has_integrity (pd_stats_update f e) = pd_has_integrity e" "pd_has_ciphering (pd_stats_update f e) = pd_has_ciphering e"
    "pd_has_sdap_tx (pd_stats_update f e) = pd_has_sdap_tx e" for f by simp_all
  have room: "\<not> \<not> nr_max_pdcp_pdu_size (int (length b)) \<le> room" using assms(2) by simp
  show ?thesis
    unfolding nr_pdcp_entity_process_sdu_def Let_def if_not_P [OF room] if_not_P [OF assms(1)] pdcp_stats_frame sel
      hb_def off_def
    by (rule exI) (rule refl)
qed

lemma pdcp_process_returns:
  assumes env: "env_ok env" and ok: "pdcp_ok e" and adm: "pdcp_adm (ProcessSdu b room) e"
  shows "\<exists>e' p. nr_pdcp_entity_process_sdu env b room e = Inr (e', p)"
proof -
  have b: "of_bool (pd_has_sdap_tx e) < length b" "length b < 2 ^ 27" "nr_max_pdcp_pdu_size (int (length b)) \<le> room"
    "pdcp_uses_aes e \<longrightarrow> - 1 < sint (pd_tx_next e)"
    using adm by (auto simp: pdcp_adm_def nr_max_pdcp_pdu_size_def)
  have sec: "pdcp_security_ok e" using ok by (simp add: pdcp_ok_def)
  define h where "h = pdcp_header e (uint (pd_tx_next e) AND pd_sn_max e)"
  have h: "length h = pdcp_header_size e" "pdcp_header_size e \<le> 3" by (simp_all add: h_def pdcp_header_size_def)
  let ?off = "pdcp_header_size e + of_bool (pd_has_sdap_tx e)"
  have "\<exists>mac. (if pd_has_integrity e then pdcp_integrity env e (h @ b) (pd_tx_next e) (pdcp_tx_direction e)
      else Inr (replicate (pdcp_integrity_size e) 0)) = Inr mac \<and> length mac \<le> 4"
  proof (cases "pd_has_integrity e")
    case True
    have l: "length (h @ b) < 2 ^ 28" "h @ b \<noteq> []" using b h by auto
    obtain mac where m: "pdcp_integrity env e (h @ b) (pd_tx_next e) (pdcp_tx_direction e) = Inr mac"
      using pdcp_integrity_returns [OF env sec True l] b(4) by blast
    with pdcp_integrity_length [OF env l m] True show ?thesis by simp
  qed (simp add: pdcp_integrity_size_def)
  then obtain mac where mac: "(if pd_has_integrity e then pdcp_integrity env e (h @ b) (pd_tx_next e) (pdcp_tx_direction e)
      else Inr (replicate (pdcp_integrity_size e) 0)) = Inr mac" "length mac \<le> 4" by blast
  have c: "\<exists>d. (if pd_has_ciphering e
      then res_bind (pdcp_cipher env e (drop ?off ((h @ b) @ mac)) (pd_tx_next e) (pdcp_tx_direction e))
        (\<lambda>d. Inr (take ?off ((h @ b) @ mac) @ d)) else Inr ((h @ b) @ mac)) = Inr d"
  proof (cases "pd_has_ciphering e")
    case True
    have "?off < length h + length b" using b(1) h by simp
    then have n: "drop ?off ((h @ b) @ mac) \<noteq> []" "length (drop ?off ((h @ b) @ mac)) < 2 ^ 28" using b h mac(2) by auto
    obtain d where "pdcp_cipher env e (drop ?off ((h @ b) @ mac)) (pd_tx_next e) (pdcp_tx_direction e) = Inr d"
      using pdcp_cipher_returns [OF env sec True n(2,1) b(4) pdcp_directions(2) [of e]] by blast
    then show ?thesis unfolding if_P [OF True] by simp
  qed simp
  show ?thesis
  proof (cases "pd_entity_suspended e")
    case True
    then show ?thesis using b(3) by (simp add: nr_pdcp_entity_process_sdu_def)
  next
    case False
    from pdcp_process_unfold [OF False b(3), of env] obtain F where
      u: "nr_pdcp_entity_process_sdu env b room e =
        res_bind (if pd_has_integrity e then pdcp_integrity env e (h @ b) (pd_tx_next e) (pdcp_tx_direction e)
          else Inr (replicate (pdcp_integrity_size e) 0)) (\<lambda>mac.
        res_bind (if pd_has_ciphering e
          then res_bind (pdcp_cipher env e (drop ?off ((h @ b) @ mac)) (pd_tx_next e) (pdcp_tx_direction e))
            (\<lambda>d. Inr (take ?off ((h @ b) @ mac) @ d)) else Inr ((h @ b) @ mac)) (\<lambda>b2. Inr (F b2)))"
      unfolding h_def by blast
    from c obtain d where "(if pd_has_ciphering e
      then res_bind (pdcp_cipher env e (drop ?off ((h @ b) @ mac)) (pd_tx_next e) (pdcp_tx_direction e))
        (\<lambda>d. Inr (take ?off ((h @ b) @ mac) @ d)) else Inr ((h @ b) @ mac)) = Inr d" by blast
    then have "nr_pdcp_entity_process_sdu env b room e = Inr (F d)" unfolding u mac(1) res_bind_Inr by simp
    then show ?thesis by (cases "F d") simp
  qed
qed

section \<open>Steps\<close>

lemma pdcp_process_static:
  assumes "nr_pdcp_entity_process_sdu env b room e = Inr (e', p)"
  shows "pdcp_static e' = pdcp_static e \<and> pd_rx_list e' = pd_rx_list e \<and> pd_rx_deliv e' = pd_rx_deliv e \<and>
    pdcp_rx_inv e' = pdcp_rx_inv e"
  using assms unfolding nr_pdcp_entity_process_sdu_def Let_def
  by (auto simp: res_bind_eq_Inr pdcp_rx_inv_def split: if_splits)

lemma deliver_all_sdus_eq:
  assumes "deliver_all_sdus e = (e', out)"
  shows "same_but_list e e'" "out = pd_rx_list e" "pd_rx_list e' = []"
  using deliver_all_frame [of "pd_rx_list e" e e' out] assms by (auto simp: deliver_all_sdus_def)

lemma free_rx_list_stats: "\<exists>f. free_rx_list e = (pd_stats_update f e)\<lparr>pd_rx_list := [], pd_rx_size := 0\<rparr>"
proof -
  have "\<exists>f. fold (\<lambda>cur. pdcp_count_discard (su_size cur)) l x = pd_stats_update f x" for l and x :: nr_pdcp_entity
  proof (induction l arbitrary: x)
    case Nil
    have "x = pd_stats_update id x" by simp
    then show ?case by (metis fold_simps(1))
  next
    case (Cons a l)
    obtain g where "pdcp_count_discard (su_size a) x = pd_stats_update g x" using pdcp_count_discard_stats by blast
    with Cons.IH [of "pd_stats_update g x"] show ?case by auto
  qed
  then show ?thesis unfolding free_rx_list_def by metis
qed

lemma pdcp_rx_inv_pos: "pdcp_rx_inv e \<Longrightarrow> s \<in> set (pd_rx_list e) \<Longrightarrow> 0 < su_count s"
proof -
  assume "pdcp_rx_inv e" "s \<in> set (pd_rx_list e)"
  then have "pd_rx_deliv e < su_count s" by (simp add: pdcp_rx_inv_def)
  then show ?thesis by (rule le_less_trans [OF word_zero_le])
qed

lemma pdcp_reset_ok:
  assumes "pdcp_ok e" "pdcp_static e' = pdcp_static e" "count_sorted (pd_rx_list e')"
    "\<forall>s \<in> set (pd_rx_list e'). pd_rx_deliv e' < su_count s" "pd_t_reordering_start e' = 0"
  shows "pdcp_ok e'"
  using assms pdcp_ok_static [OF assms(2)] by (simp add: pdcp_ok_def pdcp_rx_inv_def)

lemma pdcp_suspend_ok:
  assumes "pdcp_ok e" "nr_pdcp_entity_suspend e = (e', out)"
  shows "pdcp_ok e'"
proof (cases "pd_t_reordering_start e = 0")
  case True
  then have "e' = e\<lparr>pd_tx_next := 0, pd_rx_next := 0, pd_rx_deliv := 0, pd_entity_suspended := True\<rparr>"
    using assms(2) by (simp add: nr_pdcp_entity_suspend_def)
  moreover have "\<forall>s \<in> set (pd_rx_list e). 0 < su_count s"
    using assms(1) pdcp_rx_inv_pos by (auto simp: pdcp_ok_def)
  moreover have "count_sorted (pd_rx_list e)" using assms(1) by (simp add: pdcp_ok_def pdcp_rx_inv_def)
  ultimately show ?thesis using True by (intro pdcp_reset_ok [OF assms(1)]) simp_all
next
  case False
  let ?e1 = "e\<lparr>pd_tx_next := 0, pd_t_reordering_start := 0\<rparr>"
  obtain e2 o2 where d: "deliver_all_sdus ?e1 = (e2, o2)" by fastforce
  have e': "e' = e2\<lparr>pd_rx_next := 0, pd_rx_deliv := 0, pd_entity_suspended := True\<rparr>"
    using assms(2) False d by (simp add: nr_pdcp_entity_suspend_def)
  note f = deliver_all_sdus_eq [OF d]
  have "pdcp_static e2 = pdcp_static e" "pd_t_reordering_start e2 = 0"
    using same_but_list_static [OF f(1)] same_but_listD(4) [OF f(1)] by simp_all
  then show ?thesis using f(3) by (intro pdcp_reset_ok [OF assms(1)]) (simp_all add: e')
qed

lemma pdcp_set_security_reset:
  assumes ok: "pdcp_ok e" and p: "pdcp_params_ok p"
    and e1: "pdcp_static e1 = pdcp_static e" "pdcp_rx_inv e1"
  shows "\<exists>e'. nr_pdcp_entity_set_security p e1 = Inr e' \<and> pdcp_ok (e'\<lparr>pd_entity_suspended := False\<rparr>)"
proof -
  have "pdcp_security_ok e1" "pdcp_cfg e1" using ok pdcp_ok_static [OF e1(1)] by (simp_all add: pdcp_ok_def)
  with p obtain e' where "nr_pdcp_entity_set_security p e1 = Inr e'" "pdcp_security_ok e'" "pdcp_cfg e'" "pdcp_rx_inv e'"
    using pdcp_set_security_ok [OF p, of e1] e1(2) by metis
  then show ?thesis by (auto simp: pdcp_ok_def pdcp_security_ok_def pdcp_cfg_def pdcp_rx_inv_def)
qed

lemma pdcp_reestablish_ok:
  assumes ok: "pdcp_ok e" and p: "pdcp_params_ok p"
  shows "\<exists>e' out. pdcp_reestablish_entity p e = Inr (e', out) \<and> pdcp_ok e'"
proof (cases "pd_type e")
  case NR_PDCP_DRB_AM
  then show ?thesis
    using pdcp_set_security_reset [OF ok p refl] ok
    by (auto simp: pdcp_reestablish_entity_def pdcp_reestablish_drb_am_def pdcp_ok_def)
next
  case NR_PDCP_DRB_UM
  define e1 where "e1 = e\<lparr>pd_tx_next := 0\<rparr>"
  obtain e2 out where d: "(if pd_t_reordering_start e1 \<noteq> 0 then deliver_all_sdus e1 else (e1, [])) = (e2, out)" by fastforce
  have e2: "pdcp_static e2 = pdcp_static e" "count_sorted (pd_rx_list e2)" "\<forall>s \<in> set (pd_rx_list e2). 0 < su_count s"
  proof -
    have "\<forall>s \<in> set (pd_rx_list e). 0 < su_count s"
      using ok pdcp_rx_inv_pos by (auto simp: pdcp_ok_def)
    moreover have "count_sorted (pd_rx_list e)" using ok by (simp add: pdcp_ok_def pdcp_rx_inv_def)
    ultimately show "pdcp_static e2 = pdcp_static e" "count_sorted (pd_rx_list e2)"
      "\<forall>s \<in> set (pd_rx_list e2). 0 < su_count s"
      using d deliver_all_sdus_eq [of e1 e2 out] same_but_list_static [of e1 e2]
      by (auto simp: e1_def split: if_splits)
  qed
  define e3 where "e3 = e2\<lparr>pd_t_reordering_start := 0, pd_rx_next := 0, pd_rx_deliv := 0\<rparr>"
  have e3: "pdcp_static e3 = pdcp_static e" "pdcp_rx_inv e3" using e2 by (simp_all add: e3_def pdcp_rx_inv_def)
  obtain e' where "nr_pdcp_entity_set_security p e3 = Inr e'" "pdcp_ok (e'\<lparr>pd_entity_suspended := False\<rparr>)"
    using pdcp_set_security_reset [OF ok p e3] by blast
  moreover have "pdcp_reestablish_drb_um p e =
      res_bind (nr_pdcp_entity_set_security p e3) (\<lambda>e3. Inr (e3\<lparr>pd_entity_suspended := False\<rparr>, out))"
    unfolding pdcp_reestablish_drb_um_def Let_def e1_def [symmetric] d prod.case e3_def [symmetric] ..
  ultimately show ?thesis using NR_PDCP_DRB_UM by (simp add: pdcp_reestablish_entity_def)
next
  case NR_PDCP_SRB
  define e1 where "e1 = free_rx_list (e\<lparr>pd_tx_next := 0\<rparr>)"
  define e3 where "e3 = e1\<lparr>pd_t_reordering_start := 0, pd_rx_next := 0, pd_rx_deliv := 0\<rparr>"
  obtain f where "e1 = (pd_stats_update f (e\<lparr>pd_tx_next := 0\<rparr>))\<lparr>pd_rx_list := [], pd_rx_size := 0\<rparr>"
    unfolding e1_def using free_rx_list_stats by blast
  then have e3: "pdcp_static e3 = pdcp_static e" "pdcp_rx_inv e3" by (simp_all add: e3_def pdcp_rx_inv_def)
  obtain e' where "nr_pdcp_entity_set_security p e3 = Inr e'" "pdcp_ok (e'\<lparr>pd_entity_suspended := False\<rparr>)"
    using pdcp_set_security_reset [OF ok p e3] by blast
  then show ?thesis
    using NR_PDCP_SRB
    by (simp add: pdcp_reestablish_entity_def pdcp_reestablish_srb_def Let_def e1_def e3_def)
qed

lemma pdcp_step_ok:
  assumes env: "env_ok env" and ok: "pdcp_ok e" and adm: "pdcp_adm x e"
  shows "\<exists>e' out pdus. pdcp_step env x e = Inr (e', out, pdus) \<and> pdcp_ok e'"
proof (cases x)
  case (RecvPdu b)
  obtain e' out where r: "nr_pdcp_entity_recv_pdu env b e = Inr (e', out)"
    using pdcp_recv_returns [OF env ok] adm RecvPdu by blast
  have "pdcp_ok e'"
    using pdcp_recv_inv [OF _ r] pdcp_ok_static [OF pdcp_recv_static [OF r]] ok by (simp add: pdcp_ok_def)
  with r RecvPdu show ?thesis by (simp add: pdcp_step_def)
next
  case (ProcessSdu b room)
  obtain e' p where r: "nr_pdcp_entity_process_sdu env b room e = Inr (e', p)"
    using pdcp_process_returns [OF env ok] adm ProcessSdu by blast
  have "pdcp_ok e'" using pdcp_process_static [OF r] pdcp_ok_static [of e' e] ok by (simp add: pdcp_ok_def)
  with r ProcessSdu show ?thesis by (simp add: pdcp_step_def)
next
  case (SetTime now)
  obtain e' out where r: "nr_pdcp_entity_set_time now e = (e', out)" by fastforce
  then have c: "pdcp_check_t_reordering (e\<lparr>pd_t_current := now\<rparr>) = (e', out)" by (simp add: nr_pdcp_entity_set_time_def)
  have "pdcp_rx_inv (e\<lparr>pd_t_current := now\<rparr>)" using ok by (simp add: pdcp_ok_def pdcp_rx_inv_def)
  from pdcp_check_t_reordering_inv [OF this c] pdcp_ok_static [of e' e] pdcp_check_static [OF c] ok
  have "pdcp_ok e'" by (simp add: pdcp_ok_def)
  with r SetTime show ?thesis by (simp add: pdcp_step_def)
next
  case (SetSecurity p)
  then have "pdcp_params_ok p" using adm by (simp add: pdcp_adm_def)
  then obtain e' where "nr_pdcp_entity_set_security p e = Inr e'" "pdcp_ok e'"
    using pdcp_set_security_ok [of p e] ok unfolding pdcp_ok_def by metis
  with SetSecurity show ?thesis by (simp add: pdcp_step_def)
next
  case Suspend
  obtain e' out where r: "nr_pdcp_entity_suspend e = (e', out)" by fastforce
  with Suspend pdcp_suspend_ok [OF ok r] show ?thesis by (simp add: pdcp_step_def)
next
  case (Reestablish p)
  then show ?thesis
    using pdcp_reestablish_ok [OF ok, of p] adm by (auto simp: pdcp_step_def pdcp_adm_def)
next
  case Release
  obtain e' out where r: "deliver_all_sdus e = (e', out)" by fastforce
  note f = deliver_all_sdus_eq [OF r]
  have "pdcp_ok e'"
    using ok f(3) pdcp_ok_static [OF same_but_list_static [OF f(1)]] same_but_listD [OF f(1)]
    by (simp add: pdcp_ok_def pdcp_rx_inv_def)
  with r Release show ?thesis by (simp add: pdcp_step_def nr_pdcp_entity_release_def)
qed

end
