(* ===== verification/PdcpRuns.thy ===== *)
theory PdcpRuns
  imports PdcpMachine
begin

unbundle bit_operations_syntax

text \<open>
  What holds of every run of a PDCP entity: it completes when it is admissible, it delivers in the
  order of COUNT without duplicates, and with integrity protection it delivers nothing without a
  valid MAC.
\<close>

section \<open>Order\<close>

text \<open>The operations that do not restart the numbering.\<close>

definition pdcp_keeps_order :: "nr_pdcp_entity_type \<Rightarrow> pdcp_op \<Rightarrow> bool" where
  "pdcp_keeps_order type x = (case x of Suspend \<Rightarrow> False | Release \<Rightarrow> False
     | Reestablish p \<Rightarrow> type = NR_PDCP_DRB_AM | _ \<Rightarrow> True)"

lemma pdcp_set_security_frame:
  assumes "nr_pdcp_entity_set_security p e = Inr e'"
  shows "pdcp_rx_inv e' = pdcp_rx_inv e \<and> pd_rx_deliv e' = pd_rx_deliv e \<and> pd_rx_list e' = pd_rx_list e \<and>
    pd_type e' = pd_type e"
proof -
  obtain e1 where "pdcp_set_integrity (sp_integrity_algorithm p) (pdcp_set_keys p e) = Inr e1"
    "pdcp_set_ciphering (sp_ciphering_algorithm p) e1 = Inr e'"
    using assms by (auto simp: nr_pdcp_entity_set_security_def res_bind_eq_Inr)
  then show ?thesis
    by (auto simp: pdcp_set_integrity_def pdcp_set_ciphering_def pdcp_set_keys_def Let_def pdcp_rx_inv_def
        split: if_splits)
qed

lemma pdcp_step_order:
  assumes inv: "pdcp_rx_inv e" and run: "pdcp_step env x e = Inr (e', out, pdus)"
    and keep: "pdcp_keeps_order (pd_type e) x"
  shows "pdcp_rx_inv e' \<and> pd_type e' = pd_type e \<and> delivers_between (pd_rx_deliv e) out (pd_rx_deliv e')"
proof (cases x)
  case (RecvPdu b)
  then have "nr_pdcp_entity_recv_pdu env b e = Inr (e', out)"
    using run by (auto simp: pdcp_step_def res_bind_eq_Inr)
  then show ?thesis using pdcp_recv_inv [OF inv] pdcp_staticD(4) [OF pdcp_recv_static] by blast
next
  case (ProcessSdu b room)
  then obtain p where r: "nr_pdcp_entity_process_sdu env b room e = Inr (e', p)" "out = []"
    using run by (auto simp: pdcp_step_def res_bind_eq_Inr)
  then show ?thesis using pdcp_process_static [OF r(1)] pdcp_staticD(4) [of e' e] inv by simp
next
  case (SetTime now)
  then have c: "pdcp_check_t_reordering (e\<lparr>pd_t_current := now\<rparr>) = (e', out)"
    using run by (auto simp: pdcp_step_def nr_pdcp_entity_set_time_def Let_def split: prod.splits)
  have "pdcp_rx_inv (e\<lparr>pd_t_current := now\<rparr>)" using inv by (simp add: pdcp_rx_inv_def)
  from pdcp_check_t_reordering_inv [OF this c] pdcp_staticD(4) [of e' e] pdcp_check_static [OF c]
  show ?thesis by simp
next
  case (SetSecurity p)
  then have "nr_pdcp_entity_set_security p e = Inr e'" "out = []"
    using run by (auto simp: pdcp_step_def res_bind_eq_Inr)
  then show ?thesis using pdcp_set_security_frame inv by simp
next
  case (Reestablish p)
  then obtain e1 where "nr_pdcp_entity_set_security p e = Inr e1" "e' = e1\<lparr>pd_entity_suspended := False\<rparr>" "out = []"
    using run keep
    by (auto simp: pdcp_step_def pdcp_keeps_order_def pdcp_reestablish_entity_def pdcp_reestablish_drb_am_def
        res_bind_eq_Inr)
  moreover have "pdcp_rx_inv (e1\<lparr>pd_entity_suspended := False\<rparr>) = pdcp_rx_inv e1" for e1 by (simp add: pdcp_rx_inv_def)
  ultimately show ?thesis using pdcp_set_security_frame [of p e e1] inv by simp
qed (use keep in \<open>simp_all add: pdcp_keeps_order_def\<close>)

lemma pdcp_run_order:
  assumes "pdcp_rx_inv e" "pdcp_run env xs e = Inr (e', out, pdus)" "list_all (pdcp_keeps_order (pd_type e)) xs"
    "- 1 \<notin> set (counts out)"
  shows "pdcp_rx_inv e' \<and> delivers_between (pd_rx_deliv e) out (pd_rx_deliv e')"
  using assms
proof (induction xs arbitrary: e e' out pdus)
  case (Cons x xs)
  obtain e1 out1 pdus1 out2 pdus2 where s: "pdcp_step env x e = Inr (e1, out1, pdus1)"
    "pdcp_run env xs e1 = Inr (e', out2, pdus2)" "out = out1 @ out2"
    using Cons.prems(2) by (auto simp: res_bind_eq_Inr)
  have st: "pdcp_rx_inv e1" "pd_type e1 = pd_type e" "delivers_between (pd_rx_deliv e) out1 (pd_rx_deliv e1)"
    using pdcp_step_order [OF Cons.prems(1) s(1)] Cons.prems(3) by auto
  have "pdcp_rx_inv e' \<and> delivers_between (pd_rx_deliv e1) out2 (pd_rx_deliv e')"
    using Cons.IH [OF st(1) s(2)] Cons.prems(3,4) st(2) s(3) by auto
  then show ?case using delivers_between_trans [OF st(3)] Cons.prems(4) s(3) by auto
qed simp

section \<open>Runs complete\<close>

lemma pdcp_run_ok:
  assumes env: "env_ok env" and "pdcp_ok e" "pdcp_adm_run env xs e"
  shows "\<exists>e' out pdus. pdcp_run env xs e = Inr (e', out, pdus) \<and> pdcp_ok e'"
  using assms(2,3)
proof (induction xs arbitrary: e)
  case (Cons x xs)
  then obtain e1 out1 pdus1 where s: "pdcp_step env x e = Inr (e1, out1, pdus1)" "pdcp_ok e1"
    using pdcp_step_ok [OF env, of e x] by auto
  then have "pdcp_adm_run env xs e1" using Cons.prems(2) by simp
  then obtain e2 out2 pdus2 where "pdcp_run env xs e1 = Inr (e2, out2, pdus2)" "pdcp_ok e2"
    using Cons.IH [OF s(2)] by blast
  with s(1) show ?case by simp
qed simp

text \<open>A new entity satisfies the invariant.\<close>

lemma new_pdcp_entity_ok:
  assumes "sn_size = 12 \<or> sn_size = 18" "0 < rb_id" "rb_id < 32" "pdcp_params_ok p"
  shows "\<exists>e. new_nr_pdcp_entity type is_gnb rb_id session srx stx sn_size t dt p = Inr e \<and> pdcp_ok e"
proof -
  define e0 where "e0 = \<lparr>pd_type = type, pd_rb_id = rb_id, pd_pdusession_id = session, pd_has_sdap_rx = srx, pd_has_sdap_tx = stx,
        pd_sn_size = sn_size, pd_t_reordering = t, pd_discard_timer = dt,
        pd_sn_max = push_bit sn_size 1 - 1, pd_window_size = push_bit (sn_size - 1) 1,
        pd_tx_next = 0, pd_rx_next = 0, pd_rx_deliv = 0, pd_rx_reord = 0, pd_t_current = 0,
        pd_t_reordering_start = 0, pd_has_ciphering = False, pd_has_integrity = False,
        pd_keys = \<lparr>sp_integrity_algorithm = 0, sp_ciphering_algorithm = 0, sp_integrity_key = replicate 16 0,
          sp_ciphering_key = replicate 16 0\<rparr>,
        pd_cipher = NoCipher, pd_integrity = NoIntegrity, pd_is_gnb = is_gnb, pd_rx_list = [],
        pd_rx_size = 0, pd_stats = pdcp_stats_zero, pd_entity_suspended = False\<rparr>"
  have "pdcp_security_ok e0" "pdcp_cfg e0" "pdcp_rx_inv e0"
    using assms by (auto simp: e0_def pdcp_security_ok_def pdcp_cfg_def pdcp_rx_inv_def)
  then obtain e where "nr_pdcp_entity_set_security p e0 = Inr e" "pdcp_ok e"
    using pdcp_set_security_ok [OF assms(4)] unfolding pdcp_ok_def by metis
  then show ?thesis unfolding new_nr_pdcp_entity_def e0_def [symmetric] by blast
qed

section \<open>Properties\<close>

text \<open>Parameters and an environment for the examples below.\<close>

definition pdcp_test_env :: crypto_env where
  "pdcp_test_env = \<lparr>env_mem = replicate 32 7, env_pm = (\<lambda>i j. 9), aes_ctr = (\<lambda>key iv m. map (\<lambda>x. x XOR 0x5A) m),
     aes_cmac = (\<lambda>key m. replicate 16 0x77)\<rparr>"

definition pdcp_params :: "int \<Rightarrow> int \<Rightarrow> security_keys_and_algos" where
  "pdcp_params i c = \<lparr>sp_integrity_algorithm = i, sp_ciphering_algorithm = c, sp_integrity_key = replicate 16 1,
     sp_ciphering_key = replicate 16 2\<rparr>"

definition pdcp_test_entity :: "nr_pdcp_entity_type \<Rightarrow> bool \<Rightarrow> int \<Rightarrow> int \<Rightarrow> nr_pdcp_entity" where
  "pdcp_test_entity type gnb i c = projr (new_nr_pdcp_entity type gnb 1 10 False False 12 100 0 (pdcp_params i c))"

lemma pdcp_test_env_ok: "env_ok pdcp_test_env"
  by (simp add: env_ok_def pdcp_test_env_def xor.assoc comp_def)

lemma pdcp_params_ok_test: "i \<in> {- 1, 0, 1, 2} \<Longrightarrow> c \<in> {- 1, 0, 1, 2} \<Longrightarrow> pdcp_params_ok (pdcp_params i c)"
  by (auto simp: pdcp_params_ok_def pdcp_params_def)

lemma pdcp_test_entity_ok:
  "i \<in> {- 1, 0, 1, 2} \<Longrightarrow> c \<in> {- 1, 0, 1, 2} \<Longrightarrow> pdcp_ok (pdcp_test_entity type gnb i c)"
  using new_pdcp_entity_ok [of 12 1 "pdcp_params i c" type gnb 10 False False 100 0] pdcp_params_ok_test [of i c]
  by (auto simp: pdcp_test_entity_def)

text \<open>C17: Every admissible run of a PDCP entity, from its creation, completes without a fault and
  keeps the entity well formed: SDUs and PDUs of any content, time, changes of the security
  configuration, suspension, re-establishment and release.\<close>

theorem pdcp_runs_safe:
  assumes "env_ok env" "sn_size = 12 \<or> sn_size = 18" "0 < rb_id" "rb_id < 32" "pdcp_params_ok p"
    and "new_nr_pdcp_entity type is_gnb rb_id session srx stx sn_size t dt p = Inr e" "pdcp_adm_run env xs e"
  shows "\<exists>e' out pdus. pdcp_run env xs e = Inr (e', out, pdus) \<and> pdcp_cfg e' \<and> pdcp_security_ok e' \<and>
    pdcp_rx_inv e'"
proof -
  have "pdcp_ok e" using new_pdcp_entity_ok [OF assms(2-5), of type is_gnb session srx stx t dt] assms(6) by simp
  from pdcp_run_ok [OF assms(1) this assms(7)] show ?thesis by (simp add: pdcp_ok_def)
qed

theorem pdcp_runs_safe_witness:
  "\<exists>e e' out pdus. new_nr_pdcp_entity NR_PDCP_DRB_UM True 1 10 False False 12 100 0 (pdcp_params 0 0) = Inr e \<and>
     pdcp_run pdcp_test_env [SetTime 1, RecvPdu [0x80, 1, 65], ProcessSdu [66] 100, SetTime 200, Suspend] e =
       Inr (e', out, pdus) \<and> counts out = [1] \<and> pdus = [[0x80, 0, 66]]"
proof -
  obtain e where e: "new_nr_pdcp_entity NR_PDCP_DRB_UM True 1 10 False False 12 100 0 (pdcp_params 0 0) = Inr e"
    using new_pdcp_entity_ok [of 12 1 "pdcp_params 0 0" NR_PDCP_DRB_UM True 10 False False 100 0] pdcp_params_ok_test [of 0 0]
    by auto
  let ?xs = "[SetTime 1, RecvPdu [0x80, 1, 65], ProcessSdu [66] 100, SetTime 200, Suspend]"
  have adm: "pdcp_adm_run pdcp_test_env ?xs (projr (new_nr_pdcp_entity NR_PDCP_DRB_UM True 1 10 False False 12 100 0 (pdcp_params 0 0)))"
    by code_simp
  have out: "(case pdcp_run pdcp_test_env ?xs (projr (new_nr_pdcp_entity NR_PDCP_DRB_UM True 1 10 False False 12 100 0 (pdcp_params 0 0)))
    of Inr (e', out, pdus) \<Rightarrow> counts out = [1] \<and> pdus = [[0x80, 0, 66]] | Inl f \<Rightarrow> False)"
    by code_simp
  show ?thesis
    using pdcp_runs_safe [OF pdcp_test_env_ok _ _ _ pdcp_params_ok_test e, of ?xs] adm out
    by (auto simp: e)
qed

text \<open>C19: The receiver infers the COUNT of the sender from the sequence number of the header exactly
  when both are within half the range of sequence numbers of each other: every COUNT in the window
  around \<open>rx_deliv\<close> is recovered from what the sender writes into the header.\<close>

theorem pdcp_count_recovered:
  assumes "pdcp_ok tx" "pdcp_ok rx" "pd_sn_size rx = pd_sn_size tx"
    and "uint (pd_rx_deliv rx) - pd_window_size rx \<le> uint c" "uint c < uint (pd_rx_deliv rx) + pd_window_size rx"
  shows "\<exists>sn. pdcp_rcvd_sn rx (pdcp_header tx (uint c AND pd_sn_max tx) @ b) = Inr sn \<and> pdcp_rcvd_count rx sn = c"
proof -
  have cfg: "pdcp_cfg tx" "pdcp_cfg rx" using assms(1,2) by (simp_all add: pdcp_ok_def)
  have "take_bit (pd_sn_size tx) (uint c AND pd_sn_max tx) = uint c AND pd_sn_max tx"
    using sn_max_mod [OF cfg(1)] by (simp add: take_bit_eq_mod)
  moreover have "uint c AND pd_sn_max tx = uint c AND pd_sn_max rx"
    using cfg assms(3) by (simp add: pdcp_cfg_def)
  ultimately show ?thesis
    using pdcp_header_sn [OF cfg(1) assms(3)] pdcp_rcvd_count_eq [OF cfg(2) assms(4,5)] by simp
qed

theorem pdcp_count_recovered_witness:
  "\<exists>sn. pdcp_rcvd_sn (pdcp_test_entity NR_PDCP_SRB True 0 0)
     (pdcp_header (pdcp_test_entity NR_PDCP_SRB False 0 0)
       (uint (2047 :: u32) AND pd_sn_max (pdcp_test_entity NR_PDCP_SRB False 0 0)) @ [1]) = Inr sn \<and>
     pdcp_rcvd_count (pdcp_test_entity NR_PDCP_SRB True 0 0) sn = 2047"
proof -
  let ?tx = "pdcp_test_entity NR_PDCP_SRB False 0 0" and ?rx = "pdcp_test_entity NR_PDCP_SRB True 0 0"
  have "pd_sn_size ?rx = pd_sn_size ?tx" "pd_rx_deliv ?rx = 0" "pd_window_size ?rx = 2048"
    by (simp_all add: pdcp_test_entity_def pdcp_params_def new_nr_pdcp_entity_def nr_pdcp_entity_set_security_def
        pdcp_set_integrity_def pdcp_set_ciphering_def pdcp_set_keys_def)
  moreover have "pdcp_ok ?tx" "pdcp_ok ?rx" by (rule pdcp_test_entity_ok; simp)+
  ultimately show ?thesis by (intro pdcp_count_recovered) simp_all
qed

text \<open>C18: Whatever PDUs are received, duplicated, out of order, replayed or forged, and however the
  time passes, a run that does not restart the numbering delivers SDUs in strictly increasing order
  of COUNT: in sequence and each COUNT at most once. The numbering must not be exhausted (the COUNT
  \<open>2 ^ 32 - 1\<close> is not delivered). Re-establishment of an AM bearer is included.\<close>

theorem pdcp_in_order:
  assumes "pdcp_ok e" "pdcp_run env xs e = Inr (e', out, pdus)" "list_all (pdcp_keeps_order (pd_type e)) xs"
    "- 1 \<notin> set (counts out)"
  shows "sorted_wrt (<) (counts out) \<and> (\<forall>s \<in> set out. pd_rx_deliv e \<le> su_count s \<and> su_count s < pd_rx_deliv e')"
  using pdcp_run_order [OF _ assms(2-4)] assms(1,4) by (auto simp: pdcp_ok_def delivers_between_def)

theorem pdcp_in_order_witness:
  "\<exists>e' out pdus. pdcp_run pdcp_test_env
     [SetTime 1, RecvPdu [0x80, 2, 67], RecvPdu [0x80, 1, 66], RecvPdu [0x80, 2, 68], RecvPdu [0x80, 0, 65],
      RecvPdu [0x80, 1, 66]] (pdcp_test_entity NR_PDCP_DRB_AM True 0 0) = Inr (e', out, pdus) \<and>
     map su_buffer out = [[65], [66], [67]] \<and> sorted_wrt (<) (counts out)"
proof -
  let ?e = "pdcp_test_entity NR_PDCP_DRB_AM True 0 0"
  let ?xs = "[SetTime 1, RecvPdu [0x80, 2, 67], RecvPdu [0x80, 1, 66], RecvPdu [0x80, 2, 68], RecvPdu [0x80, 0, 65],
      RecvPdu [0x80, 1, 66]]"
  have "case pdcp_run pdcp_test_env ?xs ?e of
      Inr (e', out, pdus) \<Rightarrow> map su_buffer out = [[65], [66], [67]] \<and> - 1 \<notin> set (counts out) | Inl f \<Rightarrow> False"
    by code_simp
  then obtain e' out pdus where r: "pdcp_run pdcp_test_env ?xs ?e = Inr (e', out, pdus)"
    "map su_buffer out = [[65], [66], [67]]" "- 1 \<notin> set (counts out)"
    by (auto split: sum.splits)
  have "list_all (pdcp_keeps_order (pd_type ?e)) ?xs" by (simp add: pdcp_keeps_order_def)
  then show ?thesis
    using pdcp_in_order [OF pdcp_test_entity_ok r(1)] r by simp
qed



end
