(* ===== verification/PdcpFaults.thy ===== *)
theory PdcpFaults
  imports PdcpRuns
begin

text \<open>
  Inputs on which \<open>nr_pdcp_entity.c\<close> does not do what it means to, each a run of the model from a new
  entity.
\<close>

text \<open>C23: A receiver that has received nothing yet takes a PDU with a sequence number of half the
  range or more for one of hyper frame -1: its COUNT becomes \<open>0xFFFFF800\<close> and passes as being in the
  future. When t-Reordering expires, \<open>rx_deliv\<close> follows it, and the PDUs 0 and 1 are discarded as
  old.\<close>

theorem pdcp_negative_hfn_blocks_bearer:
  "case pdcp_run pdcp_test_env
     [SetTime 1, RecvPdu [0x88, 0, 65], SetTime 200, RecvPdu [0x80, 0, 66], RecvPdu [0x80, 1, 67], SetTime 400]
     (pdcp_test_entity NR_PDCP_DRB_UM True 0 0) of
   Inr (e', out, pdus) \<Rightarrow> counts out = [0xFFFFF800] \<and> pd_rx_deliv e' = 0xFFFFF801 \<and>
     ps_rxpdu_dd_pkts (pd_stats e') = 2 | Inl f \<Rightarrow> False"
  by code_simp

text \<open>With NEA2, the same PDU ends the process: the assertion that COUNT is not negative in
  \<open>nr_pdcp_security_nea2_cipher\<close> fails, whatever AES computes. With NIA2 on a signalling bearer the
  assertion in \<open>nr_pdcp_integrity_nia2_integrity\<close> fails before the MAC is compared.\<close>

theorem pdcp_negative_hfn_aborts:
  "nr_pdcp_entity_recv_pdu env [0x88, 0, 65] (pdcp_test_entity NR_PDCP_DRB_UM True 0 2) = Inl AssertFailed \<and>
   nr_pdcp_entity_recv_pdu env [0x08, 0, 65, 0, 0, 0, 0] (pdcp_test_entity NR_PDCP_SRB True 2 0) = Inl AssertFailed"
  by code_simp

text \<open>The header is read before the size is checked: a PDU of one byte is read beyond its end.\<close>

theorem pdcp_short_pdu_overread:
  "nr_pdcp_entity_recv_pdu env [0x80] (pdcp_test_entity NR_PDCP_DRB_AM True 0 0) = Inl OutOfBounds"
  by code_simp

text \<open>\<open>rx_size\<close> grows by the size of the SDU and of the MAC-I and shrinks by the size of the SDU:
  after an SRB has delivered everything, 4 bytes per SDU stay counted.\<close>

theorem pdcp_rx_size_leaks:
  "case pdcp_run pdcp_test_env [RecvPdu [0, 0, 65, 0, 0, 0, 0], RecvPdu [0, 1, 66, 0, 0, 0, 0]]
     (pdcp_test_entity NR_PDCP_SRB True 0 0) of
   Inr (e', out, pdus) \<Rightarrow> map su_buffer out = [[65], [66]] \<and> pd_rx_list e' = [] \<and> pd_rx_size e' = 8 | Inl f \<Rightarrow> False"
  by code_simp

text \<open>Before the first \<open>set_time\<close> the time is 0, which as a start time means that t-Reordering does
  not run: an SDU received then is not delivered by the timer.\<close>

theorem pdcp_timer_not_started_at_zero:
  "case pdcp_run pdcp_test_env [RecvPdu [0x80, 1, 65], SetTime 100000] (pdcp_test_entity NR_PDCP_DRB_UM True 0 0) of
   Inr (e', out, pdus) \<Rightarrow> out = [] \<and> counts (pd_rx_list e') = [1] \<and> pd_t_reordering_start e' = 0 | Inl f \<Rightarrow> False"
  by code_simp

end
