(* ===== verification/PdcpChannel.thy ===== *)
theory PdcpChannel
  imports PdcpRuns
begin

unbundle bit_operations_syntax

text \<open>
  Two PDCP entities of one bearer. Over a channel that loses, repeats and reorders PDUs, what the
  receiver delivers are SDUs of the sender, unchanged, in order and each at most once. Over a channel
  that keeps them in order, as the AM and the UM entity of RLC provide it, every SDU arrives.
\<close>

section \<open>The sender\<close>

text \<open>SDUs given to the sender, one after the other; the PDUs it returns.\<close>

fun pdcp_send :: "crypto_env \<Rightarrow> byte list list \<Rightarrow> nr_pdcp_entity \<Rightarrow> (nr_pdcp_entity \<times> byte list list) res" where
  "pdcp_send env [] tx = Inr (tx, [])"
| "pdcp_send env (u # us) tx =
     res_bind (nr_pdcp_entity_process_sdu env u (nr_max_pdcp_pdu_size (int (length u))) tx) (\<lambda>(tx1, p).
     res_bind (pdcp_send env us tx1) (\<lambda>(tx2, pdus). Inr (tx2, (case p of Some pdu \<Rightarrow> pdu # pdus | None \<Rightarrow> pdus))))"

text \<open>SDUs the sender accepts, with their COUNT in range for AES.\<close>

definition pdcp_sendable :: "nr_pdcp_entity \<Rightarrow> byte list list \<Rightarrow> bool" where
  "pdcp_sendable tx us \<longleftrightarrow> (\<forall>u \<in> set us. of_bool (pd_has_sdap_tx tx) < length u \<and> length u < 2 ^ 27) \<and>
     uint (pd_tx_next tx) + int (length us) < (if pdcp_uses_aes tx then 2 ^ 31 else 2 ^ 32)"

lemma pdcp_uses_aes_static: "pdcp_static e' = pdcp_static e \<Longrightarrow> pdcp_uses_aes e' = pdcp_uses_aes e"
  using pdcp_staticD [of e' e] by (simp add: pdcp_uses_aes_def)

lemma pdcp_peers_static:
  "pdcp_static tx' = pdcp_static tx \<Longrightarrow> pdcp_static rx' = pdcp_static rx \<Longrightarrow> pdcp_peers tx' rx' = pdcp_peers tx rx"
  using pdcp_staticD [of tx' tx] pdcp_staticD [of rx' rx] by (simp add: pdcp_peers_def pdcp_cfg_def)

lemma pdcp_process_next:
  assumes "nr_pdcp_entity_process_sdu env b room tx = Inr (tx', Some pdu)"
  shows "pd_tx_next tx' = pd_tx_next tx + 1" "\<not> pd_entity_suspended tx'"
  using assms unfolding nr_pdcp_entity_process_sdu_def Let_def
  by (auto simp: res_bind_eq_Inr split: if_splits)

lemma pdcp_process_some:
  assumes "nr_pdcp_entity_process_sdu env b room tx = Inr (tx', p)" "\<not> pd_entity_suspended tx"
  shows "\<exists>pdu. p = Some pdu"
  using assms unfolding nr_pdcp_entity_process_sdu_def Let_def
  by (auto simp: res_bind_eq_Inr split: if_splits)

lemma uint_suc: "uint (c :: u32) + 1 < 2 ^ 32 \<Longrightarrow> uint (c + 1) = uint c + 1"
  by (simp add: uint_word_ariths)

lemma sint_nonneg: "uint (c :: u32) < 2 ^ 31 \<Longrightarrow> - 1 < sint c"
proof -
  assume "uint c < 2 ^ 31"
  then have "sint c = uint c" using order_trans [OF _ uint_ge_0 [of c], of "- 2147483648"] by (simp add: sint_uint signed_take_bit_int_eq_self_iff)
  then show ?thesis using uint_ge_0 [of c] by linarith
qed

text \<open>The first SDU of a list that can be sent.\<close>

lemma pdcp_send_first:
  assumes env: "env_ok env" and ok: "pdcp_ok tx" and susp: "\<not> pd_entity_suspended tx" and able: "pdcp_sendable tx (u # us)"
  shows "\<exists>tx1 pdu. nr_pdcp_entity_process_sdu env u (nr_max_pdcp_pdu_size (int (length u))) tx = Inr (tx1, Some pdu) \<and>
    pdcp_ok tx1 \<and> \<not> pd_entity_suspended tx1 \<and> pdcp_sendable tx1 us \<and> pdcp_static tx1 = pdcp_static tx \<and>
    uint (pd_tx_next tx1) = uint (pd_tx_next tx) + 1"
proof -
  let ?room = "nr_max_pdcp_pdu_size (int (length u))"
  have range: "uint (pd_tx_next tx) + 1 + int (length us) < (if pdcp_uses_aes tx then 2 ^ 31 else 2 ^ 32)"
    using able by (simp add: pdcp_sendable_def)
  have "pdcp_uses_aes tx \<longrightarrow> - 1 < sint (pd_tx_next tx)" using range by (auto intro: sint_nonneg)
  then have "pdcp_adm (ProcessSdu u ?room) tx"
    using able by (auto simp: pdcp_adm_def pdcp_sendable_def nr_max_pdcp_pdu_size_def)
  then obtain tx1 p where r: "nr_pdcp_entity_process_sdu env u ?room tx = Inr (tx1, p)"
    using pdcp_process_returns [OF env ok] by blast
  then obtain pdu where p: "p = Some pdu" using pdcp_process_some susp by blast
  note st = pdcp_process_static [OF r]
  note nx = pdcp_process_next [OF r [unfolded p]]
  have u: "uint (pd_tx_next tx1) = uint (pd_tx_next tx) + 1"
    unfolding nx(1) by (rule uint_suc) (use range in \<open>auto split: if_splits\<close>)
  have "pdcp_sendable tx1 us"
    using able range u pdcp_uses_aes_static [of tx1 tx] pdcp_staticD(13) [of tx1 tx] st
    by (auto simp: pdcp_sendable_def algebra_simps)
  moreover have "pdcp_ok tx1" using ok st pdcp_ok_static [of tx1 tx] by (simp add: pdcp_ok_def)
  ultimately show ?thesis using r p nx(2) u st by blast
qed

text \<open>Every PDU of the list comes from a sender whose \<open>tx_next\<close> is the COUNT of the SDU.\<close>

lemma pdcp_send_spec:
  assumes env: "env_ok env" and "pdcp_ok tx" "\<not> pd_entity_suspended tx" "pdcp_sendable tx us"
  shows "\<exists>tx' pdus. pdcp_send env us tx = Inr (tx', pdus) \<and> length pdus = length us \<and>
    (\<forall>i < length us. \<exists>txi txi'. pdcp_static txi = pdcp_static tx \<and> uint (pd_tx_next txi) = uint (pd_tx_next tx) + int i \<and>
       nr_pdcp_entity_process_sdu env (us ! i) (nr_max_pdcp_pdu_size (int (length (us ! i)))) txi = Inr (txi', Some (pdus ! i)))"
  using assms(2-)
proof (induction us arbitrary: tx)
  case (Cons u us)
  obtain tx1 pdu where r: "nr_pdcp_entity_process_sdu env u (nr_max_pdcp_pdu_size (int (length u))) tx = Inr (tx1, Some pdu)"
    and t1: "pdcp_ok tx1" "\<not> pd_entity_suspended tx1" "pdcp_sendable tx1 us" "pdcp_static tx1 = pdcp_static tx"
      "uint (pd_tx_next tx1) = uint (pd_tx_next tx) + 1"
    using pdcp_send_first [OF env Cons.prems] by blast
  obtain tx2 pdus where s: "pdcp_send env us tx1 = Inr (tx2, pdus)" "length pdus = length us"
    and each: "\<forall>i < length us. \<exists>txi txi'. pdcp_static txi = pdcp_static tx1 \<and>
       uint (pd_tx_next txi) = uint (pd_tx_next tx1) + int i \<and>
       nr_pdcp_entity_process_sdu env (us ! i) (nr_max_pdcp_pdu_size (int (length (us ! i)))) txi = Inr (txi', Some (pdus ! i))"
    using Cons.IH [OF t1(1,2,3)] by blast
  have "\<exists>txi txi'. pdcp_static txi = pdcp_static tx \<and> uint (pd_tx_next txi) = uint (pd_tx_next tx) + int i \<and>
       nr_pdcp_entity_process_sdu env ((u # us) ! i) (nr_max_pdcp_pdu_size (int (length ((u # us) ! i)))) txi =
       Inr (txi', Some ((pdu # pdus) ! i))" if "i < length (u # us)" for i
  proof (cases i)
    case 0
    then show ?thesis using r by auto
  next
    case (Suc j)
    have "j < length us" using that Suc by simp
    then obtain txi txi' where "pdcp_static txi = pdcp_static tx1" "uint (pd_tx_next txi) = uint (pd_tx_next tx1) + int j"
      "nr_pdcp_entity_process_sdu env (us ! j) (nr_max_pdcp_pdu_size (int (length (us ! j)))) txi = Inr (txi', Some (pdus ! j))"
      using each by blast
    then show ?thesis using Suc t1(4,5) by (intro exI [of _ txi] exI [of _ txi']) simp
  qed
  then show ?case using r s by simp
qed simp

section \<open>The receiver\<close>

text \<open>
  Among SDUs \<open>us\<close> with the COUNTs from \<open>base\<close>: what is stored is one of them, and the variables stay
  within their COUNTs.
\<close>

definition pdcp_from :: "int \<Rightarrow> byte list list \<Rightarrow> nr_pdcp_sdu \<Rightarrow> bool" where
  "pdcp_from base us s \<longleftrightarrow> (\<exists>i < length us. uint (su_count s) = base + int i \<and> su_buffer s = us ! i)"

definition pdcp_rx_window :: "int \<Rightarrow> byte list list \<Rightarrow> nr_pdcp_entity \<Rightarrow> bool" where
  "pdcp_rx_window base us rx \<longleftrightarrow> pdcp_rx_inv rx \<and> \<not> pd_entity_suspended rx \<and>
     base \<le> uint (pd_rx_deliv rx) \<and> uint (pd_rx_deliv rx) \<le> base + int (length us) \<and>
     uint (pd_rx_next rx) \<le> base + int (length us) \<and>
     (pd_t_reordering_start rx \<noteq> 0 \<longrightarrow> uint (pd_rx_reord rx) \<le> base + int (length us)) \<and>
     (\<forall>s \<in> set (pd_rx_list rx). pdcp_from base us s)"

lemma deliver_consecutive_end:
  assumes "pdcp_deliver_consecutive l c e = (c', e', out)"
  shows "c' = c \<or> (\<exists>s \<in> set out. c' = su_count s + 1)"
  using assms
proof (induction l c e arbitrary: c' e' out rule: pdcp_deliver_consecutive.induct)
  case (2 cur rest c e)
  show ?case
  proof (cases "c = su_count cur")
    case True
    obtain c1 e1 o1 where r: "pdcp_deliver_consecutive rest (c + 1) (pdcp_deliver_one cur rest e) = (c1, e1, o1)"
      by (metis prod_cases3)
    from "2.IH" [OF True r] r True "2.prems" show ?thesis by auto
  qed (use "2.prems" in auto)
qed auto

lemma pdcp_end_bound:
  assumes "pdcp_deliver_consecutive l c e = (c', e', out)" "uint c \<le> base + int (length us)"
    "base \<le> uint c" "base + int (length us) < 2 ^ 32" "\<forall>s \<in> set out. pdcp_from base us s"
  shows "uint c' \<le> base + int (length us) \<and> base \<le> uint c'"
proof -
  from deliver_consecutive_end [OF assms(1)] show ?thesis
  proof
    assume "\<exists>s \<in> set out. c' = su_count s + 1"
    then obtain s where "s \<in> set out" and s1: "c' = su_count s + 1" by blast
    then obtain i where s: "c' = su_count s + 1" "i < length us" "uint (su_count s) = base + int i"
      using assms(5) unfolding pdcp_from_def by blast
    then have "uint (su_count s) + 1 < 2 ^ 32" using assms(4) by linarith
    from uint_suc [OF this] s show ?thesis by simp
  qed (use assms(2,3) in simp)
qed

lemma pdcp_start_reordering_window:
  assumes "pd_t_reordering_start e = 0" "pdcp_rx_window base us e"
  shows "pdcp_rx_window base us (pdcp_start_reordering e)"
  using assms pdcp_start_reordering_inv [OF assms(1)]
  by (auto simp: pdcp_rx_window_def pdcp_start_reordering_def)

lemma pdcp_update_reordering_window:
  assumes "pdcp_rx_window base us (e\<lparr>pd_t_reordering_start := 0\<rparr>)"
    "pd_t_reordering_start e \<noteq> 0 \<longrightarrow> uint (pd_rx_reord e) \<le> base + int (length us)"
  shows "pdcp_rx_window base us (pdcp_update_reordering e)"
proof (cases "pd_t_reordering_start e \<noteq> 0 \<and> \<not> pd_rx_deliv e \<ge> pd_rx_reord e")
  case True
  then have "pdcp_update_reordering e = e" by (simp add: pdcp_update_reordering_def Let_def)
  then show ?thesis using True assms by (auto simp: pdcp_rx_window_def pdcp_rx_inv_def)
next
  case False
  have same: "pd_t_reordering_start e = 0 \<Longrightarrow> e\<lparr>pd_t_reordering_start := 0\<rparr> = e" by (cases e) simp
  have "pdcp_update_reordering e = pdcp_start_reordering (e\<lparr>pd_t_reordering_start := 0\<rparr>)"
  proof (cases "pd_t_reordering_start e = 0")
    case True
    show ?thesis unfolding same [OF True] using True by (simp add: pdcp_update_reordering_def)
  qed (use False in \<open>auto simp: pdcp_update_reordering_def Let_def\<close>)
  then show ?thesis using pdcp_start_reordering_window [OF _ assms(1)] by simp
qed

text \<open>An SDU of the sender is accepted.\<close>

lemma pdcp_accept_window:
  assumes win: "pdcp_rx_window base us e" and bound: "base + int (length us) < 2 ^ 32"
    and s: "pdcp_from base us s" "pd_rx_deliv e \<le> su_count s" "su_count s \<notin> set (counts (pd_rx_list e))"
    and run: "pdcp_accept_sdu s n e = (e', out)"
  shows "pdcp_rx_window base us e' \<and> (\<forall>s \<in> set out. pdcp_from base us s)"
proof -
  have inv: "pdcp_rx_inv e" using win by (simp add: pdcp_rx_window_def)
  note acc = pdcp_accept_sdu_inv [OF inv s(2,3) run]
  define e2 where "e2 = pdcp_store_sdu s n e"
  have all: "\<forall>x \<in> set (out @ pd_rx_list e'). pdcp_from base us x"
    using acc(3) s(1) win by (auto simp: pdcp_rx_window_def)
  have sc: "uint (su_count s) + 1 \<le> base + int (length us)" using s(1) by (auto simp: pdcp_from_def)
  then have "uint (su_count s + 1) = uint (su_count s) + 1" using bound by (intro uint_suc) simp
  then have e2: "uint (pd_rx_next e2) \<le> base + int (length us)" "pd_rx_deliv e2 = pd_rx_deliv e"
    "pd_t_reordering_start e2 = pd_t_reordering_start e" "pd_rx_reord e2 = pd_rx_reord e"
    "pd_entity_suspended e2 = pd_entity_suspended e" "count_sorted (pd_rx_list e2)"
    "set (pd_rx_list e2) = insert s (set (pd_rx_list e))"
    using win sc s(3) by (auto simp: e2_def pdcp_store_sdu_def Let_def pdcp_rx_window_def pdcp_rx_inv_def sdu_list_add_sorted)
  have "pdcp_rx_window base us e'"
  proof (cases "su_count s = pd_rx_deliv e2")
    case True
    obtain c e3 o3 where d: "pdcp_deliver_consecutive (pd_rx_list e2) (pd_rx_deliv e2) e2 = (c, e3, o3)"
      by (metis prod_cases3)
    have r: "e' = pdcp_update_reordering (e3\<lparr>pd_rx_deliv := c\<rparr>)" "out = o3"
      using run True d by (simp_all add: pdcp_accept_sdu_def e2_def [symmetric] Let_def)
    note f = deliver_consecutive_frame [OF d refl]
    note fd = same_but_listD [OF conjunct1 [OF f]]
    have cb: "uint c \<le> base + int (length us) \<and> base \<le> uint c"
      by (rule pdcp_end_bound [OF d _ _ bound]) (use win e2(2) all r(2) in \<open>auto simp: pdcp_rx_window_def\<close>)
    have "pdcp_rx_inv (e3\<lparr>pd_rx_deliv := c, pd_t_reordering_start := 0\<rparr>)"
      using acc(1) unfolding r(1) by (simp add: pdcp_rx_inv_def)
    moreover have "\<forall>x \<in> set (pd_rx_list e3). pdcp_from base us x" using all by (simp add: r)
    ultimately show ?thesis
      unfolding r(1) using cb e2 fd win
      by (intro pdcp_update_reordering_window) (simp_all add: pdcp_rx_window_def)
  next
    case False
    have r: "e' = pdcp_update_reordering e2" using run False by (simp add: pdcp_accept_sdu_def e2_def [symmetric] Let_def)
    have "pdcp_rx_inv (e2\<lparr>pd_t_reordering_start := 0\<rparr>)"
      using acc(1) unfolding r(1) by (simp add: pdcp_rx_inv_def)
    then show ?thesis
      unfolding r(1) using e2 win s(1)
      by (intro pdcp_update_reordering_window) (auto simp: pdcp_rx_window_def)
  qed
  with all show ?thesis by simp
qed

lemma pdcp_check_window:
  assumes win: "pdcp_rx_window base us e" and bound: "base + int (length us) < 2 ^ 32"
    and run: "pdcp_check_t_reordering e = (e', out)"
  shows "pdcp_rx_window base us e' \<and> (\<forall>s \<in> set out. pdcp_from base us s)"
proof -
  have inv: "pdcp_rx_inv e" using win by (simp add: pdcp_rx_window_def)
  note chk = pdcp_check_t_reordering_inv [OF inv run]
  have all: "\<forall>x \<in> set (out @ pd_rx_list e'). pdcp_from base us x"
    using chk win by (auto simp: pdcp_rx_window_def)
  show ?thesis
  proof (cases "pd_t_reordering e = - 1 \<or> pd_t_reordering_start e = 0 \<or>
      pd_t_current e \<le> pd_t_reordering_start e + word_of_int (pd_t_reordering e)")
    case True
    then have "e' = e" "out = []" using run by (auto simp: pdcp_check_t_reordering_def split: if_splits)
    then show ?thesis using win by simp
  next
    case False
    define e1 where "e1 = e\<lparr>pd_t_reordering_start := 0\<rparr>"
    obtain e2 o1 where b: "pdcp_deliver_below (pd_rx_list e1) (pd_rx_reord e1) e1 = (e2, o1)" by fastforce
    obtain c e3 o2 where d: "pdcp_deliver_consecutive (pd_rx_list e2) (pd_rx_reord e2) e2 = (c, e3, o2)"
      by (metis prod_cases3)
    have r: "e' = pdcp_start_reordering (e3\<lparr>pd_rx_deliv := c\<rparr>)" "out = o1 @ o2"
      using run False b d by (simp_all add: pdcp_check_t_reordering_def Let_def e1_def)
    have "count_sorted (pd_rx_list e1)" using inv by (simp add: e1_def pdcp_rx_inv_def)
    note fb = same_but_listD [OF conjunct1 [OF deliver_below_frame [OF b refl this]]]
    note fc = same_but_listD [OF conjunct1 [OF deliver_consecutive_frame [OF d refl]]]
    have re: "pd_rx_reord e2 = pd_rx_reord e" using fb by (simp add: e1_def)
    have "base \<le> uint (pd_rx_reord e)"
      using win False by (auto simp: pdcp_rx_window_def pdcp_rx_inv_def word_less_def)
    then have cb: "uint c \<le> base + int (length us) \<and> base \<le> uint c"
      using win False all r(2) re by (intro pdcp_end_bound [OF d _ _ bound]) (auto simp: pdcp_rx_window_def)
    have t0: "pd_t_reordering_start (e3\<lparr>pd_rx_deliv := c\<rparr>) = 0" using fb fc by (simp add: e1_def)
    have "pdcp_rx_inv (e3\<lparr>pd_rx_deliv := c\<rparr>)" using chk t0 unfolding r(1) by (simp add: pdcp_start_reordering_inv)
    moreover have "\<forall>x \<in> set (pd_rx_list e3). pdcp_from base us x" using all by (simp add: r)
    ultimately have "pdcp_rx_window base us (e3\<lparr>pd_rx_deliv := c\<rparr>)"
      using cb win fb fc t0 by (simp add: pdcp_rx_window_def e1_def)
    from pdcp_start_reordering_window [OF t0 this] have "pdcp_rx_window base us e'" by (simp add: r)
    with all show ?thesis by simp
  qed
qed

text \<open>A PDU of the sender, or a tick of the clock, at the receiver.\<close>

lemma pdcp_recv_window:
  assumes env: "env_ok env" and win: "pdcp_rx_window base us rx" and peers: "pdcp_peers txi rx"
    and bound: "base + int (length us) < 2 ^ 32" "int (length us) \<le> pd_window_size rx"
    and i: "i < length us" "uint (pd_tx_next txi) = base + int i"
    and u: "length (us ! i) < 2 ^ 27" "of_bool (pd_has_sdap_tx txi) < length (us ! i)"
    and run: "nr_pdcp_entity_process_sdu env (us ! i) room txi = Inr (txi', Some pdu)"
  shows "\<exists>rx' out. nr_pdcp_entity_recv_pdu env pdu rx = Inr (rx', out) \<and> pdcp_rx_window base us rx' \<and>
    pdcp_static rx' = pdcp_static rx \<and> (\<forall>s \<in> set out. pdcp_from base us s)"
proof -
  have w: "base \<le> uint (pd_rx_deliv rx)" "uint (pd_rx_deliv rx) \<le> base + int (length us)" "\<not> pd_entity_suspended rx"
    using win by (auto simp: pdcp_rx_window_def)
  have near: "uint (pd_rx_deliv rx) - pd_window_size rx \<le> uint (pd_tx_next txi)"
    "uint (pd_tx_next txi) < uint (pd_rx_deliv rx) + pd_window_size rx"
    using w(1,2) bound(2) i by linarith+
  define old where "old = (pd_tx_next txi < pd_rx_deliv rx \<or> nr_pdcp_sdu_in_list (pd_rx_list rx) (pd_tx_next txi))"
  obtain f mi where r: "nr_pdcp_entity_recv_pdu env pdu rx =
    Inr (if old then (pd_stats_update f rx, [])
      else pdcp_accept_sdu (nr_pdcp_new_sdu (pd_tx_next txi) (us ! i) mi) (int (length (us ! i) + pdcp_integrity_size rx))
        (pd_stats_update f rx))"
    using pdcp_recv_peer [OF env peers u run w(3) near, folded old_def] by blast
  have winf: "pdcp_rx_window base us (pd_stats_update f rx)" using win by (simp add: pdcp_rx_window_def)
  show ?thesis
  proof (cases old)
    case True
    then show ?thesis using r winf by simp
  next
    case False
    define s where "s = nr_pdcp_new_sdu (pd_tx_next txi) (us ! i) mi"
    obtain rx' out where a: "pdcp_accept_sdu s (int (length (us ! i) + pdcp_integrity_size rx)) (pd_stats_update f rx) = (rx', out)"
      by fastforce
    have "pdcp_from base us s" using i by (auto simp: s_def nr_pdcp_new_sdu_def pdcp_from_def)
    moreover have "pd_rx_deliv rx \<le> su_count s" "su_count s \<notin> set (counts (pd_rx_list rx))"
      using False by (auto simp: old_def s_def nr_pdcp_new_sdu_def not_less)
    ultimately have "pdcp_rx_window base us rx' \<and> (\<forall>s \<in> set out. pdcp_from base us s)"
      using pdcp_accept_window [OF winf bound(1) _ _ _ a] by simp
    moreover have "pdcp_static rx' = pdcp_static rx" using pdcp_accept_static [OF a] by simp
    ultimately show ?thesis using r a False by (simp add: s_def)
  qed
qed

text \<open>Every PDU that is received is one of \<open>pdus\<close>.\<close>

definition pdcp_channel_op :: "byte list list \<Rightarrow> pdcp_op \<Rightarrow> bool" where
  "pdcp_channel_op pdus x = (case x of RecvPdu b \<Rightarrow> b \<in> set pdus | SetTime now \<Rightarrow> True | _ \<Rightarrow> False)"

lemma pdcp_channel_run:
  assumes env: "env_ok env" and bound: "base + int (length us) < 2 ^ 32" "int (length us) \<le> pd_window_size rx"
    and peers: "pdcp_peers tx rx" and len: "length pdus = length us"
    and us: "\<forall>u \<in> set us. of_bool (pd_has_sdap_tx tx) < length u \<and> length u < 2 ^ 27"
    and sent: "\<forall>i < length us. \<exists>txi txi'. pdcp_static txi = pdcp_static tx \<and> uint (pd_tx_next txi) = base + int i \<and>
       nr_pdcp_entity_process_sdu env (us ! i) (nr_max_pdcp_pdu_size (int (length (us ! i)))) txi = Inr (txi', Some (pdus ! i))"
    and win: "pdcp_rx_window base us rx" and ops: "list_all (pdcp_channel_op pdus) xs"
  shows "\<exists>rx' out. pdcp_run env xs rx = Inr (rx', out, []) \<and> (\<forall>s \<in> set out. pdcp_from base us s)"
  using win ops peers bound(2)
proof (induction xs arbitrary: rx)
  case (Cons x xs)
  have "\<exists>rx1 out1. pdcp_step env x rx = Inr (rx1, out1, []) \<and> pdcp_rx_window base us rx1 \<and>
      pdcp_static rx1 = pdcp_static rx \<and> (\<forall>s \<in> set out1. pdcp_from base us s)"
  proof (cases x)
    case (RecvPdu b)
    then obtain i where i: "i < length us" "b = pdus ! i"
      using Cons.prems(2) len by (auto simp: pdcp_channel_op_def in_set_conv_nth)
    then obtain txi txi' where t: "pdcp_static txi = pdcp_static tx" "uint (pd_tx_next txi) = base + int i"
      "nr_pdcp_entity_process_sdu env (us ! i) (nr_max_pdcp_pdu_size (int (length (us ! i)))) txi = Inr (txi', Some b)"
      using sent by blast
    have p: "pdcp_peers txi rx" using Cons.prems(3) pdcp_peers_static [OF t(1) refl] by simp
    have u: "length (us ! i) < 2 ^ 27" "of_bool (pd_has_sdap_tx txi) < length (us ! i)"
      using us i(1) pdcp_staticD(13) [OF t(1)] by auto
    from pdcp_recv_window [OF env Cons.prems(1) p bound(1) Cons.prems(4) i(1) t(2) u t(3)] RecvPdu show ?thesis
      by (auto simp: pdcp_step_def)
  next
    case (SetTime now)
    obtain rx1 out1 where r: "pdcp_check_t_reordering (rx\<lparr>pd_t_current := now\<rparr>) = (rx1, out1)" by fastforce
    have w: "pdcp_rx_window base us (rx\<lparr>pd_t_current := now\<rparr>)"
      using Cons.prems(1) by (simp add: pdcp_rx_window_def pdcp_rx_inv_def)
    from pdcp_check_window [OF w bound(1) r] pdcp_check_static [OF r] SetTime r show ?thesis
      by (simp add: pdcp_step_def nr_pdcp_entity_set_time_def)
  qed (use Cons.prems(2) in \<open>simp_all add: pdcp_channel_op_def\<close>)
  then obtain rx1 out1 where s: "pdcp_step env x rx = Inr (rx1, out1, [])" "pdcp_rx_window base us rx1"
    "pdcp_static rx1 = pdcp_static rx" "\<forall>s \<in> set out1. pdcp_from base us s" by blast
  have "pdcp_peers tx rx1" "int (length us) \<le> pd_window_size rx1"
    using Cons.prems(3,4) pdcp_peers_static [OF refl s(3)] pdcp_staticD(3) [OF s(3)] by simp_all
  then obtain rx2 out2 where "pdcp_run env xs rx1 = Inr (rx2, out2, [])" "\<forall>s \<in> set out2. pdcp_from base us s"
    using Cons.IH [OF s(2)] Cons.prems(2) by auto
  with s show ?case by auto
qed simp

section \<open>An ordered channel\<close>

lemma pdcp_accept_next:
  assumes "pd_rx_list e = []" "su_count s = pd_rx_deliv e"
  shows "\<exists>e'. pdcp_accept_sdu s n e = (e', [s]) \<and> pd_rx_list e' = [] \<and> pd_rx_deliv e' = pd_rx_deliv e + 1 \<and>
    pd_entity_suspended e' = pd_entity_suspended e"
  using assms
  by (simp add: pdcp_accept_sdu_def pdcp_store_sdu_def Let_def pdcp_deliver_one_def pdcp_update_reordering_def
      pdcp_start_reordering_def)

lemma pdcp_pdu_length:
  "pdcp_header_size e + (n + pdcp_integrity_size e') \<le> n + 7"
  by (simp add: pdcp_header_size_def pdcp_integrity_size_def)

lemma pdcp_link_run:
  assumes env: "env_ok env" and "pdcp_ok tx" "\<not> pd_entity_suspended tx" "pdcp_sendable tx us" "pdcp_peers tx rx"
    and "\<not> pd_entity_suspended rx" "pd_rx_list rx = []" "pd_rx_deliv rx = pd_tx_next tx"
  shows "\<exists>tx' pdus. pdcp_send env us tx = Inr (tx', pdus) \<and> length pdus = length us \<and>
    (\<forall>i < length us. length (pdus ! i) \<le> length (us ! i) + 7 \<and> pdus ! i \<noteq> []) \<and>
    (\<forall>k. \<exists>rx' out. pdcp_run env (map RecvPdu (take k pdus)) rx = Inr (rx', out, []) \<and> map su_buffer out = take k us)"
  using assms(2-)
proof (induction us arbitrary: tx rx)
  case (Cons u us)
  obtain tx1 pdu where r: "nr_pdcp_entity_process_sdu env u (nr_max_pdcp_pdu_size (int (length u))) tx = Inr (tx1, Some pdu)"
    and t1: "pdcp_ok tx1" "\<not> pd_entity_suspended tx1" "pdcp_sendable tx1 us" "pdcp_static tx1 = pdcp_static tx"
      "uint (pd_tx_next tx1) = uint (pd_tx_next tx) + 1"
    using pdcp_send_first [OF env Cons.prems(1-3)] by blast
  have u: "length u < 2 ^ 27" "of_bool (pd_has_sdap_tx tx) < length u" using Cons.prems(3) by (simp_all add: pdcp_sendable_def)
  have W: "0 < pd_window_size rx" using Cons.prems(4) by (auto simp: pdcp_peers_def pdcp_cfg_def)
  have near: "uint (pd_rx_deliv rx) - pd_window_size rx \<le> uint (pd_tx_next tx)"
    "uint (pd_tx_next tx) < uint (pd_rx_deliv rx) + pd_window_size rx"
    "\<not> (pd_tx_next tx < pd_rx_deliv rx \<or> nr_pdcp_sdu_in_list (pd_rx_list rx) (pd_tx_next tx))"
    using W Cons.prems(6,7) by simp_all
  obtain f mi where v: "nr_pdcp_entity_recv_pdu env pdu rx =
      Inr (pdcp_accept_sdu (nr_pdcp_new_sdu (pd_tx_next tx) u mi) (int (length u + pdcp_integrity_size rx)) (pd_stats_update f rx))"
    using pdcp_recv_peer [OF env Cons.prems(4) u r Cons.prems(5) near(1,2)] unfolding if_not_P [OF near(3)] by blast
  let ?s = "nr_pdcp_new_sdu (pd_tx_next tx) u mi"
  obtain rx1 where a: "pdcp_accept_sdu ?s (int (length u + pdcp_integrity_size rx)) (pd_stats_update f rx) = (rx1, [?s])"
    and rx1: "pd_rx_list rx1 = []" "pd_rx_deliv rx1 = pd_rx_deliv rx + 1" "\<not> pd_entity_suspended rx1"
    using pdcp_accept_next [of "pd_stats_update f rx" ?s "int (length u + pdcp_integrity_size rx)"] Cons.prems(5,6,7)
    by (auto simp: nr_pdcp_new_sdu_def)
  have st: "pdcp_static rx1 = pdcp_static rx" using pdcp_accept_static [OF a] by simp
  have "pdcp_peers tx1 rx1" using Cons.prems(4) pdcp_peers_static [OF t1(4) st] by simp
  moreover have "pd_tx_next tx1 = pd_tx_next tx + 1" using pdcp_process_next(1) [OF r] .
  then have "pd_rx_deliv rx1 = pd_tx_next tx1" using rx1(2) Cons.prems(7) by simp
  ultimately obtain tx' pdus where s: "pdcp_send env us tx1 = Inr (tx', pdus)" "length pdus = length us"
    "\<forall>i < length us. length (pdus ! i) \<le> length (us ! i) + 7 \<and> pdus ! i \<noteq> []"
    and rest: "\<forall>k. \<exists>rx' out. pdcp_run env (map RecvPdu (take k pdus)) rx1 = Inr (rx', out, []) \<and> map su_buffer out = take k us"
    using Cons.IH [OF t1(1,2,3)] rx1 by blast
  have "length pdu \<le> length u + 7 \<and> pdu \<noteq> []"
  proof -
    obtain rest where "pdu = pdcp_header tx (uint (pd_tx_next tx) AND pd_sn_max tx) @ rest"
      "length rest = length u + pdcp_integrity_size tx"
      using pdcp_pdu_shape [OF env Cons.prems(4) u r] by metis
    then have "length pdu = pdcp_header_size tx + (length u + pdcp_integrity_size tx)" by simp
    then show ?thesis using pdcp_pdu_length [of tx "length u" tx] by (auto simp: pdcp_header_size_def split: if_splits)
  qed
  then have "\<forall>i < length (u # us). length ((pdu # pdus) ! i) \<le> length ((u # us) ! i) + 7 \<and> (pdu # pdus) ! i \<noteq> []"
    using s(3) by (auto simp: nth_Cons split: nat.splits)
  moreover have "\<exists>rx' out. pdcp_run env (map RecvPdu (take k (pdu # pdus))) rx = Inr (rx', out, []) \<and>
      map su_buffer out = take k (u # us)" for k
  proof (cases k)
    case (Suc j)
    then obtain rx' out where "pdcp_run env (map RecvPdu (take j pdus)) rx1 = Inr (rx', out, [])" "map su_buffer out = take j us"
      using rest by blast
    then show ?thesis using Suc v a by (simp add: pdcp_step_def nr_pdcp_new_sdu_def)
  qed simp
  ultimately show ?case using r s(1,2) by (intro exI [of _ tx'] exI [of _ "pdu # pdus"]) simp
qed simp

section \<open>Properties\<close>

text \<open>C16: Over a channel that may lose, repeat, delay and reorder PDUs, while the clock runs, the
  receiver never fails and delivers SDUs of the sender only, unchanged, in the order in which they
  were given to the sender and each at most once; with and without integrity protection and
  ciphering, by SNOW 3G or by AES. At most half the range of sequence numbers is in flight.\<close>

theorem pdcp_channel_sound:
  assumes "env_ok env" "pdcp_ok tx" "\<not> pd_entity_suspended tx" "pdcp_sendable tx us"
    and "pdcp_peers tx rx" "pdcp_ok rx" "\<not> pd_entity_suspended rx" "pd_rx_list rx = []" "pd_t_reordering_start rx = 0"
    and "pd_rx_deliv rx = pd_tx_next tx" "pd_rx_next rx \<le> pd_tx_next tx" "int (length us) \<le> pd_window_size rx"
    and "pdcp_send env us tx = Inr (tx', pdus)" "list_all (pdcp_channel_op pdus) xs"
  shows "\<exists>rx' out. pdcp_run env xs rx = Inr (rx', out, []) \<and> sorted_wrt (<) (counts out) \<and>
    (\<forall>s \<in> set out. \<exists>i < length us. uint (su_count s) = uint (pd_tx_next tx) + int i \<and> su_buffer s = us ! i)"
proof -
  let ?base = "uint (pd_tx_next tx)"
  have bound: "?base + int (length us) < 2 ^ 32" using assms(4) by (auto simp: pdcp_sendable_def split: if_splits)
  have us: "\<forall>u \<in> set us. of_bool (pd_has_sdap_tx tx) < length u \<and> length u < 2 ^ 27"
    using assms(4) by (simp add: pdcp_sendable_def)
  have win: "pdcp_rx_window ?base us rx"
    using assms(6-11) by (simp add: pdcp_rx_window_def pdcp_ok_def word_le_def)
  obtain tx'' pdus' where "pdcp_send env us tx = Inr (tx'', pdus')" "length pdus' = length us"
    "\<forall>i < length us. \<exists>txi txi'. pdcp_static txi = pdcp_static tx \<and> uint (pd_tx_next txi) = ?base + int i \<and>
       nr_pdcp_entity_process_sdu env (us ! i) (nr_max_pdcp_pdu_size (int (length (us ! i)))) txi = Inr (txi', Some (pdus' ! i))"
    using pdcp_send_spec [OF assms(1-4)] by blast
  with assms(13) have s: "length pdus = length us"
    "\<forall>i < length us. \<exists>txi txi'. pdcp_static txi = pdcp_static tx \<and> uint (pd_tx_next txi) = ?base + int i \<and>
       nr_pdcp_entity_process_sdu env (us ! i) (nr_max_pdcp_pdu_size (int (length (us ! i)))) txi = Inr (txi', Some (pdus ! i))"
    by auto
  obtain rx' out where r: "pdcp_run env xs rx = Inr (rx', out, [])" "\<forall>s \<in> set out. pdcp_from ?base us s"
    using pdcp_channel_run [OF assms(1) bound assms(12,5) s(1) us s(2) win assms(14)] by blast
  have "- 1 \<notin> set (counts out)"
  proof
    assume "- 1 \<in> set (counts out)"
    then obtain s where "s \<in> set out" "su_count s = - 1" by force
    with r(2) obtain i where "i < length us" "uint (- 1 :: u32) = ?base + int i" by (auto simp: pdcp_from_def)
    moreover have "uint (- 1 :: u32) = 2 ^ 32 - 1" by (simp add: unsigned_minus_1_eq_mask mask_eq_exp_minus_1)
    ultimately show False using bound by linarith
  qed
  moreover have "list_all (pdcp_keeps_order (pd_type rx)) xs"
    using assms(14) by (rule list.pred_mono_strong) (auto simp: pdcp_channel_op_def pdcp_keeps_order_def split: pdcp_op.splits)
  ultimately have "sorted_wrt (<) (counts out)"
    using pdcp_run_order [OF _ r(1)] assms(6) by (simp add: pdcp_ok_def delivers_between_def)
  with r show ?thesis by (auto simp: pdcp_from_def)
qed

lemma pdcp_test_peers: "pdcp_peers (pdcp_test_entity type True 1 1) (pdcp_test_entity type False 1 1)"
  by (simp add: pdcp_peers_def pdcp_cfg_def pdcp_test_entity_def pdcp_params_def new_nr_pdcp_entity_def
      nr_pdcp_entity_set_security_def pdcp_set_integrity_def pdcp_set_ciphering_def pdcp_set_keys_def)

lemma pdcp_test_entity_fields:
  "pd_rx_list (pdcp_test_entity type g 1 1) = []" "\<not> pd_entity_suspended (pdcp_test_entity type g 1 1)"
  "pd_t_reordering_start (pdcp_test_entity type g 1 1) = 0" "pd_rx_deliv (pdcp_test_entity type g 1 1) = 0"
  "pd_rx_next (pdcp_test_entity type g 1 1) = 0" "pd_tx_next (pdcp_test_entity type g 1 1) = 0"
  "pd_window_size (pdcp_test_entity type g 1 1) = 2048" "\<not> pdcp_uses_aes (pdcp_test_entity type g 1 1)"
  "\<not> pd_has_sdap_tx (pdcp_test_entity type g 1 1)"
  by (simp_all add: pdcp_uses_aes_def pdcp_test_entity_def pdcp_params_def new_nr_pdcp_entity_def
      nr_pdcp_entity_set_security_def pdcp_set_integrity_def pdcp_set_ciphering_def pdcp_set_keys_def)

lemma pdcp_test_sendable:
  "\<forall>u \<in> set us. u \<noteq> [] \<and> length u < 2 ^ 27 \<Longrightarrow> length us < 2 ^ 32 \<Longrightarrow> pdcp_sendable (pdcp_test_entity type g 1 1) us"
  using pdcp_test_entity_fields [of type g] by (auto simp: pdcp_sendable_def)

theorem pdcp_channel_sound_witness:
  "\<exists>tx' pdus rx' out. pdcp_send pdcp_test_env [[1, 2], [3]] (pdcp_test_entity NR_PDCP_DRB_AM True 1 1) = Inr (tx', pdus) \<and>
     pdcp_run pdcp_test_env [RecvPdu (pdus ! 1), SetTime 7, RecvPdu (pdus ! 0), RecvPdu (pdus ! 1)]
       (pdcp_test_entity NR_PDCP_DRB_AM False 1 1) = Inr (rx', out, []) \<and>
     sorted_wrt (<) (counts out) \<and> (\<forall>s \<in> set out. su_buffer s \<in> {[1, 2], [3]})"
proof -
  let ?tx = "pdcp_test_entity NR_PDCP_DRB_AM True 1 1" and ?rx = "pdcp_test_entity NR_PDCP_DRB_AM False 1 1"
  let ?us = "[[1, 2], [3]] :: byte list list"
  note f = pdcp_test_entity_fields
  have ok: "pdcp_ok ?tx" "pdcp_ok ?rx" by (rule pdcp_test_entity_ok; simp)+
  have able: "pdcp_sendable ?tx ?us" by (rule pdcp_test_sendable) simp_all
  obtain tx' pdus where s: "pdcp_send pdcp_test_env ?us ?tx = Inr (tx', pdus)" "length pdus = length ?us"
    using pdcp_send_spec [OF pdcp_test_env_ok ok(1) f(2) able] by blast
  let ?xs = "[RecvPdu (pdus ! 1), SetTime 7, RecvPdu (pdus ! 0), RecvPdu (pdus ! 1)]"
  have xs: "list_all (pdcp_channel_op pdus) ?xs" using s(2) by (simp add: pdcp_channel_op_def)
  have w: "int (length ?us) \<le> pd_window_size ?rx" using f(7) by simp
  have z: "pd_rx_deliv ?rx = pd_tx_next ?tx" "pd_rx_next ?rx \<le> pd_tx_next ?tx" using f(4-6) by simp_all
  from pdcp_channel_sound [OF pdcp_test_env_ok ok(1) f(2) able pdcp_test_peers ok(2) f(2,1,3) z w s(1) xs] s(1)
  show ?thesis by (fastforce simp: less_Suc_eq nth_Cons')
qed

end
