(* ===== verification/PdcpOverRlc.thy ===== *)
theory PdcpOverRlc
  imports RlcUmStream PdcpChannel
begin

text \<open>
  The user plane from PDCP to PDCP: the PDUs of a PDCP sender are the SDUs of a UM entity of RLC, its
  transport blocks reach the UM entity of the peer, and what that delivers are the PDUs of the PDCP
  receiver (\<open>deliver_sdu\<close> of \<open>nr_rlc_oai_api.c\<close>, \<open>do_pdcp_data_ind\<close> of \<open>nr_pdcp_oai_api.c\<close>).
\<close>

text \<open>What RLC delivers is received by PDCP.\<close>

definition pdcp_data_ind :: "rlc_event list \<Rightarrow> pdcp_op list" where
  "pdcp_data_ind evs = concat (map (\<lambda>ev. case ev of DeliverSdu b \<Rightarrow> [pdcp_op.RecvPdu b] | _ \<Rightarrow> []) evs)"

lemma pdcp_data_ind_deliver [simp]: "pdcp_data_ind (map DeliverSdu bs) = map pdcp_op.RecvPdu bs"
  by (induction bs) (auto simp: pdcp_data_ind_def)

lemma length_concat_le:
  "length bs = length us \<Longrightarrow> \<forall>i < length us. length (bs ! i) \<le> length (us ! i) + 7 \<Longrightarrow>
   length (concat bs) \<le> length (concat us) + 7 * length us"
proof (induction bs arbitrary: us)
  case (Cons b bs)
  then obtain u us' where us: "us = u # us'" by (cases us) auto
  have "length b \<le> length u + 7" using Cons.prems(2) us by force
  moreover have "\<forall>i < length us'. length (bs ! i) \<le> length (us' ! i) + 7" using Cons.prems(2) us by force
  ultimately show ?case using Cons.IH [of us'] Cons.prems(1) us by simp
qed simp

text \<open>C15: The user plane over RLC in unacknowledged mode, from the upper layer of one PDCP entity to
  the upper layer of its peer: while no transport block is lost and none has less than three bytes, the
  receiving PDCP entity delivers the first SDUs of the sender, in order, each once and unchanged; and
  all of them, when the blocks have five bytes or more and there are enough of them. (A block of two bytes can cost an
  SDU: \<open>um_small_block_loses_sdu\<close>.)\<close>

theorem pdcp_over_rlc_um:
  assumes "env_ok env" "pdcp_ok tx" "\<not> pd_entity_suspended tx" "pdcp_sendable tx us" "pdcp_peers tx rx"
    and "\<not> pd_entity_suspended rx" "pd_rx_list rx = []" "pd_rx_deliv rx = pd_tx_next tx"
    and "new_nr_rlc_entity_um rmax1 tmax1 t1 len = Inr es" "0 \<le> rmax1" "0 \<le> tmax1"
    and "new_nr_rlc_entity_um rmax2 tmax2 t2 len = Inr er" "0 \<le> rmax2" "0 \<le> tmax2"
    and "\<forall>u \<in> set us. int (length u) + 7 \<le> NR_SDU_MAX \<and> int (length u) + 7 \<le> rmax2"
    and "int (length (concat us) + 7 * length us) \<le> tmax1" "\<forall>n \<in> set ns. 3 \<le> n"
  shows "\<exists>tx' pdus es1 es' er' rx' out k.
    pdcp_send env us tx = Inr (tx', pdus) \<and>
    um_feed pdus es = Inr es1 \<and> um_transfer ns es1 er = Inr (es', er') \<and>
    pdcp_run env (pdcp_data_ind (events (um_common er'))) rx = Inr (rx', out, []) \<and>
    map su_buffer out = take k us \<and>
    ((\<forall>n \<in> set ns. 5 \<le> n) \<and> length (concat us) + 7 * length us \<le> length ns \<longrightarrow> map su_buffer out = us)"
proof -
  obtain tx' pdus where s: "pdcp_send env us tx = Inr (tx', pdus)" "length pdus = length us"
    and l: "\<forall>i < length us. length (pdus ! i) \<le> length (us ! i) + 7 \<and> pdus ! i \<noteq> []"
    and rest: "\<forall>k. \<exists>rx' out. pdcp_run env (map pdcp_op.RecvPdu (take k pdus)) rx = Inr (rx', out, []) \<and> map su_buffer out = take k us"
    using pdcp_link_run [OF assms(1-8)] by blast
  have D: "\<forall>D \<in> set pdus. D \<noteq> [] \<and> int (length D) \<le> NR_SDU_MAX \<and> int (length D) \<le> rmax2"
  proof
    fix D assume "D \<in> set pdus"
    then obtain i where i: "i < length us" "D = pdus ! i" using s(2) by (auto simp: in_set_conv_nth)
    then have "length D \<le> length (us ! i) + 7" "D \<noteq> []" "us ! i \<in> set us" using l by auto
    with assms(15) show "D \<noteq> [] \<and> int (length D) \<le> NR_SDU_MAX \<and> int (length D) \<le> rmax2" by fastforce
  qed
  have c: "length (concat pdus) \<le> length (concat us) + 7 * length us"
    using length_concat_le [OF s(2)] l by blast
  then have "int (length (concat pdus)) \<le> tmax1" using assms(16) by linarith
  from um_end_to_end [OF assms(9-14) D this assms(17)] obtain es1 es' er' k where
    u: "um_feed pdus es = Inr es1" "um_transfer ns es1 er = Inr (es', er')" "um_queued es' = drop k pdus"
      "events (um_common er') = map DeliverSdu (take k pdus)"
      "(\<forall>n \<in> set ns. 5 \<le> n) \<and> length (concat pdus) \<le> length ns \<longrightarrow> um_queued es' = []" by blast
  obtain rx' out where r: "pdcp_run env (map pdcp_op.RecvPdu (take k pdus)) rx = Inr (rx', out, [])" "map su_buffer out = take k us"
    using rest by blast
  have "map su_buffer out = us" if "(\<forall>n \<in> set ns. 5 \<le> n) \<and> length (concat us) + 7 * length us \<le> length ns"
    using that u(3,5) c s(2) r(2) by auto
  with s u r show ?thesis by (intro exI [of _ tx'] exI [of _ pdus] exI [of _ es1] exI [of _ es'] exI [of _ er']
      exI [of _ rx'] exI [of _ out] exI [of _ k]) simp
qed

theorem pdcp_over_rlc_um_witness:
  "\<exists>tx' pdus es1 es' er' rx' out.
    pdcp_send pdcp_test_env [[1, 2], [3]] (pdcp_test_entity NR_PDCP_DRB_UM True 1 1) = Inr (tx', pdus) \<and>
    um_feed pdus um_fresh = Inr es1 \<and> um_transfer (replicate 20 9) es1 um_fresh = Inr (es', er') \<and>
    pdcp_run pdcp_test_env (pdcp_data_ind (events (um_common er'))) (pdcp_test_entity NR_PDCP_DRB_UM False 1 1) = Inr (rx', out, []) \<and>
    map su_buffer out = [[1, 2], [3]]"
proof -
  let ?tx = "pdcp_test_entity NR_PDCP_DRB_UM True 1 1" and ?rx = "pdcp_test_entity NR_PDCP_DRB_UM False 1 1"
  let ?us = "[[1, 2], [3]] :: byte list list"
  note f = pdcp_test_entity_fields
  have ok: "pdcp_ok ?tx" by (rule pdcp_test_entity_ok; simp)
  have able: "pdcp_sendable ?tx ?us" by (rule pdcp_test_sendable) simp_all
  have z: "pd_rx_deliv ?rx = pd_tx_next ?tx" using f(4,6) by simp
  from pdcp_over_rlc_um [OF pdcp_test_env_ok ok f(2) able pdcp_test_peers f(2,1) z um_fresh_eq _ _ um_fresh_eq,
      of "replicate 20 9"]
  show ?thesis by (force simp: NR_SDU_MAX_def)
qed

end
