(* ===== verification/KeyedTable.thy ===== *)
theory KeyedTable
  imports Prelude
begin

text \<open>
  Tables of entries found by a key: the UE managers of RLC and PDCP and the list of SDAP entities are
  such tables, each with its own code. The interface they share is stated here once, with what its
  users rely on; lists whose keys are distinct are its common representation.
\<close>

section \<open>Lists with distinct keys\<close>

definition content_of :: "('e \<Rightarrow> 'k) \<Rightarrow> 'e list \<Rightarrow> 'k \<Rightarrow> 'e option" where
  "content_of key l = map_of (map (\<lambda>e. (key e, e)) l)"

text \<open>A write through the pointer to the entry with the same key.\<close>

definition store_by :: "('e \<Rightarrow> 'k) \<Rightarrow> 'e \<Rightarrow> 'e list \<Rightarrow> 'e list" where
  "store_by key e = map (\<lambda>x. if key x = key e then e else x)"

lemma content_of_Nil [simp]: "content_of key [] k = None"
  by (simp add: content_of_def)

lemma content_of_Cons: "content_of key (e # l) k = (if key e = k then Some e else content_of key l k)"
  by (simp add: content_of_def)

lemma content_of_None_iff: "content_of key l k = None \<longleftrightarrow> k \<notin> key ` set l"
  by (induction l) (auto simp: content_of_Cons)

lemma content_of_SomeD: "content_of key l k = Some e \<Longrightarrow> e \<in> set l \<and> key e = k"
  by (induction l) (auto simp: content_of_Cons split: if_splits)

lemma content_of_SomeI: "distinct (map key l) \<Longrightarrow> e \<in> set l \<Longrightarrow> content_of key l (key e) = Some e"
  by (induction l) (auto simp: content_of_Cons image_iff)

lemma content_of_append:
  "content_of key (l @ r) k = (case content_of key l k of Some e \<Rightarrow> Some e | None \<Rightarrow> content_of key r k)"
  by (induction l) (auto simp: content_of_Cons)

lemma keys_store_by [simp]: "map key (store_by key e l) = map key l"
  by (auto simp: store_by_def)

lemma length_store_by [simp]: "length (store_by key e l) = length l"
  by (simp add: store_by_def)

lemma content_of_store_by:
  "content_of key (store_by key e l) k =
     (if k = key e \<and> k \<in> key ` set l then Some e else content_of key l k)"
  by (induction l) (auto simp: store_by_def content_of_Cons)

lemma content_of_filter:
  "content_of key (filter (\<lambda>e. key e \<noteq> k) l) = (content_of key l)(k := None)"
  by (rule ext, induction l) (auto simp: content_of_Cons)

lemma distinct_key_filter: "distinct (map key l) \<Longrightarrow> distinct (map key (filter P l))"
  by (induction l) auto

section \<open>The interface\<close>

text \<open>
  \<open>content\<close> is the table as a map; \<open>find\<close> returns the entry of a key, \<open>put\<close> changes an entry that is
  in the table, \<open>delete\<close> removes one.
\<close>

locale keyed_table =
  fixes ok :: "'t \<Rightarrow> bool"
    and content :: "'t \<Rightarrow> 'k \<Rightarrow> 'e option"
    and key :: "'e \<Rightarrow> 'k"
    and find :: "'k \<Rightarrow> 't \<Rightarrow> 'e option"
    and put :: "'e \<Rightarrow> 't \<Rightarrow> 't"
    and delete :: "'k \<Rightarrow> 't \<Rightarrow> 't"
  assumes find_content: "ok t \<Longrightarrow> find k t = content t k"
    and find_key: "ok t \<Longrightarrow> content t k = Some e \<Longrightarrow> key e = k"
    and put_ok: "ok t \<Longrightarrow> content t (key e) \<noteq> None \<Longrightarrow>
      ok (put e t) \<and> content (put e t) = (content t)(key e \<mapsto> e)"
    and delete_ok: "ok t \<Longrightarrow> ok (delete k t) \<and> content (delete k t) = (content t)(k := None)"
begin

lemma find_put: "ok t \<Longrightarrow> find (key e) t \<noteq> None \<Longrightarrow> find k (put e t) = (if k = key e then Some e else find k t)"
  using put_ok [of t e] find_content [of t "key e"] find_content [of t k] find_content [of "put e t" k] by simp

lemma find_delete: "ok t \<Longrightarrow> find k' (delete k t) = (if k' = k then None else find k' t)"
  using delete_ok [of t k] find_content [of t k'] find_content [of "delete k t" k'] by simp

end

text \<open>A table whose \<open>fetch\<close> creates the entry when there is none.\<close>

locale keyed_directory = keyed_table ok content key find put delete
  for ok :: "'t \<Rightarrow> bool" and content :: "'t \<Rightarrow> 'k \<Rightarrow> 'e option" and key :: "'e \<Rightarrow> 'k"
    and find :: "'k \<Rightarrow> 't \<Rightarrow> 'e option" and put :: "'e \<Rightarrow> 't \<Rightarrow> 't" and delete :: "'k \<Rightarrow> 't \<Rightarrow> 't" +
  fixes fresh :: "'k \<Rightarrow> 'e"
    and fetch :: "'k \<Rightarrow> 't \<Rightarrow> 't \<times> 'e"
  assumes fetch_ok: "ok t \<Longrightarrow> fetch k t = (t', e) \<Longrightarrow>
      ok t' \<and> e = (case content t k of Some x \<Rightarrow> x | None \<Rightarrow> fresh k) \<and> content t' = (content t)(k \<mapsto> e)"
    and fresh_key: "key (fresh k) = k"
begin

lemma fetched_key: "ok t \<Longrightarrow> fetch k t = (t', e) \<Longrightarrow> key e = k"
  using fetch_ok [of t k t' e] find_key [of t k] fresh_key [of k] by (auto split: option.splits)

text \<open>
  What every function of the API does: fetch the entry of a UE, change it. Only that entry changes,
  and it is there afterwards.
\<close>

lemma access_ok:
  assumes "ok t" "fetch k t = (t', e)" "key e' = k"
  shows "ok (put e' t') \<and> content (put e' t') = (content t)(k \<mapsto> e')"
  using put_ok [of t' e'] fetch_ok [OF assms(1,2)] assms(3) by simp

lemma access_find:
  assumes "ok t" "fetch k t = (t', e)" "key e' = k"
  shows "find k' (put e' t') = (if k' = k then Some e' else find k' t)"
  using access_ok [OF assms] find_content [of "put e' t'" k'] find_content [OF assms(1), of k'] by simp

text \<open>After an access the entry that is fetched is the one that was stored.\<close>

lemma fetch_after_access:
  assumes "ok t" "fetch k t = (t', e)" "key e' = k" "fetch k (put e' t') = (t'', x)"
  shows "x = e' \<and> content t'' = content (put e' t')"
  using access_ok [OF assms(1-3)] fetch_ok [of "put e' t'" k t'' x] assms(4) by auto

end

end
