(* ===== verification/Sdap.thy ===== *)
theory Sdap
  imports KeyedTable
begin

unbundle bit_operations_syntax

text \<open>
  \<open>openair2/SDAP/nr_sdap/nr_sdap_entity.c\<close>, \<open>nr_sdap_entity.h\<close> and \<open>nr_sdap.c\<close>: the mapping of QoS
  flows to bearers, SDAP headers, the list of entities. What SDAP asks of other layers is an event:
  a call of \<open>nr_pdcp_data_req_drb\<close>, a message to GTP-U, a write to the interface of the UE. LOG output
  is left out.
\<close>

section \<open>Data\<close>

record qfi2drb =
  qd_drb_id :: int
  qd_has_sdap_rx :: bool
  qd_has_sdap_tx :: bool

record nr_sdap_entity =
  sd_ue_id :: u64
  sd_default_drb :: int
  sd_pdusession_id :: int
  sd_table :: "qfi2drb list"

datatype sdap_event =
    PdcpDataReq int "byte list"
  | GtpuDataReq u64 int "byte list"
  | NasWrite "byte list"

text \<open>
  The fields the code uses of \<open>NR_SDAP_Config_t\<close>, a type generated from ASN.1: which headers are
  present, and the two lists of flows (\<open>None\<close> is the null pointer).
\<close>

record sdap_config =
  sc_header_ul_present :: bool
  sc_header_dl_present :: bool
  sc_flows_to_add :: "int list option"
  sc_flows_to_release :: "int list option"

definition is_sdap_rx :: "bool \<Rightarrow> sdap_config \<Rightarrow> bool" where
  "is_sdap_rx is_gnb c = (if is_gnb then sc_header_ul_present c else sc_header_dl_present c)"

definition is_sdap_tx :: "bool \<Rightarrow> sdap_config \<Rightarrow> bool" where
  "is_sdap_tx is_gnb c = (if is_gnb then sc_header_dl_present c else sc_header_ul_present c)"

text \<open>The bit fields of the headers, the lowest bits first.\<close>

definition sdap_dl_hdr :: "byte \<Rightarrow> bool \<Rightarrow> bool \<Rightarrow> byte" where
  "sdap_dl_hdr QFI RQI RDI = (QFI AND 0x3F) OR (if RQI then 0x40 else 0) OR (if RDI then 0x80 else 0)"

definition sdap_ul_hdr :: "byte \<Rightarrow> bool \<Rightarrow> bool \<Rightarrow> byte" where
  "sdap_ul_hdr QFI R DC = (QFI AND 0x3F) OR (if R then 0x40 else 0) OR (if DC then 0x80 else 0)"

definition sdap_hdr_QFI :: "byte \<Rightarrow> byte" where
  "sdap_hdr_QFI h = h AND 0x3F"

section \<open>Mapping of QoS flows\<close>

text \<open>An access to \<open>qfi2drb_table\<close>, an array of 64 rules.\<close>

definition sdap_rule :: "nr_sdap_entity \<Rightarrow> byte \<Rightarrow> qfi2drb res" where
  "sdap_rule e qfi = (if unat qfi < 64 then Inr (sd_table e ! unat qfi) else Inl OutOfBounds)"

definition nr_sdap_qfi2drb_map_update ::
  "byte \<Rightarrow> int \<Rightarrow> bool \<Rightarrow> bool \<Rightarrow> nr_sdap_entity \<Rightarrow> nr_sdap_entity" where
  "nr_sdap_qfi2drb_map_update qfi drb has_sdap_rx has_sdap_tx e =
     (if unat qfi < 64 \<and> unat qfi > 0 \<and> drb > 0 \<and> drb \<le> 5
      then e\<lparr>sd_table := (sd_table e)[unat qfi :=
             \<lparr>qd_drb_id = drb, qd_has_sdap_rx = has_sdap_rx, qd_has_sdap_tx = has_sdap_tx\<rparr>]\<rparr>
      else e)"

definition nr_sdap_qfi2drb_map_del :: "byte \<Rightarrow> nr_sdap_entity \<Rightarrow> nr_sdap_entity res" where
  "nr_sdap_qfi2drb_map_del qfi e =
     res_bind (sdap_rule e qfi) (\<lambda>r.
       Inr (e\<lparr>sd_table := (sd_table e)[unat qfi := r\<lparr>qd_drb_id := 0\<rparr>]\<rparr>))"

definition nr_sdap_qfi2drb_map :: "byte \<Rightarrow> nr_sdap_entity \<Rightarrow> (nr_sdap_entity \<times> int) res" where
  "nr_sdap_qfi2drb_map qfi e =
     res_bind (sdap_rule e qfi) (\<lambda>r.
       if qd_drb_id r \<noteq> 0 then Inr (e, qd_drb_id r)
       else if sd_default_drb e \<noteq> 0
       then Inr (nr_sdap_qfi2drb_map_update qfi (sd_default_drb e) (qd_has_sdap_rx r) (qd_has_sdap_tx r) e,
                 sd_default_drb e)
       else Inr (e, 0))"

section \<open>End markers\<close>

definition nr_sdap_construct_ctrl_pdu :: "byte \<Rightarrow> byte" where
  "nr_sdap_construct_ctrl_pdu qfi = sdap_ul_hdr qfi False False"

text \<open>\<open>map_type\<close> is \<open>SDAP_CTRL_PDU_MAP_DEF_DRB\<close> (0) or \<open>SDAP_CTRL_PDU_MAP_RULE_DRB\<close> (1).\<close>

definition nr_sdap_map_ctrl_pdu :: "int \<Rightarrow> byte \<Rightarrow> nr_sdap_entity \<Rightarrow> (nr_sdap_entity \<times> int) res" where
  "nr_sdap_map_ctrl_pdu map_type dl_qfi e =
     (if map_type = 1 then nr_sdap_qfi2drb_map dl_qfi e
      else Inr (e, if map_type = 0 then sd_default_drb e else 0))"

definition nr_sdap_submit_ctrl_pdu :: "int \<Rightarrow> byte \<Rightarrow> sdap_event list" where
  "nr_sdap_submit_ctrl_pdu drb ctrl_pdu = (if drb \<noteq> 0 then [PdcpDataReq drb [ctrl_pdu]] else [])"

text \<open>Constructed, mapped, submitted.\<close>

definition sdap_end_marker :: "int \<Rightarrow> byte \<Rightarrow> nr_sdap_entity \<Rightarrow> (nr_sdap_entity \<times> sdap_event list) res" where
  "sdap_end_marker map_type qfi e =
     res_bind (nr_sdap_map_ctrl_pdu map_type qfi e) (\<lambda>(e1, drb).
       Inr (e1, nr_sdap_submit_ctrl_pdu drb (nr_sdap_construct_ctrl_pdu qfi)))"

section \<open>Transmission and reception\<close>

text \<open>
  The one request to PDCP, whose result is the result of the function; \<open>None\<close> where it returns 0
  without one.
\<close>

definition nr_sdap_tx_entity ::
  "bool \<Rightarrow> int \<Rightarrow> byte list \<Rightarrow> byte \<Rightarrow> bool \<Rightarrow> nr_sdap_entity \<Rightarrow> (nr_sdap_entity \<times> (int \<times> byte list) option) res" where
  "nr_sdap_tx_entity enb_flag rb_id sdu qfi rqi e =
     res_bind (nr_sdap_qfi2drb_map qfi e) (\<lambda>(e1, pdcp_entity).
     res_bind (if pdcp_entity \<noteq> 0
               then res_bind (sdap_rule e1 qfi) (\<lambda>r. Inr (pdcp_entity, qd_has_sdap_tx r))
               else Inr (rb_id, False)) (\<lambda>(sdap_drb_id, has_sdap).
     if \<not> has_sdap then Inr (e1, Some (sdap_drb_id, sdu))
     else if length sdu = 0 \<or> length sdu > 8999 then Inr (e1, None)
     else if enb_flag then Inr (e1, Some (sdap_drb_id, sdap_dl_hdr qfi rqi False # sdu))
     else Inr (e1, Some (sdap_drb_id, sdap_ul_hdr qfi False rqi # sdu))))"

text \<open>Reflective mapping, for a downlink PDU with the bit RDI.\<close>

definition sdap_reflective :: "int \<Rightarrow> byte \<Rightarrow> nr_sdap_entity \<Rightarrow> (nr_sdap_entity \<times> sdap_event list) res" where
  "sdap_reflective pdcp_entity qfi e =
     res_bind (sdap_rule e qfi) (\<lambda>r.
     res_bind (if qd_drb_id r = 0 \<and> sd_default_drb e \<noteq> 0 then sdap_end_marker 0 qfi e else Inr (e, []))
       (\<lambda>(e1, evs1).
     res_bind (sdap_rule e1 qfi) (\<lambda>r1.
     res_bind (if pdcp_entity \<noteq> qd_drb_id r1 then sdap_end_marker 1 qfi e1 else Inr (e1, []))
       (\<lambda>(e2, evs2).
     res_bind (sdap_rule e2 qfi) (\<lambda>r2.
     Inr (e2\<lparr>sd_table := (sd_table e2)[unat qfi := r2\<lparr>qd_drb_id := pdcp_entity\<rparr>]\<rparr>, evs1 @ evs2))))))"

definition nr_sdap_rx_entity ::
  "int \<Rightarrow> bool \<Rightarrow> bool \<Rightarrow> int \<Rightarrow> u64 \<Rightarrow> byte list \<Rightarrow> nr_sdap_entity \<Rightarrow> (nr_sdap_entity \<times> sdap_event list) res" where
  "nr_sdap_rx_entity pdcp_entity is_gnb has_sdap_rx pdusession_id ue_id buf e =
     (if has_sdap_rx \<and> buf = [] then Inl OutOfBounds
      else
        let sdu = (if has_sdap_rx then drop 1 buf else buf)
        in if is_gnb then Inr (e, [GtpuDataReq ue_id pdusession_id sdu])
           else res_bind (if has_sdap_rx \<and> bit (buf ! 0) 7 then sdap_reflective pdcp_entity (sdap_hdr_QFI (buf ! 0)) e
                          else Inr (e, []))
                  (\<lambda>(e1, evs). Inr (e1, evs @ [NasWrite sdu])))"

section \<open>Configuration\<close>

text \<open>
  One flow of the list. \<open>mapped\<close> is the memory the pointer to the flows points to, of which \<open>n\<close> more
  are read from index \<open>i\<close> on.
\<close>

definition sdap_config_flow ::
  "byte \<Rightarrow> int \<Rightarrow> bool \<Rightarrow> bool \<Rightarrow> nr_sdap_entity \<Rightarrow> (nr_sdap_entity \<times> sdap_event list) res" where
  "sdap_config_flow qfi drb_identity has_sdap_rx has_sdap_tx e =
     res_bind (if sd_default_drb e \<noteq> 0
               then res_bind (sdap_rule e qfi) (\<lambda>r. if qd_drb_id r = 0 then sdap_end_marker 0 qfi e else Inr (e, []))
               else Inr (e, [])) (\<lambda>(e1, evs1).
     res_bind (sdap_rule e1 qfi) (\<lambda>r1.
     res_bind (if qd_drb_id r1 \<noteq> drb_identity \<and> qd_has_sdap_tx r1 then sdap_end_marker 1 qfi e1 else Inr (e1, []))
       (\<lambda>(e2, evs2).
     Inr (nr_sdap_qfi2drb_map_update qfi drb_identity has_sdap_rx has_sdap_tx e2, evs1 @ evs2))))"

fun sdap_config_loop ::
  "int list \<Rightarrow> nat \<Rightarrow> nat \<Rightarrow> int \<Rightarrow> bool \<Rightarrow> bool \<Rightarrow> nr_sdap_entity \<Rightarrow> (nr_sdap_entity \<times> sdap_event list) res" where
  "sdap_config_loop mapped i 0 drb rx tx e = Inr (e, [])"
| "sdap_config_loop mapped i (Suc n) drb rx tx e =
     (if i \<ge> length mapped then Inl OutOfBounds
      else res_bind (sdap_config_flow (word_of_int (mapped ! i)) drb rx tx e) (\<lambda>(e1, evs1).
           res_bind (sdap_config_loop mapped (Suc i) n drb rx tx e1) (\<lambda>(e2, evs2). Inr (e2, evs1 @ evs2))))"

definition nr_sdap_ue_qfi2drb_config ::
  "int list \<Rightarrow> byte \<Rightarrow> byte \<Rightarrow> bool \<Rightarrow> bool \<Rightarrow> nr_sdap_entity \<Rightarrow> (nr_sdap_entity \<times> sdap_event list) res" where
  "nr_sdap_ue_qfi2drb_config mapped count drb_identity has_sdap_rx has_sdap_tx e =
     sdap_config_loop mapped 0 (unat count) (uint drb_identity) has_sdap_rx has_sdap_tx e"

section \<open>The list of entities\<close>

definition sdap_key :: "nr_sdap_entity \<Rightarrow> u64 \<times> int" where
  "sdap_key e = (sd_ue_id e, sd_pdusession_id e)"

fun nr_sdap_get_entity :: "u64 \<Rightarrow> int \<Rightarrow> nr_sdap_entity list \<Rightarrow> nr_sdap_entity option" where
  "nr_sdap_get_entity ue_id pdusession_id [] = None"
| "nr_sdap_get_entity ue_id pdusession_id (e # l) =
     (if sd_ue_id e = ue_id \<and> sd_pdusession_id e = pdusession_id then Some e
      else nr_sdap_get_entity ue_id pdusession_id l)"

text \<open>The rules of a new entity with a default bearer.\<close>

fun sdap_default_rules ::
  "int list \<Rightarrow> nat \<Rightarrow> nat \<Rightarrow> bool \<Rightarrow> bool \<Rightarrow> nr_sdap_entity \<Rightarrow> nr_sdap_entity res" where
  "sdap_default_rules mapped i 0 rx tx e = Inr e"
| "sdap_default_rules mapped i (Suc n) rx tx e =
     (if i \<ge> length mapped then Inl OutOfBounds
      else sdap_default_rules mapped (Suc i) n rx tx
             (nr_sdap_qfi2drb_map_update (word_of_int (mapped ! i)) (sd_default_drb e) rx tx e))"

definition sdap_entity_zero :: "u64 \<Rightarrow> int \<Rightarrow> nr_sdap_entity" where
  "sdap_entity_zero ue_id pdusession_id =
     \<lparr>sd_ue_id = ue_id, sd_default_drb = 0, sd_pdusession_id = pdusession_id,
      sd_table = replicate 64 \<lparr>qd_drb_id = 0, qd_has_sdap_rx = False, qd_has_sdap_tx = False\<rparr>\<rparr>"

definition new_nr_sdap_entity ::
  "bool \<Rightarrow> bool \<Rightarrow> bool \<Rightarrow> u64 \<Rightarrow> int \<Rightarrow> bool \<Rightarrow> byte \<Rightarrow> int list \<Rightarrow> byte \<Rightarrow> nr_sdap_entity list \<Rightarrow>
   (nr_sdap_entity list \<times> sdap_event list) res" where
  "new_nr_sdap_entity is_gnb has_sdap_rx has_sdap_tx ue_id pdusession_id is_defaultDRB drb_identity mapped count l =
     (case nr_sdap_get_entity ue_id pdusession_id l of
        Some e \<Rightarrow>
          if is_gnb then Inr (l, [])
          else res_bind (nr_sdap_ue_qfi2drb_config mapped count drb_identity has_sdap_rx has_sdap_tx e) (\<lambda>(e1, evs).
                 Inr (store_by sdap_key e1 l, evs))
      | None \<Rightarrow>
          let e = sdap_entity_zero ue_id pdusession_id
          in res_bind (if is_defaultDRB
                       then sdap_default_rules mapped 0 (unat count) has_sdap_rx has_sdap_tx
                              (e\<lparr>sd_default_drb := uint drb_identity\<rparr>)
                       else Inr e) (\<lambda>e1. Inr (e1 # l, [])))"

definition nr_sdap_release_drb :: "u64 \<Rightarrow> int \<Rightarrow> int \<Rightarrow> nr_sdap_entity list \<Rightarrow> nr_sdap_entity list" where
  "nr_sdap_release_drb ue_id drb_id pdusession_id l =
     (case nr_sdap_get_entity ue_id pdusession_id l of
        Some e \<Rightarrow> store_by sdap_key
          (e\<lparr>sd_table := map (\<lambda>r. if qd_drb_id r = drb_id then r\<lparr>qd_drb_id := 0\<rparr> else r) (sd_table e)\<rparr>) l
      | None \<Rightarrow> l)"

text \<open>\<open>SDAP_MAX_NUM_OF_ENTITIES\<close>, with the 40 mobiles of the default build.\<close>

definition SDAP_MAX_NUM_OF_ENTITIES :: nat where
  "SDAP_MAX_NUM_OF_ENTITIES = 32 * 40"

text \<open>
  The search from the second entity on: \<open>n\<close> more steps are allowed, and an entity is unlinked only
  where the search stops.
\<close>

fun sdap_delete_loop :: "nat \<Rightarrow> u64 \<Rightarrow> int \<Rightarrow> nr_sdap_entity list \<Rightarrow> bool \<times> nr_sdap_entity list" where
  "sdap_delete_loop n ue_id pdusession_id [] = (False, [])"
| "sdap_delete_loop n ue_id pdusession_id (e # l) =
     (if sd_ue_id e = ue_id \<and> sd_pdusession_id e = pdusession_id then (True, l)
      else case n of
             0 \<Rightarrow> (False, e # l)
           | Suc m \<Rightarrow> (let (ret, l') = sdap_delete_loop m ue_id pdusession_id l in (ret, e # l')))"

definition nr_sdap_delete_entity ::
  "u64 \<Rightarrow> int \<Rightarrow> nr_sdap_entity list \<Rightarrow> (bool \<times> nr_sdap_entity list) res" where
  "nr_sdap_delete_entity ue_id pdusession_id l =
     (case l of
        [] \<Rightarrow> if pdusession_id * (pdusession_id - 256) > 0 then Inr (False, []) else Inl NullDeref
      | e # r \<Rightarrow> Inr (sdap_delete_loop SDAP_MAX_NUM_OF_ENTITIES ue_id pdusession_id (e # r)))"

text \<open>The entities of the UE at the head of the list, then the others.\<close>

fun sdap_delete_heads :: "u64 \<Rightarrow> nr_sdap_entity list \<Rightarrow> bool \<times> nr_sdap_entity list" where
  "sdap_delete_heads ue_id [] = (False, [])"
| "sdap_delete_heads ue_id (e # l) =
     (if sd_ue_id e = ue_id then (True, snd (sdap_delete_heads ue_id l)) else (False, e # l))"

fun sdap_delete_others :: "u64 \<Rightarrow> nr_sdap_entity list \<Rightarrow> bool \<times> nr_sdap_entity list" where
  "sdap_delete_others ue_id [] = (False, [])"
| "sdap_delete_others ue_id (e # l) =
     (let (ret, l') = sdap_delete_others ue_id l
      in if sd_ue_id e \<noteq> ue_id then (ret, e # l') else (True, l'))"

definition nr_sdap_delete_ue_entities :: "u64 \<Rightarrow> nr_sdap_entity list \<Rightarrow> bool \<times> nr_sdap_entity list" where
  "nr_sdap_delete_ue_entities ue_id l =
     (let (ret1, l1) = sdap_delete_heads ue_id l; (ret2, l2) = sdap_delete_others ue_id l1
      in (ret1 \<or> ret2, l2))"

text \<open>The first element of a list of ASN.1 is a pointer to one flow.\<close>

definition asn1_first :: "int list option \<Rightarrow> int list res" where
  "asn1_first flows = (case flows of Some (q # qs) \<Rightarrow> Inr [q] | _ \<Rightarrow> Inl NullDeref)"

fun sdap_release_flows :: "int list \<Rightarrow> nat \<Rightarrow> nat \<Rightarrow> nr_sdap_entity \<Rightarrow> nr_sdap_entity res" where
  "sdap_release_flows released i 0 e = Inr e"
| "sdap_release_flows released i (Suc n) e =
     (if i \<ge> length released then Inl OutOfBounds
      else res_bind (nr_sdap_qfi2drb_map_del (word_of_int (released ! i)) e)
             (sdap_release_flows released (Suc i) n))"

definition nr_reconfigure_sdap_entity ::
  "sdap_config \<Rightarrow> u64 \<Rightarrow> int \<Rightarrow> int \<Rightarrow> nr_sdap_entity list \<Rightarrow> (nr_sdap_entity list \<times> sdap_event list) res" where
  "nr_reconfigure_sdap_entity c ue_id pdusession_id drb_id l =
     (case nr_sdap_get_entity ue_id pdusession_id l of
        None \<Rightarrow> Inr (l, [])
      | Some e \<Rightarrow>
          res_bind (asn1_first (sc_flows_to_add c)) (\<lambda>to_add.
          res_bind (nr_sdap_ue_qfi2drb_config to_add (word_of_nat (length (the (sc_flows_to_add c))))
                      (word_of_int drb_id) (is_sdap_rx False c) (is_sdap_tx False c) e) (\<lambda>(e1, evs).
          res_bind (if sc_flows_to_release c \<noteq> None
                    then res_bind (asn1_first (sc_flows_to_release c)) (\<lambda>released.
                           sdap_release_flows released 0
                             (unat (word_of_nat (length (the (sc_flows_to_release c))) :: byte)) e1)
                    else Inr e1) (\<lambda>e2.
          Inr (store_by sdap_key e2 l, evs)))))"

section \<open>\<open>nr_sdap.c\<close>\<close>

definition sdap_data_req ::
  "bool \<Rightarrow> u64 \<Rightarrow> int \<Rightarrow> byte list \<Rightarrow> byte \<Rightarrow> bool \<Rightarrow> int \<Rightarrow> nr_sdap_entity list \<Rightarrow>
   (nr_sdap_entity list \<times> (int \<times> byte list) option) res" where
  "sdap_data_req enb_flag ue_id rb_id sdu qfi rqi pdusession_id l =
     (case nr_sdap_get_entity ue_id pdusession_id l of
        None \<Rightarrow> Inr (l, None)
      | Some e \<Rightarrow> res_bind (nr_sdap_tx_entity enb_flag rb_id sdu qfi rqi e) (\<lambda>(e1, req).
          Inr (store_by sdap_key e1 l, req)))"

definition sdap_data_ind ::
  "int \<Rightarrow> bool \<Rightarrow> bool \<Rightarrow> int \<Rightarrow> u64 \<Rightarrow> byte list \<Rightarrow> nr_sdap_entity list \<Rightarrow>
   (nr_sdap_entity list \<times> sdap_event list) res" where
  "sdap_data_ind pdcp_entity is_gnb has_sdap_rx pdusession_id ue_id buf l =
     (case nr_sdap_get_entity ue_id pdusession_id l of
        None \<Rightarrow> Inr (l, [])
      | Some e \<Rightarrow> res_bind (nr_sdap_rx_entity pdcp_entity is_gnb has_sdap_rx pdusession_id ue_id buf e) (\<lambda>(e1, evs).
          Inr (store_by sdap_key e1 l, evs)))"

end
