(* ===== verification/SdapFlows.thy ===== *)
theory SdapFlows
  imports Sdap
begin

unbundle bit_operations_syntax

text \<open>
  What the mapping of QoS flows promises: where an SDU is sent, that a peer gets it back unchanged,
  reflective mapping, and the list of entities as a table of the pairs of UE and PDU session.
\<close>

section \<open>The array of rules\<close>

definition sdap_ok :: "nr_sdap_entity \<Rightarrow> bool" where
  "sdap_ok e \<longleftrightarrow> length (sd_table e) = 64"

text \<open>The bearer of a flow: the stored rule, or the default bearer; 0 when there is none.\<close>

definition sdap_route :: "nr_sdap_entity \<Rightarrow> byte \<Rightarrow> int" where
  "sdap_route e qfi = (let r = sd_table e ! unat qfi in if qd_drb_id r \<noteq> 0 then qd_drb_id r else sd_default_drb e)"

lemma sdap_rule_ok: "unat qfi < 64 \<Longrightarrow> sdap_rule e qfi = Inr (sd_table e ! unat qfi)"
  by (simp add: sdap_rule_def)

lemma map_update_frame [simp]:
  "sdap_ok (nr_sdap_qfi2drb_map_update qfi drb rx tx e) = sdap_ok e"
  "sd_default_drb (nr_sdap_qfi2drb_map_update qfi drb rx tx e) = sd_default_drb e"
  "sdap_key (nr_sdap_qfi2drb_map_update qfi drb rx tx e) = sdap_key e"
  by (simp_all add: nr_sdap_qfi2drb_map_update_def sdap_ok_def sdap_key_def)

lemma map_update_nth:
  "sdap_ok e \<Longrightarrow> unat q < 64 \<Longrightarrow> sd_table (nr_sdap_qfi2drb_map_update qfi drb rx tx e) ! unat q =
     (if q = qfi \<and> unat qfi > 0 \<and> drb > 0 \<and> drb \<le> 5
      then \<lparr>qd_drb_id = drb, qd_has_sdap_rx = rx, qd_has_sdap_tx = tx\<rparr> else sd_table e ! unat q)"
  by (cases "q = qfi") (simp_all add: nr_sdap_qfi2drb_map_update_def sdap_ok_def word_unat_eq_iff [of q qfi])

text \<open>Looking a flow up changes no route, of this flow or of another.\<close>

lemma qfi2drb_map_ok:
  assumes "sdap_ok e" "unat qfi < 64"
  shows "\<exists>e'. nr_sdap_qfi2drb_map qfi e = Inr (e', sdap_route e qfi) \<and> sdap_ok e' \<and> sdap_key e' = sdap_key e \<and>
    sd_default_drb e' = sd_default_drb e \<and> (\<forall>q. unat q < 64 \<longrightarrow> sdap_route e' q = sdap_route e q \<and>
      qd_has_sdap_tx (sd_table e' ! unat q) = qd_has_sdap_tx (sd_table e ! unat q))"
proof (cases "qd_drb_id (sd_table e ! unat qfi) \<noteq> 0 \<or> sd_default_drb e = 0")
  case True
  then show ?thesis using assms by (auto simp: nr_sdap_qfi2drb_map_def sdap_rule_ok sdap_route_def Let_def)
next
  case False
  then show ?thesis using assms
    by (auto simp: nr_sdap_qfi2drb_map_def sdap_rule_ok sdap_route_def Let_def map_update_nth)
qed

section \<open>Headers\<close>

lemma dl_hdr_fields:
  "sdap_hdr_QFI (sdap_dl_hdr q rqi rdi) = q AND 0x3F" "bit (sdap_dl_hdr q rqi rdi) 7 = rdi"
  "bit (sdap_dl_hdr q rqi rdi) 6 = rqi"
  by (auto simp: sdap_hdr_QFI_def sdap_dl_hdr_def bit_simps word_ao_dist)

lemma ul_hdr_QFI: "sdap_hdr_QFI (sdap_ul_hdr q r dc) = q AND 0x3F"
  by (auto simp: sdap_hdr_QFI_def sdap_ul_hdr_def word_ao_dist)

lemma hdr_qfi_less: "unat (sdap_hdr_QFI h) < 64"
proof -
  have "h AND 0x3F = take_bit 6 h" by (simp add: take_bit_eq_mask mask_eq_exp_minus_1)
  moreover have "unat (take_bit 6 h) = take_bit 6 (unat h)" by (rule unsigned_take_bit_eq)
  ultimately show ?thesis using take_bit_nat_less_exp [of 6 "unat h"] by (simp add: sdap_hdr_QFI_def)
qed

lemma small_qfi: "unat q < 64 \<Longrightarrow> q AND 0x3F = q"
proof -
  assume "unat q < 64"
  then have "unat (take_bit 6 q) = unat q"
    using unsigned_take_bit_eq [of 6 q, where 'a = nat] by (simp add: take_bit_nat_eq_self)
  then have "take_bit 6 q = q" by (simp add: word_unat_eq_iff)
  then show ?thesis by (simp add: take_bit_eq_mask mask_eq_exp_minus_1)
qed

section \<open>Routes\<close>

text \<open>Whether the SDUs of a flow get a header.\<close>

definition sdap_has_header :: "nr_sdap_entity \<Rightarrow> byte \<Rightarrow> bool" where
  "sdap_has_header e qfi \<longleftrightarrow> sdap_route e qfi \<noteq> 0 \<and> qd_has_sdap_tx (sd_table e ! unat qfi)"

lemma tx_entity_eq:
  assumes "sdap_ok e" "unat qfi < 64"
  shows "\<exists>e'. nr_sdap_tx_entity enb rb sdu qfi rqi e = Inr (e',
      let drb = if sdap_route e qfi \<noteq> 0 then sdap_route e qfi else rb
      in if \<not> sdap_has_header e qfi then Some (drb, sdu)
         else if sdu = [] \<or> 8999 < length sdu then None
         else Some (drb, (if enb then sdap_dl_hdr qfi rqi False else sdap_ul_hdr qfi False rqi) # sdu)) \<and>
    sdap_ok e' \<and> sdap_key e' = sdap_key e \<and> (\<forall>q. unat q < 64 \<longrightarrow> sdap_route e' q = sdap_route e q)"
proof -
  obtain e' where m: "nr_sdap_qfi2drb_map qfi e = Inr (e', sdap_route e qfi)" and e': "sdap_ok e'" "sdap_key e' = sdap_key e"
    "\<forall>q. unat q < 64 \<longrightarrow> sdap_route e' q = sdap_route e q \<and>
      qd_has_sdap_tx (sd_table e' ! unat q) = qd_has_sdap_tx (sd_table e ! unat q)"
    using qfi2drb_map_ok [OF assms] by blast
  show ?thesis
    using e' assms(2)
    by (intro exI [of _ e']) (simp add: nr_sdap_tx_entity_def m sdap_rule_ok sdap_has_header_def)
qed

lemma end_marker_ok:
  assumes "sdap_ok e" "unat qfi < 64"
  shows "\<exists>e' evs. sdap_end_marker t qfi e = Inr (e', evs) \<and> sdap_ok e' \<and> sdap_key e' = sdap_key e \<and>
    sd_default_drb e' = sd_default_drb e \<and> (\<forall>q. unat q < 64 \<longrightarrow> sdap_route e' q = sdap_route e q)"
  using qfi2drb_map_ok [OF assms]
  by (auto simp: sdap_end_marker_def nr_sdap_map_ctrl_pdu_def assms)

lemma reflective_ok:
  assumes "sdap_ok e" "unat qfi < 64" "d \<noteq> 0"
  shows "\<exists>e' evs. sdap_reflective d qfi e = Inr (e', evs) \<and> sdap_ok e' \<and> sdap_key e' = sdap_key e \<and>
    sd_default_drb e' = sd_default_drb e \<and>
    (\<forall>q. unat q < 64 \<longrightarrow> sdap_route e' q = (if q = qfi then d else sdap_route e q))"
proof -
  have marker: "\<exists>e2 evs. (if c then sdap_end_marker t qfi e1 else Inr (e1, [])) = Inr (e2, evs) \<and> sdap_ok e2 \<and>
      sdap_key e2 = sdap_key e1 \<and> sd_default_drb e2 = sd_default_drb e1 \<and>
      (\<forall>q. unat q < 64 \<longrightarrow> sdap_route e2 q = sdap_route e1 q)" if "sdap_ok e1" for c t e1
    using end_marker_ok [OF that assms(2), of t] that by (cases c) simp_all
  obtain e1 evs1 where 1: "(if qd_drb_id (sd_table e ! unat qfi) = 0 \<and> sd_default_drb e \<noteq> 0 then sdap_end_marker 0 qfi e
      else Inr (e, [])) = Inr (e1, evs1)" "sdap_ok e1" "sdap_key e1 = sdap_key e" "sd_default_drb e1 = sd_default_drb e"
      "\<forall>q. unat q < 64 \<longrightarrow> sdap_route e1 q = sdap_route e q"
    using marker [OF assms(1), of _ 0] by blast
  obtain e2 evs2 where 2: "(if d \<noteq> qd_drb_id (sd_table e1 ! unat qfi) then sdap_end_marker 1 qfi e1
      else Inr (e1, [])) = Inr (e2, evs2)" "sdap_ok e2" "sdap_key e2 = sdap_key e1" "sd_default_drb e2 = sd_default_drb e1"
      "\<forall>q. unat q < 64 \<longrightarrow> sdap_route e2 q = sdap_route e1 q"
    using marker [OF 1(2), of _ 1] by blast
  let ?e = "e2\<lparr>sd_table := (sd_table e2)[unat qfi := (sd_table e2 ! unat qfi)\<lparr>qd_drb_id := d\<rparr>]\<rparr>"
  have r: "sdap_reflective d qfi e = Inr (?e, evs1 @ evs2)"
    unfolding sdap_reflective_def sdap_rule_ok [OF assms(2)] res_bind_Inr 1(1) 2(1) case_prod_conv by simp
  moreover have "sdap_route ?e q = (if q = qfi then d else sdap_route e q)" if "unat q < 64" for q
  proof (cases "q = qfi")
    case True
    then show ?thesis using 2(2) assms(2,3) by (simp add: sdap_route_def sdap_ok_def)
  next
    case False
    then have "sdap_route ?e q = sdap_route e2 q"
      by (simp add: sdap_route_def word_unat_eq_iff [of q qfi] Let_def)
    then show ?thesis using 1(5) 2(5) that False by simp
  qed
  ultimately show ?thesis using 1(3,4) 2(2-4) by (auto simp: sdap_ok_def sdap_key_def)
qed

section \<open>Properties of an entity\<close>

text \<open>Cx: An SDU is sent on the bearer of the rule stored for its flow, on the default bearer when there
  is no rule, and on the bearer the caller names when there is neither; with a header that carries the
  flow when the rule says so, and otherwise unchanged. Only an empty or too long SDU that needs a
  header is refused, and sending changes the route of no flow.\<close>

theorem sdap_sends_on_route:
  assumes "sdap_ok e" "unat qfi < 64"
  shows "\<exists>e' req. nr_sdap_tx_entity enb rb sdu qfi rqi e = Inr (e', req) \<and> sdap_ok e' \<and>
    (\<forall>q. unat q < 64 \<longrightarrow> sdap_route e' q = sdap_route e q) \<and>
    (case req of
       None \<Rightarrow> sdap_has_header e qfi \<and> (sdu = [] \<or> 8999 < length sdu)
     | Some (drb, pdu) \<Rightarrow> drb = (if sdap_route e qfi \<noteq> 0 then sdap_route e qfi else rb) \<and>
         (if sdap_has_header e qfi then \<exists>h. pdu = h # sdu \<and> sdap_hdr_QFI h = qfi else pdu = sdu))"
  using tx_entity_eq [OF assms, of enb rb sdu rqi] small_qfi [OF assms(2)]
  by (auto simp: Let_def dl_hdr_fields ul_hdr_QFI)

text \<open>C26: A packet goes through, downlink and uplink, when the bearer of the peer is configured with the
  header exactly where the sender's rule is. It is sent on the bearer of the rule of its flow, or the default bearer, or
  the one the caller names; where there is a header, the flow that the peer reads in it is the flow of the packet; and the
  peer delivers exactly the bytes of the SDU.\<close>

theorem sdap_roundtrip:
  assumes "sdap_ok e" "unat qfi < 64" "has_sdap_rx = sdap_has_header e qfi"
    and "nr_sdap_tx_entity enb rb sdu qfi rqi e = Inr (e', Some (drb, pdu))"
  shows "drb = (if sdap_route e qfi \<noteq> 0 then sdap_route e qfi else rb) \<and>
    pdu = (if has_sdap_rx then [hd pdu] else []) @ sdu \<and> (if has_sdap_rx then sdap_hdr_QFI (hd pdu) = qfi else True) \<and>
    nr_sdap_rx_entity drb (\<not> enb) has_sdap_rx session ue pdu peer =
      Inr (peer, [if enb then NasWrite sdu else GtpuDataReq ue session sdu])"
proof -
  have "drb = (if sdap_route e qfi \<noteq> 0 then sdap_route e qfi else rb) \<and>
      (pdu = sdu \<and> \<not> has_sdap_rx \<or> has_sdap_rx \<and> (\<exists>h. pdu = h # sdu \<and> sdap_hdr_QFI h = qfi \<and> (enb \<longrightarrow> \<not> bit h 7)))"
    using tx_entity_eq [OF assms(1,2), of enb rb sdu rqi] small_qfi [OF assms(2)] assms(3,4)
    by (auto simp: Let_def dl_hdr_fields ul_hdr_QFI split: if_splits)
  then show ?thesis by (cases enb) (auto simp: nr_sdap_rx_entity_def)
qed

text \<open>C27: A downlink PDU with the bit RDI makes the UE send what follows of its flow on the bearer the
  PDU came from, and the routes of the other flows stay; the SDU of the PDU is delivered as the
  last thing, after the end markers.\<close>

theorem sdap_reflective_mapping:
  assumes "sdap_ok e" "bit h 7" "d \<noteq> 0" "qfi = sdap_hdr_QFI h"
  shows "\<exists>e' evs. nr_sdap_rx_entity d False True session ue (h # sdu) e = Inr (e', evs @ [NasWrite sdu]) \<and>
    sdap_ok e' \<and> (\<forall>q. unat q < 64 \<longrightarrow> sdap_route e' q = (if q = qfi then d else sdap_route e q)) \<and>
    (\<forall>enb rb sdu' rqi. \<exists>e'' req. nr_sdap_tx_entity enb rb sdu' qfi rqi e' = Inr (e'', req) \<and>
       (case req of None \<Rightarrow> sdu' = [] \<or> 8999 < length sdu' | Some (drb, pdu) \<Rightarrow> drb = d))"
proof -
  have q: "unat qfi < 64" using hdr_qfi_less assms(4) by simp
  obtain e' evs where r: "sdap_reflective d qfi e = Inr (e', evs)" "sdap_ok e'"
    "\<forall>q. unat q < 64 \<longrightarrow> sdap_route e' q = (if q = qfi then d else sdap_route e q)"
    using reflective_ok [OF assms(1) q assms(3)] by blast
  have "nr_sdap_rx_entity d False True session ue (h # sdu) e = Inr (e', evs @ [NasWrite sdu])"
    using assms(2,4) r(1) by (simp add: nr_sdap_rx_entity_def)
  moreover have "\<exists>e'' req. nr_sdap_tx_entity enb rb sdu' qfi rqi e' = Inr (e'', req) \<and>
       (case req of None \<Rightarrow> sdu' = [] \<or> 8999 < length sdu' | Some (drb, pdu) \<Rightarrow> drb = d)" for enb rb sdu' rqi
    using tx_entity_eq [OF r(2) q, of enb rb sdu' rqi] r(3) q assms(3) by (auto simp: Let_def)
  ultimately show ?thesis using r(2,3) by blast
qed

text \<open>An entity with two flows: 5 on bearer 2 with a header, the others on the default bearer 1.\<close>

definition sdap_test_entity :: nr_sdap_entity where
  "sdap_test_entity = nr_sdap_qfi2drb_map_update 5 2 True True ((sdap_entity_zero 7 10)\<lparr>sd_default_drb := 1\<rparr>)"

lemma sdap_test_entity_facts:
  "sdap_ok sdap_test_entity" "sdap_route sdap_test_entity 5 = 2" "sdap_has_header sdap_test_entity 5"
  "sdap_route sdap_test_entity 6 = 1" "\<not> sdap_has_header sdap_test_entity 6"
  by (simp_all add: sdap_test_entity_def sdap_ok_def sdap_entity_zero_def nr_sdap_qfi2drb_map_update_def
      sdap_route_def sdap_has_header_def Let_def nth_list_update)

theorem sdap_sends_on_route_witness:
  "\<exists>e' pdu. nr_sdap_tx_entity True 3 [65] 5 False sdap_test_entity = Inr (e', Some (2, pdu)) \<and>
     (\<exists>h. pdu = [h, 65] \<and> sdap_hdr_QFI h = 5) \<and> sdap_route e' 6 = 1"
  using sdap_sends_on_route [of sdap_test_entity 5 True 3 "[65]" False] sdap_test_entity_facts
  by (auto split: option.splits)

theorem sdap_roundtrip_witness:
  "sdap_route sdap_test_entity 5 = 2 \<and> sdap_hdr_QFI 5 = 5 \<and>
     nr_sdap_rx_entity 2 False True 10 7 [5, 65, 66] sdap_test_entity = Inr (sdap_test_entity, [NasWrite [65, 66]])"
proof -
  have "nr_sdap_tx_entity True 3 [65, 66] 5 False sdap_test_entity = Inr (sdap_test_entity, Some (2, [5, 65, 66]))"
    by code_simp
  from sdap_roundtrip [OF sdap_test_entity_facts(1) _ _ this, of True 10 7 sdap_test_entity] show ?thesis
    using sdap_test_entity_facts(2,3) by simp
qed

theorem sdap_reflective_mapping_witness:
  "\<exists>e' evs. nr_sdap_rx_entity 3 False True 10 7 [0x86, 65] sdap_test_entity = Inr (e', evs @ [NasWrite [65]]) \<and>
     sdap_route e' 6 = 3 \<and> sdap_route e' 5 = 2"
proof -
  have "sdap_hdr_QFI 0x86 = 6" "bit (0x86 :: byte) 7" by (simp_all add: sdap_hdr_QFI_def bit_iff_odd_drop_bit)
  then show ?thesis
    using sdap_reflective_mapping [OF sdap_test_entity_facts(1), of "0x86" 3 6 10 7 "[65]"] sdap_test_entity_facts(2)
    by fastforce
qed

end
