(* ===== verification/SdapTable.thy ===== *)
theory SdapTable
  imports SdapFlows
begin

text \<open>
  The list of SDAP entities: a table of the pairs of UE and PDU session. Every operation of the
  module is a step of a machine on the list.
\<close>

section \<open>The list as a table\<close>

lemma get_entity_content: "nr_sdap_get_entity ue s l = content_of sdap_key l (ue, s)"
  by (induction l) (auto simp: content_of_Cons sdap_key_def)

text \<open>One entity per key, and no more entities than the loops of the code visit.\<close>

definition sdap_list_ok :: "nr_sdap_entity list \<Rightarrow> bool" where
  "sdap_list_ok l \<longleftrightarrow> distinct (map sdap_key l) \<and> length l \<le> SDAP_MAX_NUM_OF_ENTITIES"

lemma delete_loop_filter:
  "distinct (map sdap_key l) \<Longrightarrow> length l \<le> n + 1 \<Longrightarrow>
   sdap_delete_loop n ue s l = ((ue, s) \<in> sdap_key ` set l, filter (\<lambda>e. sdap_key e \<noteq> (ue, s)) l)"
proof (induction n ue s l rule: sdap_delete_loop.induct)
  case (2 n ue s e l)
  show ?case
  proof (cases "sdap_key e = (ue, s)")
    case True
    then have "(ue, s) \<notin> sdap_key ` set l" using "2.prems"(1) by auto
    then have "filter (\<lambda>e. sdap_key e \<noteq> (ue, s)) l = l" by (metis (mono_tags, lifting) filter_True image_eqI)
    then show ?thesis using True by (simp add: sdap_key_def)
  next
    case False
    then have ne: "\<not> (sd_ue_id e = ue \<and> sd_pdusession_id e = s)" by (auto simp: sdap_key_def)
    show ?thesis
    proof (cases n)
      case 0
      then have "l = []" using "2.prems"(2) by simp
      then show ?thesis using 0 ne by (auto simp: sdap_key_def)
    next
      case (Suc m)
      have "sdap_delete_loop m ue s l = ((ue, s) \<in> sdap_key ` set l, filter (\<lambda>e. sdap_key e \<noteq> (ue, s)) l)"
        using "2.IH" [OF ne Suc] "2.prems" Suc by simp
      then show ?thesis using Suc ne False by (auto simp: image_iff)
    qed
  qed
qed simp

lemma delete_ue_filter:
  "nr_sdap_delete_ue_entities ue l = (ue \<in> sd_ue_id ` set l, filter (\<lambda>e. sd_ue_id e \<noteq> ue) l)"
proof -
  have others: "sdap_delete_others ue l = (ue \<in> sd_ue_id ` set l, filter (\<lambda>e. sd_ue_id e \<noteq> ue) l)" for l
    by (induction l) (auto simp: Let_def)
  have "fst (sdap_delete_heads ue l) \<longrightarrow> ue \<in> sd_ue_id ` set l"
    "ue \<in> sd_ue_id ` set l \<longleftrightarrow> fst (sdap_delete_heads ue l) \<or> ue \<in> sd_ue_id ` set (snd (sdap_delete_heads ue l))"
    "filter (\<lambda>e. sd_ue_id e \<noteq> ue) (snd (sdap_delete_heads ue l)) = filter (\<lambda>e. sd_ue_id e \<noteq> ue) l"
    by (induction l) auto
  then show ?thesis by (simp add: nr_sdap_delete_ue_entities_def others case_prod_beta)
qed

lemma delete_entity_ne:
  "l \<noteq> [] \<Longrightarrow> nr_sdap_delete_entity ue s l = Inr (sdap_delete_loop SDAP_MAX_NUM_OF_ENTITIES ue s l)"
  by (cases l) (simp, simp only: nr_sdap_delete_entity_def list.case)

text \<open>The list after \<open>nr_sdap_delete_entity\<close>, which is not called on the empty list.\<close>

definition sdap_deleted :: "u64 \<times> int \<Rightarrow> nr_sdap_entity list \<Rightarrow> nr_sdap_entity list" where
  "sdap_deleted k l = (case nr_sdap_delete_entity (fst k) (snd k) l of Inr (ret, l') \<Rightarrow> l' | Inl f \<Rightarrow> l)"

lemma sdap_deleted_filter: "sdap_list_ok l \<Longrightarrow> sdap_deleted k l = filter (\<lambda>e. sdap_key e \<noteq> k) l"
  using delete_loop_filter [of l SDAP_MAX_NUM_OF_ENTITIES "fst k" "snd k"]
  by (cases "l = []") (simp_all add: sdap_deleted_def delete_entity_ne sdap_list_ok_def,
      simp add: nr_sdap_delete_entity_def)

interpretation sdap: keyed_table sdap_list_ok "content_of sdap_key" sdap_key
  "\<lambda>k. nr_sdap_get_entity (fst k) (snd k)" "store_by sdap_key" sdap_deleted
proof
  fix t :: "nr_sdap_entity list" and k e assume t: "sdap_list_ok t"
  show "nr_sdap_get_entity (fst k) (snd k) t = content_of sdap_key t k" by (simp add: get_entity_content)
  show "content_of sdap_key t k = Some e \<Longrightarrow> sdap_key e = k" using content_of_SomeD by metis
  show "sdap_list_ok (store_by sdap_key e t) \<and> content_of sdap_key (store_by sdap_key e t) = (content_of sdap_key t)(sdap_key e \<mapsto> e)"
    if "content_of sdap_key t (sdap_key e) \<noteq> None"
    using that t by (auto simp: sdap_list_ok_def content_of_store_by content_of_None_iff fun_eq_iff)
  show "sdap_list_ok (sdap_deleted k t) \<and> content_of sdap_key (sdap_deleted k t) = (content_of sdap_key t)(k := None)"
    using t distinct_key_filter [of sdap_key t] le_trans [OF length_filter_le [of "\<lambda>e. sdap_key e \<noteq> k" t]]
    by (simp add: sdap_deleted_filter content_of_filter sdap_list_ok_def)
qed

section \<open>The module as a machine\<close>

datatype sdap_op =
    NewSdapEntity bool bool bool u64 int bool byte "int list" byte
  | ReconfigureSdap sdap_config u64 int int
  | ReleaseDrb u64 int int
  | DeleteSdapEntity u64 int
  | DeleteUeEntities u64
  | SdapDataReq bool u64 int "byte list" byte bool int
  | SdapDataInd int bool bool int u64 "byte list"

text \<open>The list, the events, the request to PDCP.\<close>

definition sdap_step ::
  "sdap_op \<Rightarrow> nr_sdap_entity list \<Rightarrow> (nr_sdap_entity list \<times> sdap_event list \<times> (int \<times> byte list) option) res" where
  "sdap_step x l =
     (case x of
        NewSdapEntity g rx tx ue s def drb mapped n \<Rightarrow>
          res_bind (new_nr_sdap_entity g rx tx ue s def drb mapped n l) (\<lambda>(l', evs). Inr (l', evs, None))
      | ReconfigureSdap c ue s drb \<Rightarrow>
          res_bind (nr_reconfigure_sdap_entity c ue s drb l) (\<lambda>(l', evs). Inr (l', evs, None))
      | ReleaseDrb ue drb s \<Rightarrow> Inr (nr_sdap_release_drb ue drb s l, [], None)
      | DeleteSdapEntity ue s \<Rightarrow> res_bind (nr_sdap_delete_entity ue s l) (\<lambda>(ret, l'). Inr (l', [], None))
      | DeleteUeEntities ue \<Rightarrow> Inr (snd (nr_sdap_delete_ue_entities ue l), [], None)
      | SdapDataReq enb ue rb sdu qfi rqi s \<Rightarrow>
          res_bind (sdap_data_req enb ue rb sdu qfi rqi s l) (\<lambda>(l', req). Inr (l', [], req))
      | SdapDataInd d g rx s ue buf \<Rightarrow>
          res_bind (sdap_data_ind d g rx s ue buf l) (\<lambda>(l', evs). Inr (l', evs, None)))"

text \<open>Whether an operation is about an entity.\<close>

definition sdap_about :: "sdap_op \<Rightarrow> u64 \<times> int \<Rightarrow> bool" where
  "sdap_about x k =
     (case x of
        NewSdapEntity g rx tx ue s def drb mapped n \<Rightarrow> k = (ue, s)
      | ReconfigureSdap c ue s drb \<Rightarrow> k = (ue, s)
      | ReleaseDrb ue drb s \<Rightarrow> k = (ue, s)
      | DeleteSdapEntity ue s \<Rightarrow> k = (ue, s)
      | DeleteUeEntities ue \<Rightarrow> fst k = ue
      | SdapDataReq enb ue rb sdu qfi rqi s \<Rightarrow> k = (ue, s)
      | SdapDataInd d g rx s ue buf \<Rightarrow> k = (ue, s))"

text \<open>
  What the callers have to respect: flows below 64, bearers 1 to 5, lists of one flow in a
  reconfiguration, and no deletion from an empty list.
\<close>

definition sdap_flows_ok :: "int list \<Rightarrow> bool" where
  "sdap_flows_ok mapped \<longleftrightarrow> (\<forall>q \<in> set mapped. 0 \<le> q \<and> q < 64)"

definition sdap_adm :: "sdap_op \<Rightarrow> nr_sdap_entity list \<Rightarrow> bool" where
  "sdap_adm x l =
     (case x of
        NewSdapEntity g rx tx ue s def drb mapped n \<Rightarrow>
          sdap_flows_ok mapped \<and> unat n \<le> length mapped \<and> 0 < drb \<and> drb \<le> 5 \<and> length l < SDAP_MAX_NUM_OF_ENTITIES
      | ReconfigureSdap c ue s drb \<Rightarrow> 0 < drb \<and> drb \<le> 5 \<and>
          (\<exists>q. sc_flows_to_add c = Some [q] \<and> sdap_flows_ok [q]) \<and>
          (sc_flows_to_release c = None \<or> (\<exists>q. sc_flows_to_release c = Some [q] \<and> sdap_flows_ok [q]))
      | DeleteSdapEntity ue s \<Rightarrow> l \<noteq> []
      | SdapDataReq enb ue rb sdu qfi rqi s \<Rightarrow> qfi < 64
      | SdapDataInd d g rx s ue buf \<Rightarrow> (rx \<longrightarrow> buf \<noteq> []) \<and> 0 < d \<and> d \<le> 5
      | _ \<Rightarrow> True)"

text \<open>The stored rules name bearers from 1 to 5, or none.\<close>

definition sdap_entity_inv :: "nr_sdap_entity \<Rightarrow> bool" where
  "sdap_entity_inv e \<longleftrightarrow> sdap_ok e \<and> 0 \<le> sd_default_drb e \<and> sd_default_drb e \<le> 5 \<and>
     (\<forall>r \<in> set (sd_table e). 0 \<le> qd_drb_id r \<and> qd_drb_id r \<le> 5)"

definition sdap_inv :: "nr_sdap_entity list \<Rightarrow> bool" where
  "sdap_inv l \<longleftrightarrow> sdap_list_ok l \<and> (\<forall>e \<in> set l. sdap_entity_inv e)"

lemma sdap_table_inv:
  "sdap_entity_inv e \<Longrightarrow> 0 \<le> qd_drb_id r \<Longrightarrow> qd_drb_id r \<le> 5 \<Longrightarrow>
   sdap_entity_inv (e\<lparr>sd_table := (sd_table e)[i := r]\<rparr>)"
  using set_update_subset_insert [of "sd_table e" i r] by (auto simp: sdap_entity_inv_def sdap_ok_def)

lemma map_update_inv [simp]:
  "sdap_entity_inv e \<Longrightarrow> sdap_entity_inv (nr_sdap_qfi2drb_map_update qfi drb rx tx e)"
  by (simp add: nr_sdap_qfi2drb_map_update_def sdap_table_inv)

lemma sdap_rule_inv:
  "sdap_entity_inv e \<Longrightarrow> unat qfi < 64 \<Longrightarrow> 0 \<le> qd_drb_id (sd_table e ! unat qfi) \<and> qd_drb_id (sd_table e ! unat qfi) \<le> 5"
  by (simp add: sdap_entity_inv_def sdap_ok_def)

lemma qfi2drb_map_inv:
  assumes "sdap_entity_inv e" "unat qfi < 64"
  shows "\<exists>e' d. nr_sdap_qfi2drb_map qfi e = Inr (e', d) \<and> sdap_entity_inv e' \<and> sdap_key e' = sdap_key e"
  using assms by (simp add: nr_sdap_qfi2drb_map_def sdap_rule_ok)

lemma end_marker_inv:
  assumes "sdap_entity_inv e" "unat qfi < 64"
  shows "\<exists>e' evs. (if c then sdap_end_marker t qfi e else Inr (e, [])) = Inr (e', evs) \<and> sdap_entity_inv e' \<and>
    sdap_key e' = sdap_key e"
  using qfi2drb_map_inv [OF assms] by (auto simp: sdap_end_marker_def nr_sdap_map_ctrl_pdu_def assms)

lemma config_flow_inv:
  assumes "sdap_entity_inv e" "unat qfi < 64"
  shows "\<exists>e' evs. sdap_config_flow qfi drb rx tx e = Inr (e', evs) \<and> sdap_entity_inv e' \<and> sdap_key e' = sdap_key e"
proof -
  have c: "(if sd_default_drb e \<noteq> 0
        then res_bind (sdap_rule e qfi) (\<lambda>r. if qd_drb_id r = 0 then sdap_end_marker 0 qfi e else Inr (e, []))
        else Inr (e, [])) =
      (if sd_default_drb e \<noteq> 0 \<and> qd_drb_id (sd_table e ! unat qfi) = 0 then sdap_end_marker 0 qfi e else Inr (e, []))"
    by (simp add: sdap_rule_ok [OF assms(2)])
  obtain e1 evs1 where 1: "(if sd_default_drb e \<noteq> 0 \<and> qd_drb_id (sd_table e ! unat qfi) = 0
      then sdap_end_marker 0 qfi e else Inr (e, [])) = Inr (e1, evs1)" "sdap_entity_inv e1" "sdap_key e1 = sdap_key e"
    using end_marker_inv [OF assms] by blast
  let ?r1 = "sd_table e1 ! unat qfi"
  obtain e2 evs2 where 2: "(if qd_drb_id ?r1 \<noteq> drb \<and> qd_has_sdap_tx ?r1 then sdap_end_marker 1 qfi e1
      else Inr (e1, [])) = Inr (e2, evs2)" "sdap_entity_inv e2" "sdap_key e2 = sdap_key e1"
    using end_marker_inv [OF 1(2) assms(2)] by blast
  have "sdap_config_flow qfi drb rx tx e = Inr (nr_sdap_qfi2drb_map_update qfi drb rx tx e2, evs1 @ evs2)"
    unfolding sdap_config_flow_def c
    unfolding 1(1) res_bind_Inr case_prod_conv
    unfolding sdap_rule_ok [OF assms(2)] res_bind_Inr 2(1) case_prod_conv ..
  then show ?thesis using 1(3) 2(2,3) by simp
qed

lemma flow_byte: "0 \<le> q \<Longrightarrow> q < 64 \<Longrightarrow> unat (word_of_int q :: byte) < 64"
  by (simp add: unat_eq_nat_uint uint_word_of_int)

lemma sdap_flows_nth: "sdap_flows_ok mapped \<Longrightarrow> i < length mapped \<Longrightarrow> unat (word_of_int (mapped ! i) :: byte) < 64"
  using flow_byte by (simp add: sdap_flows_ok_def)

lemma config_loop_inv:
  "sdap_entity_inv e \<Longrightarrow> sdap_flows_ok mapped \<Longrightarrow> i + n \<le> length mapped \<Longrightarrow>
   \<exists>e' evs. sdap_config_loop mapped i n drb rx tx e = Inr (e', evs) \<and> sdap_entity_inv e' \<and> sdap_key e' = sdap_key e"
proof (induction n arbitrary: i e)
  case (Suc n)
  have i: "i < length mapped" using Suc.prems(3) by simp
  obtain e1 evs1 where 1: "sdap_config_flow (word_of_int (mapped ! i)) drb rx tx e = Inr (e1, evs1)" "sdap_entity_inv e1"
    "sdap_key e1 = sdap_key e"
    using config_flow_inv [OF Suc.prems(1) sdap_flows_nth [OF Suc.prems(2) i]] by blast
  with Suc.IH [OF 1(2) Suc.prems(2), of "Suc i"] Suc.prems(3) i show ?case by auto
qed simp

lemma default_rules_inv:
  "sdap_entity_inv e \<Longrightarrow> i + n \<le> length mapped \<Longrightarrow>
   \<exists>e'. sdap_default_rules mapped i n rx tx e = Inr e' \<and> sdap_entity_inv e' \<and> sdap_key e' = sdap_key e"
proof (induction n arbitrary: i e)
  case (Suc n)
  then show ?case using Suc.IH [OF map_update_inv, of e "Suc i"] by fastforce
qed simp

lemma map_del_inv:
  assumes "sdap_entity_inv e" "unat qfi < 64"
  shows "\<exists>e'. nr_sdap_qfi2drb_map_del qfi e = Inr e' \<and> sdap_entity_inv e' \<and> sdap_key e' = sdap_key e"
  using assms by (simp add: nr_sdap_qfi2drb_map_del_def sdap_rule_ok sdap_table_inv sdap_key_def)

lemma tx_entity_inv:
  assumes "sdap_entity_inv e" "unat qfi < 64"
  shows "\<exists>e' req. nr_sdap_tx_entity enb rb sdu qfi rqi e = Inr (e', req) \<and> sdap_entity_inv e' \<and> sdap_key e' = sdap_key e"
proof -
  obtain e' d where "nr_sdap_qfi2drb_map qfi e = Inr (e', d)" "sdap_entity_inv e'" "sdap_key e' = sdap_key e"
    using qfi2drb_map_inv [OF assms] by blast
  then show ?thesis using assms(2) by (simp add: nr_sdap_tx_entity_def sdap_rule_ok)
qed

lemma rx_entity_inv:
  assumes "sdap_entity_inv e" "rx \<longrightarrow> buf \<noteq> []" "0 < d" "d \<le> 5"
  shows "\<exists>e' evs. nr_sdap_rx_entity d g rx s ue buf e = Inr (e', evs) \<and> sdap_entity_inv e' \<and> sdap_key e' = sdap_key e"
proof -
  let ?q = "sdap_hdr_QFI (buf ! 0)"
  obtain e1 evs1 where 1: "(if qd_drb_id (sd_table e ! unat ?q) = 0 \<and> sd_default_drb e \<noteq> 0 then sdap_end_marker 0 ?q e
      else Inr (e, [])) = Inr (e1, evs1)" "sdap_entity_inv e1" "sdap_key e1 = sdap_key e"
    using end_marker_inv [OF assms(1) hdr_qfi_less] by blast
  obtain e2 evs2 where 2: "(if d \<noteq> qd_drb_id (sd_table e1 ! unat ?q) then sdap_end_marker 1 ?q e1 else Inr (e1, [])) =
      Inr (e2, evs2)" "sdap_entity_inv e2" "sdap_key e2 = sdap_key e1"
    using end_marker_inv [OF 1(2) hdr_qfi_less] by blast
  have "sdap_reflective d ?q e =
      Inr (e2\<lparr>sd_table := (sd_table e2)[unat ?q := (sd_table e2 ! unat ?q)\<lparr>qd_drb_id := d\<rparr>]\<rparr>, evs1 @ evs2)"
    unfolding sdap_reflective_def sdap_rule_ok [OF hdr_qfi_less] res_bind_Inr 1(1) 2(1) case_prod_conv by simp
  moreover have "sdap_entity_inv (e2\<lparr>sd_table := (sd_table e2)[unat ?q := (sd_table e2 ! unat ?q)\<lparr>qd_drb_id := d\<rparr>]\<rparr>)"
    using sdap_table_inv [OF 2(2)] assms(3,4) by simp
  ultimately show ?thesis
    using assms(1,2) 1(3) 2(3) by (simp add: nr_sdap_rx_entity_def sdap_key_def)
qed

section \<open>Every step\<close>

lemma store_inv:
  assumes "sdap_inv l" "sdap_entity_inv e" "nr_sdap_get_entity ue s l = Some e0" "sdap_key e = sdap_key e0"
  shows "sdap_inv (store_by sdap_key e l) \<and>
    (\<forall>k. k \<noteq> (ue, s) \<longrightarrow> nr_sdap_get_entity (fst k) (snd k) (store_by sdap_key e l) = nr_sdap_get_entity (fst k) (snd k) l)"
proof -
  have ok: "sdap_list_ok l" using assms(1) by (simp add: sdap_inv_def)
  have k: "sdap_key e = (ue, s)" "content_of sdap_key l (sdap_key e) \<noteq> None"
    using assms(3,4) content_of_SomeD [of sdap_key l "(ue, s)" e0] by (simp_all add: get_entity_content)
  have "\<forall>x \<in> set (store_by sdap_key e l). sdap_entity_inv x"
    using assms(1,2) by (auto simp: store_by_def sdap_inv_def)
  moreover have "sdap_list_ok (store_by sdap_key e l)" using sdap.put_ok [OF ok k(2)] by blast
  moreover have "\<forall>k. nr_sdap_get_entity (fst k) (snd k) (store_by sdap_key e l) =
      (if k = (ue, s) then Some e else nr_sdap_get_entity (fst k) (snd k) l)"
    using sdap.find_put [of l e] ok k by (simp add: get_entity_content)
  ultimately show ?thesis by (simp add: sdap_inv_def)
qed

lemma filter_inv:
  "sdap_inv l \<Longrightarrow> sdap_inv (filter P l)"
  using distinct_key_filter [of sdap_key l P] le_trans [OF length_filter_le [of P l]]
  by (auto simp: sdap_inv_def sdap_list_ok_def)

lemma find_filter: "P = (\<lambda>e. sdap_key e \<notin> K) \<Longrightarrow> k \<notin> K \<Longrightarrow>
   nr_sdap_get_entity (fst k) (snd k) (filter P l) = nr_sdap_get_entity (fst k) (snd k) l"
  by (induction l) (auto simp: get_entity_content content_of_Cons)

lemma entity_zero_inv:
  "0 \<le> drb \<Longrightarrow> drb \<le> 5 \<Longrightarrow> sdap_entity_inv ((sdap_entity_zero ue s)\<lparr>sd_default_drb := drb\<rparr>)"
  "sdap_entity_inv (sdap_entity_zero ue s)"
  "sdap_key ((sdap_entity_zero ue s)\<lparr>sd_default_drb := drb\<rparr>) = (ue, s)" "sdap_key (sdap_entity_zero ue s) = (ue, s)"
  by (simp_all add: sdap_entity_inv_def sdap_entity_zero_def sdap_ok_def sdap_key_def)

lemma get_entity_inv: "sdap_inv l \<Longrightarrow> nr_sdap_get_entity ue s l = Some e \<Longrightarrow> sdap_entity_inv e \<and> sdap_key e = (ue, s)"
  using content_of_SomeD [of sdap_key l "(ue, s)" e] by (auto simp: get_entity_content sdap_inv_def)

text \<open>What a step keeps, for the keys it is not about.\<close>

definition sdap_kept :: "(u64 \<times> int \<Rightarrow> bool) \<Rightarrow> nr_sdap_entity list \<Rightarrow> nr_sdap_entity list \<Rightarrow> bool" where
  "sdap_kept about l l' \<longleftrightarrow> sdap_inv l' \<and>
     (\<forall>k. \<not> about k \<longrightarrow> nr_sdap_get_entity (fst k) (snd k) l' = nr_sdap_get_entity (fst k) (snd k) l)"

lemma new_entity_kept:
  assumes "sdap_inv l" "sdap_adm (NewSdapEntity g rx tx ue s def drb mapped n) l"
  shows "\<exists>l' evs. new_nr_sdap_entity g rx tx ue s def drb mapped n l = Inr (l', evs) \<and> sdap_kept (\<lambda>k. k = (ue, s)) l l' \<and>
    nr_sdap_get_entity ue s l' \<noteq> None"
proof -
  have a: "sdap_flows_ok mapped" "0 + unat n \<le> length mapped" "0 < drb" "drb \<le> 5" "length l < SDAP_MAX_NUM_OF_ENTITIES"
    using assms(2) by (simp_all add: sdap_adm_def)
  have d: "0 \<le> uint drb" "uint drb \<le> 5" using a(4) by (simp_all add: word_le_def)
  show ?thesis
  proof (cases "nr_sdap_get_entity ue s l")
    case None
    define e where "e = sdap_entity_zero ue s"
    have "\<exists>e1. (if def then sdap_default_rules mapped 0 (unat n) rx tx (e\<lparr>sd_default_drb := uint drb\<rparr>) else Inr e) = Inr e1 \<and>
        sdap_entity_inv e1 \<and> sdap_key e1 = (ue, s)"
      using default_rules_inv [OF entity_zero_inv(1) [OF d] a(2), of rx tx ue s] entity_zero_inv(2,4) [of ue s] entity_zero_inv(3)
      by (cases "def") (auto simp: e_def)
    then obtain e1 where e1: "(if def then sdap_default_rules mapped 0 (unat n) rx tx (e\<lparr>sd_default_drb := uint drb\<rparr>)
        else Inr e) = Inr e1" "sdap_entity_inv e1" "sdap_key e1 = (ue, s)" by blast
    have "new_nr_sdap_entity g rx tx ue s def drb mapped n l = Inr (e1 # l, [])"
      unfolding new_nr_sdap_entity_def None option.case Let_def e_def [symmetric] e1(1) res_bind_Inr ..
    moreover have "(ue, s) \<notin> sdap_key ` set l"
      using None by (simp add: get_entity_content content_of_None_iff)
    ultimately show ?thesis
      using e1(2,3) assms(1) a(5)
      by (auto simp: sdap_kept_def sdap_inv_def sdap_list_ok_def get_entity_content content_of_Cons)
  next
    case (Some e)
    note e = get_entity_inv [OF assms(1) Some]
    obtain e1 evs where c: "nr_sdap_ue_qfi2drb_config mapped n drb rx tx e = Inr (e1, evs)" "sdap_entity_inv e1" "sdap_key e1 = sdap_key e"
      using config_loop_inv [OF _ a(1,2)] e unfolding nr_sdap_ue_qfi2drb_config_def by blast
    then have "nr_sdap_get_entity ue s (store_by sdap_key e1 l) \<noteq> None"
      using Some by (auto simp: get_entity_content content_of_store_by)
    then show ?thesis
      using Some c store_inv [OF assms(1) c(2) Some c(3)] assms(1)
      by (cases g) (simp_all add: new_nr_sdap_entity_def sdap_kept_def)
  qed
qed

lemma reconfigure_kept:
  assumes "sdap_inv l" "sdap_adm (ReconfigureSdap c ue s drb) l"
  shows "\<exists>l' evs. nr_reconfigure_sdap_entity c ue s drb l = Inr (l', evs) \<and> sdap_kept (\<lambda>k. k = (ue, s)) l l'"
proof (cases "nr_sdap_get_entity ue s l")
  case None
  then show ?thesis using assms(1) by (simp add: nr_reconfigure_sdap_entity_def sdap_kept_def)
next
  case (Some e)
  note e = get_entity_inv [OF assms(1) Some]
  obtain q where q: "sc_flows_to_add c = Some [q]" "sdap_flows_ok [q]"
    and rel: "sc_flows_to_release c = None \<or> (\<exists>q. sc_flows_to_release c = Some [q] \<and> sdap_flows_ok [q])"
    using assms(2) by (auto simp: sdap_adm_def)
  obtain e1 evs where 1: "nr_sdap_ue_qfi2drb_config [q] 1 (word_of_int drb) (is_sdap_rx False c) (is_sdap_tx False c) e =
      Inr (e1, evs)" "sdap_entity_inv e1" "sdap_key e1 = sdap_key e"
    using config_loop_inv [OF conjunct1 [OF e] q(2), of 0 1 "uint (word_of_int drb :: byte)" "is_sdap_rx False c" "is_sdap_tx False c"]
    unfolding nr_sdap_ue_qfi2drb_config_def by auto
  have "\<exists>e2. (if sc_flows_to_release c \<noteq> None
      then res_bind (asn1_first (sc_flows_to_release c)) (\<lambda>released.
        sdap_release_flows released 0 (unat (word_of_nat (length (the (sc_flows_to_release c))) :: byte)) e1)
      else Inr e1) = Inr e2 \<and> sdap_entity_inv e2 \<and> sdap_key e2 = sdap_key e1"
  proof (cases "sc_flows_to_release c = None")
    case False
    then obtain r where r: "sc_flows_to_release c = Some [r]" "sdap_flows_ok [r]" using rel by auto
    from map_del_inv [OF 1(2) sdap_flows_nth [OF r(2), of 0]] r show ?thesis
      by (auto simp: asn1_first_def)
  qed (use 1 in simp)
  then obtain e2 where 2: "(if sc_flows_to_release c \<noteq> None
      then res_bind (asn1_first (sc_flows_to_release c)) (\<lambda>released.
        sdap_release_flows released 0 (unat (word_of_nat (length (the (sc_flows_to_release c))) :: byte)) e1)
      else Inr e1) = Inr e2" "sdap_entity_inv e2" "sdap_key e2 = sdap_key e"
    using 1(3) by auto
  have "nr_reconfigure_sdap_entity c ue s drb l = Inr (store_by sdap_key e2 l, evs)"
    unfolding nr_reconfigure_sdap_entity_def Some option.case
    using 1(1) 2(1) q(1) by (simp add: asn1_first_def)
  then show ?thesis using store_inv [OF assms(1) 2(2) Some 2(3)] by (auto simp: sdap_kept_def)
qed

lemma data_req_kept:
  assumes "sdap_inv l" "qfi < 64"
  shows "\<exists>l' req. sdap_data_req enb ue rb sdu qfi rqi s l = Inr (l', req) \<and> sdap_kept (\<lambda>k. k = (ue, s)) l l'"
proof (cases "nr_sdap_get_entity ue s l")
  case (Some e)
  note e = get_entity_inv [OF assms(1) Some]
  have "unat qfi < 64" using assms(2) by (simp add: word_less_nat_alt)
  then obtain e1 req where "nr_sdap_tx_entity enb rb sdu qfi rqi e = Inr (e1, req)" "sdap_entity_inv e1" "sdap_key e1 = sdap_key e"
    using tx_entity_inv e by blast
  with Some store_inv [OF assms(1) this(2) Some this(3)] show ?thesis by (auto simp: sdap_data_req_def sdap_kept_def)
qed (use assms in \<open>simp add: sdap_data_req_def sdap_kept_def\<close>)

lemma data_ind_kept:
  assumes "sdap_inv l" "rx \<longrightarrow> buf \<noteq> []" "0 < d" "d \<le> 5"
  shows "\<exists>l' evs. sdap_data_ind d g rx s ue buf l = Inr (l', evs) \<and> sdap_kept (\<lambda>k. k = (ue, s)) l l'"
proof (cases "nr_sdap_get_entity ue s l")
  case (Some e)
  note e = get_entity_inv [OF assms(1) Some]
  obtain e1 evs where "nr_sdap_rx_entity d g rx s ue buf e = Inr (e1, evs)" "sdap_entity_inv e1" "sdap_key e1 = sdap_key e"
    using rx_entity_inv [OF conjunct1 [OF e] assms(2-4)] by blast
  with Some store_inv [OF assms(1) this(2) Some this(3)] show ?thesis by (auto simp: sdap_data_ind_def sdap_kept_def)
qed (use assms in \<open>simp add: sdap_data_ind_def sdap_kept_def\<close>)

lemma release_drb_kept:
  assumes "sdap_inv l"
  shows "sdap_kept (\<lambda>k. k = (ue, s)) l (nr_sdap_release_drb ue drb s l)"
proof (cases "nr_sdap_get_entity ue s l")
  case (Some e)
  note e = get_entity_inv [OF assms(1) Some]
  let ?e = "e\<lparr>sd_table := map (\<lambda>r. if qd_drb_id r = drb then r\<lparr>qd_drb_id := 0\<rparr> else r) (sd_table e)\<rparr>"
  have "sdap_entity_inv ?e" "sdap_key ?e = sdap_key e"
    using e by (auto simp: sdap_entity_inv_def sdap_ok_def sdap_key_def)
  with Some store_inv [OF assms(1) this(1) Some this(2)] show ?thesis
    by (auto simp: nr_sdap_release_drb_def sdap_kept_def)
qed (use assms in \<open>simp add: nr_sdap_release_drb_def sdap_kept_def\<close>)

lemma delete_entity_kept:
  assumes "sdap_inv l" "l \<noteq> []"
  shows "\<exists>l'. nr_sdap_delete_entity ue s l = Inr (nr_sdap_get_entity ue s l \<noteq> None, l') \<and> sdap_kept (\<lambda>k. k = (ue, s)) l l' \<and>
    nr_sdap_get_entity ue s l' = None"
proof -
  have "nr_sdap_delete_entity ue s l = Inr ((ue, s) \<in> sdap_key ` set l, filter (\<lambda>e. sdap_key e \<noteq> (ue, s)) l)"
    using delete_loop_filter [of l SDAP_MAX_NUM_OF_ENTITIES ue s] assms
    by (simp add: delete_entity_ne sdap_inv_def sdap_list_ok_def)
  then show ?thesis
    using filter_inv [OF assms(1)] find_filter [of "\<lambda>e. sdap_key e \<noteq> (ue, s)" "{(ue, s)}"]
    by (auto simp: sdap_kept_def get_entity_content content_of_filter content_of_None_iff)
qed

lemma delete_ue_kept:
  assumes "sdap_inv l"
  shows "sdap_kept (\<lambda>k. fst k = ue) l (snd (nr_sdap_delete_ue_entities ue l))"
proof -
  have "(\<lambda>e. sd_ue_id e \<noteq> ue) = (\<lambda>e. sdap_key e \<notin> {k. fst k = ue})" by (simp add: sdap_key_def)
  then show ?thesis
    using filter_inv [OF assms] find_filter [of "\<lambda>e. sd_ue_id e \<noteq> ue" "{k. fst k = ue}"]
    by (simp add: delete_ue_filter sdap_kept_def)
qed

lemma sdap_about_simps:
  "sdap_about (NewSdapEntity g rx tx ue s def drb mapped n) = (\<lambda>k. k = (ue, s))"
  "sdap_about (ReconfigureSdap c ue s d) = (\<lambda>k. k = (ue, s))"
  "sdap_about (ReleaseDrb ue d s) = (\<lambda>k. k = (ue, s))"
  "sdap_about (DeleteSdapEntity ue s) = (\<lambda>k. k = (ue, s))"
  "sdap_about (DeleteUeEntities ue) = (\<lambda>k. fst k = ue)"
  "sdap_about (SdapDataReq enb ue rb sdu qfi rqi s) = (\<lambda>k. k = (ue, s))"
  "sdap_about (SdapDataInd d g rx s ue buf) = (\<lambda>k. k = (ue, s))"
  by (simp_all add: fun_eq_iff sdap_about_def)

lemma sdap_step_kept:
  assumes "sdap_inv l" "sdap_adm x l"
  shows "\<exists>l' evs req. sdap_step x l = Inr (l', evs, req) \<and> sdap_kept (sdap_about x) l l'"
proof (cases x)
  case (NewSdapEntity g rx tx ue s "def" drb mapped n)
  then show ?thesis using new_entity_kept [OF assms(1), of g rx tx ue s "def" drb mapped n] assms(2)
    by (auto simp: sdap_step_def sdap_about_simps)
next
  case (ReconfigureSdap c ue s drb)
  then show ?thesis using reconfigure_kept [OF assms(1), of c ue s drb] assms(2)
    by (auto simp: sdap_step_def sdap_about_simps)
next
  case (ReleaseDrb ue drb s)
  then show ?thesis using release_drb_kept [OF assms(1)] by (simp add: sdap_step_def sdap_about_simps)
next
  case (DeleteSdapEntity ue s)
  then show ?thesis using delete_entity_kept [OF assms(1), of ue s] assms(2)
    by (auto simp: sdap_step_def sdap_about_simps sdap_adm_def)
next
  case (DeleteUeEntities ue)
  then show ?thesis using delete_ue_kept [OF assms(1)] by (simp add: sdap_step_def sdap_about_simps)
next
  case (SdapDataReq enb ue rb sdu qfi rqi s)
  then show ?thesis using data_req_kept [OF assms(1), of qfi enb ue rb sdu rqi s] assms(2)
    by (auto simp: sdap_step_def sdap_about_simps sdap_adm_def)
next
  case (SdapDataInd d g rx s ue buf)
  then show ?thesis using data_ind_kept [OF assms(1), of rx buf d g s ue] assms(2)
    by (auto simp: sdap_step_def sdap_about_simps sdap_adm_def)
qed

section \<open>Runs\<close>

fun sdap_run :: "sdap_op list \<Rightarrow> nr_sdap_entity list \<Rightarrow>
    (nr_sdap_entity list \<times> (sdap_event list \<times> (int \<times> byte list) option) list) res" where
  "sdap_run [] l = Inr (l, [])"
| "sdap_run (x # xs) l =
     res_bind (sdap_step x l) (\<lambda>(l1, evs, req). res_bind (sdap_run xs l1) (\<lambda>(l2, outs). Inr (l2, (evs, req) # outs)))"

fun sdap_adm_run :: "sdap_op list \<Rightarrow> nr_sdap_entity list \<Rightarrow> bool" where
  "sdap_adm_run [] l = True"
| "sdap_adm_run (x # xs) l =
     (sdap_adm x l \<and> (case sdap_step x l of Inr (l', _) \<Rightarrow> sdap_adm_run xs l' | Inl f \<Rightarrow> True))"

text \<open>C28: Every admissible run of the SDAP module, from any well-formed list, completes without a fault:
  there is one entity for each pair of a UE and a PDU session, every flow is routed to one of the bearers
  1 to 5 or to none, and an entity no operation of the run is about is the one it was.\<close>

theorem sdap_runs_safe:
  assumes "sdap_inv l" "sdap_adm_run xs l"
  shows "\<exists>l' outs. sdap_run xs l = Inr (l', outs) \<and> distinct (map sdap_key l') \<and>
    (\<forall>e \<in> set l'. \<forall>q. unat q < 64 \<longrightarrow> 0 \<le> sdap_route e q \<and> sdap_route e q \<le> 5) \<and>
    (\<forall>ue s. (\<forall>x \<in> set xs. \<not> sdap_about x (ue, s)) \<longrightarrow> nr_sdap_get_entity ue s l' = nr_sdap_get_entity ue s l)"
proof -
  have "\<exists>l' outs. sdap_run xs l = Inr (l', outs) \<and> sdap_kept (\<lambda>k. \<exists>x \<in> set xs. sdap_about x k) l l'"
    using assms
  proof (induction xs arbitrary: l)
    case Nil
    then show ?case by (simp add: sdap_kept_def)
  next
    case (Cons x xs)
    have adm: "sdap_adm x l" using Cons.prems(2) by simp
    obtain l1 evs req where 1: "sdap_step x l = Inr (l1, evs, req)" "sdap_kept (sdap_about x) l l1"
      using sdap_step_kept [OF Cons.prems(1) adm] by blast
    have "sdap_inv l1" "sdap_adm_run xs l1" using 1 Cons.prems(2) by (simp_all add: sdap_kept_def)
    then obtain l2 outs where "sdap_run xs l1 = Inr (l2, outs)" "sdap_kept (\<lambda>k. \<exists>x \<in> set xs. sdap_about x k) l1 l2"
      using Cons.IH [of l1] by blast
    with 1 show ?case by (simp add: sdap_kept_def)
  qed
  then obtain l' outs where r: "sdap_run xs l = Inr (l', outs)" "sdap_kept (\<lambda>k. \<exists>x \<in> set xs. sdap_about x k) l l'" by blast
  have "0 \<le> sdap_route e q \<and> sdap_route e q \<le> 5" if "e \<in> set l'" "unat q < 64" for e q
  proof -
    have "sdap_entity_inv e" using that(1) r(2) by (simp add: sdap_kept_def sdap_inv_def)
    with sdap_rule_inv [OF this that(2)] show ?thesis by (simp add: sdap_route_def Let_def sdap_entity_inv_def)
  qed
  with r show ?thesis by (auto simp: sdap_kept_def sdap_inv_def sdap_list_ok_def)
qed

theorem sdap_runs_safe_witness:
  "\<exists>l' outs. sdap_run [NewSdapEntity False True True 7 10 True 1 [5, 6] 2, SdapDataInd 2 False True 10 7 [0x85, 65],
      SdapDataReq False 7 1 [66] 5 True 10, DeleteUeEntities 8] [] = Inr (l', outs) \<and>
     outs ! 1 = ([PdcpDataReq 1 [5], NasWrite [65]], None) \<and> outs ! 2 = ([], Some (2, [0x85, 66])) \<and>
     distinct (map sdap_key l') \<and> nr_sdap_get_entity 9 9 l' = None"
proof -
  let ?xs = "[NewSdapEntity False True True 7 10 True 1 [5, 6] 2, SdapDataInd 2 False True 10 7 [0x85, 65],
      SdapDataReq False 7 1 [66] 5 True 10, DeleteUeEntities 8]"
  have "sdap_inv []" by (simp add: sdap_inv_def sdap_list_ok_def)
  moreover have "sdap_adm_run ?xs []"
    by (simp add: sdap_adm_def sdap_flows_ok_def SDAP_MAX_NUM_OF_ENTITIES_def split: sum.splits)
  ultimately obtain l' outs where r: "sdap_run ?xs [] = Inr (l', outs)" "distinct (map sdap_key l')"
    "\<forall>ue s. (\<forall>x \<in> set ?xs. \<not> sdap_about x (ue, s)) \<longrightarrow> nr_sdap_get_entity ue s l' = nr_sdap_get_entity ue s []"
    using sdap_runs_safe [of "[]" ?xs] by blast
  have "case sdap_run ?xs [] of Inr (l', outs) \<Rightarrow> outs ! 1 = ([PdcpDataReq 1 [5], NasWrite [65]], None) \<and>
      outs ! 2 = ([], Some (2, [0x85, 66])) | Inl f \<Rightarrow> False"
    by code_simp
  with r show ?thesis by (simp add: sdap_about_def)
qed

text \<open>What is created is found, and what is deleted is gone: after \<open>new_nr_sdap_entity\<close> the entity of
  the session exists, \<open>nr_sdap_delete_entity\<close> reports whether there was one and removes it, and
  \<open>nr_sdap_delete_ue_entities\<close> removes all those of the UE.\<close>

theorem sdap_create_delete:
  assumes "sdap_inv l"
  shows "(sdap_adm (NewSdapEntity g rx tx ue s def drb mapped n) l \<longrightarrow>
      (\<exists>l' evs. new_nr_sdap_entity g rx tx ue s def drb mapped n l = Inr (l', evs) \<and> nr_sdap_get_entity ue s l' \<noteq> None)) \<and>
    (l \<noteq> [] \<longrightarrow> (\<exists>l'. nr_sdap_delete_entity ue s l = Inr (nr_sdap_get_entity ue s l \<noteq> None, l') \<and>
      nr_sdap_get_entity ue s l' = None)) \<and>
    (\<exists>l'. nr_sdap_delete_ue_entities ue l = (\<exists>e \<in> set l. sd_ue_id e = ue, l') \<and>
      (\<forall>s. nr_sdap_get_entity ue s l' = None))"
proof (intro conjI impI)
  assume "sdap_adm (NewSdapEntity g rx tx ue s def drb mapped n) l"
  from new_entity_kept [OF assms this] show "\<exists>l' evs. new_nr_sdap_entity g rx tx ue s def drb mapped n l = Inr (l', evs) \<and>
    nr_sdap_get_entity ue s l' \<noteq> None" by blast
next
  assume "l \<noteq> []"
  from delete_entity_kept [OF assms this] show "\<exists>l'. nr_sdap_delete_entity ue s l = Inr (nr_sdap_get_entity ue s l \<noteq> None, l') \<and>
    nr_sdap_get_entity ue s l' = None" by blast
next
  show "\<exists>l'. nr_sdap_delete_ue_entities ue l = (\<exists>e \<in> set l. sd_ue_id e = ue, l') \<and> (\<forall>s. nr_sdap_get_entity ue s l' = None)"
    by (auto simp: delete_ue_filter get_entity_content content_of_None_iff sdap_key_def)
qed

theorem sdap_create_delete_witness:
  "\<exists>l' l''. nr_sdap_delete_entity 7 10 [sdap_test_entity] = Inr (True, l') \<and> nr_sdap_get_entity 7 10 l' = None \<and>
     nr_sdap_delete_ue_entities 7 [sdap_test_entity] = (True, l'')"
proof -
  have "sdap_inv [sdap_test_entity]"
    by (simp add: sdap_inv_def sdap_list_ok_def SDAP_MAX_NUM_OF_ENTITIES_def sdap_test_entity_def entity_zero_inv)
  moreover have "sdap_key sdap_test_entity = (7, 10)" by (simp add: sdap_test_entity_def entity_zero_inv)
  ultimately show ?thesis
    using sdap_create_delete [of "[sdap_test_entity]" False False False 7 10 False 1 "[]" 1] by (auto simp: sdap_key_def)
qed

end
