(* ===== verification/SdapFaults.thy ===== *)
theory SdapFaults
  imports SdapTable
begin

text \<open>
  Inputs on which the SDAP code does not do what it means to, each a run of the model from the empty
  list of entities.
\<close>

text \<open>C29: A flow without a rule goes to the default bearer without a header even where the bearer is
  configured with one: \<open>nr_sdap_qfi2drb_map\<close> stores the rule with the flags of the empty rule. The peer,
  whose bearer has the header, takes the first byte of the packet for it and drops it.\<close>

theorem sdap_default_flow_loses_byte:
  "(case sdap_run [NewSdapEntity True True True 7 10 True 1 [5] 1, SdapDataReq True 7 1 [0x45, 66] 6 False 10] [] of
      Inr (l, outs) \<Rightarrow> snd (outs ! 1) = Some (1, [0x45, 66]) | Inl f \<Rightarrow> False) \<and>
   nr_sdap_rx_entity 1 False True 10 7 [0x45, 66] peer = Inr (peer, [NasWrite [66]])"
  by (intro conjI) (code_simp, simp add: nr_sdap_rx_entity_def bit_iff_odd_drop_bit)

text \<open>On the gNB the flows of the second bearer of a session are not configured: the entity exists
  already and only a UE updates its rules, so the SDUs of these flows go to the first bearer.\<close>

theorem sdap_second_bearer_ignored:
  "case sdap_run [NewSdapEntity True False False 7 10 True 1 [5] 1, NewSdapEntity True False False 7 10 False 2 [6] 1,
      SdapDataReq True 7 1 [65] 6 False 10] [] of
    Inr (l, outs) \<Rightarrow> snd (outs ! 2) = Some (1, [65]) | Inl f \<Rightarrow> False"
  by code_simp

text \<open>With reflective mapping, a flow without a rule gets two end markers on the default bearer, since the
  first branch leaves the stored rule empty and an empty rule differs from the bearer of the PDU.\<close>

theorem sdap_two_end_markers:
  "case sdap_run [NewSdapEntity False True True 7 10 True 1 [5] 1, SdapDataInd 2 False True 10 7 [0x89, 65]] [] of
    Inr (l, outs) \<Rightarrow> fst (outs ! 1) = [PdcpDataReq 1 [9], PdcpDataReq 1 [9], NasWrite [65]] | Inl f \<Rightarrow> False"
  by code_simp

text \<open>The list of flows is an array of pointers of which the first element is used as an array of flows:
  with two flows the second is read beyond the first.\<close>

theorem sdap_second_flow_overread:
  "sdap_run [NewSdapEntity False True True 7 10 True 1 [5] 1,
     ReconfigureSdap \<lparr>sc_header_ul_present = True, sc_header_dl_present = True, sc_flows_to_add = Some [5, 6],
       sc_flows_to_release = None\<rparr> 7 10 1] [] = Inl OutOfBounds"
  by code_simp

text \<open>Deleting from the empty list follows a null pointer: the guard needs both an empty list and a session
  out of range.\<close>

theorem sdap_delete_from_empty: "nr_sdap_delete_entity 7 10 [] = Inl NullDeref"
  by (simp add: nr_sdap_delete_entity_def)

text \<open>The gNB passes an end marker, which is a header without data, on to the core as an empty packet.\<close>

theorem sdap_end_marker_forwarded:
  "nr_sdap_rx_entity d True True session ue [nr_sdap_construct_ctrl_pdu qfi] e = Inr (e, [GtpuDataReq ue session []])"
  by (simp add: nr_sdap_rx_entity_def)

end
