(* ===== verification/PdcpManager.thy ===== *)
theory PdcpManager
  imports KeyedTable PdcpRuns
begin

text \<open>
  \<open>openair2/LAYER2/nr_pdcp/nr_pdcp_ue_manager.c\<close>: the PDCP contexts of the UEs. A function that returns
  a pointer to a context returns the context; what is changed through the pointer is stored back with
  \<open>store_by\<close>. The lock and the running out of memory are left out.
\<close>

section \<open>Contexts\<close>

record nr_pdcp_ue =
  pu_ue_id :: u64
  pu_srb :: "nr_pdcp_entity option list"
  pu_drb :: "nr_pdcp_entity option list"

record nr_pdcp_ue_manager =
  pm_ue_list :: "nr_pdcp_ue list"
  pm_enb_flag :: bool

definition new_nr_pdcp_ue_manager :: "bool \<Rightarrow> nr_pdcp_ue_manager" where
  "new_nr_pdcp_ue_manager enb_flag = \<lparr>pm_ue_list = [], pm_enb_flag = enb_flag\<rparr>"

text \<open>\<open>calloc\<close> and the identifier. There are 3 SRBs and 32 DRBs.\<close>

definition pdcp_ue_zero :: "u64 \<Rightarrow> nr_pdcp_ue" where
  "pdcp_ue_zero UEid = \<lparr>pu_ue_id = UEid, pu_srb = replicate 3 None, pu_drb = replicate 32 None\<rparr>"

fun pdcp_ue_search :: "u64 \<Rightarrow> nr_pdcp_ue list \<Rightarrow> nr_pdcp_ue option" where
  "pdcp_ue_search UEid [] = None"
| "pdcp_ue_search UEid (ue # l) = (if pu_ue_id ue = UEid then Some ue else pdcp_ue_search UEid l)"

definition nr_pdcp_manager_get_ue :: "u64 \<Rightarrow> nr_pdcp_ue_manager \<Rightarrow> nr_pdcp_ue_manager \<times> nr_pdcp_ue" where
  "nr_pdcp_manager_get_ue UEid m =
     (case pdcp_ue_search UEid (pm_ue_list m) of
        Some ue \<Rightarrow> (m, ue)
      | None \<Rightarrow> (m\<lparr>pm_ue_list := pm_ue_list m @ [pdcp_ue_zero UEid]\<rparr>, pdcp_ue_zero UEid))"

text \<open>The context is removed, after two SRBs and five DRBs of it are deleted; the deleted entities.\<close>

definition pdcp_ue_deleted :: "nr_pdcp_ue \<Rightarrow> nr_pdcp_entity list" where
  "pdcp_ue_deleted ue = concat (map (\<lambda>rb. case rb of Some e \<Rightarrow> [e] | None \<Rightarrow> [])
     (take 2 (pu_srb ue) @ take 5 (pu_drb ue)))"

fun pdcp_ue_remove :: "u64 \<Rightarrow> nr_pdcp_ue list \<Rightarrow> nr_pdcp_ue list \<times> nr_pdcp_entity list" where
  "pdcp_ue_remove UEid [] = ([], [])"
| "pdcp_ue_remove UEid (ue # l) =
     (if pu_ue_id ue = UEid then (l, pdcp_ue_deleted ue)
      else let (l', es) = pdcp_ue_remove UEid l in (ue # l', es))"

definition nr_pdcp_manager_remove_ue :: "u64 \<Rightarrow> nr_pdcp_ue_manager \<Rightarrow> nr_pdcp_ue_manager \<times> nr_pdcp_entity list" where
  "nr_pdcp_manager_remove_ue UEid m =
     (let (l, es) = pdcp_ue_remove UEid (pm_ue_list m) in (m\<lparr>pm_ue_list := l\<rparr>, es))"

definition nr_pdcp_ue_add_srb_pdcp_entity :: "int \<Rightarrow> nr_pdcp_entity \<Rightarrow> nr_pdcp_ue \<Rightarrow> nr_pdcp_ue res" where
  "nr_pdcp_ue_add_srb_pdcp_entity srb_id e ue =
     (if srb_id < 1 \<or> srb_id > 2 then Inl ExitFatal
      else if pu_srb ue ! nat (srb_id - 1) \<noteq> None then Inl ExitFatal
      else Inr (ue\<lparr>pu_srb := (pu_srb ue)[nat (srb_id - 1) := Some e]\<rparr>))"

definition nr_pdcp_ue_add_drb_pdcp_entity :: "int \<Rightarrow> nr_pdcp_entity \<Rightarrow> nr_pdcp_ue \<Rightarrow> nr_pdcp_ue res" where
  "nr_pdcp_ue_add_drb_pdcp_entity drb_id e ue =
     (if drb_id < 1 \<or> drb_id > 5 then Inl ExitFatal
      else if pu_drb ue ! nat (drb_id - 1) \<noteq> None then Inl ExitFatal
      else Inr (ue\<lparr>pu_drb := (pu_drb ue)[nat (drb_id - 1) := Some e]\<rparr>))"

definition nr_pdcp_get_first_ue_id :: "nr_pdcp_ue_manager \<Rightarrow> u64 option" where
  "nr_pdcp_get_first_ue_id m = (case pm_ue_list m of [] \<Rightarrow> None | ue # l \<Rightarrow> Some (pu_ue_id ue))"

text \<open>\<open>nr_pdcp_get_rb\<close> of \<open>nr_pdcp_oai_api.c\<close>, and the change of the entity through its pointer.\<close>

definition nr_pdcp_get_rb :: "nr_pdcp_ue \<Rightarrow> int \<Rightarrow> bool \<Rightarrow> nr_pdcp_entity option" where
  "nr_pdcp_get_rb ue rb_id srb_flag =
     (if srb_flag
      then if rb_id < 1 \<or> rb_id > 2 then None else pu_srb ue ! nat (rb_id - 1)
      else if rb_id < 1 \<or> rb_id > 32 then None else pu_drb ue ! nat (rb_id - 1))"

definition pdcp_set_rb :: "int \<Rightarrow> bool \<Rightarrow> nr_pdcp_entity option \<Rightarrow> nr_pdcp_ue \<Rightarrow> nr_pdcp_ue" where
  "pdcp_set_rb rb_id srb_flag rb ue =
     (if srb_flag then ue\<lparr>pu_srb := (pu_srb ue)[nat (rb_id - 1) := rb]\<rparr>
      else ue\<lparr>pu_drb := (pu_drb ue)[nat (rb_id - 1) := rb]\<rparr>)"

definition pdcp_store_ue :: "nr_pdcp_ue \<Rightarrow> nr_pdcp_ue_manager \<Rightarrow> nr_pdcp_ue_manager" where
  "pdcp_store_ue ue m = m\<lparr>pm_ue_list := store_by pu_ue_id ue (pm_ue_list m)\<rparr>"

section \<open>The manager as a directory\<close>

definition pdcp_mgr_ok :: "nr_pdcp_ue_manager \<Rightarrow> bool" where
  "pdcp_mgr_ok m \<longleftrightarrow> distinct (map pu_ue_id (pm_ue_list m))"

definition pdcp_contexts :: "nr_pdcp_ue_manager \<Rightarrow> u64 \<Rightarrow> nr_pdcp_ue option" where
  "pdcp_contexts m = content_of pu_ue_id (pm_ue_list m)"

lemma pdcp_ue_search_content: "pdcp_ue_search UEid l = content_of pu_ue_id l UEid"
  by (induction l) (auto simp: content_of_Cons)

lemma pdcp_ue_remove_filter:
  "distinct (map pu_ue_id l) \<Longrightarrow> fst (pdcp_ue_remove UEid l) = filter (\<lambda>ue. pu_ue_id ue \<noteq> UEid) l"
proof (induction l)
  case (Cons ue l)
  show ?case
  proof (cases "pu_ue_id ue = UEid")
    case True
    then have "UEid \<notin> pu_ue_id ` set l" using Cons.prems by auto
    then have "filter (\<lambda>u. pu_ue_id u \<noteq> UEid) l = l" by (metis (mono_tags, lifting) filter_True image_eqI)
    then show ?thesis using True by simp
  qed (use Cons in \<open>simp add: case_prod_beta\<close>)
qed simp

interpretation pdcp_mgr: keyed_directory pdcp_mgr_ok pdcp_contexts pu_ue_id
  "\<lambda>k m. pdcp_ue_search k (pm_ue_list m)" pdcp_store_ue "\<lambda>k m. fst (nr_pdcp_manager_remove_ue k m)"
  pdcp_ue_zero nr_pdcp_manager_get_ue
proof
  fix t k e assume t: "pdcp_mgr_ok t"
  show "pdcp_ue_search k (pm_ue_list t) = pdcp_contexts t k"
    by (simp add: pdcp_ue_search_content pdcp_contexts_def)
  show "pdcp_contexts t k = Some e \<Longrightarrow> pu_ue_id e = k"
    using content_of_SomeD [of pu_ue_id "pm_ue_list t" k e] by (simp add: pdcp_contexts_def)
  show "pdcp_mgr_ok (pdcp_store_ue e t) \<and> pdcp_contexts (pdcp_store_ue e t) = (pdcp_contexts t)(pu_ue_id e \<mapsto> e)"
    if "pdcp_contexts t (pu_ue_id e) \<noteq> None"
    using that t by (auto simp: pdcp_mgr_ok_def pdcp_contexts_def pdcp_store_ue_def content_of_store_by content_of_None_iff fun_eq_iff)
  show "pdcp_mgr_ok (fst (nr_pdcp_manager_remove_ue k t)) \<and>
      pdcp_contexts (fst (nr_pdcp_manager_remove_ue k t)) = (pdcp_contexts t)(k := None)"
    using t pdcp_ue_remove_filter [of "pm_ue_list t" k] distinct_key_filter [of pu_ue_id "pm_ue_list t"]
    by (simp add: nr_pdcp_manager_remove_ue_def case_prod_beta pdcp_mgr_ok_def pdcp_contexts_def content_of_filter)
  show "pdcp_mgr_ok t' \<and> e = (case pdcp_contexts t k of Some x \<Rightarrow> x | None \<Rightarrow> pdcp_ue_zero k) \<and>
      pdcp_contexts t' = (pdcp_contexts t)(k \<mapsto> e)" if "nr_pdcp_manager_get_ue k t = (t', e)" for t'
  proof (cases "content_of pu_ue_id (pm_ue_list t) k")
    case None
    then have "k \<notin> pu_ue_id ` set (pm_ue_list t)" by (simp add: content_of_None_iff)
    with None t that show ?thesis
      by (auto simp: nr_pdcp_manager_get_ue_def pdcp_ue_search_content pdcp_mgr_ok_def pdcp_contexts_def
          pdcp_ue_zero_def content_of_append content_of_Cons fun_eq_iff split: option.splits)
  next
    case (Some x)
    with t that show ?thesis
      by (auto simp: nr_pdcp_manager_get_ue_def pdcp_ue_search_content pdcp_contexts_def fun_eq_iff)
  qed
next
  show "pu_ue_id (pdcp_ue_zero k) = k" for k by (simp add: pdcp_ue_zero_def)
qed

end
