(* ===== verification/F1apIds.thy ===== *)
theory F1apIds
  imports Prelude
begin

text \<open>
  \<open>openair2/F1AP/f1ap_ids.c\<close>: the identifier a UE has at the other end of F1, for the CU and for the
  DU. The hash table (\<open>common/utils/hashtable\<close>) is a map; a lookup that fails leaves a null pointer,
  which the getters follow.
\<close>

type_synonym f1_table = "u32 \<Rightarrow> u32 option"

definition cu_init_f1_ue_data :: f1_table where
  "cu_init_f1_ue_data = (\<lambda>ue_id. None)"

definition cu_add_f1_ue_data :: "u32 \<Rightarrow> u32 \<Rightarrow> f1_table \<Rightarrow> bool \<times> f1_table" where
  "cu_add_f1_ue_data ue_id secondary_ue t = (if t ue_id \<noteq> None then (False, t) else (True, t(ue_id \<mapsto> secondary_ue)))"

definition cu_exists_f1_ue_data :: "u32 \<Rightarrow> f1_table \<Rightarrow> bool" where
  "cu_exists_f1_ue_data ue_id t = (t ue_id \<noteq> None)"

definition cu_get_f1_ue_data :: "u32 \<Rightarrow> f1_table \<Rightarrow> u32 res" where
  "cu_get_f1_ue_data ue_id t = (case t ue_id of Some d \<Rightarrow> Inr d | None \<Rightarrow> Inl NullDeref)"

definition cu_remove_f1_ue_data :: "u32 \<Rightarrow> f1_table \<Rightarrow> bool \<times> f1_table" where
  "cu_remove_f1_ue_data ue_id t = (t ue_id \<noteq> None, t(ue_id := None))"

definition du_init_f1_ue_data :: f1_table where
  "du_init_f1_ue_data = (\<lambda>ue_id. None)"

definition du_add_f1_ue_data :: "u32 \<Rightarrow> u32 \<Rightarrow> f1_table \<Rightarrow> bool \<times> f1_table" where
  "du_add_f1_ue_data ue_id secondary_ue t = (if t ue_id \<noteq> None then (False, t) else (True, t(ue_id \<mapsto> secondary_ue)))"

definition du_exists_f1_ue_data :: "u32 \<Rightarrow> f1_table \<Rightarrow> bool" where
  "du_exists_f1_ue_data ue_id t = (t ue_id \<noteq> None)"

definition du_get_f1_ue_data :: "u32 \<Rightarrow> f1_table \<Rightarrow> u32 res" where
  "du_get_f1_ue_data ue_id t = (case t ue_id of Some d \<Rightarrow> Inr d | None \<Rightarrow> Inl NullDeref)"

definition du_remove_f1_ue_data :: "u32 \<Rightarrow> f1_table \<Rightarrow> bool \<times> f1_table" where
  "du_remove_f1_ue_data ue_id t = (t ue_id \<noteq> None, t(ue_id := None))"

end
