(* ===== verification/PdcpApi.thy ===== *)
theory PdcpApi
  imports PdcpManager SdapTable F1apIds
begin

text \<open>
  \<open>openair2/LAYER2/nr_pdcp/nr_pdcp_oai_api.c\<close>, with the thread of \<open>nr_pdcp_timer_thread.c\<close> and the
  decoders of \<open>asn1_utils.c\<close>: the bearers of the UEs between SDAP, RRC and RLC. The functions run under
  one recursive lock, so each is one operation on the module. What they hand to other modules is an
  event, in the order of the calls.

  While PDCP delivers an SDU, SDAP may submit an end marker to a bearer, even the same one. The code
  then sends in the middle of the reception. Sending uses other fields of the entity than receiving
  does, so the model finishes the reception first.
\<close>

section \<open>The module\<close>

record pdcp_module =
  md_ues :: nr_pdcp_ue_manager
  md_sdap :: "nr_sdap_entity list"
  md_f1 :: f1_table
  md_time :: u64
  md_last_frame :: int
  md_last_subframe :: int

text \<open>
  How the program was started: the cryptographic functions, whether packets go to a TUN interface
  (\<open>IS_SOFTMODEM_NOS1 || UE_NAS_USE_TUN\<close>), whether the node is a CU.
\<close>

record pdcp_api_env =
  ae_crypto :: crypto_env
  ae_tun :: bool
  ae_cu :: bool

record protocol_ctxt =
  cx_module_id :: int
  cx_enb_flag :: bool
  cx_instance :: int
  cx_rntiMaybeUEid :: u64
  cx_eNB_index :: int
  cx_brOption :: bool

text \<open>
  \<open>RlcDataReq\<close>: \<open>enqueue_rlc_data_req\<close> with the flag and the identifier of the context, the kind and the
  number of the bearer. The others are messages to GTP-U and RRC, and a write to the interface.
\<close>

datatype pdcp_event =
    RlcDataReq bool u64 bool int "byte list"
  | GtpuTunnelReq u64 int "byte list"
  | UlRrcMessage u64 u32 int "byte list"
  | DcchDataInd u64 int "byte list" nr_pdcp_integrity_data
  | NasData "byte list"

section \<open>Decoders of \<open>asn1_utils.c\<close>\<close>

definition t_reordering_tab :: "int list" where
  "t_reordering_tab = [0, 1, 2, 4, 5, 8, 10, 15, 20, 30, 40, 50, 60, 80, 100, 120, 140, 160,
     180, 200, 220, 240, 260, 280, 300, 500, 750, 1000, 1250, 1500, 1750, 2000, 2250, 2500, 2750, 3000]"

definition decode_t_reordering :: "int \<Rightarrow> int res" where
  "decode_t_reordering v = (if v < 0 \<or> v > 35 then Inl ExitFatal else Inr (t_reordering_tab ! nat v))"

definition decode_sn_size_ul :: "int \<Rightarrow> nat res" where
  "decode_sn_size_ul s = (if s = 0 then Inr 12 else if s = 1 then Inr 18 else Inl ExitFatal)"

definition decode_sn_size_dl :: "int \<Rightarrow> nat res" where
  "decode_sn_size_dl s = (if s = 0 then Inr 12 else if s = 1 then Inr 18 else Inl ExitFatal)"

definition discard_timer_tab :: "int list" where
  "discard_timer_tab = [10, 20, 30, 40, 50, 60, 75, 100, 150, 200, 250, 300, 500, 750, 1500, - 1]"

definition decode_discard_timer :: "int \<Rightarrow> int res" where
  "decode_discard_timer v = (if v < 0 \<or> v > 15 then Inl ExitFatal else Inr (discard_timer_tab ! nat v))"

section \<open>Sending\<close>

definition deliver_pdu_drb_ue :: "u64 \<Rightarrow> int \<Rightarrow> byte list \<Rightarrow> pdcp_event" where
  "deliver_pdu_drb_ue ue_id rb_id buf = RlcDataReq False ue_id False rb_id buf"

definition deliver_pdu_drb_gnb :: "pdcp_api_env \<Rightarrow> f1_table \<Rightarrow> u64 \<Rightarrow> int \<Rightarrow> byte list \<Rightarrow> pdcp_event res" where
  "deliver_pdu_drb_gnb env f1 ue_id rb_id buf =
     res_bind (cu_get_f1_ue_data (ucast ue_id) f1) (\<lambda>secondary_ue.
       Inr (if ae_cu env then GtpuTunnelReq ue_id rb_id buf
            else RlcDataReq True (ucast secondary_ue) False rb_id buf))"

definition deliver_pdu_srb_rlc :: "u64 \<Rightarrow> int \<Rightarrow> byte list \<Rightarrow> pdcp_event" where
  "deliver_pdu_srb_rlc ue_id srb_id buf = RlcDataReq True ue_id True srb_id buf"

text \<open>What the functions start with: the context and the bearer.\<close>

definition pdcp_find_rb :: "u64 \<Rightarrow> int \<Rightarrow> bool \<Rightarrow> pdcp_module \<Rightarrow> pdcp_module \<times> nr_pdcp_ue \<times> nr_pdcp_entity option" where
  "pdcp_find_rb ue_id rb_id srb_flag md =
     (let (m, ue) = nr_pdcp_manager_get_ue ue_id (md_ues md)
      in (md\<lparr>md_ues := m\<rparr>, ue, nr_pdcp_get_rb ue rb_id srb_flag))"

definition pdcp_save_rb :: "nr_pdcp_ue \<Rightarrow> int \<Rightarrow> bool \<Rightarrow> nr_pdcp_entity option \<Rightarrow> pdcp_module \<Rightarrow> pdcp_module" where
  "pdcp_save_rb ue rb_id srb_flag rb = md_ues_update (pdcp_store_ue (pdcp_set_rb rb_id srb_flag rb ue))"

definition nr_pdcp_data_req_drb ::
  "pdcp_api_env \<Rightarrow> protocol_ctxt \<Rightarrow> bool \<Rightarrow> int \<Rightarrow> byte list \<Rightarrow> pdcp_module \<Rightarrow>
   (pdcp_module \<times> bool \<times> pdcp_event list) res" where
  "nr_pdcp_data_req_drb env cx srb_flag rb_id sdu md =
     (if srb_flag then Inl AssertFailed
      else if cx_module_id cx \<noteq> 0 \<or> cx_instance cx \<noteq> 0 \<or> cx_eNB_index cx \<noteq> 0 then Inl ExitFatal
      else let ue_id = cx_rntiMaybeUEid cx; (md1, ue, rb) = pdcp_find_rb ue_id rb_id False md
           in case rb of
                None \<Rightarrow> Inr (md1, False, [])
              | Some e \<Rightarrow>
                  res_bind (nr_pdcp_entity_process_sdu (ae_crypto env) sdu (nr_max_pdcp_pdu_size (int (length sdu))) e)
                    (\<lambda>(e', pdu).
                     let md2 = pdcp_save_rb ue rb_id False (Some e') md1
                     in case pdu of
                          None \<Rightarrow> Inr (md2, False, [])
                        | Some b \<Rightarrow> res_bind (if pd_is_gnb e then deliver_pdu_drb_gnb env (md_f1 md2) ue_id rb_id b
                                             else Inr (deliver_pdu_drb_ue ue_id rb_id b)) (\<lambda>ev.
                                    Inr (md2, True, [ev]))))"

text \<open>The PDU is given to the callback of the caller.\<close>

definition nr_pdcp_data_req_srb ::
  "pdcp_api_env \<Rightarrow> u64 \<Rightarrow> int \<Rightarrow> byte list \<Rightarrow> pdcp_module \<Rightarrow> (pdcp_module \<times> bool \<times> byte list option) res" where
  "nr_pdcp_data_req_srb env ue_id rb_id sdu md =
     (let (md1, ue, rb) = pdcp_find_rb ue_id rb_id True md
      in case rb of
           None \<Rightarrow> Inr (md1, False, None)
         | Some e \<Rightarrow>
             res_bind (nr_pdcp_entity_process_sdu (ae_crypto env) sdu (nr_max_pdcp_pdu_size (int (length sdu))) e)
               (\<lambda>(e', pdu). Inr (pdcp_save_rb ue rb_id True (Some e') md1, pdu \<noteq> None, pdu)))"

section \<open>Receiving\<close>

definition deliver_sdu_srb :: "f1_table \<Rightarrow> u64 \<Rightarrow> nr_pdcp_entity \<Rightarrow> int \<Rightarrow> nr_pdcp_sdu \<Rightarrow> pdcp_event res" where
  "deliver_sdu_srb f1 ue_id e srb_id s =
     (if pd_is_gnb e
      then res_bind (cu_get_f1_ue_data (ucast ue_id) f1) (\<lambda>secondary_ue.
             Inr (UlRrcMessage ue_id secondary_ue srb_id (su_buffer s)))
      else Inr (DcchDataInd ue_id srb_id (su_buffer s) (su_integrity s)))"

definition deliver_sdu_drb ::
  "pdcp_api_env \<Rightarrow> u64 \<Rightarrow> nr_pdcp_entity \<Rightarrow> int \<Rightarrow> nr_pdcp_sdu \<Rightarrow> nr_sdap_entity list \<Rightarrow>
   (nr_sdap_entity list \<times> sdap_event list) res" where
  "deliver_sdu_drb env ue_id e rb_id s l =
     (if ae_tun env
      then sdap_data_ind (pd_rb_id e) False (pd_has_sdap_rx e) (pd_pdusession_id e) ue_id (su_buffer s) l
      else sdap_data_ind rb_id (pd_is_gnb e) (pd_has_sdap_rx e) (pd_pdusession_id e) ue_id (su_buffer s) l)"

text \<open>\<open>nr_pdcp_submit_sdap_ctrl_pdu\<close> of \<open>nr_sdap_entity.c\<close>.\<close>

definition nr_pdcp_submit_sdap_ctrl_pdu ::
  "pdcp_api_env \<Rightarrow> u64 \<Rightarrow> int \<Rightarrow> byte list \<Rightarrow> pdcp_module \<Rightarrow> (pdcp_module \<times> bool \<times> pdcp_event list) res" where
  "nr_pdcp_submit_sdap_ctrl_pdu env ue_id drb ctrl_pdu md =
     nr_pdcp_data_req_drb env \<lparr>cx_module_id = 0, cx_enb_flag = False, cx_instance = 0, cx_rntiMaybeUEid = ue_id,
       cx_eNB_index = 0, cx_brOption = False\<rparr> False drb ctrl_pdu md"

fun sdap_events_done ::
  "pdcp_api_env \<Rightarrow> u64 \<Rightarrow> sdap_event list \<Rightarrow> pdcp_module \<Rightarrow> (pdcp_module \<times> pdcp_event list) res" where
  "sdap_events_done env ue_id [] md = Inr (md, [])"
| "sdap_events_done env ue_id (x # xs) md =
     res_bind (case x of
         PdcpDataReq drb pdu \<Rightarrow> res_bind (nr_pdcp_submit_sdap_ctrl_pdu env ue_id drb pdu md) (\<lambda>(md1, ret, evs). Inr (md1, evs))
       | GtpuDataReq ue s b \<Rightarrow> Inr (md, [GtpuTunnelReq ue s b])
       | NasWrite b \<Rightarrow> Inr (md, [NasData b])) (\<lambda>(md1, evs1).
     res_bind (sdap_events_done env ue_id xs md1) (\<lambda>(md2, evs2). Inr (md2, evs1 @ evs2)))"

text \<open>The calls of \<open>deliver_sdu\<close> for the SDUs an entity delivers.\<close>

fun pdcp_deliver_sdus ::
  "pdcp_api_env \<Rightarrow> u64 \<Rightarrow> bool \<Rightarrow> int \<Rightarrow> nr_pdcp_entity \<Rightarrow> nr_pdcp_sdu list \<Rightarrow> pdcp_module \<Rightarrow>
   (pdcp_module \<times> pdcp_event list) res" where
  "pdcp_deliver_sdus env ue_id srb_flag rb_id e [] md = Inr (md, [])"
| "pdcp_deliver_sdus env ue_id srb_flag rb_id e (s # ss) md =
     res_bind (if srb_flag
               then res_bind (deliver_sdu_srb (md_f1 md) ue_id e rb_id s) (\<lambda>ev. Inr (md, [ev]))
               else res_bind (deliver_sdu_drb env ue_id e rb_id s (md_sdap md)) (\<lambda>(l, xs).
                    sdap_events_done env ue_id xs (md\<lparr>md_sdap := l\<rparr>))) (\<lambda>(md1, evs1).
     res_bind (pdcp_deliver_sdus env ue_id srb_flag rb_id e ss md1) (\<lambda>(md2, evs2). Inr (md2, evs1 @ evs2)))"

definition do_pdcp_data_ind ::
  "pdcp_api_env \<Rightarrow> protocol_ctxt \<Rightarrow> bool \<Rightarrow> int \<Rightarrow> byte list \<Rightarrow> pdcp_module \<Rightarrow> (pdcp_module \<times> pdcp_event list) res" where
  "do_pdcp_data_ind env cx srb_flag rb_id buf md =
     (if cx_module_id cx \<noteq> 0 \<or> cx_instance cx \<noteq> 0 \<or> cx_eNB_index cx \<noteq> 0 \<or> cx_brOption cx then Inl ExitFatal
      else let ue_id = cx_rntiMaybeUEid cx; (md1, ue, rb) = pdcp_find_rb ue_id rb_id srb_flag md
           in case rb of
                None \<Rightarrow> Inr (md1, [])
              | Some e \<Rightarrow> res_bind (nr_pdcp_entity_recv_pdu (ae_crypto env) buf e) (\<lambda>(e', out).
                  pdcp_deliver_sdus env ue_id srb_flag rb_id e out (pdcp_save_rb ue rb_id srb_flag (Some e') md1)))"

end
