(* ===== verification/PdcpConfig.thy ===== *)
theory PdcpConfig
  imports PdcpApi
begin

text \<open>
  The rest of \<open>nr_pdcp_oai_api.c\<close>: adding, reconfiguring, suspending and releasing bearers, security,
  time. Types generated from ASN.1 are records of the fields the code uses; \<open>None\<close> is a null pointer.
\<close>

section \<open>Configurations\<close>

record srb_to_add_mod =
  sa_srb_identity :: int
  sa_t_reordering :: "int option"

record drb_pdcp_config =
  dp_sn_size_ul :: "int option"
  dp_sn_size_dl :: "int option"
  dp_discard_timer :: "int option"
  dp_integrity_protection :: bool

record pdcp_config =
  pc_drb :: "drb_pdcp_config option"
  pc_t_reordering :: "int option"
  pc_ciphering_disabled :: bool

text \<open>The PDU session, whether the bearer is the default one, headers and flows.\<close>

datatype cn_association = CnNothing | CnEpsBearer int | CnSdap "(int \<times> bool \<times> sdap_config) option"

record drb_to_add_mod =
  da_drb_identity :: int
  da_pdcp_config :: pdcp_config
  da_cn :: "cn_association option"

definition asn1_deref :: "'a option \<Rightarrow> 'a res" where
  "asn1_deref p = (case p of Some x \<Rightarrow> Inr x | None \<Rightarrow> Inl NullDeref)"

definition opt_t_reordering :: "int option \<Rightarrow> int res" where
  "opt_t_reordering t = (case t of Some v \<Rightarrow> decode_t_reordering v | None \<Rightarrow> Inr (- 1))"

section \<open>Adding bearers\<close>

definition add_srb ::
  "bool \<Rightarrow> u64 \<Rightarrow> srb_to_add_mod \<Rightarrow> security_keys_and_algos \<Rightarrow> pdcp_module \<Rightarrow> pdcp_module res" where
  "add_srb is_gnb UEid s p md =
     (let srb_id = sa_srb_identity s
      in res_bind (opt_t_reordering (sa_t_reordering s)) (\<lambda>t_Reordering.
         let (md1, ue, rb) = pdcp_find_rb UEid srb_id True md
         in if rb \<noteq> None then Inr md1
            else res_bind (new_nr_pdcp_entity NR_PDCP_SRB is_gnb srb_id 0 False False 12 t_Reordering (- 1) p) (\<lambda>e.
                 res_bind (nr_pdcp_ue_add_srb_pdcp_entity srb_id e ue) (\<lambda>ue'.
                 Inr (md_ues_update (pdcp_store_ue ue') md1)))))"

text \<open>The session, the headers, whether the bearer is the default one, the flows and their number.\<close>

definition drb_cn_config ::
  "bool \<Rightarrow> cn_association option \<Rightarrow> (int \<times> bool \<times> bool \<times> bool \<times> int list \<times> byte) res" where
  "drb_cn_config is_gnb cn =
     (case cn of
        None \<Rightarrow> Inl ExitFatal
      | Some CnNothing \<Rightarrow> Inl ExitFatal
      | Some (CnEpsBearer i) \<Rightarrow> Inr (i, False, False, False, [], 0)
      | Some (CnSdap None) \<Rightarrow> Inl ExitFatal
      | Some (CnSdap (Some (session, is_default, c))) \<Rightarrow>
          res_bind (asn1_first (sc_flows_to_add c)) (\<lambda>mapped.
            Inr (session, is_sdap_rx is_gnb c, is_sdap_tx is_gnb c, is_default, mapped,
                 word_of_nat (length (the (sc_flows_to_add c))))))"

definition drb_security :: "bool \<Rightarrow> bool \<Rightarrow> security_keys_and_algos \<Rightarrow> security_keys_and_algos" where
  "drb_security has_ciphering has_integrity p =
     p\<lparr>sp_ciphering_algorithm := (if has_ciphering then sp_ciphering_algorithm p else 0),
       sp_integrity_algorithm := (if has_integrity then sp_integrity_algorithm p else 0)\<rparr>"

definition add_drb ::
  "pdcp_api_env \<Rightarrow> bool \<Rightarrow> u64 \<Rightarrow> drb_to_add_mod \<Rightarrow> security_keys_and_algos \<Rightarrow> pdcp_module \<Rightarrow> (pdcp_module \<times> pdcp_event list) res" where
  "add_drb env is_gnb UEid s p md =
     (let drb_id = da_drb_identity s; c = da_pdcp_config s
      in res_bind (asn1_deref (pc_drb c)) (\<lambda>d.
         res_bind (res_bind (asn1_deref (dp_sn_size_ul d)) decode_sn_size_ul) (\<lambda>sn_size_ul.
         res_bind (res_bind (asn1_deref (dp_sn_size_dl d)) decode_sn_size_dl) (\<lambda>sn_size_dl.
         res_bind (res_bind (asn1_deref (dp_discard_timer d)) decode_discard_timer) (\<lambda>discard_timer.
         res_bind (opt_t_reordering (pc_t_reordering c)) (\<lambda>t_reordering.
         res_bind (drb_cn_config is_gnb (da_cn s)) (\<lambda>(session, sdap_rx, sdap_tx, is_default, mapped, count).
         if sn_size_ul \<noteq> sn_size_dl then Inl ExitFatal
         else let (md1, ue, rb) = pdcp_find_rb UEid drb_id False md
              in if rb \<noteq> None then Inr (md1, [])
                 else res_bind (new_nr_pdcp_entity NR_PDCP_DRB_AM is_gnb drb_id session sdap_rx sdap_tx sn_size_dl
                                  t_reordering discard_timer
                                  (drb_security (\<not> pc_ciphering_disabled c) (dp_integrity_protection d) p)) (\<lambda>e.
                      res_bind (nr_pdcp_ue_add_drb_pdcp_entity drb_id e ue) (\<lambda>ue'.
                      res_bind (new_nr_sdap_entity is_gnb sdap_rx sdap_tx UEid session is_default (word_of_int drb_id)
                                  mapped count (md_sdap md1)) (\<lambda>(l, evs).
                      sdap_events_done env UEid evs
                        (md1\<lparr>md_ues := pdcp_store_ue ue' (md_ues md1), md_sdap := l\<rparr>)))))))))))"

text \<open>A null list of bearers only gives a warning.\<close>

fun nr_pdcp_add_srbs ::
  "bool \<Rightarrow> u64 \<Rightarrow> srb_to_add_mod list \<Rightarrow> security_keys_and_algos \<Rightarrow> pdcp_module \<Rightarrow> pdcp_module res" where
  "nr_pdcp_add_srbs enb_flag UEid [] p md = Inr md"
| "nr_pdcp_add_srbs enb_flag UEid (s # ss) p md =
     res_bind (add_srb enb_flag UEid s p md) (nr_pdcp_add_srbs enb_flag UEid ss p)"

fun nr_pdcp_add_drbs ::
  "pdcp_api_env \<Rightarrow> bool \<Rightarrow> u64 \<Rightarrow> drb_to_add_mod list \<Rightarrow> security_keys_and_algos \<Rightarrow> pdcp_module \<Rightarrow>
   (pdcp_module \<times> pdcp_event list) res" where
  "nr_pdcp_add_drbs env enb_flag UEid [] p md = Inr (md, [])"
| "nr_pdcp_add_drbs env enb_flag UEid (s # ss) p md =
     res_bind (add_drb env enb_flag UEid s p md) (\<lambda>(md1, evs1).
     res_bind (nr_pdcp_add_drbs env enb_flag UEid ss p md1) (\<lambda>(md2, evs2). Inr (md2, evs1 @ evs2)))"

section \<open>Changing bearers\<close>

definition nr_pdcp_config_set_security ::
  "u64 \<Rightarrow> int \<Rightarrow> bool \<Rightarrow> security_keys_and_algos \<Rightarrow> pdcp_module \<Rightarrow> pdcp_module res" where
  "nr_pdcp_config_set_security ue_id rb_id is_srb p md =
     (let (md1, ue, rb) = pdcp_find_rb ue_id rb_id is_srb md
      in case rb of
           None \<Rightarrow> Inr md1
         | Some e \<Rightarrow> res_bind (nr_pdcp_entity_set_security p e) (\<lambda>e'. Inr (pdcp_save_rb ue rb_id is_srb (Some e') md1)))"

definition nr_pdcp_check_integrity_srb ::
  "pdcp_api_env \<Rightarrow> u64 \<Rightarrow> int \<Rightarrow> byte list \<Rightarrow> nr_pdcp_integrity_data \<Rightarrow> pdcp_module \<Rightarrow> (pdcp_module \<times> bool) res" where
  "nr_pdcp_check_integrity_srb env ue_id srb_id msg mi md =
     (let (md1, ue, rb) = pdcp_find_rb ue_id srb_id True md
      in case rb of
           None \<Rightarrow> Inr (md1, False)
         | Some e \<Rightarrow> res_bind (nr_pdcp_entity_check_integrity (ae_crypto env) msg mi e) (\<lambda>ok. Inr (md1, ok)))"

text \<open>\<open>nr_pdcp_suspend_srb\<close> and \<open>nr_pdcp_suspend_drb\<close>: what is stored is delivered.\<close>

definition nr_pdcp_suspend_srb :: "pdcp_api_env \<Rightarrow> u64 \<Rightarrow> int \<Rightarrow> pdcp_module \<Rightarrow> (pdcp_module \<times> pdcp_event list) res" where
  "nr_pdcp_suspend_srb env ue_id srb_id md =
     (let (md1, ue, rb) = pdcp_find_rb ue_id srb_id True md
      in case rb of
           None \<Rightarrow> Inr (md1, [])
         | Some e \<Rightarrow> let (e', out) = nr_pdcp_entity_suspend e
                    in pdcp_deliver_sdus env ue_id True srb_id e out (pdcp_save_rb ue srb_id True (Some e') md1))"

definition nr_pdcp_suspend_drb :: "pdcp_api_env \<Rightarrow> u64 \<Rightarrow> int \<Rightarrow> pdcp_module \<Rightarrow> (pdcp_module \<times> pdcp_event list) res" where
  "nr_pdcp_suspend_drb env ue_id drb_id md =
     (let (md1, ue, rb) = pdcp_find_rb ue_id drb_id False md
      in case rb of
           None \<Rightarrow> Inr (md1, [])
         | Some e \<Rightarrow> let (e', out) = nr_pdcp_entity_suspend e
                    in pdcp_deliver_sdus env ue_id False drb_id e out (pdcp_save_rb ue drb_id False (Some e') md1))"

definition nr_pdcp_reconfigure_srb :: "u64 \<Rightarrow> int \<Rightarrow> int \<Rightarrow> pdcp_module \<Rightarrow> pdcp_module res" where
  "nr_pdcp_reconfigure_srb ue_id srb_id t_Reordering md =
     (let (md1, ue, rb) = pdcp_find_rb ue_id srb_id True md
      in case rb of
           None \<Rightarrow> Inr md1
         | Some e \<Rightarrow> res_bind (decode_t_reordering t_Reordering) (\<lambda>t.
             Inr (pdcp_save_rb ue srb_id True (Some (e\<lparr>pd_t_reordering := t\<rparr>)) md1)))"

definition drb_reconfigured :: "pdcp_config \<Rightarrow> nr_pdcp_entity \<Rightarrow> nr_pdcp_entity res" where
  "drb_reconfigured c e =
     res_bind (opt_t_reordering (pc_t_reordering c)) (\<lambda>t.
     let e1 = e\<lparr>pd_t_reordering := t\<rparr>
     in case pc_drb c of
          None \<Rightarrow> Inr e1
        | Some d \<Rightarrow>
            res_bind (case dp_discard_timer d of None \<Rightarrow> Inr e1
                      | Some v \<Rightarrow> res_bind (decode_discard_timer v) (\<lambda>dt. Inr (e1\<lparr>pd_discard_timer := dt\<rparr>))) (\<lambda>e2.
            res_bind (case dp_sn_size_ul d of None \<Rightarrow> Inr e2
                      | Some v \<Rightarrow> res_bind (decode_sn_size_ul v) (\<lambda>n. Inr (e2\<lparr>pd_sn_size := n\<rparr>))) (\<lambda>e3.
            case dp_sn_size_dl d of None \<Rightarrow> Inr e3
            | Some v \<Rightarrow> res_bind (decode_sn_size_dl v) (\<lambda>n.
                if dp_sn_size_ul d \<noteq> None \<and> n \<noteq> pd_sn_size e3 then Inl AssertFailed
                else Inr (e3\<lparr>pd_sn_size := n\<rparr>)))))"

definition nr_pdcp_reconfigure_drb :: "u64 \<Rightarrow> int \<Rightarrow> pdcp_config option \<Rightarrow> pdcp_module \<Rightarrow> pdcp_module res" where
  "nr_pdcp_reconfigure_drb ue_id drb_id c md =
     (let (md1, ue, rb) = pdcp_find_rb ue_id drb_id False md
      in case rb of
           None \<Rightarrow> Inr md1
         | Some e \<Rightarrow>
             (case c of
                None \<Rightarrow> Inr md1
              | Some c \<Rightarrow> res_bind (drb_reconfigured c e) (\<lambda>e'. Inr (pdcp_save_rb ue drb_id False (Some e') md1))))"

text \<open>The number of the bearer is not checked by the two releases.\<close>

definition nr_pdcp_release_srb :: "u64 \<Rightarrow> int \<Rightarrow> pdcp_module \<Rightarrow> pdcp_module res" where
  "nr_pdcp_release_srb ue_id srb_id md =
     (let (m, ue) = nr_pdcp_manager_get_ue ue_id (md_ues md); md1 = md\<lparr>md_ues := m\<rparr>
      in if srb_id < 1 \<or> srb_id > 3 then Inl OutOfBounds
         else Inr (pdcp_save_rb ue srb_id True None md1))"

definition nr_pdcp_release_drb :: "pdcp_api_env \<Rightarrow> u64 \<Rightarrow> int \<Rightarrow> pdcp_module \<Rightarrow> (pdcp_module \<times> pdcp_event list) res" where
  "nr_pdcp_release_drb env ue_id drb_id md =
     (let (m, ue) = nr_pdcp_manager_get_ue ue_id (md_ues md); md1 = md\<lparr>md_ues := m\<rparr>
      in if drb_id < 1 \<or> drb_id > 32 then Inl OutOfBounds
         else case pu_drb ue ! nat (drb_id - 1) of
                None \<Rightarrow> Inr (md1, [])
              | Some e \<Rightarrow>
                  let md2 = md_sdap_update (nr_sdap_release_drb ue_id drb_id (pd_pdusession_id e)) md1;
                      (e', out) = nr_pdcp_entity_release e
                  in res_bind (pdcp_deliver_sdus env ue_id False drb_id e out (pdcp_save_rb ue drb_id False (Some e') md2))
                       (\<lambda>(md3, evs).
                        let (md4, ue', rb) = pdcp_find_rb ue_id drb_id False md3
                        in Inr (pdcp_save_rb ue' drb_id False None md4, evs)))"

text \<open>The bearer is looked up and nothing is done with it.\<close>

definition nr_pdcp_reestablishment ::
  "u64 \<Rightarrow> int \<Rightarrow> bool \<Rightarrow> security_keys_and_algos \<Rightarrow> pdcp_module \<Rightarrow> pdcp_module" where
  "nr_pdcp_reestablishment ue_id rb_id srb_flag p md = (let (md1, ue, rb) = pdcp_find_rb ue_id rb_id srb_flag md in md1)"

definition nr_pdcp_remove_UE :: "u64 \<Rightarrow> pdcp_module \<Rightarrow> pdcp_module" where
  "nr_pdcp_remove_UE ue_id = md_ues_update (\<lambda>m. fst (nr_pdcp_manager_remove_ue ue_id m))"

definition nr_pdcp_get_num_ues :: "pdcp_module \<Rightarrow> nat \<Rightarrow> u64 list \<times> nat" where
  "nr_pdcp_get_num_ues md len =
     (let l = pm_ue_list (md_ues md) in (map pu_ue_id (take len l), length l))"

section \<open>Time\<close>

text \<open>The second result: whether the timer thread is woken up.\<close>

definition nr_pdcp_tick :: "int \<Rightarrow> int \<Rightarrow> pdcp_module \<Rightarrow> pdcp_module \<times> bool" where
  "nr_pdcp_tick frame subframe md =
     (if frame \<noteq> md_last_frame md \<or> subframe \<noteq> md_last_subframe md
      then (md\<lparr>md_last_frame := frame, md_last_subframe := subframe, md_time := md_time md + 1\<rparr>, True)
      else (md, False))"

text \<open>One round of the timer thread: two SRBs and five DRBs of every UE.\<close>

definition pdcp_timer_slots :: "nr_pdcp_ue list \<Rightarrow> (u64 \<times> bool \<times> int) list" where
  "pdcp_timer_slots l = concat (map (\<lambda>ue. map (\<lambda>j. (pu_ue_id ue, True, j)) [1, 2] @
     map (\<lambda>j. (pu_ue_id ue, False, j)) [1, 2, 3, 4, 5]) l)"

fun pdcp_timer_loop ::
  "pdcp_api_env \<Rightarrow> u64 \<Rightarrow> (u64 \<times> bool \<times> int) list \<Rightarrow> pdcp_module \<Rightarrow> (pdcp_module \<times> pdcp_event list) res" where
  "pdcp_timer_loop env now [] md = Inr (md, [])"
| "pdcp_timer_loop env now ((ue_id, srb_flag, rb_id) # slots) md =
     (let (md1, ue, rb) = pdcp_find_rb ue_id rb_id srb_flag md
      in res_bind (case rb of
                     None \<Rightarrow> Inr (md1, [])
                   | Some e \<Rightarrow> let (e', out) = nr_pdcp_entity_set_time now e
                              in pdcp_deliver_sdus env ue_id srb_flag rb_id e out
                                   (pdcp_save_rb ue rb_id srb_flag (Some e') md1)) (\<lambda>(md2, evs2).
         res_bind (pdcp_timer_loop env now slots md2) (\<lambda>(md3, evs3). Inr (md3, evs2 @ evs3))))"

definition nr_pdcp_timer_thread :: "pdcp_api_env \<Rightarrow> u64 \<Rightarrow> pdcp_module \<Rightarrow> (pdcp_module \<times> pdcp_event list) res" where
  "nr_pdcp_timer_thread env curtime md = pdcp_timer_loop env curtime (pdcp_timer_slots (pm_ue_list (md_ues md))) md"

section \<open>From the upper layer\<close>

text \<open>\<open>sdap_data_req\<close> with its call of PDCP.\<close>

definition sdap_data_req_pdcp ::
  "pdcp_api_env \<Rightarrow> protocol_ctxt \<Rightarrow> u64 \<Rightarrow> int \<Rightarrow> byte list \<Rightarrow> byte \<Rightarrow> bool \<Rightarrow> int \<Rightarrow> pdcp_module \<Rightarrow>
   (pdcp_module \<times> bool \<times> pdcp_event list) res" where
  "sdap_data_req_pdcp env cx ue_id rb_id sdu qfi rqi session md =
     res_bind (sdap_data_req (cx_enb_flag cx) ue_id rb_id sdu qfi rqi session (md_sdap md)) (\<lambda>(l, req).
       case req of
         None \<Rightarrow> Inr (md\<lparr>md_sdap := l\<rparr>, False, [])
       | Some (drb, pdu) \<Rightarrow> nr_pdcp_data_req_drb env cx False drb pdu (md\<lparr>md_sdap := l\<rparr>))"

end
