(* ===== verification/RlcManager.thy ===== *)
theory RlcManager
  imports KeyedTable RlcAmMachine RlcUmMachine RlcTm
begin

text \<open>
  \<open>openair2/LAYER2/nr_rlc/nr_rlc_ue_manager.c\<close> and its header: the RLC bearers of the UEs. As in
  \<open>PdcpManager\<close>, what is changed through the pointer to a context is stored back; the lock and the
  running out of memory are left out.
\<close>

section \<open>Entities of the three modes\<close>

text \<open>A pointer to \<open>nr_rlc_entity_t\<close> is to an entity of one of the modes; its function pointers dispatch.\<close>

datatype rlc_entity = EntTm nr_rlc_entity_tm | EntUm nr_rlc_entity_um | EntAm nr_rlc_entity_am

definition res_map :: "('a \<Rightarrow> 'b) \<Rightarrow> 'a res \<Rightarrow> 'b res" where
  "res_map f r = res_bind r (\<lambda>x. Inr (f x))"

fun rlc_step :: "u64 \<Rightarrow> rlc_op \<Rightarrow> rlc_entity \<Rightarrow> rlc_entity res" where
  "rlc_step t op (EntTm e) = res_map EntTm (tm_step t op e)"
| "rlc_step t op (EntUm e) = res_map EntUm (um_step t op e)"
| "rlc_step t op (EntAm e) = res_map EntAm (am_step t op e)"

text \<open>\<open>generate_pdu\<close> with what it returns and the buffer it fills.\<close>

fun rlc_generate_pdu :: "u64 \<Rightarrow> byte list \<Rightarrow> rlc_entity \<Rightarrow> (int \<times> byte list \<times> rlc_entity) res" where
  "rlc_generate_pdu t b (EntTm e) = res_map (\<lambda>(n, b', e'). (n, b', EntTm e')) (nr_rlc_entity_tm_generate_pdu t b e)"
| "rlc_generate_pdu t b (EntUm e) = res_map (\<lambda>(n, b', e'). (n, b', EntUm e')) (nr_rlc_entity_um_generate_pdu t b e)"
| "rlc_generate_pdu t b (EntAm e) = res_map (\<lambda>(n, b', e'). (n, b', EntAm e')) (nr_rlc_entity_am_generate_pdu t b e)"

fun rlc_buffer_status :: "rlc_entity \<Rightarrow> int \<Rightarrow> nr_rlc_entity_buffer_status res" where
  "rlc_buffer_status (EntTm e) maxsize = Inr (nr_rlc_entity_tm_buffer_status e)"
| "rlc_buffer_status (EntUm e) maxsize = Inr (nr_rlc_entity_um_buffer_status e)"
| "rlc_buffer_status (EntAm e) maxsize = nr_rlc_entity_am_buffer_status e maxsize"

fun rlc_available_tx_space :: "rlc_entity \<Rightarrow> int" where
  "rlc_available_tx_space (EntTm e) = nr_rlc_entity_tm_available_tx_space e"
| "rlc_available_tx_space (EntUm e) = nr_rlc_entity_um_available_tx_space e"
| "rlc_available_tx_space (EntAm e) = nr_rlc_entity_am_available_tx_space e"

fun rlc_common :: "rlc_entity \<Rightarrow> nr_rlc_entity" where
  "rlc_common (EntTm e) = tm_common e"
| "rlc_common (EntUm e) = um_common e"
| "rlc_common (EntAm e) = am_common e"

fun rlc_common_update :: "(nr_rlc_entity \<Rightarrow> nr_rlc_entity) \<Rightarrow> rlc_entity \<Rightarrow> rlc_entity" where
  "rlc_common_update f (EntTm e) = EntTm (tm_common_update f e)"
| "rlc_common_update f (EntUm e) = EntUm (um_common_update f e)"
| "rlc_common_update f (EntAm e) = EntAm (am_common_update f e)"

section \<open>Contexts\<close>

text \<open>\<open>nr_rlc_rb_t\<close>: the bearer behind a logical channel.\<close>

datatype nr_rlc_rb = RbNone | RbSrb int | RbDrb int

text \<open>
  \<open>srb0\<close> comes with its \<open>deliver_sdu_data\<close>, of which the identifier matters. Of the handler of radio
  link failures only whether there is one.
\<close>

record nr_rlc_ue =
  ru_ue_id :: int
  ru_srb0 :: "(int \<times> rlc_entity) option"
  ru_srb :: "rlc_entity option list"
  ru_drb :: "rlc_entity option list"
  ru_lcid2rb :: "nr_rlc_rb list"
  ru_rlf_handler :: bool

record nr_rlc_ue_manager =
  rm_ue_list :: "nr_rlc_ue list"
  rm_enb_flag :: bool

definition new_nr_rlc_ue_manager :: "bool \<Rightarrow> nr_rlc_ue_manager" where
  "new_nr_rlc_ue_manager enb_flag = \<lparr>rm_ue_list = [], rm_enb_flag = enb_flag\<rparr>"

definition rlc_ue_zero :: "int \<Rightarrow> nr_rlc_ue" where
  "rlc_ue_zero ue_id = \<lparr>ru_ue_id = ue_id, ru_srb0 = None, ru_srb = replicate 3 None, ru_drb = replicate 32 None,
     ru_lcid2rb = replicate 32 RbNone, ru_rlf_handler = False\<rparr>"

fun rlc_ue_search :: "int \<Rightarrow> nr_rlc_ue list \<Rightarrow> nr_rlc_ue option" where
  "rlc_ue_search ue_id [] = None"
| "rlc_ue_search ue_id (ue # l) = (if ru_ue_id ue = ue_id then Some ue else rlc_ue_search ue_id l)"

definition nr_rlc_manager_get_ue :: "int \<Rightarrow> nr_rlc_ue_manager \<Rightarrow> nr_rlc_ue_manager \<times> nr_rlc_ue" where
  "nr_rlc_manager_get_ue ue_id m =
     (case rlc_ue_search ue_id (rm_ue_list m) of
        Some ue \<Rightarrow> (m, ue)
      | None \<Rightarrow> (m\<lparr>rm_ue_list := rm_ue_list m @ [rlc_ue_zero ue_id]\<rparr>, rlc_ue_zero ue_id))"

text \<open>The first context with the identifier goes, with all its entities.\<close>

fun rlc_ue_remove :: "int \<Rightarrow> nr_rlc_ue list \<Rightarrow> nr_rlc_ue list" where
  "rlc_ue_remove ue_id [] = []"
| "rlc_ue_remove ue_id (ue # l) = (if ru_ue_id ue = ue_id then l else ue # rlc_ue_remove ue_id l)"

definition nr_rlc_manager_remove_ue :: "int \<Rightarrow> nr_rlc_ue_manager \<Rightarrow> nr_rlc_ue_manager" where
  "nr_rlc_manager_remove_ue ue_id m = m\<lparr>rm_ue_list := rlc_ue_remove ue_id (rm_ue_list m)\<rparr>"

definition nr_rlc_ue_add_srb_rlc_entity :: "int \<Rightarrow> int \<Rightarrow> rlc_entity \<Rightarrow> nr_rlc_ue \<Rightarrow> nr_rlc_ue res" where
  "nr_rlc_ue_add_srb_rlc_entity srb_id data e ue =
     (if srb_id < 0 \<or> srb_id > 3 then Inl ExitFatal
      else if srb_id = 0
      then if ru_srb0 ue \<noteq> None then Inl ExitFatal else Inr (ue\<lparr>ru_srb0 := Some (data, e)\<rparr>)
      else if ru_srb ue ! nat (srb_id - 1) \<noteq> None then Inl ExitFatal
      else Inr (ue\<lparr>ru_srb := (ru_srb ue)[nat (srb_id - 1) := Some e]\<rparr>))"

definition nr_rlc_ue_add_drb_rlc_entity :: "int \<Rightarrow> rlc_entity \<Rightarrow> nr_rlc_ue \<Rightarrow> nr_rlc_ue res" where
  "nr_rlc_ue_add_drb_rlc_entity drb_id e ue =
     (if drb_id < 1 \<or> drb_id > 32 then Inl ExitFatal
      else if ru_drb ue ! nat (drb_id - 1) \<noteq> None then Inl ExitFatal
      else Inr (ue\<lparr>ru_drb := (ru_drb ue)[nat (drb_id - 1) := Some e]\<rparr>))"

definition rlc_store_ue :: "nr_rlc_ue \<Rightarrow> nr_rlc_ue_manager \<Rightarrow> nr_rlc_ue_manager" where
  "rlc_store_ue ue m = m\<lparr>rm_ue_list := store_by ru_ue_id ue (rm_ue_list m)\<rparr>"

section \<open>The manager as a directory\<close>

definition rlc_mgr_ok :: "nr_rlc_ue_manager \<Rightarrow> bool" where
  "rlc_mgr_ok m \<longleftrightarrow> distinct (map ru_ue_id (rm_ue_list m))"

definition rlc_contexts :: "nr_rlc_ue_manager \<Rightarrow> int \<Rightarrow> nr_rlc_ue option" where
  "rlc_contexts m = content_of ru_ue_id (rm_ue_list m)"

lemma rlc_ue_search_content: "rlc_ue_search ue_id l = content_of ru_ue_id l ue_id"
  by (induction l) (auto simp: content_of_Cons)

lemma rlc_ue_remove_filter:
  "distinct (map ru_ue_id l) \<Longrightarrow> rlc_ue_remove ue_id l = filter (\<lambda>ue. ru_ue_id ue \<noteq> ue_id) l"
proof (induction l)
  case (Cons ue l)
  show ?case
  proof (cases "ru_ue_id ue = ue_id")
    case True
    then have "ue_id \<notin> ru_ue_id ` set l" using Cons.prems by auto
    then have "filter (\<lambda>u. ru_ue_id u \<noteq> ue_id) l = l" by (metis (mono_tags, lifting) filter_True image_eqI)
    then show ?thesis using True by simp
  qed (use Cons in simp)
qed simp

interpretation rlc_mgr: keyed_directory rlc_mgr_ok rlc_contexts ru_ue_id
  "\<lambda>k m. rlc_ue_search k (rm_ue_list m)" rlc_store_ue nr_rlc_manager_remove_ue
  rlc_ue_zero nr_rlc_manager_get_ue
proof
  fix t k e assume t: "rlc_mgr_ok t"
  show "rlc_ue_search k (rm_ue_list t) = rlc_contexts t k"
    by (simp add: rlc_ue_search_content rlc_contexts_def)
  show "rlc_contexts t k = Some e \<Longrightarrow> ru_ue_id e = k"
    using content_of_SomeD [of ru_ue_id "rm_ue_list t" k e] by (simp add: rlc_contexts_def)
  show "rlc_mgr_ok (rlc_store_ue e t) \<and> rlc_contexts (rlc_store_ue e t) = (rlc_contexts t)(ru_ue_id e \<mapsto> e)"
    if "rlc_contexts t (ru_ue_id e) \<noteq> None"
    using that t by (auto simp: rlc_mgr_ok_def rlc_contexts_def rlc_store_ue_def content_of_store_by content_of_None_iff fun_eq_iff)
  show "rlc_mgr_ok (nr_rlc_manager_remove_ue k t) \<and> rlc_contexts (nr_rlc_manager_remove_ue k t) = (rlc_contexts t)(k := None)"
    using t rlc_ue_remove_filter [of "rm_ue_list t" k] distinct_key_filter [of ru_ue_id "rm_ue_list t"]
    by (simp add: nr_rlc_manager_remove_ue_def rlc_mgr_ok_def rlc_contexts_def content_of_filter)
  show "rlc_mgr_ok t' \<and> e = (case rlc_contexts t k of Some x \<Rightarrow> x | None \<Rightarrow> rlc_ue_zero k) \<and>
      rlc_contexts t' = (rlc_contexts t)(k \<mapsto> e)" if "nr_rlc_manager_get_ue k t = (t', e)" for t'
  proof (cases "content_of ru_ue_id (rm_ue_list t) k")
    case None
    then have "k \<notin> ru_ue_id ` set (rm_ue_list t)" by (simp add: content_of_None_iff)
    with None t that show ?thesis
      by (auto simp: nr_rlc_manager_get_ue_def rlc_ue_search_content rlc_mgr_ok_def rlc_contexts_def
          rlc_ue_zero_def content_of_append content_of_Cons fun_eq_iff split: option.splits)
  next
    case (Some x)
    with t that show ?thesis
      by (auto simp: nr_rlc_manager_get_ue_def rlc_ue_search_content rlc_contexts_def fun_eq_iff)
  qed
next
  show "ru_ue_id (rlc_ue_zero k) = k" for k by (simp add: rlc_ue_zero_def)
qed

section \<open>Any entity as a machine\<close>

fun rlc_inv :: "rlc_entity \<Rightarrow> bool" where
  "rlc_inv (EntTm e) \<longleftrightarrow> tm_inv e"
| "rlc_inv (EntUm e) \<longleftrightarrow> (\<exists>L. um_inv L e)"
| "rlc_inv (EntAm e) \<longleftrightarrow> (\<exists>L. am_inv L e)"

fun rlc_adm :: "rlc_op \<Rightarrow> rlc_entity \<Rightarrow> bool" where
  "rlc_adm op (EntTm e) \<longleftrightarrow> tm_adm op e"
| "rlc_adm op (EntUm e) \<longleftrightarrow> um_adm op e"
| "rlc_adm op (EntAm e) \<longleftrightarrow> am_adm op e"

lemma res_map_simps [simp]: "res_map f (Inr x) = Inr (f x)" "res_map f (Inl g) = Inl g"
  by (simp_all add: res_map_def)

lemma res_map_eq_Inr: "res_map f r = Inr y \<longleftrightarrow> (\<exists>x. r = Inr x \<and> y = f x)"
  by (cases r) auto

text \<open>The contract of the three modes gives that of the tagged union.\<close>

interpretation ent: rlc_machine rlc_step rlc_inv rlc_adm
proof
  fix t op e assume inv: "rlc_inv e" and adm: "rlc_adm op e"
  show "\<exists>e'. rlc_step t op e = Inr e' \<and> rlc_inv e'"
  proof (cases e)
    case (EntTm x)
    then show ?thesis using tm.step_inv [of x op t] inv adm by auto
  next
    case (EntUm x)
    then show ?thesis using um.step_inv [of x op t] inv adm by auto
  next
    case (EntAm x)
    then show ?thesis using am.step_inv [of x op t] inv adm by auto
  qed
qed

text \<open>\<open>generate_pdu\<close> is the step of the machine, with its results.\<close>

lemma rlc_generate_step: "rlc_step t (GeneratePdu b) e = res_map (\<lambda>(n, b', e'). e') (rlc_generate_pdu t b e)"
  by (cases e) (auto simp: res_map_def res_bind_def split: sum.split)

end
