(* ===== verification/RlcAsn1.thy ===== *)
theory RlcAsn1
  imports Prelude
begin

text \<open>
  \<open>openair2/LAYER2/nr_rlc/asn1_utils.c\<close>: the values behind the enumerations of the RLC configuration.
  A value outside the enumeration ends the process.
\<close>

definition t_reassembly_tab :: "int list" where
  "t_reassembly_tab = [0, 5, 10, 15, 20, 25, 30, 35, 40, 45, 50, 55, 60, 65, 70, 75, 80, 85, 90, 95, 100, 110, 120,
     130, 140, 150, 160, 170, 180, 190, 200]"

definition decode_t_reassembly :: "int \<Rightarrow> int res" where
  "decode_t_reassembly v = (if v < 0 \<or> v > 30 then Inl ExitFatal else Inr (t_reassembly_tab ! nat v))"

definition t_status_prohibit_tab :: "int list" where
  "t_status_prohibit_tab = [0, 5, 10, 15, 20, 25, 30, 35, 40, 45, 50, 55, 60, 65, 70, 75, 80, 85, 90, 95, 100, 105, 110,
     115, 120, 125, 130, 135, 140, 145, 150, 155, 160, 165, 170, 175, 180, 185, 190, 195, 200, 205,
     210, 215, 220, 225, 230, 235, 240, 245, 250, 300, 350, 400, 450, 500, 800, 1000, 1200, 1600,
     2000, 2400]"

definition decode_t_status_prohibit :: "int \<Rightarrow> int res" where
  "decode_t_status_prohibit v = (if v < 0 \<or> v > 61 then Inl ExitFatal else Inr (t_status_prohibit_tab ! nat v))"

definition t_poll_retransmit_tab :: "int list" where
  "t_poll_retransmit_tab = [5, 10, 15, 20, 25, 30, 35, 40, 45, 50, 55, 60, 65, 70, 75, 80, 85, 90, 95, 100, 105, 110, 115,
     120, 125, 130, 135, 140, 145, 150, 155, 160, 165, 170, 175, 180, 185, 190, 195, 200, 205, 210,
     215, 220, 225, 230, 235, 240, 245, 250, 300, 350, 400, 450, 500, 800, 1000, 2000, 4000]"

definition decode_t_poll_retransmit :: "int \<Rightarrow> int res" where
  "decode_t_poll_retransmit v = (if v < 0 \<or> v > 58 then Inl ExitFatal else Inr (t_poll_retransmit_tab ! nat v))"

definition poll_pdu_tab :: "int list" where
  "poll_pdu_tab = [4, 8, 16, 32, 64, 128, 256, 512, 1024, 2048, 4096, 6144, 8192, 12288, 16384, 20480, 24576,
     28672, 32768, 40960, 49152, 57344, 65536, - 1]"

definition decode_poll_pdu :: "int \<Rightarrow> int res" where
  "decode_poll_pdu v = (if v < 0 \<or> v > 23 then Inl ExitFatal else Inr (poll_pdu_tab ! nat v))"

definition poll_byte_tab :: "int list" where
  "poll_byte_tab = [1024 * 1, 1024 * 2, 1024 * 5, 1024 * 8, 1024 * 10, 1024 * 15, 1024 * 25, 1024 * 50, 1024 * 75,
     1024 * 100, 1024 * 125, 1024 * 250, 1024 * 375, 1024 * 500, 1024 * 750, 1024 * 1000,
     1024 * 1250, 1024 * 1500, 1024 * 2000, 1024 * 3000, 1024 * 4000, 1024 * 4500, 1024 * 5000,
     1024 * 5500, 1024 * 6000, 1024 * 6500, 1024 * 7000, 1024 * 7500, 1024 * 1024 * 8,
     1024 * 1024 * 9, 1024 * 1024 * 10, 1024 * 1024 * 11, 1024 * 1024 * 12, 1024 * 1024 * 13,
     1024 * 1024 * 14, 1024 * 1024 * 15, 1024 * 1024 * 16, 1024 * 1024 * 17, 1024 * 1024 * 18,
     1024 * 1024 * 20, 1024 * 1024 * 25, 1024 * 1024 * 30, 1024 * 1024 * 40, - 1]"

definition decode_poll_byte :: "int \<Rightarrow> int res" where
  "decode_poll_byte v = (if v < 0 \<or> v > 43 then Inl ExitFatal else Inr (poll_byte_tab ! nat v))"

definition max_retx_threshold_tab :: "int list" where
  "max_retx_threshold_tab = [1, 2, 3, 4, 6, 8, 16, 32]"

definition decode_max_retx_threshold :: "int \<Rightarrow> int res" where
  "decode_max_retx_threshold v = (if v < 0 \<or> v > 7 then Inl ExitFatal else Inr (max_retx_threshold_tab ! nat v))"

definition sn_field_length_um_tab :: "int list" where
  "sn_field_length_um_tab = [6, 12]"

definition decode_sn_field_length_um :: "int \<Rightarrow> int res" where
  "decode_sn_field_length_um v = (if v < 0 \<or> v > 1 then Inl ExitFatal else Inr (sn_field_length_um_tab ! nat v))"

definition sn_field_length_am_tab :: "int list" where
  "sn_field_length_am_tab = [12, 18]"

definition decode_sn_field_length_am :: "int \<Rightarrow> int res" where
  "decode_sn_field_length_am v = (if v < 0 \<or> v > 1 then Inl ExitFatal else Inr (sn_field_length_am_tab ! nat v))"

section \<open>What the decoders can return\<close>

lemma decode_sn_field_length_cases:
  "decode_sn_field_length_am v = Inr n \<Longrightarrow> n = 12 \<or> n = 18"
  "decode_sn_field_length_um v = Inr n \<Longrightarrow> n = 6 \<or> n = 12"
proof -
  have v: "v = 0 \<or> v = 1" if "\<not> (v < 0 \<or> v > 1)" using that by arith
  show "n = 12 \<or> n = 18" if "decode_sn_field_length_am v = Inr n"
    using that v by (cases "v < 0 \<or> v > 1") (auto simp: decode_sn_field_length_am_def sn_field_length_am_tab_def)
  show "n = 6 \<or> n = 12" if "decode_sn_field_length_um v = Inr n"
    using that v by (cases "v < 0 \<or> v > 1") (auto simp: decode_sn_field_length_um_def sn_field_length_um_tab_def)
qed

end
