(* ===== verification/RlcApi.thy ===== *)
theory RlcApi
  imports RlcManager RlcAsn1 F1apIds
begin

text \<open>
  \<open>openair2/LAYER2/nr_rlc/nr_rlc_oai_api.c\<close>: the RLC module between MAC, PDCP, F1 and RRC. Each function
  runs under the lock of the manager and is one operation on the module. \<open>t\<close> is the reading of the
  microsecond clock. Most assertions of the file are commented out; the model has what is left: a null
  pointer is followed, an index goes out of bounds. Log output is left out.
\<close>

section \<open>The module\<close>

record rlc_module =
  rl_ues :: nr_rlc_ue_manager
  rl_time :: u64
  rl_last_frame :: u32
  rl_last_subframe :: u32

text \<open>What the module finds in its environment: the table of \<open>F1apIds\<close>, and whether the node is a DU only.\<close>

record rlc_api_env =
  re_f1 :: f1_table
  re_du :: bool

text \<open>
  What the callbacks hand on: a PDU for PDCP with the flag and the identifier of its context, F1 and GTP-U
  messages of a DU, the first message of a UE, a radio link failure.
\<close>

datatype rlc_out =
    PdcpDataInd bool u64 bool int "byte list"
  | F1UlRrcMessage u64 int int "byte list"
  | GtpuUplink int int "byte list"
  | InitialUlRrc int "byte list"
  | RlfHandler int

text \<open>A bearer of a context, as the callbacks see it: which pointer of \<open>nr_rlc_ue_t\<close> holds the entity.\<close>

datatype rlc_slot = SlotSrb0 | SlotSrb int | SlotDrb int

fun rlc_slot_entity :: "rlc_slot \<Rightarrow> nr_rlc_ue \<Rightarrow> rlc_entity option" where
  "rlc_slot_entity SlotSrb0 ue = map_option snd (ru_srb0 ue)"
| "rlc_slot_entity (SlotSrb i) ue = ru_srb ue ! nat (i - 1)"
| "rlc_slot_entity (SlotDrb i) ue = ru_drb ue ! nat (i - 1)"

fun rlc_slot_set :: "rlc_slot \<Rightarrow> rlc_entity option \<Rightarrow> nr_rlc_ue \<Rightarrow> nr_rlc_ue" where
  "rlc_slot_set SlotSrb0 rb ue =
     ue\<lparr>ru_srb0 := (case (rb, ru_srb0 ue) of (Some e, Some (data, x)) \<Rightarrow> Some (data, e) | _ \<Rightarrow> None)\<rparr>"
| "rlc_slot_set (SlotSrb i) rb ue = ue\<lparr>ru_srb := (ru_srb ue)[nat (i - 1) := rb]\<rparr>"
| "rlc_slot_set (SlotDrb i) rb ue = ue\<lparr>ru_drb := (ru_drb ue)[nat (i - 1) := rb]\<rparr>"

section \<open>Callbacks\<close>

definition deliver_sdu ::
  "rlc_api_env \<Rightarrow> bool \<Rightarrow> nr_rlc_ue \<Rightarrow> bool \<Rightarrow> int \<Rightarrow> byte list \<Rightarrow> rlc_out res" where
  "deliver_sdu env is_enb ue is_srb rb_id buf =
     (if is_enb
      then res_bind (du_get_f1_ue_data (word_of_int (ru_ue_id ue)) (re_f1 env)) (\<lambda>secondary_ue.
           let id = ucast secondary_ue
           in Inr (if re_du env
                   then if is_srb then F1UlRrcMessage id (ru_ue_id ue) rb_id buf else GtpuUplink (ru_ue_id ue) rb_id buf
                   else PdcpDataInd True id is_srb rb_id buf))
      else Inr (PdcpDataInd False (word_of_int (ru_ue_id ue)) is_srb rb_id buf))"

text \<open>
  \<open>successful_delivery\<close> and \<open>max_retx_reached\<close> look for the entity in the first two SRBs and in the DRBs.
\<close>

definition successful_delivery :: "rlc_slot \<Rightarrow> rlc_out list res" where
  "successful_delivery slot = (if slot = SlotSrb 3 then Inl ExitFatal else Inr [])"

definition max_retx_reached :: "nr_rlc_ue \<Rightarrow> rlc_slot \<Rightarrow> rlc_out list res" where
  "max_retx_reached ue slot =
     (if slot = SlotSrb 3 then Inl ExitFatal
      else Inr (if ru_rlf_handler ue then [RlfHandler (ru_ue_id ue)] else []))"

definition deliver_sdu_srb0 :: "int \<Rightarrow> byte list \<Rightarrow> rlc_out" where
  "deliver_sdu_srb0 data buf = InitialUlRrc data buf"

definition rlc_callback :: "rlc_api_env \<Rightarrow> bool \<Rightarrow> nr_rlc_ue \<Rightarrow> rlc_slot \<Rightarrow> rlc_event \<Rightarrow> rlc_out list res" where
  "rlc_callback env is_enb ue slot ev =
     (case ev of
        DeliverSdu b \<Rightarrow>
          (case slot of
             SlotSrb0 \<Rightarrow> Inr (case ru_srb0 ue of Some (data, x) \<Rightarrow> [deliver_sdu_srb0 data b] | None \<Rightarrow> [])
           | SlotSrb i \<Rightarrow> res_map (\<lambda>out. [out]) (deliver_sdu env is_enb ue True i b)
           | SlotDrb i \<Rightarrow> res_map (\<lambda>out. [out]) (deliver_sdu env is_enb ue False i b))
      | SduSuccessfulDelivery i \<Rightarrow> successful_delivery slot
      | MaxRetxReached \<Rightarrow> max_retx_reached ue slot)"

fun rlc_callbacks ::
  "rlc_api_env \<Rightarrow> bool \<Rightarrow> nr_rlc_ue \<Rightarrow> rlc_slot \<Rightarrow> rlc_event list \<Rightarrow> rlc_out list res" where
  "rlc_callbacks env is_enb ue slot [] = Inr []"
| "rlc_callbacks env is_enb ue slot (ev # evs) =
     res_bind (rlc_callback env is_enb ue slot ev) (\<lambda>out1.
     res_bind (rlc_callbacks env is_enb ue slot evs) (\<lambda>out2. Inr (out1 @ out2)))"

section \<open>Logical channels\<close>

text \<open>The logical channel is an unsigned number: \<open>channel_id - 1\<close> must be an index of \<open>lcid2rb\<close>.\<close>

definition get_rlc_slot :: "nr_rlc_ue \<Rightarrow> int \<Rightarrow> rlc_slot option res" where
  "get_rlc_slot ue channel_id =
     (if channel_id = 0 then Inr (Some SlotSrb0)
      else if channel_id < 1 \<or> channel_id > 32 then Inl OutOfBounds
      else case ru_lcid2rb ue ! nat (channel_id - 1) of
             RbNone \<Rightarrow> Inr None
           | RbSrb i \<Rightarrow> if i < 1 \<or> i > 3 then Inl OutOfBounds else Inr (Some (SlotSrb i))
           | RbDrb i \<Rightarrow> if i < 1 \<or> i > 32 then Inl OutOfBounds else Inr (Some (SlotDrb i)))"

text \<open>The entity with the place it is in.\<close>

definition get_rlc_entity_from_lcid :: "nr_rlc_ue \<Rightarrow> int \<Rightarrow> (rlc_slot \<times> rlc_entity) option res" where
  "get_rlc_entity_from_lcid ue channel_id =
     res_map (\<lambda>slot. case slot of None \<Rightarrow> None | Some s \<Rightarrow> map_option (Pair s) (rlc_slot_entity s ue)) (get_rlc_slot ue channel_id)"

definition release_rlc_entity_from_lcid :: "nr_rlc_ue \<Rightarrow> int \<Rightarrow> nr_rlc_ue res" where
  "release_rlc_entity_from_lcid ue channel_id =
     (if channel_id < 1 \<or> channel_id > 32 then Inl OutOfBounds
      else res_map (\<lambda>slot. case slot of None \<Rightarrow> ue | Some s \<Rightarrow> rlc_slot_set s None ue) (get_rlc_slot ue channel_id))"

fun rlc_find_lcid :: "nr_rlc_rb \<Rightarrow> int \<Rightarrow> nr_rlc_rb list \<Rightarrow> int" where
  "rlc_find_lcid rb lcid [] = 0"
| "rlc_find_lcid rb lcid (x # l) = (if x = rb then lcid else rlc_find_lcid rb (lcid + 1) l)"

text \<open>The context of a UE, in the module in which it exists.\<close>

definition rlc_ue_of :: "int \<Rightarrow> rlc_module \<Rightarrow> rlc_module \<times> nr_rlc_ue" where
  "rlc_ue_of ue_id md = (let (m, ue) = nr_rlc_manager_get_ue ue_id (rl_ues md) in (md\<lparr>rl_ues := m\<rparr>, ue))"

definition rlc_save_ue :: "nr_rlc_ue \<Rightarrow> rlc_module \<Rightarrow> rlc_module" where
  "rlc_save_ue ue = rl_ues_update (rlc_store_ue ue)"

definition nr_rlc_get_lcid_from_rb :: "int \<Rightarrow> bool \<Rightarrow> int \<Rightarrow> rlc_module \<Rightarrow> rlc_module \<times> int" where
  "nr_rlc_get_lcid_from_rb ue_id is_srb rb_id md =
     (let (md1, ue) = rlc_ue_of ue_id md
      in (md1, rlc_find_lcid (if is_srb then RbSrb rb_id else RbDrb rb_id) 1 (ru_lcid2rb ue)))"

definition nr_rlc_release_entity :: "int \<Rightarrow> int \<Rightarrow> rlc_module \<Rightarrow> rlc_module res" where
  "nr_rlc_release_entity ue_id channel_id md =
     (let (md1, ue) = rlc_ue_of ue_id md
      in if channel_id = 0 then Inr (rlc_save_ue (ue\<lparr>ru_srb0 := None\<rparr>) md1)
         else res_map (\<lambda>ue'. rlc_save_ue ue' md1) (release_rlc_entity_from_lcid ue channel_id))"

section \<open>Data\<close>

text \<open>
  The events of the entity are taken out before an operation and handed to the callbacks afterwards. The
  callbacks do not change the entity or the context.
\<close>

definition rlc_no_events :: "rlc_entity \<Rightarrow> rlc_entity" where
  "rlc_no_events = rlc_common_update (\<lambda>c. c\<lparr>events := []\<rparr>)"

definition rlc_run_op :: "u64 \<Rightarrow> rlc_op list \<Rightarrow> rlc_entity \<Rightarrow> rlc_entity res" where
  "rlc_run_op t ops e = rlc_run rlc_step (map (Pair t) ops) (rlc_no_events e)"

definition rlc_finish_op ::
  "rlc_api_env \<Rightarrow> nr_rlc_ue \<Rightarrow> rlc_slot \<Rightarrow> rlc_entity \<Rightarrow> rlc_module \<Rightarrow> (rlc_module \<times> rlc_out list) res" where
  "rlc_finish_op env ue slot e md =
     res_map (\<lambda>outs. (rlc_save_ue (rlc_slot_set slot (Some e) ue) md, outs))
       (rlc_callbacks env (rm_enb_flag (rl_ues md)) ue slot (events (rlc_common e)))"

text \<open>From MAC. The entity is given the time of the module first.\<close>

definition mac_rlc_data_ind ::
  "rlc_api_env \<Rightarrow> u64 \<Rightarrow> int \<Rightarrow> int \<Rightarrow> bool \<Rightarrow> int \<Rightarrow> byte list \<Rightarrow> rlc_module \<Rightarrow> (rlc_module \<times> rlc_out list) res" where
  "mac_rlc_data_ind env t ue_id eNB_index MBMS_flag channel_id buf md =
     (if eNB_index \<noteq> 0 \<or> MBMS_flag then Inl ExitFatal
      else let (md1, ue) = rlc_ue_of ue_id md
           in res_bind (get_rlc_entity_from_lcid ue channel_id) (\<lambda>rb.
              case rb of
                None \<Rightarrow> Inr (md1, [])
              | Some (slot, e) \<Rightarrow>
                  res_bind (rlc_run_op t [SetTime (rl_time md), RecvPdu buf] e) (\<lambda>e'. rlc_finish_op env ue slot e' md1)))"

definition mac_rlc_data_req ::
  "rlc_api_env \<Rightarrow> u64 \<Rightarrow> int \<Rightarrow> int \<Rightarrow> byte list \<Rightarrow> rlc_module \<Rightarrow> (rlc_module \<times> int \<times> byte list \<times> rlc_out list) res" where
  "mac_rlc_data_req env t ue_id channel_id buf md =
     (let (md1, ue) = rlc_ue_of ue_id md
      in res_bind (get_rlc_entity_from_lcid ue channel_id) (\<lambda>rb.
         case rb of
           None \<Rightarrow> Inr (md1, 0, buf, [])
         | Some (slot, e) \<Rightarrow>
             res_bind (rlc_run_op t [SetTime (rl_time md)] e) (\<lambda>e1.
             res_bind (rlc_generate_pdu t buf e1) (\<lambda>(ret, buf', e2).
             res_map (\<lambda>(md2, outs). (md2, ret, buf', outs)) (rlc_finish_op env ue slot e2 md1)))))"

text \<open>
  The bytes to send. Where the bearer does not exist, the commented-out log statement leaves the
  assignment of 0 under the condition on the frame: otherwise the value is indeterminate (\<open>None\<close>).
\<close>

definition rlc_bytes_in_buffer ::
  "rlc_api_env \<Rightarrow> u64 \<Rightarrow> int \<Rightarrow> int \<Rightarrow> bool \<Rightarrow> rlc_module \<Rightarrow> (rlc_module \<times> int option \<times> rlc_out list) res" where
  "rlc_bytes_in_buffer env t ue_id channel_id zeroed md =
     (let (md1, ue) = rlc_ue_of ue_id md
      in res_bind (get_rlc_entity_from_lcid ue channel_id) (\<lambda>rb.
         case rb of
           None \<Rightarrow> Inr (md1, if zeroed then Some 0 else None, [])
         | Some (slot, e) \<Rightarrow>
             res_bind (rlc_run_op t [SetTime (rl_time md)] e) (\<lambda>e1.
             res_bind (rlc_buffer_status e1 (1000 * 1000)) (\<lambda>bs.
             res_map (\<lambda>(md2, outs). (md2, Some (status_size bs + retx_size bs + tx_size bs), outs))
               (rlc_finish_op env ue slot e1 md1)))))"

definition mac_rlc_status_ind ::
  "rlc_api_env \<Rightarrow> u64 \<Rightarrow> int \<Rightarrow> u32 \<Rightarrow> int \<Rightarrow> rlc_module \<Rightarrow> (rlc_module \<times> int option \<times> rlc_out list) res" where
  "mac_rlc_status_ind env t ue_id frame channel_id md =
     rlc_bytes_in_buffer env t ue_id channel_id (frame mod 128 = 0 \<or> channel_id = 0) md"

definition nr_rlc_tick :: "u32 \<Rightarrow> u32 \<Rightarrow> rlc_module \<Rightarrow> rlc_module" where
  "nr_rlc_tick frame subframe md =
     (if frame \<noteq> rl_last_frame md \<or> subframe \<noteq> rl_last_subframe md
      then md\<lparr>rl_last_frame := frame, rl_last_subframe := subframe, rl_time := rl_time md + 1\<rparr>
      else md)"

definition mac_rlc_get_buffer_occupancy_ind ::
  "rlc_api_env \<Rightarrow> u64 \<Rightarrow> int \<Rightarrow> u32 \<Rightarrow> u32 \<Rightarrow> bool \<Rightarrow> int \<Rightarrow> rlc_module \<Rightarrow> (rlc_module \<times> int option \<times> rlc_out list) res" where
  "mac_rlc_get_buffer_occupancy_ind env t ue_id frame subframe enb_flag channel_id md =
     (if enb_flag then Inl ExitFatal
      else rlc_bytes_in_buffer env t ue_id channel_id (frame mod 128 = 0) (nr_rlc_tick frame subframe md))"

text \<open>From PDCP.\<close>

definition rlc_data_req ::
  "rlc_api_env \<Rightarrow> u64 \<Rightarrow> int \<Rightarrow> bool \<Rightarrow> int \<Rightarrow> int \<Rightarrow> byte list \<Rightarrow> rlc_module \<Rightarrow> (rlc_module \<times> rlc_out list) res" where
  "rlc_data_req env t ue_id srb_flag rb_id mui sdu md =
     (let (md1, ue) = rlc_ue_of ue_id md;
          slot = (if srb_flag then if rb_id \<ge> 1 \<and> rb_id \<le> 2 then Some (SlotSrb rb_id) else None
                  else if rb_id \<ge> 1 \<and> rb_id \<le> 32 then Some (SlotDrb rb_id) else None)
      in case slot of
           None \<Rightarrow> Inr (md1, [])
         | Some s \<Rightarrow>
             (case rlc_slot_entity s ue of
                None \<Rightarrow> Inr (md1, [])
              | Some e \<Rightarrow> res_bind (rlc_run_op t [SetTime (rl_time md), RecvSdu sdu mui] e) (\<lambda>e'.
                           rlc_finish_op env ue s e' md1)))"

text \<open>From RRC. The bearer is not checked, nor the number of the SRB.\<close>

definition nr_rlc_srb_recv_sdu ::
  "rlc_api_env \<Rightarrow> u64 \<Rightarrow> int \<Rightarrow> int \<Rightarrow> byte list \<Rightarrow> rlc_module \<Rightarrow> (rlc_module \<times> rlc_out list) res" where
  "nr_rlc_srb_recv_sdu env t ue_id channel_id sdu md =
     (let (md1, ue) = rlc_ue_of ue_id md;
          s = (if channel_id = 0 then SlotSrb0 else SlotSrb channel_id)
      in if channel_id < 0 \<or> channel_id > 3 then Inl OutOfBounds
         else case rlc_slot_entity s ue of
                None \<Rightarrow> Inl NullDeref
              | Some e \<Rightarrow> res_bind (rlc_run_op t [SetTime (rl_time md), RecvSdu sdu (- 1)] e) (\<lambda>e'.
                           rlc_finish_op env ue s e' md1))"

definition nr_rlc_get_available_tx_space :: "int \<Rightarrow> int \<Rightarrow> rlc_module \<Rightarrow> (rlc_module \<times> int) res" where
  "nr_rlc_get_available_tx_space ue_id channel_id md =
     (let (md1, ue) = rlc_ue_of ue_id md
      in res_map (\<lambda>rb. (md1, case rb of None \<Rightarrow> - 1 | Some (s, e) \<Rightarrow> rlc_available_tx_space e))
           (get_rlc_entity_from_lcid ue channel_id))"

end
