(* ===== verification/RlcConfig.thy ===== *)
theory RlcConfig
  imports RlcApi
begin

text \<open>
  The rest of \<open>nr_rlc_oai_api.c\<close>: adding, reconfiguring, re-establishing and removing bearers,
  statistics. Types generated from ASN.1 are records of the fields the code uses; \<open>None\<close> is a null
  pointer.
\<close>

section \<open>Configurations\<close>

record rlc_am_config =
  ac_t_reassembly :: int
  ac_t_status_prohibit :: int
  ac_dl_sn_length :: "int option"
  ac_t_poll_retransmit :: int
  ac_poll_pdu :: int
  ac_poll_byte :: int
  ac_max_retx_threshold :: int
  ac_ul_sn_length :: "int option"

record rlc_um_config =
  uc_t_reassembly :: int
  uc_dl_sn_length :: "int option"
  uc_ul_sn_length :: "int option"

datatype rlc_config = CfgAm rlc_am_config | CfgUm rlc_um_config | CfgOther

text \<open>\<open>servedRadioBearer\<close>: the number of the bearer, whichever alternative the union holds.\<close>

record rlc_bearer_config =
  bc_lcid :: int
  bc_served :: "int option"
  bc_config :: "rlc_config option"

definition rlc_deref :: "'a option \<Rightarrow> 'a res" where
  "rlc_deref p = (case p of Some x \<Rightarrow> Inr x | None \<Rightarrow> Inl NullDeref)"

definition RLC_MAXSIZE :: int where
  "RLC_MAXSIZE = 10000000"

section \<open>Adding bearers\<close>

text \<open>The entity of an AM configuration.\<close>

definition rlc_am_of_config :: "rlc_am_config \<Rightarrow> nr_rlc_entity_am res" where
  "rlc_am_of_config am =
     res_bind (decode_t_reassembly (ac_t_reassembly am)) (\<lambda>t_reassembly.
     res_bind (decode_t_status_prohibit (ac_t_status_prohibit am)) (\<lambda>t_status_prohibit.
     res_bind (decode_t_poll_retransmit (ac_t_poll_retransmit am)) (\<lambda>t_poll_retransmit.
     res_bind (decode_poll_pdu (ac_poll_pdu am)) (\<lambda>poll_pdu.
     res_bind (decode_poll_byte (ac_poll_byte am)) (\<lambda>poll_byte.
     res_bind (decode_max_retx_threshold (ac_max_retx_threshold am)) (\<lambda>max_retx_threshold.
     res_bind (rlc_deref (ac_dl_sn_length am)) (\<lambda>dl.
     res_bind (rlc_deref (ac_ul_sn_length am)) (\<lambda>ul.
     if dl \<noteq> ul then Inl ExitFatal
     else res_bind (decode_sn_field_length_am dl) (\<lambda>sn_field_length.
       new_nr_rlc_entity_am RLC_MAXSIZE RLC_MAXSIZE t_poll_retransmit t_reassembly t_status_prohibit
         poll_pdu poll_byte max_retx_threshold sn_field_length)))))))))"

text \<open>The default values of 9.2.1 of 38.331.\<close>

definition rlc_am_default :: "nr_rlc_entity_am res" where
  "rlc_am_default = new_nr_rlc_entity_am RLC_MAXSIZE RLC_MAXSIZE 45 35 0 (- 1) (- 1) 8 12"

definition rlc_um_of_config :: "rlc_um_config \<Rightarrow> nr_rlc_entity_um res" where
  "rlc_um_of_config um =
     res_bind (decode_t_reassembly (uc_t_reassembly um)) (\<lambda>t_reassembly.
     res_bind (rlc_deref (uc_dl_sn_length um)) (\<lambda>dl.
     res_bind (rlc_deref (uc_ul_sn_length um)) (\<lambda>ul.
     if dl \<noteq> ul then Inl ExitFatal
     else res_bind (decode_sn_field_length_um dl) (\<lambda>sn_field_length.
       new_nr_rlc_entity_um RLC_MAXSIZE RLC_MAXSIZE t_reassembly sn_field_length))))"

text \<open>
  The logical channel is entered for the bearer that the configuration names; the entity goes to the
  bearer that the caller names.
\<close>

definition rlc_map_lcid :: "rlc_bearer_config \<Rightarrow> (int \<Rightarrow> nr_rlc_rb) \<Rightarrow> nr_rlc_ue \<Rightarrow> nr_rlc_ue res" where
  "rlc_map_lcid c rb ue =
     res_bind (rlc_deref (bc_served c)) (\<lambda>id.
     if bc_lcid c < 1 \<or> bc_lcid c > 32 then Inl OutOfBounds
     else Inr (ue\<lparr>ru_lcid2rb := (ru_lcid2rb ue)[nat (bc_lcid c - 1) := rb id]\<rparr>))"

definition nr_rlc_add_srb :: "int \<Rightarrow> int \<Rightarrow> rlc_bearer_config \<Rightarrow> rlc_module \<Rightarrow> rlc_module res" where
  "nr_rlc_add_srb ue_id srb_id c md =
     res_bind (case bc_config c of Some (CfgAm am) \<Rightarrow> rlc_am_of_config am | _ \<Rightarrow> rlc_am_default) (\<lambda>nr_rlc_am.
     let (md1, ue) = rlc_ue_of ue_id md
     in res_bind (rlc_map_lcid c RbSrb ue) (\<lambda>ue1.
        if srb_id < 1 \<or> srb_id > 3 then Inl OutOfBounds
        else if ru_srb ue1 ! nat (srb_id - 1) \<noteq> None then Inr (rlc_save_ue ue1 md1)
        else res_bind (nr_rlc_ue_add_srb_rlc_entity srb_id 0 (EntAm nr_rlc_am) ue1) (\<lambda>ue2. Inr (rlc_save_ue ue2 md1))))"

definition rlc_add_drb_entity :: "int \<Rightarrow> int \<Rightarrow> rlc_bearer_config \<Rightarrow> rlc_entity \<Rightarrow> rlc_module \<Rightarrow> rlc_module res" where
  "rlc_add_drb_entity ue_id drb_id c e md =
     (let (md1, ue) = rlc_ue_of ue_id md
      in res_bind (rlc_map_lcid c RbDrb ue) (\<lambda>ue1.
         if drb_id < 1 \<or> drb_id > 32 then Inl OutOfBounds
         else if ru_drb ue1 ! nat (drb_id - 1) \<noteq> None then Inr (rlc_save_ue ue1 md1)
         else res_bind (nr_rlc_ue_add_drb_rlc_entity drb_id e ue1) (\<lambda>ue2. Inr (rlc_save_ue ue2 md1))))"

definition add_drb_am :: "int \<Rightarrow> int \<Rightarrow> rlc_am_config \<Rightarrow> rlc_bearer_config \<Rightarrow> rlc_module \<Rightarrow> rlc_module res" where
  "add_drb_am ue_id drb_id am c md =
     res_bind (rlc_am_of_config am) (\<lambda>nr_rlc_am. rlc_add_drb_entity ue_id drb_id c (EntAm nr_rlc_am) md)"

definition add_drb_um :: "int \<Rightarrow> int \<Rightarrow> rlc_um_config \<Rightarrow> rlc_bearer_config \<Rightarrow> rlc_module \<Rightarrow> rlc_module res" where
  "add_drb_um ue_id drb_id um c md =
     res_bind (rlc_um_of_config um) (\<lambda>nr_rlc_um. rlc_add_drb_entity ue_id drb_id c (EntUm nr_rlc_um) md)"

definition nr_rlc_add_drb :: "int \<Rightarrow> int \<Rightarrow> rlc_bearer_config \<Rightarrow> rlc_module \<Rightarrow> rlc_module res" where
  "nr_rlc_add_drb ue_id drb_id c md =
     res_bind (rlc_deref (bc_config c)) (\<lambda>r.
       case r of CfgAm am \<Rightarrow> add_drb_am ue_id drb_id am c md
       | CfgUm um \<Rightarrow> add_drb_um ue_id drb_id um c md
       | CfgOther \<Rightarrow> Inl ExitFatal)"

definition nr_rlc_activate_srb0 :: "int \<Rightarrow> rlc_module \<Rightarrow> (rlc_module \<times> bool) res" where
  "nr_rlc_activate_srb0 ue_id md =
     (let (md1, ue) = rlc_ue_of ue_id md
      in if ru_srb0 ue \<noteq> None then Inr (md1, False)
         else res_bind (new_nr_rlc_entity_tm 10000) (\<lambda>nr_rlc_tm.
              res_bind (nr_rlc_ue_add_srb_rlc_entity 0 ue_id (EntTm nr_rlc_tm) ue) (\<lambda>ue1.
              Inr (rlc_save_ue ue1 md1, True))))"

section \<open>Changing bearers\<close>

definition nr_rlc_set_rlf_handler :: "int \<Rightarrow> bool \<Rightarrow> rlc_module \<Rightarrow> rlc_module" where
  "nr_rlc_set_rlf_handler ue_id rlf_h md =
     (let (md1, ue) = rlc_ue_of ue_id md in rlc_save_ue (ue\<lparr>ru_rlf_handler := rlf_h\<rparr>) md1)"

definition rlc_reestablish_slot :: "rlc_api_env \<Rightarrow> u64 \<Rightarrow> nr_rlc_ue \<Rightarrow> rlc_slot \<Rightarrow> rlc_module \<Rightarrow> (rlc_module \<times> rlc_out list) res" where
  "rlc_reestablish_slot env t ue slot md =
     (case rlc_slot_entity slot ue of
        None \<Rightarrow> Inl NullDeref
      | Some e \<Rightarrow> res_bind (rlc_run_op t [Reestablishment] e) (\<lambda>e'. rlc_finish_op env ue slot e' md))"

definition nr_rlc_reestablish_entity ::
  "rlc_api_env \<Rightarrow> u64 \<Rightarrow> int \<Rightarrow> int \<Rightarrow> rlc_module \<Rightarrow> (rlc_module \<times> rlc_out list) res" where
  "nr_rlc_reestablish_entity env t ue_id lc_id md =
     (let (md1, ue) = rlc_ue_of ue_id md
      in res_bind (get_rlc_entity_from_lcid ue lc_id) (\<lambda>rb.
         case rb of None \<Rightarrow> Inr (md1, []) | Some (slot, e) \<Rightarrow> rlc_reestablish_slot env t ue slot md1))"

text \<open>The new length of sequence numbers, when both directions give one; only that of the downlink is read.\<close>

definition rlc_new_sn_length :: "(int \<Rightarrow> int res) \<Rightarrow> int option \<Rightarrow> int option \<Rightarrow> int option res" where
  "rlc_new_sn_length dec dl ul =
     (case (dl, ul) of (Some d, Some u) \<Rightarrow> res_map Some (dec d) | _ \<Rightarrow> Inr None)"

definition rlc_am_reconfigured :: "rlc_am_config \<Rightarrow> nr_rlc_entity_am \<Rightarrow> nr_rlc_entity_am res" where
  "rlc_am_reconfigured am e =
     res_bind (decode_t_reassembly (ac_t_reassembly am)) (\<lambda>t_reassembly.
     res_bind (decode_t_status_prohibit (ac_t_status_prohibit am)) (\<lambda>t_status_prohibit.
     res_bind (decode_t_poll_retransmit (ac_t_poll_retransmit am)) (\<lambda>t_poll_retransmit.
     res_bind (decode_poll_pdu (ac_poll_pdu am)) (\<lambda>poll_pdu.
     res_bind (decode_poll_byte (ac_poll_byte am)) (\<lambda>poll_byte.
     res_bind (decode_max_retx_threshold (ac_max_retx_threshold am)) (\<lambda>max_retx_threshold.
     res_bind (rlc_new_sn_length decode_sn_field_length_am (ac_dl_sn_length am) (ac_ul_sn_length am)) (\<lambda>sn_field_length.
     Inr (nr_rlc_entity_am_reconfigure t_poll_retransmit t_reassembly t_status_prohibit poll_pdu poll_byte
       max_retx_threshold sn_field_length e))))))))"

definition rlc_um_reconfigured :: "rlc_um_config \<Rightarrow> nr_rlc_entity_um \<Rightarrow> nr_rlc_entity_um res" where
  "rlc_um_reconfigured um e =
     res_bind (decode_t_reassembly (uc_t_reassembly um)) (\<lambda>t_reassembly.
     res_bind (rlc_new_sn_length decode_sn_field_length_um (uc_dl_sn_length um) (uc_ul_sn_length um)) (\<lambda>sn_field_length.
     Inr (nr_rlc_entity_um_reconfigure t_reassembly sn_field_length e)))"

text \<open>
  The mode decides. An entity of another mode, or a configuration of another alternative, is read through
  the wrong type, which is undefined.
\<close>

definition rlc_entity_reconfigured :: "rlc_config option \<Rightarrow> rlc_entity \<Rightarrow> rlc_entity res" where
  "rlc_entity_reconfigured c e =
     (case (c, e) of
        (Some (CfgAm am), EntAm x) \<Rightarrow> res_map EntAm (rlc_am_reconfigured am x)
      | (Some (CfgUm um), EntUm x) \<Rightarrow> res_map EntUm (rlc_um_reconfigured um x)
      | (None, EntAm x) \<Rightarrow> Inr (EntAm (nr_rlc_entity_am_reconfigure 45 35 0 (- 1) (- 1) 8 (Some 12) x))
      | _ \<Rightarrow> Inl OutOfBounds)"

definition nr_rlc_reconfigure_entity :: "int \<Rightarrow> int \<Rightarrow> rlc_config option \<Rightarrow> rlc_module \<Rightarrow> rlc_module res" where
  "nr_rlc_reconfigure_entity ue_id lc_id c md =
     (let (md1, ue) = rlc_ue_of ue_id md
      in res_bind (get_rlc_entity_from_lcid ue lc_id) (\<lambda>rb.
         case rb of
           None \<Rightarrow> Inl NullDeref
         | Some (slot, e) \<Rightarrow>
             res_map (\<lambda>e'. rlc_save_ue (rlc_slot_set slot (Some e') ue) md1) (rlc_entity_reconfigured c e)))"

text \<open>A bearer is removed, and the context with the last bearer; SRB 0 and SRB 3 do not count.\<close>

definition rrc_rlc_config_req :: "u64 \<Rightarrow> int \<Rightarrow> bool \<Rightarrow> bool \<Rightarrow> bool \<Rightarrow> int \<Rightarrow> rlc_module \<Rightarrow> rlc_module res" where
  "rrc_rlc_config_req rntiMaybeUEid module_id srb_flag mbms_flag is_remove rb_id md =
     (let ue_id = sint (ucast rntiMaybeUEid :: u32)
      in if mbms_flag \<or> \<not> is_remove \<or> module_id \<noteq> 0 then Inl ExitFatal
         else if (srb_flag \<and> \<not> (rb_id \<ge> 1 \<and> rb_id \<le> 2)) \<or> (\<not> srb_flag \<and> \<not> (rb_id \<ge> 1 \<and> rb_id \<le> 32)) then Inl ExitFatal
         else let (md1, ue) = rlc_ue_of ue_id md;
                  ue1 = rlc_slot_set (if srb_flag then SlotSrb rb_id else SlotDrb rb_id) None ue;
                  md2 = rlc_save_ue ue1 md1
              in Inr (if take 2 (ru_srb ue1) = [None, None] \<and> (\<forall>rb \<in> set (ru_drb ue1). rb = None)
                      then rl_ues_update (nr_rlc_manager_remove_ue ue_id) md2 else md2))"

definition nr_rlc_remove_ue :: "int \<Rightarrow> rlc_module \<Rightarrow> rlc_module" where
  "nr_rlc_remove_ue ue_id = rl_ues_update (nr_rlc_manager_remove_ue ue_id)"

text \<open>
  The context of \<open>from_id\<close>, created when there is none, gets the identifier \<open>to_id\<close>; that another context may
  have it is not checked. The first context with \<open>from_id\<close> is the one that changes.
\<close>

fun rlc_rename :: "int \<Rightarrow> nr_rlc_ue \<Rightarrow> nr_rlc_ue list \<Rightarrow> nr_rlc_ue list" where
  "rlc_rename from_id ue' [] = []"
| "rlc_rename from_id ue' (ue # l) = (if ru_ue_id ue = from_id then ue' # l else ue # rlc_rename from_id ue' l)"

definition nr_rlc_update_id ::
  "rlc_api_env \<Rightarrow> u64 \<Rightarrow> int \<Rightarrow> int \<Rightarrow> rlc_module \<Rightarrow> (rlc_module \<times> bool \<times> rlc_out list) res" where
  "nr_rlc_update_id env t from_id to_id md =
     (let (md1, ue) = rlc_ue_of from_id md;
          rename = (\<lambda>ue'. rl_ues_update (rm_ue_list_update (rlc_rename from_id ue')) md1)
      in case ru_srb ue ! 0 of
           None \<Rightarrow> Inr (rename (ue\<lparr>ru_ue_id := to_id\<rparr>), True, [])
         | Some e \<Rightarrow>
             res_bind (rlc_run_op t [Reestablishment] e) (\<lambda>e'.
             res_map (\<lambda>outs. (rename (rlc_slot_set (SlotSrb 1) (Some e') (ue\<lparr>ru_ue_id := to_id\<rparr>)), True, outs))
               (rlc_callbacks env (rm_enb_flag (rl_ues md1)) (ue\<lparr>ru_ue_id := to_id\<rparr>) (SlotSrb 1) (events (rlc_common e')))))"

definition nr_rlc_test_trigger_reestablishment ::
  "rlc_api_env \<Rightarrow> u64 \<Rightarrow> int \<Rightarrow> rlc_module \<Rightarrow> (rlc_module \<times> rlc_out list) res" where
  "nr_rlc_test_trigger_reestablishment env t ue_id md =
     (let (md1, ue) = rlc_ue_of ue_id md
      in res_bind (rlc_reestablish_slot env t ue (SlotSrb 1) md1) (\<lambda>(md2, outs2).
         let (md3, ue') = rlc_ue_of ue_id md2
         in res_map (\<lambda>(md4, outs4). (md4, outs2 @ outs4)) (rlc_reestablish_slot env t ue' (SlotDrb 1) md3)))"

section \<open>Statistics\<close>

text \<open>The cases of the switch: 1 to 3 are SRBs, 4 to 8 are DRBs.\<close>

definition nr_rlc_activate_avg_time_to_tx :: "int \<Rightarrow> int \<Rightarrow> bool \<Rightarrow> rlc_module \<Rightarrow> rlc_module" where
  "nr_rlc_activate_avg_time_to_tx ue_id channel_id is_on md =
     (let (md1, ue) = rlc_ue_of ue_id md;
          slot = (if 1 \<le> channel_id \<and> channel_id \<le> 3 then Some (SlotSrb channel_id)
                  else if 4 \<le> channel_id \<and> channel_id \<le> 8 then Some (SlotDrb (channel_id - 3)) else None)
      in case slot of
           None \<Rightarrow> md1
         | Some s \<Rightarrow>
             (case rlc_slot_entity s ue of
                None \<Rightarrow> md1
              | Some e \<Rightarrow> rlc_save_ue (rlc_slot_set s (Some (rlc_common_update (\<lambda>c. c\<lparr>avg_time_is_on := is_on,
                   txsdu_avg_time_to_tx := time_average_reset (txsdu_avg_time_to_tx c)\<rparr>) e)) ue) md1))"

text \<open>\<open>nr_rlc_entity_get_stats\<close> of \<open>nr_rlc_entity.c\<close>: the counters, how long the next SDU waits (in 32 bits), the average.\<close>

definition rlc_head_sdu :: "rlc_entity \<Rightarrow> nr_rlc_sdu option" where
  "rlc_head_sdu e =
     (case e of
        EntAm x \<Rightarrow> (case am_retransmit_list x @ am_tx_list x of [] \<Rightarrow> None | s # l \<Rightarrow> Some (sdu_of (am_heap x) s))
      | EntUm x \<Rightarrow> (case um_tx_list x of [] \<Rightarrow> None | s # l \<Rightarrow> Some (sdu_of (um_heap x) s))
      | EntTm x \<Rightarrow> (case tm_tx_list x of [] \<Rightarrow> None | s # l \<Rightarrow> Some (sdu_of (tm_heap x) s)))"

definition nr_rlc_entity_get_stats ::
  "u64 \<Rightarrow> rlc_entity \<Rightarrow> (nr_rlc_statistics \<times> u32 \<times> (u64 \<times> nat) option) \<times> rlc_entity" where
  "nr_rlc_entity_get_stats time_now e =
     (let c = rlc_common e;
          wt = (case rlc_head_sdu e of None \<Rightarrow> 0 | Some s \<Rightarrow> ucast (time_now - sdu_time_of_arrival s))
      in if avg_time_is_on c
         then let (avg, ta) = time_average_get_average (txsdu_avg_time_to_tx c) time_now
              in ((stats c, wt, avg), rlc_common_update (\<lambda>c. c\<lparr>txsdu_avg_time_to_tx := ta\<rparr>) e)
         else ((stats c, wt, None), e))"

text \<open>Two SRBs and five DRBs have statistics; the occupancy of the buffers comes with them.\<close>

definition nr_rlc_get_statistics ::
  "u64 \<Rightarrow> int \<Rightarrow> bool \<Rightarrow> int \<Rightarrow> rlc_module \<Rightarrow>
   (rlc_module \<times> ((nr_rlc_statistics \<times> u32 \<times> (u64 \<times> nat) option) \<times> int \<times> int) option) res" where
  "nr_rlc_get_statistics t ue_id srb_flag rb_id md =
     (let (md1, ue) = rlc_ue_of ue_id md;
          slot = (if srb_flag then if rb_id \<ge> 1 \<and> rb_id \<le> 2 then Some (SlotSrb rb_id) else None
                  else if rb_id \<ge> 1 \<and> rb_id \<le> 5 then Some (SlotDrb rb_id) else None)
      in case slot of
           None \<Rightarrow> Inr (md1, None)
         | Some s \<Rightarrow>
             (case rlc_slot_entity s ue of
                None \<Rightarrow> Inr (md1, None)
              | Some e \<Rightarrow>
                  let (out, e') = nr_rlc_entity_get_stats t e
                  in res_map (\<lambda>bs. (rlc_save_ue (rlc_slot_set s (Some e') ue) md1,
                       Some (out, status_size bs, tx_size bs + retx_size bs))) (rlc_buffer_status e' (1000 * 1000))))"

end
