(* ===== verification/RlcApiInv.thy ===== *)
theory RlcApiInv
  imports RlcConfig
begin

text \<open>
  What the operations of the RLC module need and keep: every entity is well formed, the identifiers of
  the contexts are distinct, logical channels lead to bearers that can exist; and an operation leaves
  the contexts of other UEs alone.
\<close>

section \<open>Invariant\<close>

text \<open>
  SRB 3 is excluded: \<open>successful_delivery\<close> and \<open>max_retx_reached\<close> do not find its entity and end the
  process (\<open>rlc_srb3_exits\<close> in \<open>RlcApiFaults\<close>).
\<close>

definition rlc_rb_ok :: "nr_rlc_rb \<Rightarrow> bool" where
  "rlc_rb_ok rb \<longleftrightarrow> (case rb of RbNone \<Rightarrow> True | RbSrb i \<Rightarrow> 1 \<le> i \<and> i \<le> 2 | RbDrb i \<Rightarrow> 1 \<le> i \<and> i \<le> 32)"

definition rlc_ue_inv :: "nr_rlc_ue \<Rightarrow> bool" where
  "rlc_ue_inv ue \<longleftrightarrow> length (ru_srb ue) = 3 \<and> length (ru_drb ue) = 32 \<and> length (ru_lcid2rb ue) = 32 \<and>
     ru_srb ue ! 2 = None \<and> (\<forall>data e. ru_srb0 ue = Some (data, e) \<longrightarrow> rlc_inv e) \<and>
     (\<forall>e. Some e \<in> set (ru_srb ue) \<union> set (ru_drb ue) \<longrightarrow> rlc_inv e) \<and> (\<forall>rb \<in> set (ru_lcid2rb ue). rlc_rb_ok rb)"

definition rlc_module_inv :: "rlc_module \<Rightarrow> bool" where
  "rlc_module_inv md \<longleftrightarrow> rlc_mgr_ok (rl_ues md) \<and> (\<forall>k ue. rlc_contexts (rl_ues md) k = Some ue \<longrightarrow> rlc_ue_inv ue)"

text \<open>The module after an operation on the contexts \<open>K\<close>.\<close>

definition rlc_kept :: "int set \<Rightarrow> rlc_module \<Rightarrow> rlc_module \<Rightarrow> bool" where
  "rlc_kept K md md' \<longleftrightarrow> rlc_module_inv md' \<and> rm_enb_flag (rl_ues md') = rm_enb_flag (rl_ues md) \<and>
     (\<forall>k. k \<notin> K \<longrightarrow> rlc_contexts (rl_ues md') k = rlc_contexts (rl_ues md) k)"

lemma rlc_ue_invD:
  assumes "rlc_ue_inv ue"
  shows "length (ru_srb ue) = 3" "length (ru_drb ue) = 32" "length (ru_lcid2rb ue) = 32" "ru_srb ue ! 2 = None"
    "ru_srb0 ue = Some (data, e) \<Longrightarrow> rlc_inv e" "Some e \<in> set (ru_srb ue) \<Longrightarrow> rlc_inv e"
    "Some e \<in> set (ru_drb ue) \<Longrightarrow> rlc_inv e" "rb \<in> set (ru_lcid2rb ue) \<Longrightarrow> rlc_rb_ok rb"
  using assms by (auto simp: rlc_ue_inv_def)

lemma rlc_ue_zero_inv: "rlc_ue_inv (rlc_ue_zero k)"
  by (auto simp: rlc_ue_inv_def rlc_ue_zero_def rlc_rb_ok_def)

section \<open>Contexts\<close>

lemma enb_flag_frame [simp]:
  "rm_enb_flag (rlc_store_ue ue m) = rm_enb_flag m" "rm_enb_flag (nr_rlc_manager_remove_ue k m) = rm_enb_flag m"
  "rl_ues (rlc_save_ue ue md) = rlc_store_ue ue (rl_ues md)"
  by (simp_all add: rlc_store_ue_def nr_rlc_manager_remove_ue_def rlc_save_ue_def)

lemma get_ue_enb_flag: "nr_rlc_manager_get_ue k m = (m', ue) \<Longrightarrow> rm_enb_flag m' = rm_enb_flag m"
  by (auto simp: nr_rlc_manager_get_ue_def split: option.splits)

text \<open>What every operation starts with.\<close>

lemma rlc_ue_of_ok:
  assumes inv: "rlc_module_inv md" and of: "rlc_ue_of k md = (md1, ue)"
  shows "rlc_kept {k} md md1" "rlc_ue_inv ue" "ru_ue_id ue = k" "rl_time md1 = rl_time md"
    "ue = (case rlc_contexts (rl_ues md) k of Some x \<Rightarrow> x | None \<Rightarrow> rlc_ue_zero k)"
    "rlc_contexts (rl_ues md1) = (rlc_contexts (rl_ues md))(k \<mapsto> ue)"
proof -
  obtain m where m: "nr_rlc_manager_get_ue k (rl_ues md) = (m, ue)" "md1 = md\<lparr>rl_ues := m\<rparr>"
    using of by (auto simp: rlc_ue_of_def split: prod.splits)
  have ok: "rlc_mgr_ok (rl_ues md)" using inv by (simp add: rlc_module_inv_def)
  note f = rlc_mgr.fetch_ok [OF ok m(1)] rlc_mgr.fetched_key [OF ok m(1)]
  show ue: "rlc_ue_inv ue"
    using f inv rlc_ue_zero_inv by (auto simp: rlc_module_inv_def split: option.splits)
  show "ru_ue_id ue = k" "rl_time md1 = rl_time md"
    "ue = (case rlc_contexts (rl_ues md) k of Some x \<Rightarrow> x | None \<Rightarrow> rlc_ue_zero k)"
    "rlc_contexts (rl_ues md1) = (rlc_contexts (rl_ues md))(k \<mapsto> ue)" using f m(2) by auto
  show "rlc_kept {k} md md1"
    using f m(2) inv ue get_ue_enb_flag [OF m(1)] by (auto simp: rlc_kept_def rlc_module_inv_def split: if_splits)
qed

text \<open>What every operation ends with: the context is changed and stored.\<close>

lemma rlc_save_kept:
  assumes inv: "rlc_module_inv md" and of: "rlc_ue_of k md = (md1, ue)" and ue': "rlc_ue_inv ue'" "ru_ue_id ue' = k"
  shows "rlc_kept {k} md (rlc_save_ue ue' md1)" "rlc_contexts (rl_ues (rlc_save_ue ue' md1)) = (rlc_contexts (rl_ues md))(k \<mapsto> ue')"
proof -
  obtain m where m: "nr_rlc_manager_get_ue k (rl_ues md) = (m, ue)" "md1 = md\<lparr>rl_ues := m\<rparr>"
    using of by (auto simp: rlc_ue_of_def split: prod.splits)
  have ok: "rlc_mgr_ok (rl_ues md)" using inv by (simp add: rlc_module_inv_def)
  note f = rlc_mgr.access_ok [OF ok m(1) ue'(2)]
  show "rlc_contexts (rl_ues (rlc_save_ue ue' md1)) = (rlc_contexts (rl_ues md))(k \<mapsto> ue')" using f m(2) by simp
  show "rlc_kept {k} md (rlc_save_ue ue' md1)"
    using f m(2) inv ue' get_ue_enb_flag [OF m(1)] by (auto simp: rlc_kept_def rlc_module_inv_def split: if_splits)
qed

lemma rlc_kept_refl: "rlc_module_inv md \<Longrightarrow> rlc_kept K md md"
  by (simp add: rlc_kept_def)

lemma rlc_kept_trans: "rlc_kept K md md1 \<Longrightarrow> rlc_kept K' md1 md2 \<Longrightarrow> K \<union> K' \<subseteq> K'' \<Longrightarrow> rlc_kept K'' md md2"
  unfolding rlc_kept_def by (metis Un_iff subset_iff)

section \<open>Bearers\<close>

definition rlc_slot_ok :: "rlc_slot \<Rightarrow> bool" where
  "rlc_slot_ok s \<longleftrightarrow> (case s of SlotSrb0 \<Rightarrow> True | SlotSrb i \<Rightarrow> 1 \<le> i \<and> i \<le> 2 | SlotDrb i \<Rightarrow> 1 \<le> i \<and> i \<le> 32)"

lemma rlc_slot_entity_inv:
  assumes "rlc_ue_inv ue" "rlc_slot_ok s" "rlc_slot_entity s ue = Some e"
  shows "rlc_inv e"
proof (cases s)
  case SlotSrb0
  then show ?thesis using assms rlc_ue_invD(5) by auto
next
  case (SlotSrb i)
  then have "nat (i - 1) < length (ru_srb ue)" using assms rlc_ue_invD(1) [OF assms(1)] by (auto simp: rlc_slot_ok_def)
  then have "Some e \<in> set (ru_srb ue)" using assms(3) SlotSrb nth_mem [of "nat (i - 1)" "ru_srb ue"] by simp
  then show ?thesis by (rule rlc_ue_invD(6) [OF assms(1)])
next
  case (SlotDrb i)
  then have "nat (i - 1) < length (ru_drb ue)" using assms rlc_ue_invD(2) [OF assms(1)] by (auto simp: rlc_slot_ok_def)
  then have "Some e \<in> set (ru_drb ue)" using assms(3) SlotDrb nth_mem [of "nat (i - 1)" "ru_drb ue"] by simp
  then show ?thesis by (rule rlc_ue_invD(7) [OF assms(1)])
qed

lemma rlc_slot_set_inv:
  assumes "rlc_ue_inv ue" "rlc_slot_ok s" "\<And>e. rb = Some e \<Longrightarrow> rlc_inv e"
  shows "rlc_ue_inv (rlc_slot_set s rb ue)" "ru_ue_id (rlc_slot_set s rb ue) = ru_ue_id ue"
proof -
  have upd: "rlc_inv e" if "\<forall>e. Some e \<in> set l \<longrightarrow> rlc_inv e" "Some e \<in> set (l[i := rb])" for e l i
    using set_update_subset_insert [of l i rb] that assms(3) by blast
  show "rlc_ue_inv (rlc_slot_set s rb ue)"
  proof (cases s)
    case SlotSrb0
    then show ?thesis using assms by (auto simp: rlc_ue_inv_def split: option.splits)
  next
    case (SlotSrb i)
    have "\<forall>e. Some e \<in> set ((ru_srb ue)[nat (i - 1) := rb]) \<longrightarrow> rlc_inv e"
      using upd [of "ru_srb ue"] rlc_ue_invD(6) [OF assms(1)] by blast
    moreover have "nat (i - 1) \<noteq> 2" using assms(2) by (auto simp: SlotSrb rlc_slot_ok_def)
    ultimately show ?thesis using assms(1) unfolding rlc_ue_inv_def by (simp add: SlotSrb)
  next
    case (SlotDrb i)
    have "\<forall>e. Some e \<in> set ((ru_drb ue)[nat (i - 1) := rb]) \<longrightarrow> rlc_inv e"
      using upd [of "ru_drb ue"] rlc_ue_invD(7) [OF assms(1)] by blast
    with assms(1) show ?thesis unfolding rlc_ue_inv_def by (simp add: SlotDrb)
  qed
  show "ru_ue_id (rlc_slot_set s rb ue) = ru_ue_id ue" by (cases s) auto
qed

text \<open>A logical channel leads to a bearer that can exist, or to none.\<close>

lemma get_rlc_entity_ok:
  assumes "rlc_ue_inv ue" "0 \<le> ch" "ch \<le> 32"
  obtains "get_rlc_entity_from_lcid ue ch = Inr None"
    | s e where "get_rlc_entity_from_lcid ue ch = Inr (Some (s, e))" "rlc_slot_ok s" "rlc_slot_entity s ue = Some e" "rlc_inv e"
proof -
  obtain sl where sl: "get_rlc_slot ue ch = Inr sl" "\<And>s. sl = Some s \<Longrightarrow> rlc_slot_ok s"
  proof (cases "ch = 0")
    case True
    then show ?thesis using that [of "Some SlotSrb0"] by (simp add: get_rlc_slot_def rlc_slot_ok_def)
  next
    case False
    then have "nat (ch - 1) < length (ru_lcid2rb ue)" using assms rlc_ue_invD(3) by simp
    then have "rlc_rb_ok (ru_lcid2rb ue ! nat (ch - 1))" using rlc_ue_invD(8) [OF assms(1)] nth_mem by blast
    then show ?thesis using that False assms(2,3)
      by (cases "ru_lcid2rb ue ! nat (ch - 1)") (auto simp: get_rlc_slot_def rlc_slot_ok_def rlc_rb_ok_def)
  qed
  show ?thesis
  proof (cases "sl = None \<or> rlc_slot_entity (the sl) ue = None")
    case True
    then show ?thesis using that(1) sl(1) by (cases sl) (auto simp: get_rlc_entity_from_lcid_def)
  next
    case False
    then obtain s e where s: "sl = Some s" "rlc_slot_entity s ue = Some e" by auto
    then show ?thesis using that(2) sl rlc_slot_entity_inv [OF assms(1)] by (simp add: get_rlc_entity_from_lcid_def)
  qed
qed

text \<open>The table of F1 knows the UE, where the callbacks need it.\<close>

definition rlc_f1_knows :: "rlc_api_env \<Rightarrow> rlc_module \<Rightarrow> int \<Rightarrow> bool" where
  "rlc_f1_knows env md k \<longleftrightarrow> (rm_enb_flag (rl_ues md) \<longrightarrow> re_f1 env (word_of_int k) \<noteq> None)"

lemma rlc_callbacks_ok:
  assumes "rlc_f1_knows env md (ru_ue_id ue)" "rlc_slot_ok s"
  shows "\<exists>outs. rlc_callbacks env (rm_enb_flag (rl_ues md)) ue s evs = Inr outs"
proof (induction evs)
  case (Cons ev evs)
  then obtain outs where outs: "rlc_callbacks env (rm_enb_flag (rl_ues md)) ue s evs = Inr outs" by blast
  have "\<exists>out. rlc_callback env (rm_enb_flag (rl_ues md)) ue s ev = Inr out"
  proof (cases ev)
    case (DeliverSdu b)
    then show ?thesis using assms
      by (cases s) (auto simp: rlc_callback_def deliver_sdu_def rlc_f1_knows_def du_get_f1_ue_data_def Let_def)
  qed (use assms(2) in \<open>auto simp: rlc_callback_def successful_delivery_def max_retx_reached_def rlc_slot_ok_def\<close>)
  then show ?case using outs by auto
qed simp

section \<open>Entities\<close>

lemma rlc_common_inv:
  assumes "rlc_inv e" "\<And>c. bstatus (f c) = bstatus c"
  shows "rlc_inv (rlc_common_update f e)"
proof (cases e)
  case (EntTm x)
  then show ?thesis using assms by (simp add: tm_inv_def)
next
  case (EntUm x)
  then obtain L where "um_inv L x" using assms(1) by auto
  moreover have "um_same_tx x (um_common_update f x)" "um_same_rx x (um_common_update f x)"
    using assms(2) by (simp_all add: um_same_tx_def um_same_rx_def)
  ultimately have "um_inv L (um_common_update f x)"
    using um_tx_inv_same um_rx_inv_same by (auto simp: um_inv_def)
  then show ?thesis using EntUm by auto
next
  case (EntAm x)
  then obtain L where "am_inv L x" using assms(1) by auto
  moreover have "same_tx x (am_common_update f x)" "same_rx x (am_common_update f x)"
    using assms(2) by (simp_all add: same_tx_def same_rx_def)
  ultimately have "am_inv L (am_common_update f x)"
    using am_tx_inv_same am_rx_inv_same by (auto simp: am_inv_def)
  then show ?thesis using EntAm by auto
qed

definition rlc_entity_adm :: "u64 \<Rightarrow> rlc_op list \<Rightarrow> rlc_entity \<Rightarrow> bool" where
  "rlc_entity_adm t ops e \<longleftrightarrow> rlc_adm_run rlc_step rlc_adm (map (Pair t) ops) (rlc_no_events e)"

lemma rlc_run_op_ok:
  assumes "rlc_inv e" "rlc_entity_adm t ops e"
  shows "\<exists>e'. rlc_run_op t ops e = Inr e' \<and> rlc_inv e'"
proof -
  have "rlc_inv (rlc_no_events e)" unfolding rlc_no_events_def by (rule rlc_common_inv [OF assms(1)]) simp
  then show ?thesis using ent.run_inv assms(2) by (auto simp: rlc_entity_adm_def rlc_run_op_def)
qed

lemma rlc_buffer_status_ok:
  assumes "rlc_inv e" "0 \<le> m"
  shows "\<exists>bs. rlc_buffer_status e m = Inr bs"
proof (cases e)
  case (EntAm x)
  then obtain L where "am_inv L x" using assms(1) by auto
  then have cfg: "am_cfg x" using am_tx_invD(1) by (auto simp: am_inv_def)
  obtain n where n: "m = int n" using assms(2) nonneg_int_cases by blast
  obtain k where "am_status_size x (int (length (replicate n (0 :: byte)))) = Inr k"
    using am_generate_status_ok [OF cfg, of "replicate n 0"] by auto
  then show ?thesis using n EntAm by (simp add: nr_rlc_entity_am_buffer_status_def)
qed auto

text \<open>An operation on a bearer, to its end.\<close>

lemma rlc_finish_op_ok:
  assumes inv: "rlc_module_inv md" and of: "rlc_ue_of k md = (md1, ue)" and f1: "rlc_f1_knows env md k"
    and s: "rlc_slot_ok s" and e: "rlc_inv e"
  shows "\<exists>outs. rlc_finish_op env ue s e md1 = Inr (rlc_save_ue (rlc_slot_set s (Some e) ue) md1, outs) \<and>
    rlc_kept {k} md (rlc_save_ue (rlc_slot_set s (Some e) ue) md1)"
proof -
  note u = rlc_ue_of_ok [OF inv of]
  have "rlc_f1_knows env md1 (ru_ue_id ue)" using f1 u(1,3) by (simp add: rlc_f1_knows_def rlc_kept_def)
  from rlc_callbacks_ok [OF this s] obtain outs where
    "rlc_callbacks env (rm_enb_flag (rl_ues md1)) ue s (events (rlc_common e)) = Inr outs" by blast
  moreover have "rlc_kept {k} md (rlc_save_ue (rlc_slot_set s (Some e) ue) md1)"
    by (rule rlc_save_kept(1) [OF inv of]) (use rlc_slot_set_inv [OF u(2) s] e u(3) in auto)
  ultimately show ?thesis by (simp add: rlc_finish_op_def)
qed

end
