(* ===== verification/RlcApiRuns.thy ===== *)
theory RlcApiRuns
  imports RlcApiInv
begin

text \<open>
  The RLC module as a machine of its operations: which of them are admissible, that each completes and
  keeps the invariant, and that it touches the contexts of the UEs it names and no other.
\<close>

section \<open>Operations\<close>

datatype rlc_api_op =
    ApiDataInd int int "byte list"
  | ApiDataReq int int "byte list"
  | ApiStatusInd int u32 int
  | ApiOccupancy int u32 u32 int
  | ApiSduReq int bool int int "byte list"
  | ApiSrbSdu int int "byte list"
  | ApiAddSrb int int rlc_bearer_config
  | ApiAddDrb int int rlc_bearer_config
  | ApiActivateSrb0 int
  | ApiReestablish int int
  | ApiReconfigure int int "rlc_config option"
  | ApiRelease int int
  | ApiConfigReq u64 bool int
  | ApiRemoveUe int
  | ApiUpdateId int int
  | ApiTestTrigger int
  | ApiSetRlf int bool
  | ApiAvg int int bool
  | ApiStats int bool int
  | ApiTick u32 u32

text \<open>One operation at a reading \<open>t\<close> of the clock: the module, and what was handed to other modules.\<close>

fun rlc_api_step :: "rlc_api_env \<Rightarrow> u64 \<Rightarrow> rlc_api_op \<Rightarrow> rlc_module \<Rightarrow> (rlc_module \<times> rlc_out list) res" where
  "rlc_api_step env t (ApiDataInd u ch b) md = mac_rlc_data_ind env t u 0 False ch b md"
| "rlc_api_step env t (ApiDataReq u ch b) md = res_map (\<lambda>(md', n, b', outs). (md', outs)) (mac_rlc_data_req env t u ch b md)"
| "rlc_api_step env t (ApiStatusInd u fr ch) md = res_map (\<lambda>(md', n, outs). (md', outs)) (mac_rlc_status_ind env t u fr ch md)"
| "rlc_api_step env t (ApiOccupancy u fr sf ch) md =
     res_map (\<lambda>(md', n, outs). (md', outs)) (mac_rlc_get_buffer_occupancy_ind env t u fr sf False ch md)"
| "rlc_api_step env t (ApiSduReq u srb rb mui b) md = rlc_data_req env t u srb rb mui b md"
| "rlc_api_step env t (ApiSrbSdu u ch b) md = nr_rlc_srb_recv_sdu env t u ch b md"
| "rlc_api_step env t (ApiAddSrb u srb c) md = res_map (\<lambda>md'. (md', [])) (nr_rlc_add_srb u srb c md)"
| "rlc_api_step env t (ApiAddDrb u drb c) md = res_map (\<lambda>md'. (md', [])) (nr_rlc_add_drb u drb c md)"
| "rlc_api_step env t (ApiActivateSrb0 u) md = res_map (\<lambda>(md', ok). (md', [])) (nr_rlc_activate_srb0 u md)"
| "rlc_api_step env t (ApiReestablish u ch) md = nr_rlc_reestablish_entity env t u ch md"
| "rlc_api_step env t (ApiReconfigure u ch c) md = res_map (\<lambda>md'. (md', [])) (nr_rlc_reconfigure_entity u ch c md)"
| "rlc_api_step env t (ApiRelease u ch) md = res_map (\<lambda>md'. (md', [])) (nr_rlc_release_entity u ch md)"
| "rlc_api_step env t (ApiConfigReq u srb rb) md = res_map (\<lambda>md'. (md', [])) (rrc_rlc_config_req u 0 srb False True rb md)"
| "rlc_api_step env t (ApiRemoveUe u) md = Inr (nr_rlc_remove_ue u md, [])"
| "rlc_api_step env t (ApiUpdateId u v) md = res_map (\<lambda>(md', ok, outs). (md', outs)) (nr_rlc_update_id env t u v md)"
| "rlc_api_step env t (ApiTestTrigger u) md = nr_rlc_test_trigger_reestablishment env t u md"
| "rlc_api_step env t (ApiSetRlf u h) md = Inr (nr_rlc_set_rlf_handler u h md, [])"
| "rlc_api_step env t (ApiAvg u ch on) md = Inr (nr_rlc_activate_avg_time_to_tx u ch on md, [])"
| "rlc_api_step env t (ApiStats u srb rb) md = res_map (\<lambda>(md', s). (md', [])) (nr_rlc_get_statistics t u srb rb md)"
| "rlc_api_step env t (ApiTick fr sf) md = Inr (nr_rlc_tick fr sf md, [])"

text \<open>The UEs an operation is about.\<close>

fun rlc_about :: "rlc_api_op \<Rightarrow> int set" where
  "rlc_about (ApiDataInd u ch b) = {u}"
| "rlc_about (ApiDataReq u ch b) = {u}"
| "rlc_about (ApiStatusInd u fr ch) = {u}"
| "rlc_about (ApiOccupancy u fr sf ch) = {u}"
| "rlc_about (ApiSduReq u srb rb mui b) = {u}"
| "rlc_about (ApiSrbSdu u ch b) = {u}"
| "rlc_about (ApiAddSrb u srb c) = {u}"
| "rlc_about (ApiAddDrb u drb c) = {u}"
| "rlc_about (ApiActivateSrb0 u) = {u}"
| "rlc_about (ApiReestablish u ch) = {u}"
| "rlc_about (ApiReconfigure u ch c) = {u}"
| "rlc_about (ApiRelease u ch) = {u}"
| "rlc_about (ApiConfigReq u srb rb) = {sint (ucast u :: u32)}"
| "rlc_about (ApiRemoveUe u) = {u}"
| "rlc_about (ApiUpdateId u v) = {u, v}"
| "rlc_about (ApiTestTrigger u) = {u}"
| "rlc_about (ApiSetRlf u h) = {u}"
| "rlc_about (ApiAvg u ch on) = {u}"
| "rlc_about (ApiStats u srb rb) = {u}"
| "rlc_about (ApiTick fr sf) = {}"

section \<open>Admissible operations\<close>

definition rlc_the_ue :: "int \<Rightarrow> rlc_module \<Rightarrow> nr_rlc_ue" where
  "rlc_the_ue k md = snd (rlc_ue_of k md)"

text \<open>The bearer, if there is one, takes the operations.\<close>

definition rlc_slot_takes :: "u64 \<Rightarrow> rlc_op list \<Rightarrow> rlc_slot \<Rightarrow> nr_rlc_ue \<Rightarrow> bool" where
  "rlc_slot_takes t ops s ue \<longleftrightarrow> (case rlc_slot_entity s ue of None \<Rightarrow> True | Some e \<Rightarrow> rlc_entity_adm t ops e)"

definition rlc_lcid_takes :: "u64 \<Rightarrow> rlc_op list \<Rightarrow> int \<Rightarrow> nr_rlc_ue \<Rightarrow> bool" where
  "rlc_lcid_takes t ops ch ue \<longleftrightarrow> 0 \<le> ch \<and> ch \<le> 32 \<and>
     (case get_rlc_slot ue ch of Inr (Some s) \<Rightarrow> rlc_slot_takes t ops s ue | _ \<Rightarrow> True)"

text \<open>Values of the enumerations of the ASN.1 types, and one length of sequence numbers.\<close>

definition rlc_am_config_ok :: "rlc_am_config \<Rightarrow> bool" where
  "rlc_am_config_ok c \<longleftrightarrow> ac_t_reassembly c \<in> {0..30} \<and> ac_t_status_prohibit c \<in> {0..61} \<and>
     ac_t_poll_retransmit c \<in> {0..58} \<and> ac_poll_pdu c \<in> {0..23} \<and> ac_poll_byte c \<in> {0..43} \<and>
     ac_max_retx_threshold c \<in> {0..7} \<and> ac_ul_sn_length c = ac_dl_sn_length c \<and>
     ac_dl_sn_length c \<in> {Some 0, Some 1}"

definition rlc_um_config_ok :: "rlc_um_config \<Rightarrow> bool" where
  "rlc_um_config_ok c \<longleftrightarrow> uc_t_reassembly c \<in> {0..30} \<and> uc_ul_sn_length c = uc_dl_sn_length c \<and>
     uc_dl_sn_length c \<in> {Some 0, Some 1}"

definition rlc_config_ok :: "rlc_config \<Rightarrow> bool" where
  "rlc_config_ok c \<longleftrightarrow> (case c of CfgAm am \<Rightarrow> rlc_am_config_ok am | CfgUm um \<Rightarrow> rlc_um_config_ok um | CfgOther \<Rightarrow> False)"

definition rlc_bearer_config_ok :: "int \<Rightarrow> rlc_bearer_config \<Rightarrow> bool" where
  "rlc_bearer_config_ok i c \<longleftrightarrow> bc_served c = Some i \<and> 1 \<le> bc_lcid c \<and> bc_lcid c \<le> 32 \<and>
     (\<forall>r. bc_config c = Some r \<longrightarrow> rlc_config_ok r)"

text \<open>A reconfiguration that fits the mode of the bearer and leaves the length of its sequence numbers alone.\<close>

definition rlc_reconfig_ok :: "rlc_config option \<Rightarrow> rlc_entity \<Rightarrow> bool" where
  "rlc_reconfig_ok c e \<longleftrightarrow>
     (case (c, e) of
        (Some (CfgAm am), EntAm x) \<Rightarrow> rlc_am_config_ok am \<and>
           (\<forall>n. rlc_new_sn_length decode_sn_field_length_am (ac_dl_sn_length am) (ac_ul_sn_length am) = Inr (Some n) \<longrightarrow>
              n = am_sn_field_length x)
      | (Some (CfgUm um), EntUm x) \<Rightarrow> rlc_um_config_ok um \<and>
           (\<forall>n. rlc_new_sn_length decode_sn_field_length_um (uc_dl_sn_length um) (uc_ul_sn_length um) = Inr (Some n) \<longrightarrow>
              n = um_sn_field_length x)
      | (None, EntAm x) \<Rightarrow> am_sn_field_length x = 12
      | _ \<Rightarrow> False)"

fun rlc_api_adm :: "rlc_api_env \<Rightarrow> u64 \<Rightarrow> rlc_api_op \<Rightarrow> rlc_module \<Rightarrow> bool" where
  "rlc_api_adm env t (ApiDataInd u ch b) md \<longleftrightarrow> rlc_f1_knows env md u \<and>
     rlc_lcid_takes t [SetTime (rl_time md), RecvPdu b] ch (rlc_the_ue u md)"
| "rlc_api_adm env t (ApiDataReq u ch b) md \<longleftrightarrow> rlc_f1_knows env md u \<and>
     rlc_lcid_takes t [SetTime (rl_time md)] ch (rlc_the_ue u md)"
| "rlc_api_adm env t (ApiStatusInd u fr ch) md \<longleftrightarrow> rlc_f1_knows env md u \<and>
     rlc_lcid_takes t [SetTime (rl_time md)] ch (rlc_the_ue u md)"
| "rlc_api_adm env t (ApiOccupancy u fr sf ch) md \<longleftrightarrow> rlc_f1_knows env md u \<and>
     rlc_lcid_takes t [SetTime (rl_time (nr_rlc_tick fr sf md))] ch (rlc_the_ue u md)"
| "rlc_api_adm env t (ApiSduReq u srb rb mui b) md \<longleftrightarrow> rlc_f1_knows env md u \<and>
     (rb \<in> {1..if srb then 2 else 32} \<longrightarrow>
       rlc_slot_takes t [SetTime (rl_time md), RecvSdu b mui] (if srb then SlotSrb rb else SlotDrb rb) (rlc_the_ue u md))"
| "rlc_api_adm env t (ApiSrbSdu u ch b) md \<longleftrightarrow> rlc_f1_knows env md u \<and> 0 \<le> ch \<and> ch \<le> 2 \<and>
     rlc_slot_entity (if ch = 0 then SlotSrb0 else SlotSrb ch) (rlc_the_ue u md) \<noteq> None \<and>
     rlc_slot_takes t [SetTime (rl_time md), RecvSdu b (- 1)] (if ch = 0 then SlotSrb0 else SlotSrb ch) (rlc_the_ue u md)"
| "rlc_api_adm env t (ApiAddSrb u srb c) md \<longleftrightarrow> 1 \<le> srb \<and> srb \<le> 2 \<and> rlc_bearer_config_ok srb c"
| "rlc_api_adm env t (ApiAddDrb u drb c) md \<longleftrightarrow> 1 \<le> drb \<and> drb \<le> 32 \<and> rlc_bearer_config_ok drb c \<and> bc_config c \<noteq> None"
| "rlc_api_adm env t (ApiActivateSrb0 u) md \<longleftrightarrow> True"
| "rlc_api_adm env t (ApiReestablish u ch) md \<longleftrightarrow> rlc_f1_knows env md u \<and> 0 \<le> ch \<and> ch \<le> 32"
| "rlc_api_adm env t (ApiReconfigure u ch c) md \<longleftrightarrow>
     (\<exists>s e. get_rlc_entity_from_lcid (rlc_the_ue u md) ch = Inr (Some (s, e)) \<and> rlc_reconfig_ok c e)"
| "rlc_api_adm env t (ApiRelease u ch) md \<longleftrightarrow> 0 \<le> ch \<and> ch \<le> 32"
| "rlc_api_adm env t (ApiConfigReq u srb rb) md \<longleftrightarrow> rb \<in> {1..if srb then 2 else 32}"
| "rlc_api_adm env t (ApiRemoveUe u) md \<longleftrightarrow> True"
| "rlc_api_adm env t (ApiUpdateId u v) md \<longleftrightarrow> rlc_f1_knows env md v \<and> (v = u \<or> rlc_contexts (rl_ues md) v = None)"
| "rlc_api_adm env t (ApiTestTrigger u) md \<longleftrightarrow> rlc_f1_knows env md u \<and>
     rlc_slot_entity (SlotSrb 1) (rlc_the_ue u md) \<noteq> None \<and> rlc_slot_entity (SlotDrb 1) (rlc_the_ue u md) \<noteq> None"
| "rlc_api_adm env t (ApiSetRlf u h) md \<longleftrightarrow> True"
| "rlc_api_adm env t (ApiAvg u ch on) md \<longleftrightarrow> True"
| "rlc_api_adm env t (ApiStats u srb rb) md \<longleftrightarrow> True"
| "rlc_api_adm env t (ApiTick fr sf) md \<longleftrightarrow> True"

section \<open>Every operation completes and keeps the invariant\<close>

definition rlc_step_ok :: "int set \<Rightarrow> rlc_module \<Rightarrow> (rlc_module \<times> rlc_out list) res \<Rightarrow> bool" where
  "rlc_step_ok K md r \<longleftrightarrow> (\<exists>md' outs. r = Inr (md', outs) \<and> rlc_kept K md md')"

lemma rlc_step_okI: "rlc_kept K md md' \<Longrightarrow> rlc_step_ok K md (Inr (md', outs))"
  by (auto simp: rlc_step_ok_def)

text \<open>A bearer found by its logical channel.\<close>

lemma rlc_lcid_run:
  assumes ue: "rlc_ue_inv ue" and takes: "rlc_lcid_takes t ops ch ue"
  obtains "get_rlc_entity_from_lcid ue ch = Inr None"
    | s e e' where "get_rlc_entity_from_lcid ue ch = Inr (Some (s, e))" "rlc_slot_ok s"
        "rlc_run_op t ops e = Inr e'" "rlc_inv e'"
proof -
  have ch: "0 \<le> ch" "ch \<le> 32" using takes by (auto simp: rlc_lcid_takes_def)
  show ?thesis
  proof (rule get_rlc_entity_ok [OF ue ch])
    assume "get_rlc_entity_from_lcid ue ch = Inr None"
    then show ?thesis by (rule that(1))
  next
    fix s e assume se: "get_rlc_entity_from_lcid ue ch = Inr (Some (s, e))" "rlc_slot_ok s" "rlc_slot_entity s ue = Some e" "rlc_inv e"
    then have "get_rlc_slot ue ch = Inr (Some s)"
      by (auto simp: get_rlc_entity_from_lcid_def res_map_eq_Inr map_option_case split: option.splits)
    then have "rlc_entity_adm t ops e" using takes se(3) by (simp add: rlc_lcid_takes_def rlc_slot_takes_def)
    with rlc_run_op_ok [OF se(4)] that(2) [OF se(1,2)] show ?thesis by blast
  qed
qed

lemma rlc_slot_run:
  assumes "rlc_ue_inv ue" "rlc_slot_takes t ops s ue" "rlc_slot_ok s" "rlc_slot_entity s ue = Some e"
  shows "\<exists>e'. rlc_run_op t ops e = Inr e' \<and> rlc_inv e'"
  using assms rlc_run_op_ok [OF rlc_slot_entity_inv [OF assms(1,3,4)]] by (simp add: rlc_slot_takes_def)

lemma data_ind_ok:
  assumes inv: "rlc_module_inv md" and f1: "rlc_f1_knows env md u"
    and takes: "rlc_lcid_takes t [SetTime (rl_time md), RecvPdu b] ch (rlc_the_ue u md)"
  shows "rlc_step_ok {u} md (mac_rlc_data_ind env t u 0 False ch b md)"
proof -
  obtain md1 ue where of: "rlc_ue_of u md = (md1, ue)" by fastforce
  note u = rlc_ue_of_ok [OF inv of]
  have "rlc_lcid_takes t [SetTime (rl_time md), RecvPdu b] ch ue" using takes of by (simp add: rlc_the_ue_def)
  then show ?thesis
  proof (rule rlc_lcid_run [OF u(2)])
    assume "get_rlc_entity_from_lcid ue ch = Inr None"
    then show ?thesis using of u(1) by (simp add: mac_rlc_data_ind_def rlc_step_okI)
  next
    fix s e e' assume "get_rlc_entity_from_lcid ue ch = Inr (Some (s, e))" "rlc_slot_ok s"
      "rlc_run_op t [SetTime (rl_time md), RecvPdu b] e = Inr e'" "rlc_inv e'"
    with rlc_finish_op_ok [OF inv of f1] of show ?thesis by (fastforce simp: mac_rlc_data_ind_def rlc_step_ok_def)
  qed
qed

lemma rlc_generate_ok:
  assumes "rlc_inv e"
  shows "\<exists>n b' e'. rlc_generate_pdu t b e = Inr (n, b', e') \<and> rlc_inv e'"
proof -
  have "rlc_adm (GeneratePdu b) e" by (cases e) (simp_all add: tm_adm_def)
  from ent.step_inv [OF assms this, of t] obtain e' where "rlc_step t (GeneratePdu b) e = Inr e'" "rlc_inv e'" by blast
  then show ?thesis unfolding rlc_generate_step res_map_eq_Inr by auto
qed

lemma data_req_ok:
  assumes inv: "rlc_module_inv md" and f1: "rlc_f1_knows env md u"
    and takes: "rlc_lcid_takes t [SetTime (rl_time md)] ch (rlc_the_ue u md)"
  shows "\<exists>md' n b' outs. mac_rlc_data_req env t u ch b md = Inr (md', n, b', outs) \<and> rlc_kept {u} md md'"
proof -
  obtain md1 ue where of: "rlc_ue_of u md = (md1, ue)" by fastforce
  note u = rlc_ue_of_ok [OF inv of]
  have "rlc_lcid_takes t [SetTime (rl_time md)] ch ue" using takes of by (simp add: rlc_the_ue_def)
  then show ?thesis
  proof (rule rlc_lcid_run [OF u(2)])
    assume "get_rlc_entity_from_lcid ue ch = Inr None"
    then show ?thesis using of u(1) by (simp add: mac_rlc_data_req_def)
  next
    fix s e e1 assume g: "get_rlc_entity_from_lcid ue ch = Inr (Some (s, e))" "rlc_slot_ok s"
      "rlc_run_op t [SetTime (rl_time md)] e = Inr e1" "rlc_inv e1"
    obtain n b' e2 where "rlc_generate_pdu t b e1 = Inr (n, b', e2)" "rlc_inv e2" using rlc_generate_ok [OF g(4)] by blast
    with g rlc_finish_op_ok [OF inv of f1 g(2), of e2] of show ?thesis by (fastforce simp: mac_rlc_data_req_def)
  qed
qed

lemma bytes_in_buffer_ok:
  assumes inv: "rlc_module_inv md" and f1: "rlc_f1_knows env md u"
    and takes: "rlc_lcid_takes t [SetTime (rl_time md)] ch (rlc_the_ue u md)"
  shows "\<exists>md' n outs. rlc_bytes_in_buffer env t u ch z md = Inr (md', n, outs) \<and> rlc_kept {u} md md'"
proof -
  obtain md1 ue where of: "rlc_ue_of u md = (md1, ue)" by fastforce
  note u = rlc_ue_of_ok [OF inv of]
  have "rlc_lcid_takes t [SetTime (rl_time md)] ch ue" using takes of by (simp add: rlc_the_ue_def)
  then show ?thesis
  proof (rule rlc_lcid_run [OF u(2)])
    assume "get_rlc_entity_from_lcid ue ch = Inr None"
    then show ?thesis using of u(1) by (simp add: rlc_bytes_in_buffer_def)
  next
    fix s e e1 assume g: "get_rlc_entity_from_lcid ue ch = Inr (Some (s, e))" "rlc_slot_ok s"
      "rlc_run_op t [SetTime (rl_time md)] e = Inr e1" "rlc_inv e1"
    obtain bs where "rlc_buffer_status e1 (1000 * 1000) = Inr bs" using rlc_buffer_status_ok [OF g(4), of "1000 * 1000"] by auto
    with g rlc_finish_op_ok [OF inv of f1 g(2,4)] of show ?thesis by (fastforce simp: rlc_bytes_in_buffer_def)
  qed
qed

lemma tick_kept:
  assumes "rlc_module_inv md"
  shows "rlc_kept K md (nr_rlc_tick fr sf md)" "rl_ues (nr_rlc_tick fr sf md) = rl_ues md"
  using assms by (auto simp: nr_rlc_tick_def rlc_kept_def rlc_module_inv_def)

text \<open>SDUs for a bearer.\<close>

lemma slot_sdu_ok:
  assumes inv: "rlc_module_inv md" and of: "rlc_ue_of u md = (md1, ue)" and f1: "rlc_f1_knows env md u"
    and s: "rlc_slot_ok s" "rlc_slot_entity s ue = Some e" "rlc_slot_takes t ops s ue"
  shows "rlc_step_ok {u} md (res_bind (rlc_run_op t ops e) (\<lambda>e'. rlc_finish_op env ue s e' md1))"
proof -
  obtain e' where e': "rlc_run_op t ops e = Inr e'" "rlc_inv e'"
    using rlc_slot_run [OF rlc_ue_of_ok(2) [OF inv of] s(3,1,2)] by blast
  with rlc_finish_op_ok [OF inv of f1 s(1) e'(2)] show ?thesis by (auto simp: rlc_step_ok_def)
qed

lemma sdu_req_ok:
  assumes inv: "rlc_module_inv md" and adm: "rlc_api_adm env t (ApiSduReq u srb rb mui b) md"
  shows "rlc_step_ok {u} md (rlc_data_req env t u srb rb mui b md)"
proof -
  obtain md1 ue where of: "rlc_ue_of u md = (md1, ue)" by fastforce
  note u = rlc_ue_of_ok [OF inv of]
  let ?s = "if srb then SlotSrb rb else SlotDrb rb"
  show ?thesis
  proof (cases "rb \<in> {1..if srb then 2 else 32}")
    case out: False
    then show ?thesis using of u(1) by (cases srb) (auto simp: rlc_data_req_def intro: rlc_step_okI)
  next
    case True
    then have s: "rlc_slot_ok ?s" by (auto simp: rlc_slot_ok_def)
    have eq: "rlc_data_req env t u srb rb mui b md = (case rlc_slot_entity ?s ue of None \<Rightarrow> Inr (md1, [])
        | Some e \<Rightarrow> res_bind (rlc_run_op t [SetTime (rl_time md), RecvSdu b mui] e) (\<lambda>e'. rlc_finish_op env ue ?s e' md1))"
      using True of by (cases srb) (simp_all add: rlc_data_req_def)
    have "rlc_slot_takes t [SetTime (rl_time md), RecvSdu b mui] ?s ue" "rlc_f1_knows env md u"
      using adm True of by (auto simp: rlc_the_ue_def)
    then show ?thesis unfolding eq using slot_sdu_ok [OF inv of _ s] u(1) by (auto intro: rlc_step_okI split: option.split)
  qed
qed

lemma srb_sdu_ok:
  assumes inv: "rlc_module_inv md" and adm: "rlc_api_adm env t (ApiSrbSdu u ch b) md"
  shows "rlc_step_ok {u} md (nr_rlc_srb_recv_sdu env t u ch b md)"
proof -
  obtain md1 ue where of: "rlc_ue_of u md = (md1, ue)" by fastforce
  let ?s = "if ch = 0 then SlotSrb0 else SlotSrb ch"
  have s: "rlc_slot_ok ?s" using adm by (auto simp: rlc_slot_ok_def)
  have a: "rlc_f1_knows env md u" "rlc_slot_takes t [SetTime (rl_time md), RecvSdu b (- 1)] ?s ue" "0 \<le> ch" "ch \<le> 2"
    "rlc_slot_entity ?s ue \<noteq> None" using adm of by (simp_all add: rlc_the_ue_def)
  obtain e where e: "rlc_slot_entity ?s ue = Some e" using a(5) by blast
  have "nr_rlc_srb_recv_sdu env t u ch b md =
      res_bind (rlc_run_op t [SetTime (rl_time md), RecvSdu b (- 1)] e) (\<lambda>e'. rlc_finish_op env ue ?s e' md1)"
    using of a(3,4) e unfolding nr_rlc_srb_recv_sdu_def Let_def by simp
  then show ?thesis using slot_sdu_ok [OF inv of a(1) s e a(2)] by simp
qed

text \<open>Bearers are added.\<close>

lemma am_new_total: "n = 12 \<or> n = 18 \<Longrightarrow> \<exists>e. new_nr_rlc_entity_am a b c d f g h i n = Inr e"
  using common_new_Inr [of NR_RLC_AM] by (auto simp: new_nr_rlc_entity_am_def Let_def)

lemma um_new_total: "n = 6 \<or> n = 12 \<Longrightarrow> \<exists>e. new_nr_rlc_entity_um a b c n = Inr e"
  using common_new_Inr [of NR_RLC_UM] by (auto simp: new_nr_rlc_entity_um_def Let_def)

lemma am_of_config_ok:
  assumes "rlc_am_config_ok c"
  shows "\<exists>e. rlc_am_of_config c = Inr e \<and> am_inv {#} e"
proof -
  obtain k where k: "ac_dl_sn_length c = Some k" "ac_ul_sn_length c = Some k" "k = 0 \<or> k = 1"
    using assms by (auto simp: rlc_am_config_ok_def)
  have len: "decode_sn_field_length_am k = Inr (if k = 0 then 12 else 18)"
    using k(3) by (auto simp: decode_sn_field_length_am_def sn_field_length_am_tab_def)
  let ?a = "t_poll_retransmit_tab ! nat (ac_t_poll_retransmit c)" and ?b = "t_reassembly_tab ! nat (ac_t_reassembly c)"
    and ?d = "t_status_prohibit_tab ! nat (ac_t_status_prohibit c)" and ?p = "poll_pdu_tab ! nat (ac_poll_pdu c)"
    and ?q = "poll_byte_tab ! nat (ac_poll_byte c)" and ?r = "max_retx_threshold_tab ! nat (ac_max_retx_threshold c)"
  have eq: "rlc_am_of_config c = new_nr_rlc_entity_am RLC_MAXSIZE RLC_MAXSIZE ?a ?b ?d ?p ?q ?r (if k = 0 then 12 else 18)"
    using assms k(1,2) len
    by (simp add: rlc_am_of_config_def rlc_am_config_ok_def decode_t_reassembly_def decode_t_status_prohibit_def
        decode_t_poll_retransmit_def decode_poll_pdu_def decode_poll_byte_def decode_max_retx_threshold_def rlc_deref_def)
  obtain e where e: "rlc_am_of_config c = Inr e" unfolding eq using am_new_total by fastforce
  have "am_inv {#} e" by (rule am_inv_new [OF e [unfolded eq]]) (simp_all add: RLC_MAXSIZE_def)
  with e show ?thesis by blast
qed

lemma am_default_ok: "\<exists>e. rlc_am_default = Inr e \<and> am_inv {#} e"
proof -
  obtain e where "rlc_am_default = Inr e" unfolding rlc_am_default_def using am_new_total by blast
  moreover from this have "am_inv {#} e"
    unfolding rlc_am_default_def by (rule am_inv_new) (simp_all add: RLC_MAXSIZE_def)
  ultimately show ?thesis by blast
qed

lemma um_of_config_ok:
  assumes "rlc_um_config_ok c"
  shows "\<exists>e. rlc_um_of_config c = Inr e \<and> um_inv {#} e"
proof -
  obtain k where k: "uc_dl_sn_length c = Some k" "uc_ul_sn_length c = Some k" "k = 0 \<or> k = 1"
    using assms by (auto simp: rlc_um_config_ok_def)
  have len: "decode_sn_field_length_um k = Inr (if k = 0 then 6 else 12)"
    using k(3) by (auto simp: decode_sn_field_length_um_def sn_field_length_um_tab_def)
  have eq: "rlc_um_of_config c = new_nr_rlc_entity_um RLC_MAXSIZE RLC_MAXSIZE (t_reassembly_tab ! nat (uc_t_reassembly c))
      (if k = 0 then 6 else 12)"
    using assms k(1,2) len
    by (simp add: rlc_um_of_config_def rlc_um_config_ok_def decode_t_reassembly_def rlc_deref_def)
  obtain e where e: "rlc_um_of_config c = Inr e" unfolding eq using um_new_total by fastforce
  have "um_inv {#} e" by (rule um_inv_new [OF e [unfolded eq]]) (simp_all add: RLC_MAXSIZE_def)
  with e show ?thesis by blast
qed

lemma map_lcid_ok:
  assumes "rlc_ue_inv ue" "bc_served c = Some i" "1 \<le> bc_lcid c" "bc_lcid c \<le> 32" "rlc_rb_ok (rb i)"
  obtains ue1 where "rlc_map_lcid c rb ue = Inr ue1" "rlc_ue_inv ue1" "ru_ue_id ue1 = ru_ue_id ue"
    "ru_srb ue1 = ru_srb ue" "ru_drb ue1 = ru_drb ue"
    "ru_lcid2rb ue1 = (ru_lcid2rb ue)[nat (bc_lcid c - 1) := rb i]"
proof
  let ?l = "(ru_lcid2rb ue)[nat (bc_lcid c - 1) := rb i]"
  show "rlc_map_lcid c rb ue = Inr (ue\<lparr>ru_lcid2rb := ?l\<rparr>)"
    using assms(2-4) by (simp add: rlc_map_lcid_def rlc_deref_def)
  have "\<forall>x \<in> set ?l. rlc_rb_ok x"
    using set_update_subset_insert [of "ru_lcid2rb ue" "nat (bc_lcid c - 1)" "rb i"] assms(1,5) rlc_ue_invD(8) by blast
  then show "rlc_ue_inv (ue\<lparr>ru_lcid2rb := ?l\<rparr>)" using assms(1) by (simp add: rlc_ue_inv_def)
qed simp_all

lemma add_srb_ok:
  assumes inv: "rlc_module_inv md" and i: "1 \<le> i" "i \<le> 2" and c: "rlc_bearer_config_ok i c"
  shows "\<exists>md'. nr_rlc_add_srb u i c md = Inr md' \<and> rlc_kept {u} md md'"
proof -
  obtain md1 ue where of: "rlc_ue_of u md = (md1, ue)" by fastforce
  note u = rlc_ue_of_ok [OF inv of]
  obtain am where am: "(case bc_config c of Some (CfgAm a) \<Rightarrow> rlc_am_of_config a | _ \<Rightarrow> rlc_am_default) = Inr am" "am_inv {#} am"
    using c am_of_config_ok am_default_ok
    by (cases "bc_config c") (auto simp: rlc_bearer_config_ok_def rlc_config_ok_def split: rlc_config.split rlc_config.splits)
  have "rlc_rb_ok (RbSrb i)" using i by (simp add: rlc_rb_ok_def)
  then obtain ue1 where ue1: "rlc_map_lcid c RbSrb ue = Inr ue1" "rlc_ue_inv ue1" "ru_ue_id ue1 = u" "ru_srb ue1 = ru_srb ue"
    using map_lcid_ok [OF u(2), of c i RbSrb] c u(3) by (auto simp: rlc_bearer_config_ok_def)
  have s: "rlc_slot_ok (SlotSrb i)" using i by (simp add: rlc_slot_ok_def)
  let ?ue2 = "rlc_slot_set (SlotSrb i) (Some (EntAm am)) ue1"
  have "rlc_inv (EntAm am)" using am(2) by auto
  then have ue2: "rlc_ue_inv ?ue2" "ru_ue_id ?ue2 = u"
    using rlc_slot_set_inv [OF ue1(2) s, of "Some (EntAm am)"] ue1(3) by simp_all
  have "nr_rlc_add_srb u i c md = (if ru_srb ue1 ! nat (i - 1) \<noteq> None then Inr (rlc_save_ue ue1 md1) else Inr (rlc_save_ue ?ue2 md1))"
    unfolding nr_rlc_add_srb_def am(1) Let_def using of ue1(1) i by (simp add: nr_rlc_ue_add_srb_rlc_entity_def)
  then show ?thesis using rlc_save_kept(1) [OF inv of ue1(2,3)] rlc_save_kept(1) [OF inv of ue2] by simp
qed

lemma add_drb_entity_ok:
  assumes inv: "rlc_module_inv md" and i: "1 \<le> i" "i \<le> 32" and c: "rlc_bearer_config_ok i c" and e: "rlc_inv e"
  shows "\<exists>md'. rlc_add_drb_entity u i c e md = Inr md' \<and> rlc_kept {u} md md'"
proof -
  obtain md1 ue where of: "rlc_ue_of u md = (md1, ue)" by fastforce
  note u = rlc_ue_of_ok [OF inv of]
  have "rlc_rb_ok (RbDrb i)" using i by (simp add: rlc_rb_ok_def)
  then obtain ue1 where ue1: "rlc_map_lcid c RbDrb ue = Inr ue1" "rlc_ue_inv ue1" "ru_ue_id ue1 = u"
    using map_lcid_ok [OF u(2), of c i RbDrb] c u(3) by (auto simp: rlc_bearer_config_ok_def)
  have s: "rlc_slot_ok (SlotDrb i)" using i by (simp add: rlc_slot_ok_def)
  let ?ue2 = "rlc_slot_set (SlotDrb i) (Some e) ue1"
  have ue2: "rlc_ue_inv ?ue2" "ru_ue_id ?ue2 = u"
    using rlc_slot_set_inv [OF ue1(2) s, of "Some e"] e ue1(3) by simp_all
  have "rlc_add_drb_entity u i c e md = (if ru_drb ue1 ! nat (i - 1) \<noteq> None then Inr (rlc_save_ue ue1 md1) else Inr (rlc_save_ue ?ue2 md1))"
    unfolding rlc_add_drb_entity_def Let_def using of ue1(1) i by (simp add: nr_rlc_ue_add_drb_rlc_entity_def)
  then show ?thesis using rlc_save_kept(1) [OF inv of ue1(2,3)] rlc_save_kept(1) [OF inv of ue2] by simp
qed

lemma add_drb_ok:
  assumes inv: "rlc_module_inv md" and i: "1 \<le> i" "i \<le> 32" and c: "rlc_bearer_config_ok i c" "bc_config c \<noteq> None"
  shows "\<exists>md'. nr_rlc_add_drb u i c md = Inr md' \<and> rlc_kept {u} md md'"
proof -
  obtain r where r: "bc_config c = Some r" "rlc_config_ok r" using c by (auto simp: rlc_bearer_config_ok_def)
  show ?thesis
  proof (cases r)
    case (CfgAm a)
    then obtain e where "rlc_am_of_config a = Inr e" "rlc_inv (EntAm e)"
      using am_of_config_ok [of a] r(2) by (auto simp: rlc_config_ok_def)
    with add_drb_entity_ok [OF inv i c(1)] r CfgAm show ?thesis by (simp add: nr_rlc_add_drb_def rlc_deref_def add_drb_am_def)
  next
    case (CfgUm a)
    then obtain e where "rlc_um_of_config a = Inr e" "rlc_inv (EntUm e)"
      using um_of_config_ok [of a] r(2) by (auto simp: rlc_config_ok_def)
    with add_drb_entity_ok [OF inv i c(1)] r CfgUm show ?thesis by (simp add: nr_rlc_add_drb_def rlc_deref_def add_drb_um_def)
  qed (use r in \<open>simp add: rlc_config_ok_def\<close>)
qed

lemma activate_srb0_ok:
  assumes inv: "rlc_module_inv md"
  shows "\<exists>md' ok. nr_rlc_activate_srb0 u md = Inr (md', ok) \<and> rlc_kept {u} md md'"
proof -
  obtain md1 ue where of: "rlc_ue_of u md = (md1, ue)" by fastforce
  note u = rlc_ue_of_ok [OF inv of]
  obtain e where e: "new_nr_rlc_entity_tm 10000 = Inr e" using tm_new_Inr by blast
  then have "tm_inv e" using tm_inv_new [of 10000 e] by simp
  let ?ue1 = "ue\<lparr>ru_srb0 := Some (u, EntTm e)\<rparr>"
  have "rlc_ue_inv ?ue1" "ru_ue_id ?ue1 = u" using u(2,3) \<open>tm_inv e\<close> by (auto simp: rlc_ue_inv_def)
  from rlc_save_kept(1) [OF inv of this] show ?thesis
    using of u(1) e by (auto simp: nr_rlc_activate_srb0_def nr_rlc_ue_add_srb_rlc_entity_def)
qed

end
