(* ===== verification/RlcApiSafe.thy ===== *)
theory RlcApiSafe
  imports RlcApiRuns
begin

text \<open>
  The operations of the RLC module that change and remove bearers, and the properties of its runs: no
  admissible run ends the process, the contexts of other UEs are left alone, and SDUs are delivered for
  the bearer of the logical channel they came on.
\<close>

section \<open>Changing and removing bearers\<close>

lemma reestablish_slot_ok:
  assumes inv: "rlc_module_inv md" and of: "rlc_ue_of u md = (md1, ue)" and f1: "rlc_f1_knows env md u"
    and s: "rlc_slot_ok s" "rlc_slot_entity s ue = Some e"
  shows "\<exists>e' outs. rlc_reestablish_slot env t ue s md1 = Inr (rlc_save_ue (rlc_slot_set s (Some e') ue) md1, outs) \<and>
    rlc_inv e' \<and> rlc_kept {u} md (rlc_save_ue (rlc_slot_set s (Some e') ue) md1)"
proof -
  have adm: "rlc_adm Reestablishment e" for e by (cases e) (simp_all add: tm_adm_def)
  have "rlc_entity_adm t [Reestablishment] e"
    unfolding rlc_entity_adm_def by (rule rlc_adm_runI) (auto simp: adm)
  then obtain e' where e': "rlc_run_op t [Reestablishment] e = Inr e'" "rlc_inv e'"
    using rlc_run_op_ok [OF rlc_slot_entity_inv [OF rlc_ue_of_ok(2) [OF inv of] s]] by blast
  with rlc_finish_op_ok [OF inv of f1 s(1) e'(2)] s(2) show ?thesis by (auto simp: rlc_reestablish_slot_def)
qed

lemma reestablish_ok:
  assumes inv: "rlc_module_inv md" and f1: "rlc_f1_knows env md u" and ch: "0 \<le> ch" "ch \<le> 32"
  shows "rlc_step_ok {u} md (nr_rlc_reestablish_entity env t u ch md)"
proof -
  obtain md1 ue where of: "rlc_ue_of u md = (md1, ue)" by fastforce
  note u = rlc_ue_of_ok [OF inv of]
  show ?thesis
  proof (rule get_rlc_entity_ok [OF u(2) ch])
    assume "get_rlc_entity_from_lcid ue ch = Inr None"
    then show ?thesis using of u(1) by (simp add: nr_rlc_reestablish_entity_def rlc_step_okI)
  next
    fix s e assume "get_rlc_entity_from_lcid ue ch = Inr (Some (s, e))" "rlc_slot_ok s" "rlc_slot_entity s ue = Some e"
    with reestablish_slot_ok [OF inv of f1, of s e t] of show ?thesis
      by (auto simp: nr_rlc_reestablish_entity_def rlc_step_ok_def)
  qed
qed

lemma test_trigger_ok:
  assumes inv: "rlc_module_inv md" and adm: "rlc_api_adm env t (ApiTestTrigger u) md"
  shows "rlc_step_ok {u} md (nr_rlc_test_trigger_reestablishment env t u md)"
proof -
  obtain md1 ue where of: "rlc_ue_of u md = (md1, ue)" by fastforce
  note u = rlc_ue_of_ok [OF inv of]
  have f1: "rlc_f1_knows env md u" using adm by simp
  obtain e d where s: "rlc_slot_entity (SlotSrb 1) ue = Some e" "rlc_slot_entity (SlotDrb 1) ue = Some d"
    using adm of by (auto simp: rlc_the_ue_def)
  have ok: "rlc_slot_ok (SlotSrb 1)" "rlc_slot_ok (SlotDrb 1)" by (simp_all add: rlc_slot_ok_def)
  obtain e' outs where r: "rlc_reestablish_slot env t ue (SlotSrb 1) md1 =
      Inr (rlc_save_ue (rlc_slot_set (SlotSrb 1) (Some e') ue) md1, outs)" "rlc_inv e'"
    "rlc_kept {u} md (rlc_save_ue (rlc_slot_set (SlotSrb 1) (Some e') ue) md1)"
    using reestablish_slot_ok [OF inv of f1 ok(1) s(1)] by blast
  define ue2 where "ue2 = rlc_slot_set (SlotSrb 1) (Some e') ue"
  define md2 where "md2 = rlc_save_ue ue2 md1"
  have ue2: "rlc_ue_inv ue2" "ru_ue_id ue2 = u"
    using rlc_slot_set_inv [OF u(2) ok(1), of "Some e'"] r(2) u(3) by (simp_all add: ue2_def)
  have md2: "rlc_module_inv md2" "rlc_contexts (rl_ues md2) u = Some ue2"
    using r(3) rlc_save_kept(2) [OF inv of ue2] by (simp_all add: md2_def ue2_def rlc_kept_def)
  obtain md3 ue3 where of3: "rlc_ue_of u md2 = (md3, ue3)" by fastforce
  have "ue3 = ue2" using rlc_ue_of_ok(5) [OF md2(1) of3] md2(2) by simp
  then have "rlc_slot_entity (SlotDrb 1) ue3 = Some d" using s(2) by (simp add: ue2_def)
  moreover have "rlc_f1_knows env md2 u" using f1 r(3) by (simp add: md2_def ue2_def rlc_kept_def rlc_f1_knows_def)
  ultimately obtain d' outs' where r3: "rlc_reestablish_slot env t ue3 (SlotDrb 1) md3 =
      Inr (rlc_save_ue (rlc_slot_set (SlotDrb 1) (Some d') ue3) md3, outs')"
    "rlc_kept {u} md2 (rlc_save_ue (rlc_slot_set (SlotDrb 1) (Some d') ue3) md3)"
    using reestablish_slot_ok [OF md2(1) of3 _ ok(2)] by blast
  have "rlc_kept {u} md (rlc_save_ue (rlc_slot_set (SlotDrb 1) (Some d') ue3) md3)"
    using rlc_kept_trans [OF _ r3(2), of "{u}" md "{u}"] r(3) by (simp add: md2_def ue2_def)
  then show ?thesis
    using of r(1) of3 r3(1) unfolding nr_rlc_test_trigger_reestablishment_def
    by (simp add: md2_def ue2_def rlc_step_okI)
qed

lemma am_reconfigure_inv:
  assumes "am_inv L e" "\<And>n. len = Some n \<Longrightarrow> n = am_sn_field_length e"
  shows "am_inv L (nr_rlc_entity_am_reconfigure a b c d f g len e)"
proof -
  have "same_tx e (nr_rlc_entity_am_reconfigure a b c d f g len e)" "same_rx e (nr_rlc_entity_am_reconfigure a b c d f g len e)"
    using assms(2) by (cases len; simp add: nr_rlc_entity_am_reconfigure_def same_tx_def same_rx_def Let_def)+
  then show ?thesis using assms(1) am_tx_inv_same am_rx_inv_same by (auto simp: am_inv_def)
qed

lemma um_reconfigure_inv:
  assumes "um_inv L e" "\<And>n. len = Some n \<Longrightarrow> n = um_sn_field_length e"
  shows "um_inv L (nr_rlc_entity_um_reconfigure a len e)"
proof -
  have "um_same_tx e (nr_rlc_entity_um_reconfigure a len e)" "um_same_rx e (nr_rlc_entity_um_reconfigure a len e)"
    using assms(2) by (cases len; simp add: nr_rlc_entity_um_reconfigure_def um_same_tx_def um_same_rx_def Let_def)+
  moreover have "um_tx_maxsize (nr_rlc_entity_um_reconfigure a len e) = um_tx_maxsize e"
    by (cases len) (simp_all add: nr_rlc_entity_um_reconfigure_def)
  ultimately show ?thesis using assms(1) um_tx_inv_same um_rx_inv_same by (auto simp: um_inv_def)
qed

lemma new_sn_length_ok:
  assumes "dl \<in> {Some 0, Some 1}" "ul = dl"
  shows "\<exists>n. rlc_new_sn_length decode_sn_field_length_am dl ul = Inr (Some n)"
    "\<exists>n. rlc_new_sn_length decode_sn_field_length_um dl ul = Inr (Some n)"
  using assms by (auto simp: rlc_new_sn_length_def decode_sn_field_length_am_def decode_sn_field_length_um_def)

lemma entity_reconfigured_ok:
  assumes e: "rlc_inv e" and c: "rlc_reconfig_ok c e"
  shows "\<exists>e'. rlc_entity_reconfigured c e = Inr e' \<and> rlc_inv e'"
proof (cases e)
  case (EntTm x)
  then show ?thesis using c by (auto simp: rlc_reconfig_ok_def split: option.splits rlc_config.splits)
next
  case (EntUm x)
  then obtain L um where x: "um_inv L x" and um: "c = Some (CfgUm um)" "rlc_um_config_ok um"
    "\<forall>n. rlc_new_sn_length decode_sn_field_length_um (uc_dl_sn_length um) (uc_ul_sn_length um) = Inr (Some n) \<longrightarrow>
       n = um_sn_field_length x"
    using e c by (auto simp: rlc_reconfig_ok_def split: option.splits rlc_config.splits)
  obtain n where n: "rlc_new_sn_length decode_sn_field_length_um (uc_dl_sn_length um) (uc_ul_sn_length um) = Inr (Some n)"
    using new_sn_length_ok(2) [of "uc_dl_sn_length um"] um(2) by (auto simp: rlc_um_config_ok_def)
  have "um_inv L (nr_rlc_entity_um_reconfigure (t_reassembly_tab ! nat (uc_t_reassembly um)) (Some n) x)"
    using um_reconfigure_inv [OF x, of "Some n"] um(3) n by simp
  moreover have "rlc_entity_reconfigured c e =
      Inr (EntUm (nr_rlc_entity_um_reconfigure (t_reassembly_tab ! nat (uc_t_reassembly um)) (Some n) x))"
    using EntUm um(1,2) n by (simp add: rlc_entity_reconfigured_def rlc_um_reconfigured_def rlc_um_config_ok_def decode_t_reassembly_def)
  ultimately show ?thesis by auto
next
  case (EntAm x)
  then obtain L where x: "am_inv L x" using e by auto
  show ?thesis
  proof (cases c)
    case None
    then have "am_sn_field_length x = 12" using c EntAm by (simp add: rlc_reconfig_ok_def)
    then have "am_inv L (nr_rlc_entity_am_reconfigure 45 35 0 (- 1) (- 1) 8 (Some 12) x)"
      using am_reconfigure_inv [OF x, of "Some 12"] by simp
    then show ?thesis using None EntAm by (auto simp: rlc_entity_reconfigured_def)
  next
    case (Some r)
    then obtain am where am: "r = CfgAm am" "rlc_am_config_ok am"
      "\<forall>n. rlc_new_sn_length decode_sn_field_length_am (ac_dl_sn_length am) (ac_ul_sn_length am) = Inr (Some n) \<longrightarrow>
         n = am_sn_field_length x"
      using c EntAm by (auto simp: rlc_reconfig_ok_def split: rlc_config.splits)
    obtain n where n: "rlc_new_sn_length decode_sn_field_length_am (ac_dl_sn_length am) (ac_ul_sn_length am) = Inr (Some n)"
      using new_sn_length_ok(1) [of "ac_dl_sn_length am"] am(2) by (auto simp: rlc_am_config_ok_def)
    have "\<exists>a b d f g h. rlc_entity_reconfigured c e = Inr (EntAm (nr_rlc_entity_am_reconfigure a b d f g h (Some n) x))"
      using EntAm Some am(1,2) n
      by (simp add: rlc_entity_reconfigured_def rlc_am_reconfigured_def rlc_am_config_ok_def decode_t_reassembly_def
          decode_t_status_prohibit_def decode_t_poll_retransmit_def decode_poll_pdu_def decode_poll_byte_def
          decode_max_retx_threshold_def) blast
    then obtain a b d f g h where r: "rlc_entity_reconfigured c e = Inr (EntAm (nr_rlc_entity_am_reconfigure a b d f g h (Some n) x))"
      by blast
    have "am_inv L (nr_rlc_entity_am_reconfigure a b d f g h (Some n) x)"
      using am_reconfigure_inv [OF x, of "Some n"] am(3) n by simp
    with r show ?thesis by auto
  qed
qed

lemma reconfigure_ok:
  assumes inv: "rlc_module_inv md" and adm: "rlc_api_adm env t (ApiReconfigure u ch c) md"
  shows "\<exists>md'. nr_rlc_reconfigure_entity u ch c md = Inr md' \<and> rlc_kept {u} md md'"
proof -
  obtain md1 ue where of: "rlc_ue_of u md = (md1, ue)" by fastforce
  note u = rlc_ue_of_ok [OF inv of]
  obtain s e where g: "get_rlc_entity_from_lcid ue ch = Inr (Some (s, e))" "rlc_reconfig_ok c e"
    using adm of by (auto simp: rlc_the_ue_def)
  have "0 \<le> ch" "ch \<le> 32"
    using g(1) by (auto simp: get_rlc_entity_from_lcid_def res_map_eq_Inr get_rlc_slot_def split: if_splits)
  from get_rlc_entity_ok [OF u(2) this] g(1) have s: "rlc_slot_ok s" "rlc_inv e" by auto
  obtain e' where e': "rlc_entity_reconfigured c e = Inr e'" "rlc_inv e'" using entity_reconfigured_ok [OF s(2) g(2)] by blast
  have "rlc_kept {u} md (rlc_save_ue (rlc_slot_set s (Some e') ue) md1)"
    by (rule rlc_save_kept(1) [OF inv of]) (use rlc_slot_set_inv [OF u(2) s(1), of "Some e'"] e'(2) u(3) in auto)
  then show ?thesis using of g(1) e'(1) by (simp add: nr_rlc_reconfigure_entity_def)
qed

lemma release_ok:
  assumes inv: "rlc_module_inv md" and ch: "0 \<le> ch" "ch \<le> 32"
  shows "\<exists>md'. nr_rlc_release_entity u ch md = Inr md' \<and> rlc_kept {u} md md'"
proof -
  obtain md1 ue where of: "rlc_ue_of u md = (md1, ue)" by fastforce
  note u = rlc_ue_of_ok [OF inv of]
  show ?thesis
  proof (cases "ch = 0")
    case True
    have "rlc_ue_inv (ue\<lparr>ru_srb0 := None\<rparr>)" "ru_ue_id (ue\<lparr>ru_srb0 := None\<rparr>) = u" using u(2,3) by (simp_all add: rlc_ue_inv_def)
    from rlc_save_kept(1) [OF inv of this] show ?thesis using of True by (simp add: nr_rlc_release_entity_def)
  next
    case False
    then have "nat (ch - 1) < length (ru_lcid2rb ue)" using ch rlc_ue_invD(3) [OF u(2)] by simp
    then have rb: "rlc_rb_ok (ru_lcid2rb ue ! nat (ch - 1))" using rlc_ue_invD(8) [OF u(2)] nth_mem by blast
    obtain sl where sl: "get_rlc_slot ue ch = Inr sl" "\<And>s. sl = Some s \<Longrightarrow> rlc_slot_ok s"
      using that False ch rb
      by (cases "ru_lcid2rb ue ! nat (ch - 1)") (auto simp: get_rlc_slot_def rlc_rb_ok_def rlc_slot_ok_def)
    let ?ue' = "case sl of None \<Rightarrow> ue | Some s \<Rightarrow> rlc_slot_set s None ue"
    have "rlc_ue_inv ?ue'" "ru_ue_id ?ue' = u"
      using u(2,3) rlc_slot_set_inv [OF u(2), of _ None] sl(2) by (auto split: option.split)
    from rlc_save_kept(1) [OF inv of this] show ?thesis
      using of False ch sl(1) by (simp add: nr_rlc_release_entity_def release_rlc_entity_from_lcid_def)
  qed
qed

text \<open>Contexts are removed.\<close>

lemma remove_ue_kept: "rlc_module_inv md \<Longrightarrow> rlc_kept {u} md (nr_rlc_remove_ue u md)"
  using rlc_mgr.delete_ok [of "rl_ues md" u] by (auto simp: rlc_module_inv_def rlc_kept_def nr_rlc_remove_ue_def split: if_splits)

lemma config_req_ok:
  assumes inv: "rlc_module_inv md" and rb: "rb \<in> {1..if srb then 2 else 32}"
  shows "\<exists>md'. rrc_rlc_config_req u 0 srb False True rb md = Inr md' \<and> rlc_kept {sint (ucast u :: u32)} md md'"
proof -
  let ?u = "sint (ucast u :: u32)" and ?s = "if srb then SlotSrb rb else SlotDrb rb"
  obtain md1 ue where of: "rlc_ue_of ?u md = (md1, ue)" by fastforce
  note ue = rlc_ue_of_ok [OF inv of]
  have "rlc_slot_ok ?s" using rb by (auto simp: rlc_slot_ok_def)
  from rlc_slot_set_inv [OF ue(2) this, of None] ue(3)
  have "rlc_ue_inv (rlc_slot_set ?s None ue)" "ru_ue_id (rlc_slot_set ?s None ue) = ?u" by simp_all
  from rlc_save_kept(1) [OF inv of this] have k: "rlc_kept {?u} md (rlc_save_ue (rlc_slot_set ?s None ue) md1)" .
  then have "rlc_module_inv (rlc_save_ue (rlc_slot_set ?s None ue) md1)" unfolding rlc_kept_def by blast
  from rlc_kept_trans [OF k remove_ue_kept [OF this, of ?u]]
  have r: "rlc_kept {?u} md (nr_rlc_remove_ue ?u (rlc_save_ue (rlc_slot_set ?s None ue) md1))" by blast
  have "rrc_rlc_config_req u 0 srb False True rb md = Inr (let ue1 = rlc_slot_set ?s None ue; md2 = rlc_save_ue ue1 md1
      in if take 2 (ru_srb ue1) = [None, None] \<and> (\<forall>rb \<in> set (ru_drb ue1). rb = None) then nr_rlc_remove_ue ?u md2 else md2)"
    using of rb unfolding rrc_rlc_config_req_def Let_def nr_rlc_remove_ue_def by (cases srb) simp_all
  with k r show ?thesis unfolding Let_def by simp
qed

text \<open>A context gets another identifier, that no other context has.\<close>

lemma rlc_rename_content:
  assumes "distinct (map ru_ue_id l)" "from_id \<in> ru_ue_id ` set l" "ru_ue_id ue' = to_id"
    "to_id = from_id \<or> to_id \<notin> ru_ue_id ` set l"
  shows "distinct (map ru_ue_id (rlc_rename from_id ue' l))"
    "content_of ru_ue_id (rlc_rename from_id ue' l) = (content_of ru_ue_id l)(from_id := None, to_id \<mapsto> ue')"
proof -
  have ids: "ru_ue_id ` set (rlc_rename from_id ue' l) \<subseteq> insert to_id (ru_ue_id ` set l)" for l
    using assms(3) by (induction l) auto
  have "distinct (map ru_ue_id (rlc_rename from_id ue' l)) \<and>
      content_of ru_ue_id (rlc_rename from_id ue' l) = (content_of ru_ue_id l)(from_id := None, to_id \<mapsto> ue')"
    using assms(1,2,4)
  proof (induction l)
    case (Cons x l)
    show ?case
    proof (cases "ru_ue_id x = from_id")
      case True
      then have "from_id \<notin> ru_ue_id ` set l" using Cons.prems(1) by auto
      then show ?thesis using Cons.prems True assms(3)
        by (auto simp: content_of_Cons fun_eq_iff content_of_None_iff)
    next
      case False
      then have "distinct (map ru_ue_id (rlc_rename from_id ue' l))"
        "content_of ru_ue_id (rlc_rename from_id ue' l) = (content_of ru_ue_id l)(from_id := None, to_id \<mapsto> ue')"
        using Cons by auto
      moreover have "ru_ue_id x \<notin> ru_ue_id ` set (rlc_rename from_id ue' l)"
        using ids [of l] Cons.prems False by auto
      ultimately show ?thesis using False Cons.prems by (auto simp: content_of_Cons fun_eq_iff)
    qed
  qed simp
  then show "distinct (map ru_ue_id (rlc_rename from_id ue' l))"
    "content_of ru_ue_id (rlc_rename from_id ue' l) = (content_of ru_ue_id l)(from_id := None, to_id \<mapsto> ue')" by blast+
qed

lemma rename_kept:
  assumes inv: "rlc_module_inv md" and of: "rlc_ue_of u md = (md1, ue)" and v: "v = u \<or> rlc_contexts (rl_ues md) v = None"
    and ue': "rlc_ue_inv ue'" "ru_ue_id ue' = v"
  shows "rlc_kept {u, v} md (rl_ues_update (rm_ue_list_update (rlc_rename u ue')) md1)"
proof -
  note f = rlc_ue_of_ok [OF inv of]
  have ok: "rlc_mgr_ok (rl_ues md1)" using f(1) by (simp add: rlc_kept_def rlc_module_inv_def)
  have "k \<in> ru_ue_id ` set (rm_ue_list (rl_ues md1)) \<longleftrightarrow> rlc_contexts (rl_ues md1) k \<noteq> None" for k
    using content_of_None_iff [of ru_ue_id "rm_ue_list (rl_ues md1)" k] by (auto simp: rlc_contexts_def simp del: image_iff)
  then have "u \<in> ru_ue_id ` set (rm_ue_list (rl_ues md1))" "v = u \<or> v \<notin> ru_ue_id ` set (rm_ue_list (rl_ues md1))"
    using f(6) v by auto
  from rlc_rename_content [OF _ this(1) ue'(2) this(2)] ok
  have "rlc_mgr_ok (rm_ue_list_update (rlc_rename u ue') (rl_ues md1))"
    "rlc_contexts (rm_ue_list_update (rlc_rename u ue') (rl_ues md1)) = (rlc_contexts (rl_ues md1))(u := None, v \<mapsto> ue')"
    by (simp_all add: rlc_mgr_ok_def rlc_contexts_def)
  then show ?thesis using f(1) ue'(1) by (auto simp: rlc_kept_def rlc_module_inv_def split: if_splits)
qed

lemma update_id_ok:
  assumes inv: "rlc_module_inv md" and adm: "rlc_api_adm env t (ApiUpdateId u v) md"
  shows "\<exists>md' ok outs. nr_rlc_update_id env t u v md = Inr (md', ok, outs) \<and> rlc_kept {u, v} md md'"
proof -
  obtain md1 ue where of: "rlc_ue_of u md = (md1, ue)" by fastforce
  note f = rlc_ue_of_ok [OF inv of]
  have v: "rlc_f1_knows env md v" "v = u \<or> rlc_contexts (rl_ues md) v = None" using adm by simp_all
  let ?ue' = "ue\<lparr>ru_ue_id := v\<rparr>"
  have ue': "rlc_ue_inv ?ue'" using f(2) by (simp add: rlc_ue_inv_def)
  show ?thesis
  proof (cases "ru_srb ue ! 0")
    case None
    then show ?thesis using of rename_kept [OF inv of v(2) ue'] by (auto simp: nr_rlc_update_id_def)
  next
    case (Some e)
    have s: "rlc_slot_ok (SlotSrb 1)" by (simp add: rlc_slot_ok_def)
    have "rlc_slot_entity (SlotSrb 1) ue = Some e" using Some by simp
    then have e: "rlc_inv e" using rlc_slot_entity_inv [OF f(2) s] by blast
    have adm1: "rlc_adm Reestablishment e" for e by (cases e) (simp_all add: tm_adm_def)
    have "rlc_entity_adm t [Reestablishment] e" unfolding rlc_entity_adm_def by (rule rlc_adm_runI) (auto simp: adm1)
    then obtain e' where e': "rlc_run_op t [Reestablishment] e = Inr e'" "rlc_inv e'" using rlc_run_op_ok [OF e] by blast
    have "rlc_f1_knows env md1 (ru_ue_id ?ue')" using v(1) f(1) by (simp add: rlc_f1_knows_def rlc_kept_def)
    from rlc_callbacks_ok [OF this s] obtain outs where
      "rlc_callbacks env (rm_enb_flag (rl_ues md1)) ?ue' (SlotSrb 1) (events (rlc_common e')) = Inr outs" by blast
    moreover have "rlc_kept {u, v} md (rl_ues_update (rm_ue_list_update (rlc_rename u (rlc_slot_set (SlotSrb 1) (Some e') ?ue'))) md1)"
      by (rule rename_kept [OF inv of v(2)]) (use rlc_slot_set_inv [OF ue' s, of "Some e'"] e'(2) in auto)
    ultimately show ?thesis using of Some e'(1) by (auto simp: nr_rlc_update_id_def)
  qed
qed

text \<open>Statistics.\<close>

lemma set_rlf_kept: "rlc_module_inv md \<Longrightarrow> rlc_kept {u} md (nr_rlc_set_rlf_handler u h md)"
proof -
  assume inv: "rlc_module_inv md"
  obtain md1 ue where of: "rlc_ue_of u md = (md1, ue)" by fastforce
  note f = rlc_ue_of_ok [OF inv of]
  have "rlc_ue_inv (ue\<lparr>ru_rlf_handler := h\<rparr>)" "ru_ue_id (ue\<lparr>ru_rlf_handler := h\<rparr>) = u" using f(2,3) by (simp_all add: rlc_ue_inv_def)
  from rlc_save_kept(1) [OF inv of this] show ?thesis using of by (simp add: nr_rlc_set_rlf_handler_def)
qed

lemma save_slot_kept:
  assumes inv: "rlc_module_inv md" and of: "rlc_ue_of u md = (md1, ue)"
    and s: "rlc_slot_ok s" and e: "rlc_inv e"
  shows "rlc_kept {u} md (rlc_save_ue (rlc_slot_set s (Some e) ue) md1)"
  by (rule rlc_save_kept(1) [OF inv of]) (use rlc_slot_set_inv [OF rlc_ue_of_ok(2) [OF inv of] s] e rlc_ue_of_ok(3) [OF inv of] in auto)

lemma avg_kept:
  assumes inv: "rlc_module_inv md"
  shows "rlc_kept {u} md (nr_rlc_activate_avg_time_to_tx u ch on md)"
proof -
  obtain md1 ue where of: "rlc_ue_of u md = (md1, ue)" by fastforce
  note f = rlc_ue_of_ok [OF inv of]
  define slot where "slot = (if 1 \<le> ch \<and> ch \<le> 3 then Some (SlotSrb ch)
    else if 4 \<le> ch \<and> ch \<le> 8 then Some (SlotDrb (ch - 3)) else None)"
  define g :: "nr_rlc_entity \<Rightarrow> nr_rlc_entity" where "g = (\<lambda>c. c\<lparr>avg_time_is_on := on, txsdu_avg_time_to_tx := time_average_reset (txsdu_avg_time_to_tx c)\<rparr>)"
  have eq: "nr_rlc_activate_avg_time_to_tx u ch on md = (case slot of None \<Rightarrow> md1
     | Some s \<Rightarrow> (case rlc_slot_entity s ue of None \<Rightarrow> md1
         | Some e \<Rightarrow> rlc_save_ue (rlc_slot_set s (Some (rlc_common_update g e)) ue) md1))"
    using of unfolding nr_rlc_activate_avg_time_to_tx_def slot_def g_def Let_def by simp
  have "rlc_kept {u} md (rlc_save_ue (rlc_slot_set s (Some (rlc_common_update g e)) ue) md1)"
    if s: "slot = Some s" "rlc_slot_entity s ue = Some e" for s e
  proof -
    have "s \<noteq> SlotSrb 3" using s(2) rlc_ue_invD(4) [OF f(2)] by auto
    then have ok: "rlc_slot_ok s" using s(1) by (auto simp: slot_def rlc_slot_ok_def split: if_splits)
    have "rlc_inv (rlc_common_update g e)"
      by (rule rlc_common_inv [OF rlc_slot_entity_inv [OF f(2) ok s(2)]]) (simp add: g_def)
    with save_slot_kept [OF inv of ok] show ?thesis by blast
  qed
  then show ?thesis unfolding eq using f(1) by (auto split: option.split)
qed

lemma stats_ok:
  assumes inv: "rlc_module_inv md"
  shows "\<exists>md' st. nr_rlc_get_statistics t u srb rb md = Inr (md', st) \<and> rlc_kept {u} md md'"
proof -
  obtain md1 ue where of: "rlc_ue_of u md = (md1, ue)" by fastforce
  note f = rlc_ue_of_ok [OF inv of]
  define slot where "slot = (if srb then if rb \<ge> 1 \<and> rb \<le> 2 then Some (SlotSrb rb) else None
    else if rb \<ge> 1 \<and> rb \<le> 5 then Some (SlotDrb rb) else None)"
  show ?thesis
  proof (cases "slot = None \<or> rlc_slot_entity (the slot) ue = None")
    case True
    then have "nr_rlc_get_statistics t u srb rb md = Inr (md1, None)"
      using of unfolding nr_rlc_get_statistics_def slot_def [symmetric] Let_def by (auto split: option.split)
    then show ?thesis using f(1) by blast
  next
    case False
    then obtain s e where s: "slot = Some s" "rlc_slot_entity s ue = Some e" by auto
    then have ok: "rlc_slot_ok s" by (auto simp: slot_def rlc_slot_ok_def split: if_splits)
    have e: "rlc_inv e" by (rule rlc_slot_entity_inv [OF f(2) ok s(2)])
    obtain out e' where st: "nr_rlc_entity_get_stats t e = (out, e')" by fastforce
    then have e': "rlc_inv e'"
      using e rlc_common_inv [OF e] by (auto simp: nr_rlc_entity_get_stats_def Let_def split: if_splits prod.splits)
    obtain bs where "rlc_buffer_status e' (1000 * 1000) = Inr bs" using rlc_buffer_status_ok [OF e', of "1000 * 1000"] by auto
    then have "\<exists>st. nr_rlc_get_statistics t u srb rb md = Inr (rlc_save_ue (rlc_slot_set s (Some e') ue) md1, st)"
      using of s st unfolding nr_rlc_get_statistics_def slot_def [symmetric] Let_def by simp
    with save_slot_kept [OF inv of ok e'] show ?thesis by blast
  qed
qed

section \<open>Runs\<close>

lemma rlc_step_ok_map:
  assumes "\<exists>x. r = Inr x \<and> rlc_kept K md (fst (f x))"
  shows "rlc_step_ok K md (res_map f r)"
  using assms by (auto simp: rlc_step_ok_def) (metis prod.collapse)

lemma rlc_api_step_ok:
  assumes inv: "rlc_module_inv md" and adm: "rlc_api_adm env t op md"
  shows "rlc_step_ok (rlc_about op) md (rlc_api_step env t op md)"
proof (cases op)
  case (ApiDataInd u ch b)
  then show ?thesis using data_ind_ok [OF inv] adm by simp
next
  case (ApiDataReq u ch b)
  then show ?thesis using data_req_ok [OF inv, of env u t ch b] adm by (auto intro: rlc_step_ok_map)
next
  case (ApiStatusInd u fr ch)
  then obtain md' n outs where "mac_rlc_status_ind env t u fr ch md = Inr (md', n, outs)" "rlc_kept {u} md md'"
    using bytes_in_buffer_ok [OF inv, of env u t ch] adm unfolding mac_rlc_status_ind_def by fastforce
  then show ?thesis using ApiStatusInd by (simp add: rlc_step_okI)
next
  case (ApiOccupancy u fr sf ch)
  have k: "rlc_kept K md (nr_rlc_tick fr sf md)" "rl_ues (nr_rlc_tick fr sf md) = rl_ues md" for K
    by (rule tick_kept [OF inv])+
  have ue: "rlc_the_ue u (nr_rlc_tick fr sf md) = rlc_the_ue u md"
    using k(2) by (simp add: rlc_the_ue_def rlc_ue_of_def split: prod.split)
  have inv': "rlc_module_inv (nr_rlc_tick fr sf md)" using k(1) [of "{}"] unfolding rlc_kept_def by blast
  have f1: "rlc_f1_knows env (nr_rlc_tick fr sf md) u" using k(2) adm ApiOccupancy by (simp add: rlc_f1_knows_def)
  have "rlc_lcid_takes t [SetTime (rl_time (nr_rlc_tick fr sf md))] ch (rlc_the_ue u (nr_rlc_tick fr sf md))"
    using adm ApiOccupancy ue by simp
  from bytes_in_buffer_ok [OF inv' f1 this] obtain md' n outs where
    "rlc_bytes_in_buffer env t u ch (fr mod 128 = 0) (nr_rlc_tick fr sf md) = Inr (md', n, outs)"
    "rlc_kept {u} (nr_rlc_tick fr sf md) md'" by blast
  moreover from this have "rlc_kept {u} md md'" using rlc_kept_trans [OF k(1) [of "{u}"]] by blast
  ultimately show ?thesis using ApiOccupancy by (simp add: mac_rlc_get_buffer_occupancy_ind_def rlc_step_okI)
next
  case (ApiSduReq u srb rb mui b)
  then show ?thesis using sdu_req_ok [OF inv] adm by simp
next
  case (ApiSrbSdu u ch b)
  then show ?thesis using srb_sdu_ok [OF inv] adm by simp
next
  case (ApiAddSrb u srb c)
  then show ?thesis using add_srb_ok [OF inv, of srb c u] adm by (auto intro: rlc_step_ok_map)
next
  case (ApiAddDrb u drb c)
  then show ?thesis using add_drb_ok [OF inv, of drb c u] adm by (auto intro: rlc_step_ok_map)
next
  case (ApiActivateSrb0 u)
  then show ?thesis using activate_srb0_ok [OF inv, of u] by (auto intro: rlc_step_ok_map)
next
  case (ApiReestablish u ch)
  then show ?thesis using reestablish_ok [OF inv] adm by simp
next
  case (ApiReconfigure u ch c)
  then show ?thesis using reconfigure_ok [OF inv] adm by (fastforce intro: rlc_step_ok_map)
next
  case (ApiRelease u ch)
  then show ?thesis using release_ok [OF inv, of ch u] adm by (auto intro: rlc_step_ok_map)
next
  case (ApiConfigReq u srb rb)
  then show ?thesis using config_req_ok [OF inv, of rb srb u] adm by (auto intro: rlc_step_ok_map)
next
  case (ApiRemoveUe u)
  then show ?thesis using remove_ue_kept [OF inv] by (simp add: rlc_step_okI)
next
  case (ApiUpdateId u v)
  then show ?thesis using update_id_ok [OF inv] adm by (fastforce intro: rlc_step_ok_map)
next
  case (ApiTestTrigger u)
  then show ?thesis using test_trigger_ok [OF inv] adm by simp
next
  case (ApiSetRlf u h)
  then show ?thesis using set_rlf_kept [OF inv] by (simp add: rlc_step_okI)
next
  case (ApiAvg u ch on)
  then show ?thesis using avg_kept [OF inv] by (simp add: rlc_step_okI)
next
  case (ApiStats u srb rb)
  then show ?thesis using stats_ok [OF inv, of t u srb rb] by (auto intro: rlc_step_ok_map)
next
  case (ApiTick fr sf)
  then show ?thesis using tick_kept(1) [OF inv] by (simp add: rlc_step_okI)
qed

fun rlc_api_run ::
  "rlc_api_env \<Rightarrow> (u64 \<times> rlc_api_op) list \<Rightarrow> rlc_module \<Rightarrow> (rlc_module \<times> rlc_out list) res" where
  "rlc_api_run env [] md = Inr (md, [])"
| "rlc_api_run env ((t, op) # ops) md =
     res_bind (rlc_api_step env t op md) (\<lambda>(md1, outs1).
     res_bind (rlc_api_run env ops md1) (\<lambda>(md2, outs2). Inr (md2, outs1 @ outs2)))"

fun rlc_api_adm_run :: "rlc_api_env \<Rightarrow> (u64 \<times> rlc_api_op) list \<Rightarrow> rlc_module \<Rightarrow> bool" where
  "rlc_api_adm_run env [] md \<longleftrightarrow> True"
| "rlc_api_adm_run env ((t, op) # ops) md \<longleftrightarrow> rlc_api_adm env t op md \<and>
     (case rlc_api_step env t op md of Inl f \<Rightarrow> True | Inr (md1, outs) \<Rightarrow> rlc_api_adm_run env ops md1)"

text \<open>\<open>rlc_module_init\<close>.\<close>

definition rlc_module_init :: "bool \<Rightarrow> rlc_module" where
  "rlc_module_init enb_flag =
     \<lparr>rl_ues = new_nr_rlc_ue_manager enb_flag, rl_time = 0, rl_last_frame = 0, rl_last_subframe = 0\<rparr>"

lemma rlc_module_init_inv: "rlc_module_inv (rlc_module_init enb_flag)"
  by (simp add: rlc_module_init_def rlc_module_inv_def new_nr_rlc_ue_manager_def rlc_mgr_ok_def rlc_contexts_def)

lemma rlc_api_run_ok:
  "rlc_module_inv md \<Longrightarrow> rlc_api_adm_run env ops md \<Longrightarrow>
   \<exists>md' outs. rlc_api_run env ops md = Inr (md', outs) \<and> rlc_kept (\<Union>x \<in> set ops. rlc_about (snd x)) md md'"
proof (induction ops arbitrary: md)
  case (Cons x ops)
  obtain t op where x: "x = (t, op)" by fastforce
  obtain md1 outs1 where s: "rlc_api_step env t op md = Inr (md1, outs1)" "rlc_kept (rlc_about op) md md1"
    using rlc_api_step_ok [OF Cons.prems(1), of env t op] Cons.prems(2) x by (auto simp: rlc_step_ok_def)
  then have "rlc_module_inv md1" by (simp add: rlc_kept_def)
  from Cons.IH [OF this] obtain md2 outs2 where
    r: "rlc_api_run env ops md1 = Inr (md2, outs2)" "rlc_kept (\<Union>x \<in> set ops. rlc_about (snd x)) md1 md2"
    using Cons.prems(2) x s(1) by auto
  have "rlc_kept (\<Union>x \<in> set (x # ops). rlc_about (snd x)) md md2"
    by (rule rlc_kept_trans [OF s(2) r(2)]) (use x in auto)
  then show ?case using s(1) r(1) x by auto
qed (simp add: rlc_kept_refl)

section \<open>Properties\<close>

text \<open>
  C30: the RLC module of a base station or a UE never ends the process, and separates the UEs. From
  \<open>rlc_module_init\<close>, every admissible sequence of calls by MAC, PDCP and RRC completes (\<open>rlc_api_adm\<close>:
  configurations with the values of their enumerations, bearers that exist where the code follows
  their pointer, PDUs of a peer that keeps the protocol); every entity, table of logical channels and
  identifier is well formed afterwards; and the context of a UE that no call named is as before.
\<close>

theorem rlc_module_safe:
  assumes "rlc_api_adm_run env ops1 (rlc_module_init enb_flag)"
    and "rlc_api_run env ops1 (rlc_module_init enb_flag) = Inr (md, outs)"
    and "rlc_api_adm_run env ops2 md"
  shows "rlc_module_inv md \<and> (\<exists>md' outs'. rlc_api_run env ops2 md = Inr (md', outs') \<and> rlc_module_inv md' \<and>
    (\<forall>k. (\<forall>(t, op) \<in> set ops2. k \<notin> rlc_about op) \<longrightarrow> rlc_contexts (rl_ues md') k = rlc_contexts (rl_ues md) k))"
proof -
  have "rlc_module_inv md"
    using rlc_api_run_ok [OF rlc_module_init_inv assms(1)] assms(2) by (auto simp: rlc_kept_def)
  with rlc_api_run_ok [OF this assms(3)] show ?thesis by (fastforce simp: rlc_kept_def)
qed

lemma rlc_api_adm_runI: "(\<And>t op md. (t, op) \<in> set ops \<Longrightarrow> rlc_api_adm env t op md) \<Longrightarrow> rlc_api_adm_run env ops md"
  by (induction ops arbitrary: md) (auto split: sum.split)

text \<open>A bearer with a UM entity for the logical channel 4, and a signalling bearer with the defaults.\<close>

definition rlc_test_drb :: rlc_bearer_config where
  "rlc_test_drb = \<lparr>bc_lcid = 4, bc_served = Some 1,
     bc_config = Some (CfgUm \<lparr>uc_t_reassembly = 7, uc_dl_sn_length = Some 1, uc_ul_sn_length = Some 1\<rparr>)\<rparr>"

definition rlc_test_srb :: rlc_bearer_config where
  "rlc_test_srb = \<lparr>bc_lcid = 1, bc_served = Some 1, bc_config = None\<rparr>"

definition rlc_test_env :: rlc_api_env where
  "rlc_test_env = \<lparr>re_f1 = (\<lambda>ue. Some 1), re_du = False\<rparr>"

lemma rlc_test_configs_ok: "rlc_bearer_config_ok 1 rlc_test_drb" "rlc_bearer_config_ok 1 rlc_test_srb" "bc_config rlc_test_drb \<noteq> None"
  by (simp_all add: rlc_test_drb_def rlc_test_srb_def rlc_bearer_config_ok_def rlc_config_ok_def rlc_um_config_ok_def)

theorem rlc_module_safe_witness:
  "\<exists>md outs md' outs'.
     rlc_api_run rlc_test_env [(0, ApiAddDrb 7 1 rlc_test_drb)] (rlc_module_init True) = Inr (md, outs) \<and>
     rlc_api_run rlc_test_env [(1, ApiActivateSrb0 9), (2, ApiAddSrb 9 1 rlc_test_srb), (3, ApiReestablish 9 1), (4, ApiRemoveUe 9)] md =
       Inr (md', outs') \<and> rlc_contexts (rl_ues md') 7 = rlc_contexts (rl_ues md) 7"
proof -
  let ?a = "[(0, ApiAddDrb 7 1 rlc_test_drb)]"
    and ?b = "[(1, ApiActivateSrb0 9), (2, ApiAddSrb 9 1 rlc_test_srb), (3, ApiReestablish 9 1), (4, ApiRemoveUe 9)]"
  have a: "rlc_api_adm_run rlc_test_env ?a md" for md
    by (rule rlc_api_adm_runI) (use rlc_test_configs_ok in auto)
  have b: "rlc_api_adm_run rlc_test_env ?b md" for md
    by (rule rlc_api_adm_runI) (use rlc_test_configs_ok in \<open>auto simp: rlc_f1_knows_def rlc_test_env_def\<close>)
  obtain md outs where r: "rlc_api_run rlc_test_env ?a (rlc_module_init True) = Inr (md, outs)"
    using rlc_api_run_ok [OF rlc_module_init_inv a] by blast
  from rlc_module_safe [OF a r b] r show ?thesis by fastforce
qed






lemma rlc_find_lcid_nth:
  assumes "rb \<in> set l"
  shows "lcid \<le> rlc_find_lcid rb lcid l \<and> rlc_find_lcid rb lcid l < lcid + int (length l) \<and>
    l ! nat (rlc_find_lcid rb lcid l - lcid) = rb"
  using assms
proof (induction l arbitrary: lcid)
  case (Cons x l)
  show ?case
  proof (cases "x = rb")
    case False
    then have "rb \<in> set l" using Cons.prems by simp
    moreover have "nat (n - lcid) - Suc 0 = nat (n - (lcid + 1))" for n by arith
    ultimately show ?thesis using Cons.IH [of "lcid + 1"] False by (simp add: nth_Cons')
  qed simp
qed simp

text \<open>
  C32: a bearer that is added can be used. Its entity exists afterwards, and the logical channel that
  \<open>nr_rlc_get_lcid_from_rb\<close> finds for it leads to it.
\<close>

theorem rlc_added_drb_reachable:
  assumes "rlc_module_inv md" and "1 \<le> drb" "drb \<le> 32" and "rlc_bearer_config_ok drb c" "bc_config c \<noteq> None"
  shows "\<exists>md' md'' lcid e. nr_rlc_add_drb u drb c md = Inr md' \<and> nr_rlc_get_lcid_from_rb u False drb md' = (md'', lcid) \<and>
    1 \<le> lcid \<and> lcid \<le> 32 \<and> get_rlc_entity_from_lcid (rlc_the_ue u md'') lcid = Inr (Some (SlotDrb drb, e))"
proof -
  obtain md1 ue where of: "rlc_ue_of u md = (md1, ue)" by fastforce
  note f = rlc_ue_of_ok [OF assms(1) of]
  obtain e0 where add: "nr_rlc_add_drb u drb c md = rlc_add_drb_entity u drb c e0 md" "rlc_inv e0"
  proof -
    obtain r where r: "bc_config c = Some r" "rlc_config_ok r" using assms(4,5) by (auto simp: rlc_bearer_config_ok_def)
    show ?thesis
    proof (cases r)
      case (CfgAm a)
      then obtain e where "rlc_am_of_config a = Inr e" "rlc_inv (EntAm e)"
        using am_of_config_ok [of a] r(2) by (auto simp: rlc_config_ok_def)
      then show ?thesis using r CfgAm by (intro that [of "EntAm e"]) (simp_all add: nr_rlc_add_drb_def rlc_deref_def add_drb_am_def)
    next
      case (CfgUm a)
      then obtain e where "rlc_um_of_config a = Inr e" "rlc_inv (EntUm e)"
        using um_of_config_ok [of a] r(2) by (auto simp: rlc_config_ok_def)
      then show ?thesis using r CfgUm by (intro that [of "EntUm e"]) (simp_all add: nr_rlc_add_drb_def rlc_deref_def add_drb_um_def)
    qed (use r in \<open>simp add: rlc_config_ok_def\<close>)
  qed
  have "rlc_rb_ok (RbDrb drb)" using assms(2,3) by (simp add: rlc_rb_ok_def)
  then obtain ue1 where ue1: "rlc_map_lcid c RbDrb ue = Inr ue1" "rlc_ue_inv ue1" "ru_ue_id ue1 = u" "ru_drb ue1 = ru_drb ue"
    "ru_lcid2rb ue1 = (ru_lcid2rb ue)[nat (bc_lcid c - 1) := RbDrb drb]"
    using map_lcid_ok [OF f(2), of c drb RbDrb] assms(4) f(3) by (auto simp: rlc_bearer_config_ok_def)
  have lc: "1 \<le> bc_lcid c" "bc_lcid c \<le> 32" using assms(4) by (auto simp: rlc_bearer_config_ok_def)
  define ue2 where "ue2 = (if ru_drb ue1 ! nat (drb - 1) \<noteq> None then ue1 else rlc_slot_set (SlotDrb drb) (Some e0) ue1)"
  have s: "rlc_slot_ok (SlotDrb drb)" using assms(2,3) by (simp add: rlc_slot_ok_def)
  have ue2: "rlc_ue_inv ue2" "ru_ue_id ue2 = u" "ru_lcid2rb ue2 = ru_lcid2rb ue1"
    using ue1(2,3) rlc_slot_set_inv [OF ue1(2) s, of "Some e0"] add(2) by (simp_all add: ue2_def)
  have run: "nr_rlc_add_drb u drb c md = Inr (rlc_save_ue ue2 md1)"
    unfolding add(1) rlc_add_drb_entity_def Let_def ue2_def
    using of ue1(1) assms(2,3) by (simp add: nr_rlc_ue_add_drb_rlc_entity_def)
  note k = rlc_save_kept [OF assms(1) of ue2(1,2)]
  define md2 where "md2 = rlc_save_ue ue2 md1"
  have md2: "rlc_module_inv md2" "rlc_contexts (rl_ues md2) u = Some ue2" using k by (simp_all add: md2_def rlc_kept_def)
  obtain md3 ue3 where of3: "rlc_ue_of u md2 = (md3, ue3)" by fastforce
  note f3 = rlc_ue_of_ok [OF md2(1) of3]
  have ue3: "ue3 = ue2" using f3(5) md2(2) by simp
  obtain md4 ue4 where of4: "rlc_ue_of u md3 = (md4, ue4)" by fastforce
  have "rlc_module_inv md3" using f3(1) by (simp add: rlc_kept_def)
  then have ue4: "ue4 = ue2" using rlc_ue_of_ok(5) [OF _ of4] f3(6) ue3 by simp
  have len: "length (ru_lcid2rb ue2) = 32" "length (ru_drb ue1) = 32" using ue2(1) ue1(2) by (simp_all add: rlc_ue_inv_def)
  have "nat (bc_lcid c - 1) < length (ru_lcid2rb ue)" using lc rlc_ue_invD(3) [OF f(2)] by simp
  then have "RbDrb drb \<in> set (ru_lcid2rb ue2)" unfolding ue2(3) ue1(5) by (rule set_update_memI)
  from rlc_find_lcid_nth [OF this, of 1] len have l: "1 \<le> rlc_find_lcid (RbDrb drb) 1 (ru_lcid2rb ue2)"
    "rlc_find_lcid (RbDrb drb) 1 (ru_lcid2rb ue2) \<le> 32"
    "ru_lcid2rb ue2 ! nat (rlc_find_lcid (RbDrb drb) 1 (ru_lcid2rb ue2) - 1) = RbDrb drb" by simp_all
  have "\<exists>e. ru_drb ue2 ! nat (drb - 1) = Some e" using assms(2,3) len(2) by (auto simp: ue2_def nth_list_update)
  then obtain e where e: "ru_drb ue2 ! nat (drb - 1) = Some e" by blast
  have "nr_rlc_get_lcid_from_rb u False drb md2 = (md3, rlc_find_lcid (RbDrb drb) 1 (ru_lcid2rb ue2))"
    using of3 ue3 by (simp add: nr_rlc_get_lcid_from_rb_def)
  moreover have "get_rlc_entity_from_lcid (rlc_the_ue u md3) (rlc_find_lcid (RbDrb drb) 1 (ru_lcid2rb ue2)) = Inr (Some (SlotDrb drb, e))"
    using l e of4 ue4 assms(2,3) by (simp add: get_rlc_entity_from_lcid_def get_rlc_slot_def rlc_the_ue_def)
  ultimately show ?thesis using run l(1,2) unfolding md2_def by blast
qed

theorem rlc_added_drb_reachable_witness:
  "\<exists>md' md'' lcid e. nr_rlc_add_drb 7 1 rlc_test_drb (rlc_module_init True) = Inr md' \<and>
    nr_rlc_get_lcid_from_rb 7 False 1 md' = (md'', lcid) \<and>
    get_rlc_entity_from_lcid (rlc_the_ue 7 md'') lcid = Inr (Some (SlotDrb 1, e))"
  using rlc_added_drb_reachable [OF rlc_module_init_inv _ _ rlc_test_configs_ok(1,3), of 7 True] by auto

end
