(* ===== verification/RlcApiFaults.thy ===== *)
theory RlcApiFaults
  imports RlcApiSafe
begin

text \<open>
  What calls of the RLC module outside \<open>rlc_api_adm\<close> do, and some inside. The module in these theorems has
  just been initialised, unless they say otherwise.
\<close>

text \<open>
  C40: MAC is told an indeterminate number of bytes. The log statement after \<open>if (!(frameP%128) || ...)\<close> is
  commented out, so that the assignment of 0 is the body of the \<open>if\<close>: for every UE and every channel on which there is no
  bearer, \<open>mac_rlc_status_ind\<close> and \<open>mac_rlc_get_buffer_occupancy_ind\<close> return what the stack held, except in
  the frames that are multiples of 128 (and, the first of them, on channel 0).
\<close>

theorem rlc_status_indeterminate:
  assumes "get_rlc_entity_from_lcid (rlc_the_ue u md) ch = Inr None"
  shows "(\<exists>md'. mac_rlc_status_ind env t u frame ch md = Inr (md', if frame mod 128 = 0 \<or> ch = 0 then Some 0 else None, [])) \<and>
   (\<exists>md'. mac_rlc_get_buffer_occupancy_ind env t u frame subframe False ch md =
      Inr (md', if frame mod 128 = 0 then Some 0 else None, []))"
  using assms
  by (auto simp: mac_rlc_status_ind_def mac_rlc_get_buffer_occupancy_ind_def rlc_bytes_in_buffer_def nr_rlc_tick_def
      rlc_the_ue_def rlc_ue_of_def split_beta)

theorem rlc_status_indeterminate_witness:
  "(\<exists>md'. mac_rlc_status_ind rlc_test_env 0 7 1 4 (rlc_module_init True) = Inr (md', None, [])) \<and>
   (\<exists>md'. mac_rlc_get_buffer_occupancy_ind rlc_test_env 0 7 1 1 False 4 (rlc_module_init True) = Inr (md', None, []))"
proof -
  have "get_rlc_entity_from_lcid (rlc_the_ue 7 (rlc_module_init True)) 4 = Inr None"
    by (simp add: rlc_the_ue_def rlc_module_init_def new_nr_rlc_ue_manager_def rlc_ue_of_def nr_rlc_manager_get_ue_def rlc_ue_zero_def
        get_rlc_entity_from_lcid_def get_rlc_slot_def)
  from rlc_status_indeterminate [OF this, of rlc_test_env 0 1 1] show ?thesis by simp
qed

text \<open>
  A UE can be hidden by another. \<open>nr_rlc_update_id\<close> does not check whether the new identifier is in
  use: two contexts have it then, calls for the UE that was renamed reach the other one, and
  \<open>nr_rlc_remove_ue\<close> removes the other one. An identifier that does not exist is not an error either,
  because \<open>nr_rlc_manager_get_ue\<close> creates the context.
\<close>

theorem rlc_update_id_hides_context:
  "\<exists>md' ue1 ue2. rlc_api_run env [(0, ApiSetRlf 1 True), (0, ApiSetRlf 2 False), (0, ApiUpdateId 2 1)] (rlc_module_init enb) = Inr (md', []) \<and>
     rm_ue_list (rl_ues md') = [ue1, ue2] \<and> ru_ue_id ue1 = 1 \<and> ru_ue_id ue2 = 1 \<and>
     ru_rlf_handler ue1 \<and> \<not> ru_rlf_handler ue2 \<and> rlc_the_ue 1 md' = ue1 \<and>
     rm_ue_list (rl_ues (nr_rlc_remove_ue 1 md')) = [ue2]"
  by (simp add: nr_rlc_set_rlf_handler_def nr_rlc_update_id_def rlc_module_init_def new_nr_rlc_ue_manager_def rlc_ue_of_def
      nr_rlc_manager_get_ue_def rlc_ue_zero_def rlc_save_ue_def rlc_store_ue_def store_by_def rlc_the_ue_def nr_rlc_remove_ue_def
      nr_rlc_manager_remove_ue_def)

theorem rlc_update_unknown_id:
  "\<exists>md'. nr_rlc_update_id env t 5 6 (rlc_module_init enb) = Inr (md', True, []) \<and> rlc_contexts (rl_ues md') 6 \<noteq> None"
  by (simp add: nr_rlc_update_id_def rlc_module_init_def new_nr_rlc_ue_manager_def rlc_ue_of_def
      nr_rlc_manager_get_ue_def rlc_ue_zero_def rlc_contexts_def content_of_Cons)

text \<open>
  The first acknowledged SDU of SRB 3 ends the process, and so does its radio link failure: the callbacks
  look at two SRBs only, but \<open>nr_rlc_add_srb\<close> adds the third.
\<close>

theorem rlc_srb3_exits:
  "rlc_callback env enb ue (SlotSrb 3) (SduSuccessfulDelivery i) = Inl ExitFatal"
  "rlc_callback env enb ue (SlotSrb 3) MaxRetxReached = Inl ExitFatal"
  by (simp_all add: rlc_callback_def successful_delivery_def max_retx_reached_def)

text \<open>Reconfiguring a bearer that does not exist follows a null pointer, and so does an SDU for SRB 1.\<close>

theorem rlc_missing_bearer_followed:
  "nr_rlc_reconfigure_entity 7 4 c (rlc_module_init enb) = Inl NullDeref"
  "nr_rlc_srb_recv_sdu env t 7 1 b (rlc_module_init enb) = Inl NullDeref"
  by (simp_all add: nr_rlc_reconfigure_entity_def nr_rlc_srb_recv_sdu_def rlc_module_init_def new_nr_rlc_ue_manager_def
      rlc_ue_of_def nr_rlc_manager_get_ue_def rlc_ue_zero_def get_rlc_entity_from_lcid_def get_rlc_slot_def)

end
