(* ===== verification/RingQueue.thy ===== *)
theory RingQueue
  imports Prelude "HOL-Library.Multiset"
begin

text \<open>
  The two queues of \<open>openair2/LAYER2/nr_pdcp/nr_pdcp_oai_api.c\<close> between the threads of PDCP and RLC
  (\<open>rlc_data_req_queue\<close>, \<open>pdcp_data_ind_queue\<close>): a ring of fixed size, producers that wait while it is
  full, and one thread that empties it and waits while it is empty. All of them wait on the same condition
  variable, of which \<open>pthread_cond_signal\<close> wakes one. The consumer reads the index of the first item under the
  lock, works on the item without the lock, and takes it out of the ring afterwards. The steps of the
  relation are the critical sections of the code and the work between them; other threads run between any
  two of them.
\<close>

section \<open>The ring\<close>

record 'a ring_queue =
  rq_q :: "'a list"
  rq_start :: nat
  rq_length :: nat

text \<open>A static variable: all zero. \<open>z\<close> is the item of zeros.\<close>

definition ring_init :: "nat \<Rightarrow> 'a \<Rightarrow> 'a ring_queue" where
  "ring_init N z = \<lparr>rq_q = replicate N z, rq_start = 0, rq_length = 0\<rparr>"

text \<open>The end of the two enqueue functions, when the ring is not full.\<close>

definition ring_enqueue :: "nat \<Rightarrow> 'a \<Rightarrow> 'a ring_queue \<Rightarrow> 'a ring_queue" where
  "ring_enqueue N x r =
     (let i = (rq_start r + rq_length r) mod N
      in r\<lparr>rq_length := rq_length r + 1, rq_q := (rq_q r)[i := x]\<rparr>)"

text \<open>The end of a round of the two consumer threads.\<close>

definition ring_release :: "nat \<Rightarrow> 'a ring_queue \<Rightarrow> 'a ring_queue" where
  "ring_release N r = r\<lparr>rq_length := rq_length r - 1, rq_start := (rq_start r + 1) mod N\<rparr>"

section \<open>The threads\<close>

text \<open>
  Where the consumer is: about to look at the length, in \<open>pthread_cond_wait\<close>, before or after its work on the item
  at an index.
\<close>

datatype consumer = Testing | Asleep | Picked nat | Worked nat

text \<open>
  The producers that are in a call of the enqueue function, by the item each has: \<open>rt_awake\<close> are about to look at the
  length, \<open>rt_sleepers\<close> are in \<open>pthread_cond_wait\<close>. \<open>rt_sent\<close> and \<open>rt_handled\<close>: the items so far, in the order of the
  steps.
\<close>

record 'a ring_threads =
  rt_ring :: "'a ring_queue"
  rt_consumer :: consumer
  rt_awake :: "'a multiset"
  rt_sleepers :: "'a multiset"
  rt_sent :: "'a list"
  rt_handled :: "'a list"

definition ring_start :: "nat \<Rightarrow> 'a \<Rightarrow> 'a ring_threads" where
  "ring_start N z = \<lparr>rt_ring = ring_init N z, rt_consumer = Testing, rt_awake = {#}, rt_sleepers = {#}, rt_sent = [], rt_handled = []\<rparr>"

text \<open>\<open>pthread_cond_signal\<close>: one of the threads that wait, whichever, if there is one.\<close>

inductive cond_signal :: "'a ring_threads \<Rightarrow> 'a ring_threads \<Rightarrow> bool" where
  wake_consumer: "rt_consumer s = Asleep \<Longrightarrow> cond_signal s (s\<lparr>rt_consumer := Testing\<rparr>)"
| wake_sender: "x \<in># rt_sleepers s \<Longrightarrow>
     cond_signal s (s\<lparr>rt_sleepers := rt_sleepers s - {#x#}, rt_awake := rt_awake s + {#x#}\<rparr>)"
| nobody: "rt_consumer s \<noteq> Asleep \<Longrightarrow> rt_sleepers s = {#} \<Longrightarrow> cond_signal s s"

inductive consumer_step :: "nat \<Rightarrow> 'a ring_threads \<Rightarrow> 'a ring_threads \<Rightarrow> bool" for N where
  pick: "rt_consumer s = Testing \<Longrightarrow> rq_length (rt_ring s) \<noteq> 0 \<Longrightarrow>
     consumer_step N s (s\<lparr>rt_consumer := Picked (rq_start (rt_ring s))\<rparr>)"
| sleep: "rt_consumer s = Testing \<Longrightarrow> rq_length (rt_ring s) = 0 \<Longrightarrow> consumer_step N s (s\<lparr>rt_consumer := Asleep\<rparr>)"
| work: "rt_consumer s = Picked i \<Longrightarrow>
     consumer_step N s (s\<lparr>rt_consumer := Worked i, rt_handled := rt_handled s @ [rq_q (rt_ring s) ! i]\<rparr>)"
| release: "rt_consumer s = Worked i \<Longrightarrow>
     cond_signal (s\<lparr>rt_consumer := Testing, rt_ring := ring_release N (rt_ring s)\<rparr>) s' \<Longrightarrow> consumer_step N s s'"

text \<open>
  A call of the enqueue function, of which there are never more than \<open>P\<close> at a time: it comes in, and enqueues its item
  and signals, or waits while the ring is full. POSIX allows a wait to end without a signal (\<open>spurious\<close>).
\<close>

inductive producer_step :: "nat \<Rightarrow> nat \<Rightarrow> 'a ring_threads \<Rightarrow> 'a ring_threads \<Rightarrow> bool" for N P where
  call: "size (rt_awake s) + size (rt_sleepers s) < P \<Longrightarrow> producer_step N P s (s\<lparr>rt_awake := rt_awake s + {#x#}\<rparr>)"
| enqueue: "x \<in># rt_awake s \<Longrightarrow> rq_length (rt_ring s) \<noteq> N \<Longrightarrow>
     cond_signal (s\<lparr>rt_ring := ring_enqueue N x (rt_ring s), rt_awake := rt_awake s - {#x#}, rt_sent := rt_sent s @ [x]\<rparr>) s' \<Longrightarrow>
     producer_step N P s s'"
| full: "x \<in># rt_awake s \<Longrightarrow> rq_length (rt_ring s) = N \<Longrightarrow>
     producer_step N P s (s\<lparr>rt_awake := rt_awake s - {#x#}, rt_sleepers := rt_sleepers s + {#x#}\<rparr>)"

inductive ring_step :: "nat \<Rightarrow> nat \<Rightarrow> 'a ring_threads \<Rightarrow> 'a ring_threads \<Rightarrow> bool" for N P where
  producer: "producer_step N P s s' \<Longrightarrow> ring_step N P s s'"
| consumer: "consumer_step N s s' \<Longrightarrow> ring_step N P s s'"
| spurious: "cond_signal s s' \<Longrightarrow> ring_step N P s s'"

inductive ring_reach :: "nat \<Rightarrow> nat \<Rightarrow> 'a ring_threads \<Rightarrow> 'a ring_threads \<Rightarrow> bool" for N P where
  refl: "ring_reach N P s s"
| step: "ring_reach N P s s' \<Longrightarrow> ring_step N P s' s'' \<Longrightarrow> ring_reach N P s s''"

inductive_cases cond_signalE: "cond_signal s s'"

lemma cond_signal_frame:
  "cond_signal s s' \<Longrightarrow> rt_ring s' = rt_ring s \<and> rt_sent s' = rt_sent s \<and> rt_handled s' = rt_handled s \<and>
    rt_consumer s' = (if rt_consumer s' = rt_consumer s then rt_consumer s else Testing) \<and>
    (rt_consumer s' \<noteq> rt_consumer s \<longrightarrow> rt_consumer s = Asleep) \<and>
    size (rt_awake s') + size (rt_sleepers s') = size (rt_awake s) + size (rt_sleepers s)"
  by (erule cond_signalE) (auto dest!: multi_member_split)

lemma cond_signal_total: "\<exists>s'. cond_signal s s'"
  by (cases "rt_consumer s = Asleep"; cases "rt_sleepers s = {#}") (auto intro: cond_signal.intros)

section \<open>The ring as a list\<close>

text \<open>The items in the ring, the oldest first.\<close>

definition ring_items :: "nat \<Rightarrow> 'a ring_queue \<Rightarrow> 'a list" where
  "ring_items N r = map (\<lambda>k. rq_q r ! ((rq_start r + k) mod N)) [0..<rq_length r]"

definition ring_shape :: "nat \<Rightarrow> 'a ring_queue \<Rightarrow> bool" where
  "ring_shape N r \<longleftrightarrow> length (rq_q r) = N \<and> rq_start r < N \<and> rq_length r \<le> N"

text \<open>The contract between producers and the consumer.\<close>

locale ring_size =
  fixes N :: nat
  assumes positive: "0 < N"
begin

lemma other_slot: "k < j \<Longrightarrow> j < N \<Longrightarrow> (s + k) mod N \<noteq> (s + j) mod N"
proof
  assume k: "k < j" "j < N" and eq: "(s + k) mod N = (s + j) mod N"
  from eq have "N dvd (s + j) - (s + k)" by (metis k(1) add_le_cancel_left less_imp_le mod_eq_dvd_iff_nat)
  with k show False using dvd_imp_le [of N "j - k"] by simp
qed

lemma enqueue_items:
  assumes "ring_shape N r" "rq_length r \<noteq> N"
  shows "ring_shape N (ring_enqueue N x r)" "ring_items N (ring_enqueue N x r) = ring_items N r @ [x]"
    "rq_start (ring_enqueue N x r) = rq_start r" "rq_length (ring_enqueue N x r) = Suc (rq_length r)"
    "\<And>k. k < rq_length r \<Longrightarrow> rq_q (ring_enqueue N x r) ! ((rq_start r + k) mod N) = rq_q r ! ((rq_start r + k) mod N)"
proof -
  have l: "rq_length r < N" "length (rq_q r) = N" using assms by (simp_all add: ring_shape_def)
  show old: "rq_q (ring_enqueue N x r) ! ((rq_start r + k) mod N) = rq_q r ! ((rq_start r + k) mod N)" if "k < rq_length r" for k
    using other_slot [OF that l(1), of "rq_start r"] by (simp add: ring_enqueue_def Let_def)
  show "ring_shape N (ring_enqueue N x r)" "rq_start (ring_enqueue N x r) = rq_start r"
    "rq_length (ring_enqueue N x r) = Suc (rq_length r)"
    using assms l by (simp_all add: ring_shape_def ring_enqueue_def Let_def)
  have "map (\<lambda>k. rq_q (ring_enqueue N x r) ! ((rq_start r + k) mod N)) [0..<rq_length r] = ring_items N r"
    using old by (simp add: ring_items_def)
  moreover have "rq_q (ring_enqueue N x r) ! ((rq_start r + rq_length r) mod N) = x"
    using l positive by (simp add: ring_enqueue_def Let_def)
  moreover have "ring_items N (ring_enqueue N x r) =
      map (\<lambda>k. rq_q (ring_enqueue N x r) ! ((rq_start r + k) mod N)) [0..<Suc (rq_length r)]"
    by (simp add: ring_items_def ring_enqueue_def Let_def del: upt_Suc)
  ultimately show "ring_items N (ring_enqueue N x r) = ring_items N r @ [x]" by simp
qed

lemma release_items:
  assumes "ring_shape N r" "rq_length r \<noteq> 0"
  shows "ring_shape N (ring_release N r)" "ring_items N r = rq_q r ! rq_start r # ring_items N (ring_release N r)"
proof -
  show "ring_shape N (ring_release N r)" using assms positive by (auto simp: ring_shape_def ring_release_def)
  obtain n where n: "rq_length r = Suc n" using assms(2) not0_implies_Suc by blast
  have "[0..<Suc n] = 0 # map Suc [0..<n]" by (simp add: map_Suc_upt upt_conv_Cons del: upt_Suc)
  moreover have "((rq_start r + 1) mod N + k) mod N = (rq_start r + Suc k) mod N" for k by (simp add: mod_add_left_eq)
  ultimately show "ring_items N r = rq_q r ! rq_start r # ring_items N (ring_release N r)"
    using assms(1) by (simp add: ring_items_def ring_release_def ring_shape_def n comp_def del: upt_Suc)
qed

text \<open>
  The invariant: what was sent is what was handled and then what is in the ring, except that the first
  item of the ring has been handled when the consumer has worked on it; and the index of the consumer
  is that of the first item, which stays where it is.
\<close>

definition threads_ok :: "'a ring_threads \<Rightarrow> bool" where
  "threads_ok s \<longleftrightarrow> ring_shape N (rt_ring s) \<and>
     (case rt_consumer s of
        Picked i \<Rightarrow> rt_sent s = rt_handled s @ ring_items N (rt_ring s) \<and> i = rq_start (rt_ring s) \<and> rq_length (rt_ring s) \<noteq> 0
      | Worked i \<Rightarrow> rt_sent s = rt_handled s @ tl (ring_items N (rt_ring s)) \<and> i = rq_start (rt_ring s) \<and>
          rq_length (rt_ring s) \<noteq> 0
      | _ \<Rightarrow> rt_sent s = rt_handled s @ ring_items N (rt_ring s))"

lemma start_ok: "threads_ok (ring_start N z)"
  using positive by (simp add: threads_ok_def ring_start_def ring_shape_def ring_init_def ring_items_def)

lemma items_head:
  assumes "ring_shape N r" "rq_length r \<noteq> 0"
  shows "ring_items N r = rq_q r ! rq_start r # tl (ring_items N r)"
  using release_items(2) [OF assms] by simp

lemma signal_ok: "cond_signal s s' \<Longrightarrow> threads_ok s \<Longrightarrow> threads_ok s'"
  by (erule cond_signalE; cases "rt_consumer s") (simp_all add: threads_ok_def)

lemma consumer_ok:
  assumes "consumer_step N s s'" "threads_ok s"
  shows "threads_ok s'"
  using assms(1)
proof (cases rule: consumer_step.cases)
  case (work i)
  then have sh: "ring_shape N (rt_ring s)" "rq_length (rt_ring s) \<noteq> 0" "i = rq_start (rt_ring s)"
    "rt_sent s = rt_handled s @ ring_items N (rt_ring s)" using assms(2) by (simp_all add: threads_ok_def)
  then have "rt_sent s = (rt_handled s @ [rq_q (rt_ring s) ! i]) @ tl (ring_items N (rt_ring s))"
    using items_head [OF sh(1,2)] by simp
  then show ?thesis unfolding work(1) using sh(1-3) by (simp add: threads_ok_def)
next
  case (release i)
  then have sh: "ring_shape N (rt_ring s)" "rq_length (rt_ring s) \<noteq> 0"
    "rt_sent s = rt_handled s @ tl (ring_items N (rt_ring s))" using assms(2) by (simp_all add: threads_ok_def)
  then have "threads_ok (s\<lparr>rt_consumer := Testing, rt_ring := ring_release N (rt_ring s)\<rparr>)"
    using release_items [OF sh(1,2)] by (simp add: threads_ok_def)
  then show ?thesis by (rule signal_ok [OF release(2)])
qed (use assms(2) in \<open>simp_all add: threads_ok_def\<close>)

lemma producer_ok:
  assumes "producer_step N P s s'" "threads_ok s"
  shows "threads_ok s'"
  using assms(1)
proof (cases rule: producer_step.cases)
  case (enqueue x)
  have sh: "ring_shape N (rt_ring s)" using assms(2) by (simp add: threads_ok_def)
  note e = enqueue_items [OF sh enqueue(2), where x = x]
  have "rq_length (rt_ring s) \<noteq> 0 \<Longrightarrow> ring_items N (rt_ring s) \<noteq> []" by (simp add: ring_items_def)
  then have "threads_ok (s\<lparr>rt_ring := ring_enqueue N x (rt_ring s), rt_awake := rt_awake s - {#x#}, rt_sent := rt_sent s @ [x]\<rparr>)"
    using assms(2) e by (cases "rt_consumer s") (auto simp: threads_ok_def)
  then show ?thesis by (rule signal_ok [OF enqueue(3)])
qed (use assms(2) in \<open>cases "rt_consumer s"; simp add: threads_ok_def\<close>)+

lemma step_ok: "ring_step N P s s' \<Longrightarrow> threads_ok s \<Longrightarrow> threads_ok s'"
  by (erule ring_step.cases) (auto intro: producer_ok consumer_ok signal_ok)

lemma reach_ok: "ring_reach N P s s' \<Longrightarrow> threads_ok s \<Longrightarrow> threads_ok s'"
  by (induction rule: ring_reach.induct) (auto intro: step_ok)

text \<open>
  No wake-up is lost. The producers that sleep are not more than the items in the ring: each item that is
  taken out wakes one of them. So when the ring is empty and the consumer goes to sleep, it is the only one the signal of
  the next producer can wake.
\<close>

definition wakes_ok :: "nat \<Rightarrow> 'a ring_threads \<Rightarrow> bool" where
  "wakes_ok P s \<longleftrightarrow> size (rt_awake s) + size (rt_sleepers s) \<le> P \<and> size (rt_sleepers s) \<le> rq_length (rt_ring s) \<and>
     (rt_consumer s = Asleep \<longrightarrow> rq_length (rt_ring s) = 0)"

lemma start_wakes_ok: "wakes_ok P (ring_start N z)"
  by (simp add: wakes_ok_def ring_start_def)

lemma consumer_wakes_ok:
  assumes "consumer_step N s s'" "threads_ok s" "wakes_ok P s"
  shows "wakes_ok P s'"
  using assms(1)
proof (cases rule: consumer_step.cases)
  case (release i)
  have n: "rq_length (rt_ring s) \<noteq> 0" "size (rt_sleepers s) \<le> rq_length (rt_ring s)"
    using assms(2,3) release(1) by (simp_all add: threads_ok_def wakes_ok_def)
  from release(2) show ?thesis
  proof (cases rule: cond_signal.cases)
    case (wake_sender x)
    then have "size (rt_sleepers s) = Suc (size (rt_sleepers s'))" by (auto dest!: multi_member_split)
    then show ?thesis using n assms(3) wake_sender(1) by (simp add: wakes_ok_def ring_release_def)
  qed (use assms(3) in \<open>simp_all add: wakes_ok_def\<close>)
qed (use assms(3) in \<open>auto simp: wakes_ok_def\<close>)

lemma producer_wakes_ok:
  assumes "producer_step N P s s'" "threads_ok s" "wakes_ok P s" "P \<le> N"
  shows "wakes_ok P s'"
  using assms(1)
proof (cases rule: producer_step.cases)
  case (enqueue x)
  have sh: "ring_shape N (rt_ring s)" using assms(2) by (simp add: threads_ok_def)
  have l: "rq_length (ring_enqueue N x (rt_ring s)) = Suc (rq_length (rt_ring s))" by (rule enqueue_items(4) [OF sh enqueue(2)])
  have aw: "size (rt_awake s) = Suc (size (rt_awake s - {#x#}))" using enqueue(1) by (auto dest!: multi_member_split)
  from enqueue(3) show ?thesis
  proof (cases rule: cond_signal.cases)
    case (wake_sender y)
    then have "size (rt_sleepers s) = Suc (size (rt_sleepers s'))" by (auto dest!: multi_member_split)
    moreover from this assms(3) have "rt_consumer s \<noteq> Asleep" by (auto simp: wakes_ok_def)
    ultimately show ?thesis using assms(3) wake_sender(1) l aw by (simp add: wakes_ok_def)
  qed (use assms(3) l aw in \<open>auto simp: wakes_ok_def\<close>)
next
  case (full x)
  have "size (rt_awake s) = Suc (size (rt_awake s - {#x#}))" using full(2) by (auto dest!: multi_member_split)
  moreover have "rt_consumer s \<noteq> Asleep" using assms(3) full(3) positive by (auto simp: wakes_ok_def)
  ultimately show ?thesis using assms(3,4) full by (simp add: wakes_ok_def)
qed (use assms(3) in \<open>auto simp: wakes_ok_def\<close>)

lemma spurious_wakes_ok: "cond_signal s s' \<Longrightarrow> wakes_ok P s \<Longrightarrow> wakes_ok P s'"
  by (erule cond_signalE) (auto simp: wakes_ok_def dest!: multi_member_split)

lemma reach_wakes_ok:
  "ring_reach N P s s' \<Longrightarrow> P \<le> N \<Longrightarrow> threads_ok s \<Longrightarrow> wakes_ok P s \<Longrightarrow> wakes_ok P s'"
proof (induction rule: ring_reach.induct)
  case (step s1 s2 s3)
  have "threads_ok s2" by (rule reach_ok [OF step.hyps(1) step.prems(2)])
  with step.IH [OF step.prems] step.hyps(2) step.prems(1) show ?case
    by (auto elim!: ring_step.cases intro: consumer_wakes_ok producer_wakes_ok spurious_wakes_ok)
qed

text \<open>How far the consumer is from going to sleep, when nobody sends.\<close>

definition todo :: "'a ring_threads \<Rightarrow> nat" where
  "todo s = (case rt_consumer s of Testing \<Rightarrow> 3 * rq_length (rt_ring s) + 1 | Asleep \<Rightarrow> 0
     | Picked i \<Rightarrow> 3 * rq_length (rt_ring s) | Worked i \<Rightarrow> 3 * rq_length (rt_ring s) - 1)"

lemma consumer_todo: "consumer_step N s s' \<Longrightarrow> threads_ok s \<Longrightarrow> todo s' < todo s"
  by (erule consumer_step.cases; (erule cond_signalE)?) (auto simp: todo_def threads_ok_def ring_release_def)

lemma consumer_enabled:
  assumes "rt_consumer s \<noteq> Asleep"
  shows "\<exists>s'. consumer_step N s s'"
proof (cases "rt_consumer s")
  case Testing
  then show ?thesis by (cases "rq_length (rt_ring s) = 0") (auto intro: consumer_step.pick consumer_step.sleep)
next
  case (Picked i)
  then show ?thesis by (auto intro: consumer_step.work)
next
  case (Worked i)
  obtain s' where "cond_signal (s\<lparr>rt_consumer := Testing, rt_ring := ring_release N (rt_ring s)\<rparr>) s'"
    using cond_signal_total by blast
  with consumer_step.release [OF Worked] show ?thesis by blast
qed (use assms in simp)

lemma consumer_sent: "consumer_step N s s' \<Longrightarrow> rt_sent s' = rt_sent s"
  by (erule consumer_step.cases) (auto dest: cond_signal_frame)

lemma consumer_runs:
  "(consumer_step N ^^ m) s t \<Longrightarrow> threads_ok s \<Longrightarrow> wakes_ok P s \<Longrightarrow>
    m \<le> todo s \<and> threads_ok t \<and> wakes_ok P t \<and> rt_sent t = rt_sent s"
proof (induction m arbitrary: s)
  case (Suc m)
  then obtain s1 where s1: "consumer_step N s s1" "(consumer_step N ^^ m) s1 t" using relpowp_Suc_D2 [of m "consumer_step N" s t] by blast
  from Suc.IH [OF s1(2) consumer_ok [OF s1(1) Suc.prems(2)] consumer_wakes_ok [OF s1(1) Suc.prems(2,3)]]
  show ?case using consumer_todo [OF s1(1) Suc.prems(2)] consumer_sent [OF s1(1)] by simp
qed simp

lemma asleep_done:
  "threads_ok s \<Longrightarrow> wakes_ok P s \<Longrightarrow> rt_consumer s = Asleep \<Longrightarrow> rt_handled s = rt_sent s \<and> rt_sleepers s = {#}"
  by (auto simp: threads_ok_def wakes_ok_def ring_items_def)

end

section \<open>The two queues\<close>

definition RLC_DATA_REQ_QUEUE_SIZE :: nat where
  "RLC_DATA_REQ_QUEUE_SIZE = 10000"

definition PDCP_DATA_IND_QUEUE_SIZE :: nat where
  "PDCP_DATA_IND_QUEUE_SIZE = 10000"

interpretation rlc_queue: ring_size RLC_DATA_REQ_QUEUE_SIZE
  by unfold_locales (simp add: RLC_DATA_REQ_QUEUE_SIZE_def)

interpretation pdcp_queue: ring_size PDCP_DATA_IND_QUEUE_SIZE
  by unfold_locales (simp add: PDCP_DATA_IND_QUEUE_SIZE_def)

text \<open>
  C33: the queue between PDCP and RLC is first in, first out. However the producers and the thread
  interleave, the requests that RLC has handled are the first of those that PDCP has enqueued, in the
  same order and unchanged, the others are in the ring, and there are never more than it has room for.
  The item the thread works on without the lock is not overwritten meanwhile.
\<close>

theorem rlc_data_req_queue_fifo:
  assumes "ring_reach RLC_DATA_REQ_QUEUE_SIZE P (ring_start RLC_DATA_REQ_QUEUE_SIZE z) s"
  shows "\<exists>waiting. rt_sent s = rt_handled s @ waiting \<and> length waiting \<le> RLC_DATA_REQ_QUEUE_SIZE \<and>
    (\<forall>i. rt_consumer s = Picked i \<longrightarrow> waiting \<noteq> [] \<and> rq_q (rt_ring s) ! i = hd waiting)"
proof -
  have ok: "rlc_queue.threads_ok s" by (rule rlc_queue.reach_ok [OF assms rlc_queue.start_ok])
  let ?r = "rt_ring s" and ?N = RLC_DATA_REQ_QUEUE_SIZE
  have sh: "ring_shape ?N ?r" using ok by (simp add: rlc_queue.threads_ok_def)
  have len: "length (ring_items ?N ?r) \<le> ?N" using sh by (simp add: ring_items_def ring_shape_def)
  show ?thesis
  proof (cases "rt_consumer s")
    case (Picked i)
    then have "rq_length ?r \<noteq> 0" "i = rq_start ?r" using ok by (simp_all add: rlc_queue.threads_ok_def)
    then have "ring_items ?N ?r \<noteq> [] \<and> rq_q ?r ! i = hd (ring_items ?N ?r)"
      using rlc_queue.items_head [OF sh] by (metis list.sel(1) list.distinct(1))
    then show ?thesis using ok len Picked by (auto simp: rlc_queue.threads_ok_def)
  qed (use ok len in \<open>auto simp: rlc_queue.threads_ok_def\<close>)
qed

text \<open>A request, for the witnesses: the thread has gone to sleep, is woken by the producer, and picks the item.\<close>

lemma ring_sample:
  assumes "0 < N" "0 < P"
  shows "\<exists>s. ring_reach N P (ring_start N (0 :: nat)) s \<and> rt_sent s = [5] \<and> rt_handled s = [] \<and> rt_consumer s = Picked 0"
proof -
  let ?s0 = "ring_start N (0 :: nat)"
  let ?s1 = "?s0\<lparr>rt_consumer := Asleep\<rparr>"
  let ?s2 = "?s1\<lparr>rt_awake := rt_awake ?s1 + {#5#}\<rparr>"
  let ?s3 = "?s2\<lparr>rt_ring := ring_enqueue N 5 (rt_ring ?s2), rt_awake := rt_awake ?s2 - {#5#}, rt_sent := rt_sent ?s2 @ [5]\<rparr>"
  let ?s4 = "?s3\<lparr>rt_consumer := Testing\<rparr>"
  let ?s5 = "?s4\<lparr>rt_consumer := Picked (rq_start (rt_ring ?s4))\<rparr>"
  have "consumer_step N ?s0 ?s1" by (rule consumer_step.sleep) (simp_all add: ring_start_def ring_init_def)
  then have 1: "ring_step N P ?s0 ?s1" by (rule ring_step.consumer)
  have "producer_step N P ?s1 ?s2" by (rule producer_step.call) (use assms(2) in \<open>simp add: ring_start_def\<close>)
  then have 2: "ring_step N P ?s1 ?s2" by (rule ring_step.producer)
  have "cond_signal ?s3 ?s4" by (rule cond_signal.wake_consumer) simp
  then have "producer_step N P ?s2 ?s4"
    by (intro producer_step.enqueue [of 5]) (use assms(1) in \<open>simp_all add: ring_start_def ring_init_def\<close>)
  then have 3: "ring_step N P ?s2 ?s4" by (rule ring_step.producer)
  have "consumer_step N ?s4 ?s5" by (rule consumer_step.pick) (simp_all add: ring_start_def ring_enqueue_def Let_def)
  then have 4: "ring_step N P ?s4 ?s5" by (rule ring_step.consumer)
  have "ring_reach N P ?s0 ?s5" by (rule ring_reach.step [OF ring_reach.step [OF ring_reach.step [OF ring_reach.step [OF ring_reach.refl 1] 2] 3] 4])
  moreover have "rt_sent ?s5 = [5]" "rt_handled ?s5 = []" "rt_consumer ?s5 = Picked 0"
    by (simp_all add: ring_start_def ring_init_def ring_enqueue_def Let_def)
  ultimately show ?thesis by blast
qed

theorem rlc_data_req_queue_fifo_witness:
  "\<exists>s. ring_reach RLC_DATA_REQ_QUEUE_SIZE 2 (ring_start RLC_DATA_REQ_QUEUE_SIZE (0 :: nat)) s \<and> rt_sent s = [5] \<and>
     (\<exists>waiting. [5] = rt_handled s @ waiting \<and> waiting \<noteq> [] \<and> rq_q (rt_ring s) ! 0 = hd waiting)"
proof -
  obtain s where s: "ring_reach RLC_DATA_REQ_QUEUE_SIZE 2 (ring_start RLC_DATA_REQ_QUEUE_SIZE (0 :: nat)) s"
    "rt_sent s = [5]" "rt_consumer s = Picked 0"
    using ring_sample [OF rlc_queue.positive, of 2] by auto
  from rlc_data_req_queue_fifo [OF s(1)] obtain waiting where
    "rt_sent s = rt_handled s @ waiting" "waiting \<noteq> []" "rq_q (rt_ring s) ! 0 = hd waiting" using s(3) by blast
  with s(1,2) show ?thesis by metis
qed

text \<open>
  C34: no wake-up is lost in the queue between RLC and PDCP, although producers and the thread wait on one condition
  variable and each signal wakes only one of them. As long as not more than 10000 calls of the enqueue function are in
  progress at a time, then, however the threads interleave, the thread sleeps only when everything that was sent has been
  handled and no producer sleeps; and from every reachable state, when nobody sends, the thread can make only
  finitely many steps, and when it can make none it has handled everything and left no producer asleep.
\<close>

theorem pdcp_data_ind_queue_drains:
  assumes "ring_reach PDCP_DATA_IND_QUEUE_SIZE P (ring_start PDCP_DATA_IND_QUEUE_SIZE z) s" "P \<le> PDCP_DATA_IND_QUEUE_SIZE"
  shows "(rt_consumer s = Asleep \<longrightarrow> rt_handled s = rt_sent s \<and> rt_sleepers s = {#}) \<and>
    (\<exists>n. \<forall>m t. (consumer_step PDCP_DATA_IND_QUEUE_SIZE ^^ m) s t \<longrightarrow> m \<le> n \<and>
       ((\<forall>u. \<not> consumer_step PDCP_DATA_IND_QUEUE_SIZE t u) \<longrightarrow>
          rt_consumer t = Asleep \<and> rt_handled t = rt_sent s \<and> rt_sleepers t = {#}))"
proof -
  have ok: "pdcp_queue.threads_ok s" by (rule pdcp_queue.reach_ok [OF assms(1) pdcp_queue.start_ok])
  have wakes: "pdcp_queue.wakes_ok P s"
    by (rule pdcp_queue.reach_wakes_ok [OF assms pdcp_queue.start_ok pdcp_queue.start_wakes_ok])
  have "m \<le> pdcp_queue.todo s \<and> ((\<forall>u. \<not> consumer_step PDCP_DATA_IND_QUEUE_SIZE t u) \<longrightarrow>
      rt_consumer t = Asleep \<and> rt_handled t = rt_sent s \<and> rt_sleepers t = {#})"
    if "(consumer_step PDCP_DATA_IND_QUEUE_SIZE ^^ m) s t" for m t
    using pdcp_queue.consumer_runs [OF that ok wakes] pdcp_queue.consumer_enabled [of t] pdcp_queue.asleep_done [of t P] by metis
  then show ?thesis using pdcp_queue.asleep_done [OF ok wakes] by blast
qed

theorem pdcp_data_ind_queue_drains_witness:
  "\<exists>s. ring_reach PDCP_DATA_IND_QUEUE_SIZE 2 (ring_start PDCP_DATA_IND_QUEUE_SIZE (0 :: nat)) s \<and>
     rt_sent s = [5] \<and> rt_handled s = [] \<and>
     (\<exists>n. \<forall>m t. (consumer_step PDCP_DATA_IND_QUEUE_SIZE ^^ m) s t \<longrightarrow> m \<le> n \<and>
       ((\<forall>u. \<not> consumer_step PDCP_DATA_IND_QUEUE_SIZE t u) \<longrightarrow> rt_handled t = [5]))"
proof -
  obtain s where s: "ring_reach PDCP_DATA_IND_QUEUE_SIZE 2 (ring_start PDCP_DATA_IND_QUEUE_SIZE (0 :: nat)) s"
    "rt_sent s = [5]" "rt_handled s = []"
    using ring_sample [OF pdcp_queue.positive, of 2] by auto
  have "2 \<le> PDCP_DATA_IND_QUEUE_SIZE" by (simp add: PDCP_DATA_IND_QUEUE_SIZE_def)
  from pdcp_data_ind_queue_drains [OF s(1) this] s show ?thesis by metis
qed

end
