(* ===== verification/NrList.thy ===== *)
theory NrList
  imports Prelude
begin

text \<open>
  \<open>NR_list_t\<close> of \<open>openair2/LAYER2/NR_MAC_gNB/gNB_scheduler_primitives.c\<close>: lists of small numbers linked through an
  array, in which the MAC scheduler keeps HARQ processes. The operations are proved to be those of lists
  without repetitions. The assertions of the file are commented out; an index outside the array is a fault.
\<close>

section \<open>The structure\<close>

record nr_list =
  nl_head :: int
  nl_next :: "int list"
  nl_tail :: int
  nl_len :: int

definition nl_get :: "nr_list \<Rightarrow> int \<Rightarrow> int res" where
  "nl_get l i = (if 0 \<le> i \<and> i < int (length (nl_next l)) then Inr (nl_next l ! nat i) else Inl OutOfBounds)"

definition nl_set :: "int \<Rightarrow> int \<Rightarrow> nr_list \<Rightarrow> nr_list res" where
  "nl_set i v l =
     (if 0 \<le> i \<and> i < int (length (nl_next l)) then Inr (l\<lparr>nl_next := (nl_next l)[nat i := v]\<rparr>) else Inl OutOfBounds)"

text \<open>An \<open>int *\<close> into the structure: to \<open>head\<close>, or to an element of \<open>next\<close>.\<close>

datatype nl_ref = HeadRef | NextRef int

fun nl_read :: "nr_list \<Rightarrow> nl_ref \<Rightarrow> int res" where
  "nl_read l HeadRef = Inr (nl_head l)"
| "nl_read l (NextRef i) = nl_get l i"

fun nl_write :: "nl_ref \<Rightarrow> int \<Rightarrow> nr_list \<Rightarrow> nr_list res" where
  "nl_write HeadRef v l = Inr (l\<lparr>nl_head := v\<rparr>)"
| "nl_write (NextRef i) v l = nl_set i v l"

definition create_nr_list :: "int \<Rightarrow> nr_list" where
  "create_nr_list len = \<lparr>nl_head = - 1, nl_next = replicate (nat len) (- 1), nl_tail = - 1, nl_len = len\<rparr>"

definition resize_nr_list :: "int \<Rightarrow> nr_list \<Rightarrow> nr_list" where
  "resize_nr_list new_len l =
     (if new_len = nl_len l then l
      else if new_len > nl_len l
      then l\<lparr>nl_next := nl_next l @ replicate (nat (new_len - nl_len l)) (- 1), nl_len := new_len\<rparr>
      else l\<lparr>nl_next := take (nat new_len) (nl_next l), nl_len := new_len\<rparr>)"

text \<open>
  The two searches. A list that is linked in a circle has no end: \<open>NoReturn\<close> when the fuel, one more than
  the array has places, runs out.
\<close>

fun nl_seek_end :: "nat \<Rightarrow> nl_ref \<Rightarrow> nr_list \<Rightarrow> nl_ref res" where
  "nl_seek_end 0 cur l = Inl NoReturn"
| "nl_seek_end (Suc n) cur l = res_bind (nl_read l cur) (\<lambda>c. if c \<ge> 0 then nl_seek_end n (NextRef c) l else Inr cur)"

definition add_nr_list :: "int \<Rightarrow> nr_list \<Rightarrow> nr_list res" where
  "add_nr_list i l =
     res_bind (nl_seek_end (Suc (length (nl_next l))) HeadRef l) (\<lambda>cur.
     res_bind (nl_write cur i l) (\<lambda>l1.
     res_bind (nl_get l1 i) (\<lambda>x. Inr (if x < 0 then l1\<lparr>nl_tail := i\<rparr> else l1))))"

fun nl_seek :: "nat \<Rightarrow> int \<Rightarrow> nl_ref \<Rightarrow> nl_ref \<Rightarrow> nr_list \<Rightarrow> (nl_ref \<times> nl_ref) res" where
  "nl_seek 0 i prev cur l = Inl NoReturn"
| "nl_seek (Suc n) i prev cur l =
     res_bind (nl_read l cur) (\<lambda>c. if c \<noteq> - 1 \<and> c \<noteq> i then nl_seek n i cur (NextRef c) l else Inr (prev, cur))"

definition remove_nr_list :: "int \<Rightarrow> nr_list \<Rightarrow> nr_list res" where
  "remove_nr_list i l =
     res_bind (nl_seek (Suc (length (nl_next l))) i HeadRef HeadRef l) (\<lambda>(prev, cur).
     res_bind (nl_read l cur) (\<lambda>c.
     res_bind (nl_get l c) (\<lambda>x.
     res_bind (nl_write cur x l) (\<lambda>l1.
     res_bind (nl_set c (- 1) l1) (\<lambda>l2.
     res_bind (nl_read l2 prev) (\<lambda>p.
     if p \<ge> 0 then res_bind (nl_get l2 p) (\<lambda>y. Inr (if y \<ge> 0 then l2 else l2\<lparr>nl_tail := p\<rparr>))
     else Inr (l2\<lparr>nl_tail := p\<rparr>)))))))"

definition add_tail_nr_list :: "int \<Rightarrow> nr_list \<Rightarrow> nr_list res" where
  "add_tail_nr_list i l =
     res_bind (nl_write (if nl_tail l < 0 then HeadRef else NextRef (nl_tail l)) i l) (\<lambda>l1.
     res_bind (nl_set i (- 1) l1) (\<lambda>l2. Inr (l2\<lparr>nl_tail := i\<rparr>)))"

definition add_front_nr_list :: "int \<Rightarrow> nr_list \<Rightarrow> nr_list res" where
  "add_front_nr_list i l =
     res_bind (nl_set i (nl_head l) (l\<lparr>nl_head := i\<rparr>)) (\<lambda>l1. Inr (if nl_tail l1 < 0 then l1\<lparr>nl_tail := i\<rparr> else l1))"

definition remove_front_nr_list :: "nr_list \<Rightarrow> nr_list res" where
  "remove_front_nr_list l =
     res_bind (nl_get l (nl_head l)) (\<lambda>x.
     res_bind (nl_set (nl_head l) (- 1) (l\<lparr>nl_head := x\<rparr>)) (\<lambda>l1.
     Inr (if nl_head l1 < 0 then l1\<lparr>nl_tail := - 1\<rparr> else l1)))"

section \<open>The list it stands for\<close>

text \<open>From \<open>i\<close> over the elements of the list to \<open>j\<close>.\<close>

fun nl_seg :: "int list \<Rightarrow> int \<Rightarrow> int list \<Rightarrow> int \<Rightarrow> bool" where
  "nl_seg nx i [] j \<longleftrightarrow> i = j"
| "nl_seg nx i (x # xs) j \<longleftrightarrow> i = x \<and> 0 \<le> x \<and> x < int (length nx) \<and> nl_seg nx (nx ! nat x) xs j"

definition nl_repr :: "nr_list \<Rightarrow> int list \<Rightarrow> bool" where
  "nl_repr l xs \<longleftrightarrow> nl_seg (nl_next l) (nl_head l) xs (- 1) \<and> distinct xs \<and>
     nl_tail l = (if xs = [] then - 1 else last xs) \<and> nl_len l = int (length (nl_next l)) \<and>
     (\<forall>i. 0 \<le> i \<and> i < nl_len l \<and> i \<notin> set xs \<longrightarrow> nl_next l ! nat i = - 1)"

lemma nl_seg_append: "nl_seg nx i (xs @ ys) j \<longleftrightarrow> (\<exists>k. nl_seg nx i xs k \<and> nl_seg nx k ys j)"
  by (induction xs arbitrary: i) auto

lemma nl_seg_range: "nl_seg nx i xs j \<Longrightarrow> x \<in> set xs \<Longrightarrow> 0 \<le> x \<and> x < int (length nx)"
  by (induction xs arbitrary: i) auto

lemma nth_nat_upd [simp]:
  "0 \<le> z \<Longrightarrow> 0 \<le> x \<Longrightarrow> x \<noteq> z \<Longrightarrow> nx[nat z := v] ! nat x = nx ! nat x"
  "0 \<le> z \<Longrightarrow> z < int (length nx) \<Longrightarrow> nx[nat z := v] ! nat z = v"
  by (simp_all add: eq_nat_nat_iff)

lemma nl_seg_upd: "z \<notin> set xs \<Longrightarrow> 0 \<le> z \<Longrightarrow> nl_seg (nx[nat z := v]) i xs j = nl_seg nx i xs j"
proof (induction xs arbitrary: i)
  case (Cons x xs)
  then have "x \<noteq> z" "nl_seg (nx[nat z := v]) k xs j = nl_seg nx k xs j" for k by auto
  with Cons.prems(2) show ?case by (cases "0 \<le> x") simp_all
qed simp

lemma nl_seg_end:
  assumes "nl_seg nx i xs (- 1)"
  shows "i < 0 \<longleftrightarrow> xs = []" "xs \<noteq> [] \<Longrightarrow> i = hd xs"
  using assms by (cases xs; simp)+

lemma nl_seg_grow: "nl_seg nx i xs j \<Longrightarrow> nl_seg (nx @ ys) i xs j"
  by (induction xs arbitrary: i) (auto simp: nth_append)

lemma nl_reprD:
  assumes "nl_repr l xs"
  shows "nl_seg (nl_next l) (nl_head l) xs (- 1)" "distinct xs" "nl_tail l = (if xs = [] then - 1 else last xs)"
    "nl_len l = int (length (nl_next l))" "\<And>i. 0 \<le> i \<Longrightarrow> i < nl_len l \<Longrightarrow> i \<notin> set xs \<Longrightarrow> nl_next l ! nat i = - 1"
    "\<And>x. x \<in> set xs \<Longrightarrow> 0 \<le> x \<and> x < nl_len l" "0 \<le> nl_len l"
  using assms nl_seg_range by (auto simp: nl_repr_def)

lemma nl_repr_head: "nl_repr l xs \<Longrightarrow> nl_head l = (if xs = [] then - 1 else hd xs)"
  by (cases xs) (auto simp: nl_repr_def)

lemma nl_repr_length:
  assumes "nl_repr l xs"
  shows "length xs \<le> length (nl_next l)"
proof -
  have "set xs \<subseteq> {0..<int (length (nl_next l))}" using nl_reprD(4,6) [OF assms] by auto
  then have "card (set xs) \<le> card {0..<int (length (nl_next l))}" by (intro card_mono) auto
  then show ?thesis using distinct_card [OF nl_reprD(2) [OF assms]] by simp
qed

lemma nl_seg_unique: "nl_seg nx i xs (- 1) \<Longrightarrow> nl_seg nx i ys (- 1) \<Longrightarrow> xs = ys"
proof (induction xs arbitrary: i ys)
  case Nil
  then show ?case by (cases ys) auto
next
  case (Cons x xs)
  then show ?case by (cases ys) auto
qed

lemma nl_repr_unique: "nl_repr l xs \<Longrightarrow> nl_repr l ys \<Longrightarrow> xs = ys"
  using nl_seg_unique nl_reprD(1) by blast

section \<open>The operations on it\<close>

lemma create_repr: "0 \<le> n \<Longrightarrow> nl_repr (create_nr_list n) []"
  by (auto simp: nl_repr_def create_nr_list_def)

lemma resize_repr:
  assumes "nl_repr l xs" "nl_len l \<le> n"
  shows "nl_repr (resize_nr_list n l) xs \<and> nl_len (resize_nr_list n l) = n"
proof (cases "n = nl_len l")
  case False
  have "nl_seg (nl_next l @ replicate (nat (n - nl_len l)) (- 1)) (nl_head l) xs (- 1)"
    by (rule nl_seg_grow) (rule nl_reprD(1) [OF assms(1)])
  moreover have "(nl_next l @ replicate (nat (n - nl_len l)) (- 1)) ! nat i = - 1"
    if "0 \<le> i" "i < n" "i \<notin> set xs" for i
    using that assms(2) nl_reprD(4,5) [OF assms(1)] by (cases "i < nl_len l") (auto simp: nth_append)
  ultimately show ?thesis using False assms nl_reprD [OF assms(1)] by (auto simp: resize_nr_list_def nl_repr_def)
qed (use assms in \<open>simp add: resize_nr_list_def\<close>)

lemma add_tail_repr:
  assumes r: "nl_repr l xs" and i: "0 \<le> i" "i < nl_len l" "i \<notin> set xs"
  shows "\<exists>l'. add_tail_nr_list i l = Inr l' \<and> nl_repr l' (xs @ [i]) \<and> nl_len l' = nl_len l"
proof -
  note d = nl_reprD [OF r]
  show ?thesis
  proof (cases xs rule: rev_cases)
    case Nil
    with d i show ?thesis
      by (auto simp: add_tail_nr_list_def nl_set_def nl_repr_def)
  next
    case (snoc ys y)
    have y: "0 \<le> y" "y < nl_len l" "y \<notin> set ys" "y \<noteq> i" "i \<notin> set ys" using d(2) d(6) [of y] i snoc by auto
    have s: "nl_seg (nl_next l) (nl_head l) ys y" using d(1) by (auto simp: snoc nl_seg_append)
    let ?nx = "((nl_next l)[nat y := i])[nat i := - 1]"
    have "nl_seg ?nx (nl_head l) ys y" using s y i(1) by (simp add: nl_seg_upd)
    moreover have "?nx ! nat y = i" "?nx ! nat i = - 1" using y i d(4) by simp_all
    ultimately have "nl_seg ?nx (nl_head l) (xs @ [i]) (- 1)" using y i d(4) by (auto simp: snoc nl_seg_append)
    moreover have "?nx ! nat k = - 1" if "0 \<le> k" "k < nl_len l" "k \<notin> set (xs @ [i])" for k
      using that d(5) [of k] y(1) i(1) snoc by simp
    ultimately have "nl_repr (l\<lparr>nl_next := ?nx, nl_tail := i\<rparr>) (xs @ [i])" using d(2,4) i by (auto simp: nl_repr_def)
    moreover have "add_tail_nr_list i l = Inr (l\<lparr>nl_next := ?nx, nl_tail := i\<rparr>)"
      using d(3,4) y i snoc by (simp add: add_tail_nr_list_def nl_set_def)
    ultimately show ?thesis by simp
  qed
qed

lemma add_front_repr:
  assumes r: "nl_repr l xs" and i: "0 \<le> i" "i < nl_len l" "i \<notin> set xs"
  shows "\<exists>l'. add_front_nr_list i l = Inr l' \<and> nl_repr l' (i # xs) \<and> nl_len l' = nl_len l"
proof -
  note d = nl_reprD [OF r]
  let ?nx = "(nl_next l)[nat i := nl_head l]"
  have "nl_seg ?nx (nl_head l) xs (- 1)" using d(1) i by (simp add: nl_seg_upd)
  then have s: "nl_seg ?nx i (i # xs) (- 1)" using i d(4) by simp
  have "?nx ! nat k = - 1" if "0 \<le> k" "k < nl_len l" "k \<notin> set (i # xs)" for k
    using that d(5) [of k] i(1) by simp
  with s have "nl_repr (l\<lparr>nl_head := i, nl_next := ?nx, nl_tail := (if xs = [] then i else nl_tail l)\<rparr>) (i # xs)"
    using d(2,3,4) i by (auto simp: nl_repr_def)
  moreover have "nl_tail l < 0 \<longleftrightarrow> xs = []" using d(3) d(6) [of "last xs"] by auto
  then have "add_front_nr_list i l = Inr (l\<lparr>nl_head := i, nl_next := ?nx, nl_tail := (if xs = [] then i else nl_tail l)\<rparr>)"
    using d(4) i by (simp add: add_front_nr_list_def nl_set_def)
  ultimately show ?thesis by simp
qed

lemma remove_front_repr:
  assumes r: "nl_repr l (x # xs)"
  shows "\<exists>l'. remove_front_nr_list l = Inr l' \<and> nl_repr l' xs \<and> nl_len l' = nl_len l"
proof -
  note d = nl_reprD [OF r]
  have x: "nl_head l = x" "0 \<le> x" "x < nl_len l" "x \<notin> set xs" using d(1,2) d(6) [of x] by auto
  let ?nx = "(nl_next l)[nat x := - 1]" and ?h = "nl_next l ! nat x"
  have s: "nl_seg ?nx ?h xs (- 1)" using d(1) x by (simp add: nl_seg_upd)
  have h: "?h < 0 \<longleftrightarrow> xs = []" by (rule nl_seg_end(1) [OF s])
  have "?nx ! nat k = - 1" if "0 \<le> k" "k < nl_len l" "k \<notin> set xs" for k
    using that d(4) d(5) [of k] x by (cases "k = x") simp_all
  with s have "nl_repr (l\<lparr>nl_head := ?h, nl_next := ?nx, nl_tail := (if xs = [] then - 1 else nl_tail l)\<rparr>) xs"
    using d(2,3,4) by (auto simp: nl_repr_def)
  moreover have "remove_front_nr_list l = Inr (l\<lparr>nl_head := ?h, nl_next := ?nx, nl_tail := (if xs = [] then - 1 else nl_tail l)\<rparr>)"
    using d(4) x h by (simp add: remove_front_nr_list_def nl_set_def nl_get_def)
  ultimately show ?thesis by simp
qed

text \<open>The search stops at the cell that points to \<open>i\<close>, with the one before.\<close>

definition nl_last_ref :: "nl_ref \<Rightarrow> int list \<Rightarrow> nl_ref" where
  "nl_last_ref cur ys = (if ys = [] then cur else NextRef (last ys))"

definition nl_prev_ref :: "nl_ref \<Rightarrow> nl_ref \<Rightarrow> int list \<Rightarrow> nl_ref" where
  "nl_prev_ref prev cur ys = (if ys = [] then prev else nl_last_ref cur (butlast ys))"

lemma nl_refs_Cons:
  "nl_last_ref cur (y # ys) = nl_last_ref (NextRef y) ys"
  "nl_prev_ref prev cur (y # ys) = nl_prev_ref cur (NextRef y) ys"
  by (simp_all add: nl_last_ref_def nl_prev_ref_def)

lemma nl_seek_finds:
  assumes "nl_seg (nl_next l) c (ys @ i # zs) (- 1)" "nl_read l cur = Inr c" "i \<notin> set ys" "length ys < n"
  shows "nl_seek n i prev cur l = Inr (nl_prev_ref prev cur ys, nl_last_ref cur ys)"
  using assms
proof (induction ys arbitrary: n prev cur c)
  case Nil
  then show ?case by (cases n) (auto simp: nl_last_ref_def nl_prev_ref_def)
next
  case (Cons y ys)
  obtain m where n: "n = Suc m" "length ys < m" using Cons.prems(4) by (cases n) auto
  have y: "c = y" "0 \<le> y" "y < int (length (nl_next l))" "y \<noteq> i" using Cons.prems(1,3) by auto
  have "nl_seek m i cur (NextRef y) l = Inr (nl_prev_ref cur (NextRef y) ys, nl_last_ref (NextRef y) ys)"
    using Cons.prems(1,3) n(2) y by (intro Cons.IH [of "nl_next l ! nat y"]) (auto simp: nl_get_def)
  then show ?case using n(1) y Cons.prems(2) by (simp add: nl_refs_Cons)
qed

lemma nl_seek_end_finds:
  assumes "nl_seg (nl_next l) c ys (- 1)" "nl_read l cur = Inr c" "length ys < n"
  shows "nl_seek_end n cur l = Inr (nl_last_ref cur ys)"
  using assms
proof (induction ys arbitrary: n cur c)
  case Nil
  then show ?case by (cases n) (auto simp: nl_last_ref_def)
next
  case (Cons y ys)
  obtain m where n: "n = Suc m" "length ys < m" using Cons.prems(3) by (cases n) auto
  have y: "c = y" "0 \<le> y" "y < int (length (nl_next l))" using Cons.prems(1) by auto
  have "nl_seek_end m (NextRef y) l = Inr (nl_last_ref (NextRef y) ys)"
    using Cons.prems(1) n(2) y by (intro Cons.IH [of "nl_next l ! nat y"]) (auto simp: nl_get_def)
  then show ?case using n(1) y Cons.prems(2) by (simp add: nl_refs_Cons)
qed

lemma remove_repr:
  assumes r: "nl_repr l xs" and i: "i \<in> set xs"
  shows "\<exists>l'. remove_nr_list i l = Inr l' \<and> nl_repr l' (remove1 i xs) \<and> nl_len l' = nl_len l"
proof -
  note d = nl_reprD [OF r]
  obtain ys zs where xs: "xs = ys @ i # zs" "i \<notin> set ys" using i by (meson split_list_first)
  have dist: "i \<notin> set zs" "distinct ys" "distinct zs" "set ys \<inter> set zs = {}" using d(2) xs by auto
  have ir: "0 \<le> i" "i < int (length (nl_next l))" using d(6) [OF i] d(4) by auto
  have seek: "nl_seek (Suc (length (nl_next l))) i HeadRef HeadRef l = Inr (nl_prev_ref HeadRef HeadRef ys, nl_last_ref HeadRef ys)"
    using nl_repr_length [OF r] d(1) xs by (intro nl_seek_finds [of _ "nl_head l" _ _ zs]) auto
  obtain x where x: "x = nl_next l ! nat i" "nl_seg (nl_next l) x zs (- 1)" using d(1) xs by (auto simp: nl_seg_append)
  have sy: "nl_seg (nl_next l) (nl_head l) ys i" using d(1) xs by (auto simp: nl_seg_append)
  note x0 = nl_seg_end [OF x(2)]
  have fr: "nl_next l ! nat k = - 1" if "0 \<le> k" "k < int (length (nl_next l))" "k \<notin> set ys" "k \<notin> set zs" "k \<noteq> i" for k
    using d(4) d(5) [of k] that xs by simp
  show ?thesis
  proof (cases ys rule: rev_cases)
    case Nil
    let ?nx = "(nl_next l)[nat i := - 1]"
    have s: "nl_seg ?nx x zs (- 1)" using x(2) dist(1) ir by (simp add: nl_seg_upd)
    have h: "nl_head l = i" using sy Nil by simp
    have next_x: "x < int (length (nl_next l)) \<and> x \<noteq> i \<and> (?nx ! nat x \<ge> 0 \<longleftrightarrow> tl zs \<noteq> [])" if "zs \<noteq> []"
    proof -
      obtain z zs' where z: "zs = z # zs'" using \<open>zs \<noteq> []\<close> by (cases zs) auto
      have "x = z" "z < int (length (nl_next l))" "nl_seg ?nx (?nx ! nat z) zs' (- 1)" using s z by simp_all
      moreover have "z \<noteq> i" using dist(1) z by simp
      ultimately show ?thesis using nl_seg_end(1) [of ?nx "?nx ! nat z" zs'] z by (simp add: not_less [symmetric])
    qed
    let ?tail = "if x \<ge> 0 \<and> ?nx ! nat x \<ge> 0 then nl_tail l else x"
    have "remove_nr_list i l = Inr (l\<lparr>nl_head := x, nl_next := ?nx, nl_tail := ?tail\<rparr>)"
      using seek h ir next_x x(1) x0(1)
      by (cases "zs = []") (simp_all add: remove_nr_list_def Nil nl_prev_ref_def nl_last_ref_def nl_get_def nl_set_def)
    moreover have "?tail = (if zs = [] then - 1 else last zs)"
    proof (cases "zs = []")
      case True
      then show ?thesis using x(2) x0(1) by simp
    next
      case False
      then have "?tail = (if tl zs \<noteq> [] then nl_tail l else hd zs)" using next_x x0 by simp
      also have "\<dots> = last zs" using False d(3) xs Nil by (cases zs) auto
      finally show ?thesis using False by simp
    qed
    moreover have "?nx ! nat k = - 1" if "0 \<le> k" "k < int (length (nl_next l))" "k \<notin> set zs" for k
      using fr [of k] that ir Nil by (cases "k = i") simp_all
    ultimately show ?thesis using s d(2,4) xs Nil by (auto simp: nl_repr_def)
  next
    case (snoc ws y)
    have y: "0 \<le> y" "y < int (length (nl_next l))" "y \<noteq> i" "y \<notin> set ws" "y \<notin> set zs"
      using d(6) [of y] d(4) xs snoc dist by auto
    let ?nx = "((nl_next l)[nat y := x])[nat i := - 1]"
    have s: "nl_seg ?nx (nl_head l) (ys @ zs) (- 1)"
    proof -
      have "nl_seg (nl_next l) (nl_head l) ws y" using sy snoc by (auto simp: nl_seg_append)
      then have "nl_seg ?nx (nl_head l) ws y" using y ir xs snoc by (simp add: nl_seg_upd)
      moreover have "nl_seg ?nx x zs (- 1)" using x(2) y ir dist by (simp add: nl_seg_upd)
      moreover have "?nx ! nat y = x" using y ir by simp
      ultimately show ?thesis using y snoc by (auto simp: nl_seg_append)
    qed
    have yi: "nl_next l ! nat y = i" using sy snoc by (auto simp: nl_seg_append)
    have p: "nl_read (l\<lparr>nl_next := ?nx\<rparr>) (nl_prev_ref HeadRef HeadRef ys) = Inr y"
    proof (cases ws rule: rev_cases)
      case Nil
      then show ?thesis using s snoc by (auto simp: nl_prev_ref_def nl_last_ref_def)
    next
      case (snoc vs v)
      have "0 \<le> v" "v < int (length (nl_next l))" "?nx ! nat v = y"
        using s nl_seg_range [OF s, of v] \<open>ys = ws @ [y]\<close> snoc by (auto simp: nl_seg_append)
      moreover have b: "butlast ys = vs @ [v]" "ys \<noteq> []" using \<open>ys = ws @ [y]\<close> snoc by (simp_all only: butlast_snoc) simp
      have "nl_prev_ref HeadRef HeadRef ys = NextRef v" unfolding nl_prev_ref_def nl_last_ref_def b(1) using b(2) by simp
      ultimately show ?thesis by (simp add: nl_get_def)
    qed
    let ?tail = "if x \<ge> 0 then nl_tail l else y"
    have "remove_nr_list i l = Inr (l\<lparr>nl_next := ?nx, nl_tail := ?tail\<rparr>)"
      using seek p y yi ir x(1) snoc
      by (simp add: remove_nr_list_def nl_last_ref_def nl_get_def nl_set_def)
    moreover have "?tail = last (ys @ zs)" using x0 d(3) xs snoc by (cases zs rule: rev_cases) auto
    moreover have "?nx ! nat k = - 1" if "0 \<le> k" "k < int (length (nl_next l))" "k \<notin> set (ys @ zs)" for k
      using fr [of k] that ir y(1) snoc by (cases "k = i") simp_all
    ultimately show ?thesis using s d(2,4) xs snoc by (auto simp: nl_repr_def remove1_append)
  qed
qed

lemma add_repr:
  assumes r: "nl_repr l xs" and i: "0 \<le> i" "i < nl_len l" "i \<notin> set xs"
  shows "\<exists>l'. add_nr_list i l = Inr l' \<and> nl_repr l' (xs @ [i]) \<and> nl_len l' = nl_len l"
proof -
  note d = nl_reprD [OF r]
  obtain l' where l': "add_tail_nr_list i l = Inr l'" "nl_repr l' (xs @ [i])" "nl_len l' = nl_len l"
    using add_tail_repr [OF assms] by blast
  have seek: "nl_seek_end (Suc (length (nl_next l))) HeadRef l = Inr (nl_last_ref HeadRef xs)"
    using nl_repr_length [OF r] d(1) by (intro nl_seek_end_finds [of _ "nl_head l"]) auto
  have free: "nl_next l ! nat i = - 1" by (rule d(5) [OF i])
  have "add_nr_list i l = add_tail_nr_list i l"
  proof (cases xs rule: rev_cases)
    case Nil
    have "(nl_next l)[nat i := - 1] = nl_next l" using free by (metis list_update_id)
    with Nil seek free i d(3,4) show ?thesis
      by (simp add: add_nr_list_def add_tail_nr_list_def nl_last_ref_def nl_get_def nl_set_def)
  next
    case (snoc ys y)
    have y: "0 \<le> y" "y < int (length (nl_next l))" "y \<noteq> i" using d(6) [of y] d(4) i snoc by auto
    have "(nl_next l)[nat y := i, nat i := - 1] = (nl_next l)[nat y := i]" using free y i
      by (metis list_update_id nth_nat_upd(1))
    with snoc seek free i y d(3,4) show ?thesis
      by (simp add: add_nr_list_def add_tail_nr_list_def nl_last_ref_def nl_get_def nl_set_def)
  qed
  with l' show ?thesis by auto
qed

section \<open>The interface\<close>

text \<open>What the scheduler relies on: a structure that represents a list without repetitions of numbers below its size.\<close>

locale id_list =
  fixes repr :: "'l \<Rightarrow> int list \<Rightarrow> bool"
    and size_of :: "'l \<Rightarrow> int"
    and first :: "'l \<Rightarrow> int"
    and put :: "int \<Rightarrow> 'l \<Rightarrow> 'l res"
    and pop :: "'l \<Rightarrow> 'l res"
    and del :: "int \<Rightarrow> 'l \<Rightarrow> 'l res"
  assumes range: "repr l xs \<Longrightarrow> x \<in> set xs \<Longrightarrow> 0 \<le> x \<and> x < size_of l"
    and first: "repr l xs \<Longrightarrow> first l = (if xs = [] then - 1 else hd xs)"
    and put: "repr l xs \<Longrightarrow> 0 \<le> x \<Longrightarrow> x < size_of l \<Longrightarrow> x \<notin> set xs \<Longrightarrow>
      \<exists>l'. put x l = Inr l' \<and> repr l' (xs @ [x]) \<and> size_of l' = size_of l"
    and pop: "repr l (x # xs) \<Longrightarrow> \<exists>l'. pop l = Inr l' \<and> repr l' xs \<and> size_of l' = size_of l"
    and del: "repr l xs \<Longrightarrow> x \<in> set xs \<Longrightarrow> \<exists>l'. del x l = Inr l' \<and> repr l' (remove1 x xs) \<and> size_of l' = size_of l"
begin

lemma first_neg: "repr l xs \<Longrightarrow> first l < 0 \<longleftrightarrow> xs = []"
  using first range by (cases xs) fastforce+

text \<open>All the elements of one structure, from the first to the last, are moved to the end of another.\<close>

fun drain :: "nat \<Rightarrow> 'l \<Rightarrow> 'l \<Rightarrow> ('l \<times> 'l) res" where
  "drain 0 l m = Inl NoReturn"
| "drain (Suc n) l m =
     (if first l \<ge> 0
      then res_bind (pop l) (\<lambda>l'. res_bind (put (first l) m) (\<lambda>m'. drain n l' m'))
      else Inr (l, m))"

lemma drain_ok:
  assumes "repr l xs" "repr m ys" "size_of m = size_of l" "set xs \<inter> set ys = {}" "distinct xs" "length xs < n"
  shows "\<exists>l' m'. drain n l m = Inr (l', m') \<and> repr l' [] \<and> repr m' (ys @ xs) \<and> size_of l' = size_of l \<and> size_of m' = size_of m"
  using assms
proof (induction n arbitrary: l m xs ys)
  case (Suc n)
  show ?case
  proof (cases xs)
    case Nil
    with Suc.prems first_neg [of l xs] show ?thesis by auto
  next
    case (Cons x xs')
    then have x: "first l = x" "0 \<le> x" "x < size_of m" "x \<notin> set ys" "x \<notin> set xs'"
      using first [OF Suc.prems(1)] range [OF Suc.prems(1), of x] Suc.prems(3,4,5) by auto
    obtain l1 where l1: "pop l = Inr l1" "repr l1 xs'" "size_of l1 = size_of l" using pop [of l x xs'] Suc.prems(1) Cons by auto
    obtain m1 where m1: "put x m = Inr m1" "repr m1 (ys @ [x])" "size_of m1 = size_of m" using put [OF Suc.prems(2) x(2,3,4)] by auto
    from Suc.IH [OF l1(2) m1(2)] obtain l' m' where "drain n l1 m1 = Inr (l', m')" "repr l' []" "repr m' (ys @ [x] @ xs')"
      "size_of l' = size_of l" "size_of m' = size_of m"
      using Suc.prems(3,4,5,6) Cons x l1(3) m1(3) by auto
    with l1 m1 x Cons show ?thesis by simp
  qed
qed simp

end

interpretation nl: id_list nl_repr nl_len nl_head add_tail_nr_list remove_front_nr_list remove_nr_list
proof
  show "nl_repr l xs \<Longrightarrow> x \<in> set xs \<Longrightarrow> 0 \<le> x \<and> x < nl_len l" for l xs x using nl_reprD(6) by blast
qed (use nl_repr_head add_tail_repr remove_front_repr remove_repr in blast)+

end
