(* ===== verification/MacHarq.thy ===== *)
theory MacHarq
  imports NrList
begin

text \<open>
  The HARQ processes of a UE at the base station: where \<open>openair2/LAYER2/NR_MAC_gNB\<close> takes one for a transmission
  (\<open>gNB_scheduler_dlsch.c\<close>, \<open>gNB_scheduler_ulsch.c\<close>, \<open>gNB_scheduler_RA.c\<close>), and where it handles the feedback
  (\<open>gNB_scheduler_uci.c\<close>, \<open>gNB_scheduler_ulsch.c\<close>). The functions run under the lock of the scheduler. Which UE
  is scheduled, with how many resources, comes from outside. The record serves both directions; an uplink
  process has no \<open>feedback_frame\<close>. \<open>hq_tb_size\<close> is the \<open>tb_size\<close> of the \<open>sched_pdsch\<close> or \<open>sched_pusch\<close> that a process saves
  in its first round; the rest of it, and the content of the transport block, are not part of this model.
\<close>

section \<open>State\<close>

type_synonym u16 = "16 word"

record harq_proc =
  hq_is_waiting :: bool
  hq_ndi :: byte
  hq_round :: byte
  hq_feedback_frame :: u16
  hq_feedback_slot :: u16
  hq_tb_size :: u32

text \<open>\<open>hc_errors\<close> is the counter of the statistics of this direction, \<open>hc_sched_bytes\<close> is \<open>sched_ul_bytes\<close>.\<close>

record harq_ctrl =
  hc_available :: nr_list
  hc_feedback :: nr_list
  hc_retrans :: nr_list
  hc_procs :: "harq_proc list"
  hc_errors :: u64
  hc_sched_bytes :: int

definition NR_MAX_HARQ_PROCESSES :: nat where
  "NR_MAX_HARQ_PROCESSES = 32"

definition harq_get :: "harq_ctrl \<Rightarrow> int \<Rightarrow> harq_proc res" where
  "harq_get c pid = (if 0 \<le> pid \<and> pid < int (length (hc_procs c)) then Inr (hc_procs c ! nat pid) else Inl OutOfBounds)"

definition harq_put :: "int \<Rightarrow> harq_proc \<Rightarrow> harq_ctrl \<Rightarrow> harq_ctrl" where
  "harq_put pid p c = c\<lparr>hc_procs := (hc_procs c)[nat pid := p]\<rparr>"

section \<open>Configuration and reset\<close>

fun nr_list_add_all :: "int list \<Rightarrow> nr_list \<Rightarrow> nr_list res" where
  "nr_list_add_all [] l = Inr l"
| "nr_list_add_all (i # is) l = res_bind (add_tail_nr_list i l) (nr_list_add_all is)"

definition create_dl_harq_list :: "int \<Rightarrow> harq_ctrl \<Rightarrow> harq_ctrl res" where
  "create_dl_harq_list nrofHARQ c =
     (if nl_len (hc_available c) = 0
      then res_bind (nr_list_add_all [0..nrofHARQ - 1] (create_nr_list nrofHARQ)) (\<lambda>a.
           Inr (c\<lparr>hc_available := a, hc_feedback := create_nr_list nrofHARQ, hc_retrans := create_nr_list nrofHARQ\<rparr>))
      else if nl_len (hc_available c) = nrofHARQ then Inr c
      else let old_nrofHARQ = nl_len (hc_available c)
           in res_bind (nr_list_add_all [old_nrofHARQ..nrofHARQ - 1] (resize_nr_list nrofHARQ (hc_available c))) (\<lambda>a.
              Inr (c\<lparr>hc_available := a, hc_feedback := resize_nr_list nrofHARQ (hc_feedback c),
                     hc_retrans := resize_nr_list nrofHARQ (hc_retrans c)\<rparr>)))"

fun nr_list_drain :: "nat \<Rightarrow> nr_list \<Rightarrow> nr_list \<Rightarrow> (nr_list \<times> nr_list) res" where
  "nr_list_drain 0 l m = Inl NoReturn"
| "nr_list_drain (Suc n) l m =
     (if nl_head l \<ge> 0
      then res_bind (remove_front_nr_list l) (\<lambda>l'. res_bind (add_tail_nr_list (nl_head l) m) (\<lambda>m'. nr_list_drain n l' m'))
      else Inr (l, m))"

definition reset_dl_harq_list :: "harq_ctrl \<Rightarrow> harq_ctrl res" where
  "reset_dl_harq_list c =
     res_bind (nr_list_drain (Suc (length (nl_next (hc_feedback c)))) (hc_feedback c) (hc_available c)) (\<lambda>(f, a1).
     res_bind (nr_list_drain (Suc (length (nl_next (hc_retrans c)))) (hc_retrans c) a1) (\<lambda>(r, a2).
     Inr (c\<lparr>hc_feedback := f, hc_retrans := r, hc_available := a2,
            hc_procs := map (\<lambda>p. p\<lparr>hq_feedback_slot := - 1, hq_round := 0, hq_is_waiting := False\<rparr>) (hc_procs c)\<rparr>)))"

text \<open>The uplink functions are the same code on the lists and processes of the other direction.\<close>

definition create_ul_harq_list :: "int \<Rightarrow> harq_ctrl \<Rightarrow> harq_ctrl res" where
  "create_ul_harq_list = create_dl_harq_list"

definition reset_ul_harq_list :: "harq_ctrl \<Rightarrow> harq_ctrl res" where
  "reset_ul_harq_list = reset_dl_harq_list"

section \<open>Downlink\<close>

definition finish_nr_dl_harq :: "int \<Rightarrow> harq_ctrl \<Rightarrow> harq_ctrl res" where
  "finish_nr_dl_harq pid c =
     res_bind (harq_get c pid) (\<lambda>p.
     res_bind (add_tail_nr_list pid (hc_available c)) (\<lambda>a.
     Inr (harq_put pid (p\<lparr>hq_ndi := hq_ndi p XOR 1, hq_round := 0\<rparr>) (c\<lparr>hc_available := a\<rparr>))))"

definition abort_nr_dl_harq :: "int \<Rightarrow> harq_ctrl \<Rightarrow> harq_ctrl res" where
  "abort_nr_dl_harq pid c = res_bind (finish_nr_dl_harq pid c) (\<lambda>c'. Inr (c'\<lparr>hc_errors := hc_errors c' + 1\<rparr>))"

text \<open>The scheduler prefers a process that waits for its retransmission; \<open>- 1\<close> when no process is free.\<close>

definition pf_dl_harq_pid :: "harq_ctrl \<Rightarrow> int" where
  "pf_dl_harq_pid c = (if nl_head (hc_retrans c) \<ge> 0 then nl_head (hc_retrans c) else nl_head (hc_available c))"

text \<open>
  \<open>nr_schedule_ue_spec\<close>: the process leaves its list, and waits for feedback in the slot of the PUCCH, or is
  finished when feedback is disabled (\<open>None\<close>). A new transmission saves the size of the transport block.
\<close>

definition dl_take_harq :: "int \<Rightarrow> harq_ctrl \<Rightarrow> (harq_ctrl \<times> int) res" where
  "dl_take_harq pid c =
     (if pid < 0
      then res_bind (remove_front_nr_list (hc_available c)) (\<lambda>a. Inr (c\<lparr>hc_available := a\<rparr>, nl_head (hc_available c)))
      else res_bind (harq_get c pid) (\<lambda>p.
           if hq_round p = 0
           then res_bind (remove_nr_list pid (hc_available c)) (\<lambda>a. Inr (c\<lparr>hc_available := a\<rparr>, pid))
           else res_bind (remove_nr_list pid (hc_retrans c)) (\<lambda>r. Inr (c\<lparr>hc_retrans := r\<rparr>, pid))))"

definition dl_send_harq :: "int \<Rightarrow> (u16 \<times> u16) option \<Rightarrow> harq_ctrl \<Rightarrow> harq_ctrl res" where
  "dl_send_harq pid pucch c =
     res_bind (harq_get c pid) (\<lambda>p.
     if hq_is_waiting p then Inl AssertFailed
     else case pucch of
            None \<Rightarrow> finish_nr_dl_harq pid c
          | Some (frame, slot) \<Rightarrow>
              res_bind (add_tail_nr_list pid (hc_feedback c)) (\<lambda>f.
              Inr (harq_put pid (p\<lparr>hq_feedback_frame := frame, hq_feedback_slot := slot, hq_is_waiting := True\<rparr>)
                     (c\<lparr>hc_feedback := f\<rparr>))))"

definition dl_schedule_harq :: "nat \<Rightarrow> int \<Rightarrow> (u16 \<times> u16) option \<Rightarrow> u32 \<Rightarrow> harq_ctrl \<Rightarrow> harq_ctrl res" where
  "dl_schedule_harq harq_round_max sel pucch TBS c =
     res_bind (dl_take_harq sel c) (\<lambda>(c1, pid).
     res_bind (dl_send_harq pid pucch c1) (\<lambda>c2.
     res_bind (harq_get c2 pid) (\<lambda>p.
     if \<not> unat (hq_round p) < harq_round_max then Inl AssertFailed
     else Inr (if hq_round p = 0 then harq_put pid (p\<lparr>hq_tb_size := TBS\<rparr>) c2 else c2))))"

definition handle_dl_harq :: "nat \<Rightarrow> int \<Rightarrow> bool \<Rightarrow> harq_ctrl \<Rightarrow> harq_ctrl res" where
  "handle_dl_harq harq_round_max pid success c =
     res_bind (harq_get c pid) (\<lambda>p.
     let p1 = p\<lparr>hq_feedback_slot := - 1, hq_is_waiting := False\<rparr>; c1 = harq_put pid p1 c
     in if success then finish_nr_dl_harq pid c1
        else if int (unat (hq_round p)) \<ge> int harq_round_max - 1 then abort_nr_dl_harq pid c1
        else res_bind (add_tail_nr_list pid (hc_retrans c1)) (\<lambda>r.
             Inr (harq_put pid (p1\<lparr>hq_round := hq_round p + 1\<rparr>) (c1\<lparr>hc_retrans := r\<rparr>))))"

text \<open>Frames are numbered modulo 1024; up to 512 frames ago is the past.\<close>

definition harq_past :: "u32 \<Rightarrow> u32 \<Rightarrow> harq_proc \<Rightarrow> bool" where
  "harq_past frame slot p \<longleftrightarrow>
     (ucast (hq_feedback_frame p) - frame + 1024) mod 1024 > 512 \<or>
     (ucast (hq_feedback_frame p) = frame \<and> ucast (hq_feedback_slot p) < slot)"

definition harq_future :: "u32 \<Rightarrow> u32 \<Rightarrow> harq_proc \<Rightarrow> bool" where
  "harq_future frame slot p \<longleftrightarrow>
     (frame - ucast (hq_feedback_frame p) + 1024) mod 1024 > 512 \<or>
     (ucast (hq_feedback_frame p) = frame \<and> ucast (hq_feedback_slot p) > slot)"

text \<open>The fuel: one more than there are places in the list.\<close>

fun find_harq_loop :: "nat \<Rightarrow> u32 \<Rightarrow> u32 \<Rightarrow> nat \<Rightarrow> harq_ctrl \<Rightarrow> (harq_ctrl \<times> int option) res" where
  "find_harq_loop 0 frame slot rmax c = Inl NoReturn"
| "find_harq_loop (Suc n) frame slot rmax c =
     (let pid = nl_head (hc_feedback c)
      in if pid < 0 then Inr (c, None)
         else res_bind (harq_get c pid) (\<lambda>p.
              if harq_past frame slot p
              then res_bind (remove_front_nr_list (hc_feedback c)) (\<lambda>f.
                   res_bind (handle_dl_harq rmax pid False (c\<lparr>hc_feedback := f\<rparr>)) (\<lambda>c'.
                   find_harq_loop n frame slot rmax c'))
              else if harq_future frame slot p then Inr (c, None) else Inr (c, Some pid)))"

definition find_harq :: "u32 \<Rightarrow> u32 \<Rightarrow> nat \<Rightarrow> harq_ctrl \<Rightarrow> (harq_ctrl \<times> int option) res" where
  "find_harq frame slot rmax c = find_harq_loop (Suc (length (nl_next (hc_feedback c)))) frame slot rmax c"

text \<open>The loop over the bits received in a slot; the first bit without a process ends it.\<close>

fun dl_feedback_bits :: "u32 \<Rightarrow> u32 \<Rightarrow> nat \<Rightarrow> bool list \<Rightarrow> harq_ctrl \<Rightarrow> harq_ctrl res" where
  "dl_feedback_bits frame slot rmax [] c = Inr c"
| "dl_feedback_bits frame slot rmax (ack # acks) c =
     res_bind (find_harq frame slot rmax c) (\<lambda>(c1, h).
     case h of
       None \<Rightarrow> Inr c1
     | Some q \<Rightarrow>
         res_bind (harq_get c1 q) (\<lambda>p.
         if \<not> hq_is_waiting p then Inl AssertFailed
         else res_bind (remove_front_nr_list (hc_feedback c1)) (\<lambda>f.
              res_bind (handle_dl_harq rmax (nl_head (hc_feedback c1)) ack (c1\<lparr>hc_feedback := f\<rparr>)) (\<lambda>c2.
              dl_feedback_bits frame slot rmax acks c2))))"

text \<open>PUCCH formats 0 and 1: a value for each process, and how sure the physical layer is.\<close>

definition handle_nr_uci_pucch_0_1 :: "u32 \<Rightarrow> u32 \<Rightarrow> nat \<Rightarrow> byte list \<Rightarrow> byte \<Rightarrow> harq_ctrl \<Rightarrow> harq_ctrl res" where
  "handle_nr_uci_pucch_0_1 frame slot rmax harq_values harq_confidence c =
     dl_feedback_bits frame slot rmax (map (\<lambda>v. v = 0 \<and> harq_confidence = 0) harq_values) c"

text \<open>Formats 2 to 4: bits packed into bytes. The byte is shifted by the number of the bit, not
  of the bit in the byte; a shift of an \<open>int\<close> by 32 or more is undefined.\<close>

definition uci_acknack :: "byte list \<Rightarrow> nat \<Rightarrow> bool" where
  "uci_acknack harq_payload harq_bit = (drop_bit harq_bit (harq_payload ! (harq_bit div 8)) AND 1 \<noteq> 0)"

definition handle_nr_uci_pucch_2_3_4 :: "u32 \<Rightarrow> u32 \<Rightarrow> nat \<Rightarrow> byte list \<Rightarrow> nat \<Rightarrow> byte \<Rightarrow> harq_ctrl \<Rightarrow> harq_ctrl res" where
  "handle_nr_uci_pucch_2_3_4 frame slot rmax harq_payload harq_bit_len harq_crc c =
     (if (harq_bit_len + 7) div 8 > length harq_payload \<or> harq_bit_len > 32 then Inl OutOfBounds
      else dl_feedback_bits frame slot rmax (map (\<lambda>b. harq_crc \<noteq> 1 \<and> uci_acknack harq_payload b) [0..<harq_bit_len]) c)"

text \<open>
  \<open>nr_generate_Msg4_MsgB\<close> takes a process before it looks for a PUCCH; when there is none (\<open>Some None\<close>) it returns.
  \<open>None\<close> is feedback disabled for the process.
\<close>

definition msg4_harq :: "(u16 \<times> u16) option option \<Rightarrow> harq_ctrl \<Rightarrow> (harq_ctrl \<times> bool) res" where
  "msg4_harq alloc c =
     (let sel = nl_head (hc_retrans c)
      in res_bind (if sel < 0 then dl_take_harq (- 1) c else Inr (c, sel)) (\<lambda>(c1, pid).
         case alloc of
           Some None \<Rightarrow> Inr (c1, False)
         | Some (Some pucch) \<Rightarrow> res_bind (dl_send_harq pid (Some pucch) c1) (\<lambda>c2. Inr (c2, True))
         | None \<Rightarrow> res_bind (dl_send_harq pid None c1) (\<lambda>c2. Inr (c2, True))))"

text \<open>The end of \<open>nr_check_Msg4_MsgB_Ack\<close>: the procedure is over when the process does not wait and is in its first round.\<close>

definition check_msg4_harq :: "int \<Rightarrow> harq_ctrl \<Rightarrow> (harq_ctrl \<times> bool) res" where
  "check_msg4_harq pid c =
     res_bind (harq_get c pid) (\<lambda>p.
     if \<not> hq_is_waiting p \<and> hq_round p = 0
     then if nl_head (hc_retrans c) \<ge> 0
          then res_bind (remove_nr_list pid (hc_retrans c)) (\<lambda>r. Inr (c\<lparr>hc_retrans := r\<rparr>, True))
          else Inr (c, True)
     else Inr (c, False))"

section \<open>Uplink\<close>

definition finish_nr_ul_harq :: "int \<Rightarrow> harq_ctrl \<Rightarrow> harq_ctrl res" where
  "finish_nr_ul_harq pid c =
     res_bind (harq_get c pid) (\<lambda>p.
     res_bind (add_tail_nr_list pid (hc_available c)) (\<lambda>a.
     Inr (harq_put pid (p\<lparr>hq_ndi := hq_ndi p XOR 1, hq_round := 0\<rparr>) (c\<lparr>hc_available := a\<rparr>))))"

definition abort_nr_ul_harq :: "int \<Rightarrow> harq_ctrl \<Rightarrow> harq_ctrl res" where
  "abort_nr_ul_harq pid c =
     res_bind (finish_nr_ul_harq pid c) (\<lambda>c1.
     res_bind (harq_get c1 pid) (\<lambda>p.
     Inr (c1\<lparr>hc_errors := hc_errors c1 + 1, hc_sched_bytes := max 0 (hc_sched_bytes c1 - uint (hq_tb_size p))\<rparr>)))"

definition ul_take_harq :: "int \<Rightarrow> harq_ctrl \<Rightarrow> (harq_ctrl \<times> int) res" where
  "ul_take_harq sel c =
     (if sel < 0
      then if nl_head (hc_available c) < 0 then Inl AssertFailed
           else res_bind (remove_front_nr_list (hc_available c)) (\<lambda>a. Inr (c\<lparr>hc_available := a\<rparr>, nl_head (hc_available c)))
      else res_bind (harq_get c sel) (\<lambda>p.
           if hq_round p = 0
           then res_bind (remove_nr_list sel (hc_available c)) (\<lambda>a. Inr (c\<lparr>hc_available := a\<rparr>, sel))
           else res_bind (remove_nr_list sel (hc_retrans c)) (\<lambda>r. Inr (c\<lparr>hc_retrans := r\<rparr>, sel))))"

text \<open>\<open>nr_schedule_ulsch\<close>, for the process that \<open>pf_ul\<close> chose: one that waits for its retransmission, or any.\<close>

definition ul_schedule_harq :: "nat \<Rightarrow> bool \<Rightarrow> int \<Rightarrow> u16 \<Rightarrow> u32 \<Rightarrow> harq_ctrl \<Rightarrow> harq_ctrl res" where
  "ul_schedule_harq harq_round_max disable_harq sel slot tb_size c =
     res_bind (ul_take_harq sel c) (\<lambda>(c1, pid).
     res_bind (harq_get c1 pid) (\<lambda>p.
     if hq_is_waiting p then Inl AssertFailed
     else
       res_bind
         (if disable_harq then finish_nr_ul_harq pid c1
          else res_bind (add_tail_nr_list pid (hc_feedback c1)) (\<lambda>f.
               Inr (harq_put pid (p\<lparr>hq_feedback_slot := slot, hq_is_waiting := True\<rparr>) (c1\<lparr>hc_feedback := f\<rparr>)))) (\<lambda>c2.
       res_bind (harq_get c2 pid) (\<lambda>q.
       if \<not> unat (hq_round q) < harq_round_max then Inl AssertFailed
       else Inr (if hq_round q = 0
                 then (harq_put pid (q\<lparr>hq_tb_size := tb_size\<rparr>) c2)\<lparr>hc_sched_bytes := hc_sched_bytes c2 + uint tb_size\<rparr>
                 else c2)))))"

text \<open>What a process whose transport block was not received goes through.\<close>

definition ul_harq_failed :: "nat \<Rightarrow> int \<Rightarrow> harq_proc \<Rightarrow> harq_ctrl \<Rightarrow> harq_ctrl res" where
  "ul_harq_failed harq_round_max pid p c =
     (if int (unat (hq_round p)) \<ge> int harq_round_max - 1 then abort_nr_ul_harq pid c
      else res_bind (add_tail_nr_list pid (hc_retrans c)) (\<lambda>r.
           Inr (harq_put pid (p\<lparr>hq_round := hq_round p + 1\<rparr>) (c\<lparr>hc_retrans := r\<rparr>))))"

text \<open>Processes before the one the CRC is for have been missed. \<open>None\<close>: it is not in the list.\<close>

fun ul_find_harq :: "nat \<Rightarrow> nat \<Rightarrow> int \<Rightarrow> harq_ctrl \<Rightarrow> (harq_ctrl \<times> bool) res" where
  "ul_find_harq 0 rmax harq_id c = Inl NoReturn"
| "ul_find_harq (Suc n) rmax harq_id c =
     (let pid = nl_head (hc_feedback c)
      in if pid < 0 then Inr (c, False)
         else if pid = harq_id then Inr (c, True)
         else res_bind (remove_front_nr_list (hc_feedback c)) (\<lambda>f.
              res_bind (harq_get c pid) (\<lambda>p.
              let p1 = p\<lparr>hq_is_waiting := False\<rparr>
              in res_bind (ul_harq_failed rmax pid p1 (harq_put pid p1 (c\<lparr>hc_feedback := f\<rparr>))) (ul_find_harq n rmax harq_id))))"

definition handle_nr_ul_harq :: "nat \<Rightarrow> int \<Rightarrow> bool \<Rightarrow> harq_ctrl \<Rightarrow> harq_ctrl res" where
  "handle_nr_ul_harq rmax harq_id tb_crc_status c =
     res_bind (ul_find_harq (Suc (length (nl_next (hc_feedback c)))) rmax harq_id c) (\<lambda>(c1, found).
     if \<not> found then Inr c1
     else res_bind (remove_front_nr_list (hc_feedback c1)) (\<lambda>f.
          res_bind (harq_get c1 harq_id) (\<lambda>p.
          if \<not> hq_is_waiting p then Inl AssertFailed
          else let p1 = p\<lparr>hq_feedback_slot := - 1, hq_is_waiting := False\<rparr>; c2 = harq_put harq_id p1 (c1\<lparr>hc_feedback := f\<rparr>)
               in if \<not> tb_crc_status then finish_nr_ul_harq harq_id c2 else ul_harq_failed rmax harq_id p1 c2)))"

end
