(* ===== verification/MacHarqInv.thy ===== *)
theory MacHarqInv
  imports MacHarq
begin

text \<open>
  The HARQ processes of a UE are always shared out between the three lists, one list each, and the state of a
  process fits its list: what every function of \<open>MacHarq\<close> does to that.
\<close>

section \<open>The invariant\<close>

text \<open>A process that is free, that waits for feedback, that waits to be sent again.\<close>

definition hp_free :: "harq_proc \<Rightarrow> bool" where
  "hp_free q \<longleftrightarrow> \<not> hq_is_waiting q \<and> hq_round q = 0"

definition hp_sent :: "nat \<Rightarrow> harq_proc \<Rightarrow> bool" where
  "hp_sent rmax q \<longleftrightarrow> hq_is_waiting q \<and> unat (hq_round q) < rmax"

definition hp_again :: "nat \<Rightarrow> harq_proc \<Rightarrow> bool" where
  "hp_again rmax q \<longleftrightarrow> \<not> hq_is_waiting q \<and> hq_round q \<noteq> 0 \<and> unat (hq_round q) < rmax"

definition procs_ok :: "(harq_proc \<Rightarrow> bool) \<Rightarrow> harq_proc list \<Rightarrow> int list \<Rightarrow> bool" where
  "procs_ok P ps xs \<longleftrightarrow> (\<forall>x \<in> set xs. 0 \<le> x \<and> P (ps ! nat x))"

text \<open>The processes in the hand of a function, those in the lists, and those that are not configured.\<close>

definition harq_view :: "nat \<Rightarrow> harq_ctrl \<Rightarrow> int list \<Rightarrow> int list \<Rightarrow> int list \<Rightarrow> int list \<Rightarrow> bool" where
  "harq_view rmax c h a f r \<longleftrightarrow>
     nl_repr (hc_available c) a \<and> nl_repr (hc_feedback c) f \<and> nl_repr (hc_retrans c) r \<and>
     nl_len (hc_feedback c) = nl_len (hc_available c) \<and> nl_len (hc_retrans c) = nl_len (hc_available c) \<and>
     nl_len (hc_available c) \<le> 32 \<and> length (hc_procs c) = NR_MAX_HARQ_PROCESSES \<and>
     distinct (h @ a @ f @ r) \<and> set (h @ a @ f @ r) = {0..<nl_len (hc_available c)} \<and>
     procs_ok hp_free (hc_procs c) a \<and> procs_ok (hp_sent rmax) (hc_procs c) f \<and> procs_ok (hp_again rmax) (hc_procs c) r \<and>
     procs_ok hp_free (hc_procs c) [nl_len (hc_available c)..31]"

definition harq_ok :: "nat \<Rightarrow> harq_ctrl \<Rightarrow> bool" where
  "harq_ok rmax c \<longleftrightarrow> (\<exists>a f r. harq_view rmax c [] a f r)"

lemma harq_okI: "harq_view rmax c [] a f r \<Longrightarrow> harq_ok rmax c"
  by (auto simp: harq_ok_def)

lemma procs_ok_simps [simp]:
  "procs_ok P ps []"
  "procs_ok P ps (x # xs) \<longleftrightarrow> 0 \<le> x \<and> P (ps ! nat x) \<and> procs_ok P ps xs"
  "procs_ok P ps (xs @ ys) \<longleftrightarrow> procs_ok P ps xs \<and> procs_ok P ps ys"
  by (auto simp: procs_ok_def)

lemma procs_ok_upd [simp]: "x \<notin> set xs \<Longrightarrow> 0 \<le> x \<Longrightarrow> procs_ok P (ps[nat x := q]) xs = procs_ok P ps xs"
  unfolding procs_ok_def by (metis nth_nat_upd(1))

lemma procs_ok_remove1: "procs_ok P ps xs \<Longrightarrow> procs_ok P ps (remove1 x xs)"
  unfolding procs_ok_def by (meson notin_set_remove1)

lemma harq_viewD:
  assumes "harq_view rmax c h a f r"
  shows "nl_repr (hc_available c) a" "nl_repr (hc_feedback c) f" "nl_repr (hc_retrans c) r"
    "nl_len (hc_feedback c) = nl_len (hc_available c)" "nl_len (hc_retrans c) = nl_len (hc_available c)"
    "nl_len (hc_available c) \<le> 32" "length (hc_procs c) = 32" "distinct (h @ a @ f @ r)"
    "set (h @ a @ f @ r) = {0..<nl_len (hc_available c)}" "procs_ok hp_free (hc_procs c) a"
    "procs_ok (hp_sent rmax) (hc_procs c) f" "procs_ok (hp_again rmax) (hc_procs c) r"
    "procs_ok hp_free (hc_procs c) [nl_len (hc_available c)..31]"
  using assms by (simp_all add: harq_view_def NR_MAX_HARQ_PROCESSES_def)

lemma harq_view_range:
  assumes "harq_view rmax c h a f r" "x \<in> set (h @ a @ f @ r)"
  shows "0 \<le> x" "x < nl_len (hc_available c)" "x < 32"
proof -
  have "x \<in> {0..<nl_len (hc_available c)}" using assms harq_viewD(9) by blast
  then show "0 \<le> x" "x < nl_len (hc_available c)" "x < 32" using harq_viewD(6) [OF assms(1)] by auto
qed

lemma harq_get_view:
  assumes "harq_view rmax c h a f r" "x \<in> set (h @ a @ f @ r)"
  shows "harq_get c x = Inr (hc_procs c ! nat x)"
  using harq_view_range [OF assms] harq_viewD(7) [OF assms(1)] by (simp add: harq_get_def)

lemma harq_put_frame [simp]:
  "hc_available (harq_put x q c) = hc_available c" "hc_feedback (harq_put x q c) = hc_feedback c"
  "hc_retrans (harq_put x q c) = hc_retrans c" "hc_procs (harq_put x q c) = (hc_procs c)[nat x := q]"
  "hc_errors (harq_put x q c) = hc_errors c" "hc_sched_bytes (harq_put x q c) = hc_sched_bytes c"
  by (simp_all add: harq_put_def)

lemma harq_view_cong:
  assumes "hc_available c' = hc_available c" "hc_feedback c' = hc_feedback c" "hc_retrans c' = hc_retrans c"
    "hc_procs c' = hc_procs c"
  shows "harq_view rmax c' h a f r = harq_view rmax c h a f r"
  using assms by (simp add: harq_view_def)

lemma harq_view_frame [simp]:
  "harq_view rmax (hc_errors_update g c) h a f r = harq_view rmax c h a f r"
  "harq_view rmax (hc_sched_bytes_update k c) h a f r = harq_view rmax c h a f r"
  by (simp_all add: harq_view_def)

text \<open>The process in the hand may change.\<close>

lemma harq_put_held:
  assumes "harq_view rmax c [x] a f r"
  shows "harq_view rmax (harq_put x q c) [x] a f r"
proof -
  have "0 \<le> x" "x < nl_len (hc_available c)" using harq_view_range [OF assms, of x] by simp_all
  with assms show ?thesis by (simp add: harq_view_def)
qed

section \<open>Taking a process out of a list\<close>

lemma take_available_front:
  assumes v: "harq_view rmax c [] (x # a) f r"
  shows "\<exists>l. remove_front_nr_list (hc_available c) = Inr l \<and> harq_view rmax (c\<lparr>hc_available := l\<rparr>) [x] a f r"
proof -
  obtain l where "remove_front_nr_list (hc_available c) = Inr l" "nl_repr l a" "nl_len l = nl_len (hc_available c)"
    using nl.pop [OF harq_viewD(1) [OF v]] by blast
  then show ?thesis using v by (auto simp: harq_view_def)
qed

lemma take_feedback_front:
  assumes v: "harq_view rmax c [] a (x # f) r"
  shows "\<exists>l. remove_front_nr_list (hc_feedback c) = Inr l \<and> harq_view rmax (c\<lparr>hc_feedback := l\<rparr>) [x] a f r"
proof -
  obtain l where "remove_front_nr_list (hc_feedback c) = Inr l" "nl_repr l f" "nl_len l = nl_len (hc_feedback c)"
    using nl.pop [OF harq_viewD(2) [OF v]] by blast
  then show ?thesis using v by (auto simp: harq_view_def)
qed

lemma harq_distinct_remove1: "distinct xs \<Longrightarrow> x \<in> set xs \<Longrightarrow> x \<notin> set (remove1 x xs) \<and> insert x (set (remove1 x xs)) = set xs"
  by auto

lemma take_available:
  assumes v: "harq_view rmax c [] a f r" and x: "x \<in> set a"
  shows "\<exists>l. remove_nr_list x (hc_available c) = Inr l \<and> harq_view rmax (c\<lparr>hc_available := l\<rparr>) [x] (remove1 x a) f r"
proof -
  obtain l where l: "remove_nr_list x (hc_available c) = Inr l" "nl_repr l (remove1 x a)" "nl_len l = nl_len (hc_available c)"
    using nl.del [OF harq_viewD(1) [OF v] x] by blast
  have d: "distinct a" "distinct (a @ f @ r)" using harq_viewD(8) [OF v] by simp_all
  then have "distinct ([x] @ remove1 x a @ f @ r)" "set ([x] @ remove1 x a @ f @ r) = set (a @ f @ r)" using x by auto
  with l show ?thesis using v procs_ok_remove1 [of hp_free "hc_procs c" a x] by (simp add: harq_view_def)
qed

lemma take_retrans:
  assumes v: "harq_view rmax c [] a f r" and x: "x \<in> set r"
  shows "\<exists>l. remove_nr_list x (hc_retrans c) = Inr l \<and> harq_view rmax (c\<lparr>hc_retrans := l\<rparr>) [x] a f (remove1 x r)"
proof -
  obtain l where l: "remove_nr_list x (hc_retrans c) = Inr l" "nl_repr l (remove1 x r)" "nl_len l = nl_len (hc_retrans c)"
    using nl.del [OF harq_viewD(3) [OF v] x] by blast
  have d: "distinct (a @ f @ r)" using harq_viewD(8) [OF v] by simp
  then have "distinct ([x] @ a @ f @ remove1 x r)" "set ([x] @ a @ f @ remove1 x r) = set (a @ f @ r)" using x by auto
  with l show ?thesis using v procs_ok_remove1 [of "hp_again rmax" "hc_procs c" r x] by (simp add: harq_view_def)
qed

section \<open>Putting it into one\<close>

lemma put_available:
  assumes v: "harq_view rmax c [x] a f r" and q: "hp_free q"
  shows "\<exists>l. add_tail_nr_list x (hc_available c) = Inr l \<and> harq_view rmax (harq_put x q (c\<lparr>hc_available := l\<rparr>)) [] (a @ [x]) f r"
proof -
  have x: "0 \<le> x" "x < nl_len (hc_available c)" "x < 32" using harq_view_range [OF v, of x] by simp_all
  obtain l where l: "add_tail_nr_list x (hc_available c) = Inr l" "nl_repr l (a @ [x])" "nl_len l = nl_len (hc_available c)"
    using nl.put [OF harq_viewD(1) [OF v], of x] x harq_viewD(8) [OF v] by auto
  with v q x show ?thesis by (auto simp: harq_view_def NR_MAX_HARQ_PROCESSES_def)
qed

lemma put_feedback:
  assumes v: "harq_view rmax c [x] a f r" and q: "hp_sent rmax q"
  shows "\<exists>l. add_tail_nr_list x (hc_feedback c) = Inr l \<and> harq_view rmax (harq_put x q (c\<lparr>hc_feedback := l\<rparr>)) [] a (f @ [x]) r"
proof -
  have x: "0 \<le> x" "x < nl_len (hc_available c)" "x < 32" using harq_view_range [OF v, of x] by simp_all
  obtain l where l: "add_tail_nr_list x (hc_feedback c) = Inr l" "nl_repr l (f @ [x])" "nl_len l = nl_len (hc_feedback c)"
    using nl.put [OF harq_viewD(2) [OF v], of x] x harq_viewD(4,8) [OF v] by auto
  with v q x show ?thesis by (auto simp: harq_view_def NR_MAX_HARQ_PROCESSES_def)
qed

lemma put_retrans:
  assumes v: "harq_view rmax c [x] a f r" and q: "hp_again rmax q"
  shows "\<exists>l. add_tail_nr_list x (hc_retrans c) = Inr l \<and> harq_view rmax (harq_put x q (c\<lparr>hc_retrans := l\<rparr>)) [] a f (r @ [x])"
proof -
  have x: "0 \<le> x" "x < nl_len (hc_available c)" "x < 32" using harq_view_range [OF v, of x] by simp_all
  obtain l where l: "add_tail_nr_list x (hc_retrans c) = Inr l" "nl_repr l (r @ [x])" "nl_len l = nl_len (hc_retrans c)"
    using nl.put [OF harq_viewD(3) [OF v], of x] x harq_viewD(5,8) [OF v] by auto
  with v q x show ?thesis by (auto simp: harq_view_def NR_MAX_HARQ_PROCESSES_def)
qed

text \<open>What the state of a process is about does not change.\<close>

lemma harq_put_same:
  assumes v: "harq_view rmax c [] a f r" and x: "x \<in> set (a @ f @ r)"
    and q: "hq_is_waiting q = hq_is_waiting (hc_procs c ! nat x)" "hq_round q = hq_round (hc_procs c ! nat x)"
  shows "harq_view rmax (harq_put x q c) [] a f r"
proof -
  have xr: "0 \<le> x" "x < nl_len (hc_available c)" "nat x < length (hc_procs c)"
    using harq_view_range [OF v, of x] x harq_viewD(7) [OF v] by auto
  have "procs_ok P ((hc_procs c)[nat x := q]) xs" if "procs_ok P (hc_procs c) xs" "P q = P (hc_procs c ! nat x)" for P xs
    using that xr unfolding procs_ok_def by (metis eq_nat_nat_iff nth_list_update_eq nth_list_update_neq)
  then show ?thesis using v q by (simp add: harq_view_def hp_free_def hp_sent_def hp_again_def)
qed

end
