(* ===== verification/MacHarqRuns.thy ===== *)
theory MacHarqRuns
  imports MacHarqInv
begin

text \<open>
  Every function of \<open>MacHarq\<close> completes and keeps the invariant, for feedback at any time and of any content;
  feedback is for the processes in the order in which they were sent. The properties of runs.
\<close>

section \<open>Feedback\<close>

definition harq_last :: "nat \<Rightarrow> harq_proc \<Rightarrow> bool" where
  "harq_last rmax q \<longleftrightarrow> int (unat (hq_round q)) \<ge> int rmax - 1"

lemma next_round:
  assumes "\<not> harq_last rmax q" "rmax \<le> 255" "\<not> hq_is_waiting p" "hq_round p = hq_round q + 1"
  shows "hp_again rmax p"
proof -
  have r: "unat (hq_round q) + 1 < rmax" using assms(1) unfolding harq_last_def by linarith
  then have n: "unat (hq_round q + 1) = unat (hq_round q) + 1" using assms(2) by (simp add: unat_word_ariths)
  then have "hq_round q + 1 \<noteq> 0" by (metis add_is_0 one_neq_zero unat_0)
  with n r assms(3,4) show ?thesis by (simp add: hp_again_def)
qed

lemma finish_ok:
  assumes v: "harq_view rmax c [x] a f r" and q: "\<not> hq_is_waiting (hc_procs c ! nat x)"
  shows "\<exists>c'. finish_nr_dl_harq x c = Inr c' \<and> harq_view rmax c' [] (a @ [x]) f r"
proof -
  define q' where "q' = (hc_procs c ! nat x)\<lparr>hq_ndi := hq_ndi (hc_procs c ! nat x) XOR 1, hq_round := 0\<rparr>"
  have "hp_free q'" using q by (simp add: q'_def hp_free_def)
  from put_available [OF v this] obtain l where "add_tail_nr_list x (hc_available c) = Inr l"
    "harq_view rmax (harq_put x q' (c\<lparr>hc_available := l\<rparr>)) [] (a @ [x]) f r" by blast
  then show ?thesis using harq_get_view [OF v, of x] by (simp add: finish_nr_dl_harq_def q'_def)
qed

lemma ul_finish_eq: "finish_nr_ul_harq = finish_nr_dl_harq"
  by (intro ext) (simp add: finish_nr_ul_harq_def finish_nr_dl_harq_def)

lemma handle_ok:
  assumes v: "harq_view rmax c [x] a f r" and m: "rmax \<le> 255"
  shows "\<exists>c'. handle_dl_harq rmax x success c = Inr c' \<and>
    (if success \<or> harq_last rmax (hc_procs c ! nat x) then harq_view rmax c' [] (a @ [x]) f r
     else harq_view rmax c' [] a f (r @ [x]))"
proof -
  define q where "q = hc_procs c ! nat x"
  define q1 where "q1 = q\<lparr>hq_feedback_slot := - 1, hq_is_waiting := False\<rparr>"
  have get: "harq_get c x = Inr q" using harq_get_view [OF v, of x] by (simp add: q_def)
  have xr: "0 \<le> x" "x < 32" using harq_view_range [OF v, of x] by simp_all
  note v1 = harq_put_held [OF v, of q1]
  have w: "\<not> hq_is_waiting (hc_procs (harq_put x q1 c) ! nat x)"
    using xr harq_viewD(7) [OF v] by (simp add: q1_def)
  from finish_ok [OF v1 w] obtain c1 where c1: "finish_nr_dl_harq x (harq_put x q1 c) = Inr c1"
    "harq_view rmax c1 [] (a @ [x]) f r" by blast
  show ?thesis
  proof (cases "success \<or> harq_last rmax q")
    case True
    then show ?thesis using get c1
      by (auto simp: handle_dl_harq_def abort_nr_dl_harq_def harq_last_def q_def [symmetric] q1_def [symmetric] Let_def)
  next
    case False
    then have "hp_again rmax (q1\<lparr>hq_round := hq_round q + 1\<rparr>)" by (intro next_round [OF _ m]) (auto simp: q1_def)
    from put_retrans [OF v1 this] obtain l where "add_tail_nr_list x (hc_retrans c) = Inr l"
      "harq_view rmax (harq_put x (q1\<lparr>hq_round := hq_round q + 1\<rparr>) ((harq_put x q1 c)\<lparr>hc_retrans := l\<rparr>)) [] a f (r @ [x])" by auto
    then show ?thesis using get False
      by (simp add: handle_dl_harq_def harq_last_def q_def [symmetric] q1_def [symmetric] Let_def)
  qed
qed

text \<open>The processes of the others are not touched.\<close>

lemma finish_procs: "finish_nr_dl_harq x c = Inr c' \<Longrightarrow> 0 \<le> x \<Longrightarrow> 0 \<le> y \<Longrightarrow> y \<noteq> x \<Longrightarrow> hc_procs c' ! nat y = hc_procs c ! nat y"
  by (auto simp: finish_nr_dl_harq_def res_bind_eq_Inr)

lemma handle_procs:
  assumes "handle_dl_harq rmax x s c = Inr c'" "0 \<le> x" "0 \<le> y" "y \<noteq> x"
  shows "hc_procs c' ! nat y = hc_procs c ! nat y"
proof -
  obtain p where p: "harq_get c x = Inr p" using assms(1) by (auto simp: handle_dl_harq_def res_bind_eq_Inr)
  define c1 where "c1 = harq_put x (p\<lparr>hq_feedback_slot := - 1, hq_is_waiting := False\<rparr>) c"
  have c1: "hc_procs c1 ! nat y = hc_procs c ! nat y" using assms(2-4) by (simp add: c1_def)
  consider (fin) d where "finish_nr_dl_harq x c1 = Inr d" "hc_procs c' = hc_procs d"
    | (again) q where "hc_procs c' = (hc_procs c1)[nat x := q]"
    using assms(1) p by (auto simp: handle_dl_harq_def abort_nr_dl_harq_def c1_def res_bind_eq_Inr Let_def split: if_splits)
  then show ?thesis
  proof cases
    case fin
    then show ?thesis using finish_procs [OF fin(1) assms(2-4)] c1 by simp
  qed (use c1 assms(2-4) in simp)
qed

text \<open>
  \<open>find_harq\<close> gives up on the processes whose slot is past, from the first on, and finds the next one if it is
  due now.
\<close>

lemma find_harq_loop_ok:
  assumes "harq_view rmax c [] a f r" and m: "rmax \<le> 255" and "length f < n"
  shows "\<exists>c' ms fs. find_harq_loop n frame slot rmax c =
      Inr (c', case fs of [] \<Rightarrow> None | x # l \<Rightarrow> if harq_future frame slot (hc_procs c ! nat x) then None else Some x) \<and>
    f = ms @ fs \<and> (\<forall>x \<in> set ms. harq_past frame slot (hc_procs c ! nat x)) \<and>
    (fs \<noteq> [] \<longrightarrow> \<not> harq_past frame slot (hc_procs c ! nat (hd fs))) \<and>
    harq_view rmax c' [] (a @ filter (\<lambda>x. harq_last rmax (hc_procs c ! nat x)) ms) fs
      (r @ filter (\<lambda>x. \<not> harq_last rmax (hc_procs c ! nat x)) ms) \<and>
    (\<forall>x \<in> set fs. hc_procs c' ! nat x = hc_procs c ! nat x)"
  using assms(1,3)
proof (induction n arbitrary: c a f r)
  case (Suc n)
  note v = Suc.prems(1)
  show ?case
  proof (cases f)
    case Nil
    then have "nl_head (hc_feedback c) < 0" using nl.first_neg [OF harq_viewD(2) [OF v]] by simp
    with v Nil show ?thesis by (intro exI [of _ c] exI [of _ "[]"]) (simp add: Let_def)
  next
    case (Cons x f')
    define q where "q = hc_procs c ! nat x"
    have xr: "0 \<le> x" using harq_view_range(1) [OF v, of x] Cons by simp
    have hd: "nl_head (hc_feedback c) = x" using nl.first [OF harq_viewD(2) [OF v]] Cons by simp
    have get: "harq_get c x = Inr q" using harq_get_view [OF v, of x] Cons by (simp add: q_def)
    show ?thesis
    proof (cases "harq_past frame slot q")
      case False
      with v Cons hd get xr show ?thesis
        by (intro exI [of _ c] exI [of _ "[]"] exI [of _ f]) (simp add: Let_def q_def)
    next
      case True
      obtain l where l: "remove_front_nr_list (hc_feedback c) = Inr l" "harq_view rmax (c\<lparr>hc_feedback := l\<rparr>) [x] a f' r"
        using take_feedback_front v Cons by blast
      define a1 where "a1 = (if harq_last rmax q then a @ [x] else a)"
      define r1 where "r1 = (if harq_last rmax q then r else r @ [x])"
      obtain c1 where c1: "handle_dl_harq rmax x False (c\<lparr>hc_feedback := l\<rparr>) = Inr c1" "harq_view rmax c1 [] a1 f' r1"
        using handle_ok [OF l(2) m, of False] by (auto simp: q_def a1_def r1_def split: if_splits)
      obtain c2 ms fs where c2: "find_harq_loop n frame slot rmax c1 =
          Inr (c2, case fs of [] \<Rightarrow> None | x # l \<Rightarrow> if harq_future frame slot (hc_procs c1 ! nat x) then None else Some x)"
        "f' = ms @ fs" "\<forall>x \<in> set ms. harq_past frame slot (hc_procs c1 ! nat x)"
        "fs \<noteq> [] \<longrightarrow> \<not> harq_past frame slot (hc_procs c1 ! nat (hd fs))"
        "harq_view rmax c2 [] (a1 @ filter (\<lambda>x. harq_last rmax (hc_procs c1 ! nat x)) ms) fs
          (r1 @ filter (\<lambda>x. \<not> harq_last rmax (hc_procs c1 ! nat x)) ms)"
        "\<forall>x \<in> set fs. hc_procs c2 ! nat x = hc_procs c1 ! nat x"
        using Suc.IH [OF c1(2)] Suc.prems(2) Cons by auto
      have same: "hc_procs c1 ! nat y = hc_procs c ! nat y" if "y \<in> set f'" for y
        using handle_procs [OF c1(1) xr, of y] harq_view_range(1) [OF v, of y] harq_viewD(8) [OF v] that Cons by auto
      then have fl: "filter (\<lambda>x. harq_last rmax (hc_procs c1 ! nat x)) ms = filter (\<lambda>x. harq_last rmax (hc_procs c ! nat x)) ms"
        "filter (\<lambda>x. \<not> harq_last rmax (hc_procs c1 ! nat x)) ms = filter (\<lambda>x. \<not> harq_last rmax (hc_procs c ! nat x)) ms"
        using c2(2) by (auto intro!: filter_cong)
      have "find_harq_loop (Suc n) frame slot rmax c =
          Inr (c2, case fs of [] \<Rightarrow> None | x # l \<Rightarrow> if harq_future frame slot (hc_procs c ! nat x) then None else Some x)"
        using hd get True l(1) c1(1) c2(1,2) xr same by (auto simp: Let_def split: list.split)
      moreover have "f = (x # ms) @ fs" using Cons c2(2) by simp
      moreover have "\<forall>y \<in> set (x # ms). harq_past frame slot (hc_procs c ! nat y)" using c2(2,3) same True by (auto simp: q_def)
      moreover have "fs \<noteq> [] \<longrightarrow> \<not> harq_past frame slot (hc_procs c ! nat (hd fs))" using c2(2,4) same by auto
      moreover have "harq_view rmax c2 [] (a @ filter (\<lambda>x. harq_last rmax (hc_procs c ! nat x)) (x # ms)) fs
          (r @ filter (\<lambda>x. \<not> harq_last rmax (hc_procs c ! nat x)) (x # ms))"
        using c2(5) by (simp add: fl a1_def r1_def q_def split: if_splits)
      moreover have "\<forall>y \<in> set fs. hc_procs c2 ! nat y = hc_procs c ! nat y" using c2(2,6) same by auto
      ultimately show ?thesis by blast
    qed
  qed
qed simp

lemma find_harq_ok:
  assumes "harq_view rmax c [] a f r" "rmax \<le> 255"
  shows "\<exists>c' q a' f' r'. find_harq frame slot rmax c = Inr (c', q) \<and> harq_view rmax c' [] a' f' r' \<and>
    (q \<noteq> None \<longrightarrow> (\<exists>x l. q = Some x \<and> f' = x # l))"
proof -
  have "length f < Suc (length (nl_next (hc_feedback c)))" using nl_repr_length [OF harq_viewD(2) [OF assms(1)]] by simp
  from find_harq_loop_ok [OF assms this, of frame slot] obtain c' ms fs where
    "find_harq frame slot rmax c = Inr (c', case fs of [] \<Rightarrow> None | x # l \<Rightarrow> if harq_future frame slot (hc_procs c ! nat x) then None else Some x)"
    "harq_view rmax c' [] (a @ filter (\<lambda>x. harq_last rmax (hc_procs c ! nat x)) ms) fs
      (r @ filter (\<lambda>x. \<not> harq_last rmax (hc_procs c ! nat x)) ms)"
    by (auto simp: find_harq_def)
  then show ?thesis by (cases fs) (fastforce split: if_splits)+
qed

lemma dl_feedback_bits_ok:
  assumes "harq_ok rmax c" and m: "rmax \<le> 255"
  shows "\<exists>c'. dl_feedback_bits frame slot rmax acks c = Inr c' \<and> harq_ok rmax c'"
  using assms(1)
proof (induction acks arbitrary: c)
  case (Cons ack acks)
  then obtain a f r where v: "harq_view rmax c [] a f r" by (auto simp: harq_ok_def)
  obtain c1 q a1 f1 r1 where c1: "find_harq frame slot rmax c = Inr (c1, q)" "harq_view rmax c1 [] a1 f1 r1"
    "q \<noteq> None \<longrightarrow> (\<exists>x l. q = Some x \<and> f1 = x # l)"
    using find_harq_ok [OF v m] by blast
  show ?case
  proof (cases q)
    case None
    with c1 show ?thesis by (auto simp: harq_ok_def)
  next
    case (Some x)
    then obtain l where f1: "f1 = x # l" using c1(3) by auto
    then have w: "hq_is_waiting (hc_procs c1 ! nat x)" using harq_viewD(11) [OF c1(2)] by (simp add: hp_sent_def)
    have hd: "nl_head (hc_feedback c1) = x" using nl.first [OF harq_viewD(2) [OF c1(2)]] f1 by simp
    have get: "harq_get c1 x = Inr (hc_procs c1 ! nat x)" using harq_get_view [OF c1(2), of x] f1 by simp
    obtain k where k: "remove_front_nr_list (hc_feedback c1) = Inr k" "harq_view rmax (c1\<lparr>hc_feedback := k\<rparr>) [x] a1 l r1"
      using take_feedback_front c1(2) f1 by blast
    obtain c2 where c2: "handle_dl_harq rmax x ack (c1\<lparr>hc_feedback := k\<rparr>) = Inr c2" "harq_ok rmax c2"
      using handle_ok [OF k(2) m, of ack] by (auto simp: harq_ok_def split: if_splits)
    then show ?thesis using Cons.IH [OF c2(2)] c1(1) Some w hd get k(1) by simp
  qed
qed simp

section \<open>Sending\<close>

lemma dl_send_ok:
  assumes v: "harq_view rmax c [x] a f r" and q: "\<not> hq_is_waiting (hc_procs c ! nat x)" "unat (hq_round (hc_procs c ! nat x)) < rmax"
  shows "\<exists>c'. dl_send_harq x pucch c = Inr c' \<and>
    (case pucch of None \<Rightarrow> harq_view rmax c' [] (a @ [x]) f r | Some s \<Rightarrow> harq_view rmax c' [] a (f @ [x]) r)"
proof (cases pucch)
  case None
  then show ?thesis using finish_ok [OF v q(1)] q(1) harq_get_view [OF v, of x] by (auto simp: dl_send_harq_def)
next
  case (Some s)
  obtain frame slot where s: "s = (frame, slot)" by fastforce
  let ?p = "(hc_procs c ! nat x)\<lparr>hq_feedback_frame := frame, hq_feedback_slot := slot, hq_is_waiting := True\<rparr>"
  have "hp_sent rmax ?p" using q(2) by (simp add: hp_sent_def)
  from put_feedback [OF v this] show ?thesis using q(1) harq_get_view [OF v, of x] Some s by (auto simp: dl_send_harq_def)
qed

text \<open>The process that is chosen is in the list that its round says.\<close>

lemma take_chosen:
  assumes v: "harq_view rmax c [] a f r" and m: "1 \<le> rmax" and x: "x \<in> set a \<or> x \<in> set r"
  shows "\<exists>c' a' r'. (if hq_round (hc_procs c ! nat x) = 0
      then res_bind (remove_nr_list x (hc_available c)) (\<lambda>l. Inr (c\<lparr>hc_available := l\<rparr>, x))
      else res_bind (remove_nr_list x (hc_retrans c)) (\<lambda>l. Inr (c\<lparr>hc_retrans := l\<rparr>, x))) = Inr (c', x) \<and>
    harq_view rmax c' [x] a' f r' \<and> hc_procs c' = hc_procs c \<and>
    \<not> hq_is_waiting (hc_procs c ! nat x) \<and> unat (hq_round (hc_procs c ! nat x)) < rmax"
proof (cases "x \<in> set a")
  case True
  then have q: "hp_free (hc_procs c ! nat x)" using harq_viewD(10) [OF v] by (simp add: procs_ok_def)
  from take_available [OF v True] obtain l where "remove_nr_list x (hc_available c) = Inr l"
    "harq_view rmax (c\<lparr>hc_available := l\<rparr>) [x] (remove1 x a) f r" by blast
  with q m show ?thesis by (intro exI [of _ "c\<lparr>hc_available := l\<rparr>"] exI [of _ "remove1 x a"] exI [of _ r]) (simp add: hp_free_def)
next
  case False
  with x have r: "x \<in> set r" by blast
  then have q: "hp_again rmax (hc_procs c ! nat x)" using harq_viewD(12) [OF v] by (simp add: procs_ok_def)
  from take_retrans [OF v r] obtain l where "remove_nr_list x (hc_retrans c) = Inr l"
    "harq_view rmax (c\<lparr>hc_retrans := l\<rparr>) [x] a f (remove1 x r)" by blast
  with q show ?thesis by (intro exI [of _ "c\<lparr>hc_retrans := l\<rparr>"] exI [of _ a] exI [of _ "remove1 x r"]) (simp add: hp_again_def)
qed

lemma harq_round_in_lists:
  assumes "harq_view rmax c [] a f r" "1 \<le> rmax" "x \<in> set (a @ f @ r)"
  shows "unat (hq_round (hc_procs c ! nat x)) < rmax"
  using harq_viewD(10-12) [OF assms(1)] assms(2,3) by (auto simp: procs_ok_def hp_free_def hp_sent_def hp_again_def)

lemma chosen_in_lists:
  assumes "harq_view rmax c [] a f r" "0 \<le> pf_dl_harq_pid c"
  shows "pf_dl_harq_pid c \<in> set a \<or> pf_dl_harq_pid c \<in> set r"
  using assms nl.first [OF harq_viewD(1) [OF assms(1)]] nl.first [OF harq_viewD(3) [OF assms(1)]]
  by (auto simp: pf_dl_harq_pid_def split: if_splits)

lemma dl_schedule_ok:
  assumes ok: "harq_ok rmax c" and m: "1 \<le> rmax" "rmax \<le> 255" and sel: "0 \<le> pf_dl_harq_pid c"
  shows "\<exists>c'. dl_schedule_harq rmax (pf_dl_harq_pid c) pucch TBS c = Inr c' \<and> harq_ok rmax c'"
proof -
  define x where "x = pf_dl_harq_pid c"
  obtain a f r where v: "harq_view rmax c [] a f r" using ok by (auto simp: harq_ok_def)
  have x: "x \<in> set a \<or> x \<in> set r" using chosen_in_lists [OF v sel] by (simp add: x_def)
  have get: "harq_get c x = Inr (hc_procs c ! nat x)" using harq_get_view [OF v, of x] x by auto
  have "0 \<le> x" using sel by (simp add: x_def)
  then have tk: "dl_take_harq x c = (if hq_round (hc_procs c ! nat x) = 0
      then res_bind (remove_nr_list x (hc_available c)) (\<lambda>l. Inr (c\<lparr>hc_available := l\<rparr>, x))
      else res_bind (remove_nr_list x (hc_retrans c)) (\<lambda>l. Inr (c\<lparr>hc_retrans := l\<rparr>, x)))"
    using get by (simp add: dl_take_harq_def)
  obtain c1 a1 r1 where c1: "dl_take_harq x c = Inr (c1, x)" "harq_view rmax c1 [x] a1 f r1"
    "\<not> hq_is_waiting (hc_procs c1 ! nat x)" "unat (hq_round (hc_procs c1 ! nat x)) < rmax"
    using take_chosen [OF v m(1) x] unfolding tk [symmetric] by metis
  from dl_send_ok [OF c1(2-4), of pucch] obtain c2 a2 f2 where c2: "dl_send_harq x pucch c1 = Inr c2"
    "harq_view rmax c2 [] a2 f2 r1" "x \<in> set (a2 @ f2 @ r1)"
    by (cases pucch) force+
  note get2 = harq_get_view [OF c2(2), of x]
  have "dl_schedule_harq rmax x pucch TBS c = Inr (if hq_round (hc_procs c2 ! nat x) = 0
      then harq_put x ((hc_procs c2 ! nat x)\<lparr>hq_tb_size := TBS\<rparr>) c2 else c2)"
    using c1(1) c2(1,3) get2 harq_round_in_lists [OF c2(2) m(1) c2(3)] by (simp add: dl_schedule_harq_def)
  moreover have "harq_view rmax (harq_put x ((hc_procs c2 ! nat x)\<lparr>hq_tb_size := TBS\<rparr>) c2) [] a2 f2 r1"
    by (rule harq_put_same [OF c2(2,3)]) simp_all
  ultimately show ?thesis using c2(2) by (auto simp: harq_ok_def x_def)
qed

section \<open>Configuration and reset\<close>

lemma add_all_ok:
  assumes "nl_repr l xs" "distinct (xs @ is)" "\<forall>i \<in> set is. 0 \<le> i \<and> i < nl_len l"
  shows "\<exists>l'. nr_list_add_all is l = Inr l' \<and> nl_repr l' (xs @ is) \<and> nl_len l' = nl_len l"
  using assms
proof (induction "is" arbitrary: l xs)
  case (Cons i "is")
  obtain l1 where l1: "add_tail_nr_list i l = Inr l1" "nl_repr l1 (xs @ [i])" "nl_len l1 = nl_len l"
    using nl.put [OF Cons.prems(1), of i] Cons.prems(2,3) by auto
  with Cons.IH [OF l1(2)] Cons.prems(2,3) show ?case by auto
qed simp

lemma procs_free_all:
  "length ps = 32 \<Longrightarrow> (\<forall>p \<in> set ps. hp_free p) \<Longrightarrow> (\<forall>x \<in> set xs. 0 \<le> x \<and> x < 32) \<Longrightarrow> procs_ok hp_free ps xs"
  by (auto simp: procs_ok_def)

definition nr_list_zero :: nr_list where
  "nr_list_zero = \<lparr>nl_head = 0, nl_next = [], nl_tail = 0, nl_len = 0\<rparr>"

text \<open>A new context is all zeros.\<close>

definition harq_ctrl_zero :: harq_ctrl where
  "harq_ctrl_zero = \<lparr>hc_available = nr_list_zero, hc_feedback = nr_list_zero, hc_retrans = nr_list_zero,
     hc_procs = replicate NR_MAX_HARQ_PROCESSES
       \<lparr>hq_is_waiting = False, hq_ndi = 0, hq_round = 0, hq_feedback_frame = 0, hq_feedback_slot = 0, hq_tb_size = 0\<rparr>,
     hc_errors = 0, hc_sched_bytes = 0\<rparr>"

lemma create_first:
  assumes n: "1 \<le> n" "n \<le> 32" and c: "nl_len (hc_available c) = 0" "length (hc_procs c) = 32" "procs_ok hp_free (hc_procs c) [0..31]"
  shows "\<exists>c'. create_dl_harq_list n c = Inr c' \<and> harq_ok rmax c'"
proof -
  obtain l where l: "nr_list_add_all [0..n - 1] (create_nr_list n) = Inr l" "nl_repr l [0..n - 1]" "nl_len l = n"
    using add_all_ok [OF create_repr, of n "[0..n - 1]"] n by (auto simp: create_nr_list_def)
  have e: "nl_repr (create_nr_list n) []" "nl_len (create_nr_list n) = n" using create_repr [of n] n by (simp_all add: create_nr_list_def)
  have "procs_ok hp_free (hc_procs c) [0..n - 1]" "procs_ok hp_free (hc_procs c) [n..31]"
    using c(3) n by (auto simp: procs_ok_def)
  then have "harq_view rmax (c\<lparr>hc_available := l, hc_feedback := create_nr_list n, hc_retrans := create_nr_list n\<rparr>) [] [0..n - 1] [] []"
    using l e n c(2) by (auto simp: harq_view_def NR_MAX_HARQ_PROCESSES_def)
  then show ?thesis using l c(1) by (auto simp: create_dl_harq_list_def harq_ok_def)
qed

lemma create_ok:
  assumes "1 \<le> n" "n \<le> 32"
  shows "\<exists>c. create_dl_harq_list n harq_ctrl_zero = Inr c \<and> harq_ok rmax c"
  using assms
  by (rule create_first) (auto simp: harq_ctrl_zero_def nr_list_zero_def NR_MAX_HARQ_PROCESSES_def hp_free_def intro!: procs_free_all)

lemma configure_ok:
  assumes ok: "harq_ok rmax c" and n: "1 \<le> n" "nl_len (hc_available c) \<le> n" "n \<le> 32"
  shows "\<exists>c'. create_dl_harq_list n c = Inr c' \<and> harq_ok rmax c'"
proof (cases "nl_len (hc_available c) = 0 \<or> nl_len (hc_available c) = n")
  case True
  then show ?thesis
  proof (elim disjE)
    assume z: "nl_len (hc_available c) = 0"
    obtain a f r where "harq_view rmax c [] a f r" using ok by (auto simp: harq_ok_def)
    from harq_viewD(7,13) [OF this] z show ?thesis by (intro create_first [OF n(1,3) z]) simp_all
  qed (use ok n in \<open>auto simp: create_dl_harq_list_def\<close>)
next
  case False
  define old where "old = nl_len (hc_available c)"
  obtain a f r where v: "harq_view rmax c [] a f r" using ok by (auto simp: harq_ok_def)
  note d = harq_viewD [OF v]
  have rs: "nl_repr (resize_nr_list n (hc_available c)) a" "nl_len (resize_nr_list n (hc_available c)) = n"
    "nl_repr (resize_nr_list n (hc_feedback c)) f" "nl_len (resize_nr_list n (hc_feedback c)) = n"
    "nl_repr (resize_nr_list n (hc_retrans c)) r" "nl_len (resize_nr_list n (hc_retrans c)) = n"
    using resize_repr d(1-5) n(2) by metis+
  have "\<forall>x \<in> set a. x < old" using harq_view_range(2) [OF v] by (simp add: old_def)
  then have disj: "distinct (a @ [old..n - 1])" "set (a @ f @ r) = {0..<old}" using d(8,9) by (auto simp: old_def)
  obtain l where l: "nr_list_add_all [old..n - 1] (resize_nr_list n (hc_available c)) = Inr l" "nl_repr l (a @ [old..n - 1])" "nl_len l = n"
    using add_all_ok [OF rs(1) disj(1)] rs(2) n nl_reprD(7) [OF d(1)] by (auto simp: old_def)
  have split: "procs_ok hp_free (hc_procs c) [old..n - 1]" "procs_ok hp_free (hc_procs c) [n..31]"
    using d(13) n(2,3) by (auto simp: procs_ok_def old_def)
  have "harq_view rmax (c\<lparr>hc_available := l, hc_feedback := resize_nr_list n (hc_feedback c), hc_retrans := resize_nr_list n (hc_retrans c)\<rparr>) []
      (a @ [old..n - 1]) f r"
  proof -
    have "set (a @ [old..n - 1] @ f @ r) = set (a @ f @ r) \<union> {old..n - 1}" by auto
    also have "\<dots> = {0..<n}" unfolding disj(2) using n(1,2) nl_reprD(7) [OF d(1)] by (auto simp: old_def)
    finally have "set (a @ [old..n - 1] @ f @ r) = {0..<n}" .
    moreover have "\<forall>x \<in> set (f @ r). x < old" using harq_view_range(2) [OF v] by (simp add: old_def)
    then have "{old..n - 1} \<inter> set (f @ r) = {}" by (auto simp: not_le [symmetric])
    then have "distinct ((a @ [old..n - 1]) @ f @ r)" using d(8) disj(1) by (simp add: Int_Un_distrib Int_Un_distrib2)
    ultimately show ?thesis unfolding harq_view_def using l rs d(7,10,11,12) split n(3)
      by (simp del: set_append distinct_append add: NR_MAX_HARQ_PROCESSES_def)
  qed
  then show ?thesis using l False n by (auto simp: create_dl_harq_list_def harq_ok_def Let_def old_def)
qed

lemma drain_eq: "nr_list_drain n l m = nl.drain n l m"
  by (induction n arbitrary: l m) (simp_all add: res_bind_def split: sum.split)

lemma reset_ok:
  assumes "harq_ok rmax c"
  shows "\<exists>c'. reset_dl_harq_list c = Inr c' \<and> harq_ok rmax c'"
proof -
  obtain a f r where v: "harq_view rmax c [] a f r" using assms by (auto simp: harq_ok_def)
  note d = harq_viewD [OF v]
  have dj: "set f \<inter> set a = {}" "distinct f" "distinct r" "set r \<inter> set (a @ f) = {}" using d(8) by auto
  obtain f1 a1 where f1: "nr_list_drain (Suc (length (nl_next (hc_feedback c)))) (hc_feedback c) (hc_available c) = Inr (f1, a1)"
    "nl_repr f1 []" "nl_repr a1 (a @ f)" "nl_len f1 = nl_len (hc_feedback c)" "nl_len a1 = nl_len (hc_available c)"
    using nl.drain_ok [OF d(2,1), of "Suc (length (nl_next (hc_feedback c)))"] d(4) dj(1,2) nl_repr_length [OF d(2)]
    by (auto simp: drain_eq)
  obtain r1 a2 where r1: "nr_list_drain (Suc (length (nl_next (hc_retrans c)))) (hc_retrans c) a1 = Inr (r1, a2)"
    "nl_repr r1 []" "nl_repr a2 (a @ f @ r)" "nl_len r1 = nl_len (hc_retrans c)" "nl_len a2 = nl_len a1"
    using nl.drain_ok [OF d(3) f1(3), of "Suc (length (nl_next (hc_retrans c)))"] d(5) f1(5) dj(3,4) nl_repr_length [OF d(3)]
    by (auto simp: drain_eq)
  let ?ps = "map (\<lambda>p. p\<lparr>hq_feedback_slot := - 1, hq_round := 0, hq_is_waiting := False\<rparr>) (hc_procs c)"
  have fr: "procs_ok hp_free ?ps xs" if "\<forall>x \<in> set xs. 0 \<le> x \<and> x < 32" for xs
    using that d(7) by (intro procs_free_all) (auto simp: hp_free_def)
  have "procs_ok hp_free ?ps (a @ f @ r)" by (rule fr) (use harq_view_range [OF v] in simp)
  moreover have "procs_ok hp_free ?ps [nl_len (hc_available c)..31]" by (rule fr) (use nl_reprD(7) [OF d(1)] in auto)
  ultimately have "harq_view rmax (c\<lparr>hc_feedback := f1, hc_retrans := r1, hc_available := a2, hc_procs := ?ps\<rparr>) [] (a @ f @ r) [] []"
    using f1 r1 d(4-9) by (simp add: harq_view_def NR_MAX_HARQ_PROCESSES_def)
  then show ?thesis using f1 r1 by (auto simp: reset_dl_harq_list_def harq_ok_def)
qed

end
