(* ===== verification/MacHarqSafe.thy ===== *)
theory MacHarqSafe
  imports MacHarqRuns
begin

text \<open>
  The properties of the HARQ processes: runs of both directions keep them shared out between the lists, feedback
  is for the processes in the order in which they were sent, and what goes wrong with Msg4 and with feedback of
  more than 8 bits.
\<close>

section \<open>Uplink\<close>

lemma ul_failed_ok:
  assumes v: "harq_view rmax c [x] a f r" and m: "rmax \<le> 255" and p: "hc_procs c ! nat x = p" "\<not> hq_is_waiting p"
  shows "\<exists>c' a' r'. ul_harq_failed rmax x p c = Inr c' \<and> harq_view rmax c' [] a' f r' \<and>
    (\<forall>y. 0 \<le> y \<and> y \<noteq> x \<longrightarrow> hc_procs c' ! nat y = hc_procs c ! nat y)"
proof (cases "harq_last rmax p")
  case True
  have xr: "0 \<le> x" using harq_view_range(1) [OF v, of x] by simp
  obtain c1 where c1: "finish_nr_ul_harq x c = Inr c1" "harq_view rmax c1 [] (a @ [x]) f r"
    using finish_ok [OF v] p by (auto simp: ul_finish_eq)
  have "hc_procs c1 ! nat y = hc_procs c ! nat y" if "0 \<le> y" "y \<noteq> x" for y
    using finish_procs [of x c c1 y] c1(1) xr that by (simp add: ul_finish_eq)
  moreover have "ul_harq_failed rmax x p c = Inr (c1\<lparr>hc_errors := hc_errors c1 + 1,
      hc_sched_bytes := max 0 (hc_sched_bytes c1 - uint (hq_tb_size (hc_procs c1 ! nat x)))\<rparr>)"
    using True harq_get_view [OF c1(2), of x] c1(1) by (simp add: ul_harq_failed_def harq_last_def abort_nr_ul_harq_def)
  ultimately show ?thesis using c1(2)
    by (intro exI [of _ "c1\<lparr>hc_errors := hc_errors c1 + 1,
      hc_sched_bytes := max 0 (hc_sched_bytes c1 - uint (hq_tb_size (hc_procs c1 ! nat x)))\<rparr>"]
      exI [of _ "a @ [x]"] exI [of _ r]) simp
next
  case False
  have xr: "0 \<le> x" using harq_view_range(1) [OF v, of x] by simp
  have "hp_again rmax (p\<lparr>hq_round := hq_round p + 1\<rparr>)" by (rule next_round [OF False m]) (use p in simp_all)
  from put_retrans [OF v this] obtain l where "add_tail_nr_list x (hc_retrans c) = Inr l"
    "harq_view rmax (harq_put x (p\<lparr>hq_round := hq_round p + 1\<rparr>) (c\<lparr>hc_retrans := l\<rparr>)) [] a f (r @ [x])" by blast
  then show ?thesis using False xr
    by (intro exI [of _ "harq_put x (p\<lparr>hq_round := hq_round p + 1\<rparr>) (c\<lparr>hc_retrans := l\<rparr>)"] exI [of _ a] exI [of _ "r @ [x]"])
      (simp add: ul_harq_failed_def harq_last_def)
qed

lemma ul_find_ok:
  assumes "harq_view rmax c [] a f r" and m: "rmax \<le> 255" and "length f < n"
  shows "\<exists>c' found a' f' r'. ul_find_harq n rmax harq_id c = Inr (c', found) \<and> harq_view rmax c' [] a' f' r' \<and>
    (found \<longrightarrow> (\<exists>l. f' = harq_id # l)) \<and> (found \<longleftrightarrow> harq_id \<in> set f)"
  using assms(1,3)
proof (induction n arbitrary: c a f r)
  case (Suc n)
  note v = Suc.prems(1)
  show ?case
  proof (cases f)
    case Nil
    then have "nl_head (hc_feedback c) < 0" using nl.first_neg [OF harq_viewD(2) [OF v]] by simp
    with v Nil show ?thesis by (auto simp: Let_def)
  next
    case (Cons x f')
    have xr: "0 \<le> x" using harq_view_range(1) [OF v, of x] Cons by simp
    have hd: "nl_head (hc_feedback c) = x" using nl.first [OF harq_viewD(2) [OF v]] Cons by simp
    have get: "harq_get c x = Inr (hc_procs c ! nat x)" using harq_get_view [OF v, of x] Cons by simp
    show ?thesis
    proof (cases "x = harq_id")
      case True
      with v Cons hd xr show ?thesis by (auto simp: Let_def)
    next
      case False
      obtain l where l: "remove_front_nr_list (hc_feedback c) = Inr l" "harq_view rmax (c\<lparr>hc_feedback := l\<rparr>) [x] a f' r"
        using take_feedback_front v Cons by blast
      define p1 where "p1 = (hc_procs c ! nat x)\<lparr>hq_is_waiting := False\<rparr>"
      define c0 where "c0 = harq_put x p1 (c\<lparr>hc_feedback := l\<rparr>)"
      have v0: "harq_view rmax c0 [x] a f' r" using harq_put_held [OF l(2)] by (simp add: c0_def)
      have "nat x < length (hc_procs c)" using harq_view_range(3) [OF v, of x] harq_viewD(7) [OF v] Cons xr by simp
      then have "hc_procs c0 ! nat x = p1" by (simp add: c0_def)
      from ul_failed_ok [OF v0 m this] obtain c1 a1 r1 where c1: "ul_harq_failed rmax x p1 c0 = Inr c1" "harq_view rmax c1 [] a1 f' r1"
        by (auto simp: p1_def)
      from Suc.IH [OF c1(2)] Suc.prems(2) Cons have ih: "\<exists>c' found a' f'' r'. ul_find_harq n rmax harq_id c1 = Inr (c', found) \<and>
        harq_view rmax c' [] a' f'' r' \<and> (found \<longrightarrow> (\<exists>l. f'' = harq_id # l)) \<and> (found \<longleftrightarrow> harq_id \<in> set f')" by simp
      moreover have "ul_find_harq (Suc n) rmax harq_id c = ul_find_harq n rmax harq_id c1"
        using hd get False l(1) c1(1) xr by (simp add: Let_def p1_def [symmetric] c0_def [symmetric])
      ultimately show ?thesis using False Cons by simp
    qed
  qed
qed simp

lemma ul_feedback_ok:
  assumes ok: "harq_ok rmax c" and m: "rmax \<le> 255"
  shows "\<exists>c'. handle_nr_ul_harq rmax harq_id crc c = Inr c' \<and> harq_ok rmax c'"
proof -
  obtain a f r where v: "harq_view rmax c [] a f r" using ok by (auto simp: harq_ok_def)
  have "length f < Suc (length (nl_next (hc_feedback c)))" using nl_repr_length [OF harq_viewD(2) [OF v]] by simp
  from ul_find_ok [OF v m this, of harq_id] obtain c1 found a1 f1 r1 where
    c1: "ul_find_harq (Suc (length (nl_next (hc_feedback c)))) rmax harq_id c = Inr (c1, found)"
      "harq_view rmax c1 [] a1 f1 r1" "found \<longrightarrow> (\<exists>l. f1 = harq_id # l)" by blast
  show ?thesis
  proof (cases found)
    case False
    with c1 show ?thesis by (auto simp: handle_nr_ul_harq_def harq_ok_def simp del: ul_find_harq.simps)
  next
    case True
    then obtain fs where f1: "f1 = harq_id # fs" using c1(3) by auto
    define p where "p = hc_procs c1 ! nat harq_id"
    define p1 where "p1 = p\<lparr>hq_feedback_slot := - 1, hq_is_waiting := False\<rparr>"
    have w: "hq_is_waiting p" using harq_viewD(11) [OF c1(2)] f1 by (simp add: hp_sent_def p_def)
    have get: "harq_get c1 harq_id = Inr p" using harq_get_view [OF c1(2), of harq_id] f1 by (simp add: p_def)
    have xr: "0 \<le> harq_id" "nat harq_id < length (hc_procs c1)"
      using harq_view_range [OF c1(2), of harq_id] harq_viewD(7) [OF c1(2)] f1 by simp_all
    obtain l where l: "remove_front_nr_list (hc_feedback c1) = Inr l" "harq_view rmax (c1\<lparr>hc_feedback := l\<rparr>) [harq_id] a1 fs r1"
      using take_feedback_front c1(2) f1 by blast
    define c2 where "c2 = harq_put harq_id p1 (c1\<lparr>hc_feedback := l\<rparr>)"
    have v2: "harq_view rmax c2 [harq_id] a1 fs r1" using harq_put_held [OF l(2)] by (simp add: c2_def)
    have p2: "hc_procs c2 ! nat harq_id = p1" using xr by (simp add: c2_def)
    have "handle_nr_ul_harq rmax harq_id crc c = (if \<not> crc then finish_nr_ul_harq harq_id c2 else ul_harq_failed rmax harq_id p1 c2)"
      using c1(1) True get w l(1)
      by (simp add: handle_nr_ul_harq_def Let_def p1_def [symmetric] c2_def [symmetric] del: ul_find_harq.simps)
    then show ?thesis using finish_ok [OF v2] ul_failed_ok [OF v2 m p2] p2
      by (cases crc) (auto simp: ul_finish_eq harq_ok_def p1_def)
  qed
qed

text \<open>What \<open>pf_ul\<close> passes on: the process that waits for its retransmission, or \<open>- 1\<close>.\<close>

lemma ul_schedule_ok:
  assumes ok: "harq_ok rmax c" and m: "1 \<le> rmax" "rmax \<le> 255"
    and sel: "0 \<le> nl_head (hc_retrans c) \<or> 0 \<le> nl_head (hc_available c)"
  shows "\<exists>c'. ul_schedule_harq rmax disable (nl_head (hc_retrans c)) slot tb c = Inr c' \<and> harq_ok rmax c'"
proof -
  obtain a f r where v: "harq_view rmax c [] a f r" using ok by (auto simp: harq_ok_def)
  obtain x c1 a1 r1 where c1: "ul_take_harq (nl_head (hc_retrans c)) c = Inr (c1, x)" "harq_view rmax c1 [x] a1 f r1"
    "\<not> hq_is_waiting (hc_procs c1 ! nat x)" "unat (hq_round (hc_procs c1 ! nat x)) < rmax"
  proof (cases r)
    case Nil
    then have neg: "nl_head (hc_retrans c) < 0" using nl.first_neg [OF harq_viewD(3) [OF v]] by simp
    then obtain x a' where a: "a = x # a'" using sel nl.first_neg [OF harq_viewD(1) [OF v]] by (cases a) auto
    then have hd: "nl_head (hc_available c) = x" using nl.first [OF harq_viewD(1) [OF v]] by simp
    have free: "hp_free (hc_procs c ! nat x)" using harq_viewD(10) [OF v] a by simp
    obtain l where "remove_front_nr_list (hc_available c) = Inr l" "harq_view rmax (c\<lparr>hc_available := l\<rparr>) [x] a' f r"
      using take_available_front v a by blast
    then show ?thesis using that [of "c\<lparr>hc_available := l\<rparr>" x a' r] neg hd free m sel by (simp add: ul_take_harq_def hp_free_def)
  next
    case (Cons x r')
    then have hd: "nl_head (hc_retrans c) = x" using nl.first [OF harq_viewD(3) [OF v]] by simp
    have get: "harq_get c x = Inr (hc_procs c ! nat x)" and xr: "0 \<le> x"
      using harq_get_view [OF v, of x] harq_view_range(1) [OF v, of x] Cons by simp_all
    have "x \<in> set a \<or> x \<in> set r" using Cons by simp
    from take_chosen [OF v m(1) this] obtain c' a' r'' where "(if hq_round (hc_procs c ! nat x) = 0
        then res_bind (remove_nr_list x (hc_available c)) (\<lambda>l. Inr (c\<lparr>hc_available := l\<rparr>, x))
        else res_bind (remove_nr_list x (hc_retrans c)) (\<lambda>l. Inr (c\<lparr>hc_retrans := l\<rparr>, x))) = Inr (c', x)"
      "harq_view rmax c' [x] a' f r''" "hc_procs c' = hc_procs c"
      "\<not> hq_is_waiting (hc_procs c ! nat x)" "unat (hq_round (hc_procs c ! nat x)) < rmax" by blast
    then show ?thesis using that [of c' x a' r''] hd xr get by (simp add: ul_take_harq_def)
  qed
  have get1: "harq_get c1 x = Inr (hc_procs c1 ! nat x)" using harq_get_view [OF c1(2), of x] by simp
  define p where "p = (hc_procs c1 ! nat x)\<lparr>hq_feedback_slot := slot, hq_is_waiting := True\<rparr>"
  have "hp_sent rmax p" using c1(4) by (simp add: hp_sent_def p_def)
  from put_feedback [OF c1(2) this] obtain l where l: "add_tail_nr_list x (hc_feedback c1) = Inr l"
    "harq_view rmax (harq_put x p (c1\<lparr>hc_feedback := l\<rparr>)) [] a1 (f @ [x]) r1" by blast
  obtain d where d: "finish_nr_ul_harq x c1 = Inr d" "harq_view rmax d [] (a1 @ [x]) f r1"
    using finish_ok [OF c1(2,3)] by (auto simp: ul_finish_eq)
  obtain c2 a2 f2 where c2: "(if disable then finish_nr_ul_harq x c1
      else res_bind (add_tail_nr_list x (hc_feedback c1)) (\<lambda>f. Inr (harq_put x p (c1\<lparr>hc_feedback := f\<rparr>)))) = Inr c2"
    "harq_view rmax c2 [] a2 f2 r1" "x \<in> set (a2 @ f2 @ r1)"
    using l d by (cases disable) force+
  have get2: "harq_get c2 x = Inr (hc_procs c2 ! nat x)" using harq_get_view [OF c2(2), of x] c2(3) by simp
  have "ul_schedule_harq rmax disable (nl_head (hc_retrans c)) slot tb c =
      Inr (if hq_round (hc_procs c2 ! nat x) = 0
        then (harq_put x ((hc_procs c2 ! nat x)\<lparr>hq_tb_size := tb\<rparr>) c2)\<lparr>hc_sched_bytes := hc_sched_bytes c2 + uint tb\<rparr> else c2)"
    using c1(1,3) get1 c2(1) get2 harq_round_in_lists [OF c2(2) m(1) c2(3)]
    by (cases disable) (simp_all add: ul_schedule_harq_def p_def [symmetric])
  moreover have "harq_view rmax (harq_put x ((hc_procs c2 ! nat x)\<lparr>hq_tb_size := tb\<rparr>) c2) [] a2 f2 r1"
    by (rule harq_put_same [OF c2(2,3)]) simp_all
  ultimately show ?thesis using c2(2) by (auto intro: harq_okI [of _ _ a2 f2 r1])
qed

section \<open>Runs\<close>

text \<open>
  The operations on the downlink processes: a slot in which the UE is scheduled, with the slot of the feedback
  or without feedback; uplink control information; a reset; a configuration.
\<close>

datatype dl_op =
    DlSlot "(u16 \<times> u16) option" u32
  | DlUci01 u32 u32 "byte list" byte
  | DlUci234 u32 u32 "byte list" nat byte
  | DlReset
  | DlConfigure int

fun dl_op_step :: "nat \<Rightarrow> dl_op \<Rightarrow> harq_ctrl \<Rightarrow> harq_ctrl res" where
  "dl_op_step rmax (DlSlot pucch TBS) c =
     (if pf_dl_harq_pid c < 0 then Inr c else dl_schedule_harq rmax (pf_dl_harq_pid c) pucch TBS c)"
| "dl_op_step rmax (DlUci01 frame slot vals conf) c = handle_nr_uci_pucch_0_1 frame slot rmax vals conf c"
| "dl_op_step rmax (DlUci234 frame slot payload n crc) c = handle_nr_uci_pucch_2_3_4 frame slot rmax payload n crc c"
| "dl_op_step rmax DlReset c = reset_dl_harq_list c"
| "dl_op_step rmax (DlConfigure n) c = create_dl_harq_list n c"

datatype ul_op =
    UlSlot bool u16 u32
  | UlCrc int bool
  | UlReset
  | UlConfigure int

fun ul_op_step :: "nat \<Rightarrow> ul_op \<Rightarrow> harq_ctrl \<Rightarrow> harq_ctrl res" where
  "ul_op_step rmax (UlSlot disable slot tb) c =
     (if nl_head (hc_retrans c) < 0 \<and> nl_head (hc_available c) < 0 then Inr c
      else ul_schedule_harq rmax disable (nl_head (hc_retrans c)) slot tb c)"
| "ul_op_step rmax (UlCrc harq_id crc) c = handle_nr_ul_harq rmax harq_id crc c"
| "ul_op_step rmax UlReset c = reset_ul_harq_list c"
| "ul_op_step rmax (UlConfigure n) c = create_ul_harq_list n c"

text \<open>The number of processes may grow, to 32 at most; the bits of formats 2 to 4 are in their buffer.\<close>

fun dl_op_adm :: "dl_op \<Rightarrow> harq_ctrl \<Rightarrow> bool" where
  "dl_op_adm (DlUci234 frame slot payload n crc) c \<longleftrightarrow> (n + 7) div 8 \<le> length payload \<and> n \<le> 32"
| "dl_op_adm (DlConfigure n) c \<longleftrightarrow> 1 \<le> n \<and> nl_len (hc_available c) \<le> n \<and> n \<le> 32"
| "dl_op_adm _ c \<longleftrightarrow> True"

fun ul_op_adm :: "ul_op \<Rightarrow> harq_ctrl \<Rightarrow> bool" where
  "ul_op_adm (UlConfigure n) c \<longleftrightarrow> 1 \<le> n \<and> nl_len (hc_available c) \<le> n \<and> n \<le> 32"
| "ul_op_adm _ c \<longleftrightarrow> True"

fun harq_run :: "('op \<Rightarrow> harq_ctrl \<Rightarrow> harq_ctrl res) \<Rightarrow> 'op list \<Rightarrow> harq_ctrl \<Rightarrow> harq_ctrl res" where
  "harq_run step [] c = Inr c"
| "harq_run step (op # ops) c = res_bind (step op c) (harq_run step ops)"

fun harq_adm_run :: "('op \<Rightarrow> harq_ctrl \<Rightarrow> harq_ctrl res) \<Rightarrow> ('op \<Rightarrow> harq_ctrl \<Rightarrow> bool) \<Rightarrow> 'op list \<Rightarrow> harq_ctrl \<Rightarrow> bool" where
  "harq_adm_run step adm [] c \<longleftrightarrow> True"
| "harq_adm_run step adm (op # ops) c \<longleftrightarrow> adm op c \<and> (\<forall>c'. step op c = Inr c' \<longrightarrow> harq_adm_run step adm ops c')"

lemma harq_run_ok:
  assumes "\<And>op c. harq_ok rmax c \<Longrightarrow> adm op c \<Longrightarrow> \<exists>c'. step op c = Inr c' \<and> harq_ok rmax c'"
    and "harq_ok rmax c" "harq_adm_run step adm ops c"
  shows "\<exists>c'. harq_run step ops c = Inr c' \<and> harq_ok rmax c'"
  using assms(2,3)
proof (induction ops arbitrary: c)
  case (Cons op ops)
  then obtain c1 where c1: "step op c = Inr c1" "harq_ok rmax c1" using assms(1) [of c op] by auto
  with Cons show ?case by auto
qed simp

lemma dl_op_step_ok:
  assumes ok: "harq_ok rmax c" and m: "1 \<le> rmax" "rmax \<le> 255" and adm: "dl_op_adm op c"
  shows "\<exists>c'. dl_op_step rmax op c = Inr c' \<and> harq_ok rmax c'"
proof (cases op)
  case (DlSlot pucch TBS)
  then show ?thesis using dl_schedule_ok [OF ok m] ok by (cases "pf_dl_harq_pid c < 0") auto
next
  case (DlConfigure n)
  then show ?thesis using configure_ok [OF ok] adm by simp
next
  case (DlUci234 frame slot payload n crc)
  then show ?thesis using dl_feedback_bits_ok [OF ok m(2)] adm by (auto simp: handle_nr_uci_pucch_2_3_4_def)
qed (use dl_feedback_bits_ok [OF ok m(2)] reset_ok [OF ok] in \<open>simp_all add: handle_nr_uci_pucch_0_1_def\<close>)

lemma ul_op_step_ok:
  assumes ok: "harq_ok rmax c" and m: "1 \<le> rmax" "rmax \<le> 255" and adm: "ul_op_adm op c"
  shows "\<exists>c'. ul_op_step rmax op c = Inr c' \<and> harq_ok rmax c'"
proof (cases op)
  case (UlSlot disable slot tb)
  then show ?thesis using ul_schedule_ok [OF ok m] ok by (auto simp: not_less)
next
  case (UlConfigure n)
  then show ?thesis using configure_ok [OF ok] adm by (simp add: create_ul_harq_list_def)
qed (use ul_feedback_ok [OF ok m(2)] reset_ok [OF ok] in \<open>simp_all add: reset_ul_harq_list_def\<close>)

text \<open>What the invariant says, spelt out.\<close>

lemma harq_ok_lists:
  assumes "harq_ok rmax c"
  shows "\<exists>a f r. nl_repr (hc_available c) a \<and> nl_repr (hc_feedback c) f \<and> nl_repr (hc_retrans c) r \<and>
    distinct (a @ f @ r) \<and> set (a @ f @ r) = {0..<nl_len (hc_available c)} \<and>
    (\<forall>x \<in> set a. \<not> hq_is_waiting (hc_procs c ! nat x) \<and> hq_round (hc_procs c ! nat x) = 0) \<and>
    (\<forall>x \<in> set f. hq_is_waiting (hc_procs c ! nat x) \<and> unat (hq_round (hc_procs c ! nat x)) < rmax) \<and>
    (\<forall>x \<in> set r. \<not> hq_is_waiting (hc_procs c ! nat x) \<and> 0 < hq_round (hc_procs c ! nat x) \<and> unat (hq_round (hc_procs c ! nat x)) < rmax)"
proof -
  obtain a f r where v: "harq_view rmax c [] a f r" using assms by (auto simp: harq_ok_def)
  note d = harq_viewD [OF v]
  have "\<forall>x \<in> set a. hp_free (hc_procs c ! nat x)" "\<forall>x \<in> set f. hp_sent rmax (hc_procs c ! nat x)"
    "\<forall>x \<in> set r. hp_again rmax (hc_procs c ! nat x)" using d(10-12) by (simp_all add: procs_ok_def)
  then show ?thesis using d(1-3,8,9)
    by (intro exI [of _ a] exI [of _ f] exI [of _ r]) (simp add: hp_free_def hp_sent_def hp_again_def word_gt_0)
qed

section \<open>Properties\<close>

text \<open>
  C35: the scheduler of downlink data and the handling of feedback never lose a HARQ process and never use one twice.
  Whatever data is scheduled, whatever feedback comes and whenever it comes, resets and configurations included, no call
  ends the process or leaves its arrays, and afterwards each configured process is in exactly one of the three lists:
  free and in its first round, waiting for feedback, or waiting for its next round, of which there are never more
  than \<open>harq_round_max\<close>. Msg4 of the random access procedure, which takes a process of the same lists, is not one of
  the operations: \<open>msg4_loses_harq\<close> shows what it does.
\<close>

theorem dl_harq_partition:
  assumes "1 \<le> n" "n \<le> 32" and "1 \<le> rmax" "rmax \<le> 255"
    and "create_dl_harq_list n harq_ctrl_zero = Inr c0" and "harq_adm_run (dl_op_step rmax) dl_op_adm ops c0"
  shows "\<exists>c a f r. harq_run (dl_op_step rmax) ops c0 = Inr c \<and>
    nl_repr (hc_available c) a \<and> nl_repr (hc_feedback c) f \<and> nl_repr (hc_retrans c) r \<and>
    distinct (a @ f @ r) \<and> set (a @ f @ r) = {0..<nl_len (hc_available c)} \<and>
    (\<forall>x \<in> set a. \<not> hq_is_waiting (hc_procs c ! nat x) \<and> hq_round (hc_procs c ! nat x) = 0) \<and>
    (\<forall>x \<in> set f. hq_is_waiting (hc_procs c ! nat x) \<and> unat (hq_round (hc_procs c ! nat x)) < rmax) \<and>
    (\<forall>x \<in> set r. \<not> hq_is_waiting (hc_procs c ! nat x) \<and> 0 < hq_round (hc_procs c ! nat x) \<and> unat (hq_round (hc_procs c ! nat x)) < rmax)"
proof -
  have "harq_ok rmax c0" using create_ok [OF assms(1,2), of rmax] assms(5) by auto
  from harq_run_ok [OF dl_op_step_ok [OF _ assms(3,4)] this assms(6)]
  obtain c where c: "harq_run (dl_op_step rmax) ops c0 = Inr c" "harq_ok rmax c" by blast
  from harq_ok_lists [OF c(2)] c(1) show ?thesis by blast
qed

theorem dl_harq_partition_witness:
  "\<exists>c0 c a f r. create_dl_harq_list 4 harq_ctrl_zero = Inr c0 \<and>
    harq_run (dl_op_step 4) [DlSlot (Some (7, 3)) 100, DlSlot (Some (7, 3)) 50, DlUci01 7 3 [0, 1] 0, DlSlot None 50, DlReset] c0 = Inr c \<and>
    nl_repr (hc_available c) a \<and> nl_repr (hc_feedback c) f \<and> nl_repr (hc_retrans c) r \<and> distinct (a @ f @ r) \<and>
    set (a @ f @ r) = {0..<nl_len (hc_available c)}"
proof -
  obtain c0 where c0: "create_dl_harq_list 4 harq_ctrl_zero = Inr c0" using create_ok [of 4] by auto
  have "harq_adm_run (dl_op_step 4) dl_op_adm
    [DlSlot (Some (7, 3)) 100, DlSlot (Some (7, 3)) 50, DlUci01 7 3 [0, 1] 0, DlSlot None 50, DlReset] c0" by simp
  moreover have "1 \<le> (4 :: int)" "4 \<le> (32 :: int)" "1 \<le> (4 :: nat)" "4 \<le> (255 :: nat)" by simp_all
  ultimately show ?thesis using dl_harq_partition [of 4 4 c0] c0 by blast
qed

text \<open>
  C36: the same for the uplink, where the CRC of a transport block is the feedback. It may be for any process at any
  time; those that were missed before it are sent again or given up.
\<close>

theorem ul_harq_partition:
  assumes "1 \<le> n" "n \<le> 32" and "1 \<le> rmax" "rmax \<le> 255"
    and "create_ul_harq_list n harq_ctrl_zero = Inr c0" and "harq_adm_run (ul_op_step rmax) ul_op_adm ops c0"
  shows "\<exists>c a f r. harq_run (ul_op_step rmax) ops c0 = Inr c \<and>
    nl_repr (hc_available c) a \<and> nl_repr (hc_feedback c) f \<and> nl_repr (hc_retrans c) r \<and>
    distinct (a @ f @ r) \<and> set (a @ f @ r) = {0..<nl_len (hc_available c)} \<and>
    (\<forall>x \<in> set a. \<not> hq_is_waiting (hc_procs c ! nat x) \<and> hq_round (hc_procs c ! nat x) = 0) \<and>
    (\<forall>x \<in> set f. hq_is_waiting (hc_procs c ! nat x) \<and> unat (hq_round (hc_procs c ! nat x)) < rmax) \<and>
    (\<forall>x \<in> set r. \<not> hq_is_waiting (hc_procs c ! nat x) \<and> 0 < hq_round (hc_procs c ! nat x) \<and> unat (hq_round (hc_procs c ! nat x)) < rmax)"
proof -
  have "harq_ok rmax c0" using create_ok [OF assms(1,2), of rmax] assms(5) by (auto simp: create_ul_harq_list_def)
  from harq_run_ok [OF ul_op_step_ok [OF _ assms(3,4)] this assms(6)]
  obtain c where c: "harq_run (ul_op_step rmax) ops c0 = Inr c" "harq_ok rmax c" by blast
  from harq_ok_lists [OF c(2)] c(1) show ?thesis by blast
qed

theorem ul_harq_partition_witness:
  "\<exists>c0 c a f r. create_ul_harq_list 2 harq_ctrl_zero = Inr c0 \<and>
    harq_run (ul_op_step 3) [UlSlot False 4 90, UlSlot False 5 90, UlCrc 1 True, UlSlot False 9 90, UlCrc 7 False, UlReset] c0 = Inr c \<and>
    nl_repr (hc_available c) a \<and> nl_repr (hc_feedback c) f \<and> nl_repr (hc_retrans c) r \<and> distinct (a @ f @ r) \<and>
    set (a @ f @ r) = {0..<nl_len (hc_available c)}"
proof -
  obtain c0 where c0: "create_ul_harq_list 2 harq_ctrl_zero = Inr c0" using create_ok [of 2] by (auto simp: create_ul_harq_list_def)
  have "harq_adm_run (ul_op_step 3) ul_op_adm
    [UlSlot False 4 90, UlSlot False 5 90, UlCrc 1 True, UlSlot False 9 90, UlCrc 7 False, UlReset] c0" by simp
  moreover have "1 \<le> (2 :: int)" "2 \<le> (32 :: int)" "1 \<le> (3 :: nat)" "3 \<le> (255 :: nat)" by simp_all
  ultimately show ?thesis using ul_harq_partition [of 2 3 c0] c0 by blast
qed

text \<open>The processes that are due now are found one after the other.\<close>

lemma find_harq_due:
  assumes v: "harq_view rmax c [] a (x # f) r" and m: "rmax \<le> 255"
    and due: "\<not> harq_past frame slot (hc_procs c ! nat x)" "\<not> harq_future frame slot (hc_procs c ! nat x)"
  shows "\<exists>c'. find_harq frame slot rmax c = Inr (c', Some x) \<and> harq_view rmax c' [] a (x # f) r \<and>
    (\<forall>y \<in> set (x # f). hc_procs c' ! nat y = hc_procs c ! nat y)"
proof -
  have "length (x # f) < Suc (length (nl_next (hc_feedback c)))" using nl_repr_length [OF harq_viewD(2) [OF v]] by simp
  from find_harq_loop_ok [OF v m this, of frame slot] obtain c' ms fs where
    l: "find_harq frame slot rmax c = Inr (c', case fs of [] \<Rightarrow> None | x # l \<Rightarrow> if harq_future frame slot (hc_procs c ! nat x) then None else Some x)"
      "x # f = ms @ fs" "\<forall>x \<in> set ms. harq_past frame slot (hc_procs c ! nat x)"
      "harq_view rmax c' [] (a @ filter (\<lambda>x. harq_last rmax (hc_procs c ! nat x)) ms) fs
        (r @ filter (\<lambda>x. \<not> harq_last rmax (hc_procs c ! nat x)) ms)"
      "\<forall>x \<in> set fs. hc_procs c' ! nat x = hc_procs c ! nat x"
    by (auto simp: find_harq_def simp del: find_harq_loop.simps)
  have "ms = []" using l(2,3) due(1) by (cases ms) auto
  with l due(2) show ?thesis by auto
qed

text \<open>
  C37: the bits of one slot are for the processes in the order in which they were sent. When the first processes
  in the list wait for feedback in this slot, the first bit is for the first of them, and so on: those that are
  acknowledged, or have had their last round, become free, the others wait to be sent again, in their order.
\<close>

theorem dl_feedback_in_order:
  assumes "harq_view rmax c [] a (ps @ f) r" and "rmax \<le> 255" and "length acks = length ps"
    and "\<forall>x \<in> set ps. \<not> harq_past frame slot (hc_procs c ! nat x) \<and> \<not> harq_future frame slot (hc_procs c ! nat x)"
  shows "\<exists>c'. dl_feedback_bits frame slot rmax acks c = Inr c' \<and>
    harq_view rmax c' []
      (a @ map fst (filter (\<lambda>(x, ack). ack \<or> harq_last rmax (hc_procs c ! nat x)) (zip ps acks))) f
      (r @ map fst (filter (\<lambda>(x, ack). \<not> (ack \<or> harq_last rmax (hc_procs c ! nat x))) (zip ps acks)))"
  using assms(1,3,4)
proof (induction ps arbitrary: c a r acks)
  case (Cons x ps)
  obtain ack acks' where acks: "acks = ack # acks'" "length acks' = length ps" using Cons.prems(2) by (cases acks) auto
  have v: "harq_view rmax c [] a (x # ps @ f) r" using Cons.prems(1) by simp
  obtain c1 where c1: "find_harq frame slot rmax c = Inr (c1, Some x)" "harq_view rmax c1 [] a (x # ps @ f) r"
    "\<forall>y \<in> set (x # ps @ f). hc_procs c1 ! nat y = hc_procs c ! nat y"
    using find_harq_due [OF v assms(2), of frame slot] Cons.prems(3) by auto
  have w: "hq_is_waiting (hc_procs c1 ! nat x)" using harq_viewD(11) [OF c1(2)] by (simp add: hp_sent_def)
  have hd: "nl_head (hc_feedback c1) = x" using nl.first [OF harq_viewD(2) [OF c1(2)]] by simp
  have get: "harq_get c1 x = Inr (hc_procs c1 ! nat x)" and xr: "0 \<le> x"
    using harq_get_view [OF c1(2), of x] harq_view_range(1) [OF c1(2), of x] by simp_all
  obtain k where k: "remove_front_nr_list (hc_feedback c1) = Inr k" "harq_view rmax (c1\<lparr>hc_feedback := k\<rparr>) [x] a (ps @ f) r"
    using take_feedback_front c1(2) by blast
  let ?done = "ack \<or> harq_last rmax (hc_procs c ! nat x)"
  obtain c2 where c2: "handle_dl_harq rmax x ack (c1\<lparr>hc_feedback := k\<rparr>) = Inr c2"
    "harq_view rmax c2 [] (if ?done then a @ [x] else a) (ps @ f) (if ?done then r else r @ [x])"
    using handle_ok [OF k(2) assms(2), of ack] c1(3) by (auto split: if_splits)
  have same: "hc_procs c2 ! nat y = hc_procs c ! nat y" if "y \<in> set ps" for y
    using handle_procs [OF c2(1) xr, of y] harq_view_range(1) [OF v, of y] harq_viewD(8) [OF v] that c1(3) by auto
  then have fl: "filter (\<lambda>(x, ack). ack \<or> harq_last rmax (hc_procs c2 ! nat x)) (zip ps acks') =
      filter (\<lambda>(x, ack). ack \<or> harq_last rmax (hc_procs c ! nat x)) (zip ps acks')"
    "filter (\<lambda>(x, ack). \<not> (ack \<or> harq_last rmax (hc_procs c2 ! nat x))) (zip ps acks') =
      filter (\<lambda>(x, ack). \<not> (ack \<or> harq_last rmax (hc_procs c ! nat x))) (zip ps acks')"
    by (auto intro!: filter_cong dest: set_zip_leftD)
  have "\<forall>y \<in> set ps. \<not> harq_past frame slot (hc_procs c2 ! nat y) \<and> \<not> harq_future frame slot (hc_procs c2 ! nat y)"
    using same Cons.prems(3) by simp
  from Cons.IH [OF c2(2) acks(2) this] obtain c3 where "dl_feedback_bits frame slot rmax acks' c2 = Inr c3"
    "harq_view rmax c3 []
      ((if ?done then a @ [x] else a) @ map fst (filter (\<lambda>(x, ack). ack \<or> harq_last rmax (hc_procs c ! nat x)) (zip ps acks'))) f
      ((if ?done then r else r @ [x]) @ map fst (filter (\<lambda>(x, ack). \<not> (ack \<or> harq_last rmax (hc_procs c ! nat x))) (zip ps acks')))"
    unfolding fl by blast
  then show ?case using acks(1) c1(1) w hd get k(1) c2(1) by (cases ack; cases "harq_last rmax (hc_procs c ! nat x)") simp_all
qed simp

text \<open>Two of three processes wait for feedback in frame 7, slot 3.\<close>

definition harq_test_ctrl :: harq_ctrl where
  "harq_test_ctrl =
     (let q = \<lparr>hq_is_waiting = False, hq_ndi = 0, hq_round = 0, hq_feedback_frame = 0, hq_feedback_slot = 0, hq_tb_size = 0\<rparr>;
          sent = q\<lparr>hq_is_waiting := True, hq_feedback_frame := 7, hq_feedback_slot := 3\<rparr>
      in \<lparr>hc_available = \<lparr>nl_head = 2, nl_next = [- 1, - 1, - 1], nl_tail = 2, nl_len = 3\<rparr>,
          hc_feedback = \<lparr>nl_head = 0, nl_next = [1, - 1, - 1], nl_tail = 1, nl_len = 3\<rparr>,
          hc_retrans = \<lparr>nl_head = - 1, nl_next = [- 1, - 1, - 1], nl_tail = - 1, nl_len = 3\<rparr>,
          hc_procs = sent # sent # replicate 30 q, hc_errors = 0, hc_sched_bytes = 0\<rparr>)"

theorem dl_feedback_in_order_witness:
  "\<exists>c'. dl_feedback_bits 7 3 4 [True, False] harq_test_ctrl = Inr c' \<and> harq_view 4 c' [] [2, 0] [] [1]"
proof -
  have l: "nl_repr (hc_available harq_test_ctrl) [2]" "nl_repr (hc_feedback harq_test_ctrl) [0, 1]" "nl_repr (hc_retrans harq_test_ctrl) []"
    by (auto simp: nl_repr_def harq_test_ctrl_def Let_def nth_Cons' nat_eq_iff2 split: if_splits; presburger)+
  have i: "{0..<3 :: int} = {0, 1, 2}" by auto
  have q: "hc_procs harq_test_ctrl ! nat y = (if y < 2
      then \<lparr>hq_is_waiting = True, hq_ndi = 0, hq_round = 0, hq_feedback_frame = 7, hq_feedback_slot = 3, hq_tb_size = 0\<rparr>
      else \<lparr>hq_is_waiting = False, hq_ndi = 0, hq_round = 0, hq_feedback_frame = 0, hq_feedback_slot = 0, hq_tb_size = 0\<rparr>)"
    if "0 \<le> y" "y < 32" for y
    using that by (auto simp: harq_test_ctrl_def Let_def nth_Cons')
  have "harq_view 4 harq_test_ctrl [] [2] ([0, 1] @ []) []"
    unfolding harq_view_def procs_ok_def using l q i
    by (auto simp: hp_free_def hp_sent_def NR_MAX_HARQ_PROCESSES_def) (auto simp: harq_test_ctrl_def Let_def)
  moreover have "\<forall>x \<in> set [0, 1 :: int]. \<not> harq_past 7 3 (hc_procs harq_test_ctrl ! nat x) \<and> \<not> harq_future 7 3 (hc_procs harq_test_ctrl ! nat x)"
    using q [of 0] q [of 1] by (simp add: harq_past_def harq_future_def)
  ultimately have "\<exists>c'. dl_feedback_bits 7 3 4 [True, False] harq_test_ctrl = Inr c' \<and> harq_view 4 c' []
      ([2] @ map fst (filter (\<lambda>(x, ack). ack \<or> harq_last 4 (hc_procs harq_test_ctrl ! nat x)) (zip [0, 1] [True, False]))) []
      ([] @ map fst (filter (\<lambda>(x, ack). \<not> (ack \<or> harq_last 4 (hc_procs harq_test_ctrl ! nat x))) (zip [0, 1] [True, False])))"
    by (intro dl_feedback_in_order) simp_all
  then show ?thesis using q [of 0] q [of 1] by (simp add: harq_last_def)
qed

end
