(* ===== verification/MacHarqFaults.thy ===== *)
theory MacHarqFaults
  imports MacHarqSafe
begin

text \<open>
  What goes wrong with HARQ processes: in the random access procedure, which takes processes outside the operations of
  \<open>MacHarqSafe\<close>, and in feedback of more than 8 bits.
\<close>

fun msg4_attempts :: "nat \<Rightarrow> harq_ctrl \<Rightarrow> harq_ctrl res" where
  "msg4_attempts 0 c = Inr c"
| "msg4_attempts (Suc n) c = res_bind (msg4_harq (Some None) c) (\<lambda>(c', sent). msg4_attempts n c')"

text \<open>
  C38: each Msg4 for which there is no PUCCH loses a HARQ process. The process is taken out of the free list before
  the PUCCH is looked for, and is not put back when there is none. After 8 attempts a UE with 8 processes has none,
  in no list; the next attempt reads and writes in front of the array of the list.
\<close>

theorem msg4_loses_harq:
  "res_holds (\<lambda>c. nl_head (hc_available c) = - 1 \<and> nl_head (hc_feedback c) = - 1 \<and> nl_head (hc_retrans c) = - 1 \<and>
      pf_dl_harq_pid c = - 1 \<and> msg4_harq (Some None) c = Inl OutOfBounds)
    (res_bind (create_dl_harq_list 8 harq_ctrl_zero) (msg4_attempts 8))"
  by code_simp

text \<open>
  When the procedure is over, \<open>nr_check_Msg4_MsgB_Ack\<close> removes its process from the retransmissions if there are any,
  even if it is not among them: with another process waiting there, the search runs off the end of the list.
\<close>

theorem check_msg4_overread:
  "fault_of (res_bind (create_dl_harq_list 8 harq_ctrl_zero) (\<lambda>c0.
    res_bind (harq_run (dl_op_step 4) [DlSlot (Some (7, 3)) 100, DlSlot (Some (7, 3)) 50, DlUci01 7 3 [0, 1] 0] c0)
      (check_msg4_harq 0))) = Some OutOfBounds"
  by code_simp

text \<open>
  C39: with PUCCH formats 2 to 4 no process after the eighth is ever acknowledged, whatever the UE sends: the byte of
  the bit is shifted by 8 or more. A transport block that arrived is sent again in every round and then counted
  as lost.
\<close>

theorem uci_ninth_bit_never_acks:
  "\<not> uci_acknack payload (8 + k)"
proof -
  have "drop_bit (8 + k) x = (0 :: byte)" for x by (rule bit_word_eqI) (auto simp: bit_drop_bit_eq dest: bit_imp_le_length)
  then show ?thesis by (simp add: uci_acknack_def)
qed

end
