(* ===== verification/Spec2Isabelle.thy ===== *)
theory Spec2Isabelle
  imports RlcTm RlcUmStream RlcUmFaults RlcAmLink RlcAmFaults Snow3gUse PdcpFaults PdcpOverRlc SdapFaults PdcpConfig RlcApiFaults RingQueue MacHarqFaults
begin

text \<open>
  The 5G layer 2 of Q-RAN: the code of \<open>openair2/LAYER2\<close>, \<open>openair2/SDAP\<close> and \<open>openair3/SECU\<close> that carries
  packets between the core network and the radio scheduler, with what it needs of \<open>common/utils\<close> and
  \<open>openair2/F1AP\<close>. Source paths below are relative to the root of the repository's C sources.

  \<^bold>\<open>How the parts interact.\<close> Downlink, a packet of a QoS flow enters SDAP (\<open>sdap_data_req\<close>), which chooses the
  bearer and writes the SDAP header; PDCP numbers, ciphers and protects it (\<open>nr_pdcp_data_req_drb\<close>), and its
  thread hands the PDU to RLC through a ring (\<open>enqueue_rlc_data_req\<close>, \<open>rlc_data_req_thread\<close>). RLC keeps it until
  MAC asks for bytes (\<open>mac_rlc_status_ind\<close>, \<open>mac_rlc_data_req\<close>) and cuts it into PDUs of the size asked for.
  Uplink, MAC hands PDUs to RLC (\<open>mac_rlc_data_ind\<close>), which reassembles, acknowledges and calls \<open>deliver_sdu\<close>; a
  second ring takes the SDU to PDCP (\<open>do_pdcp_data_ind\<close>), which verifies, deciphers and reorders, and to SDAP
  (\<open>sdap_data_ind\<close>), which finds the flow. RRC configures all of them through the same files. Each layer keeps
  a table of UEs under one lock: a call is one step, and the model has no interleaving inside one, except
  for the two rings, whose locking is what \<open>RingQueue\<close> is about.

  \<^bold>\<open>How code becomes definitions.\<close> A struct is a record, an enumeration or a tagged union a datatype, a function
  a function of the state that returns the new state. \<open>u8\<close> to \<open>u64\<close> fields are words and wrap; an \<open>int\<close> that stays
  in range is an \<open>int\<close>. A function that may end the process (\<open>exit\<close>, a failed \<open>AssertFatal\<close> or \<open>DevAssert\<close>), follow
  a null pointer or read outside a buffer returns \<open>'a res\<close> (\<open>Prelude\<close>): \<open>Inl\<close> tells which, so every theorem
  with \<open>Inr\<close> on the right says that nothing of the kind happens. Callbacks are events the entity emits, in
  order. A linked list is a list; where the code keeps an end pointer or cuts a list at a cell, so does the
  model (\<open>RlcSdu\<close>, \<open>RlcAmControl\<close>). SDUs shared by segments live in an explicit heap with their counts of
  references. A clock that is read is an argument. Left out everywhere: logging and tracing, \<open>malloc\<close> that
  fails, locks other than those of the rings.

  \<^bold>\<open>The theories\<close>

  \<^item> \<open>Prelude\<close>: abnormal termination, bits of a byte and their value, \<open>memcpy\<close> into a buffer, collections of facts.
  \<^item> RLC, \<open>openair2/LAYER2/nr_rlc\<close>. \<open>RlcPdu\<close> (\<open>nr_rlc_pdu.c\<close>: reception list, bit decoder and encoder; the locale
    \<open>sn_order\<close> of the orders of sequence numbers), \<open>RlcSdu\<close> (\<open>nr_rlc_sdu.c\<close>), \<open>TimeStat\<close> (\<open>common/utils/time_stat.c\<close>;
    locale \<open>windowed_average\<close>), \<open>RlcCommon\<close> (\<open>nr_rlc_entity.h\<close>, and the locale \<open>rlc_machine\<close>: what a step function,
    an invariant and an admissibility must satisfy for runs to be safe), \<open>RlcTm\<close> (\<open>nr_rlc_entity_tm.c\<close>),
    \<open>RlcReassembly\<close> (the reassembly code the AM and UM entities share), \<open>RlcUm\<close> (\<open>nr_rlc_entity_um.c\<close>) with
    \<open>RlcUmRx\<close>, \<open>RlcUmTx\<close>, \<open>RlcUmMachine\<close> for the invariants of its halves and of its operations, \<open>RlcUmLink\<close> and
    \<open>RlcUmStream\<close> for two entities and a link. The AM entity (\<open>nr_rlc_entity_am.c\<close>) is \<open>RlcAm\<close> (state, reception),
    \<open>RlcAmControl\<close> (status PDUs received), \<open>RlcAmTx\<close> (serialisation, polling), \<open>RlcAmEntity\<close> (everything else);
    \<open>RlcSegments\<close>, \<open>RlcAmFlow\<close>, \<open>RlcAmInv\<close>, \<open>RlcAmSend\<close>, \<open>RlcAmCtrlInv\<close>, \<open>RlcAmStatus\<close>, \<open>RlcAmTimers\<close>, \<open>RlcAmRx\<close> hold its
    invariants, \<open>RlcAmMachine\<close> its runs, \<open>RlcAmLink\<close> two entities. \<open>RlcManager\<close> (\<open>nr_rlc_ue_manager.c\<close>), \<open>RlcAsn1\<close>
    (\<open>asn1_utils.c\<close>), \<open>RlcApi\<close> and \<open>RlcConfig\<close> (\<open>nr_rlc_oai_api.c\<close>), with \<open>RlcApiInv\<close>, \<open>RlcApiRuns\<close>, \<open>RlcApiSafe\<close>
    for the invariant of the module and its runs. \<open>RlcUmFaults\<close>, \<open>RlcAmFaults\<close>, \<open>RlcApiFaults\<close>: runs on which the
    code does not do what it means to.
  \<^item> Security, \<open>openair3/SECU\<close> and the \<open>nr_pdcp_security\<close> files. \<open>Snow3gTables\<close>, \<open>Snow3g\<close> (\<open>snow3g.c\<close> as written: the
    moving pointer, the lookup tables), \<open>Snow3gRef\<close> (the cipher as specified, over a shifted register, and bit
    by bit multiplication), \<open>Snow3gUse\<close> (UEA2 and UIA2, equal to what the code computes; locale \<open>stream_cipher\<close>),
    \<open>PdcpSecurity\<close> (the NEA and NIA functions and the stream functions of NAS).
  \<^item> PDCP, \<open>openair2/LAYER2/nr_pdcp\<close>. \<open>PdcpEntity\<close> (\<open>nr_pdcp_entity.c\<close>, \<open>nr_pdcp_sdu.c\<close>), \<open>PdcpCount\<close> (COUNT and
    header), \<open>PdcpRx\<close>, \<open>PdcpMachine\<close> (invariants), \<open>PdcpRuns\<close> (runs), \<open>PdcpChannel\<close> (two entities and a channel that
    loses, repeats and reorders), \<open>PdcpOverRlc\<close> (PDCP over RLC UM, end to end), \<open>PdcpManager\<close>
    (\<open>nr_pdcp_ue_manager.c\<close>), \<open>PdcpApi\<close> and \<open>PdcpConfig\<close> (\<open>nr_pdcp_oai_api.c\<close>, \<open>asn1_utils.c\<close>,
    \<open>nr_pdcp_timer_thread.c\<close>), \<open>PdcpFaults\<close>, \<open>RingQueue\<close> (the two rings, their threads and the condition variable
    they share).
  \<^item> SDAP, \<open>openair2/SDAP/nr_sdap\<close>: \<open>Sdap\<close>, \<open>SdapFlows\<close> (routing and round trip), \<open>SdapTable\<close> (runs on the list of
    entities), \<open>SdapFaults\<close>. \<open>F1apIds\<close>: \<open>openair2/F1AP/f1ap_ids.c\<close>.
  \<^item> MAC, \<open>openair2/LAYER2/NR_MAC_gNB\<close>. \<open>NrList\<close> (\<open>NR_list_t\<close>: lists of numbers linked through an array, proved to be
    lists without repetitions), \<open>MacHarq\<close> (the HARQ processes of a UE, from \<open>gNB_scheduler_dlsch.c\<close>, \<open>_ulsch.c\<close>, \<open>_uci.c\<close> and
    \<open>_RA.c\<close>), \<open>MacHarqInv\<close>, \<open>MacHarqRuns\<close>, \<open>MacHarqSafe\<close> (their invariant, operations and runs), \<open>MacHarqFaults\<close>.
  \<^item> \<open>KeyedTable\<close>: the locales \<open>keyed_table\<close> and \<open>keyed_directory\<close>, what the three tables of the program promise (an
    entry is found after it is stored, others are not touched, removal removes exactly one).

  \<^bold>\<open>What the lemmas show\<close>

  \<^item> Safety. Each entity is a machine (\<open>tm_step\<close>, \<open>um_step\<close>, \<open>am_step\<close>, \<open>pdcp_step\<close>, \<open>sdap_step\<close>) and each module a
    machine over its table (\<open>rlc_api_step\<close>). Every admissible run completes and keeps the invariant. The
    admissibility predicates (\<open>tm_adm\<close>, \<open>um_adm\<close>, \<open>am_adm\<close>, \<open>pdcp_adm\<close>, \<open>sdap_adm\<close>, \<open>rlc_api_adm\<close>) say what the
    callers owe; that they are not empty is shown by the witnesses, that they are needed by the theories of
    faults. They do not bound the order or the number of operations, nor, beyond the rules each names, what a
    peer sends.
  \<^item> Function. Received segments are reassembled exactly when they are complete and to what was sent; what one end
    serialises the other reads; UM refines a bounded queue over a link that loses nothing and has blocks of at least
    three bytes, and delivers everything when MAC asks for enough; PDCP delivers in order, once, and only what carries a valid MAC when integrity is on;
    the table-driven ciphers are the specified ones; SDAP finds the flow and the bearer; the module functions
    act on the UE and the bearer they name and on nothing else. A HARQ process is in exactly one of the lists of its
    UE, as long as only data is scheduled (Msg4 is apart), and feedback is for the process that waits for it. The rings are
    queues under every interleaving, and with not more senders than places no wake-up is lost.
  \<^item> Reports to MAC: the size of a status PDU and the bytes of new data that \<open>buffer_status\<close> announces are exact, the
    bytes to retransmit are never too few; buffers stay within their sizes. The exception is a bearer that does not
    exist, for which the number is indeterminate.
  \<^item> Faults. The theorems of kind error run the model on concrete inputs on which the code reads outside a buffer,
    follows a null pointer, ends the process or loses data; they name the lines.

  \<^bold>\<open>Interfaces.\<close> \<open>rlc_machine\<close> is interpreted on the TM, UM and AM entities and on the entity of any mode;
  \<open>sn_order\<close> on the orders of the AM and UM receivers; \<open>windowed_average\<close> on \<open>time_stat.c\<close>; \<open>stream_cipher\<close> on UEA2;
  \<open>keyed_table\<close> on the list of SDAP entities; \<open>keyed_directory\<close>, which extends it by a lookup that creates, on the UE
  managers of RLC and PDCP; \<open>ring_size\<close> on both rings; \<open>id_list\<close> on \<open>NR_list_t\<close>.

  \<^bold>\<open>Parameters.\<close> \<open>crypto_env\<close> (\<open>PdcpSecurity\<close>) holds what is not in the repository: AES counter mode and CMAC of
  OpenSSL, of which \<open>env_ok\<close> states that counter mode keeps the length and is its own inverse and that a CMAC has 16
  bytes, and the uninitialised arrays of SNOW 3G, of which only the length is used: the results are proved not
  to depend on them. Types generated from ASN.1 are records of the fields the code reads.

  \<^bold>\<open>Bounds and fuel.\<close> Loops are structural recursions or functions with a measure. \<open>SDAP_MAX_NUM_OF_ENTITIES\<close>
  bounds the loops over the list of SDAP entities in the code, and the invariant keeps the list shorter. The 10,000
  places of the rings and the 10,000,000 bytes of the RLC buffers are the constants of the code. The evaluation of
  status PDUs has a measure on the lists and the bits left, so it ends for every PDU.

  \<^bold>\<open>Not modelled.\<close> RRC, F1AP, E1AP, NGAP and X2AP work on ASN.1 types that are generated by the build and are not
  in the repository. GTP-U, SCTP, the TLS layer and the TUN interface are socket input and output. The physical layer
  is SIMD signal processing. The rest of the MAC scheduler fills messages for the physical layer from floating point
  estimates and ASN.1 configurations. The 4G stack is not the program's core. Inside the modelled files: start-up,
  the E1 messages, reading from TUN sockets, and printing.
\<close>

end
